(* ===== verification/Prelude.thy ===== *)
theory Prelude
  imports Main "HOL-Library.Word" "HOL-Library.AList" "HOL-Library.Multiset"
begin

text \<open>
  The vocabulary every component shares: the machine integer types, the model of
  \<open>std::unordered_map\<close> (an association list without duplicate keys whose order is not
  observable: a loop over it visits the elements in an order the environment chooses), and the
  interface a client of such a container may rely on.
\<close>

section \<open>Machine integers\<close>

type_synonym uint8 = "8 word"
type_synonym uint16 = "16 word"
type_synonym uint32 = "32 word"
type_synonym uint64 = "64 word"

text \<open>
  \<open>t_tick\<close> and \<open>int64\<close> are signed 64-bit counters whose overflow is undefined
  behaviour in the source; they are unbounded integers here, and every narrowing cast of the code
  is written out (\<open>word_of_int\<close>).
\<close>

type_synonym t_tick = int
type_synonym int64 = int

named_theorems umap_simps "lookup and update laws of unordered maps"
named_theorems wf_intros "operations that keep a container free of duplicate keys"

text \<open>The value of a conversion to a signed 16-bit integer, and \<open>cap_value\<close>.\<close>

definition to_int16 :: "int \<Rightarrow> int" where
  "to_int16 i = sint (word_of_int i :: 16 word)"

lemma to_int16_id: "- 32768 \<le> i \<Longrightarrow> i < 32768 \<Longrightarrow> to_int16 i = i"
  by (simp add: to_int16_def int_word_sint)

definition cap_value :: "int \<Rightarrow> int \<Rightarrow> int \<Rightarrow> int" where
  "cap_value a lo hi = (if a \<ge> hi then hi else if a \<le> lo then lo else a)"

section \<open>Arrays\<close>

text \<open>\<open>ARR_FIND\<close>: the first index that matches, the length when there is none.\<close>

fun arr_find :: "('a \<Rightarrow> bool) \<Rightarrow> 'a list \<Rightarrow> nat" where
  "arr_find P [] = 0"
| "arr_find P (x # xs) = (if P x then 0 else Suc (arr_find P xs))"

lemma arr_find_found: "x \<in> set xs \<Longrightarrow> P x \<Longrightarrow> arr_find P xs < length xs \<and> P (xs ! arr_find P xs)"
  by (induction xs) auto

lemma arr_find_none: "(\<forall>x \<in> set xs. \<not> P x) \<Longrightarrow> arr_find P xs = length xs"
  by (induction xs) auto

lemma arr_find_le: "arr_find P xs \<le> length xs"
  by (induction xs) auto

lemma arr_find_nth: "arr_find P xs < length xs \<Longrightarrow> P (xs ! arr_find P xs)"
  by (induction xs) auto

lemma arr_find_before: "i < arr_find P xs \<Longrightarrow> \<not> P (xs ! i)"
  by (induction xs arbitrary: i) (auto simp: nth_Cons' split: if_splits)

section \<open>An arbitrary visiting order\<close>

text \<open>
  \<open>perm_by p xs\<close> lists \<open>xs\<close> in the order the choice function \<open>p\<close>
  picks: with \<open>Suc n\<close> elements left, the element at \<open>p n mod Suc n\<close> comes
  next. It is a permutation for every \<open>p\<close>, and every permutation is obtained from some
  \<open>p\<close>, so a statement about all \<open>p\<close> is a statement about all orders.
\<close>

function perm_by :: "(nat \<Rightarrow> nat) \<Rightarrow> 'a list \<Rightarrow> 'a list" where
  "perm_by p [] = []"
| "perm_by p (x # xs) =
     (let i = p (length xs) mod Suc (length xs)
      in (x # xs) ! i # perm_by p (take i (x # xs) @ drop (Suc i) (x # xs)))"
  by pat_completeness auto
termination
  by (relation "measure (\<lambda>(p, xs). length xs)") (auto simp: min_def)

lemma mset_remove_nth:
  assumes "i < length xs"
  shows "add_mset (xs ! i) (mset (take i xs @ drop (Suc i) xs)) = mset xs"
proof -
  have "mset xs = mset (take i xs @ xs ! i # drop (Suc i) xs)"
    using assms by (simp add: id_take_nth_drop [symmetric])
  then show ?thesis by simp
qed

lemma length_remove_nth: "i < length xs \<Longrightarrow> length (take i xs @ drop (Suc i) xs) = length xs - 1"
  by (simp add: min_def)

lemma mset_perm_by [simp]: "mset (perm_by p xs) = mset xs"
proof (induction p xs rule: perm_by.induct)
  case (1 p)
  show ?case by simp
next
  case (2 p x xs)
  let ?i = "p (length xs) mod Suc (length xs)"
  have lt: "?i < length (x # xs)" by simp
  have "mset (perm_by p (x # xs)) =
      add_mset ((x # xs) ! ?i) (mset (take ?i (x # xs) @ drop (Suc ?i) (x # xs)))"
    using "2.IH" [OF refl] by (simp add: Let_def del: nth_Cons')
  also have "\<dots> = mset (x # xs)" by (rule mset_remove_nth [OF lt])
  finally show ?case .
qed

lemma set_perm_by [simp]: "set (perm_by p xs) = set xs"
  by (metis mset_perm_by set_mset_mset)

lemma length_perm_by [simp]: "length (perm_by p xs) = length xs"
  by (metis mset_perm_by size_mset)

lemma distinct_perm_by [simp]: "distinct (perm_by p xs) = distinct xs"
  by (metis mset_perm_by mset_eq_imp_distinct_iff)

lemma perm_by_cong:
  "(\<And>n. n < length xs \<Longrightarrow> p n = q n) \<Longrightarrow> perm_by p xs = perm_by q xs"
proof (induction p xs rule: perm_by.induct)
  case (1 p)
  show ?case by simp
next
  case (2 p x xs)
  let ?i = "p (length xs) mod Suc (length xs)"
  let ?r = "take ?i (x # xs) @ drop (Suc ?i) (x # xs)"
  have lt: "?i < length (x # xs)" by simp
  have len: "length ?r = length xs"
    by (rule trans [OF length_remove_nth [OF lt]]) simp
  have "perm_by p ?r = perm_by q ?r"
    by (rule "2.IH" [OF refl], rule "2.prems", use len in simp)
  moreover have "p (length xs) = q (length xs)" by (rule "2.prems") simp
  ultimately show ?case by (simp add: Let_def)
qed

lemma perm_by_complete: "mset xs = mset ys \<Longrightarrow> \<exists>p. perm_by p xs = ys"
proof (induction ys arbitrary: xs)
  case Nil
  then show ?case by simp
next
  case (Cons y ys)
  then have "y \<in> set xs" by (metis list.set_intros(1) set_mset_mset)
  then obtain i where i: "i < length xs" "xs ! i = y" by (auto simp: in_set_conv_nth)
  then obtain z zs where xs: "xs = z # zs" by (cases xs) auto
  let ?r = "take i xs @ drop (Suc i) xs"
  have "mset ?r = mset ys"
    using mset_remove_nth [OF i(1)] i(2) Cons.prems by simp
  then obtain p where p: "perm_by p ?r = ys" using Cons.IH by blast
  have lr: "length ?r = length zs" using i(1) xs by (simp add: min_def)
  let ?q = "p(length zs := i)"
  have "perm_by ?q ?r = perm_by p ?r"
    by (rule perm_by_cong) (use lr in auto)
  moreover have "?q (length zs) mod Suc (length zs) = i" using i(1) xs by simp
  ultimately have "perm_by ?q xs = xs ! i # ys"
    using p xs by (simp add: Let_def)
  with i(2) show ?case by blast
qed

section \<open>Unordered maps\<close>

type_synonym ('k, 'v) umap = "('k \<times> 'v) list"

text \<open>\<open>m.find(k)\<close>, \<open>m[k] = v\<close>, \<open>m.erase(k)\<close>, a range-for over \<open>m\<close>, and no duplicate keys.\<close>

definition um_find :: "('k, 'v) umap \<Rightarrow> 'k \<Rightarrow> 'v option" where
  "um_find m k = map_of m k"

definition um_put :: "'k \<Rightarrow> 'v \<Rightarrow> ('k, 'v) umap \<Rightarrow> ('k, 'v) umap" where
  "um_put k v m = AList.update k v m"

definition um_erase :: "'k \<Rightarrow> ('k, 'v) umap \<Rightarrow> ('k, 'v) umap" where
  "um_erase k m = AList.delete k m"

definition um_iter :: "(nat \<Rightarrow> nat) \<Rightarrow> ('k, 'v) umap \<Rightarrow> ('k \<times> 'v) list" where
  "um_iter p m = perm_by p m"

definition um_wf :: "('k, 'v) umap \<Rightarrow> bool" where
  "um_wf m \<longleftrightarrow> distinct (map fst m)"

text \<open>
  Derived operations: changing the element of an iterator (\<open>it->second.f()\<close>, nothing when
  the key is absent), the subscript operator followed by a change of the element (a missing element
  is value-initialised first), a loop that changes every element, and erasing while iterating.
\<close>

definition um_modify :: "'k \<Rightarrow> ('v \<Rightarrow> 'v) \<Rightarrow> ('k, 'v) umap \<Rightarrow> ('k, 'v) umap" where
  "um_modify k f m = (case um_find m k of None \<Rightarrow> m | Some v \<Rightarrow> um_put k (f v) m)"

definition um_at :: "'k \<Rightarrow> 'v \<Rightarrow> ('v \<Rightarrow> 'v) \<Rightarrow> ('k, 'v) umap \<Rightarrow> ('k, 'v) umap" where
  "um_at k d f m = um_put k (f (case um_find m k of None \<Rightarrow> d | Some v \<Rightarrow> v)) m"

definition um_map :: "('v \<Rightarrow> 'v) \<Rightarrow> ('k, 'v) umap \<Rightarrow> ('k, 'v) umap" where
  "um_map f m = map (\<lambda>(k, v). (k, f v)) m"

definition um_erase_if :: "('v \<Rightarrow> bool) \<Rightarrow> ('k, 'v) umap \<Rightarrow> ('k, 'v) umap" where
  "um_erase_if P m = filter (\<lambda>(k, v). \<not> P v) m"

subsection \<open>The interface\<close>

text \<open>
  What the clients of \<open>std::unordered_map\<close> use: its operations over an abstract
  container type, and the documented laws that connect them with lookup.
\<close>

locale unordered_map =
  fixes find :: "'m \<Rightarrow> 'k \<Rightarrow> 'v option"
    and put :: "'k \<Rightarrow> 'v \<Rightarrow> 'm \<Rightarrow> 'm"
    and erase :: "'k \<Rightarrow> 'm \<Rightarrow> 'm"
    and iter :: "'p \<Rightarrow> 'm \<Rightarrow> ('k \<times> 'v) list"
    and wf :: "'m \<Rightarrow> bool"
  assumes find_put: "find (put k v m) k' = (if k' = k then Some v else find m k')"
    and find_erase: "wf m \<Longrightarrow> find (erase k m) k' = (if k' = k then None else find m k')"
    and iter_find: "wf m \<Longrightarrow> (k, v) \<in> set (iter p m) \<longleftrightarrow> find m k = Some v"
    and iter_distinct: "wf m \<Longrightarrow> distinct (map fst (iter p m))"
    and wf_put: "wf m \<Longrightarrow> wf (put k v m)"
    and wf_erase: "wf m \<Longrightarrow> wf (erase k m)"
begin

lemma find_put_same: "find (put k v m) k = Some v"
  by (simp add: find_put)

lemma find_put_other: "k' \<noteq> k \<Longrightarrow> find (put k v m) k' = find m k'"
  by (simp add: find_put)

lemma find_erase_same: "wf m \<Longrightarrow> find (erase k m) k = None"
  by (simp add: find_erase)

lemma iter_key: "wf m \<Longrightarrow> k \<in> fst ` set (iter p m) \<longleftrightarrow> find m k \<noteq> None"
proof -
  assume wf: "wf m"
  have "k \<in> fst ` set (iter p m) \<longleftrightarrow> (\<exists>v. (k, v) \<in> set (iter p m))" by force
  with wf show ?thesis by (simp add: iter_find)
qed

lemma iter_same_elements: "wf m \<Longrightarrow> set (iter p m) = set (iter q m)"
  by (auto simp: iter_find)

text \<open>A loop body that changes nothing but the element it visits reaches exactly the stored ones.\<close>

lemma iter_all: "wf m \<Longrightarrow> (\<forall>(k, v) \<in> set (iter p m). P k v) \<longleftrightarrow> (\<forall>k v. find m k = Some v \<longrightarrow> P k v)"
  by (auto simp: iter_find)

text \<open>Two orders of the same container visit the same multiset of elements.\<close>

lemma iter_mset: "wf m \<Longrightarrow> mset (iter p m) = mset (iter q m)"
proof -
  assume wf: "wf m"
  have "distinct (iter p m)" "distinct (iter q m)"
    using iter_distinct [OF wf] distinct_map by blast+
  then show ?thesis
    using iter_same_elements [OF wf, of p q] set_eq_iff_mset_eq_distinct by blast
qed

end

subsection \<open>The association list provides it\<close>

lemma um_find_put [umap_simps]: "um_find (um_put k v m) k' = (if k' = k then Some v else um_find m k')"
  by (simp add: um_find_def um_put_def update_conv')

lemma um_find_erase [umap_simps]: "um_find (um_erase k m) k' = (if k' = k then None else um_find m k')"
  by (simp add: um_find_def um_erase_def delete_conv')

lemma um_wf_Nil [wf_intros]: "um_wf []"
  by (simp add: um_wf_def)

lemma um_find_Nil [umap_simps]: "um_find [] k = None"
  by (simp add: um_find_def)

lemma um_wf_put [wf_intros]: "um_wf m \<Longrightarrow> um_wf (um_put k v m)"
  by (simp add: um_wf_def um_put_def distinct_update)

lemma um_wf_erase [wf_intros]: "um_wf m \<Longrightarrow> um_wf (um_erase k m)"
  by (simp add: um_wf_def um_erase_def distinct_delete)

interpretation um: unordered_map um_find um_put um_erase um_iter um_wf
proof (unfold_locales, goal_cases)
  case (1 k v m k')
  show ?case by (simp add: umap_simps)
next
  case (2 m k k')
  show ?case by (simp add: umap_simps)
next
  case (3 m k v p)
  then show ?case by (simp add: um_find_def um_iter_def um_wf_def)
next
  case (4 m p)
  have "mset (map fst (perm_by p m)) = mset (map fst m)" by simp
  then have "distinct (map fst (perm_by p m)) = distinct (map fst m)"
    by (rule mset_eq_imp_distinct_iff)
  with 4 show ?case by (simp add: um_iter_def um_wf_def)
next
  case (5 m k v)
  then show ?case by (rule um_wf_put)
next
  case (6 m k)
  then show ?case by (rule um_wf_erase)
qed

lemma um_find_modify [umap_simps]:
  "um_find (um_modify k f m) k' = (if k' = k then map_option f (um_find m k) else um_find m k')"
  by (simp add: um_modify_def umap_simps split: option.splits)

lemma um_wf_modify [wf_intros]: "um_wf m \<Longrightarrow> um_wf (um_modify k f m)"
  by (simp add: um_modify_def wf_intros split: option.splits)

lemma um_find_at [umap_simps]:
  "um_find (um_at k d f m) k' =
     (if k' = k then Some (f (case um_find m k of None \<Rightarrow> d | Some v \<Rightarrow> v)) else um_find m k')"
  by (simp add: um_at_def umap_simps)

lemma um_wf_at [wf_intros]: "um_wf m \<Longrightarrow> um_wf (um_at k d f m)"
  by (simp add: um_at_def wf_intros)

lemma map_fst_um_map [simp]: "map fst (um_map f m) = map fst m"
  by (simp add: um_map_def case_prod_beta o_def)

lemma um_find_map [umap_simps]: "um_find (um_map f m) k = map_option f (um_find m k)"
  by (induction m) (auto simp: um_map_def um_find_def)

lemma um_wf_map [wf_intros]: "um_wf m \<Longrightarrow> um_wf (um_map f m)"
  by (simp add: um_wf_def)

lemma um_wf_erase_if [wf_intros]: "um_wf m \<Longrightarrow> um_wf (um_erase_if P m)"
  unfolding um_wf_def um_erase_if_def by (induction m) auto

lemma um_find_erase_if [umap_simps]:
  "um_wf m \<Longrightarrow> um_find (um_erase_if P m) k =
     (case um_find m k of None \<Rightarrow> None | Some v \<Rightarrow> if P v then None else Some v)"
proof (induction m)
  case Nil
  show ?case by (simp add: um_find_def um_erase_if_def)
next
  case (Cons kv m)
  then have "um_wf m" by (simp add: um_wf_def)
  with Cons.IH have IH: "map_of (um_erase_if P m) k =
     (case map_of m k of None \<Rightarrow> None | Some v \<Rightarrow> if P v then None else Some v)"
    by (simp add: um_find_def)
  have fresh: "map_of m (fst kv) = None"
    using Cons.prems by (simp add: um_wf_def map_of_eq_None_iff)
  show ?case
    using IH fresh by (cases kv) (auto simp: um_find_def um_erase_if_def)
qed

lemma um_modify_none: "um_find m k = None \<Longrightarrow> um_modify k f m = m"
  by (simp add: um_modify_def)

section \<open>Sums and counts over logs\<close>

text \<open>The total of \<open>w\<close> over the entries of a log that satisfy \<open>P\<close>, in the wrapping arithmetic of the total's type.\<close>

definition log_sum :: "('e \<Rightarrow> bool) \<Rightarrow> ('e \<Rightarrow> 'a::comm_monoid_add) \<Rightarrow> 'e list \<Rightarrow> 'a" where
  "log_sum P w es = sum_list (map w (filter P es))"

lemma log_sum_Nil [simp]: "log_sum P w [] = 0"
  by (simp add: log_sum_def)

lemma log_sum_snoc [simp]: "log_sum P w (es @ [e]) = log_sum P w es + (if P e then w e else 0)"
  by (simp add: log_sum_def)

lemma log_sum_none: "\<forall>e \<in> set es. \<not> P e \<Longrightarrow> log_sum P w es = 0"
  by (simp add: log_sum_def filter_False)

lemma log_sum_perm: "mset xs = mset ys \<Longrightarrow> log_sum P w xs = log_sum P w ys"
proof -
  assume "mset xs = mset ys"
  then have "mset (map w (filter P xs)) = mset (map w (filter P ys))" by simp
  then have "sum_mset (mset (map w (filter P xs))) = sum_mset (mset (map w (filter P ys)))" by (rule arg_cong)
  then show ?thesis by (simp only: log_sum_def sum_mset_sum_list)
qed

lemma log_sum_cong: "(\<And>e. e \<in> set es \<Longrightarrow> P e = Q e) \<Longrightarrow> log_sum P w es = log_sum Q w es"
  by (simp add: log_sum_def cong: filter_cong)

text \<open>Summing over a container, whatever the order, the entries with one key.\<close>

lemma log_sum_iter:
  assumes "um_wf m"
  shows "log_sum (\<lambda>kv. fst kv = k) w (um_iter p m) = (case um_find m k of None \<Rightarrow> 0 | Some v \<Rightarrow> w (k, v))"
proof -
  have "log_sum (\<lambda>kv. fst kv = k) w (um_iter p m) = log_sum (\<lambda>kv. fst kv = k) w m"
    by (rule log_sum_perm) (simp add: um_iter_def)
  also have "\<dots> = (case um_find m k of None \<Rightarrow> 0 | Some v \<Rightarrow> w (k, v))"
    using assms
  proof (induction m)
    case Nil
    show ?case by (simp add: um_find_def)
  next
    case (Cons kv m)
    have none: "log_sum (\<lambda>e. fst e = fst kv) w m = 0"
    proof (rule log_sum_none, rule ballI)
      fix e assume "e \<in> set m"
      then have "fst e \<in> fst ` set m" by simp
      moreover have "fst kv \<notin> fst ` set m" using Cons.prems by (simp add: um_wf_def)
      ultimately show "\<not> fst e = fst kv" by metis
    qed
    have "um_wf m" using Cons.prems by (simp add: um_wf_def)
    with Cons.IH none show ?case by (cases kv) (auto simp: um_find_def log_sum_def)
  qed
  finally show ?thesis .
qed

end
