(* ===== verification/Strlib.thy ===== *)
theory Strlib
  imports Prelude
begin

text \<open>
  C strings and buffers (\<open>src/src/common/strlib.cpp\<close>) and the conversions of the C
  library the arena uses: \<open>%u\<close> and \<open>%d\<close> of \<open>printf\<close>, and
  \<open>strtoul\<close> in base 10. A C string is the list of its characters before the
  terminator; a buffer is the list of all its bytes.
\<close>

abbreviation NUL :: char where
  "NUL \<equiv> CHR 0x00"

text \<open>\<open>NAME_LENGTH\<close>: \<open>23 + 1\<close>.\<close>

definition NAME_LENGTH :: nat where
  "NAME_LENGTH = 23 + 1"

section \<open>Bounded copies\<close>

text \<open>
  The loop of \<open>safestrncpy\<close> with \<open>n\<close> bytes left to write: a terminator
  reached in the source pads the rest with terminators.
\<close>

fun copy_pad :: "nat \<Rightarrow> string \<Rightarrow> string" where
  "copy_pad 0 s = []"
| "copy_pad (Suc n) [] = NUL # replicate n NUL"
| "copy_pad (Suc n) (c # s) = (if c = NUL then NUL # replicate n NUL else c # copy_pad n s)"

text \<open>The destination of \<open>n\<close> bytes after \<open>safestrncpy(dst, src, n)\<close>.\<close>

definition safestrncpy :: "string \<Rightarrow> nat \<Rightarrow> string" where
  "safestrncpy src n = (if 0 < n then copy_pad (n - 1) src @ [NUL] else [])"

text \<open>\<open>strnlen\<close>: the position of the first terminator among the first \<open>maxlen\<close> bytes.\<close>

fun strnlen :: "string \<Rightarrow> nat \<Rightarrow> nat" where
  "strnlen s 0 = 0"
| "strnlen [] (Suc n) = 0"
| "strnlen (c # s) (Suc n) = (if c = NUL then 0 else Suc (strnlen s n))"

text \<open>\<open>std::string::assign(buf, n)\<close>.\<close>

definition assign_buf :: "string \<Rightarrow> nat \<Rightarrow> string" where
  "assign_buf buf n = take n buf"

lemma length_copy_pad [simp]: "length (copy_pad n s) = n"
  by (induction n s rule: copy_pad.induct) auto

lemma length_safestrncpy: "0 < n \<Longrightarrow> length (safestrncpy s n) = n"
  by (simp add: safestrncpy_def)

lemma last_safestrncpy: "0 < n \<Longrightarrow> last (safestrncpy s n) = NUL"
  by (simp add: safestrncpy_def)

lemma strnlen_le: "strnlen s n \<le> n"
  by (induction s n rule: strnlen.induct) auto

lemma strnlen_copy_pad:
  "take (strnlen (copy_pad n s @ t) n) (copy_pad n s @ t) = takeWhile (\<lambda>c. c \<noteq> NUL) (take n s)"
  by (induction n s rule: copy_pad.induct) auto

lemma assign_safe_copy:
  "assign_buf (safestrncpy s (Suc n)) (strnlen (safestrncpy s (Suc n)) n) =
     takeWhile (\<lambda>c. c \<noteq> NUL) (take n s)"
  using strnlen_copy_pad [of n s "[NUL]"]
  by (simp add: assign_buf_def safestrncpy_def del: take_append)

section \<open>Decimal numbers\<close>

definition digit_char :: "nat \<Rightarrow> char" where
  "digit_char d = char_of (48 + d)"

definition char_digit :: "char \<Rightarrow> nat option" where
  "char_digit c = (let n = of_char c :: nat in if 48 \<le> n \<and> n \<le> 57 then Some (n - 48) else None)"

fun render_u :: "nat \<Rightarrow> string" where
  "render_u n = (if n < 10 then [digit_char n] else render_u (n div 10) @ [digit_char (n mod 10)])"

declare render_u.simps [simp del]

definition render_d :: "int \<Rightarrow> string" where
  "render_d i = (if i < 0 then CHR ''-'' # render_u (nat (- i)) else render_u (nat i))"

text \<open>The digits \<open>strtoul(s, nullptr, 10)\<close> reads; it stops at the first other character.\<close>

fun strtoul_acc :: "nat \<Rightarrow> string \<Rightarrow> nat" where
  "strtoul_acc a [] = a"
| "strtoul_acc a (c # s) = (case char_digit c of None \<Rightarrow> a | Some d \<Rightarrow> strtoul_acc (10 * a + d) s)"

definition strtoul :: "string \<Rightarrow> nat" where
  "strtoul s = strtoul_acc 0 s"

lemma char_digit_digit_char: "d < 10 \<Longrightarrow> char_digit (digit_char d) = Some d"
  by (simp add: char_digit_def digit_char_def)

lemma strtoul_acc_append:
  "\<forall>c \<in> set s. char_digit c \<noteq> None \<Longrightarrow> strtoul_acc a (s @ t) = strtoul_acc (strtoul_acc a s) t"
  by (induction s arbitrary: a) auto

lemma render_u_digits: "\<forall>c \<in> set (render_u n). char_digit c \<noteq> None"
proof (induction n rule: render_u.induct)
  case (1 n)
  then show ?case
    by (subst render_u.simps) (auto simp: char_digit_digit_char)
qed

lemma strtoul_render_u: "strtoul (render_u n) = n"
proof (induction n rule: render_u.induct)
  case (1 n)
  show ?case
  proof (cases "n < 10")
    case True
    then show ?thesis
      by (simp add: render_u.simps [of n] strtoul_def char_digit_digit_char)
  next
    case False
    then have "strtoul (render_u n) = 10 * strtoul (render_u (n div 10)) + n mod 10"
      using render_u_digits [of "n div 10"]
      by (simp add: render_u.simps [of n] strtoul_def strtoul_acc_append char_digit_digit_char)
    with False "1.IH" show ?thesis by simp
  qed
qed

lemma length_render_u: "n < 10 ^ Suc k \<Longrightarrow> length (render_u n) \<le> Suc k"
proof (induction k arbitrary: n)
  case 0
  then show ?case by (simp add: render_u.simps [of n])
next
  case (Suc k)
  show ?case
  proof (cases "n < 10")
    case True
    then show ?thesis by (simp add: render_u.simps [of n])
  next
    case False
    from Suc.prems have "n div 10 < 10 ^ Suc k"
      by (simp add: less_mult_imp_div_less mult.commute)
    with Suc.IH have "length (render_u (n div 10)) \<le> Suc k" by blast
    with False show ?thesis by (simp add: render_u.simps [of n])
  qed
qed

lemma length_render_u32: "length (render_u (unat (w :: uint32))) \<le> 10"
proof -
  have "unat w < 10 ^ Suc 9" using unsigned_less [where 'a = nat, of w] by simp
  then show ?thesis using length_render_u [of "unat w" 9] by simp
qed

lemma length_render_u16: "length (render_u (unat (w :: uint16))) \<le> 5"
proof -
  have "unat w < 10 ^ Suc 4" using unsigned_less [where 'a = nat, of w] by simp
  then show ?thesis using length_render_u [of "unat w" 4] by simp
qed

end
