(* ===== verification/ArenaTypes.thy ===== *)
theory ArenaTypes
  imports Strlib
begin

text \<open>
  The data of the 7x7 arena (\<open>src/src/map/arena7x7.hpp\<close>): its enumerations, one record per
  structure with the fields in the source's order, and the values the constructors and C++ value
  initialisation give. Field names carry a prefix for their structure, since several structures
  share field names.
\<close>

section \<open>Configuration constants\<close>

definition ARENA7X7_MAX_PLAYERS_PER_TEAM :: nat where
  "ARENA7X7_MAX_PLAYERS_PER_TEAM = 7"

definition ARENA7X7_TOTAL_PLAYERS :: nat where
  "ARENA7X7_TOTAL_PLAYERS = 14"

definition ARENA7X7_ASSIST_WINDOW :: t_tick where
  "ARENA7X7_ASSIST_WINDOW = 5000"

section \<open>Enumerations\<close>

text \<open>
  Teams. The underlying type is \<open>uint8\<close> and the script command that adds a player casts an
  integer it does not check, so the other 253 values occur as well.
\<close>

datatype e_arena7x7_team =
    ARENA7X7_TEAM_NONE
  | ARENA7X7_TEAM_BLUE
  | ARENA7X7_TEAM_RED
  | ARENA7X7_TEAM_RAW uint8

fun team_value :: "e_arena7x7_team \<Rightarrow> uint8" where
  "team_value ARENA7X7_TEAM_NONE = 0"
| "team_value ARENA7X7_TEAM_BLUE = 1"
| "team_value ARENA7X7_TEAM_RED = 2"
| "team_value (ARENA7X7_TEAM_RAW w) = w"

definition team_cast :: "int \<Rightarrow> e_arena7x7_team" where
  "team_cast i =
     (let w = word_of_int i :: uint8
      in if w = 0 then ARENA7X7_TEAM_NONE
         else if w = 1 then ARENA7X7_TEAM_BLUE
         else if w = 2 then ARENA7X7_TEAM_RED
         else ARENA7X7_TEAM_RAW w)"

lemma team_value_cast: "team_value (team_cast i) = word_of_int i"
  by (simp add: team_cast_def Let_def)

datatype e_arena7x7_match_status =
    ARENA7X7_MATCH_WAITING
  | ARENA7X7_MATCH_ACTIVE
  | ARENA7X7_MATCH_FINISHED
  | ARENA7X7_MATCH_CANCELLED

fun status_value :: "e_arena7x7_match_status \<Rightarrow> uint8" where
  "status_value ARENA7X7_MATCH_WAITING = 0"
| "status_value ARENA7X7_MATCH_ACTIVE = 1"
| "status_value ARENA7X7_MATCH_FINISHED = 2"
| "status_value ARENA7X7_MATCH_CANCELLED = 3"

datatype e_arena7x7_support_type =
    ARENA7X7_SUPPORT_HEAL
  | ARENA7X7_SUPPORT_BUFF
  | ARENA7X7_SUPPORT_DEBUFF
  | ARENA7X7_SUPPORT_DISPEL

fun support_value :: "e_arena7x7_support_type \<Rightarrow> uint8" where
  "support_value ARENA7X7_SUPPORT_HEAL = 1"
| "support_value ARENA7X7_SUPPORT_BUFF = 2"
| "support_value ARENA7X7_SUPPORT_DEBUFF = 3"
| "support_value ARENA7X7_SUPPORT_DISPEL = 4"

datatype e_arena7x7_item_type =
    ARENA7X7_ITEM_HP
  | ARENA7X7_ITEM_SP
  | ARENA7X7_ITEM_BUFF
  | ARENA7X7_ITEM_OTHER
  | ARENA7X7_ITEM_GEMSTONE
  | ARENA7X7_ITEM_ARROW
  | ARENA7X7_ITEM_CATALYST
  | ARENA7X7_ITEM_FOOD
  | ARENA7X7_ITEM_THROWING

fun item_type_value :: "e_arena7x7_item_type \<Rightarrow> uint8" where
  "item_type_value ARENA7X7_ITEM_HP = 1"
| "item_type_value ARENA7X7_ITEM_SP = 2"
| "item_type_value ARENA7X7_ITEM_BUFF = 3"
| "item_type_value ARENA7X7_ITEM_OTHER = 4"
| "item_type_value ARENA7X7_ITEM_GEMSTONE = 5"
| "item_type_value ARENA7X7_ITEM_ARROW = 6"
| "item_type_value ARENA7X7_ITEM_CATALYST = 7"
| "item_type_value ARENA7X7_ITEM_FOOD = 8"
| "item_type_value ARENA7X7_ITEM_THROWING = 9"

text \<open>
  The states of a match are linearly ordered by their underlying values.
\<close>

lemma status_value_inject: "status_value s = status_value t \<Longrightarrow> s = t"
  by (cases s; cases t) simp_all

instantiation e_arena7x7_match_status :: linorder
begin

definition less_eq_e_arena7x7_match_status ::
    "e_arena7x7_match_status \<Rightarrow> e_arena7x7_match_status \<Rightarrow> bool" where
  "less_eq_e_arena7x7_match_status s t \<longleftrightarrow> status_value s \<le> status_value t"

definition less_e_arena7x7_match_status ::
    "e_arena7x7_match_status \<Rightarrow> e_arena7x7_match_status \<Rightarrow> bool" where
  "less_e_arena7x7_match_status s t \<longleftrightarrow> status_value s < status_value t"

instance
  by standard
    (auto simp: less_eq_e_arena7x7_match_status_def less_e_arena7x7_match_status_def
      intro: status_value_inject)

end

lemmas status_order = less_eq_e_arena7x7_match_status_def less_e_arena7x7_match_status_def

section \<open>Player statistics\<close>

record s_arena7x7_recent_damage =
  rd_attacker_id :: uint32
  rd_skill_id :: uint16
  rd_damage :: uint32
  rd_timestamp :: t_tick

record s_arena7x7_player_stats =
  ps_char_id :: uint32
  ps_account_id :: uint32
  ps_char_name :: string
  ps_team :: e_arena7x7_team
  ps_guild_id :: uint32
  ps_guild_name :: string
  ps_job_class :: uint16
  ps_base_level :: uint16
  ps_is_leader :: bool
  ps_is_deserter :: bool
  ps_is_dead :: bool
  ps_damage_done :: uint32
  ps_damage_received :: uint32
  ps_top_damage :: uint32
  ps_kills :: uint16
  ps_deaths :: uint16
  ps_assists :: uint16
  ps_current_streak :: uint16
  ps_best_streak :: uint16
  ps_healing_done :: uint32
  ps_healing_received :: uint32
  ps_support_skills_used :: uint16
  ps_buffs_given :: uint16
  ps_debuffs_given :: uint16
  ps_total_skills_used :: uint32
  ps_total_items_used :: uint32
  ps_hp_potions :: uint16
  ps_sp_potions :: uint16
  ps_yellow_gems :: uint16
  ps_red_gems :: uint16
  ps_blue_gems :: uint16
  ps_poison_bottles :: uint16
  ps_other_items :: uint16
  ps_sp_consumed :: uint32
  ps_zeny_consumed :: uint32
  ps_join_time :: t_tick
  ps_last_death_time :: t_tick
  ps_time_alive :: uint32
  ps_time_dead :: uint32
  ps_recent_damage_taken :: "s_arena7x7_recent_damage list"
  ps_skills_used_map :: "(uint16, uint32 \<times> string) umap"

text \<open>The constructor.\<close>

definition new_player_stats :: s_arena7x7_player_stats where
  "new_player_stats = \<lparr>
     ps_char_id = 0, ps_account_id = 0, ps_char_name = '''', ps_team = ARENA7X7_TEAM_NONE,
     ps_guild_id = 0, ps_guild_name = '''', ps_job_class = 0, ps_base_level = 0,
     ps_is_leader = False, ps_is_deserter = False, ps_is_dead = False,
     ps_damage_done = 0, ps_damage_received = 0, ps_top_damage = 0,
     ps_kills = 0, ps_deaths = 0, ps_assists = 0, ps_current_streak = 0, ps_best_streak = 0,
     ps_healing_done = 0, ps_healing_received = 0, ps_support_skills_used = 0,
     ps_buffs_given = 0, ps_debuffs_given = 0, ps_total_skills_used = 0, ps_total_items_used = 0,
     ps_hp_potions = 0, ps_sp_potions = 0, ps_yellow_gems = 0, ps_red_gems = 0, ps_blue_gems = 0,
     ps_poison_bottles = 0, ps_other_items = 0, ps_sp_consumed = 0, ps_zeny_consumed = 0,
     ps_join_time = 0, ps_last_death_time = 0, ps_time_alive = 0, ps_time_dead = 0,
     ps_recent_damage_taken = [], ps_skills_used_map = []\<rparr>"

section \<open>Log entries and aggregates\<close>

record s_arena7x7_damage_entry =
  de_attacker_id :: uint32
  de_target_id :: uint32
  de_skill_id :: uint16
  de_damage :: uint32
  de_is_critical :: bool
  de_is_kill :: bool
  de_timestamp :: t_tick

record s_arena7x7_support_entry =
  se_caster_id :: uint32
  se_target_id :: uint32
  se_skill_id :: uint16
  se_type :: e_arena7x7_support_type
  se_value :: uint32
  se_timestamp :: t_tick

record s_arena7x7_item_entry =
  ie_char_id :: uint32
  ie_target_id :: uint32
  ie_item_id :: uint32
  ie_item_name :: string
  ie_type :: e_arena7x7_item_type
  ie_value :: uint32
  ie_timestamp :: t_tick

text \<open>
  \<open>killer_streak\<close> is assigned only when the killer is a player of the match;
  \<open>None\<close> is the indeterminate value of the uninitialised field otherwise.
\<close>

record s_arena7x7_kill_entry =
  ke_killer_id :: uint32
  ke_victim_id :: uint32
  ke_skill_id :: uint16
  ke_kill_damage :: uint32
  ke_assist1_id :: uint32
  ke_assist2_id :: uint32
  ke_assist3_id :: uint32
  ke_killer_streak :: "uint16 option"
  ke_timestamp :: t_tick

record s_arena7x7_damage_by_skill =
  ds_char_id :: uint32
  ds_skill_id :: uint16
  ds_skill_name :: string
  ds_total_damage :: uint32
  ds_hit_count :: uint16
  ds_critical_count :: uint16
  ds_kill_count :: uint16
  ds_max_damage :: uint32

record s_arena7x7_damage_by_target =
  dt_attacker_id :: uint32
  dt_target_id :: uint32
  dt_total_damage :: uint32
  dt_hit_count :: uint16
  dt_kill_count :: uint16

record s_arena7x7_support_by_target =
  st_caster_id :: uint32
  st_target_id :: uint32
  st_total_healing :: uint32
  st_buff_count :: uint16
  st_skill_count :: uint16

record s_arena7x7_skill_log =
  sl_caster_id :: uint32
  sl_caster_name :: string
  sl_target_id :: uint32
  sl_target_name :: string
  sl_skill_id :: uint16
  sl_skill_name :: string
  sl_skill_level :: uint16
  sl_damage :: uint32
  sl_hits :: uint16
  sl_is_critical :: bool
  sl_is_kill :: bool
  sl_timestamp :: t_tick

record s_arena7x7_item_log =
  il_char_id :: uint32
  il_char_name :: string
  il_item_id :: uint32
  il_item_name :: string
  il_amount :: uint16
  il_item_type :: string
  il_related_skill_id :: uint16
  il_timestamp :: t_tick

text \<open>\<open>s_arena7x7_kill_log\<close> is declared and stored by a match, but no code writes one.\<close>

record s_arena7x7_kill_log =
  kl_killer_id :: uint32
  kl_killer_name :: string
  kl_killer_class :: uint16
  kl_victim_id :: uint32
  kl_victim_name :: string
  kl_victim_class :: uint16
  kl_skill_id :: uint16
  kl_skill_name :: string
  kl_final_damage :: uint32
  kl_assist1_id :: uint32
  kl_assist1_name :: string
  kl_assist2_id :: uint32
  kl_assist2_name :: string
  kl_timestamp :: t_tick

record s_arena7x7_attack_log =
  al_attacker_id :: uint32
  al_attacker_name :: string
  al_target_id :: uint32
  al_target_name :: string
  al_total_damage :: int64
  al_hit_count :: uint32
  al_critical_count :: uint32
  al_miss_count :: uint32

text \<open>What \<open>operator[]\<close> of an unordered map creates: value-initialised structures.\<close>

definition zero_damage_by_skill :: s_arena7x7_damage_by_skill where
  "zero_damage_by_skill = \<lparr>ds_char_id = 0, ds_skill_id = 0, ds_skill_name = '''',
     ds_total_damage = 0, ds_hit_count = 0, ds_critical_count = 0, ds_kill_count = 0,
     ds_max_damage = 0\<rparr>"

definition zero_damage_by_target :: s_arena7x7_damage_by_target where
  "zero_damage_by_target = \<lparr>dt_attacker_id = 0, dt_target_id = 0, dt_total_damage = 0,
     dt_hit_count = 0, dt_kill_count = 0\<rparr>"

definition zero_support_by_target :: s_arena7x7_support_by_target where
  "zero_support_by_target = \<lparr>st_caster_id = 0, st_target_id = 0, st_total_healing = 0,
     st_buff_count = 0, st_skill_count = 0\<rparr>"

definition zero_attack_log :: s_arena7x7_attack_log where
  "zero_attack_log = \<lparr>al_attacker_id = 0, al_attacker_name = '''', al_target_id = 0,
     al_target_name = '''', al_total_damage = 0, al_hit_count = 0, al_critical_count = 0,
     al_miss_count = 0\<rparr>"

section \<open>A match\<close>

text \<open>
  The shared pointers of \<open>players\<close> are never null: the only assignment stores a fresh
  object. The null tests of the source on them are therefore always passed and have no branch here.
\<close>

record s_arena7x7_match =
  mt_match_id :: uint32
  mt_map_name :: string
  mt_status :: e_arena7x7_match_status
  mt_winner_team :: e_arena7x7_team
  mt_blue_score :: uint16
  mt_red_score :: uint16
  mt_season :: uint16
  mt_blue_guild_name :: string
  mt_red_guild_name :: string
  mt_blue_guild_id :: uint32
  mt_red_guild_id :: uint32
  mt_blue_alive :: uint16
  mt_red_alive :: uint16
  mt_start_time :: t_tick
  mt_end_time :: t_tick
  mt_duration_seconds :: uint32
  mt_players :: "(uint32, s_arena7x7_player_stats) umap"
  mt_damage_log :: "s_arena7x7_damage_entry list"
  mt_support_log :: "s_arena7x7_support_entry list"
  mt_item_log :: "s_arena7x7_item_entry list"
  mt_kill_log :: "s_arena7x7_kill_entry list"
  mt_skill_log :: "s_arena7x7_skill_log list"
  mt_item_usage_log :: "s_arena7x7_item_log list"
  mt_kill_detail_log :: "s_arena7x7_kill_log list"
  mt_attack_log :: "(uint64, s_arena7x7_attack_log) umap"
  mt_damage_by_skill :: "(uint64, s_arena7x7_damage_by_skill) umap"
  mt_damage_by_target :: "(uint64, s_arena7x7_damage_by_target) umap"
  mt_support_by_target :: "(uint64, s_arena7x7_support_by_target) umap"

definition new_match :: s_arena7x7_match where
  "new_match = \<lparr>
     mt_match_id = 0, mt_map_name = '''', mt_status = ARENA7X7_MATCH_WAITING,
     mt_winner_team = ARENA7X7_TEAM_NONE, mt_blue_score = 0, mt_red_score = 0, mt_season = 1,
     mt_blue_guild_name = ''Time Azul'', mt_red_guild_name = ''Time Vermelho'',
     mt_blue_guild_id = 0, mt_red_guild_id = 0, mt_blue_alive = 0, mt_red_alive = 0,
     mt_start_time = 0, mt_end_time = 0, mt_duration_seconds = 0,
     mt_players = [], mt_damage_log = [], mt_support_log = [], mt_item_log = [],
     mt_kill_log = [], mt_skill_log = [], mt_item_usage_log = [], mt_kill_detail_log = [],
     mt_attack_log = [], mt_damage_by_skill = [], mt_damage_by_target = [],
     mt_support_by_target = []\<rparr>"

section \<open>Pair keys\<close>

text \<open>\<open>((uint64)a << 32) | b\<close>, the key of every aggregate.\<close>

unbundle bit_operations_syntax

definition pair_key :: "uint32 \<Rightarrow> uint32 \<Rightarrow> uint64" where
  "pair_key a b = push_bit 32 (ucast a) OR ucast b"

lemma pair_key_bit:
  "bit (pair_key a b) n \<longleftrightarrow> (if n < 32 then bit b n else n < 64 \<and> bit a (n - 32))"
  by (auto simp: pair_key_def bit_simps dest: bit_imp_le_length)

lemma pair_key_inject: "pair_key a b = pair_key c d \<longleftrightarrow> a = c \<and> b = d"
proof
  assume eq: "pair_key a b = pair_key c d"
  have "bit b n = bit d n" if "n < 32" for n
    using that pair_key_bit [of a b n] pair_key_bit [of c d n] eq by simp
  moreover have "bit a n = bit c n" if "n < 32" for n
    using that pair_key_bit [of a b "n + 32"] pair_key_bit [of c d "n + 32"] eq by simp
  ultimately show "a = c \<and> b = d"
    by (auto intro!: bit_word_eqI)
qed simp

text \<open>A key made of a character and a 16-bit skill (\<open>skill_id\<close> is widened by the \<open>|\<close>).\<close>

definition skill_key :: "uint32 \<Rightarrow> uint16 \<Rightarrow> uint64" where
  "skill_key a s = pair_key a (ucast s)"

lemma ucast_16_32_inject: "(ucast (s :: uint16) :: uint32) = ucast t \<longleftrightarrow> s = t"
proof
  assume "(ucast s :: uint32) = ucast t"
  then have "\<forall>n < 16. bit s n = bit t n" by (simp add: bit_eq_iff bit_simps)
  then show "s = t" by (auto intro: bit_word_eqI)
qed simp

lemma skill_key_inject: "skill_key a s = skill_key c t \<longleftrightarrow> a = c \<and> s = t"
  by (simp add: skill_key_def pair_key_inject ucast_16_32_inject)

end
