(* ===== verification/Bheap.thy ===== *)
theory Bheap
  imports Prelude
begin

text \<open>
  The binary heap macros of \<open>src/src/common/db.hpp\<close> (\<open>BHEAP_PEEK\<close>,
  \<open>BHEAP_PUSH\<close>, \<open>BHEAP_POP\<close>, \<open>BHEAP_POPINDEX\<close>) over the vector
  they use as their array. The comparator is an argument, as it is for the macros; what its callers
  promise of it is the locale \<open>topcmp\<close>, under which the heap property is proved.
\<close>

section \<open>The macros\<close>

definition swap_at :: "'a list \<Rightarrow> nat \<Rightarrow> nat \<Rightarrow> 'a list" where
  "swap_at h i j = h[i := h ! j, j := h ! i]"

definition parent :: "nat \<Rightarrow> nat" where
  "parent i = (i - 1) div 2"

text \<open>\<open>while( _i_ )\<close> of the push and pop macros; the position reached is kept for the pop.\<close>

function bheap_up :: "('a \<Rightarrow> 'a \<Rightarrow> int) \<Rightarrow> 'a list \<Rightarrow> nat \<Rightarrow> 'a list \<times> nat" where
  "bheap_up cmp h i =
     (if i = 0 then (h, i)
      else if cmp (h ! parent i) (h ! i) < 0 then (h, i)
      else bheap_up cmp (swap_at h (parent i) i) (parent i))"
  by pat_completeness auto
termination
  by (relation "measure (\<lambda>(cmp, h, i). i)") (auto simp: parent_def)

text \<open>\<open>while( _i_ < VECTOR_LENGTH(heap) )\<close> of the pop macro.\<close>

function bheap_down :: "('a \<Rightarrow> 'a \<Rightarrow> int) \<Rightarrow> 'a list \<Rightarrow> nat \<Rightarrow> 'a list" where
  "bheap_down cmp h i =
     (if i < length h then
        let l = i * 2 + 1; r = i * 2 + 2 in
        if (l \<ge> length h \<or> cmp (h ! i) (h ! l) \<le> 0) \<and>
           (r \<ge> length h \<or> cmp (h ! i) (h ! r) \<le> 0) then h
        else if r \<ge> length h \<or> cmp (h ! l) (h ! r) \<le> 0 then bheap_down cmp (swap_at h i l) l
        else bheap_down cmp (swap_at h i r) r
      else h)"
  by pat_completeness auto
termination
  by (relation "measure (\<lambda>(cmp, h, i). length h - i)") (auto simp: swap_at_def)

declare bheap_up.simps [simp del] bheap_down.simps [simp del]

definition bheap_peek :: "'a list \<Rightarrow> 'a" where
  "bheap_peek h = h ! 0"

definition bheap_push :: "('a \<Rightarrow> 'a \<Rightarrow> int) \<Rightarrow> 'a \<Rightarrow> 'a list \<Rightarrow> 'a list" where
  "bheap_push cmp v h = fst (bheap_up cmp (h @ [v]) (length h))"

definition bheap_popindex :: "('a \<Rightarrow> 'a \<Rightarrow> int) \<Rightarrow> nat \<Rightarrow> 'a list \<Rightarrow> 'a list" where
  "bheap_popindex cmp idx h =
     (let h' = (butlast h)[idx := last h] in
      if idx \<ge> length h' then h'
      else case bheap_up cmp h' idx of (h'', i) \<Rightarrow> bheap_down cmp h'' i)"

definition bheap_pop :: "('a \<Rightarrow> 'a \<Rightarrow> int) \<Rightarrow> 'a list \<Rightarrow> 'a list" where
  "bheap_pop cmp h = bheap_popindex cmp 0 h"

section \<open>Rearrangement facts, for any comparator\<close>

lemma length_swap_at [simp]: "length (swap_at h i j) = length h"
  by (simp add: swap_at_def)

lemma nth_swap_at:
  "i < length h \<Longrightarrow> j < length h \<Longrightarrow>
     swap_at h i j ! k = (if k = j then h ! i else if k = i then h ! j else h ! k)"
  by (simp add: swap_at_def nth_list_update)

lemma mset_swap_at [simp]: "i < length h \<Longrightarrow> j < length h \<Longrightarrow> mset (swap_at h i j) = mset h"
  unfolding swap_at_def by (cases "i = j") (simp_all add: mset_swap)

lemma parent_less: "0 < i \<Longrightarrow> parent i < i"
  by (simp add: parent_def)

lemma parent_neq: "0 < i \<Longrightarrow> parent i \<noteq> i"
  by (simp add: parent_def)

lemma parent_le: "parent i \<le> i"
  by (simp add: parent_def)

lemma parent_eq_iff: "0 < c \<Longrightarrow> parent c = i \<longleftrightarrow> c = i * 2 + 1 \<or> c = i * 2 + 2"
  unfolding parent_def by arith

lemma mset_bheap_up: "i < length h \<Longrightarrow> mset (fst (bheap_up cmp h i)) = mset h"
proof (induction cmp h i rule: bheap_up.induct)
  case (1 cmp h i)
  show ?case
  proof (cases "i = 0 \<or> cmp (h ! parent i) (h ! i) < 0")
    case True
    then show ?thesis by (auto simp: bheap_up.simps [of cmp h i])
  next
    case False
    then have "parent i < length h" using "1.prems" parent_le [of i] by simp
    with False "1.IH" "1.prems" show ?thesis by (simp add: bheap_up.simps [of cmp h i])
  qed
qed

lemma bheap_up_index: "i < length h \<Longrightarrow> snd (bheap_up cmp h i) \<le> i"
proof (induction cmp h i rule: bheap_up.induct)
  case (1 cmp h i)
  show ?case
  proof (cases "i = 0 \<or> cmp (h ! parent i) (h ! i) < 0")
    case True
    then show ?thesis by (auto simp: bheap_up.simps [of cmp h i])
  next
    case False
    then have "parent i < length h" using "1.prems" parent_le [of i] by simp
    with False "1.IH" have "snd (bheap_up cmp (swap_at h (parent i) i) (parent i)) \<le> parent i"
      by simp
    with False show ?thesis using parent_le [of i] by (simp add: bheap_up.simps [of cmp h i])
  qed
qed

lemma bheap_down_stop:
  assumes "i < length h"
    and "i * 2 + 1 \<ge> length h \<or> cmp (h ! i) (h ! (i * 2 + 1)) \<le> 0"
    and "i * 2 + 2 \<ge> length h \<or> cmp (h ! i) (h ! (i * 2 + 2)) \<le> 0"
  shows "bheap_down cmp h i = h"
  using assms by (simp add: bheap_down.simps [of cmp h i] Let_def)

lemma bheap_down_left:
  assumes "i < length h"
    and "\<not> ((i * 2 + 1 \<ge> length h \<or> cmp (h ! i) (h ! (i * 2 + 1)) \<le> 0) \<and>
             (i * 2 + 2 \<ge> length h \<or> cmp (h ! i) (h ! (i * 2 + 2)) \<le> 0))"
    and "i * 2 + 2 \<ge> length h \<or> cmp (h ! (i * 2 + 1)) (h ! (i * 2 + 2)) \<le> 0"
  shows "bheap_down cmp h i = bheap_down cmp (swap_at h i (i * 2 + 1)) (i * 2 + 1)"
  by (subst bheap_down.simps) (simp only: Let_def assms if_True if_False)

lemma bheap_down_right:
  assumes "i < length h"
    and "\<not> ((i * 2 + 1 \<ge> length h \<or> cmp (h ! i) (h ! (i * 2 + 1)) \<le> 0) \<and>
             (i * 2 + 2 \<ge> length h \<or> cmp (h ! i) (h ! (i * 2 + 2)) \<le> 0))"
    and "\<not> (i * 2 + 2 \<ge> length h \<or> cmp (h ! (i * 2 + 1)) (h ! (i * 2 + 2)) \<le> 0)"
  shows "bheap_down cmp h i = bheap_down cmp (swap_at h i (i * 2 + 2)) (i * 2 + 2)"
  by (subst bheap_down.simps) (simp only: Let_def assms if_True if_False)

lemma mset_bheap_down: "mset (bheap_down cmp h i) = mset h"
proof (induction cmp h i rule: bheap_down.induct)
  case (1 cmp h i)
  let ?l = "i * 2 + 1" and ?r = "i * 2 + 2"
  let ?stop = "(?l \<ge> length h \<or> cmp (h ! i) (h ! ?l) \<le> 0) \<and> (?r \<ge> length h \<or> cmp (h ! i) (h ! ?r) \<le> 0)"
  let ?left = "?r \<ge> length h \<or> cmp (h ! ?l) (h ! ?r) \<le> 0"
  consider "\<not> i < length h" | "i < length h" ?stop | "i < length h" "\<not> ?stop" ?left
    | "i < length h" "\<not> ?stop" "\<not> ?left" by blast
  then show ?case
  proof cases
    case 3
    then have "?l < length h" by auto
    with 3 "1.IH"(1) show ?thesis by (simp add: bheap_down.simps [of cmp h i] Let_def)
  next
    case 4
    then have "?r < length h" by auto
    with 4 "1.IH"(2) show ?thesis by (simp add: bheap_down.simps [of cmp h i] Let_def)
  qed (simp_all add: bheap_down.simps [of cmp h i] Let_def)
qed

lemma length_bheap_up: "i < length h \<Longrightarrow> length (fst (bheap_up cmp h i)) = length h"
  by (metis mset_bheap_up size_mset)

lemma mset_bheap_push: "mset (bheap_push cmp v h) = add_mset v (mset h)"
  by (simp add: bheap_push_def mset_bheap_up)

lemma mset_update_butlast:
  assumes "idx < length h"
  shows "add_mset (h ! idx) (mset ((butlast h)[idx := last h])) = mset h"
proof (cases "idx = length h - 1")
  case True
  with assms have "(butlast h)[idx := last h] = butlast h" and "h ! idx = last h"
    by (cases h rule: rev_cases; simp add: list_update_beyond nth_append)+
  moreover have "mset (butlast h @ [last h]) = mset h" using assms by (subst append_butlast_last_id) auto
  ultimately show ?thesis by simp
next
  case False
  with assms have lt: "idx < length (butlast h)" by simp
  have "mset (butlast h @ [last h]) = mset h" using assms by (subst append_butlast_last_id) auto
  moreover have "butlast h ! idx = h ! idx" using lt by (simp add: nth_butlast)
  moreover have "add_mset (h ! idx) (mset (butlast h) - {#h ! idx#}) = mset (butlast h)"
    using nth_mem [OF lt] calculation(2) by simp
  ultimately show ?thesis using lt by (simp add: mset_update add_mset_commute)
qed

lemma mset_bheap_popindex:
  assumes "idx < length h"
  shows "add_mset (h ! idx) (mset (bheap_popindex cmp idx h)) = mset h"
proof -
  let ?h = "(butlast h)[idx := last h]"
  have "mset (bheap_popindex cmp idx h) = mset ?h"
  proof (cases "idx < length ?h")
    case True
    obtain h'' i where up: "bheap_up cmp ?h idx = (h'', i)" by (cases "bheap_up cmp ?h idx")
    with mset_bheap_up [OF True, of cmp] have "mset h'' = mset ?h" by simp
    with True up show ?thesis by (simp add: bheap_popindex_def Let_def mset_bheap_down)
  qed (simp add: bheap_popindex_def Let_def)
  with mset_update_butlast [OF assms] show ?thesis by simp
qed

section \<open>The comparator's contract and the heap property\<close>

text \<open>\<open>cmp a b\<close> is negative when \<open>a\<close> belongs on top, positive when \<open>b\<close> does, and the preference is transitive.\<close>

locale topcmp =
  fixes cmp :: "'a \<Rightarrow> 'a \<Rightarrow> int"
  assumes cmp_antisym: "0 \<le> cmp a b \<Longrightarrow> cmp b a \<le> 0"
    and cmp_trans: "cmp a b \<le> 0 \<Longrightarrow> cmp b c \<le> 0 \<Longrightarrow> cmp a c \<le> 0"

definition heap_ok :: "('a \<Rightarrow> 'a \<Rightarrow> int) \<Rightarrow> 'a list \<Rightarrow> bool" where
  "heap_ok cmp h \<longleftrightarrow> (\<forall>j < length h. 0 < j \<longrightarrow> cmp (h ! parent j) (h ! j) \<le> 0)"

text \<open>Everywhere in order except at \<open>i\<close>: towards its parent, its children, or both.\<close>

definition heap_but :: "('a \<Rightarrow> 'a \<Rightarrow> int) \<Rightarrow> 'a list \<Rightarrow> nat \<Rightarrow> bool" where
  "heap_but cmp h i \<longleftrightarrow>
     (\<forall>j < length h. 0 < j \<and> j \<noteq> i \<and> parent j \<noteq> i \<longrightarrow> cmp (h ! parent j) (h ! j) \<le> 0) \<and>
     (\<forall>c < length h. 0 < i \<and> 0 < c \<and> parent c = i \<longrightarrow> cmp (h ! parent i) (h ! c) \<le> 0)"

definition above_ok :: "('a \<Rightarrow> 'a \<Rightarrow> int) \<Rightarrow> 'a list \<Rightarrow> nat \<Rightarrow> bool" where
  "above_ok cmp h i \<longleftrightarrow> (0 < i \<longrightarrow> cmp (h ! parent i) (h ! i) \<le> 0)"

definition below_ok :: "('a \<Rightarrow> 'a \<Rightarrow> int) \<Rightarrow> 'a list \<Rightarrow> nat \<Rightarrow> bool" where
  "below_ok cmp h i \<longleftrightarrow> (\<forall>c < length h. 0 < c \<and> parent c = i \<longrightarrow> cmp (h ! i) (h ! c) \<le> 0)"

context topcmp
begin

lemma heap_ok_split:
  assumes i: "i < length h"
  shows "heap_ok cmp h \<longleftrightarrow> heap_but cmp h i \<and> above_ok cmp h i \<and> below_ok cmp h i"
proof
  assume ok: "heap_ok cmp h"
  have "cmp (h ! parent i) (h ! c) \<le> 0" if "c < length h" "0 < i" "0 < c" "parent c = i" for c
  proof (rule cmp_trans)
    show "cmp (h ! parent i) (h ! i) \<le> 0" using ok i that by (simp add: heap_ok_def)
    show "cmp (h ! i) (h ! c) \<le> 0" using ok that unfolding heap_ok_def by metis
  qed
  then show "heap_but cmp h i \<and> above_ok cmp h i \<and> below_ok cmp h i"
    using ok i unfolding heap_ok_def heap_but_def above_ok_def below_ok_def by blast
next
  assume "heap_but cmp h i \<and> above_ok cmp h i \<and> below_ok cmp h i"
  then show "heap_ok cmp h"
    unfolding heap_ok_def heap_but_def above_ok_def below_ok_def by metis
qed

text \<open>One step up moves the only disorder to the parent, and leaves none below it.\<close>

lemma swap_up:
  assumes but: "heap_but cmp h i" and i: "0 < i" "i < length h"
    and ge: "\<not> cmp (h ! parent i) (h ! i) < 0"
  shows "heap_but cmp (swap_at h (parent i) i) (parent i)"
    and "below_ok cmp (swap_at h (parent i) i) (parent i)"
proof -
  let ?p = "parent i" and ?h = "swap_at h (parent i) i"
  have p: "?p < i" "?p < length h" using parent_less [OF i(1)] i(2) by simp_all
  have ip: "cmp (h ! i) (h ! ?p) \<le> 0" using ge cmp_antisym by force
  have nth: "?h ! k = (if k = i then h ! ?p else if k = ?p then h ! i else h ! k)" for k
    using p i(2) by (simp add: nth_swap_at)
  have sib: "cmp (h ! ?p) (h ! j) \<le> 0" if "j < length h" "0 < j" "j \<noteq> i" "parent j = ?p" for j
    using but that p unfolding heap_but_def by (metis less_irrefl)
  have kid: "cmp (h ! ?p) (h ! c) \<le> 0" if "c < length h" "0 < c" "parent c = i" for c
    using but that i unfolding heap_but_def by blast
  show "below_ok cmp ?h ?p"
    unfolding below_ok_def
  proof (intro allI impI)
    fix c assume "c < length ?h" and c: "0 < c \<and> parent c = ?p"
    then have lt: "c < length h" by simp
    show "cmp (?h ! ?p) (?h ! c) \<le> 0"
    proof (cases "c = i")
      case True
      with ip p show ?thesis by (simp add: nth)
    next
      case False
      have "cmp (h ! i) (h ! c) \<le> 0" by (rule cmp_trans [OF ip sib]) (use lt c False in auto)
      moreover have "c \<noteq> ?p" using c parent_neq by metis
      ultimately show ?thesis using False p by (simp add: nth)
    qed
  qed
  show "heap_but cmp ?h ?p"
    unfolding heap_but_def
  proof (intro conjI allI impI)
    fix j assume "j < length ?h" and j: "0 < j \<and> j \<noteq> ?p \<and> parent j \<noteq> ?p"
    then have lt: "j < length h" by simp
    have ji: "j \<noteq> i" using j by auto
    show "cmp (?h ! parent j) (?h ! j) \<le> 0"
    proof (cases "parent j = i")
      case True
      with kid [OF lt] j ji show ?thesis by (simp add: nth)
    next
      case False
      with but j ji lt show ?thesis by (simp add: nth heap_but_def)
    qed
  next
    fix c assume "c < length ?h" and c: "0 < ?p \<and> 0 < c \<and> parent c = ?p"
    then have lt: "c < length h" by simp
    have pp: "parent ?p < ?p" using c parent_less by blast
    have top: "cmp (h ! parent ?p) (h ! ?p) \<le> 0"
      using but c p pp unfolding heap_but_def by (metis less_irrefl less_asym)
    have cp: "c \<noteq> ?p" using c parent_neq by metis
    have pi: "parent ?p \<noteq> i" "parent ?p \<noteq> ?p" using pp p by simp_all
    show "cmp (?h ! parent ?p) (?h ! c) \<le> 0"
    proof (cases "c = i")
      case True
      with top pi show ?thesis by (simp add: nth)
    next
      case False
      have "cmp (h ! parent ?p) (h ! c) \<le> 0" by (rule cmp_trans [OF top sib]) (use lt c False in auto)
      with False cp pi show ?thesis by (simp add: nth)
    qed
  qed
qed

lemma bheap_up_heap_but:
  "heap_but cmp h i \<Longrightarrow> i < length h \<Longrightarrow> bheap_up cmp h i = (h', i') \<Longrightarrow>
     heap_but cmp h' i' \<and> above_ok cmp h' i' \<and> i' < length h' \<and> (below_ok cmp h i \<longrightarrow> below_ok cmp h' i')"
proof (induction i arbitrary: h rule: less_induct)
  case (less i)
  show ?case
  proof (cases "i = 0 \<or> cmp (h ! parent i) (h ! i) < 0")
    case True
    then have "bheap_up cmp h i = (h, i)" by (auto simp: bheap_up.simps [of cmp h i])
    with less.prems True show ?thesis by (auto simp: above_ok_def)
  next
    case False
    then have i: "0 < i" and ge: "\<not> cmp (h ! parent i) (h ! i) < 0" by auto
    note step = swap_up [OF less.prems(1) i less.prems(2) ge]
    have "bheap_up cmp (swap_at h (parent i) i) (parent i) = (h', i')"
      using False less.prems(3) by (simp add: bheap_up.simps [of cmp h i])
    with less.IH [OF parent_less [OF i] step(1)] step(2) less.prems(2) parent_le [of i]
    show ?thesis by simp
  qed
qed

text \<open>One step down moves the only disorder to the smaller child.\<close>

lemma swap_down:
  assumes but: "heap_but cmp h i" and above: "above_ok cmp h i"
    and m: "m < length h" "0 < m" "parent m = i" and lt: "cmp (h ! m) (h ! i) \<le> 0"
    and least: "\<And>c. c < length h \<Longrightarrow> 0 < c \<Longrightarrow> parent c = i \<Longrightarrow> cmp (h ! m) (h ! c) \<le> 0"
  shows "heap_but cmp (swap_at h i m) m \<and> above_ok cmp (swap_at h i m) m"
proof -
  let ?h = "swap_at h i m"
  have im: "i < m" "i < length h" using parent_less [OF m(2)] m by simp_all
  have nth: "?h ! k = (if k = m then h ! i else if k = i then h ! m else h ! k)" for k
    using im m by (simp add: nth_swap_at)
  have "cmp (?h ! parent j) (?h ! j) \<le> 0"
    if lj: "j < length h" and j: "0 < j" "j \<noteq> m" "parent j \<noteq> m" for j
  proof (cases "parent j = i")
    case True
    moreover have "j \<noteq> i" using True parent_less [OF j(1)] by auto
    ultimately show ?thesis using least [OF lj j(1)] j im by (simp add: nth)
  next
    case False
    show ?thesis
    proof (cases "j = i")
      case True
      have "cmp (h ! parent i) (h ! m) \<le> 0"
        using but m True j unfolding heap_but_def by blast
      with True False j show ?thesis by (simp add: nth)
    next
      case ji: False
      with False but lj j show ?thesis by (simp add: nth heap_but_def)
    qed
  qed
  moreover have "cmp (?h ! parent m) (?h ! c) \<le> 0"
    if "c < length h" "0 < c" "parent c = m" for c
  proof -
    have "c \<noteq> m" "c \<noteq> i" "parent c \<noteq> i" using that im parent_less [of c] by auto
    moreover have "cmp (h ! m) (h ! c) \<le> 0"
      using but that calculation unfolding heap_but_def by metis
    ultimately show ?thesis using m im by (simp add: nth)
  qed
  moreover have "above_ok cmp ?h m"
    using lt m im by (simp add: above_ok_def nth)
  ultimately show ?thesis by (simp add: heap_but_def)
qed

lemma children_cases:
  assumes "\<And>c. c < length h \<Longrightarrow> c = i * 2 + 1 \<or> c = i * 2 + 2 \<Longrightarrow> P c"
  shows "c < length h \<Longrightarrow> 0 < c \<Longrightarrow> parent c = i \<Longrightarrow> P c"
  using assms parent_eq_iff by blast

lemma bheap_down_heap_ok:
  "heap_but cmp h i \<Longrightarrow> above_ok cmp h i \<Longrightarrow> i < length h \<Longrightarrow> heap_ok cmp (bheap_down cmp h i)"
proof (induction "length h - i" arbitrary: h i rule: less_induct)
  case (less h i)
  let ?l = "i * 2 + 1" and ?r = "i * 2 + 2"
  have refl: "cmp a a \<le> 0" for a using cmp_antisym [of a a] by linarith
  let ?stop = "(?l \<ge> length h \<or> cmp (h ! i) (h ! ?l) \<le> 0) \<and> (?r \<ge> length h \<or> cmp (h ! i) (h ! ?r) \<le> 0)"
  let ?left = "?r \<ge> length h \<or> cmp (h ! ?l) (h ! ?r) \<le> 0"
  have par: "parent ?l = i" "parent ?r = i" by (simp_all add: parent_def)
  consider ?stop | "\<not> ?stop" ?left | "\<not> ?stop" "\<not> ?left" by blast
  then show ?case
  proof cases
    case 1
    then have "below_ok cmp h i"
      unfolding below_ok_def using parent_eq_iff by (metis leD)
    with less.prems have "heap_ok cmp h" using heap_ok_split by blast
    with 1 less.prems bheap_down_stop show ?thesis by metis
  next
    case 2
    then have l: "?l < length h" by auto
    have li: "cmp (h ! ?l) (h ! i) \<le> 0" using 2 cmp_antisym cmp_trans by (metis leI linear)
    have least: "cmp (h ! ?l) (h ! c) \<le> 0" if "c < length h" "0 < c" "parent c = i" for c
      by (rule children_cases [OF _ that]) (use 2 refl in auto)
    have "heap_but cmp (swap_at h i ?l) ?l \<and> above_ok cmp (swap_at h i ?l) ?l"
      by (rule swap_down [OF less.prems(1,2) l _ par(1) li least]) auto
    then have "heap_ok cmp (bheap_down cmp (swap_at h i ?l) ?l)"
      using less.hyps [of "swap_at h i ?l" ?l] l by simp
    with bheap_down_left [OF less.prems(3) 2] show ?thesis by simp
  next
    case 3
    then have r: "?r < length h" by auto
    have rl: "cmp (h ! ?r) (h ! ?l) \<le> 0" using 3 cmp_antisym by (metis leI nle_le)
    have ri: "cmp (h ! ?r) (h ! i) \<le> 0" using 3 rl cmp_antisym cmp_trans by (metis leI nle_le)
    have least: "cmp (h ! ?r) (h ! c) \<le> 0" if "c < length h" "0 < c" "parent c = i" for c
      by (rule children_cases [OF _ that]) (use rl refl in auto)
    have "heap_but cmp (swap_at h i ?r) ?r \<and> above_ok cmp (swap_at h i ?r) ?r"
      by (rule swap_down [OF less.prems(1,2) r _ par(2) ri least]) auto
    then have "heap_ok cmp (bheap_down cmp (swap_at h i ?r) ?r)"
      using less.hyps [of "swap_at h i ?r" ?r] r by simp
    with bheap_down_right [OF less.prems(3) 3] show ?thesis by simp
  qed
qed

text \<open>The three facts a client of the heap uses.\<close>

lemma heap_push: "heap_ok cmp h \<Longrightarrow> heap_ok cmp (bheap_push cmp v h)"
proof -
  assume ok: "heap_ok cmp h"
  let ?h = "h @ [v]" and ?n = "length h"
  obtain h' i' where up: "bheap_up cmp ?h ?n = (h', i')" by (cases "bheap_up cmp ?h ?n")
  have par: "parent j < j" if "0 < j" for j using that by (rule parent_less)
  have far: "\<not> (c < length ?h \<and> 0 < c \<and> parent c = ?n)" for c using par [of c] by auto
  have "heap_but cmp ?h ?n"
    unfolding heap_but_def
  proof (intro conjI allI impI)
    fix j assume "j < length ?h" and j: "0 < j \<and> j \<noteq> ?n \<and> parent j \<noteq> ?n"
    then have "j < ?n" "parent j < ?n" using par [of j] by auto
    with ok j show "cmp (?h ! parent j) (?h ! j) \<le> 0" by (simp add: heap_ok_def nth_append)
  qed (use far in blast)
  moreover have "below_ok cmp ?h ?n" using far unfolding below_ok_def by blast
  ultimately have "heap_but cmp h' i' \<and> above_ok cmp h' i' \<and> i' < length h' \<and> below_ok cmp h' i'"
    using bheap_up_heap_but [OF _ _ up] by simp
  then have "heap_ok cmp h'" using heap_ok_split by blast
  with up show ?thesis by (simp add: bheap_push_def)
qed

lemma heap_popindex:
  assumes ok: "heap_ok cmp h" and idx: "idx < length h"
  shows "heap_ok cmp (bheap_popindex cmp idx h)"
proof -
  let ?b = "butlast h" and ?h = "(butlast h)[idx := last h]"
  have bl: "?b ! k = h ! k" if "k < length ?b" for k using that by (simp add: nth_butlast)
  have b_ok: "cmp (?b ! parent j) (?b ! j) \<le> 0" if "j < length ?b" "0 < j" for j
    using ok that parent_less [of j] bl by (simp add: heap_ok_def)
  show ?thesis
  proof (cases "idx < length ?h")
    case False
    then have "bheap_popindex cmp idx h = ?b" by (simp add: bheap_popindex_def Let_def list_update_beyond)
    with b_ok show ?thesis by (simp add: heap_ok_def)
  next
    case True
    have "heap_but cmp ?h idx"
      unfolding heap_but_def
    proof (intro conjI allI impI)
      fix j assume "j < length ?h" and "0 < j \<and> j \<noteq> idx \<and> parent j \<noteq> idx"
      with b_ok [of j] show "cmp (?h ! parent j) (?h ! j) \<le> 0" by simp
    next
      fix c assume "c < length ?h" and c: "0 < idx \<and> 0 < c \<and> parent c = idx"
      then have "cmp (?b ! parent idx) (?b ! idx) \<le> 0" "cmp (?b ! idx) (?b ! c) \<le> 0"
        using b_ok [of idx] b_ok [of c] True by auto
      then have "cmp (?b ! parent idx) (?b ! c) \<le> 0" by (rule cmp_trans)
      moreover have "c \<noteq> idx" "parent idx \<noteq> idx" using c parent_neq by metis+
      ultimately show "cmp (?h ! parent idx) (?h ! c) \<le> 0" by simp
    qed
    moreover obtain h' i' where up: "bheap_up cmp ?h idx = (h', i')" by (cases "bheap_up cmp ?h idx")
    ultimately have "heap_but cmp h' i' \<and> above_ok cmp h' i' \<and> i' < length h'"
      using bheap_up_heap_but [OF _ True up] by simp
    then have "heap_ok cmp (bheap_down cmp h' i')" using bheap_down_heap_ok by blast
    with True up show ?thesis by (simp add: bheap_popindex_def Let_def)
  qed
qed

lemma heap_peek_least: "heap_ok cmp h \<Longrightarrow> x \<in> set h \<Longrightarrow> cmp (bheap_peek h) x \<le> 0"
proof -
  assume ok: "heap_ok cmp h" and x: "x \<in> set h"
  have refl: "cmp a a \<le> 0" for a using cmp_antisym [of a a] by linarith
  have "j < length h \<Longrightarrow> cmp (h ! 0) (h ! j) \<le> 0" for j
  proof (induction j rule: less_induct)
    case (less j)
    show ?case
    proof (cases "j = 0")
      case True
      then show ?thesis by (simp add: refl)
    next
      case False
      then have "parent j < j" by (simp add: parent_less)
      moreover have "cmp (h ! parent j) (h ! j) \<le> 0"
        using ok less.prems False by (simp add: heap_ok_def)
      ultimately show ?thesis using less cmp_trans by (meson less_trans)
    qed
  qed
  with x show ?thesis by (auto simp: bheap_peek_def in_set_conv_nth)
qed

end

text \<open>The property only looks at comparisons of elements of the heap.\<close>

lemma heap_ok_cong:
  assumes "\<And>a b. a \<in> set h \<Longrightarrow> b \<in> set h \<Longrightarrow> cmp a b = cmp' a b"
  shows "heap_ok cmp h \<longleftrightarrow> heap_ok cmp' h"
proof -
  have "cmp (h ! parent j) (h ! j) = cmp' (h ! parent j) (h ! j)" if "j < length h" for j
  proof -
    have "parent j < length h" using that parent_le [of j] by simp
    with that show ?thesis by (intro assms nth_mem)
  qed
  then show ?thesis by (simp add: heap_ok_def)
qed

end
