(* ===== verification/Timer.thy ===== *)
theory Timer
  imports Bheap
begin

text \<open>
  The timer manager of \<open>src/src/common/timer.cpp\<close>: the timer array, the stack of free slots
  and the binary heap of timer ids ordered by expiration tick. A function pointer is its name
  (\<open>None\<close> is \<open>nullptr\<close>). The callbacks \<open>do_timer\<close> runs are an argument of its
  model: any function on the manager's state and the rest of the server.
\<close>

unbundle bit_operations_syntax

section \<open>State\<close>

definition TIMER_ONCE_AUTODEL :: uint32 where "TIMER_ONCE_AUTODEL = 1"
definition TIMER_INTERVAL :: uint32 where "TIMER_INTERVAL = 2"
definition TIMER_REMOVE_HEAP :: uint32 where "TIMER_REMOVE_HEAP = 16"
definition INVALID_TIMER :: int where "INVALID_TIMER = -1"
definition TIMER_MIN_INTERVAL :: t_tick where "TIMER_MIN_INTERVAL = 20"
definition TIMER_MAX_INTERVAL :: t_tick where "TIMER_MAX_INTERVAL = 1000"

lemmas timer_flags = TIMER_ONCE_AUTODEL_def TIMER_INTERVAL_def TIMER_REMOVE_HEAP_def

definition DIFF_TICK :: "t_tick \<Rightarrow> t_tick \<Rightarrow> t_tick" where
  "DIFF_TICK a b = a - b"

record TimerData =
  td_tick :: t_tick
  td_func :: "string option"
  td_type :: uint32
  td_interval :: int
  td_id :: int
  td_data :: int

definition zero_timer :: TimerData where
  "zero_timer = \<lparr>td_tick = 0, td_func = None, td_type = 0, td_interval = 0, td_id = 0, td_data = 0\<rparr>"

text \<open>
  \<open>tm_data\<close> is the whole array (\<open>timer_data_max\<close> entries), \<open>tm_num\<close> is
  \<open>timer_data_num\<close>, and \<open>tm_free\<close> holds the first \<open>free_timer_list_pos\<close>
  entries of the free list, the top of the stack first.
\<close>

record timers =
  tm_data :: "TimerData list"
  tm_num :: nat
  tm_free :: "nat list"
  tm_heap :: "nat list"

definition init_timers :: timers where
  "init_timers = \<lparr>tm_data = [], tm_num = 0, tm_free = [], tm_heap = []\<rparr>"

abbreviation timer_at :: "timers \<Rightarrow> nat \<Rightarrow> TimerData" where
  "timer_at T tid \<equiv> tm_data T ! tid"

definition set_timer :: "nat \<Rightarrow> TimerData \<Rightarrow> timers \<Rightarrow> timers" where
  "set_timer tid d T = T\<lparr>tm_data := (tm_data T)[tid := d]\<rparr>"

definition difftick_mintopcmp :: "TimerData list \<Rightarrow> nat \<Rightarrow> nat \<Rightarrow> int" where
  "difftick_mintopcmp D tid1 tid2 = DIFF_TICK (td_tick (D ! tid1)) (td_tick (D ! tid2))"

interpretation tick_order: topcmp "difftick_mintopcmp D" for D
  by unfold_locales (simp_all add: difftick_mintopcmp_def DIFF_TICK_def)

section \<open>Operations\<close>

definition push_timer_heap :: "nat \<Rightarrow> timers \<Rightarrow> timers" where
  "push_timer_heap tid T = T\<lparr>tm_heap := bheap_push (difftick_mintopcmp (tm_data T)) tid (tm_heap T)\<rparr>"

text \<open>The do-while loop over the free list of \<open>acquire_timer\<close>, then its scan of the array.\<close>

fun pop_free :: "nat \<Rightarrow> nat \<Rightarrow> nat list \<Rightarrow> nat \<times> nat list" where
  "pop_free num tid [] = (tid, [])"
| "pop_free num tid (t # ts) = (if t \<ge> num \<and> ts \<noteq> [] then pop_free num t ts else (t, ts))"

fun scan_unused :: "nat \<Rightarrow> TimerData list \<Rightarrow> nat" where
  "scan_unused tid [] = tid"
| "scan_unused tid (d # ds) = (if td_type d \<noteq> 0 then scan_unused (Suc tid) ds else tid)"

definition acquire_timer :: "timers \<Rightarrow> nat \<times> timers" where
  "acquire_timer T =
     (let (tid0, free) = (if tm_free T \<noteq> [] then pop_free (tm_num T) 0 (tm_free T)
                          else (tm_num T, []));
          tid = (if tid0 \<ge> tm_num T then scan_unused (tm_num T) (drop (tm_num T) (tm_data T))
                 else tid0);
          D = (if tid \<ge> tm_num T \<and> tid \<ge> length (tm_data T)
               then tm_data T @ replicate 256 zero_timer else tm_data T);
          num = (if tid \<ge> tm_num T then tid + 1 else tm_num T)
      in (tid, T\<lparr>tm_data := D, tm_num := num, tm_free := free\<rparr>))"

definition add_timer :: "t_tick \<Rightarrow> string option \<Rightarrow> int \<Rightarrow> int \<Rightarrow> timers \<Rightarrow> int \<times> timers" where
  "add_timer tick func tag data T =
     (case acquire_timer T of (tid, T1) \<Rightarrow>
        (int tid,
         push_timer_heap tid
           (set_timer tid \<lparr>td_tick = tick, td_func = func, td_type = TIMER_ONCE_AUTODEL,
              td_interval = 1000, td_id = tag, td_data = data\<rparr> T1)))"

definition add_timer_interval ::
    "t_tick \<Rightarrow> string option \<Rightarrow> int \<Rightarrow> int \<Rightarrow> int \<Rightarrow> timers \<Rightarrow> int \<times> timers" where
  "add_timer_interval tick func tag data interval T =
     (if interval < 1 then (INVALID_TIMER, T)
      else case acquire_timer T of (tid, T1) \<Rightarrow>
        (int tid,
         push_timer_heap tid
           (set_timer tid \<lparr>td_tick = tick, td_func = func, td_type = TIMER_INTERVAL,
              td_interval = interval, td_id = tag, td_data = data\<rparr> T1)))"

definition get_timer :: "int \<Rightarrow> timers \<Rightarrow> TimerData option" where
  "get_timer tid T = (if 0 \<le> tid \<and> tid < int (tm_num T) then Some (timer_at T (nat tid)) else None)"

definition delete_timer :: "int \<Rightarrow> string option \<Rightarrow> timers \<Rightarrow> int \<times> timers" where
  "delete_timer tid func T =
     (if tid < 0 \<or> int (tm_num T) \<le> tid then (-1, T)
      else if td_func (timer_at T (nat tid)) \<noteq> func then (-2, T)
      else (0, set_timer (nat tid)
                 ((timer_at T (nat tid))\<lparr>td_func := None, td_type := TIMER_ONCE_AUTODEL\<rparr>) T))"

definition settick_timer :: "nat \<Rightarrow> t_tick \<Rightarrow> timers \<Rightarrow> t_tick \<times> timers" where
  "settick_timer tid tick0 T =
     (let i = arr_find (\<lambda>t. t = tid) (tm_heap T) in
      if i = length (tm_heap T) then (-1, T)
      else let tick = (if tick0 = -1 then 0 else tick0) in
           if td_tick (timer_at T tid) = tick then (tick, T)
           else let T1 = T\<lparr>tm_heap := bheap_popindex (difftick_mintopcmp (tm_data T)) i (tm_heap T)\<rparr>;
                    T2 = set_timer tid ((timer_at T1 tid)\<lparr>td_tick := tick\<rparr>) T1
                in (tick, push_timer_heap tid T2))"

definition addtick_timer :: "nat \<Rightarrow> t_tick \<Rightarrow> timers \<Rightarrow> t_tick \<times> timers" where
  "addtick_timer tid tick T = settick_timer tid (td_tick (timer_at T tid) + tick) T"

text \<open>
  \<open>do_timer\<close>. A callback gets the id of its timer, the tick, and the timer's own id and data;
  it works on the manager and the rest \<open>'w\<close> of the server. \<open>finish_timer\<close> is the part
  of the loop after the callback, \<open>run_timer\<close> the whole body for the timer on top.
\<close>

type_synonym 'w callbacks = "string \<Rightarrow> nat \<Rightarrow> t_tick \<Rightarrow> int \<Rightarrow> int \<Rightarrow> timers \<times> 'w \<Rightarrow> timers \<times> 'w"

definition finish_timer :: "nat \<Rightarrow> t_tick \<Rightarrow> timers \<Rightarrow> timers" where
  "finish_timer tid tick T =
     (let d = timer_at T tid in
      if td_type d AND TIMER_REMOVE_HEAP \<noteq> 0 then
        let d = d\<lparr>td_type := td_type d AND NOT TIMER_REMOVE_HEAP\<rparr> in
        if td_type d = TIMER_INTERVAL then
          push_timer_heap tid
            (set_timer tid
              (if DIFF_TICK (td_tick d) tick < -1000 then d\<lparr>td_tick := tick + td_interval d\<rparr>
               else d\<lparr>td_tick := td_tick d + td_interval d\<rparr>) T)
        else (set_timer tid (d\<lparr>td_type := 0\<rparr>) T)\<lparr>tm_free := tid # tm_free T\<rparr>
      else T)"

definition run_timer :: "'w callbacks \<Rightarrow> t_tick \<Rightarrow> timers \<times> 'w \<Rightarrow> timers \<times> 'w" where
  "run_timer run tick Tw =
     (case Tw of (T, w) \<Rightarrow>
        let tid = bheap_peek (tm_heap T);
            d = timer_at T tid;
            diff = DIFF_TICK (td_tick d) tick;
            T1 = set_timer tid (d\<lparr>td_type := td_type d OR TIMER_REMOVE_HEAP\<rparr>)
                   (T\<lparr>tm_heap := bheap_pop (difftick_mintopcmp (tm_data T)) (tm_heap T)\<rparr>);
            (T2, w2) = (case td_func d of
                None \<Rightarrow> (T1, w)
              | Some f \<Rightarrow> run f tid (if diff < -1000 then tick else td_tick d) (td_id d) (td_data d) (T1, w))
        in (finish_timer tid tick T2, w2))"

partial_function (option) do_timer_loop ::
    "'w callbacks \<Rightarrow> t_tick \<Rightarrow> t_tick \<Rightarrow> timers \<times> 'w \<Rightarrow> (t_tick \<times> timers \<times> 'w) option" where
  "do_timer_loop run tick diff Tw =
     (if tm_heap (fst Tw) = [] then Some (diff, Tw)
      else let d = DIFF_TICK (td_tick (timer_at (fst Tw) (bheap_peek (tm_heap (fst Tw))))) tick
           in if d > 0 then Some (d, Tw) else do_timer_loop run tick d (run_timer run tick Tw))"

definition do_timer :: "'w callbacks \<Rightarrow> t_tick \<Rightarrow> timers \<times> 'w \<Rightarrow> (t_tick \<times> timers \<times> 'w) option" where
  "do_timer run tick Tw =
     map_option (\<lambda>(diff, Tw'). (cap_value diff TIMER_MIN_INTERVAL TIMER_MAX_INTERVAL, Tw'))
       (do_timer_loop run tick TIMER_MAX_INTERVAL Tw)"

section \<open>The invariant\<close>

lemma flag_bits [simp]:
  "TIMER_ONCE_AUTODEL AND TIMER_REMOVE_HEAP = 0" "TIMER_INTERVAL AND TIMER_REMOVE_HEAP = 0"
  "(x OR TIMER_REMOVE_HEAP) AND TIMER_REMOVE_HEAP = TIMER_REMOVE_HEAP" "TIMER_REMOVE_HEAP \<noteq> 0"
  "TIMER_ONCE_AUTODEL AND NOT TIMER_REMOVE_HEAP = TIMER_ONCE_AUTODEL"
  "TIMER_INTERVAL AND NOT TIMER_REMOVE_HEAP = TIMER_INTERVAL"
  "TIMER_ONCE_AUTODEL \<noteq> TIMER_INTERVAL" "TIMER_INTERVAL \<noteq> TIMER_ONCE_AUTODEL"
  "TIMER_INTERVAL \<noteq> 0" "TIMER_ONCE_AUTODEL \<noteq> 0"
  "(x OR TIMER_REMOVE_HEAP) AND NOT TIMER_REMOVE_HEAP = x AND NOT TIMER_REMOVE_HEAP"
  by (simp_all add: timer_flags bit.conj_disj_distrib2)


text \<open>
  The heap and the free list hold distinct slots in use and do not overlap; the heap is ordered by
  tick; a slot in the heap is live; a slot that repeats does so after a positive interval; no free
  slot carries the mark of the timer that is running; a slot never handed out is cleared.
\<close>

definition timers_wf :: "timers \<Rightarrow> bool" where
  "timers_wf T \<longleftrightarrow>
     tm_num T \<le> length (tm_data T) \<and>
     set (tm_heap T) \<subseteq> {..<tm_num T} \<and> set (tm_free T) \<subseteq> {..<tm_num T} \<and>
     distinct (tm_heap T) \<and> distinct (tm_free T) \<and> set (tm_heap T) \<inter> set (tm_free T) = {} \<and>
     heap_ok (difftick_mintopcmp (tm_data T)) (tm_heap T) \<and>
     (\<forall>t \<in> set (tm_heap T). td_type (timer_at T t) \<in> {TIMER_ONCE_AUTODEL, TIMER_INTERVAL}) \<and>
     (\<forall>t < length (tm_data T). td_type (timer_at T t) AND NOT TIMER_REMOVE_HEAP = TIMER_INTERVAL \<longrightarrow>
        1 \<le> td_interval (timer_at T t)) \<and>
     (\<forall>t \<in> set (tm_free T). td_type (timer_at T t) AND TIMER_REMOVE_HEAP = 0) \<and>
     (\<forall>t. tm_num T \<le> t \<and> t < length (tm_data T) \<longrightarrow> td_type (timer_at T t) = 0)"

lemma timers_wf_init: "timers_wf init_timers"
  by (simp add: timers_wf_def init_timers_def heap_ok_def)

lemma timers_wf_num: "timers_wf T \<Longrightarrow> t \<in> set (tm_heap T) \<or> t \<in> set (tm_free T) \<Longrightarrow> t < length (tm_data T)"
  by (force simp: timers_wf_def)

lemma set_mset_eqI: "mset xs = mset ys \<Longrightarrow> set xs = set ys \<and> distinct xs = distinct ys"
  by (metis mset_eq_imp_distinct_iff set_mset_mset)

lemma set_bheap_push [simp]: "set (bheap_push cmp v h) = insert v (set h)"
  using mset_bheap_push [of cmp v h] by (metis set_mset_add_mset_insert set_mset_mset)

lemma distinct_bheap_push: "distinct (bheap_push cmp v h) \<longleftrightarrow> v \<notin> set h \<and> distinct h"
  using set_mset_eqI [of "bheap_push cmp v h" "v # h"] mset_bheap_push [of cmp v h] by simp

lemma popindex_facts:
  assumes "idx < length h" "distinct h"
  shows "set (bheap_popindex cmp idx h) = set h - {h ! idx}" "distinct (bheap_popindex cmp idx h)"
proof -
  have m: "mset (h ! idx # bheap_popindex cmp idx h) = mset h"
    using mset_bheap_popindex [OF assms(1), of cmp] by simp
  from set_mset_eqI [OF m] assms(2)
  show "set (bheap_popindex cmp idx h) = set h - {h ! idx}" "distinct (bheap_popindex cmp idx h)"
    by auto
qed

lemma timer_at_set_timer:
  "timer_at (set_timer tid d T) t = (if t = tid \<and> tid < length (tm_data T) then d else timer_at T t)"
  by (auto simp: set_timer_def nth_list_update list_update_beyond not_less)

lemma set_timer_simps [simp]:
  "tm_num (set_timer tid d T) = tm_num T" "tm_free (set_timer tid d T) = tm_free T"
  "tm_heap (set_timer tid d T) = tm_heap T" "length (tm_data (set_timer tid d T)) = length (tm_data T)"
  by (simp_all add: set_timer_def)

lemma push_timer_heap_simps [simp]:
  "tm_num (push_timer_heap tid T) = tm_num T" "tm_free (push_timer_heap tid T) = tm_free T"
  "tm_data (push_timer_heap tid T) = tm_data T" "set (tm_heap (push_timer_heap tid T)) = insert tid (set (tm_heap T))"
  by (simp_all add: push_timer_heap_def)

text \<open>Writing a slot outside the heap keeps the heap ordered; so does a write that keeps the tick.\<close>

lemma heap_ok_set_timer:
  assumes "heap_ok (difftick_mintopcmp (tm_data T)) (tm_heap T)"
    and "tid \<notin> set (tm_heap T) \<or> td_tick d = td_tick (timer_at T tid)"
  shows "heap_ok (difftick_mintopcmp (tm_data (set_timer tid d T))) (tm_heap T)"
proof -
  have tick: "td_tick (timer_at (set_timer tid d T) a) = td_tick (timer_at T a)" if "a \<in> set (tm_heap T)" for a
    using that assms(2) by (auto simp: timer_at_set_timer)
  have "heap_ok (difftick_mintopcmp (tm_data (set_timer tid d T))) (tm_heap T) \<longleftrightarrow>
        heap_ok (difftick_mintopcmp (tm_data T)) (tm_heap T)"
    by (rule heap_ok_cong) (simp add: difftick_mintopcmp_def tick)
  with assms(1) show ?thesis by simp
qed

text \<open>Arming a slot that is neither in the heap nor free: what every caller of \<open>push_timer_heap\<close> does.\<close>

lemma timers_wf_arm:
  assumes wf: "timers_wf T" and tid: "tid < tm_num T" "tid \<notin> set (tm_heap T)" "tid \<notin> set (tm_free T)"
    and live: "td_type d = TIMER_ONCE_AUTODEL \<or> td_type d = TIMER_INTERVAL \<and> 1 \<le> td_interval d"
  shows "timers_wf (push_timer_heap tid (set_timer tid d T))"
proof -
  let ?T = "set_timer tid d T"
  have lt: "tid < length (tm_data T)" using wf tid by (simp add: timers_wf_def)
  have "heap_ok (difftick_mintopcmp (tm_data ?T)) (tm_heap T)"
    by (rule heap_ok_set_timer) (use wf tid in \<open>auto simp: timers_wf_def\<close>)
  then have ok: "heap_ok (difftick_mintopcmp (tm_data ?T)) (tm_heap (push_timer_heap tid ?T))"
    by (simp add: push_timer_heap_def tick_order.heap_push)
  have dist: "distinct (tm_heap (push_timer_heap tid ?T))"
    using wf tid by (simp add: push_timer_heap_def distinct_bheap_push timers_wf_def)
  show ?thesis
    using wf tid live ok dist lt
    by (auto simp: timers_wf_def timer_at_set_timer)
qed

text \<open>Removing an entry of the heap.\<close>

lemma timers_wf_popindex:
  assumes "timers_wf T" "i < length (tm_heap T)"
  shows "timers_wf (T\<lparr>tm_heap := bheap_popindex (difftick_mintopcmp (tm_data T)) i (tm_heap T)\<rparr>)"
  using assms popindex_facts [OF assms(2), of "difftick_mintopcmp (tm_data T)"]
    tick_order.heap_popindex [OF _ assms(2), of "tm_data T"]
  by (auto simp: timers_wf_def)

section \<open>Acquiring a slot\<close>

lemma pop_free_in:
  "ts \<noteq> [] \<Longrightarrow> set ts \<subseteq> {..<num} \<Longrightarrow> pop_free num tid ts = (hd ts, tl ts)"
  by (cases ts) auto

lemma scan_unused_clear: "\<forall>d \<in> set ds. td_type d = 0 \<Longrightarrow> scan_unused tid ds = tid"
  by (cases ds) auto

text \<open>
  With the invariant the free list is used when it is not empty, and otherwise the first slot never
  handed out, growing the array by 256 when it is full.
\<close>

lemma acquire_timer_eq:
  assumes wf: "timers_wf T"
  shows "acquire_timer T =
    (if tm_free T \<noteq> [] then (hd (tm_free T), T\<lparr>tm_free := tl (tm_free T)\<rparr>)
     else (tm_num T, T\<lparr>tm_data := (if tm_num T = length (tm_data T)
                          then tm_data T @ replicate 256 zero_timer else tm_data T),
                       tm_num := tm_num T + 1\<rparr>))"
proof (cases "tm_free T")
  case Nil
  have "scan_unused (tm_num T) (drop (tm_num T) (tm_data T)) = tm_num T"
  proof (rule scan_unused_clear, rule ballI)
    fix d assume "d \<in> set (drop (tm_num T) (tm_data T))"
    then obtain k where "k < length (tm_data T) - tm_num T" "d = timer_at T (tm_num T + k)"
      by (auto simp: in_set_conv_nth)
    then show "td_type d = 0" using wf by (simp add: timers_wf_def)
  qed
  with Nil wf show ?thesis by (cases T) (auto simp: acquire_timer_def timers_wf_def Let_def)
next
  case (Cons t ts)
  then have "t < tm_num T" using wf by (simp add: timers_wf_def)
  with Cons show ?thesis by (simp add: acquire_timer_def)
qed

lemma acquire_timer_fresh:
  assumes wf: "timers_wf T" and acq: "acquire_timer T = (tid, T1)"
  shows "timers_wf T1 \<and> tid < tm_num T1 \<and> tid \<notin> set (tm_heap T1) \<and> tid \<notin> set (tm_free T1) \<and>
    tm_heap T1 = tm_heap T \<and> tm_num T \<le> tm_num T1 \<and> (\<forall>t < tm_num T. timer_at T1 t = timer_at T t)"
proof (cases "tm_free T")
  case Nil
  let ?D = "if tm_num T = length (tm_data T) then tm_data T @ replicate 256 zero_timer else tm_data T"
  have eqs: "tid = tm_num T" "T1 = T\<lparr>tm_data := ?D, tm_num := tm_num T + 1\<rparr>"
    using acquire_timer_eq [OF wf] acq Nil by simp_all
  have keep: "?D ! t = timer_at T t" if "t < length (tm_data T)" for t
    using that by (simp add: nth_append)
  have num: "tm_num T \<le> length (tm_data T)" using wf by (simp add: timers_wf_def)
  have zero: "td_type (?D ! t) = 0" if "tm_num T \<le> t" "t < length ?D" for t
  proof (cases "t < length (tm_data T)")
    case True
    with wf that keep show ?thesis by (simp add: timers_wf_def)
  next
    case False
    with that show ?thesis by (simp add: nth_append zero_timer_def split: if_splits)
  qed
  have heap: "heap_ok (difftick_mintopcmp ?D) (tm_heap T)"
  proof -
    have "heap_ok (difftick_mintopcmp ?D) (tm_heap T) \<longleftrightarrow> heap_ok (difftick_mintopcmp (tm_data T)) (tm_heap T)"
      by (rule heap_ok_cong)
        (use timers_wf_num [OF wf] keep in \<open>simp add: difftick_mintopcmp_def del: if_split\<close>)
    with wf show ?thesis by (simp add: timers_wf_def)
  qed
  have pos: "1 \<le> td_interval (?D ! t)"
    if "t < length ?D" "td_type (?D ! t) AND NOT TIMER_REMOVE_HEAP = TIMER_INTERVAL" for t
  proof (cases "t < length (tm_data T)")
    case True
    with wf that keep show ?thesis by (simp add: timers_wf_def del: if_split)
  next
    case False
    with that zero [of t] num show ?thesis by (auto simp del: if_split)
  qed
  have "tm_num T < length ?D" using num by simp
  moreover have "?D ! t = timer_at T t" if "t \<in> set (tm_heap T)" for t
    using keep timers_wf_num [OF wf] that by simp
  ultimately show ?thesis
    using wf Nil eqs keep zero pos heap num unfolding timers_wf_def by (auto split del: if_split)
next
  case (Cons t ts)
  then have "tid = t" "T1 = T\<lparr>tm_free := ts\<rparr>" using acquire_timer_eq [OF wf] acq by simp_all
  with Cons wf show ?thesis by (auto simp: timers_wf_def)
qed

section \<open>Every operation keeps the invariant\<close>

lemma timers_wf_add_timer: "timers_wf T \<Longrightarrow> timers_wf (snd (add_timer tick func tag data T))"
  unfolding add_timer_def
  by (cases "acquire_timer T") (auto dest: acquire_timer_fresh intro!: timers_wf_arm)

lemma timers_wf_add_timer_interval:
  "timers_wf T \<Longrightarrow> timers_wf (snd (add_timer_interval tick func tag data interval T))"
  unfolding add_timer_interval_def
  by (cases "acquire_timer T") (auto dest: acquire_timer_fresh intro!: timers_wf_arm)

text \<open>Deleting only marks the slot: the entry stays in the heap until it expires.\<close>

lemma timers_wf_delete_timer: "timers_wf T \<Longrightarrow> timers_wf (snd (delete_timer tid func T))"
proof (cases "tid < 0 \<or> int (tm_num T) \<le> tid \<or> td_func (timer_at T (nat tid)) \<noteq> func")
  case True
  then show "timers_wf T \<Longrightarrow> ?thesis" by (auto simp: delete_timer_def)
next
  case False
  let ?d = "(timer_at T (nat tid))\<lparr>td_func := None, td_type := TIMER_ONCE_AUTODEL\<rparr>"
  assume wf: "timers_wf T"
  have "heap_ok (difftick_mintopcmp (tm_data (set_timer (nat tid) ?d T))) (tm_heap T)"
    by (rule heap_ok_set_timer) (use wf in \<open>auto simp: timers_wf_def\<close>)
  moreover have "nat tid < tm_num T" using False by auto
  ultimately show ?thesis
    using wf False by (auto simp: delete_timer_def timers_wf_def timer_at_set_timer)
qed

lemma heap_slot_live:
  assumes wf: "timers_wf T" and t: "t \<in> set (tm_heap T)"
  shows "td_type (timer_at T t) = TIMER_ONCE_AUTODEL \<or>
    td_type (timer_at T t) = TIMER_INTERVAL \<and> 1 \<le> td_interval (timer_at T t)"
proof -
  have "t < length (tm_data T)" using timers_wf_num [OF wf] t by simp
  moreover have "\<forall>t < length (tm_data T). td_type (timer_at T t) AND NOT TIMER_REMOVE_HEAP = TIMER_INTERVAL \<longrightarrow>
        1 \<le> td_interval (timer_at T t)"
    and "td_type (timer_at T t) \<in> {TIMER_ONCE_AUTODEL, TIMER_INTERVAL}"
    using wf t unfolding timers_wf_def by blast+
  ultimately show ?thesis by (metis flag_bits(6) insertE singletonD)
qed

lemma timers_wf_settick_timer:
  assumes wf: "timers_wf T"
  shows "timers_wf (snd (settick_timer tid tick T))"
proof (cases "tid \<in> set (tm_heap T)")
  case False
  then have "arr_find (\<lambda>t. t = tid) (tm_heap T) = length (tm_heap T)"
    by (intro arr_find_none) auto
  with wf show ?thesis by (simp add: settick_timer_def)
next
  case True
  let ?i = "arr_find (\<lambda>t. t = tid) (tm_heap T)"
  let ?T1 = "T\<lparr>tm_heap := bheap_popindex (difftick_mintopcmp (tm_data T)) ?i (tm_heap T)\<rparr>"
  have i: "?i < length (tm_heap T)" "tm_heap T ! ?i = tid"
    using arr_find_found [OF True, of "\<lambda>t. t = tid"] by auto
  have wf1: "timers_wf ?T1" by (rule timers_wf_popindex [OF wf i(1)])
  have "distinct (tm_heap T)" using wf by (simp add: timers_wf_def)
  from popindex_facts [OF i(1) this] i(2)
  have gone: "tid \<notin> set (tm_heap ?T1)" by simp
  have "tid < tm_num ?T1" "tid \<notin> set (tm_free ?T1)" using wf True by (auto simp: timers_wf_def)
  moreover note heap_slot_live [OF wf True]
  ultimately show ?thesis
    using wf timers_wf_arm [OF wf1 _ gone, of "(timer_at T tid)\<lparr>td_tick := t\<rparr>" for t]
    by (auto simp: settick_timer_def Let_def)
qed

section \<open>Running the expired timers\<close>

text \<open>
  What a callback owes the manager: it works through the operations above, so it keeps the invariant
  and never shrinks the array in use.
\<close>

definition callbacks_ok :: "'w callbacks \<Rightarrow> bool" where
  "callbacks_ok run \<longleftrightarrow> (\<forall>f tid tick tag data T w. timers_wf T \<longrightarrow>
     timers_wf (fst (run f tid tick tag data (T, w))) \<and>
     tm_num T \<le> tm_num (fst (run f tid tick tag data (T, w))))"

lemma timers_wf_free:
  assumes wf: "timers_wf T" and tid: "tid < tm_num T" "tid \<notin> set (tm_heap T)" "tid \<notin> set (tm_free T)"
    and "td_type d = 0"
  shows "timers_wf ((set_timer tid d T)\<lparr>tm_free := tid # tm_free T\<rparr>)"
proof -
  have "heap_ok (difftick_mintopcmp (tm_data (set_timer tid d T))) (tm_heap T)"
    by (rule heap_ok_set_timer) (use wf tid in \<open>auto simp: timers_wf_def\<close>)
  moreover have "TIMER_INTERVAL \<noteq> 0" by simp
  ultimately show ?thesis using assms by (auto simp: timers_wf_def timer_at_set_timer simp del: flag_bits)
qed

lemma marked_slot:
  assumes "timers_wf T" "td_type (timer_at T tid) AND TIMER_REMOVE_HEAP \<noteq> 0"
  shows "tid \<notin> set (tm_heap T) \<and> tid \<notin> set (tm_free T)"
  using assms unfolding timers_wf_def by auto

lemma timers_wf_finish_timer:
  assumes wf: "timers_wf T" and tid: "tid < tm_num T"
  shows "timers_wf (finish_timer tid tick T)"
proof (cases "td_type (timer_at T tid) AND TIMER_REMOVE_HEAP = 0")
  case True
  with wf show ?thesis by (simp add: finish_timer_def)
next
  case False
  then have out: "tid \<notin> set (tm_heap T)" "tid \<notin> set (tm_free T)"
    using wf unfolding timers_wf_def by auto
  have pos: "td_type (timer_at T tid) AND NOT TIMER_REMOVE_HEAP = TIMER_INTERVAL \<longrightarrow>
      1 \<le> td_interval (timer_at T tid)"
    using wf tid by (simp add: timers_wf_def)
  show ?thesis
    using False timers_wf_arm [OF wf tid out] timers_wf_free [OF wf tid out] pos
    by (auto simp: finish_timer_def Let_def)
qed

text \<open>Taking the top off the heap and marking it as running.\<close>

lemma timers_wf_pop_mark:
  assumes wf: "timers_wf T" and ne: "tm_heap T \<noteq> []"
  defines "tid \<equiv> bheap_peek (tm_heap T)"
  shows "timers_wf (set_timer tid ((timer_at T tid)\<lparr>td_type := td_type (timer_at T tid) OR TIMER_REMOVE_HEAP\<rparr>)
           (T\<lparr>tm_heap := bheap_pop (difftick_mintopcmp (tm_data T)) (tm_heap T)\<rparr>)) \<and>
         tid < tm_num T"
proof -
  let ?T1 = "T\<lparr>tm_heap := bheap_pop (difftick_mintopcmp (tm_data T)) (tm_heap T)\<rparr>"
  let ?d = "(timer_at T tid)\<lparr>td_type := td_type (timer_at T tid) OR TIMER_REMOVE_HEAP\<rparr>"
  have z: "0 < length (tm_heap T)" using ne by simp
  have wf1: "timers_wf ?T1" unfolding bheap_pop_def by (rule timers_wf_popindex [OF wf z])
  have "distinct (tm_heap T)" using wf by (simp add: timers_wf_def)
  from popindex_facts [OF z this, of "difftick_mintopcmp (tm_data T)"]
  have gone: "tid \<notin> set (tm_heap ?T1)" by (simp add: bheap_pop_def tid_def bheap_peek_def)
  have mem: "tid \<in> set (tm_heap T)" using ne by (simp add: tid_def bheap_peek_def)
  then have lt: "tid < tm_num T" and nf: "tid \<notin> set (tm_free T)" using wf by (auto simp: timers_wf_def)
  have "heap_ok (difftick_mintopcmp (tm_data (set_timer tid ?d ?T1))) (tm_heap ?T1)"
    by (rule heap_ok_set_timer) (use wf1 in \<open>auto simp: timers_wf_def\<close>)
  with wf1 gone lt nf show ?thesis
    by (auto simp: timers_wf_def timer_at_set_timer)
qed

lemma timers_wf_run_timer:
  assumes wf: "timers_wf T" and ne: "tm_heap T \<noteq> []" and ok: "callbacks_ok run"
  shows "timers_wf (fst (run_timer run tick (T, w)))"
proof -
  let ?tid = "bheap_peek (tm_heap T)"
  let ?T1 = "set_timer ?tid ((timer_at T ?tid)\<lparr>td_type := td_type (timer_at T ?tid) OR TIMER_REMOVE_HEAP\<rparr>)
           (T\<lparr>tm_heap := bheap_pop (difftick_mintopcmp (tm_data T)) (tm_heap T)\<rparr>)"
  from timers_wf_pop_mark [OF wf ne]
  have wf1: "timers_wf ?T1" and lt: "?tid < tm_num ?T1" by simp_all
  show ?thesis
  proof (cases "td_func (timer_at T ?tid)")
    case None
    with timers_wf_finish_timer [OF wf1 lt] show ?thesis by (simp add: run_timer_def Let_def)
  next
    case (Some f)
    define Tw2 where "Tw2 = run f ?tid (if DIFF_TICK (td_tick (timer_at T ?tid)) tick < -1000 then tick
        else td_tick (timer_at T ?tid)) (td_id (timer_at T ?tid)) (td_data (timer_at T ?tid)) (?T1, w)"
    have "timers_wf (fst Tw2)" "?tid < tm_num (fst Tw2)"
      using ok wf1 lt unfolding callbacks_ok_def Tw2_def by (blast, meson order_less_le_trans)
    then have "timers_wf (finish_timer ?tid tick (fst Tw2))" by (rule timers_wf_finish_timer)
    with Some show ?thesis by (simp add: run_timer_def Let_def Tw2_def case_prod_beta cong: if_cong split del: if_split)
  qed
qed

text \<open>The timer on top is the one that expires first.\<close>

lemma peek_earliest:
  "timers_wf T \<Longrightarrow> t \<in> set (tm_heap T) \<Longrightarrow> td_tick (timer_at T (bheap_peek (tm_heap T))) \<le> td_tick (timer_at T t)"
  using tick_order.heap_peek_least [of "tm_data T" "tm_heap T" t]
  by (simp add: timers_wf_def difftick_mintopcmp_def DIFF_TICK_def)

text \<open>When the loop returns, no expired timer is left and the invariant holds, whatever the callbacks did.\<close>

lemma do_timer_loop_complete:
  assumes ret: "do_timer_loop run tick diff Tw = Some r"
    and ok: "callbacks_ok run" and wf: "timers_wf (fst Tw)"
  shows "timers_wf (fst (snd r)) \<and> (\<forall>t \<in> set (tm_heap (fst (snd r))). tick < td_tick (timer_at (fst (snd r)) t) \<and>
      tick + fst r \<le> td_tick (timer_at (fst (snd r)) t))"
proof -
  have "callbacks_ok run \<longrightarrow> timers_wf (fst Tw) \<longrightarrow> timers_wf (fst (snd r)) \<and>
      (\<forall>t \<in> set (tm_heap (fst (snd r))). tick < td_tick (timer_at (fst (snd r)) t) \<and>
      tick + fst r \<le> td_tick (timer_at (fst (snd r)) t))"
  proof (rule do_timer_loop.raw_induct [where P = "\<lambda>run tick diff Tw r. callbacks_ok run \<longrightarrow> timers_wf (fst Tw) \<longrightarrow>
      timers_wf (fst (snd r)) \<and> (\<forall>t \<in> set (tm_heap (fst (snd r))). tick < td_tick (timer_at (fst (snd r)) t) \<and>
      tick + fst r \<le> td_tick (timer_at (fst (snd r)) t))",
      OF _ ret], intro impI)
    fix f and run :: "'a callbacks" and tick diff Tw r
    assume IH: "\<And>run tick diff Tw r. f run tick diff Tw = Some r \<Longrightarrow>
        callbacks_ok run \<longrightarrow> timers_wf (fst Tw) \<longrightarrow> timers_wf (fst (snd r)) \<and>
        (\<forall>t \<in> set (tm_heap (fst (snd r))). tick < td_tick (timer_at (fst (snd r)) t) \<and>
      tick + fst r \<le> td_tick (timer_at (fst (snd r)) t))"
      and body: "(if tm_heap (fst Tw) = [] then Some (diff, Tw)
        else let d = DIFF_TICK (td_tick (timer_at (fst Tw) (bheap_peek (tm_heap (fst Tw))))) tick
             in if d > 0 then Some (d, Tw) else f run tick d (run_timer run tick Tw)) = Some r"
      and ok': "callbacks_ok run" and wf': "timers_wf (fst Tw)"
    let ?d = "DIFF_TICK (td_tick (timer_at (fst Tw) (bheap_peek (tm_heap (fst Tw))))) tick"
    show "timers_wf (fst (snd r)) \<and> (\<forall>t \<in> set (tm_heap (fst (snd r))). tick < td_tick (timer_at (fst (snd r)) t) \<and>
      tick + fst r \<le> td_tick (timer_at (fst (snd r)) t))"
    proof (cases "tm_heap (fst Tw) = [] \<or> ?d > 0")
      case True
      then have "snd r = Tw" "tm_heap (fst Tw) \<noteq> [] \<longrightarrow> fst r = ?d"
        using body by (auto simp: Let_def split: if_splits)
      with True wf' show ?thesis
        using peek_earliest [OF wf'] by (fastforce simp: DIFF_TICK_def)
    next
      case False
      then have "f run tick ?d (run_timer run tick Tw) = Some r"
        using body by (simp add: Let_def)
      moreover have "timers_wf (fst (run_timer run tick Tw))"
        using timers_wf_run_timer [of "fst Tw" run tick "snd Tw"] False wf' ok' by simp
      ultimately show ?thesis using IH ok' by blast
    qed
  qed
  with ok wf show ?thesis by blast
qed

section \<open>The loop ends\<close>

text \<open>
  How far the heap lags behind \<open>tick\<close>: an expired timer counts the milliseconds it is late
  plus one, every other timer nothing. Running a timer lowers the sum, because a repeating timer is
  put back at least one millisecond later.
\<close>

definition lateness :: "t_tick \<Rightarrow> TimerData \<Rightarrow> nat" where
  "lateness tick d = nat (tick + 1 - td_tick d)"

definition backlog :: "t_tick \<Rightarrow> timers \<Rightarrow> nat" where
  "backlog tick T = (\<Sum>t \<in> set (tm_heap T). lateness tick (timer_at T t))"

text \<open>
  Callbacks that do not schedule work for the current pass: they leave the backlog no larger, and
  either do not touch their own timer or clear its running mark (\<open>delete_timer\<close> does).
\<close>

definition callbacks_prompt :: "'w callbacks \<Rightarrow> t_tick \<Rightarrow> bool" where
  "callbacks_prompt run tick \<longleftrightarrow> (\<forall>f tid tick' tag data T w. timers_wf T \<longrightarrow>
     (let T' = fst (run f tid tick' tag data (T, w)) in
      backlog tick T' \<le> backlog tick T \<and>
      (timer_at T' tid = timer_at T tid \<or> td_type (timer_at T' tid) AND TIMER_REMOVE_HEAP = 0)))"

lemma backlog_set_timer: "tid \<notin> set (tm_heap T) \<Longrightarrow> backlog tick (set_timer tid d T) = backlog tick T"
  unfolding backlog_def by (rule sum.cong) (auto simp: timer_at_set_timer)

lemma backlog_push:
  "tid \<notin> set (tm_heap T) \<Longrightarrow>
   backlog tick (push_timer_heap tid T) = lateness tick (timer_at T tid) + backlog tick T"
  by (simp add: backlog_def)

lemma backlog_pop_mark:
  assumes wf: "timers_wf T" and ne: "tm_heap T \<noteq> []"
  defines "tid \<equiv> bheap_peek (tm_heap T)"
  shows "backlog tick T = lateness tick (timer_at T tid) +
    backlog tick (set_timer tid d (T\<lparr>tm_heap := bheap_pop (difftick_mintopcmp (tm_data T)) (tm_heap T)\<rparr>))"
proof -
  let ?T1 = "T\<lparr>tm_heap := bheap_pop (difftick_mintopcmp (tm_data T)) (tm_heap T)\<rparr>"
  have z: "0 < length (tm_heap T)" using ne by simp
  have "distinct (tm_heap T)" using wf by (simp add: timers_wf_def)
  from popindex_facts [OF z this, of "difftick_mintopcmp (tm_data T)"]
  have rest: "set (tm_heap ?T1) = set (tm_heap T) - {tid}" by (simp add: bheap_pop_def tid_def bheap_peek_def)
  have mem: "tid \<in> set (tm_heap T)" using ne by (simp add: tid_def bheap_peek_def)
  have "backlog tick T = lateness tick (timer_at T tid) + backlog tick ?T1"
    using mem rest by (simp add: backlog_def sum.remove [of "set (tm_heap T)" tid])
  with rest show ?thesis by (simp add: backlog_set_timer)
qed

lemma backlog_finish:
  assumes wf: "timers_wf T" and tid: "tid < tm_num T" and due: "td_tick (timer_at T tid) \<le> tick"
  shows "td_type (timer_at T tid) AND TIMER_REMOVE_HEAP \<noteq> 0 \<Longrightarrow>
      backlog tick (finish_timer tid tick T) < lateness tick (timer_at T tid) + backlog tick T"
    and "td_type (timer_at T tid) AND TIMER_REMOVE_HEAP = 0 \<Longrightarrow>
      backlog tick (finish_timer tid tick T) = backlog tick T"
proof -
  show "td_type (timer_at T tid) AND TIMER_REMOVE_HEAP = 0 \<Longrightarrow>
      backlog tick (finish_timer tid tick T) = backlog tick T"
    by (simp add: finish_timer_def)
  assume mark: "td_type (timer_at T tid) AND TIMER_REMOVE_HEAP \<noteq> 0"
  then have out: "tid \<notin> set (tm_heap T)" using wf by (auto simp: timers_wf_def)
  have len: "tid < length (tm_data T)" using wf tid by (simp add: timers_wf_def)
  have pos: "td_type (timer_at T tid) AND NOT TIMER_REMOVE_HEAP = TIMER_INTERVAL \<longrightarrow>
      1 \<le> td_interval (timer_at T tid)"
    using wf len by (simp add: timers_wf_def)
  let ?d = "timer_at T tid"
  show "backlog tick (finish_timer tid tick T) < lateness tick ?d + backlog tick T"
  proof (cases "td_type ?d AND NOT TIMER_REMOVE_HEAP = TIMER_INTERVAL")
    case True
    then show ?thesis
      using mark out len pos due
      by (simp add: finish_timer_def Let_def backlog_push backlog_set_timer timer_at_set_timer lateness_def DIFF_TICK_def)
  next
    case False
    have "backlog tick ((set_timer tid d T)\<lparr>tm_free := x\<rparr>) = backlog tick T" for d x
      using backlog_set_timer [OF out, of tick d] by (simp add: backlog_def)
    then show ?thesis
      using mark False due by (simp add: finish_timer_def Let_def lateness_def)
  qed
qed

lemma backlog_run_timer:
  assumes wf: "timers_wf T" and ne: "tm_heap T \<noteq> []" and ok: "callbacks_ok run"
    and prompt: "callbacks_prompt run tick"
    and due: "td_tick (timer_at T (bheap_peek (tm_heap T))) \<le> tick"
  shows "backlog tick (fst (run_timer run tick (T, w))) < backlog tick T"
proof -
  let ?tid = "bheap_peek (tm_heap T)"
  let ?m = "(timer_at T ?tid)\<lparr>td_type := td_type (timer_at T ?tid) OR TIMER_REMOVE_HEAP\<rparr>"
  let ?T1 = "set_timer ?tid ?m (T\<lparr>tm_heap := bheap_pop (difftick_mintopcmp (tm_data T)) (tm_heap T)\<rparr>)"
  have wf1: "timers_wf ?T1" and lt: "?tid < tm_num ?T1" using timers_wf_pop_mark [OF wf ne] by simp_all
  have b1: "backlog tick T = lateness tick (timer_at T ?tid) + backlog tick ?T1"
    by (rule backlog_pop_mark [OF wf ne])
  have slot: "timer_at ?T1 ?tid = ?m" using wf lt by (simp add: timer_at_set_timer timers_wf_def)
  have late: "lateness tick (timer_at T ?tid) = lateness tick ?m" "0 < lateness tick ?m"
    using due by (simp_all add: lateness_def)
  have step: "backlog tick (finish_timer ?tid tick T2) < backlog tick T"
    if "timers_wf T2" "?tid < tm_num T2" "backlog tick T2 \<le> backlog tick ?T1"
      "timer_at T2 ?tid = ?m \<or> td_type (timer_at T2 ?tid) AND TIMER_REMOVE_HEAP = 0" for T2
  proof (cases "td_type (timer_at T2 ?tid) AND TIMER_REMOVE_HEAP = 0")
    case True
    then have "finish_timer ?tid tick T2 = T2" by (simp add: finish_timer_def)
    with that b1 late show ?thesis by simp
  next
    case False
    with that(4) have eq: "timer_at T2 ?tid = ?m" by simp
    have "backlog tick (finish_timer ?tid tick T2) < lateness tick ?m + backlog tick T2"
      using backlog_finish(1) [OF that(1,2), of tick] eq False due by simp
    with that(3) b1 late show ?thesis by simp
  qed
  show ?thesis
  proof (cases "td_func (timer_at T ?tid)")
    case None
    with step [OF wf1 lt] slot show ?thesis by (simp add: run_timer_def Let_def)
  next
    case (Some f)
    define Tw2 where "Tw2 = run f ?tid (if DIFF_TICK (td_tick (timer_at T ?tid)) tick < -1000 then tick
        else td_tick (timer_at T ?tid)) (td_id (timer_at T ?tid)) (td_data (timer_at T ?tid)) (?T1, w)"
    have "timers_wf (fst Tw2)" "?tid < tm_num (fst Tw2)"
      using ok wf1 lt unfolding callbacks_ok_def Tw2_def by (blast, meson order_less_le_trans)
    moreover have "backlog tick (fst Tw2) \<le> backlog tick ?T1"
      "timer_at (fst Tw2) ?tid = ?m \<or> td_type (timer_at (fst Tw2) ?tid) AND TIMER_REMOVE_HEAP = 0"
      using prompt wf1 slot unfolding callbacks_prompt_def Tw2_def by (metis (no_types, lifting))+
    ultimately have "backlog tick (finish_timer ?tid tick (fst Tw2)) < backlog tick T" by (rule step)
    with Some show ?thesis
      by (simp add: run_timer_def Let_def Tw2_def case_prod_beta cong: if_cong split del: if_split)
  qed
qed

lemma do_timer_loop_returns:
  assumes ok: "callbacks_ok run" and prompt: "callbacks_prompt run tick"
  shows "timers_wf (fst Tw) \<Longrightarrow> \<exists>r. do_timer_loop run tick diff Tw = Some r"
proof (induction "backlog tick (fst Tw)" arbitrary: Tw diff rule: less_induct)
  case less
  let ?d = "DIFF_TICK (td_tick (timer_at (fst Tw) (bheap_peek (tm_heap (fst Tw))))) tick"
  show ?case
  proof (cases "tm_heap (fst Tw) = [] \<or> ?d > 0")
    case True
    then show ?thesis by (subst do_timer_loop.simps) (auto simp: Let_def)
  next
    case False
    then have "td_tick (timer_at (fst Tw) (bheap_peek (tm_heap (fst Tw)))) \<le> tick" by (simp add: DIFF_TICK_def)
    then have "backlog tick (fst (run_timer run tick Tw)) < backlog tick (fst Tw)"
      using backlog_run_timer [OF less.prems _ ok prompt, of "snd Tw"] False by simp
    moreover have "timers_wf (fst (run_timer run tick Tw))"
      using timers_wf_run_timer [OF less.prems _ ok, of tick "snd Tw"] False by simp
    ultimately have "\<exists>r. do_timer_loop run tick ?d (run_timer run tick Tw) = Some r" by (rule less.hyps)
    with False show ?thesis by (subst do_timer_loop.simps) (simp add: Let_def)
  qed
qed

section \<open>What the server relies on\<close>

text \<open>A callback table that only counts its calls, for the concrete runs below.\<close>

definition counting_callbacks :: "nat callbacks" where
  "counting_callbacks f tid tick tag data Tw = (fst Tw, Suc (snd Tw))"

definition sample_timers :: timers where
  "sample_timers = snd (add_timer_interval 40 (Some ''b'') 0 0 30
     (snd (add_timer 55 (Some ''a'') 0 0 init_timers)))"

lemma counting_ok: "callbacks_ok counting_callbacks" "callbacks_prompt counting_callbacks tick"
  by (simp_all add: callbacks_ok_def callbacks_prompt_def counting_callbacks_def Let_def)

lemma sample_timers_wf: "timers_wf sample_timers"
  unfolding sample_timers_def
  by (intro timers_wf_add_timer_interval timers_wf_add_timer timers_wf_init)



text \<open>The operations other modules call on the manager between two passes.\<close>

datatype timer_op =
    Op_add t_tick "string option" int int
  | Op_add_interval t_tick "string option" int int int
  | Op_delete int "string option"
  | Op_settick nat t_tick
  | Op_addtick nat t_tick

fun timer_op_step :: "timer_op \<Rightarrow> timers \<Rightarrow> timers" where
  "timer_op_step (Op_add tick f i d) T = snd (add_timer tick f i d T)"
| "timer_op_step (Op_add_interval tick f i d v) T = snd (add_timer_interval tick f i d v T)"
| "timer_op_step (Op_delete tid f) T = snd (delete_timer tid f T)"
| "timer_op_step (Op_settick tid tick) T = snd (settick_timer tid tick T)"
| "timer_op_step (Op_addtick tid tick) T = snd (addtick_timer tid tick T)"

lemma timers_wf_op: "timers_wf T \<Longrightarrow> timers_wf (timer_op_step c T)"
  by (cases c) (simp_all add: timers_wf_add_timer timers_wf_add_timer_interval timers_wf_delete_timer
      timers_wf_settick_timer addtick_timer_def)

lemma timers_wf_ops: "timers_wf T \<Longrightarrow> timers_wf (fold timer_op_step cs T)"
  by (induction cs arbitrary: T) (simp_all add: timers_wf_op)

text \<open>C25: Whatever sequence of additions, deletions and tick changes follows the start of the
  server, the manager stays well formed: ids in the heap and in the free list are distinct slots in
  use, the heap is ordered by tick, and the id the next addition hands out is in neither.\<close>

theorem timers_reachable_wf:
  "timers_wf (fold timer_op_step cs init_timers) \<and>
   (let T = fold timer_op_step cs init_timers; tid = nat (fst (add_timer tick f i d T))
    in tid \<notin> set (tm_heap T) \<and> (tid < tm_num T \<longrightarrow> tid \<in> set (tm_free T)))"
proof -
  have wf: "timers_wf (fold timer_op_step cs init_timers)" by (simp add: timers_wf_ops timers_wf_init)
  moreover obtain tid T1 where acq: "acquire_timer (fold timer_op_step cs init_timers) = (tid, T1)"
    by (cases "acquire_timer (fold timer_op_step cs init_timers)")
  ultimately show ?thesis
    using acquire_timer_fresh [OF wf acq] acquire_timer_eq [OF wf]
    by (auto simp: add_timer_def split: if_splits)
qed

theorem timers_reachable_wf_witness:
  "timers_wf (fold timer_op_step [Op_add 5 None 0 0, Op_delete 0 None] init_timers) \<and>
   (let T = fold timer_op_step [Op_add 5 None 0 0, Op_delete 0 None] init_timers;
        tid = nat (fst (add_timer 9 None 0 0 T))
    in tid \<notin> set (tm_heap T) \<and> (tid < tm_num T \<longrightarrow> tid \<in> set (tm_free T)))"
  by (rule timers_reachable_wf)

text \<open>A running timer whose callback deletes it is lost: \<open>delete_timer\<close> clears the
  mark \<open>do_timer\<close> tests, so the slot ends up neither in the heap nor in the free list, and it
  keeps a type other than 0.\<close>

theorem self_deleting_timer_leaks:
  assumes wf: "timers_wf T" and ne: "tm_heap T \<noteq> []"
    and f: "td_func (timer_at T (bheap_peek (tm_heap T))) = Some f"
    and del: "\<And>tid tick i d U w. run f tid tick i d (U, w) = (snd (delete_timer (int tid) (Some f) U), w)"
  shows "let tid = bheap_peek (tm_heap T); T' = fst (run_timer run tick (T, w)) in
    tid \<notin> set (tm_heap T') \<and> tid \<notin> set (tm_free T') \<and> td_type (timer_at T' tid) \<noteq> 0"
proof -
  let ?tid = "bheap_peek (tm_heap T)"
  let ?T1 = "set_timer ?tid ((timer_at T ?tid)\<lparr>td_type := td_type (timer_at T ?tid) OR TIMER_REMOVE_HEAP\<rparr>)
           (T\<lparr>tm_heap := bheap_pop (difftick_mintopcmp (tm_data T)) (tm_heap T)\<rparr>)"
  from timers_wf_pop_mark [OF wf ne] have wf1: "timers_wf ?T1" and lt: "?tid < tm_num ?T1" by simp_all
  have len: "?tid < length (tm_data T)" using wf lt by (simp add: timers_wf_def)
  then have slot: "timer_at ?T1 ?tid = (timer_at T ?tid)\<lparr>td_type := td_type (timer_at T ?tid) OR TIMER_REMOVE_HEAP\<rparr>"
    by (simp add: timer_at_set_timer)
  then have out: "?tid \<notin> set (tm_heap ?T1)" "?tid \<notin> set (tm_free ?T1)"
    using marked_slot [OF wf1, of ?tid] by simp_all
  let ?T2 = "snd (delete_timer (int ?tid) (Some f) ?T1)"
  have T2: "?T2 = set_timer ?tid ((timer_at ?T1 ?tid)\<lparr>td_func := None, td_type := TIMER_ONCE_AUTODEL\<rparr>) ?T1"
    using lt slot f by (simp add: delete_timer_def)
  have ty: "td_type (timer_at ?T2 ?tid) = TIMER_ONCE_AUTODEL"
    using len by (simp add: T2 timer_at_set_timer)
  then have "finish_timer ?tid tick ?T2 = ?T2" by (simp add: finish_timer_def)
  then have "fst (run_timer run tick (T, w)) = ?T2"
    using f by (simp add: run_timer_def Let_def del)
  with out ty T2 show ?thesis by (simp add: Let_def)
qed

definition self_deleting_callbacks :: "nat callbacks" where
  "self_deleting_callbacks f tid tick i d Tw = (snd (delete_timer (int tid) (Some f) (fst Tw)), snd Tw)"

theorem self_deleting_timer_leaks_witness:
  "let T = snd (add_timer 5 (Some ''a'') 0 0 init_timers); tid = bheap_peek (tm_heap T);
       T' = fst (run_timer self_deleting_callbacks 7 (T, 0))
   in tid \<notin> set (tm_heap T') \<and> tid \<notin> set (tm_free T') \<and> td_type (timer_at T' tid) \<noteq> 0"
proof -
  let ?T = "snd (add_timer 5 (Some ''a'') 0 0 init_timers)"
  have "timers_wf ?T" by (intro timers_wf_add_timer timers_wf_init)
  moreover have "tm_heap ?T \<noteq> []" "td_func (timer_at ?T (bheap_peek (tm_heap ?T))) = Some ''a''"
    by code_simp+
  ultimately show ?thesis
    using self_deleting_timer_leaks [of ?T "''a''" self_deleting_callbacks 7 0]
    by (simp add: Let_def self_deleting_callbacks_def)
qed

end
