(* ===== verification/ArenaEnv.thy ===== *)
theory ArenaEnv
  imports ArenaTypes Timer
begin

text \<open>
  What surrounds the arena: the part of a player's session it reads and writes, the global
  variables of \<open>src/src/map/arena7x7.cpp\<close>, the database behind
  \<open>mmysql_handle\<close>, and an environment record for everything the arena asks of code that is
  not modelled (the clock, the visiting order of unordered containers, whether a statement succeeds,
  names of skills, items and guilds, and the effect of calls into other modules on a session).
\<close>

section \<open>Sessions and blocks\<close>

text \<open>
  The fields of \<open>map_session_data\<close> the arena uses. \<open>sd_name\<close> is the C string in
  \<open>status.name\<close>; \<open>sd_sc\<close> maps the name of an active status to its
  \<open>val2\<close>; a pointer to a session is the session, and writes go to the copy registered
  under its character id (\<open>world\<close> below).
\<close>

record map_session_data =
  sd_char_id :: uint32
  sd_account_id :: uint32
  sd_name :: string
  sd_class :: "16 word"
  sd_base_level :: uint32
  sd_guild_id :: int
  sd_id :: int
  sd_m :: int
  sd_hp :: int
  sd_battle_hp :: int
  sd_dead_sit :: nat
  sd_vd_dead_sit :: nat
  sd_sc :: "(string, int) umap"
  sd_respawn_tid :: int
  sd_bg_id :: int

text \<open>
  A \<open>block_list\<close>: a player, or another unit with the master its own data names (none when
  it has none or the master is gone). \<open>battle_get_master\<close> follows the links to the end;
  chains of masters do not loop.
\<close>

datatype block_list =
    Bl_pc map_session_data
  | Bl_other "block_list option"

fun battle_get_master :: "block_list \<Rightarrow> block_list" where
  "battle_get_master (Bl_pc sd) = Bl_pc sd"
| "battle_get_master (Bl_other None) = Bl_other None"
| "battle_get_master (Bl_other (Some m)) = battle_get_master m"

section \<open>Calls into other modules\<close>

datatype engine_call =
    Status_change_end uint32 string
  | Status_change_clear uint32 int
  | Status_change_start uint32 string int
  | Status_percent_heal uint32 int int
  | Unit_stop_walking uint32
  | Unit_stop_attack uint32
  | Unit_skillcastcancel uint32
  | Clif_clearunit_area uint32
  | Clif_spawn uint32
  | Clif_displaymessage uint32 string
  | Clif_bladestop uint32 uint32
  | Clif_bg_updatescore int
  | Pc_disguise uint32 int
  | Npc_event uint32 string

text \<open>The character a call is made for.\<close>

fun call_target :: "engine_call \<Rightarrow> uint32 option" where
  "call_target (Status_change_end c _) = Some c"
| "call_target (Status_change_clear c _) = Some c"
| "call_target (Status_change_start c _ _) = Some c"
| "call_target (Status_percent_heal c _ _) = Some c"
| "call_target (Unit_stop_walking c) = Some c"
| "call_target (Unit_stop_attack c) = Some c"
| "call_target (Unit_skillcastcancel c) = Some c"
| "call_target (Clif_clearunit_area c) = Some c"
| "call_target (Clif_spawn c) = Some c"
| "call_target (Clif_displaymessage c _) = Some c"
| "call_target (Clif_bladestop c _) = Some c"
| "call_target (Clif_bg_updatescore _) = None"
| "call_target (Pc_disguise c _) = Some c"
| "call_target (Npc_event c _) = Some c"

section \<open>The environment\<close>

text \<open>The loops over unordered containers, and the calls of \<open>gettick\<close>, each with its own entry.\<close>

datatype iter_site =
    It_save_players | It_save_skills uint32 | It_damage_by_skill | It_damage_by_target
  | It_support_by_target | It_attack_log | It_attack_sum | It_skill_summary | It_damage_summary
  | It_item_summary | It_ranking | It_assists | It_restore | It_cursed | It_final

datatype tick_site =
    Tk_add | Tk_start | Tk_finish_end | Tk_finish_now | Tk_cancel | Tk_record | Tk_item nat
  | Tk_death_scan | Tk_death_time | Tk_death_alive | Tk_log

record arena_env =
  env_tick :: "tick_site \<Rightarrow> t_tick"
  env_order :: "iter_site \<Rightarrow> nat \<Rightarrow> nat"
  env_sql_ok :: "nat \<Rightarrow> bool"
  env_escape :: "string \<Rightarrow> string"
  env_skill_name :: "uint16 \<Rightarrow> string"
  env_item_name :: "uint32 \<Rightarrow> string option"
  env_guild_name :: "int \<Rightarrow> string option"
  env_map_id :: "string \<Rightarrow> int"
  env_die_event :: "int \<Rightarrow> string option"
  env_garbage :: uint16
  env_engine :: "engine_call \<Rightarrow> map_session_data \<Rightarrow> map_session_data"

text \<open>A concrete environment for the examples: every statement succeeds and other modules change nothing.\<close>

definition sample_env :: arena_env where
  "sample_env = \<lparr>env_tick = (\<lambda>_. 1000), env_order = (\<lambda>_ _. 0), env_sql_ok = (\<lambda>_. True),
     env_escape = (\<lambda>s. s), env_skill_name = (\<lambda>_. ''Skill''), env_item_name = (\<lambda>_. None),
     env_guild_name = (\<lambda>_. None), env_map_id = (\<lambda>_. 0), env_die_event = (\<lambda>_. None), env_garbage = 0,
     env_engine = (\<lambda>_ sd. sd)\<rparr>"

definition sample_sd :: "uint32 \<Rightarrow> map_session_data" where
  "sample_sd c = \<lparr>sd_char_id = c, sd_account_id = c + 2000000, sd_name = ''Player'', sd_class = 7,
     sd_base_level = 99, sd_guild_id = 0, sd_id = 0, sd_m = 0, sd_hp = 100, sd_battle_hp = 100,
     sd_dead_sit = 0, sd_vd_dead_sit = 0, sd_sc = [], sd_respawn_tid = -1, sd_bg_id = 0\<rparr>"

section \<open>The database\<close>

text \<open>
  A statement of the arena is kept as data instead of text: the columns' values for the rows it
  writes. The two ranking tables are kept as tables, because later statements read and update them;
  the rows of all other tables are kept in the order they were written, with the table's name. A
  column is an unbounded number: the repository has no schema for these tables.
\<close>

datatype sql_value = V_u uint32 | V_d int | V_s string

type_synonym sql_row = "sql_value list"

record rank_row =
  rk_char_name :: string
  rk_account_id :: uint32
  rk_wins :: int
  rk_losses :: int
  rk_ties :: int
  rk_matches_played :: int
  rk_total_kills :: int
  rk_total_deaths :: int
  rk_total_assists :: int
  rk_total_damage_done :: int
  rk_total_damage_received :: int
  rk_total_healing_done :: int
  rk_total_skills_used :: int
  rk_total_items_used :: int
  rk_points :: int
  rk_season_points :: int
  rk_best_damage_match :: int
  rk_best_killstreak :: int
  rk_best_kills_match :: int

record class_row =
  ck_matches_played :: int
  ck_wins :: int
  ck_total_kills :: int
  ck_total_deaths :: int
  ck_total_damage :: int
  ck_total_healing :: int

record arena_tables =
  tb_rows :: "(string \<times> sql_row) list"
  tb_rank :: "(uint32, rank_row) umap"
  tb_class :: "(uint32 \<times> uint16, class_row) umap"
  tb_seasons :: "(nat \<times> bool) list"

text \<open>\<open>db_saved\<close> holds the tables as they were when the open transaction started.\<close>

record arena_db =
  db_now :: arena_tables
  db_saved :: "arena_tables option"
  db_issued :: nat

datatype sql_stmt =
    Sql_start_transaction
  | Sql_commit
  | Sql_rollback
  | Sql_insert string "sql_row list"
  | Sql_write "arena_tables \<Rightarrow> arena_tables"
  | Sql_read

definition sql_insert_rows :: "string \<Rightarrow> sql_row list \<Rightarrow> arena_tables \<Rightarrow> arena_tables" where
  "sql_insert_rows t rows T = T\<lparr>tb_rows := tb_rows T @ map (Pair t) rows\<rparr>"

fun sql_apply :: "sql_stmt \<Rightarrow> arena_db \<Rightarrow> arena_db" where
  "sql_apply Sql_start_transaction D = D\<lparr>db_saved := Some (db_now D)\<rparr>"
| "sql_apply Sql_commit D = D\<lparr>db_saved := None\<rparr>"
| "sql_apply Sql_rollback D =
     (case db_saved D of None \<Rightarrow> D | Some T \<Rightarrow> D\<lparr>db_now := T, db_saved := None\<rparr>)"
| "sql_apply (Sql_insert t rows) D = D\<lparr>db_now := sql_insert_rows t rows (db_now D)\<rparr>"
| "sql_apply (Sql_write f) D = D\<lparr>db_now := f (db_now D)\<rparr>"
| "sql_apply Sql_read D = D"

text \<open>
  \<open>Sql_Query\<close>: the statement is applied or, when the server refuses it, has no effect and
  the result is \<open>SQL_ERROR\<close>. \<open>env_sql_ok\<close> says which of the statements of an
  operation succeed.
\<close>

definition Sql_Query :: "arena_env \<Rightarrow> sql_stmt \<Rightarrow> arena_db \<Rightarrow> bool \<times> arena_db" where
  "Sql_Query E s D =
     (let ok = env_sql_ok E (db_issued D); D1 = (if ok then sql_apply s D else D)
      in (ok, D1\<lparr>db_issued := Suc (db_issued D1)\<rparr>))"

definition sql_do :: "arena_env \<Rightarrow> sql_stmt \<Rightarrow> arena_db \<Rightarrow> arena_db" where
  "sql_do E s D = snd (Sql_Query E s D)"

text \<open>The text of a row, \<open>(v1, v2, ...)\<close>, as \<open>snprintf\<close> writes it.\<close>

fun render_value :: "sql_value \<Rightarrow> string" where
  "render_value (V_u w) = render_u (unat w)"
| "render_value (V_d i) = render_d i"
| "render_value (V_s s) = CHR 0x27 # s @ [CHR 0x27]"

fun render_values :: "sql_row \<Rightarrow> string" where
  "render_values [] = ''''"
| "render_values (v # vs) = render_value v @ (if vs = [] then '''' else '', '' @ render_values vs)"

definition render_row :: "sql_row \<Rightarrow> string" where
  "render_row vs = ''('' @ render_values vs @ '')''"

section \<open>The world\<close>

record mapscore =
  bgscore_lion :: "16 word"
  bgscore_eagle :: "16 word"

record world =
  aw_matches :: "(uint32, s_arena7x7_match) umap"
  aw_player_match :: "(uint32, uint32) umap"
  aw_match_counter :: uint32
  aw_current_season :: uint16
  aw_db :: arena_db
  aw_mapdata :: "(int, mapscore) umap"
  aw_sessions :: "(uint32, map_session_data) umap"
  aw_timers :: timers
  aw_calls :: "engine_call list"

definition empty_db :: arena_db where
  "empty_db = \<lparr>db_now = \<lparr>tb_rows = [], tb_rank = [], tb_class = [], tb_seasons = []\<rparr>,
     db_saved = None, db_issued = 0\<rparr>"

text \<open>The globals as the program starts, before \<open>do_init_arena7x7\<close>.\<close>

definition start_world :: world where
  "start_world = \<lparr>aw_matches = [], aw_player_match = [], aw_match_counter = 0, aw_current_season = 1,
     aw_db = empty_db, aw_mapdata = [(0, \<lparr>bgscore_lion = 0, bgscore_eagle = 0\<rparr>)], aw_sessions = [],
     aw_timers = init_timers, aw_calls = []\<rparr>"

text \<open>Reading through a session pointer, and writing through it.\<close>

definition sd_now :: "world \<Rightarrow> map_session_data \<Rightarrow> map_session_data" where
  "sd_now w sd = (case um_find (aw_sessions w) (sd_char_id sd) of Some s \<Rightarrow> s | None \<Rightarrow> sd)"

definition upd_sd :: "uint32 \<Rightarrow> (map_session_data \<Rightarrow> map_session_data) \<Rightarrow> world \<Rightarrow> world" where
  "upd_sd c f w = w\<lparr>aw_sessions := um_modify c f (aw_sessions w)\<rparr>"

text \<open>A call into another module: it is recorded, and may change the session it is made for.\<close>

definition engine :: "arena_env \<Rightarrow> engine_call \<Rightarrow> world \<Rightarrow> world" where
  "engine E c w =
     (let w1 = w\<lparr>aw_calls := aw_calls w @ [c]\<rparr>
      in case call_target c of None \<Rightarrow> w1 | Some i \<Rightarrow> upd_sd i (env_engine E c) w1)"

text \<open>Changing a match through a pointer to it, and a player's statistics inside a match.\<close>

definition upd_match :: "uint32 \<Rightarrow> (s_arena7x7_match \<Rightarrow> s_arena7x7_match) \<Rightarrow> world \<Rightarrow> world" where
  "upd_match m f w = w\<lparr>aw_matches := um_modify m f (aw_matches w)\<rparr>"

definition upd_stats ::
    "uint32 \<Rightarrow> (s_arena7x7_player_stats \<Rightarrow> s_arena7x7_player_stats) \<Rightarrow> s_arena7x7_match \<Rightarrow> s_arena7x7_match" where
  "upd_stats c f M = M\<lparr>mt_players := um_modify c f (mt_players M)\<rparr>"

section \<open>What the helpers change\<close>

named_theorems frame_simps "the parts of the world an operation leaves alone"

lemma upd_sd_frame [frame_simps]:
  "aw_matches (upd_sd c f w) = aw_matches w" "aw_player_match (upd_sd c f w) = aw_player_match w"
  "aw_match_counter (upd_sd c f w) = aw_match_counter w" "aw_db (upd_sd c f w) = aw_db w"
  "aw_current_season (upd_sd c f w) = aw_current_season w"
  "aw_mapdata (upd_sd c f w) = aw_mapdata w" "aw_timers (upd_sd c f w) = aw_timers w"
  "aw_calls (upd_sd c f w) = aw_calls w"
  by (simp_all add: upd_sd_def)

lemma engine_frame [frame_simps]:
  "aw_matches (engine E c w) = aw_matches w" "aw_player_match (engine E c w) = aw_player_match w"
  "aw_match_counter (engine E c w) = aw_match_counter w" "aw_db (engine E c w) = aw_db w"
  "aw_current_season (engine E c w) = aw_current_season w"
  "aw_mapdata (engine E c w) = aw_mapdata w" "aw_timers (engine E c w) = aw_timers w"
  "aw_calls (engine E c w) = aw_calls w @ [c]"
  by (simp_all add: engine_def Let_def upd_sd_def split: option.splits)

lemma upd_match_frame [frame_simps]:
  "aw_player_match (upd_match m f w) = aw_player_match w" "aw_match_counter (upd_match m f w) = aw_match_counter w"
  "aw_db (upd_match m f w) = aw_db w" "aw_current_season (upd_match m f w) = aw_current_season w"
  "aw_mapdata (upd_match m f w) = aw_mapdata w" "aw_timers (upd_match m f w) = aw_timers w"
  "aw_calls (upd_match m f w) = aw_calls w" "aw_sessions (upd_match m f w) = aw_sessions w"
  by (simp_all add: upd_match_def)

lemma find_upd_match [umap_simps]:
  "um_find (aw_matches (upd_match m f w)) k =
     (if k = m then map_option f (um_find (aw_matches w) m) else um_find (aw_matches w) k)"
  by (simp add: upd_match_def umap_simps)

lemma find_upd_stats [umap_simps]:
  "um_find (mt_players (upd_stats c f M)) k =
     (if k = c then map_option f (um_find (mt_players M) c) else um_find (mt_players M) k)"
  by (simp add: upd_stats_def umap_simps)

lemma upd_stats_frame [frame_simps]:
  "mt_match_id (upd_stats c f M) = mt_match_id M" "mt_status (upd_stats c f M) = mt_status M"
  "mt_map_name (upd_stats c f M) = mt_map_name M"
  "mt_damage_log (upd_stats c f M) = mt_damage_log M" "mt_support_log (upd_stats c f M) = mt_support_log M"
  "mt_kill_log (upd_stats c f M) = mt_kill_log M" "mt_damage_by_skill (upd_stats c f M) = mt_damage_by_skill M"
  "mt_damage_by_target (upd_stats c f M) = mt_damage_by_target M"
  "mt_support_by_target (upd_stats c f M) = mt_support_by_target M"
  "mt_item_log (upd_stats c f M) = mt_item_log M" "mt_item_usage_log (upd_stats c f M) = mt_item_usage_log M"
  "mt_skill_log (upd_stats c f M) = mt_skill_log M" "mt_attack_log (upd_stats c f M) = mt_attack_log M"
  "mt_blue_alive (upd_stats c f M) = mt_blue_alive M" "mt_red_alive (upd_stats c f M) = mt_red_alive M"
  by (simp_all add: upd_stats_def)

lemma wf_upd_stats [wf_intros]: "um_wf (mt_players M) \<Longrightarrow> um_wf (mt_players (upd_stats c f M))"
  by (simp add: upd_stats_def wf_intros)

lemma sql_do_issued [simp]: "db_issued (sql_do E s D) = Suc (db_issued D)"
  by (cases s) (auto simp: sql_do_def Sql_Query_def Let_def split: option.splits)

end
