(* ===== verification/ArenaRanking.thy ===== *)
theory ArenaRanking
  imports ArenaEnv
begin

text \<open>
  The accumulated ranking and the values read from the database at start-up
  (\<open>src/src/map/arena7x7.cpp\<close>: \<open>arena7x7_update_ranking\<close>,
  \<open>arena7x7_load_next_match_id\<close>, \<open>arena7x7_get_current_season\<close>).
\<close>

section \<open>The ranking statements\<close>

abbreviation of_flag :: "bool \<Rightarrow> int" where
  "of_flag b \<equiv> (if b then 1 else 0)"

abbreviation u_int :: "'a::len word \<Rightarrow> int" where
  "u_int w \<equiv> uint w"

text \<open>The \<open>SET\<close> list of the \<open>UPDATE\<close>, and the row of the \<open>INSERT\<close>.\<close>

definition rank_set ::
    "s_arena7x7_player_stats \<Rightarrow> bool \<Rightarrow> bool \<Rightarrow> bool \<Rightarrow> bool \<Rightarrow> int \<Rightarrow> rank_row \<Rightarrow> rank_row" where
  "rank_set s won lost tie count_match points r = r\<lparr>
     rk_wins := rk_wins r + of_flag won,
     rk_losses := rk_losses r + of_flag lost,
     rk_ties := rk_ties r + of_flag tie,
     rk_matches_played := rk_matches_played r + of_flag count_match,
     rk_total_kills := rk_total_kills r + u_int (ps_kills s),
     rk_total_deaths := rk_total_deaths r + u_int (ps_deaths s),
     rk_total_assists := rk_total_assists r + u_int (ps_assists s),
     rk_total_damage_done := rk_total_damage_done r + u_int (ps_damage_done s),
     rk_total_damage_received := rk_total_damage_received r + u_int (ps_damage_received s),
     rk_total_healing_done := rk_total_healing_done r + u_int (ps_healing_done s),
     rk_total_skills_used := rk_total_skills_used r + u_int (ps_total_skills_used s),
     rk_total_items_used := rk_total_items_used r + u_int (ps_total_items_used s),
     rk_points := max 0 (rk_points r + points),
     rk_season_points := max 0 (rk_season_points r + points),
     rk_best_damage_match := max (rk_best_damage_match r) (u_int (ps_damage_done s)),
     rk_best_killstreak := max (rk_best_killstreak r) (u_int (ps_best_streak s)),
     rk_best_kills_match := max (rk_best_kills_match r) (u_int (ps_kills s))\<rparr>"

definition rank_new ::
    "arena_env \<Rightarrow> s_arena7x7_player_stats \<Rightarrow> bool \<Rightarrow> bool \<Rightarrow> bool \<Rightarrow> bool \<Rightarrow> int \<Rightarrow> rank_row" where
  "rank_new E s won lost tie count_match points = \<lparr>
     rk_char_name = env_escape E (ps_char_name s), rk_account_id = ps_account_id s,
     rk_wins = of_flag won, rk_losses = of_flag lost, rk_ties = of_flag tie,
     rk_matches_played = of_flag count_match,
     rk_total_kills = u_int (ps_kills s), rk_total_deaths = u_int (ps_deaths s),
     rk_total_assists = u_int (ps_assists s), rk_total_damage_done = u_int (ps_damage_done s),
     rk_total_damage_received = u_int (ps_damage_received s),
     rk_total_healing_done = u_int (ps_healing_done s),
     rk_total_skills_used = u_int (ps_total_skills_used s),
     rk_total_items_used = u_int (ps_total_items_used s),
     rk_points = (if points > 0 then points else 0),
     rk_season_points = (if points > 0 then points else 0),
     rk_best_damage_match = u_int (ps_damage_done s),
     rk_best_killstreak = u_int (ps_best_streak s), rk_best_kills_match = u_int (ps_kills s)\<rparr>"

definition class_set :: "s_arena7x7_player_stats \<Rightarrow> bool \<Rightarrow> bool \<Rightarrow> class_row \<Rightarrow> class_row" where
  "class_set s won count_match r = r\<lparr>
     ck_matches_played := ck_matches_played r + of_flag count_match,
     ck_wins := ck_wins r + of_flag won,
     ck_total_kills := ck_total_kills r + u_int (ps_kills s),
     ck_total_deaths := ck_total_deaths r + u_int (ps_deaths s),
     ck_total_damage := ck_total_damage r + u_int (ps_damage_done s),
     ck_total_healing := ck_total_healing r + u_int (ps_healing_done s)\<rparr>"

definition class_new :: "s_arena7x7_player_stats \<Rightarrow> bool \<Rightarrow> bool \<Rightarrow> class_row" where
  "class_new s won count_match = \<lparr>
     ck_matches_played = of_flag count_match, ck_wins = of_flag won,
     ck_total_kills = u_int (ps_kills s), ck_total_deaths = u_int (ps_deaths s),
     ck_total_damage = u_int (ps_damage_done s), ck_total_healing = u_int (ps_healing_done s)\<rparr>"

definition ranking_points :: "s_arena7x7_player_stats \<Rightarrow> bool \<Rightarrow> bool \<Rightarrow> int" where
  "ranking_points s won lost =
     (if ps_is_deserter s then -3 else if won then 3 else if lost then 0 else 1)"

text \<open>The statistics a deserter's entry is left with: the function counts a death of its own.\<close>

definition count_desertion :: "s_arena7x7_player_stats \<Rightarrow> s_arena7x7_player_stats" where
  "count_desertion s = (if ps_is_deserter s then s\<lparr>ps_deaths := ps_deaths s + 1\<rparr> else s)"

text \<open>The statement issued for a row, by what the \<open>SELECT\<close> found.\<close>

definition update_or_insert :: "bool \<Rightarrow> 'k \<Rightarrow> ('v \<Rightarrow> 'v) \<Rightarrow> 'v \<Rightarrow> ('k, 'v) umap \<Rightarrow> ('k, 'v) umap" where
  "update_or_insert found k f v m = (if found then um_modify k f m else um_put k v m)"

text \<open>
  \<open>arena7x7_update_ranking\<close>: a \<open>SELECT\<close> decides between \<open>UPDATE\<close> and
  \<open>INSERT\<close>, once for the overall ranking and once for the ranking by class. A failure before
  the second part is reported; one inside it is not. The result is the reported success, the
  statistics (passed by pointer) and the database.
\<close>

definition arena7x7_update_ranking ::
    "arena_env \<Rightarrow> uint32 \<Rightarrow> s_arena7x7_player_stats \<Rightarrow> bool \<Rightarrow> bool \<Rightarrow> bool \<Rightarrow> bool \<Rightarrow> arena_db \<Rightarrow>
     bool \<times> s_arena7x7_player_stats \<times> arena_db" where
  "arena7x7_update_ranking E char_id stats won lost tie count_match D =
     (let points = ranking_points stats won lost;
          s = count_desertion stats;
          (ok1, D1) = Sql_Query E Sql_read D
      in if \<not> ok1 then (False, s, D1) else
      let (ok2, D2) = Sql_Query E (Sql_write (\<lambda>T. T\<lparr>tb_rank :=
            update_or_insert (um_find (tb_rank (db_now D1)) char_id \<noteq> None) char_id
              (rank_set s won lost tie count_match points)
              (rank_new E s won lost tie count_match points) (tb_rank T)\<rparr>)) D1
      in if \<not> ok2 then (False, s, D2) else
      let (ok3, D3) = Sql_Query E Sql_read D2
      in if \<not> ok3 then (True, s, D3) else
      let key = (char_id, ps_job_class s);
          (ok4, D4) = Sql_Query E (Sql_write (\<lambda>T. T\<lparr>tb_class :=
            update_or_insert (um_find (tb_class (db_now D3)) key \<noteq> None) key
              (class_set s won count_match) (class_new s won count_match) (tb_class T)\<rparr>)) D3
      in (True, s, D4))"

section \<open>Values read at start-up\<close>

text \<open>
  \<open>SELECT COALESCE(MAX(match_id), 0) + 1 FROM arena7x7_matches\<close>: the match id is the first
  column of that table's rows. The number comes back as text.
\<close>

fun row_match_id :: "string \<times> sql_row \<Rightarrow> nat list" where
  "row_match_id (t, V_u w # vs) = (if t = ''arena7x7_matches'' then [unat w] else [])"
| "row_match_id (t, vs) = []"

definition saved_match_ids :: "arena_tables \<Rightarrow> nat list" where
  "saved_match_ids T = concat (map row_match_id (tb_rows T))"

definition max_match_id :: "arena_tables \<Rightarrow> nat" where
  "max_match_id T = foldr max (saved_match_ids T) 0"

definition arena7x7_load_next_match_id :: "arena_env \<Rightarrow> arena_db \<Rightarrow> uint32 \<times> arena_db" where
  "arena7x7_load_next_match_id E D =
     (let (ok, D1) = Sql_Query E Sql_read D
      in if \<not> ok then (1, D1)
         else (word_of_nat (strtoul (render_u (max_match_id (db_now D1) + 1))), D1))"

text \<open>
  \<open>SELECT season_id ... WHERE is_active = 1 ORDER BY season_id DESC LIMIT 1\<close>: the largest
  active season, no row when none is active.
\<close>

definition active_season :: "arena_tables \<Rightarrow> nat option" where
  "active_season T =
     (case map fst (filter snd (tb_seasons T)) of [] \<Rightarrow> None | s # ss \<Rightarrow> Some (foldr max ss s))"

definition arena7x7_get_current_season :: "arena_env \<Rightarrow> arena_db \<Rightarrow> uint16 \<times> arena_db" where
  "arena7x7_get_current_season E D =
     (let (ok, D1) = Sql_Query E Sql_read D
      in if \<not> ok then (1, D1)
         else case active_season (db_now D1) of
             None \<Rightarrow> (1, D1)
           | Some n \<Rightarrow> (let season = word_of_nat (strtoul (render_u n)) :: uint16
                       in (if season > 0 then season else 1, D1)))"

definition do_init_arena7x7 :: "arena_env \<Rightarrow> world \<Rightarrow> world" where
  "do_init_arena7x7 E w =
     (let (next, D1) = arena7x7_load_next_match_id E (aw_db w);
          (season, D2) = arena7x7_get_current_season E D1
      in w\<lparr>aw_match_counter := next - 1, aw_current_season := season, aw_db := D2\<rparr>)"

section \<open>An insert is an update of an empty row\<close>

definition empty_rank :: "string \<Rightarrow> uint32 \<Rightarrow> rank_row" where
  "empty_rank name acc = \<lparr>rk_char_name = name, rk_account_id = acc, rk_wins = 0, rk_losses = 0,
     rk_ties = 0, rk_matches_played = 0, rk_total_kills = 0, rk_total_deaths = 0,
     rk_total_assists = 0, rk_total_damage_done = 0, rk_total_damage_received = 0,
     rk_total_healing_done = 0, rk_total_skills_used = 0, rk_total_items_used = 0, rk_points = 0,
     rk_season_points = 0, rk_best_damage_match = 0, rk_best_killstreak = 0, rk_best_kills_match = 0\<rparr>"

definition empty_class :: class_row where
  "empty_class = \<lparr>ck_matches_played = 0, ck_wins = 0, ck_total_kills = 0, ck_total_deaths = 0,
     ck_total_damage = 0, ck_total_healing = 0\<rparr>"

lemma rank_new_eq_set:
  "rank_new E s won lost tie cm points =
   rank_set s won lost tie cm points (empty_rank (env_escape E (ps_char_name s)) (ps_account_id s))"
  by (simp add: rank_new_def rank_set_def empty_rank_def max_def)

lemma class_new_eq_set: "class_new s won cm = class_set s won cm empty_class"
  by (simp add: class_new_def class_set_def empty_class_def)

text \<open>The row a character has, or the empty one.\<close>

definition rank_or_empty :: "arena_env \<Rightarrow> s_arena7x7_player_stats \<Rightarrow> rank_row option \<Rightarrow> rank_row" where
  "rank_or_empty E s old = (case old of Some r \<Rightarrow> r
     | None \<Rightarrow> empty_rank (env_escape E (ps_char_name s)) (ps_account_id s))"

definition class_or_empty :: "class_row option \<Rightarrow> class_row" where
  "class_or_empty old = (case old of Some r \<Rightarrow> r | None \<Rightarrow> empty_class)"

lemma upsert_find:
  "um_find (update_or_insert (um_find m c \<noteq> None) c f v m) k =
   (if k = c then Some (case um_find m c of None \<Rightarrow> v | Some x \<Rightarrow> f x) else um_find m k)"
  by (auto simp: umap_simps update_or_insert_def)

lemma rank_set_or_empty:
  "(case old of None \<Rightarrow> rank_new E s won lost tie cm points
     | Some r \<Rightarrow> rank_set s won lost tie cm points r) =
   rank_set s won lost tie cm points (rank_or_empty E s old)"
  "(case oldc of None \<Rightarrow> class_new s won cm | Some r \<Rightarrow> class_set s won cm r) =
   class_set s won cm (class_or_empty oldc)"
  by (simp_all add: rank_or_empty_def rank_new_eq_set class_or_empty_def class_new_eq_set split: option.splits)

lemma count_desertion_frame [frame_simps]:
  "ps_job_class (count_desertion s) = ps_job_class s" "ps_is_deserter (count_desertion s) = ps_is_deserter s"
  "ps_char_name (count_desertion s) = ps_char_name s" "ps_account_id (count_desertion s) = ps_account_id s"
  by (simp_all add: count_desertion_def)

text \<open>With every statement accepted, the update is an upsert of the two rows of the character.\<close>

definition all_ok :: "arena_env \<Rightarrow> bool" where
  "all_ok E \<longleftrightarrow> (\<forall>n. env_sql_ok E n)"

lemma update_ranking_ok:
  assumes ok: "all_ok E"
  shows "\<exists>D'. arena7x7_update_ranking E c s won lost tie cm D = (True, count_desertion s, D') \<and>
    db_saved D' = db_saved D \<and> db_issued D' = db_issued D + 4 \<and>
    tb_rows (db_now D') = tb_rows (db_now D) \<and> tb_seasons (db_now D') = tb_seasons (db_now D) \<and>
    (\<forall>k. um_find (tb_rank (db_now D')) k =
       (if k = c then Some (rank_set (count_desertion s) won lost tie cm (ranking_points s won lost)
                             (rank_or_empty E s (um_find (tb_rank (db_now D)) c)))
        else um_find (tb_rank (db_now D)) k)) \<and>
    (\<forall>k. um_find (tb_class (db_now D')) k =
       (if k = (c, ps_job_class s)
        then Some (class_set (count_desertion s) won cm
                    (class_or_empty (um_find (tb_class (db_now D)) (c, ps_job_class s))))
        else um_find (tb_class (db_now D)) k))"
proof -
  have "rank_or_empty E (count_desertion s) old = rank_or_empty E s old" for old
    by (cases old) (simp_all add: rank_or_empty_def frame_simps)
  with ok show ?thesis
    by (simp add: arena7x7_update_ranking_def Sql_Query_def all_ok_def Let_def upsert_find
        rank_set_or_empty frame_simps del: not_None_eq split del: if_split cong: if_cong option.case_cong)
qed

text \<open>With every statement accepted, \<open>arena7x7_update_ranking\<close> reports success and
  leaves in both ranking tables exactly one changed row, the character's own: the row it had (or an
  empty one) with the match added, the points moved by 3, 1, 0 or -3 and kept at least 0, the best
  values raised to this match's, and the death a desertion counts included. All other rows are as
  before.\<close>

theorem update_ranking_upserts:
  assumes ok: "all_ok E"
  shows "\<exists>D'. arena7x7_update_ranking E c s won lost tie cm D = (True, count_desertion s, D') \<and>
    (\<forall>k. um_find (tb_rank (db_now D')) k =
       (if k = c then Some (rank_set (count_desertion s) won lost tie cm
                             (if ps_is_deserter s then -3 else if won then 3 else if lost then 0 else 1)
                             (rank_or_empty E s (um_find (tb_rank (db_now D)) c)))
        else um_find (tb_rank (db_now D)) k)) \<and>
    (\<forall>k. um_find (tb_class (db_now D')) k =
       (if k = (c, ps_job_class s)
        then Some (class_set (count_desertion s) won cm
                    (class_or_empty (um_find (tb_class (db_now D)) (c, ps_job_class s))))
        else um_find (tb_class (db_now D)) k))"
  using update_ranking_ok [OF ok, of c s won lost tie cm D] unfolding ranking_points_def by blast

lemma all_ok_sample: "all_ok sample_env"
  by (simp add: all_ok_def sample_env_def)

theorem update_ranking_upserts_witness:
  "\<exists>D'. arena7x7_update_ranking sample_env 7 new_player_stats True False False True empty_db =
      (True, count_desertion new_player_stats, D') \<and>
    (\<forall>k. um_find (tb_rank (db_now D')) k =
       (if k = 7 then Some (rank_set (count_desertion new_player_stats) True False False True
                             (if ps_is_deserter new_player_stats then -3 else if True then 3 else if False then 0 else 1)
                             (rank_or_empty sample_env new_player_stats (um_find (tb_rank (db_now empty_db)) 7)))
        else um_find (tb_rank (db_now empty_db)) k)) \<and>
    (\<forall>k. um_find (tb_class (db_now D')) k =
       (if k = (7, ps_job_class new_player_stats)
        then Some (class_set (count_desertion new_player_stats) True True
                    (class_or_empty (um_find (tb_class (db_now empty_db)) (7, ps_job_class new_player_stats))))
        else um_find (tb_class (db_now empty_db)) k))"
  by (rule update_ranking_upserts [OF all_ok_sample])

section \<open>Points are never negative\<close>

definition rank_nonneg :: "arena_tables \<Rightarrow> bool" where
  "rank_nonneg T \<longleftrightarrow> (\<forall>(c, r) \<in> set (tb_rank T). 0 \<le> rk_points r \<and> 0 \<le> rk_season_points r)"

definition db_nonneg :: "arena_db \<Rightarrow> bool" where
  "db_nonneg D \<longleftrightarrow> rank_nonneg (db_now D) \<and> (\<forall>T. db_saved D = Some T \<longrightarrow> rank_nonneg T)"

lemma set_update_subset: "set (AList.update k v m) \<subseteq> insert (k, v) (set m)"
  by (induction m) auto

lemma um_put_all: "\<forall>(c, r) \<in> set m. P r \<Longrightarrow> P v \<Longrightarrow> \<forall>(c, r) \<in> set (um_put k v m). P r"
  unfolding um_put_def using set_update_subset [of k v m] by fastforce

lemma um_modify_all: "\<forall>(c, r) \<in> set m. P r \<Longrightarrow> (\<And>r. P (f r)) \<Longrightarrow> \<forall>(c, r) \<in> set (um_modify k f m). P r"
proof (cases "um_find m k")
  case (Some v)
  assume "\<forall>(c, r) \<in> set m. P r" "\<And>r. P (f r)"
  then have "\<forall>(c, r) \<in> set (um_put k (f v) m). P r" by (rule um_put_all)
  with Some show ?thesis by (simp add: um_modify_def)
qed (simp add: um_modify_def)

lemma rank_nonneg_upsert:
  assumes "rank_nonneg T"
  shows "rank_nonneg (T\<lparr>tb_rank := update_or_insert b c (rank_set s won lost tie cm p)
     (rank_new E s won lost tie cm p) (tb_rank T)\<rparr>)"
proof -
  let ?P = "\<lambda>r. 0 \<le> rk_points r \<and> 0 \<le> rk_season_points r"
  have old: "\<forall>(c, r) \<in> set (tb_rank T). ?P r" using assms by (simp add: rank_nonneg_def)
  have new: "?P (rank_new E s won lost tie cm p)" and upd: "\<And>r. ?P (rank_set s won lost tie cm p r)"
    by (simp_all add: rank_new_def rank_set_def)
  have "\<forall>(c, r) \<in> set (update_or_insert b c (rank_set s won lost tie cm p)
      (rank_new E s won lost tie cm p) (tb_rank T)). ?P r"
    unfolding update_or_insert_def using um_put_all [OF old new] um_modify_all [OF old upd] by (cases b) simp_all
  then show ?thesis by (simp add: rank_nonneg_def)
qed

lemma rank_nonneg_class: "rank_nonneg T \<Longrightarrow> rank_nonneg (T\<lparr>tb_class := x\<rparr>)"
  by (simp add: rank_nonneg_def)

lemma db_nonneg_query:
  "db_nonneg D \<Longrightarrow> (\<And>f. s = Sql_write f \<Longrightarrow> rank_nonneg (db_now D) \<Longrightarrow> rank_nonneg (f (db_now D))) \<Longrightarrow>
   db_nonneg (snd (Sql_Query E s D))"
  by (cases s)
    (auto simp: db_nonneg_def Sql_Query_def Let_def rank_nonneg_def sql_insert_rows_def split: option.splits)

text \<open>Ranking points and season points never become negative, whichever statements the
  database refuses.\<close>

theorem ranking_points_nonneg:
  assumes "db_nonneg D"
  shows "db_nonneg (snd (snd (arena7x7_update_ranking E c s won lost tie cm D)))"
proof -
  note q = db_nonneg_query [where E = E]
  show ?thesis
    unfolding arena7x7_update_ranking_def Let_def
    by (auto split: prod.split dest!: sym [of "Sql_Query _ _ _"] arg_cong [of _ _ snd]
        intro!: q rank_nonneg_upsert rank_nonneg_class assms)
qed

theorem ranking_points_nonneg_witness:
  "db_nonneg (snd (snd (arena7x7_update_ranking sample_env 7 (new_player_stats\<lparr>ps_is_deserter := True\<rparr>)
     False True False True empty_db)))"
  by (rule ranking_points_nonneg) (simp add: db_nonneg_def rank_nonneg_def empty_db_def)

section \<open>The first match id after a restart\<close>

lemma foldr_max_upper: "n \<in> set ns \<Longrightarrow> n \<le> foldr max ns (b :: nat)"
  by (induction ns) auto

lemma max_match_id_upper: "n \<in> set (saved_match_ids T) \<Longrightarrow> n \<le> max_match_id T"
  by (simp add: max_match_id_def foldr_max_upper)

lemma foldr_max_bound: "(\<forall>n \<in> set ns. n < k) \<Longrightarrow> b < k \<Longrightarrow> foldr max ns (b :: nat) < k"
  by (induction ns) auto

lemma row_match_id_bound: "n \<in> set (row_match_id x) \<Longrightarrow> n < 2 ^ 32"
proof (cases x rule: row_match_id.cases)
  case (1 t w vs)
  with unsigned_less [where 'a = nat, of w] show "n \<in> set (row_match_id x) \<Longrightarrow> ?thesis" by auto
qed auto

lemma max_match_id_bound: "max_match_id T < 2 ^ 32"
  unfolding max_match_id_def
  by (rule foldr_max_bound) (auto simp: saved_match_ids_def dest: row_match_id_bound)

lemma do_init_counter:
  assumes "env_sql_ok E (db_issued (aw_db w))"
  shows "unat (aw_match_counter (do_init_arena7x7 E w)) = max_match_id (db_now (aw_db w))"
proof -
  let ?n = "max_match_id (db_now (aw_db w))"
  have "word_of_nat (Suc ?n) - 1 = (word_of_nat ?n :: uint32)" by simp
  moreover have "unat (word_of_nat ?n :: uint32) = ?n"
    using max_match_id_bound [of "db_now (aw_db w)"] by (simp add: unsigned_of_nat take_bit_nat_eq_self)
  ultimately show ?thesis
    using assms
    by (simp add: do_init_arena7x7_def arena7x7_load_next_match_id_def Sql_Query_def Let_def
        strtoul_render_u split: prod.split)
qed

end
