(* ===== verification/ArenaSave.thy ===== *)
theory ArenaSave
  imports ArenaRanking
begin

text \<open>
  Writing a match to the database (\<open>arena7x7_save_match\<close> of
  \<open>src/src/map/arena7x7.cpp\<close>): one transaction with the match, its players, and the logs in
  batches of 100 rows. Rows are lists of column values in the order of the column list. A statement
  with \<open>ON DUPLICATE KEY UPDATE\<close> is kept under its table's name with \<open>+\<close>
  appended.
\<close>

section \<open>Rows\<close>

definition V_flag :: "bool \<Rightarrow> sql_value" where
  "V_flag b = V_d (if b then 1 else 0)"

definition V_u16 :: "uint16 \<Rightarrow> sql_value" where
  "V_u16 x = V_u (ucast x)"

definition V_u8 :: "uint8 \<Rightarrow> sql_value" where
  "V_u8 x = V_u (ucast x)"

definition match_duration :: "s_arena7x7_match \<Rightarrow> uint32" where
  "match_duration M =
     (if mt_end_time M > mt_start_time M
      then word_of_int (DIFF_TICK (mt_end_time M) (mt_start_time M)) div 1000 else 0)"

definition match_row :: "arena_env \<Rightarrow> s_arena7x7_match \<Rightarrow> sql_row" where
  "match_row E M =
     [V_u (mt_match_id M), V_u16 (mt_season M),
      V_u (mt_blue_guild_id M), V_s (env_escape E (mt_blue_guild_name M)),
      V_u (mt_red_guild_id M), V_s (env_escape E (mt_red_guild_name M)),
      V_s (mt_map_name M), V_u (match_duration M), V_u (match_duration M),
      V_u8 (team_value (mt_winner_team M)), V_u16 (mt_blue_score M), V_u16 (mt_red_score M),
      V_u8 (status_value (mt_status M))]"

definition player_row :: "arena_env \<Rightarrow> s_arena7x7_match \<Rightarrow> s_arena7x7_player_stats \<Rightarrow> sql_row" where
  "player_row E M s =
     [V_u (mt_match_id M), V_u (ps_char_id s), V_u (ps_account_id s),
      V_s (env_escape E (ps_char_name s)), V_u8 (team_value (ps_team s)), V_u16 (ps_job_class s),
      V_u16 (ps_base_level s), V_u (ps_guild_id s), V_s (env_escape E (ps_guild_name s)),
      V_flag (ps_is_leader s), V_flag (ps_is_deserter s), V_flag (ps_team s = mt_winner_team M)]"

definition stats_row :: "s_arena7x7_match \<Rightarrow> s_arena7x7_player_stats \<Rightarrow> sql_row" where
  "stats_row M s =
     [V_u (mt_match_id M), V_u (ps_char_id s), V_u16 (ps_kills s), V_u16 (ps_deaths s),
      V_u16 (ps_assists s), V_u (ps_damage_done s), V_u (ps_damage_received s),
      V_u (ps_healing_done s), V_u (ps_healing_received s), V_u (ps_total_skills_used s),
      V_u (ps_total_items_used s), V_u (ps_top_damage s), V_u16 (ps_best_streak s),
      V_u16 (ps_support_skills_used s), V_u16 (ps_hp_potions s), V_u16 (ps_sp_potions s),
      V_u16 (ps_yellow_gems s), V_u16 (ps_red_gems s), V_u16 (ps_blue_gems s),
      V_u16 (ps_poison_bottles s), V_u (ps_sp_consumed s), V_u (ps_zeny_consumed s),
      V_u (ps_time_alive s)]"

text \<open>The character's name of this row is the only one in the function that is not escaped.\<close>

definition skill_use_row ::
    "arena_env \<Rightarrow> s_arena7x7_match \<Rightarrow> s_arena7x7_player_stats \<Rightarrow> uint16 \<times> uint32 \<times> string \<Rightarrow> sql_row" where
  "skill_use_row E M s kv =
     (case kv of (skill_id, use_count, skill_name) \<Rightarrow>
        [V_u (mt_match_id M), V_u (ps_char_id s), V_s (ps_char_name s), V_u16 skill_id,
         V_s (env_escape E skill_name), V_u use_count])"

definition damage_row :: "s_arena7x7_match \<Rightarrow> s_arena7x7_damage_entry \<Rightarrow> sql_row" where
  "damage_row M e =
     [V_u (mt_match_id M), V_u (de_attacker_id e), V_u (de_target_id e), V_u16 (de_skill_id e),
      V_u (de_damage e), V_flag (de_is_critical e), V_flag (de_is_kill e)]"

definition by_skill_row :: "arena_env \<Rightarrow> s_arena7x7_match \<Rightarrow> s_arena7x7_damage_by_skill \<Rightarrow> sql_row" where
  "by_skill_row E M d =
     [V_u (mt_match_id M), V_u (ds_char_id d), V_u16 (ds_skill_id d),
      V_s (env_escape E (ds_skill_name d)), V_u (ds_total_damage d), V_u16 (ds_hit_count d),
      V_u16 (ds_critical_count d), V_u16 (ds_kill_count d), V_u (ds_max_damage d)]"

definition by_target_row :: "s_arena7x7_match \<Rightarrow> s_arena7x7_damage_by_target \<Rightarrow> sql_row" where
  "by_target_row M d =
     [V_u (mt_match_id M), V_u (dt_attacker_id d), V_u (dt_target_id d), V_u (dt_total_damage d),
      V_u16 (dt_hit_count d), V_u16 (dt_kill_count d)]"

definition support_row :: "s_arena7x7_match \<Rightarrow> s_arena7x7_support_entry \<Rightarrow> sql_row" where
  "support_row M e =
     [V_u (mt_match_id M), V_u (se_caster_id e), V_u (se_target_id e), V_u16 (se_skill_id e),
      V_u8 (support_value (se_type e)), V_u (se_value e)]"

definition support_target_row :: "s_arena7x7_match \<Rightarrow> s_arena7x7_support_by_target \<Rightarrow> sql_row" where
  "support_target_row M d =
     [V_u (mt_match_id M), V_u (st_caster_id d), V_u (st_target_id d), V_u (st_total_healing d),
      V_u16 (st_buff_count d), V_u16 (st_skill_count d)]"

definition item_row :: "arena_env \<Rightarrow> s_arena7x7_match \<Rightarrow> s_arena7x7_item_entry \<Rightarrow> sql_row" where
  "item_row E M e =
     [V_u (mt_match_id M), V_u (ie_char_id e), V_u (ie_target_id e), V_u (ie_item_id e),
      V_s (env_escape E (ie_item_name e)), V_u8 (item_type_value (ie_type e)), V_u (ie_value e)]"

text \<open>An uninitialised \<open>killer_streak\<close> is written as whatever the memory held.\<close>

definition kill_row :: "arena_env \<Rightarrow> s_arena7x7_match \<Rightarrow> s_arena7x7_kill_entry \<Rightarrow> sql_row" where
  "kill_row E M e =
     [V_u (mt_match_id M), V_u (ke_killer_id e), V_u (ke_victim_id e), V_u16 (ke_skill_id e),
      V_u (ke_kill_damage e), V_u (ke_assist1_id e), V_u (ke_assist2_id e), V_u (ke_assist3_id e),
      V_u16 (case ke_killer_streak e of Some n \<Rightarrow> n | None \<Rightarrow> env_garbage E)]"

section \<open>The loops that write\<close>

text \<open>
  The damage log: at most \<open>MAX_DAMAGE_LOGS\<close> entries, one statement per
  \<open>BATCH_SIZE\<close> rows and one when the last entry is reached. \<open>n_all\<close> is the size
  of the log, \<open>batch\<close> the rows gathered so far.
\<close>

definition MAX_DAMAGE_LOGS :: nat where "MAX_DAMAGE_LOGS = 10000"
definition BATCH_SIZE :: nat where "BATCH_SIZE = 100"

fun damage_loop ::
    "arena_env \<Rightarrow> string \<Rightarrow> nat \<Rightarrow> nat \<Rightarrow> nat \<Rightarrow> sql_row list \<Rightarrow> sql_row list \<Rightarrow> arena_db \<Rightarrow> arena_db" where
  "damage_loop E t n_all written batch_count batch [] D = D"
| "damage_loop E t n_all written batch_count batch (r # rs) D =
     (if written \<ge> MAX_DAMAGE_LOGS then D
      else let written = written + 1;
               batch = (if batch_count = 0 then [r] else batch @ [r]);
               batch_count = batch_count + 1
           in if batch_count \<ge> BATCH_SIZE \<or> written \<ge> MAX_DAMAGE_LOGS \<or> written \<ge> n_all
              then damage_loop E t n_all written 0 [] rs (sql_do E (Sql_insert t batch) D)
              else damage_loop E t n_all written batch_count batch rs D)"

definition write_damage_log :: "arena_env \<Rightarrow> string \<Rightarrow> sql_row list \<Rightarrow> arena_db \<Rightarrow> arena_db" where
  "write_damage_log E t rows D = (if rows \<noteq> [] then damage_loop E t (length rows) 0 0 [] rows D else D)"

text \<open>The other logs: a statement per 100 rows, and one for the rest after the loop.\<close>

fun batch_loop ::
    "arena_env \<Rightarrow> string \<Rightarrow> bool \<Rightarrow> nat \<Rightarrow> sql_row list \<Rightarrow> sql_row list \<Rightarrow> arena_db \<Rightarrow> arena_db" where
  "batch_loop E t first batch_count batch [] D = (if \<not> first then sql_do E (Sql_insert t batch) D else D)"
| "batch_loop E t first batch_count batch (r # rs) D =
     (let batch = batch @ [r]; batch_count = batch_count + 1
      in if batch_count \<ge> 100 then batch_loop E t True 0 [] rs (sql_do E (Sql_insert t batch) D)
         else batch_loop E t False batch_count batch rs D)"

definition write_log :: "arena_env \<Rightarrow> string \<Rightarrow> sql_row list \<Rightarrow> arena_db \<Rightarrow> arena_db" where
  "write_log E t rows D = (if rows \<noteq> [] then batch_loop E t True 0 [] rows D else D)"

text \<open>The aggregates: one statement for all rows, none when there is no row.\<close>

definition write_all :: "arena_env \<Rightarrow> string \<Rightarrow> sql_row list \<Rightarrow> arena_db \<Rightarrow> arena_db" where
  "write_all E t rows D = (if rows \<noteq> [] then sql_do E (Sql_insert t rows) D else D)"

text \<open>A player: no statistics and skills when the player's row is refused.\<close>

definition save_player ::
    "arena_env \<Rightarrow> s_arena7x7_match \<Rightarrow> s_arena7x7_player_stats \<Rightarrow> arena_db \<Rightarrow> arena_db" where
  "save_player E M s D =
     (let (ok, D1) = Sql_Query E (Sql_insert ''arena7x7_match_players'' [player_row E M s]) D
      in if \<not> ok then D1
         else fold (\<lambda>kv. sql_do E (Sql_insert ''arena7x7_skill_summary+'' [skill_use_row E M s kv]))
                (um_iter (env_order E (It_save_skills (ps_char_id s))) (ps_skills_used_map s))
                (sql_do E (Sql_insert ''arena7x7_match_stats'' [stats_row M s]) D1))"

definition save_players :: "arena_env \<Rightarrow> s_arena7x7_match \<Rightarrow> arena_db \<Rightarrow> arena_db" where
  "save_players E M D =
     fold (\<lambda>(c, s). save_player E M s) (um_iter (env_order E It_save_players) (mt_players M)) D"

text \<open>The logs and aggregates, in the function's order.\<close>

definition save_logs :: "arena_env \<Rightarrow> s_arena7x7_match \<Rightarrow> arena_db \<Rightarrow> arena_db" where
  "save_logs E M D =
     write_all E ''arena7x7_kills'' (map (kill_row E M) (mt_kill_log M))
    (write_log E ''arena7x7_item_usage'' (map (item_row E M) (mt_item_log M))
    (write_all E ''arena7x7_support_by_target''
       (map (\<lambda>(k, d). support_target_row M d) (um_iter (env_order E It_support_by_target) (mt_support_by_target M)))
    (write_log E ''arena7x7_support_log'' (map (support_row M) (mt_support_log M))
    (write_all E ''arena7x7_damage_by_target''
       (map (\<lambda>(k, d). by_target_row M d) (um_iter (env_order E It_damage_by_target) (mt_damage_by_target M)))
    (write_all E ''arena7x7_damage_by_skill''
       (map (\<lambda>(k, d). by_skill_row E M d) (um_iter (env_order E It_damage_by_skill) (mt_damage_by_skill M)))
    (write_damage_log E ''arena7x7_damage_log'' (map (damage_row M) (mt_damage_log M)) D))))))"

definition arena7x7_save_match :: "arena_env \<Rightarrow> s_arena7x7_match \<Rightarrow> arena_db \<Rightarrow> bool \<times> arena_db" where
  "arena7x7_save_match E M D =
     (let D1 = sql_do E Sql_start_transaction D;
          (ok, D2) = Sql_Query E (Sql_insert ''arena7x7_matches'' [match_row E M]) D1
      in if \<not> ok then (False, sql_do E Sql_rollback D2)
         else (True, sql_do E Sql_commit (save_logs E M (save_players E M D2))))"

section \<open>What the loops write\<close>

abbreviation insert_all :: "arena_env \<Rightarrow> string \<Rightarrow> sql_row list list \<Rightarrow> arena_db \<Rightarrow> arena_db" where
  "insert_all E t bs D \<equiv> fold (\<lambda>b. sql_do E (Sql_insert t b)) bs D"

text \<open>A list cut into pieces of \<open>n\<close>, the last one shorter.\<close>

function chunks :: "nat \<Rightarrow> 'a list \<Rightarrow> 'a list list" where
  "chunks n xs = (if xs = [] \<or> n = 0 then [] else take n xs # chunks n (drop n xs))"
  by pat_completeness auto
termination by (relation "measure (\<lambda>(n, xs). length xs)") auto

declare chunks.simps [simp del]

lemma chunks_Nil [simp]: "chunks n [] = []"
  by (simp add: chunks.simps)

lemma chunks_full: "length xs = n \<Longrightarrow> 0 < n \<Longrightarrow> chunks n (xs @ ys) = xs # chunks n ys"
  by (subst chunks.simps) auto

lemma chunks_short: "xs \<noteq> [] \<Longrightarrow> length xs \<le> n \<Longrightarrow> chunks n xs = [xs]"
  by (cases "length xs = n") (auto simp: chunks.simps [of n xs])

lemma concat_chunks: "0 < n \<Longrightarrow> concat (chunks n xs) = xs"
  by (induction n xs rule: chunks.induct) (subst chunks.simps, auto)

lemma chunks_size: "0 < n \<Longrightarrow> b \<in> set (chunks n xs) \<Longrightarrow> 0 < length b \<and> length b \<le> n"
  by (induction n xs rule: chunks.induct) (subst (asm) (2) chunks.simps, auto split: if_splits)

lemma chunks_100: "b \<in> set (chunks 100 xs) \<Longrightarrow> 1 \<le> length b \<and> length b \<le> 100"
  using chunks_size [of 100 b xs] by (simp add: Suc_le_eq)

lemma batch_loop_chunks:
  "length batch = n \<Longrightarrow> n < 100 \<Longrightarrow> first = (batch = []) \<Longrightarrow>
   batch_loop E t first n batch rs D = insert_all E t (chunks 100 (batch @ rs)) D"
proof (induction rs arbitrary: first n batch D)
  case Nil
  then show ?case by (cases "batch = []") (simp_all add: chunks_short)
next
  case (Cons r rs)
  show ?case
  proof (cases "n + 1 \<ge> 100")
    case True
    then have "length (batch @ [r]) = 100" using Cons.prems by simp
    from chunks_full [OF this, of rs] True Cons.IH [of "[]" 0 True] show ?thesis
      by (simp add: Let_def)
  next
    case False
    with Cons.IH [of "batch @ [r]" "n + 1" False] Cons.prems show ?thesis by (simp add: Let_def)
  qed
qed

lemma write_log_chunks: "write_log E t rows D = insert_all E t (chunks 100 rows) D"
  by (simp add: write_log_def batch_loop_chunks)

lemma damage_loop_chunks:
  "length batch = n \<Longrightarrow> n < 100 \<Longrightarrow> n_all = written + length rs \<Longrightarrow>
   (written \<ge> MAX_DAMAGE_LOGS \<or> rs = [] \<Longrightarrow> batch = []) \<Longrightarrow>
   damage_loop E t n_all written n batch rs D =
     insert_all E t (chunks 100 (batch @ take (MAX_DAMAGE_LOGS - written) rs)) D"
proof (induction rs arbitrary: written n batch D)
  case Nil
  then show ?case by simp
next
  case (Cons r rs)
  show ?case
  proof (cases "written \<ge> MAX_DAMAGE_LOGS")
    case True
    with Cons.prems show ?thesis by simp
  next
    case False
    define b where "b = (if n = 0 then [r] else batch @ [r])"
    have b: "b = batch @ [r]" using Cons.prems(1) by (auto simp: b_def)
    have rest: "take (MAX_DAMAGE_LOGS - written) (r # rs) = r # take (MAX_DAMAGE_LOGS - (written + 1)) rs"
      using False by (simp add: take_Cons')
    show ?thesis
    proof (cases "n + 1 \<ge> BATCH_SIZE \<or> written + 1 \<ge> MAX_DAMAGE_LOGS \<or> written + 1 \<ge> n_all")
      case True
      have "chunks 100 (b @ take (MAX_DAMAGE_LOGS - (written + 1)) rs) =
          b # chunks 100 (take (MAX_DAMAGE_LOGS - (written + 1)) rs)"
      proof (cases "n + 1 \<ge> BATCH_SIZE")
        case True
        then have "length b = 100" using b Cons.prems by (simp add: BATCH_SIZE_def)
        then show ?thesis by (rule chunks_full) simp
      next
        case False
        with \<open>n + 1 \<ge> BATCH_SIZE \<or> written + 1 \<ge> MAX_DAMAGE_LOGS \<or> written + 1 \<ge> n_all\<close> Cons.prems(3)
        have none: "take (MAX_DAMAGE_LOGS - (written + 1)) rs = []" by auto
        show ?thesis unfolding none using b Cons.prems(1,2) by (simp add: chunks_short)
      qed
      with True False rest b Cons.IH [of "[]" 0 "written + 1"] Cons.prems(3) show ?thesis
        by (simp add: Let_def b_def [symmetric])
    next
      case small: False
      with False rest b Cons.IH [of b "n + 1" "written + 1"] Cons.prems show ?thesis
        by (simp add: Let_def b_def [symmetric] BATCH_SIZE_def)
    qed
  qed
qed

lemma write_damage_log_chunks:
  "write_damage_log E t rows D = insert_all E t (chunks 100 (take MAX_DAMAGE_LOGS rows)) D"
  using damage_loop_chunks [of "[]" 0 "length rows" 0 rows E t D]
  by (auto simp: write_damage_log_def MAX_DAMAGE_LOGS_def)

section \<open>The writer interface\<close>

text \<open>The part of the database that inserting rows leaves alone.\<close>

definition db_rest where
  "db_rest D = (tb_rank (db_now D), tb_class (db_now D), tb_seasons (db_now D), db_saved D)"

lemma db_rest_insert: "db_rest (sql_do E (Sql_insert t rows) D) = db_rest D"
  by (simp add: db_rest_def sql_do_def Sql_Query_def Let_def sql_insert_rows_def)

text \<open>
  What \<open>arena7x7_save_match\<close> relies on: a writer turns the rows it keeps, in order, into
  non-empty statements, and does nothing else to the database.
\<close>

locale row_writer =
  fixes put_rows :: "arena_env \<Rightarrow> string \<Rightarrow> sql_row list \<Rightarrow> arena_db \<Rightarrow> arena_db"
    and batches :: "sql_row list \<Rightarrow> sql_row list list"
    and kept :: "sql_row list \<Rightarrow> sql_row list"
  assumes write_batches: "put_rows E t rows D = insert_all E t (batches rows) D"
    and concat_batches: "concat (batches rows) = kept rows"
    and batch_nonempty: "b \<in> set (batches rows) \<Longrightarrow> b \<noteq> []"
begin

lemma insert_all_rows:
  "all_ok E \<Longrightarrow> tb_rows (db_now (insert_all E t bs D)) = tb_rows (db_now D) @ map (Pair t) (concat bs)"
  by (induction bs arbitrary: D)
    (simp_all add: sql_do_def Sql_Query_def Let_def all_ok_def sql_insert_rows_def)

lemma insert_all_frame: "db_rest (insert_all E t bs D) = db_rest D"
  by (induction bs arbitrary: D) (simp_all add: db_rest_insert)

lemma insert_all_issued: "db_issued (insert_all E t bs D) = db_issued D + length bs"
  by (induction bs arbitrary: D) simp_all

text \<open>With every statement accepted, exactly the kept rows are appended, in order.\<close>

lemma written_rows:
  "all_ok E \<Longrightarrow> tb_rows (db_now (put_rows E t rows D)) = tb_rows (db_now D) @ map (Pair t) (kept rows)"
  by (simp add: write_batches insert_all_rows concat_batches)

lemma written_frame: "db_rest (put_rows E t rows D) = db_rest D"
  by (simp add: write_batches insert_all_frame)

lemma written_issued: "db_issued (put_rows E t rows D) = db_issued D + length (batches rows)"
  by (simp add: write_batches insert_all_issued)

text \<open>Refused statements only lose rows: what is in the table afterwards is a part of the kept rows.\<close>

lemma insert_all_subset:
  "set (tb_rows (db_now (insert_all E t bs D))) \<subseteq> set (tb_rows (db_now D)) \<union> Pair t ` set (concat bs)"
proof (induction bs arbitrary: D)
  case (Cons b bs)
  have "set (tb_rows (db_now (sql_do E (Sql_insert t b) D))) \<subseteq> set (tb_rows (db_now D)) \<union> Pair t ` set b"
    by (auto simp: sql_do_def Sql_Query_def Let_def sql_insert_rows_def)
  with Cons.IH [of "sql_do E (Sql_insert t b) D"] show ?case by auto
qed simp

lemma written_subset:
  "set (tb_rows (db_now (put_rows E t rows D))) \<subseteq> set (tb_rows (db_now D)) \<union> Pair t ` set (kept rows)"
  using insert_all_subset [of E t "batches rows" D] by (simp add: write_batches concat_batches [symmetric])

end

interpretation damage_writer: row_writer write_damage_log "\<lambda>rows. chunks 100 (take MAX_DAMAGE_LOGS rows)"
  "take MAX_DAMAGE_LOGS"
  by unfold_locales (auto simp: write_damage_log_chunks concat_chunks dest: chunks_size [rotated])

interpretation log_writer: row_writer write_log "chunks 100" "\<lambda>rows. rows"
  by unfold_locales (auto simp: write_log_chunks concat_chunks dest: chunks_size [rotated])

interpretation all_writer: row_writer write_all "\<lambda>rows. if rows = [] then [] else [rows]" "\<lambda>rows. rows"
  by unfold_locales (auto simp: write_all_def split: if_splits)

lemmas writer_rows = damage_writer.written_rows log_writer.written_rows all_writer.written_rows

lemmas writer_frame = damage_writer.written_frame log_writer.written_frame all_writer.written_frame

text \<open>The damage log reaches the database in statements of 1 to 100 rows that together are
  its first 10000 entries in order, whatever the length of the log; with every statement accepted
  exactly those rows are appended to the table.\<close>

theorem damage_log_batches:
  "\<exists>bs. write_damage_log E t rows D = insert_all E t bs D \<and>
    concat bs = take 10000 rows \<and> (\<forall>b \<in> set bs. 1 \<le> length b \<and> length b \<le> 100) \<and>
    (all_ok E \<longrightarrow> tb_rows (db_now (write_damage_log E t rows D)) =
       tb_rows (db_now D) @ map (Pair t) (take 10000 rows))"
proof (intro exI conjI impI)
  show "write_damage_log E t rows D = insert_all E t (chunks 100 (take 10000 rows)) D"
    by (simp add: write_damage_log_chunks MAX_DAMAGE_LOGS_def)
  show "\<forall>b \<in> set (chunks 100 (take 10000 rows)). 1 \<le> length b \<and> length b \<le> 100"
    by (blast dest: chunks_100)
qed (simp_all add: concat_chunks damage_writer.written_rows [unfolded MAX_DAMAGE_LOGS_def])

theorem damage_log_batches_witness:
  "\<exists>bs. write_damage_log sample_env ''t'' (replicate 150 [V_u 3]) empty_db =
      insert_all sample_env ''t'' bs empty_db \<and>
    concat bs = take 10000 (replicate 150 [V_u 3]) \<and> (\<forall>b \<in> set bs. 1 \<le> length b \<and> length b \<le> 100) \<and>
    (all_ok sample_env \<longrightarrow> tb_rows (db_now (write_damage_log sample_env ''t'' (replicate 150 [V_u 3]) empty_db)) =
       tb_rows (db_now empty_db) @ map (Pair ''t'') (take 10000 (replicate 150 [V_u 3])))"
  by (rule damage_log_batches)

section \<open>Saving a match\<close>

text \<open>The rows a match leaves when every statement is accepted, in the order they are written.\<close>

definition player_rows :: "arena_env \<Rightarrow> s_arena7x7_match \<Rightarrow> s_arena7x7_player_stats \<Rightarrow> (string \<times> sql_row) list" where
  "player_rows E M s =
     (''arena7x7_match_players'', player_row E M s) # (''arena7x7_match_stats'', stats_row M s) #
     map (\<lambda>kv. (''arena7x7_skill_summary+'', skill_use_row E M s kv))
       (um_iter (env_order E (It_save_skills (ps_char_id s))) (ps_skills_used_map s))"

definition log_rows :: "arena_env \<Rightarrow> s_arena7x7_match \<Rightarrow> (string \<times> sql_row) list" where
  "log_rows E M =
     map (\<lambda>e. (''arena7x7_damage_log'', damage_row M e)) (take MAX_DAMAGE_LOGS (mt_damage_log M)) @
     map (\<lambda>(k, d). (''arena7x7_damage_by_skill'', by_skill_row E M d))
       (um_iter (env_order E It_damage_by_skill) (mt_damage_by_skill M)) @
     map (\<lambda>(k, d). (''arena7x7_damage_by_target'', by_target_row M d))
       (um_iter (env_order E It_damage_by_target) (mt_damage_by_target M)) @
     map (\<lambda>e. (''arena7x7_support_log'', support_row M e)) (mt_support_log M) @
     map (\<lambda>(k, d). (''arena7x7_support_by_target'', support_target_row M d))
       (um_iter (env_order E It_support_by_target) (mt_support_by_target M)) @
     map (\<lambda>e. (''arena7x7_item_usage'', item_row E M e)) (mt_item_log M) @
     map (\<lambda>e. (''arena7x7_kills'', kill_row E M e)) (mt_kill_log M)"

definition save_rows :: "arena_env \<Rightarrow> s_arena7x7_match \<Rightarrow> (string \<times> sql_row) list" where
  "save_rows E M =
     (''arena7x7_matches'', match_row E M) #
     concat (map (\<lambda>(c, s). player_rows E M s) (um_iter (env_order E It_save_players) (mt_players M))) @
     log_rows E M"

lemma sql_do_insert_rows:
  "all_ok E \<Longrightarrow> tb_rows (db_now (sql_do E (Sql_insert t rows) D)) = tb_rows (db_now D) @ map (Pair t) rows"
  by (simp add: sql_do_def Sql_Query_def Let_def all_ok_def sql_insert_rows_def)

lemma query_do: "Sql_Query E s D = (env_sql_ok E (db_issued D), sql_do E s D)"
  by (simp add: sql_do_def Sql_Query_def Let_def)

lemma fold_insert_rows:
  "all_ok E \<Longrightarrow> tb_rows (db_now (fold (\<lambda>x. sql_do E (Sql_insert t [f x])) xs D)) =
     tb_rows (db_now D) @ map (\<lambda>x. (t, f x)) xs"
  by (induction xs arbitrary: D) (simp_all add: sql_do_insert_rows)

lemma fold_insert_frame: "db_rest (fold (\<lambda>x. sql_do E (Sql_insert t [f x])) xs D) = db_rest D"
  by (induction xs arbitrary: D) (simp_all add: db_rest_insert)

lemma save_player_rows:
  "all_ok E \<Longrightarrow> tb_rows (db_now (save_player E M s D)) = tb_rows (db_now D) @ player_rows E M s"
  using fold_insert_rows [of E "''arena7x7_skill_summary+''" "skill_use_row E M s"]
  by (simp add: save_player_def query_do sql_do_insert_rows player_rows_def) (simp add: all_ok_def)

lemma save_player_frame: "db_rest (save_player E M s D) = db_rest D"
  by (simp add: save_player_def query_do fold_insert_frame db_rest_insert)

lemma save_players_rows:
  assumes "all_ok E"
  shows "tb_rows (db_now (save_players E M D)) = tb_rows (db_now D) @
    concat (map (\<lambda>(c, s). player_rows E M s) (um_iter (env_order E It_save_players) (mt_players M)))"
proof -
  have "tb_rows (db_now (fold (\<lambda>(c, s). save_player E M s) ps D)) =
     tb_rows (db_now D) @ concat (map (\<lambda>(c, s). player_rows E M s) ps)" for ps
    using assms by (induction ps arbitrary: D) (auto simp: save_player_rows)
  then show ?thesis by (simp add: save_players_def)
qed

lemma save_players_frame: "db_rest (save_players E M D) = db_rest D"
proof -
  have "db_rest (fold (\<lambda>(c, s). save_player E M s) ps D) = db_rest D" for ps
    by (induction ps arbitrary: D) (auto simp: save_player_frame)
  then show ?thesis by (simp add: save_players_def)
qed

lemma save_logs_rows:
  "all_ok E \<Longrightarrow> tb_rows (db_now (save_logs E M D)) = tb_rows (db_now D) @ log_rows E M"
  by (simp add: save_logs_def writer_rows log_rows_def case_prod_beta take_map o_def)

lemma save_logs_frame: "db_rest (save_logs E M D) = db_rest D"
  by (simp add: save_logs_def writer_frame)

lemmas save_frames = save_logs_frame save_players_frame db_rest_insert

lemma save_match_all_ok:
  assumes ok: "all_ok E"
  shows "\<exists>D'. arena7x7_save_match E M D = (True, D') \<and>
    tb_rows (db_now D') = tb_rows (db_now D) @ save_rows E M \<and> db_saved D' = None \<and>
    tb_rank (db_now D') = tb_rank (db_now D) \<and> tb_class (db_now D') = tb_class (db_now D)"
proof -
  let ?D1 = "sql_do E Sql_start_transaction D"
  let ?D2 = "sql_do E (Sql_insert ''arena7x7_matches'' [match_row E M]) ?D1"
  let ?D3 = "save_logs E M (save_players E M ?D2)"
  have start: "db_now ?D1 = db_now D" using ok by (simp add: sql_do_def Sql_Query_def all_ok_def Let_def)
  have commit: "db_now (sql_do E Sql_commit ?D3) = db_now ?D3" "db_saved (sql_do E Sql_commit ?D3) = None"
    using ok by (simp_all add: sql_do_def Sql_Query_def all_ok_def Let_def)
  have "arena7x7_save_match E M D = (True, sql_do E Sql_commit ?D3)"
    using ok by (simp add: arena7x7_save_match_def query_do all_ok_def)
  moreover have "tb_rows (db_now ?D3) = tb_rows (db_now D) @ save_rows E M"
    using ok start by (simp add: save_logs_rows save_players_rows sql_do_insert_rows save_rows_def)
  moreover have "db_rest ?D3 = db_rest ?D1" by (simp add: save_frames)
  ultimately show ?thesis using commit start by (simp add: db_rest_def)
qed

text \<open>C23: With every statement accepted, saving a match reports success, appends exactly the
  match's row, the rows of its players and its logs (the damage log up to its first 10000 entries),
  in that order, closes the transaction and leaves the ranking tables alone.\<close>

theorem save_match_complete:
  assumes ok: "all_ok E"
  shows "\<exists>D'. arena7x7_save_match E M D = (True, D') \<and>
    tb_rows (db_now D') = tb_rows (db_now D) @ save_rows E M \<and> db_saved D' = None \<and>
    tb_rank (db_now D') = tb_rank (db_now D) \<and> tb_class (db_now D') = tb_class (db_now D)"
  by (rule save_match_all_ok [OF ok])

theorem save_match_complete_witness:
  "\<exists>D'. arena7x7_save_match sample_env (new_match\<lparr>mt_match_id := 4, mt_players := [(9, new_player_stats)]\<rparr>) empty_db = (True, D') \<and>
    tb_rows (db_now D') = tb_rows (db_now empty_db) @
      save_rows sample_env (new_match\<lparr>mt_match_id := 4, mt_players := [(9, new_player_stats)]\<rparr>) \<and> db_saved D' = None \<and>
    tb_rank (db_now D') = tb_rank (db_now empty_db) \<and> tb_class (db_now D') = tb_class (db_now empty_db)"
  by (rule save_match_complete [OF all_ok_sample])

text \<open>When the database refuses the match's own row, saving reports failure and, the
  transaction having been opened and rolled back, leaves every table as it was.\<close>

theorem save_match_rolls_back:
  assumes "env_sql_ok E (db_issued D)" "\<not> env_sql_ok E (db_issued D + 1)" "env_sql_ok E (db_issued D + 2)"
  shows "\<exists>D'. arena7x7_save_match E M D = (False, D') \<and> db_now D' = db_now D \<and> db_saved D' = None"
  using assms by (simp add: arena7x7_save_match_def query_do) (simp add: sql_do_def Sql_Query_def Let_def)

theorem save_match_rolls_back_witness:
  "\<exists>D'. arena7x7_save_match (sample_env\<lparr>env_sql_ok := (\<lambda>n. n \<noteq> 1)\<rparr>) new_match empty_db = (False, D') \<and>
    db_now D' = db_now empty_db \<and> db_saved D' = None"
  by (rule save_match_rolls_back) (simp_all add: empty_db_def)

end
