(* ===== verification/Ledger.thy ===== *)
theory Ledger
  imports Prelude
begin

text \<open>
  The contract between a log and an aggregate kept beside it: an entry is posted to the row of its
  key, which is created on first use, and the total of the row goes up by the entry's weight. Every
  aggregate of a match keeps its log's books in this sense.
\<close>

definition ledger_post :: "('e \<Rightarrow> 'k) \<Rightarrow> 'v \<Rightarrow> ('e \<Rightarrow> 'v \<Rightarrow> 'v) \<Rightarrow> 'e \<Rightarrow> ('k, 'v) umap \<Rightarrow> ('k, 'v) umap" where
  "ledger_post key zero upd e m = um_at (key e) zero (upd e) m"

definition ledger_total :: "('v \<Rightarrow> 'a::comm_monoid_add) \<Rightarrow> ('k, 'v) umap \<Rightarrow> 'k \<Rightarrow> 'a" where
  "ledger_total amount m k = (case um_find m k of None \<Rightarrow> 0 | Some v \<Rightarrow> amount v)"

definition ledger_books ::
    "('e \<Rightarrow> 'k) \<Rightarrow> ('v \<Rightarrow> 'a::comm_monoid_add) \<Rightarrow> ('e \<Rightarrow> 'a) \<Rightarrow> 'e list \<Rightarrow> ('k, 'v) umap \<Rightarrow> bool" where
  "ledger_books key amount weight es m \<longleftrightarrow>
     (\<forall>k. ledger_total amount m k = log_sum (\<lambda>e. key e = k) weight es)"

lemma ledger_total_Nil [simp]: "ledger_total amount [] k = 0"
  by (simp add: ledger_total_def umap_simps)

lemma ledger_books_Nil: "ledger_books key amount weight [] []"
  by (simp add: ledger_books_def)

lemma um_wf_post [wf_intros]: "um_wf m \<Longrightarrow> um_wf (ledger_post key zero upd e m)"
  by (simp add: ledger_post_def wf_intros)

locale ledger =
  fixes key :: "'e \<Rightarrow> 'k" and zero :: 'v and upd :: "'e \<Rightarrow> 'v \<Rightarrow> 'v"
    and amount :: "'v \<Rightarrow> 'a::comm_monoid_add" and weight :: "'e \<Rightarrow> 'a"
  assumes total_zero: "amount zero = 0"
    and total_upd: "amount (upd e v) = amount v + weight e"
begin

lemma total_post:
  "ledger_total amount (ledger_post key zero upd e m) k =
     ledger_total amount m k + (if key e = k then weight e else 0)"
  by (auto simp: ledger_total_def ledger_post_def umap_simps total_upd total_zero split: option.splits)

text \<open>Appending to the log and posting to the aggregate keeps the books.\<close>

lemma books_post:
  "ledger_books key amount weight es m \<Longrightarrow>
   ledger_books key amount weight (es @ [e]) (ledger_post key zero upd e m)"
  by (simp add: ledger_books_def total_post)

lemma total_posts:
  "ledger_total amount (fold (ledger_post key zero upd) es m) k =
     ledger_total amount m k + log_sum (\<lambda>e. key e = k) weight es"
  by (induction es arbitrary: m) (simp_all add: total_post log_sum_def add.assoc)

text \<open>An aggregate built from a whole log.\<close>

lemma books_build: "ledger_books key amount weight es (fold (ledger_post key zero upd) es [])"
  by (simp add: ledger_books_def total_posts)

text \<open>The grand total over the rows does not depend on how the entries are split over keys.\<close>

lemma total_absent:
  "\<forall>e \<in> set es. key e \<noteq> k \<Longrightarrow> ledger_books key amount weight es m \<Longrightarrow> ledger_total amount m k = 0"
  by (simp add: ledger_books_def log_sum_none)

end

end
