(* ===== verification/ArenaDetail.thy ===== *)
theory ArenaDetail
  imports ArenaSave Ledger
begin

text \<open>
  Writing the detailed logs of a match (\<open>arena7x7_save_detailed_logs\<close> of
  \<open>src/src/map/arena7x7.cpp\<close>): the skill, item and attack logs in batches, then summaries
  computed from them. A summary row is the tuple the source uses.
\<close>

section \<open>Rows of the logs\<close>

definition skill_log_row :: "arena_env \<Rightarrow> uint32 \<Rightarrow> s_arena7x7_skill_log \<Rightarrow> sql_row" where
  "skill_log_row E match_id l =
     [V_u match_id, V_u (word_of_int (sl_timestamp l)), V_u (sl_caster_id l),
      V_s (env_escape E (sl_caster_name l)), V_u (sl_target_id l), V_s (env_escape E (sl_target_name l)),
      V_u16 (sl_skill_id l), V_s (env_escape E (sl_skill_name l)), V_u16 (sl_skill_level l),
      V_u (sl_damage l), V_u16 (sl_hits l), V_flag (sl_is_critical l), V_flag (sl_is_kill l)]"

definition item_log_row :: "arena_env \<Rightarrow> uint32 \<Rightarrow> s_arena7x7_item_log \<Rightarrow> sql_row" where
  "item_log_row E match_id l =
     [V_u match_id, V_u (word_of_int (il_timestamp l)), V_u (il_char_id l),
      V_s (env_escape E (il_char_name l)), V_u (il_item_id l), V_s (env_escape E (il_item_name l)),
      V_u16 (il_amount l), V_s (env_escape E (il_item_type l)), V_u16 (il_related_skill_id l)]"

definition attack_row :: "arena_env \<Rightarrow> uint32 \<Rightarrow> s_arena7x7_attack_log \<Rightarrow> sql_row" where
  "attack_row E match_id l =
     [V_u match_id, V_u (al_attacker_id l), V_s (env_escape E (al_attacker_name l)),
      V_u (al_target_id l), V_s (env_escape E (al_target_name l)), V_d (al_total_damage l),
      V_u (al_hit_count l), V_u (al_critical_count l), V_u (al_miss_count l)]"

section \<open>Summaries\<close>

type_synonym skill_sum = "uint32 \<times> string \<times> uint16 \<times> string \<times> uint32 \<times> uint32 \<times> uint32 \<times> uint32"
type_synonym target_sum = "uint32 \<times> string \<times> uint32 \<times> string \<times> uint32 \<times> uint32"
type_synonym item_sum = "uint32 \<times> string \<times> uint32 \<times> string \<times> string \<times> uint32"

definition skill_sum_key :: "s_arena7x7_skill_log \<Rightarrow> uint64" where
  "skill_sum_key l = skill_key (sl_caster_id l) (sl_skill_id l)"

fun skill_sum_add :: "s_arena7x7_skill_log \<Rightarrow> skill_sum \<Rightarrow> skill_sum" where
  "skill_sum_add l (c, cn, s, sn, dmg, hits, uses, kills) =
     (let (c, cn, s, sn) = (if c = 0 then (sl_caster_id l, sl_caster_name l, sl_skill_id l, sl_skill_name l)
                            else (c, cn, s, sn))
      in (c, cn, s, sn, dmg + sl_damage l, hits + ucast (sl_hits l), uses + 1,
          if sl_is_kill l then kills + 1 else kills))"

definition zero_skill_sum :: skill_sum where
  "zero_skill_sum = (0, '''', 0, '''', 0, 0, 0, 0)"

definition skill_summary :: "s_arena7x7_skill_log list \<Rightarrow> (uint64, skill_sum) umap" where
  "skill_summary ls = fold (ledger_post skill_sum_key zero_skill_sum skill_sum_add) ls []"

definition target_sum_key :: "s_arena7x7_skill_log \<Rightarrow> uint64" where
  "target_sum_key l = pair_key (sl_caster_id l) (sl_target_id l)"

fun target_sum_skill :: "s_arena7x7_skill_log \<Rightarrow> target_sum \<Rightarrow> target_sum" where
  "target_sum_skill l (a, an, t, tn, sk, nm) =
     (let (a, an, t, tn) = (if a = 0 then (sl_caster_id l, sl_caster_name l, sl_target_id l, sl_target_name l)
                            else (a, an, t, tn))
      in (a, an, t, tn, sk + sl_damage l, nm))"

fun target_sum_attack :: "uint64 \<times> s_arena7x7_attack_log \<Rightarrow> target_sum \<Rightarrow> target_sum" where
  "target_sum_attack (k, l) (a, an, t, tn, sk, nm) =
     (let (a, an, t, tn) = (if a = 0 then (al_attacker_id l, al_attacker_name l, al_target_id l, al_target_name l)
                            else (a, an, t, tn))
      in (a, an, t, tn, sk, nm + word_of_int (al_total_damage l)))"

definition zero_target_sum :: target_sum where
  "zero_target_sum = (0, '''', 0, '''', 0, 0)"

definition damage_summary ::
    "s_arena7x7_skill_log list \<Rightarrow> (uint64 \<times> s_arena7x7_attack_log) list \<Rightarrow> (uint64, target_sum) umap" where
  "damage_summary ls attacks =
     fold (ledger_post fst zero_target_sum target_sum_attack) attacks
       (fold (ledger_post target_sum_key zero_target_sum target_sum_skill) ls [])"

definition item_sum_key :: "s_arena7x7_item_log \<Rightarrow> uint64" where
  "item_sum_key l = pair_key (il_char_id l) (il_item_id l)"

fun item_sum_add :: "s_arena7x7_item_log \<Rightarrow> item_sum \<Rightarrow> item_sum" where
  "item_sum_add l (c, cn, i, nm, ty, tot) =
     (let (c, cn, i, nm, ty) = (if c = 0
            then (il_char_id l, il_char_name l, il_item_id l, il_item_name l, il_item_type l)
            else (c, cn, i, nm, ty))
      in (c, cn, i, nm, ty, tot + ucast (il_amount l)))"

definition zero_item_sum :: item_sum where
  "zero_item_sum = (0, '''', 0, '''', '''', 0)"

definition item_summary :: "s_arena7x7_item_log list \<Rightarrow> (uint64, item_sum) umap" where
  "item_summary ls = fold (ledger_post item_sum_key zero_item_sum item_sum_add) ls []"

section \<open>Writing the summaries\<close>

fun skill_sum_row :: "arena_env \<Rightarrow> uint32 \<Rightarrow> skill_sum \<Rightarrow> sql_row" where
  "skill_sum_row E match_id (c, cn, s, sn, dmg, hits, uses, kills) =
     [V_u match_id, V_u c, V_s (env_escape E cn), V_u16 s, V_s (env_escape E sn),
      V_u dmg, V_u hits, V_u uses, V_u kills]"

fun target_sum_total :: "target_sum \<Rightarrow> uint32" where
  "target_sum_total (a, an, t, tn, sk, nm) = sk + nm"

fun target_sum_row :: "arena_env \<Rightarrow> uint32 \<Rightarrow> target_sum \<Rightarrow> sql_row" where
  "target_sum_row E match_id (a, an, t, tn, sk, nm) =
     [V_u match_id, V_u a, V_s (env_escape E an), V_u t, V_s (env_escape E tn),
      V_u sk, V_u nm, V_u (sk + nm)]"

fun item_sum_row :: "arena_env \<Rightarrow> uint32 \<Rightarrow> item_sum \<Rightarrow> sql_row" where
  "item_sum_row E match_id (c, cn, i, nm, ty, tot) =
     [V_u match_id, V_u c, V_s (env_escape E cn), V_u i, V_s (env_escape E nm),
      V_s (env_escape E ty), V_u tot]"

text \<open>One statement per row; a target without damage is skipped.\<close>

definition write_skill_summary :: "arena_env \<Rightarrow> uint32 \<Rightarrow> (uint64 \<times> skill_sum) list \<Rightarrow> arena_db \<Rightarrow> arena_db" where
  "write_skill_summary E match_id ss D =
     fold (\<lambda>kv. sql_do E (Sql_insert ''arena7x7_skill_summary+'' [skill_sum_row E match_id (snd kv)])) ss D"

definition write_damage_summary :: "arena_env \<Rightarrow> uint32 \<Rightarrow> (uint64 \<times> target_sum) list \<Rightarrow> arena_db \<Rightarrow> arena_db" where
  "write_damage_summary E match_id ds D =
     fold (\<lambda>kv D. if target_sum_total (snd kv) = 0 then D
                   else sql_do E (Sql_insert ''arena7x7_damage_by_target+'' [target_sum_row E match_id (snd kv)]) D) ds D"

definition write_details :: "arena_env \<Rightarrow> uint32 \<Rightarrow> s_arena7x7_match \<Rightarrow> arena_db \<Rightarrow> arena_db" where
  "write_details E match_id M D =
     write_all E ''arena7x7_item_summary''
       (map (\<lambda>kv. item_sum_row E match_id (snd kv))
          (um_iter (env_order E It_item_summary) (item_summary (mt_item_usage_log M))))
    (write_damage_summary E match_id
       (um_iter (env_order E It_damage_summary)
          (damage_summary (mt_skill_log M) (um_iter (env_order E It_attack_sum) (mt_attack_log M))))
    (write_skill_summary E match_id
       (um_iter (env_order E It_skill_summary) (skill_summary (mt_skill_log M)))
    (write_all E ''arena7x7_attack_log''
       (map (\<lambda>kv. attack_row E match_id (snd kv)) (um_iter (env_order E It_attack_log) (mt_attack_log M)))
    (write_log E ''arena7x7_item_log'' (map (item_log_row E match_id) (mt_item_usage_log M))
    (write_log E ''arena7x7_skill_log'' (map (skill_log_row E match_id) (mt_skill_log M)) D)))))"

definition arena7x7_save_detailed_logs :: "arena_env \<Rightarrow> uint32 \<Rightarrow> world \<Rightarrow> world" where
  "arena7x7_save_detailed_logs E match_id w =
     (case um_find (aw_matches w) match_id of
        None \<Rightarrow> w
      | Some M \<Rightarrow> w\<lparr>aw_db := sql_do E Sql_commit
            (write_details E match_id M (sql_do E Sql_start_transaction (aw_db w)))\<rparr>)"

section \<open>The summaries agree with the logs\<close>

fun skill_sum_damage :: "skill_sum \<Rightarrow> uint32" where
  "skill_sum_damage (c, cn, s, sn, dmg, hits, uses, kills) = dmg"

fun skill_sum_uses :: "skill_sum \<Rightarrow> uint32" where
  "skill_sum_uses (c, cn, s, sn, dmg, hits, uses, kills) = uses"

fun skill_sum_kills :: "skill_sum \<Rightarrow> uint32" where
  "skill_sum_kills (c, cn, s, sn, dmg, hits, uses, kills) = kills"

fun item_sum_amount :: "item_sum \<Rightarrow> uint32" where
  "item_sum_amount (c, cn, i, nm, ty, tot) = tot"

fun target_sum_parts :: "target_sum \<Rightarrow> uint32 \<times> uint32" where
  "target_sum_parts (a, an, t, tn, sk, nm) = (sk, nm)"

interpretation skill_damage_books: ledger skill_sum_key zero_skill_sum skill_sum_add skill_sum_damage sl_damage
  by unfold_locales (auto simp: zero_skill_sum_def split: prod.split)

interpretation skill_uses_books: ledger skill_sum_key zero_skill_sum skill_sum_add skill_sum_uses "\<lambda>_. 1"
  by unfold_locales (auto simp: zero_skill_sum_def split: prod.split)

interpretation skill_kills_books: ledger skill_sum_key zero_skill_sum skill_sum_add skill_sum_kills
  "\<lambda>l. if sl_is_kill l then 1 else 0"
  by unfold_locales (auto simp: zero_skill_sum_def split: prod.split)

interpretation item_books: ledger item_sum_key zero_item_sum item_sum_add item_sum_amount "\<lambda>l. ucast (il_amount l)"
  by unfold_locales (auto simp: zero_item_sum_def split: prod.split)

interpretation target_skill_books: ledger target_sum_key zero_target_sum target_sum_skill target_sum_total sl_damage
  by unfold_locales (auto simp: zero_target_sum_def algebra_simps split: prod.split)

interpretation target_attack_books: ledger fst zero_target_sum target_sum_attack target_sum_total
  "\<lambda>kl. word_of_int (al_total_damage (snd kl))"
  by unfold_locales (auto simp: zero_target_sum_def algebra_simps split: prod.split)

lemma skill_key_log: "(skill_sum_key l = skill_key c s) \<longleftrightarrow> sl_caster_id l = c \<and> sl_skill_id l = s"
  by (simp add: skill_sum_key_def skill_key_inject)

lemma target_key_log: "(target_sum_key l = pair_key c t) \<longleftrightarrow> sl_caster_id l = c \<and> sl_target_id l = t"
  by (simp add: target_sum_key_def pair_key_inject)

lemma item_key_log: "(item_sum_key l = pair_key c i) \<longleftrightarrow> il_char_id l = c \<and> il_item_id l = i"
  by (simp add: item_sum_key_def pair_key_inject)

text \<open>The summaries the detailed logs end with agree with the logs: per character and skill
  the damage, the number of uses and the kills, per pair of characters the damage by skills and by
  normal attacks together, and per character and item the amount used are the sums over the
  matching entries (modulo 2^32), in whatever order the aggregates are visited.\<close>

theorem summaries_match_logs:
  assumes wf: "um_wf attacks"
  shows "ledger_total skill_sum_damage (skill_summary ls) (skill_key c s) =
      log_sum (\<lambda>l. sl_caster_id l = c \<and> sl_skill_id l = s) sl_damage ls \<and>
    ledger_total skill_sum_uses (skill_summary ls) (skill_key c s) =
      log_sum (\<lambda>l. sl_caster_id l = c \<and> sl_skill_id l = s) (\<lambda>_. 1) ls \<and>
    ledger_total skill_sum_kills (skill_summary ls) (skill_key c s) =
      log_sum (\<lambda>l. sl_caster_id l = c \<and> sl_skill_id l = s) (\<lambda>l. if sl_is_kill l then 1 else 0) ls \<and>
    ledger_total target_sum_total (damage_summary ls (um_iter p attacks)) (pair_key c t) =
      log_sum (\<lambda>l. sl_caster_id l = c \<and> sl_target_id l = t) sl_damage ls +
      (case um_find attacks (pair_key c t) of None \<Rightarrow> 0 | Some l \<Rightarrow> word_of_int (al_total_damage l)) \<and>
    ledger_total item_sum_amount (item_summary us) (pair_key c i) =
      log_sum (\<lambda>l. il_char_id l = c \<and> il_item_id l = i) (\<lambda>l. ucast (il_amount l)) us"
  using skill_damage_books.total_posts [of ls "[]"] skill_uses_books.total_posts [of ls "[]"]
    skill_kills_books.total_posts [of ls "[]"] item_books.total_posts [of us "[]"]
    target_skill_books.total_posts [of ls "[]"]
  by (simp add: skill_summary_def damage_summary_def item_summary_def skill_key_log target_key_log
      item_key_log target_attack_books.total_posts log_sum_iter [OF wf] split: option.split)

theorem summaries_match_logs_witness:
  "ledger_total skill_sum_damage (skill_summary []) (skill_key 1 2) =
      log_sum (\<lambda>l. sl_caster_id l = 1 \<and> sl_skill_id l = 2) sl_damage ([] :: s_arena7x7_skill_log list) \<and>
    ledger_total skill_sum_uses (skill_summary []) (skill_key 1 2) =
      log_sum (\<lambda>l. sl_caster_id l = 1 \<and> sl_skill_id l = 2) (\<lambda>_. 1) ([] :: s_arena7x7_skill_log list) \<and>
    ledger_total skill_sum_kills (skill_summary []) (skill_key 1 2) =
      log_sum (\<lambda>l. sl_caster_id l = 1 \<and> sl_skill_id l = 2) (\<lambda>l. if sl_is_kill l then 1 else 0) ([] :: s_arena7x7_skill_log list) \<and>
    ledger_total target_sum_total (damage_summary [] (um_iter (\<lambda>_. 0)
        [(pair_key 1 3, zero_attack_log\<lparr>al_total_damage := 50\<rparr>)])) (pair_key 1 3) =
      log_sum (\<lambda>l. sl_caster_id l = 1 \<and> sl_target_id l = 3) sl_damage ([] :: s_arena7x7_skill_log list) +
      (case um_find [(pair_key 1 3, zero_attack_log\<lparr>al_total_damage := 50\<rparr>)] (pair_key 1 3)
       of None \<Rightarrow> 0 | Some l \<Rightarrow> word_of_int (al_total_damage l)) \<and>
    ledger_total item_sum_amount (item_summary []) (pair_key 1 4) =
      log_sum (\<lambda>l. il_char_id l = 1 \<and> il_item_id l = 4) (\<lambda>l. ucast (il_amount l)) ([] :: s_arena7x7_item_log list)"
  by (rule summaries_match_logs) (simp add: um_wf_def)

text \<open>The detailed logs leave the matches alone and only append rows.\<close>

definition detail_rows :: "arena_env \<Rightarrow> uint32 \<Rightarrow> s_arena7x7_match \<Rightarrow> (string \<times> sql_row) list" where
  "detail_rows E match_id M =
     map (\<lambda>l. (''arena7x7_skill_log'', skill_log_row E match_id l)) (mt_skill_log M) @
     map (\<lambda>l. (''arena7x7_item_log'', item_log_row E match_id l)) (mt_item_usage_log M) @
     map (\<lambda>kv. (''arena7x7_attack_log'', attack_row E match_id (snd kv)))
       (um_iter (env_order E It_attack_log) (mt_attack_log M)) @
     map (\<lambda>kv. (''arena7x7_skill_summary+'', skill_sum_row E match_id (snd kv)))
       (um_iter (env_order E It_skill_summary) (skill_summary (mt_skill_log M))) @
     map (\<lambda>kv. (''arena7x7_damage_by_target+'', target_sum_row E match_id (snd kv)))
       (filter (\<lambda>kv. target_sum_total (snd kv) \<noteq> 0) (um_iter (env_order E It_damage_summary)
          (damage_summary (mt_skill_log M) (um_iter (env_order E It_attack_sum) (mt_attack_log M))))) @
     map (\<lambda>kv. (''arena7x7_item_summary'', item_sum_row E match_id (snd kv)))
       (um_iter (env_order E It_item_summary) (item_summary (mt_item_usage_log M)))"

lemma write_damage_summary_rows:
  "all_ok E \<Longrightarrow> tb_rows (db_now (write_damage_summary E m ds D)) = tb_rows (db_now D) @
     map (\<lambda>kv. (''arena7x7_damage_by_target+'', target_sum_row E m (snd kv)))
       (filter (\<lambda>kv. target_sum_total (snd kv) \<noteq> 0) ds)"
  unfolding write_damage_summary_def by (induction ds arbitrary: D) (simp_all add: sql_do_insert_rows)

lemma write_damage_summary_frame: "db_rest (write_damage_summary E m ds D) = db_rest D"
  unfolding write_damage_summary_def by (induction ds arbitrary: D) (simp_all add: db_rest_insert)

lemma write_skill_summary_rows:
  "all_ok E \<Longrightarrow> tb_rows (db_now (write_skill_summary E m ss D)) = tb_rows (db_now D) @
     map (\<lambda>kv. (''arena7x7_skill_summary+'', skill_sum_row E m (snd kv))) ss"
  unfolding write_skill_summary_def by (rule fold_insert_rows)

lemma write_skill_summary_frame: "db_rest (write_skill_summary E m ss D) = db_rest D"
  unfolding write_skill_summary_def by (rule fold_insert_frame)

lemma write_details_rows:
  "all_ok E \<Longrightarrow> tb_rows (db_now (write_details E m M D)) = tb_rows (db_now D) @ detail_rows E m M"
  by (simp add: write_details_def writer_rows write_damage_summary_rows write_skill_summary_rows
      detail_rows_def o_def)

lemma write_details_frame: "db_rest (write_details E m M D) = db_rest D"
  by (simp add: write_details_def writer_frame write_damage_summary_frame write_skill_summary_frame)

lemma save_detailed_logs_frame [frame_simps]:
  "aw_matches (arena7x7_save_detailed_logs E m w) = aw_matches w"
  "aw_player_match (arena7x7_save_detailed_logs E m w) = aw_player_match w"
  "aw_match_counter (arena7x7_save_detailed_logs E m w) = aw_match_counter w"
  "aw_current_season (arena7x7_save_detailed_logs E m w) = aw_current_season w"
  "aw_mapdata (arena7x7_save_detailed_logs E m w) = aw_mapdata w"
  "aw_sessions (arena7x7_save_detailed_logs E m w) = aw_sessions w"
  "aw_timers (arena7x7_save_detailed_logs E m w) = aw_timers w"
  "aw_calls (arena7x7_save_detailed_logs E m w) = aw_calls w"
  by (simp_all add: arena7x7_save_detailed_logs_def split: option.splits)

text \<open>Neither writer touches the ranking tables, whichever statements are refused.\<close>

lemma transaction_rank:
  assumes "\<And>D. db_rest (f D) = db_rest D" "db_saved D = None"
  shows "tb_rank (db_now (sql_do E Sql_commit (f (sql_do E Sql_start_transaction D)))) = tb_rank (db_now D)"
    "tb_class (db_now (sql_do E Sql_commit (f (sql_do E Sql_start_transaction D)))) = tb_class (db_now D)"
  using assms(1) [of "sql_do E Sql_start_transaction D"]
  by (auto simp: sql_do_def Sql_Query_def Let_def db_rest_def split: if_splits)

end
