(* ===== verification/ArenaMatch.thy ===== *)
theory ArenaMatch
  imports ArenaDetail
begin

text \<open>
  The life of a match (\<open>src/src/map/arena7x7.cpp\<close>): creating, joining, leaving, starting,
  finishing and cancelling, the queries other modules make, and the score display. A
  \<open>shared_ptr\<close> to a match is the key it is stored under together with its current value.
\<close>

section \<open>Queries\<close>

type_synonym match_ref = "uint32 \<times> s_arena7x7_match"

definition arena7x7_get_match :: "uint32 \<Rightarrow> world \<Rightarrow> match_ref option" where
  "arena7x7_get_match match_id w = map_option (Pair match_id) (um_find (aw_matches w) match_id)"

definition arena7x7_get_player_match :: "uint32 \<Rightarrow> world \<Rightarrow> match_ref option" where
  "arena7x7_get_player_match char_id w =
     (case um_find (aw_player_match w) char_id of None \<Rightarrow> None | Some m \<Rightarrow> arena7x7_get_match m w)"

definition arena7x7_is_in_match :: "uint32 \<Rightarrow> world \<Rightarrow> bool" where
  "arena7x7_is_in_match char_id w =
     (case arena7x7_get_player_match char_id w of
        None \<Rightarrow> False
      | Some (m, M) \<Rightarrow> mt_status M = ARENA7X7_MATCH_ACTIVE \<or> mt_status M = ARENA7X7_MATCH_WAITING \<or>
          mt_status M = ARENA7X7_MATCH_FINISHED \<or> mt_status M = ARENA7X7_MATCH_CANCELLED)"

definition arena7x7_get_player_stats :: "uint32 \<Rightarrow> world \<Rightarrow> s_arena7x7_player_stats option" where
  "arena7x7_get_player_stats char_id w =
     (case arena7x7_get_player_match char_id w of
        None \<Rightarrow> None
      | Some (m, M) \<Rightarrow> um_find (mt_players M) char_id)"

definition arena7x7_is_player_dead :: "uint32 \<Rightarrow> world \<Rightarrow> bool" where
  "arena7x7_is_player_dead char_id w =
     (case arena7x7_get_player_stats char_id w of None \<Rightarrow> False | Some s \<Rightarrow> ps_is_dead s)"

definition arena7x7_is_player_in_match :: "uint32 \<Rightarrow> world \<Rightarrow> bool" where
  "arena7x7_is_player_in_match char_id w =
     (case arena7x7_get_player_match char_id w of
        None \<Rightarrow> False
      | Some (m, M) \<Rightarrow> mt_status M = ARENA7X7_MATCH_WAITING \<or> mt_status M = ARENA7X7_MATCH_ACTIVE)"

definition arena7x7_get_player_team :: "uint32 \<Rightarrow> world \<Rightarrow> e_arena7x7_team" where
  "arena7x7_get_player_team char_id w =
     (case arena7x7_get_player_match char_id w of
        None \<Rightarrow> ARENA7X7_TEAM_NONE
      | Some (m, M) \<Rightarrow> (case um_find (mt_players M) char_id of
            Some s \<Rightarrow> ps_team s | None \<Rightarrow> ARENA7X7_TEAM_NONE))"

definition arena7x7_same_team :: "uint32 \<Rightarrow> uint32 \<Rightarrow> world \<Rightarrow> bool" where
  "arena7x7_same_team c1 c2 w =
     (let team1 = arena7x7_get_player_team c1 w; team2 = arena7x7_get_player_team c2 w
      in team1 \<noteq> ARENA7X7_TEAM_NONE \<and> team1 = team2)"

section \<open>Counting the living and the score display\<close>

text \<open>The loop of \<open>arena7x7_count_alive_players\<close>; a count does not depend on the order.\<close>

fun count_loop :: "e_arena7x7_team \<Rightarrow> uint16 \<Rightarrow> (uint32 \<times> s_arena7x7_player_stats) list \<Rightarrow> uint16" where
  "count_loop t n [] = n"
| "count_loop t n ((c, s) # ps) =
     (if ps_is_dead s then count_loop t n ps
      else if ps_team s = t then count_loop t (n + 1) ps else count_loop t n ps)"

definition arena7x7_count_alive_players :: "s_arena7x7_match \<Rightarrow> s_arena7x7_match" where
  "arena7x7_count_alive_players M = M\<lparr>
     mt_blue_alive := count_loop ARENA7X7_TEAM_BLUE 0 (mt_players M),
     mt_red_alive := count_loop ARENA7X7_TEAM_RED 0 (mt_players M)\<rparr>"

definition arena7x7_update_score_display :: "arena_env \<Rightarrow> uint32 \<Rightarrow> world \<Rightarrow> world" where
  "arena7x7_update_score_display E m w =
     (case um_find (aw_matches w) m of None \<Rightarrow> w | Some M \<Rightarrow>
      if mt_map_name M = '''' then w else
      let mapid = env_map_id E (mt_map_name M) in
      if mapid < 0 then w else
      case um_find (aw_mapdata w) mapid of None \<Rightarrow> w | Some md \<Rightarrow>
      let M' = arena7x7_count_alive_players M;
          w1 = upd_match m arena7x7_count_alive_players w;
          w2 = w1\<lparr>aw_mapdata := um_put mapid
                 (md\<lparr>bgscore_lion := mt_blue_alive M', bgscore_eagle := mt_red_alive M'\<rparr>) (aw_mapdata w1)\<rparr>
      in engine E (Clif_bg_updatescore mapid) w2)"

section \<open>Creating and joining\<close>

definition arena7x7_create_match :: "string option \<Rightarrow> world \<Rightarrow> uint32 \<times> world" where
  "arena7x7_create_match map_name w =
     (case map_name of
        None \<Rightarrow> (0, w)
      | Some name \<Rightarrow>
          if name = '''' then (0, w)
          else let new_id = aw_match_counter w + 1;
                   M = new_match\<lparr>mt_match_id := new_id, mt_map_name := name,
                         mt_status := ARENA7X7_MATCH_WAITING, mt_season := aw_current_season w\<rparr>
               in (new_id, w\<lparr>aw_match_counter := new_id, aw_matches := um_put new_id M (aw_matches w)\<rparr>))"

text \<open>The copy of a name through a zeroed buffer of \<open>NAME_LENGTH + 1\<close> bytes.\<close>

definition safe_name :: "string \<Rightarrow> string" where
  "safe_name s =
     (let buf = safestrncpy s (NAME_LENGTH + 1) in assign_buf buf (strnlen buf NAME_LENGTH))"

definition join_stats ::
    "arena_env \<Rightarrow> map_session_data \<Rightarrow> e_arena7x7_team \<Rightarrow> bool \<Rightarrow> s_arena7x7_player_stats" where
  "join_stats E sd team is_leader = new_player_stats\<lparr>
     ps_char_id := sd_char_id sd, ps_account_id := sd_account_id sd,
     ps_char_name := safe_name (sd_name sd), ps_team := team,
     ps_job_class := sd_class sd, ps_base_level := ucast (sd_base_level sd),
     ps_is_leader := is_leader, ps_is_deserter := False, ps_join_time := env_tick E Tk_add,
     ps_guild_id := word_of_int (sd_guild_id sd)\<rparr>"

text \<open>The guild's name for the player, and for the team when the team has no guild yet.\<close>

definition join_guild ::
    "arena_env \<Rightarrow> map_session_data \<Rightarrow> e_arena7x7_team \<Rightarrow>
     s_arena7x7_player_stats \<times> s_arena7x7_match \<Rightarrow> s_arena7x7_player_stats \<times> s_arena7x7_match" where
  "join_guild E sd team sM =
     (case sM of (s, M) \<Rightarrow>
      if sd_guild_id sd > 0 then
        (case env_guild_name E (sd_guild_id sd) of
           None \<Rightarrow> (s, M)
         | Some g \<Rightarrow>
             let gname = safe_name g;
                 gid = word_of_int (sd_guild_id sd);
                 s' = s\<lparr>ps_guild_name := gname\<rparr>;
                 M' = (if team = ARENA7X7_TEAM_BLUE \<and> mt_blue_guild_id M = 0
                       then M\<lparr>mt_blue_guild_id := gid, mt_blue_guild_name := gname\<rparr>
                       else if team = ARENA7X7_TEAM_RED \<and> mt_red_guild_id M = 0
                       then M\<lparr>mt_red_guild_id := gid, mt_red_guild_name := gname\<rparr>
                       else M)
             in (s', M'))
      else (s, M))"

definition arena7x7_add_player ::
    "arena_env \<Rightarrow> uint32 \<Rightarrow> map_session_data option \<Rightarrow> e_arena7x7_team \<Rightarrow> bool \<Rightarrow> world \<Rightarrow> bool \<times> world" where
  "arena7x7_add_player E match_id sd_ptr team is_leader w =
     (case sd_ptr of None \<Rightarrow> (False, w) | Some sd \<Rightarrow>
      if sd_name sd = '''' then (False, w) else
      case um_find (aw_matches w) match_id of None \<Rightarrow> (False, w) | Some M \<Rightarrow>
      if mt_status M \<noteq> ARENA7X7_MATCH_WAITING \<and> mt_status M \<noteq> ARENA7X7_MATCH_ACTIVE then (False, w) else
      if um_find (aw_player_match w) (sd_char_id sd) \<noteq> None then (False, w) else
      let (s, M1) = join_guild E sd team (join_stats E sd team is_leader, M);
          M2 = M1\<lparr>mt_players := um_put (sd_char_id sd) s (mt_players M1)\<rparr>;
          M3 = (if team = ARENA7X7_TEAM_BLUE then M2\<lparr>mt_blue_alive := mt_blue_alive M2 + 1\<rparr>
                else if team = ARENA7X7_TEAM_RED then M2\<lparr>mt_red_alive := mt_red_alive M2 + 1\<rparr>
                else M2)
      in (True, w\<lparr>aw_matches := um_put match_id M3 (aw_matches w),
                  aw_player_match := um_put (sd_char_id sd) match_id (aw_player_match w)\<rparr>))"

section \<open>Leaving\<close>

definition arena7x7_remove_player ::
    "arena_env \<Rightarrow> map_session_data option \<Rightarrow> bool \<Rightarrow> world \<Rightarrow> bool \<times> world" where
  "arena7x7_remove_player E sd_ptr deserter w =
     (case sd_ptr of None \<Rightarrow> (False, w) | Some sd \<Rightarrow>
      let c = sd_char_id sd in
      case um_find (aw_player_match w) c of None \<Rightarrow> (False, w) | Some match_id \<Rightarrow>
      case arena7x7_get_match match_id w of
        None \<Rightarrow> (False, w\<lparr>aw_player_match := um_erase c (aw_player_match w)\<rparr>)
      | Some (m, M) \<Rightarrow>
          let w1 = (case um_find (mt_players M) c of
                None \<Rightarrow> w
              | Some s \<Rightarrow>
                  let s1 = s\<lparr>ps_is_deserter := deserter\<rparr> in
                  if deserter \<and> mt_status M = ARENA7X7_MATCH_ACTIVE then
                    let s2 = s1\<lparr>ps_deaths := ps_deaths s1 + 1\<rparr>;
                        (_, s3, D) = arena7x7_update_ranking E c s2 False True False True (aw_db w)
                    in upd_match m (upd_stats c (\<lambda>_. s3)) (w\<lparr>aw_db := D\<rparr>)
                  else upd_match m (upd_stats c (\<lambda>_. s1)) w)
          in (True, w1\<lparr>aw_player_match := um_erase c (aw_player_match w1)\<rparr>))"

section \<open>Starting, finishing, cancelling\<close>

definition arena7x7_start_match :: "arena_env \<Rightarrow> uint32 \<Rightarrow> world \<Rightarrow> bool \<times> world" where
  "arena7x7_start_match E match_id w =
     (case arena7x7_get_match match_id w of None \<Rightarrow> (False, w) | Some (m, M) \<Rightarrow>
      if mt_status M \<noteq> ARENA7X7_MATCH_WAITING then (False, w)
      else (True, arena7x7_update_score_display E m
             (upd_match m (\<lambda>M. arena7x7_count_alive_players
                (M\<lparr>mt_status := ARENA7X7_MATCH_ACTIVE, mt_start_time := env_tick E Tk_start\<rparr>)) w)))"

definition finish_stamp ::
    "arena_env \<Rightarrow> e_arena7x7_team \<Rightarrow> uint16 \<Rightarrow> uint16 \<Rightarrow> s_arena7x7_match \<Rightarrow> s_arena7x7_match" where
  "finish_stamp E winner blue red M = M\<lparr>
     mt_status := ARENA7X7_MATCH_FINISHED, mt_winner_team := winner,
     mt_blue_score := blue, mt_red_score := red, mt_end_time := env_tick E Tk_finish_end,
     mt_duration_seconds := word_of_int
       (let d = DIFF_TICK (env_tick E Tk_finish_end) (mt_start_time M)
        in if d < 0 then - (- d div 1000) else d div 1000),
     mt_players := um_map (\<lambda>s. if ps_time_alive s = 0
       then s\<lparr>ps_time_alive := word_of_int (DIFF_TICK (env_tick E Tk_finish_now) (ps_join_time s))\<rparr>
       else s) (mt_players M)\<rparr>"

text \<open>The body of the ranking loop, for the player stored under \<open>c\<close>.\<close>

definition rank_player :: "arena_env \<Rightarrow> uint32 \<Rightarrow> e_arena7x7_team \<Rightarrow> uint32 \<Rightarrow> world \<Rightarrow> world" where
  "rank_player E m winner c w =
     (case um_find (aw_matches w) m of None \<Rightarrow> w | Some M \<Rightarrow>
      case um_find (mt_players M) c of None \<Rightarrow> w | Some s \<Rightarrow>
      if ps_is_deserter s \<and> um_find (aw_player_match w) (ps_char_id s) = None then w else
      let won = (if ps_is_deserter s then False else ps_team s = winner);
          lost = (if ps_is_deserter s then True else winner \<noteq> ARENA7X7_TEAM_NONE \<and> ps_team s \<noteq> winner);
          tie = (if ps_is_deserter s then False else winner = ARENA7X7_TEAM_NONE);
          (_, s', D) = arena7x7_update_ranking E (ps_char_id s) s won lost tie True (aw_db w)
      in upd_match m (upd_stats c (\<lambda>_. s')) (w\<lparr>aw_db := D\<rparr>))"

definition arena7x7_finish_match ::
    "arena_env \<Rightarrow> uint32 \<Rightarrow> e_arena7x7_team \<Rightarrow> uint16 \<Rightarrow> uint16 \<Rightarrow> world \<Rightarrow> bool \<times> world" where
  "arena7x7_finish_match E match_id winner blue red w =
     (case arena7x7_get_match match_id w of None \<Rightarrow> (False, w) | Some (m, M) \<Rightarrow>
      let M1 = finish_stamp E winner blue red M;
          w1 = upd_match m (finish_stamp E winner blue red) w;
          w2 = w1\<lparr>aw_db := snd (arena7x7_save_match E M1 (aw_db w1))\<rparr>;
          w3 = arena7x7_save_detailed_logs E match_id w2
      in (True, fold (rank_player E m winner) (map fst (um_iter (env_order E It_ranking) (mt_players M1))) w3))"

definition arena7x7_cancel_match :: "arena_env \<Rightarrow> uint32 \<Rightarrow> world \<Rightarrow> bool \<times> world" where
  "arena7x7_cancel_match E match_id w =
     (case arena7x7_get_match match_id w of None \<Rightarrow> (False, w) | Some (m, M) \<Rightarrow>
      if mt_status M = ARENA7X7_MATCH_WAITING then
        (True, w\<lparr>aw_player_match := um_erase_if (\<lambda>k. k = match_id) (aw_player_match w),
                 aw_matches := um_erase match_id (aw_matches w),
                 aw_match_counter := (if match_id = aw_match_counter w
                   then aw_match_counter w - 1 else aw_match_counter w)\<rparr>)
      else (True, upd_match m (\<lambda>M. M\<lparr>mt_status := ARENA7X7_MATCH_CANCELLED,
                                      mt_end_time := env_tick E Tk_cancel\<rparr>) w))"

definition arena7x7_set_guild_names ::
    "uint32 \<Rightarrow> string option \<Rightarrow> string option \<Rightarrow> uint32 \<Rightarrow> uint32 \<Rightarrow> world \<Rightarrow> bool \<times> world" where
  "arena7x7_set_guild_names match_id blue red blue_id red_id w =
     (case arena7x7_get_match match_id w of None \<Rightarrow> (False, w) | Some (m, M) \<Rightarrow>
      let set_blue = (\<lambda>M. case blue of
             Some n \<Rightarrow> if n \<noteq> '''' then M\<lparr>mt_blue_guild_name := safe_name n, mt_blue_guild_id := blue_id\<rparr> else M
           | None \<Rightarrow> M);
          set_red = (\<lambda>M. case red of
             Some n \<Rightarrow> if n \<noteq> '''' then M\<lparr>mt_red_guild_name := safe_name n, mt_red_guild_id := red_id\<rparr> else M
           | None \<Rightarrow> M)
      in (True, upd_match m (\<lambda>M. set_red (set_blue M)) w))"

text \<open>\<open>do_final_arena7x7\<close>: active matches are cancelled and saved, then everything is dropped.\<close>

definition do_final_arena7x7 :: "arena_env \<Rightarrow> world \<Rightarrow> world" where
  "do_final_arena7x7 E w =
     (let w1 = fold (\<lambda>(m, M) w.
             if mt_status M = ARENA7X7_MATCH_ACTIVE then
               let M' = M\<lparr>mt_status := ARENA7X7_MATCH_CANCELLED\<rparr>;
                   w' = upd_match m (\<lambda>_. M') w
               in w'\<lparr>aw_db := snd (arena7x7_save_match E M' (aw_db w'))\<rparr>
             else w) (um_iter (env_order E It_final) (aw_matches w)) w
      in w1\<lparr>aw_matches := [], aw_player_match := []\<rparr>)"

section \<open>The invariant of the arena\<close>

text \<open>
  A match is stored under its own id, its players under their own character ids; a character that is
  in a match according to \<open>arena7x7_player_match\<close> is among the players of a stored match;
  ids handed out are positive and not above the counter.
\<close>

definition match_ok :: "uint32 \<Rightarrow> s_arena7x7_match \<Rightarrow> bool" where
  "match_ok m M \<longleftrightarrow> mt_match_id M = m \<and> um_wf (mt_players M) \<and>
     (\<forall>c s. um_find (mt_players M) c = Some s \<longrightarrow> ps_char_id s = c)"

definition arena_wf :: "world \<Rightarrow> bool" where
  "arena_wf w \<longleftrightarrow> um_wf (aw_matches w) \<and> um_wf (aw_player_match w) \<and>
     (\<forall>m M. um_find (aw_matches w) m = Some M \<longrightarrow> match_ok m M \<and> 0 < m \<and> m \<le> aw_match_counter w) \<and>
     (\<forall>c m. um_find (aw_player_match w) c = Some m \<longrightarrow>
        (\<exists>M s. um_find (aw_matches w) m = Some M \<and> um_find (mt_players M) c = Some s))"

lemma arena_wf_start: "arena_wf start_world"
  by (simp add: arena_wf_def start_world_def umap_simps wf_intros)

lemma arena_wf_cong:
  "aw_matches w' = aw_matches w \<Longrightarrow> aw_player_match w' = aw_player_match w \<Longrightarrow>
   aw_match_counter w' = aw_match_counter w \<Longrightarrow> arena_wf w' = arena_wf w"
  by (simp add: arena_wf_def)

lemma arena_wf_match: "arena_wf w \<Longrightarrow> um_find (aw_matches w) m = Some M \<Longrightarrow> match_ok m M"
  by (simp add: arena_wf_def)

text \<open>Changing one match in place, when the change keeps its id and its players.\<close>

definition keeps_players :: "(s_arena7x7_match \<Rightarrow> s_arena7x7_match) \<Rightarrow> bool" where
  "keeps_players f \<longleftrightarrow> (\<forall>m M. match_ok m M \<longrightarrow> match_ok m (f M) \<and>
     (\<forall>c. um_find (mt_players M) c \<noteq> None \<longrightarrow> um_find (mt_players (f M)) c \<noteq> None))"

lemma keeps_playersD: "keeps_players f \<Longrightarrow> match_ok m M \<Longrightarrow> match_ok m (f M)"
  by (simp add: keeps_players_def)

lemma keeps_playersI:
  assumes "\<And>M. mt_match_id (f M) = mt_match_id M" "\<And>M. mt_players (f M) = mt_players M"
  shows "keeps_players f"
  using assms by (simp add: keeps_players_def match_ok_def)

lemma keeps_players_map:
  assumes id: "\<And>M. mt_match_id (f M) = mt_match_id M" and ps: "\<And>M. mt_players (f M) = um_map g (mt_players M)"
    and g: "\<And>s. ps_char_id (g s) = ps_char_id s"
  shows "keeps_players f"
  unfolding keeps_players_def match_ok_def id ps umap_simps
  using g by (auto intro: um_wf_map)

lemma keeps_players_comp: "keeps_players f \<Longrightarrow> keeps_players g \<Longrightarrow> keeps_players (\<lambda>M. g (f M))"
  unfolding keeps_players_def by blast

lemma keeps_players_stats:
  assumes "\<And>s. ps_char_id s = c \<Longrightarrow> ps_char_id (f s) = c"
  shows "keeps_players (upd_stats c f)"
  using assms
  by (auto simp: keeps_players_def match_ok_def umap_simps frame_simps wf_intros split: if_splits)

lemma arena_wf_upd_match:
  assumes wf: "arena_wf w" and f: "keeps_players f"
  shows "arena_wf (upd_match m f w)"
proof -
  have ok: "match_ok k M'"
    if "um_find (aw_matches (upd_match m f w)) k = Some M'" for k M'
    using that wf f by (auto simp: umap_simps arena_wf_def keeps_players_def split: if_splits)
  have link: "\<exists>M s. um_find (aw_matches (upd_match m f w)) k = Some M \<and> um_find (mt_players M) c = Some s"
    if pm: "um_find (aw_player_match w) c = Some k" for c k
  proof -
    obtain M s where M: "um_find (aw_matches w) k = Some M" "um_find (mt_players M) c = Some s"
      using wf pm unfolding arena_wf_def by blast
    have "\<exists>s. um_find (mt_players (f M)) c = Some s"
      using f M arena_wf_match [OF wf M(1)] by (fastforce simp: keeps_players_def)
    with M show ?thesis by (auto simp: umap_simps)
  qed
  have "um_wf (aw_matches (upd_match m f w))"
    using wf by (simp add: arena_wf_def upd_match_def wf_intros)
  moreover have "0 < k \<and> k \<le> aw_match_counter w"
    if "um_find (aw_matches (upd_match m f w)) k = Some M'" for k M'
    using that wf by (auto simp: umap_simps arena_wf_def split: if_splits)
  ultimately show ?thesis
    using ok link wf by (simp add: arena_wf_def frame_simps)
qed

lemma keeps_count_alive: "keeps_players arena7x7_count_alive_players"
  by (rule keeps_playersI) (simp_all add: arena7x7_count_alive_players_def)

lemma arena_wf_engine: "arena_wf (engine E c w) = arena_wf w"
  by (rule arena_wf_cong) (simp_all add: frame_simps)

lemma arena_wf_score_display: "arena_wf w \<Longrightarrow> arena_wf (arena7x7_update_score_display E m w)"
proof -
  assume "arena_wf w"
  then have "arena_wf (upd_match m arena7x7_count_alive_players w)"
    by (rule arena_wf_upd_match [OF _ keeps_count_alive])
  then have "arena_wf ((upd_match m arena7x7_count_alive_players w)\<lparr>aw_mapdata := x\<rparr>)" for x
    by (simp add: arena_wf_def)
  with \<open>arena_wf w\<close> show ?thesis
    by (simp add: arena7x7_update_score_display_def Let_def arena_wf_engine split: option.split)
qed

lemma get_match_iff: "arena7x7_get_match m w = Some (k, M) \<longleftrightarrow> k = m \<and> um_find (aw_matches w) m = Some M"
  by (auto simp: arena7x7_get_match_def)

lemma get_player_match_iff:
  "arena7x7_get_player_match c w = Some (m, M) \<longleftrightarrow>
   um_find (aw_player_match w) c = Some m \<and> um_find (aw_matches w) m = Some M"
  by (auto simp: arena7x7_get_player_match_def get_match_iff split: option.splits)

text \<open>With the invariant the lookup of a player finds a match exactly when the player is registered.\<close>

lemma player_match_found:
  assumes "arena_wf w" "um_find (aw_player_match w) c = Some m"
  obtains M s where "arena7x7_get_player_match c w = Some (m, M)" "um_find (mt_players M) c = Some s"
    "arena7x7_get_player_stats c w = Some s"
proof -
  obtain M s where M: "um_find (aw_matches w) m = Some M" "um_find (mt_players M) c = Some s"
    using assms unfolding arena_wf_def by blast
  with assms(2) have "arena7x7_get_player_match c w = Some (m, M)" by (simp add: get_player_match_iff)
  with M(2) show ?thesis by (intro that) (simp_all add: arena7x7_get_player_stats_def)
qed

section \<open>Every operation keeps the invariant\<close>

lemma word_succ_greater: "(n :: uint32) \<noteq> - 1 \<Longrightarrow> n < n + 1 \<and> 0 < n + 1"
proof -
  assume "n \<noteq> - 1"
  then have "1 + n \<noteq> 0" by (metis add.commute eq_neg_iff_add_eq_0)
  then have "unat (n + 1) = Suc (unat n)" using unatSuc [of n] by (simp add: add.commute)
  then show ?thesis by (simp add: word_less_nat_alt)
qed

lemma arena_wf_put_new:
  assumes wf: "arena_wf w" and none: "um_find (aw_matches w) n = None"
    and M: "match_ok n M" and n: "0 < n" "n \<le> cnt" "aw_match_counter w \<le> cnt"
  shows "arena_wf (w\<lparr>aw_match_counter := cnt, aw_matches := um_put n M (aw_matches w)\<rparr>)"
proof -
  have "\<exists>M' s. um_find (um_put n M (aw_matches w)) k = Some M' \<and> um_find (mt_players M') c = Some s"
    if pm: "um_find (aw_player_match w) c = Some k" for c k
  proof -
    obtain M' s where "um_find (aw_matches w) k = Some M'" "um_find (mt_players M') c = Some s"
      using wf pm unfolding arena_wf_def by blast
    with none show ?thesis by (auto simp: umap_simps)
  qed
  moreover have "match_ok k M' \<and> 0 < k \<and> k \<le> cnt" if "um_find (um_put n M (aw_matches w)) k = Some M'" for k M'
    using that wf M n by (auto simp: umap_simps arena_wf_def split: if_splits intro: order_trans)
  ultimately show ?thesis using wf by (simp add: arena_wf_def wf_intros)
qed

lemma fresh_id_free:
  assumes wf: "arena_wf w" and room: "aw_match_counter w \<noteq> - 1"
  shows "um_find (aw_matches w) (aw_match_counter w + 1) = None"
proof (rule ccontr)
  assume "um_find (aw_matches w) (aw_match_counter w + 1) \<noteq> None"
  then have "aw_match_counter w + 1 \<le> aw_match_counter w" using wf by (auto simp: arena_wf_def)
  with word_succ_greater [OF room] show False by (meson leD)
qed

lemma arena_wf_create:
  assumes wf: "arena_wf w" and room: "aw_match_counter w \<noteq> - 1"
  shows "arena_wf (snd (arena7x7_create_match name w))"
proof -
  let ?n = "aw_match_counter w + 1"
  have "match_ok ?n (new_match\<lparr>mt_match_id := ?n, mt_map_name := x,
      mt_status := ARENA7X7_MATCH_WAITING, mt_season := aw_current_season w\<rparr>)" for x
    by (simp add: match_ok_def new_match_def umap_simps wf_intros)
  from arena_wf_put_new [OF wf fresh_id_free [OF wf room] this, of ?n] word_succ_greater [OF room] wf
  show ?thesis
    by (simp add: arena7x7_create_match_def Let_def order_less_imp_le split: option.split)
qed

lemma join_guild_frame:
  assumes "join_guild E sd team (s, M) = (s', M')"
  shows "ps_char_id s' = ps_char_id s" "mt_match_id M' = mt_match_id M" "mt_players M' = mt_players M"
    "mt_status M' = mt_status M" "ps_team s' = ps_team s" "ps_is_dead s' = ps_is_dead s"
    "mt_blue_alive M' = mt_blue_alive M" "mt_red_alive M' = mt_red_alive M" "ps_deaths s' = ps_deaths s"
  using assms by (auto simp: join_guild_def Let_def split: option.splits if_splits)

text \<open>What a successful join leaves behind.\<close>

lemma add_player_cases:
  assumes "arena7x7_add_player E m sd_ptr team leader w = (ok, w')"
  obtains "ok = False" "w' = w"
  | sd M s M3 where "ok" "sd_ptr = Some sd" "sd_name sd \<noteq> ''''" "um_find (aw_matches w) m = Some M"
      "mt_status M = ARENA7X7_MATCH_WAITING \<or> mt_status M = ARENA7X7_MATCH_ACTIVE"
      "um_find (aw_player_match w) (sd_char_id sd) = None"
      "mt_match_id M3 = mt_match_id M" "mt_status M3 = mt_status M"
      "mt_players M3 = um_put (sd_char_id sd) s (mt_players M)"
      "ps_char_id s = sd_char_id sd" "ps_team s = team" "\<not> ps_is_dead s" "ps_deaths s = 0"
      "mt_blue_alive M3 = mt_blue_alive M + (if team = ARENA7X7_TEAM_BLUE then 1 else 0)"
      "mt_red_alive M3 = mt_red_alive M + (if team = ARENA7X7_TEAM_RED then 1 else 0)"
      "w' = w\<lparr>aw_matches := um_put m M3 (aw_matches w),
              aw_player_match := um_put (sd_char_id sd) m (aw_player_match w)\<rparr>"
proof (cases ok)
  case False
  with assms that(1) show ?thesis
    by (auto simp: arena7x7_add_player_def Let_def split: option.splits if_splits prod.splits)
next
  case True
  with assms obtain sd M where sd: "sd_ptr = Some sd" "sd_name sd \<noteq> ''''"
      "um_find (aw_matches w) m = Some M"
      "mt_status M = ARENA7X7_MATCH_WAITING \<or> mt_status M = ARENA7X7_MATCH_ACTIVE"
      "um_find (aw_player_match w) (sd_char_id sd) = None"
    by (auto simp: arena7x7_add_player_def Let_def split: option.splits if_splits)
  obtain s M1 where j: "join_guild E sd team (join_stats E sd team leader, M) = (s, M1)" by fastforce
  note f = join_guild_frame [OF j]
  let ?M2 = "M1\<lparr>mt_players := um_put (sd_char_id sd) s (mt_players M1)\<rparr>"
  let ?M3 = "if team = ARENA7X7_TEAM_BLUE then ?M2\<lparr>mt_blue_alive := mt_blue_alive ?M2 + 1\<rparr>
                else if team = ARENA7X7_TEAM_RED then ?M2\<lparr>mt_red_alive := mt_red_alive ?M2 + 1\<rparr> else ?M2"
  have st: "\<not> (mt_status M \<noteq> ARENA7X7_MATCH_WAITING \<and> mt_status M \<noteq> ARENA7X7_MATCH_ACTIVE)"
    using sd(4) by auto
  have "w' = w\<lparr>aw_matches := um_put m ?M3 (aw_matches w),
              aw_player_match := um_put (sd_char_id sd) m (aw_player_match w)\<rparr>"
    using assms sd(1,2,3,5) st by (simp add: arena7x7_add_player_def Let_def j split del: if_split)
  then show ?thesis
    by (rule that(2) [OF True sd(1-5), of ?M3 s, rotated -1]) (simp_all add: f join_stats_def new_player_stats_def)
qed

lemma arena_wf_add:
  assumes wf: "arena_wf w"
  shows "arena_wf (snd (arena7x7_add_player E m sd_ptr team leader w))"
proof -
  obtain ok w' where add: "arena7x7_add_player E m sd_ptr team leader w = (ok, w')" by fastforce
  from add show ?thesis
  proof (cases rule: add_player_cases)
    case 1
    with add wf show ?thesis by simp
  next
    case (2 sd M s M3)
    have M: "match_ok m M" "0 < m" "m \<le> aw_match_counter w" using wf 2(4) by (simp_all add: arena_wf_def)
    then have M3: "match_ok m M3" using 2 by (auto simp: match_ok_def umap_simps wf_intros)
    have link: "\<exists>M' s'. um_find (aw_matches w') k = Some M' \<and> um_find (mt_players M') c = Some s'"
      if pm: "um_find (aw_player_match w') c = Some k" for c k
    proof (cases "c = sd_char_id sd")
      case True
      with pm 2 show ?thesis by (auto simp: umap_simps)
    next
      case False
      with pm 2 have "um_find (aw_player_match w) c = Some k" by (simp add: umap_simps)
      then obtain M' s' where "um_find (aw_matches w) k = Some M'" "um_find (mt_players M') c = Some s'"
        using wf unfolding arena_wf_def by blast
      with 2 show ?thesis by (cases "k = m") (auto simp: umap_simps)
    qed
    have "match_ok k M' \<and> 0 < k \<and> k \<le> aw_match_counter w'" if "um_find (aw_matches w') k = Some M'" for k M'
      using that wf M M3 2 by (auto simp: umap_simps arena_wf_def split: if_splits)
    with link wf 2 add show ?thesis by (simp add: arena_wf_def wf_intros)
  qed
qed

lemma arena_wf_erase_player:
  "arena_wf w \<Longrightarrow> arena_wf (w\<lparr>aw_player_match := um_erase c (aw_player_match w)\<rparr>)"
  by (simp add: arena_wf_def umap_simps wf_intros)

lemma update_ranking_stats:
  "fst (snd (arena7x7_update_ranking E c s won lost tie cm D)) = count_desertion s"
  by (simp add: arena7x7_update_ranking_def Let_def split: prod.split)

lemma count_desertion_id [frame_simps]: "ps_char_id (count_desertion s) = ps_char_id s"
  by (simp add: count_desertion_def)

lemma ranking_case:
  "(case arena7x7_update_ranking E c s won lost tie cm D of (ok, s', D') \<Rightarrow> F s' D') =
   F (count_desertion s) (snd (snd (arena7x7_update_ranking E c s won lost tie cm D)))"
  by (simp add: case_prod_beta update_ranking_stats)

text \<open>Replacing the statistics of one stored player.\<close>

lemma arena_wf_put_stats:
  assumes wf: "arena_wf w" and M: "um_find (aw_matches w) m = Some M"
    and s: "um_find (mt_players M) c = Some s" and keep: "ps_char_id s' = ps_char_id s"
  shows "arena_wf (upd_match m (upd_stats c (\<lambda>_. s')) w)"
proof -
  have "ps_char_id s = c" using arena_wf_match [OF wf M] s by (simp add: match_ok_def)
  with keep have "keeps_players (upd_stats c (\<lambda>_. s'))" by (intro keeps_players_stats) simp
  with wf show ?thesis by (rule arena_wf_upd_match)
qed

lemma arena_wf_db: "arena_wf (w\<lparr>aw_db := D\<rparr>) = arena_wf w"
  by (simp add: arena_wf_def)

lemma arena_wf_remove:
  assumes wf: "arena_wf w"
  shows "arena_wf (snd (arena7x7_remove_player E sd_ptr deserter w))"
proof (cases sd_ptr)
  case None
  with wf show ?thesis by (simp add: arena7x7_remove_player_def)
next
  case (Some sd)
  let ?c = "sd_char_id sd"
  show ?thesis
  proof (cases "um_find (aw_player_match w) ?c")
    case None
    with Some wf show ?thesis by (simp add: arena7x7_remove_player_def Let_def)
  next
    case pm: (Some m)
    obtain M s where M: "um_find (aw_matches w) m = Some M" "um_find (mt_players M) ?c = Some s"
      using wf pm unfolding arena_wf_def by blast
    have "arena_wf (upd_match m (upd_stats ?c (\<lambda>_. s')) (w\<lparr>aw_db := D\<rparr>))"
      if "ps_char_id s' = ps_char_id s" for s' D
      using arena_wf_put_stats [of "w\<lparr>aw_db := D\<rparr>" m M ?c s s'] wf M that by (simp add: arena_wf_db)
    moreover have "arena_wf (upd_match m (upd_stats ?c (\<lambda>_. s')) w)"
      if "ps_char_id s' = ps_char_id s" for s'
      using arena_wf_put_stats [OF wf M that] .
    ultimately show ?thesis
      using Some pm M
      by (simp add: arena7x7_remove_player_def Let_def arena7x7_get_match_def ranking_case
          arena_wf_erase_player frame_simps)
  qed
qed

lemma arena_wf_start_match:
  assumes wf: "arena_wf w"
  shows "arena_wf (snd (arena7x7_start_match E m w))"
proof -
  have "keeps_players (\<lambda>M. arena7x7_count_alive_players (M\<lparr>mt_status := ARENA7X7_MATCH_ACTIVE,
      mt_start_time := env_tick E Tk_start\<rparr>))"
    by (rule keeps_playersI) (simp_all add: arena7x7_count_alive_players_def)
  from arena_wf_score_display [OF arena_wf_upd_match [OF wf this]] wf show ?thesis
    by (auto simp: arena7x7_start_match_def arena7x7_get_match_def split: option.split)
qed

lemma keeps_finish_stamp: "keeps_players (finish_stamp E winner blue red)"
proof (rule keeps_players_map)
  show "mt_match_id (finish_stamp E winner blue red M) = mt_match_id M" for M
    by (simp add: finish_stamp_def)
  show "mt_players (finish_stamp E winner blue red M) = um_map (\<lambda>s. if ps_time_alive s = 0
       then s\<lparr>ps_time_alive := word_of_int (DIFF_TICK (env_tick E Tk_finish_now) (ps_join_time s))\<rparr>
       else s) (mt_players M)" for M
    by (simp add: finish_stamp_def)
qed simp

lemma arena_wf_rank_player:
  assumes wf: "arena_wf w"
  shows "arena_wf (rank_player E m winner c w)"
proof (cases "um_find (aw_matches w) m")
  case None
  with wf show ?thesis by (simp add: rank_player_def)
next
  case M: (Some M)
  show ?thesis
  proof (cases "um_find (mt_players M) c")
    case None
    with M wf show ?thesis by (simp add: rank_player_def)
  next
    case s: (Some s)
    have "arena_wf (upd_match m (upd_stats c (\<lambda>_. count_desertion s)) (w\<lparr>aw_db := D\<rparr>))" for D
      using arena_wf_put_stats [of "w\<lparr>aw_db := D\<rparr>" m M c s "count_desertion s"] wf M s
      by (simp add: arena_wf_db frame_simps)
    then show ?thesis
      using M s wf
      by (auto simp: rank_player_def Let_def ranking_case)
  qed
qed

lemma arena_wf_finish:
  assumes wf: "arena_wf w"
  shows "arena_wf (snd (arena7x7_finish_match E m winner blue red w))"
proof -
  have "arena_wf (fold (rank_player E m winner) cs w')" if "arena_wf w'" for cs w'
    using that by (induction cs arbitrary: w') (simp_all add: arena_wf_rank_player)
  moreover have "arena_wf (arena7x7_save_detailed_logs E m w') = arena_wf w'" for w'
    by (rule arena_wf_cong) (simp_all add: frame_simps)
  moreover have "arena_wf (upd_match m (finish_stamp E winner blue red) w)"
    by (rule arena_wf_upd_match [OF wf keeps_finish_stamp])
  ultimately show ?thesis
    using wf by (simp add: arena7x7_finish_match_def arena7x7_get_match_def Let_def arena_wf_db split: option.split)
qed

lemma arena_wf_set_guild_names:
  assumes wf: "arena_wf w"
  shows "arena_wf (snd (arena7x7_set_guild_names m blue red bi ri w))"
proof -
  have "keeps_players (\<lambda>M. case n of Some n \<Rightarrow> if n \<noteq> '''' then M\<lparr>mt_blue_guild_name := safe_name n, mt_blue_guild_id := bi\<rparr> else M | None \<Rightarrow> M)"
    "keeps_players (\<lambda>M. case n of Some n \<Rightarrow> if n \<noteq> '''' then M\<lparr>mt_red_guild_name := safe_name n, mt_red_guild_id := ri\<rparr> else M | None \<Rightarrow> M)"
    for n by (rule keeps_playersI; simp split: option.split)+
  from arena_wf_upd_match [OF wf keeps_players_comp [OF this(1,2)]] wf show ?thesis
    by (simp add: arena7x7_set_guild_names_def arena7x7_get_match_def Let_def split: option.split)
qed

lemma arena_wf_final: "arena_wf (do_final_arena7x7 E w)"
  by (simp add: do_final_arena7x7_def Let_def arena_wf_def umap_simps wf_intros)

end
