(* ===== verification/ArenaStats.thy ===== *)
theory ArenaStats
  imports ArenaMatch
begin

text \<open>
  The statistics of a running match (\<open>arena7x7_record_*\<close> of
  \<open>src/src/map/arena7x7.cpp\<close>). Each function works on the match it is given a pointer to
  and does nothing unless that match is active; the callers apply it with \<open>upd_match\<close>.
\<close>

section \<open>Damage\<close>

definition damage_entry ::
    "t_tick \<Rightarrow> uint32 \<Rightarrow> uint32 \<Rightarrow> uint16 \<Rightarrow> uint32 \<Rightarrow> bool \<Rightarrow> s_arena7x7_damage_entry" where
  "damage_entry now attacker target skill dmg crit = \<lparr>de_attacker_id = attacker, de_target_id = target,
     de_skill_id = skill, de_damage = dmg, de_is_critical = crit, de_is_kill = False, de_timestamp = now\<rparr>"

definition attacker_stats :: "uint32 \<Rightarrow> s_arena7x7_player_stats \<Rightarrow> s_arena7x7_player_stats" where
  "attacker_stats dmg s = s\<lparr>ps_damage_done := ps_damage_done s + dmg,
     ps_top_damage := (if dmg > ps_top_damage s then dmg else ps_top_damage s)\<rparr>"

definition target_stats ::
    "t_tick \<Rightarrow> uint32 \<Rightarrow> uint16 \<Rightarrow> uint32 \<Rightarrow> s_arena7x7_player_stats \<Rightarrow> s_arena7x7_player_stats" where
  "target_stats now attacker skill dmg s = s\<lparr>ps_damage_received := ps_damage_received s + dmg,
     ps_recent_damage_taken :=
       filter (\<lambda>d. \<not> DIFF_TICK now (rd_timestamp d) > ARENA7X7_ASSIST_WINDOW)
         (ps_recent_damage_taken s @
           [\<lparr>rd_attacker_id = attacker, rd_skill_id = skill, rd_damage = dmg, rd_timestamp = now\<rparr>])\<rparr>"

text \<open>Posting an entry of the damage log to the two aggregates.\<close>

definition de_skill_key :: "s_arena7x7_damage_entry \<Rightarrow> uint64" where
  "de_skill_key e = skill_key (de_attacker_id e) (de_skill_id e)"

definition de_target_key :: "s_arena7x7_damage_entry \<Rightarrow> uint64" where
  "de_target_key e = pair_key (de_attacker_id e) (de_target_id e)"

definition post_by_skill ::
    "arena_env \<Rightarrow> s_arena7x7_damage_entry \<Rightarrow> s_arena7x7_damage_by_skill \<Rightarrow> s_arena7x7_damage_by_skill" where
  "post_by_skill E e d =
     (let d1 = (if ds_char_id d = 0
                then d\<lparr>ds_char_id := de_attacker_id e, ds_skill_id := de_skill_id e,
                       ds_skill_name := (if de_skill_id e > 0 then env_skill_name E (de_skill_id e) else ''Ataque Normal'')\<rparr>
                else d);
          d2 = d1\<lparr>ds_total_damage := ds_total_damage d1 + de_damage e, ds_hit_count := ds_hit_count d1 + 1\<rparr>;
          d3 = (if de_is_critical e then d2\<lparr>ds_critical_count := ds_critical_count d2 + 1\<rparr> else d2)
      in if de_damage e > ds_max_damage d3 then d3\<lparr>ds_max_damage := de_damage e\<rparr> else d3)"

definition post_by_target :: "s_arena7x7_damage_entry \<Rightarrow> s_arena7x7_damage_by_target \<Rightarrow> s_arena7x7_damage_by_target" where
  "post_by_target e d =
     (let d1 = (if dt_attacker_id d = 0
                then d\<lparr>dt_attacker_id := de_attacker_id e, dt_target_id := de_target_id e\<rparr> else d)
      in d1\<lparr>dt_total_damage := dt_total_damage d1 + de_damage e, dt_hit_count := dt_hit_count d1 + 1\<rparr>)"

definition arena7x7_record_damage ::
    "arena_env \<Rightarrow> uint32 \<Rightarrow> uint32 \<Rightarrow> uint16 \<Rightarrow> uint32 \<Rightarrow> bool \<Rightarrow> s_arena7x7_match \<Rightarrow> s_arena7x7_match" where
  "arena7x7_record_damage E attacker target skill dmg crit M =
     (if mt_status M \<noteq> ARENA7X7_MATCH_ACTIVE then M
      else let now = env_tick E Tk_record;
               e = damage_entry now attacker target skill dmg crit;
               M1 = M\<lparr>mt_damage_log := mt_damage_log M @ [e]\<rparr>;
               M2 = upd_stats attacker (attacker_stats dmg) M1;
               M3 = upd_stats target (target_stats now attacker skill dmg) M2
           in M3\<lparr>mt_damage_by_skill :=
                    ledger_post de_skill_key zero_damage_by_skill (post_by_skill E) e (mt_damage_by_skill M3),
                 mt_damage_by_target :=
                    ledger_post de_target_key zero_damage_by_target post_by_target e (mt_damage_by_target M3)\<rparr>)"

section \<open>Kills\<close>

text \<open>
  The characters other than the killer that hit the victim within the window, without duplicates;
  at most three of them, in the order the unordered set happens to have.
\<close>

definition assist_set :: "t_tick \<Rightarrow> uint32 \<Rightarrow> s_arena7x7_player_stats \<Rightarrow> uint32 list" where
  "assist_set now killer v = remdups (map rd_attacker_id
     (filter (\<lambda>rd. rd_attacker_id rd \<noteq> killer \<and>
        DIFF_TICK now (rd_timestamp rd) \<le> ARENA7X7_ASSIST_WINDOW) (ps_recent_damage_taken v)))"

definition kill_assists ::
    "arena_env \<Rightarrow> t_tick \<Rightarrow> uint32 \<Rightarrow> s_arena7x7_player_stats option \<Rightarrow> uint32 list" where
  "kill_assists E now killer v = (case v of None \<Rightarrow> []
     | Some v \<Rightarrow> take 3 (perm_by (env_order E It_assists) (assist_set now killer v)))"

definition die_stats :: "t_tick \<Rightarrow> t_tick \<Rightarrow> s_arena7x7_player_stats \<Rightarrow> s_arena7x7_player_stats" where
  "die_stats now alive_now s = s\<lparr>ps_recent_damage_taken := [], ps_deaths := ps_deaths s + 1,
     ps_current_streak := 0, ps_last_death_time := now,
     ps_time_alive := (if ps_time_alive s = 0
        then word_of_int (DIFF_TICK alive_now (ps_join_time s)) else ps_time_alive s)\<rparr>"

definition killer_stats :: "s_arena7x7_player_stats \<Rightarrow> s_arena7x7_player_stats" where
  "killer_stats s = (let streak = ps_current_streak s + 1 in
     s\<lparr>ps_kills := ps_kills s + 1, ps_current_streak := streak,
       ps_best_streak := (if streak > ps_best_streak s then streak else ps_best_streak s)\<rparr>)"

definition nth_or_zero :: "uint32 list \<Rightarrow> nat \<Rightarrow> uint32" where
  "nth_or_zero xs i = (if length xs > i then xs ! i else 0)"

definition arena7x7_record_kill ::
    "arena_env \<Rightarrow> uint32 \<Rightarrow> uint32 \<Rightarrow> uint16 \<Rightarrow> uint32 \<Rightarrow> s_arena7x7_match \<Rightarrow> s_arena7x7_match" where
  "arena7x7_record_kill E killer victim skill dmg M =
     (if mt_status M \<noteq> ARENA7X7_MATCH_ACTIVE then M
      else let now = env_tick E Tk_record;
               assists = kill_assists E now killer (um_find (mt_players M) victim);
               M1 = upd_stats victim (die_stats now now) M;
               M2 = upd_stats killer killer_stats M1;
               kill = \<lparr>ke_killer_id = killer, ke_victim_id = victim, ke_skill_id = skill,
                       ke_kill_damage = dmg, ke_assist1_id = nth_or_zero assists 0,
                       ke_assist2_id = nth_or_zero assists 1, ke_assist3_id = nth_or_zero assists 2,
                       ke_killer_streak = map_option ps_current_streak (um_find (mt_players M2) killer),
                       ke_timestamp = now\<rparr>;
               M3 = M2\<lparr>mt_kill_log := mt_kill_log M2 @ [kill]\<rparr>;
               M4 = fold (\<lambda>a. upd_stats a (\<lambda>s. s\<lparr>ps_assists := ps_assists s + 1\<rparr>)) assists M3
           in M4\<lparr>mt_damage_by_target := um_at (pair_key killer victim) zero_damage_by_target
                    (\<lambda>d. d\<lparr>dt_kill_count := dt_kill_count d + 1\<rparr>) (mt_damage_by_target M4),
                 mt_damage_by_skill := um_modify (skill_key killer skill)
                    (\<lambda>d. d\<lparr>ds_kill_count := ds_kill_count d + 1\<rparr>) (mt_damage_by_skill M4)\<rparr>)"

section \<open>Support\<close>

definition support_entry ::
    "t_tick \<Rightarrow> uint32 \<Rightarrow> uint32 \<Rightarrow> uint16 \<Rightarrow> e_arena7x7_support_type \<Rightarrow> uint32 \<Rightarrow> s_arena7x7_support_entry" where
  "support_entry now caster target skill type v = \<lparr>se_caster_id = caster, se_target_id = target,
     se_skill_id = skill, se_type = type, se_value = v, se_timestamp = now\<rparr>"

definition caster_stats ::
    "e_arena7x7_support_type \<Rightarrow> uint32 \<Rightarrow> s_arena7x7_player_stats \<Rightarrow> s_arena7x7_player_stats" where
  "caster_stats type v s =
     (let s1 = s\<lparr>ps_support_skills_used := ps_support_skills_used s + 1\<rparr>
      in if type = ARENA7X7_SUPPORT_HEAL then s1\<lparr>ps_healing_done := ps_healing_done s1 + v\<rparr>
         else if type = ARENA7X7_SUPPORT_BUFF then s1\<lparr>ps_buffs_given := ps_buffs_given s1 + 1\<rparr>
         else if type = ARENA7X7_SUPPORT_DEBUFF then s1\<lparr>ps_debuffs_given := ps_debuffs_given s1 + 1\<rparr>
         else s1)"

definition se_key :: "s_arena7x7_support_entry \<Rightarrow> uint64" where
  "se_key e = pair_key (se_caster_id e) (se_target_id e)"

definition post_support :: "s_arena7x7_support_entry \<Rightarrow> s_arena7x7_support_by_target \<Rightarrow> s_arena7x7_support_by_target" where
  "post_support e d =
     (let d1 = (if st_caster_id d = 0 then d\<lparr>st_caster_id := se_caster_id e, st_target_id := se_target_id e\<rparr> else d);
          d2 = (if se_type e = ARENA7X7_SUPPORT_HEAL then d1\<lparr>st_total_healing := st_total_healing d1 + se_value e\<rparr> else d1);
          d3 = (if se_type e = ARENA7X7_SUPPORT_BUFF then d2\<lparr>st_buff_count := st_buff_count d2 + 1\<rparr> else d2)
      in d3\<lparr>st_skill_count := st_skill_count d3 + 1\<rparr>)"

definition arena7x7_record_support ::
    "arena_env \<Rightarrow> uint32 \<Rightarrow> uint32 \<Rightarrow> uint16 \<Rightarrow> e_arena7x7_support_type \<Rightarrow> uint32 \<Rightarrow> s_arena7x7_match \<Rightarrow> s_arena7x7_match" where
  "arena7x7_record_support E caster target skill type v M =
     (if mt_status M \<noteq> ARENA7X7_MATCH_ACTIVE then M
      else let e = support_entry (env_tick E Tk_record) caster target skill type v;
               M1 = M\<lparr>mt_support_log := mt_support_log M @ [e]\<rparr>;
               M2 = upd_stats caster (caster_stats type v) M1;
               M3 = (if type = ARENA7X7_SUPPORT_HEAL \<and> target \<noteq> caster
                     then upd_stats target (\<lambda>s. s\<lparr>ps_healing_received := ps_healing_received s + v\<rparr>) M2 else M2)
           in M3\<lparr>mt_support_by_target :=
                    ledger_post se_key zero_support_by_target post_support e (mt_support_by_target M3)\<rparr>)"

section \<open>Items, SP and zeny\<close>

definition item_user_stats ::
    "e_arena7x7_item_type \<Rightarrow> uint32 \<Rightarrow> s_arena7x7_player_stats \<Rightarrow> s_arena7x7_player_stats" where
  "item_user_stats type item s =
     (let s1 = (case type of
            ARENA7X7_ITEM_HP \<Rightarrow> s\<lparr>ps_hp_potions := ps_hp_potions s + 1\<rparr>
          | ARENA7X7_ITEM_SP \<Rightarrow> s\<lparr>ps_sp_potions := ps_sp_potions s + 1\<rparr>
          | _ \<Rightarrow> s\<lparr>ps_other_items := ps_other_items s + 1\<rparr>)
      in if item = 715 then s1\<lparr>ps_yellow_gems := ps_yellow_gems s1 + 1\<rparr>
         else if item = 716 then s1\<lparr>ps_red_gems := ps_red_gems s1 + 1\<rparr>
         else if item = 717 then s1\<lparr>ps_blue_gems := ps_blue_gems s1 + 1\<rparr>
         else if item = 678 then s1\<lparr>ps_poison_bottles := ps_poison_bottles s1 + 1\<rparr>
         else s1)"

text \<open>\<open>item_name\<close> is \<open>None\<close> for a null pointer; \<open>now\<close> is what \<open>gettick\<close> returns in the call.\<close>

definition arena7x7_record_item_use ::
    "t_tick \<Rightarrow> uint32 \<Rightarrow> uint32 \<Rightarrow> uint32 \<Rightarrow> string option \<Rightarrow> e_arena7x7_item_type \<Rightarrow> uint32 \<Rightarrow>
     s_arena7x7_match \<Rightarrow> s_arena7x7_match" where
  "arena7x7_record_item_use now char_id target item name type v M =
     (if mt_status M \<noteq> ARENA7X7_MATCH_ACTIVE then M
      else upd_stats char_id (item_user_stats type item)
             (M\<lparr>mt_item_log := mt_item_log M @
                 [\<lparr>ie_char_id = char_id, ie_target_id = target, ie_item_id = item,
                   ie_item_name = (case name of Some n \<Rightarrow> n | None \<Rightarrow> ''''), ie_type = type,
                   ie_value = v, ie_timestamp = now\<rparr>]\<rparr>))"

definition arena7x7_record_sp_use :: "uint32 \<Rightarrow> uint32 \<Rightarrow> s_arena7x7_match \<Rightarrow> s_arena7x7_match" where
  "arena7x7_record_sp_use char_id sp_amount M =
     (if mt_status M \<noteq> ARENA7X7_MATCH_ACTIVE then M
      else upd_stats char_id (\<lambda>s. s\<lparr>ps_sp_consumed := ps_sp_consumed s + sp_amount\<rparr>) M)"

definition arena7x7_record_zeny_use :: "uint32 \<Rightarrow> uint32 \<Rightarrow> s_arena7x7_match \<Rightarrow> s_arena7x7_match" where
  "arena7x7_record_zeny_use char_id zeny M =
     (if mt_status M \<noteq> ARENA7X7_MATCH_ACTIVE then M
      else upd_stats char_id (\<lambda>s. s\<lparr>ps_zeny_consumed := ps_zeny_consumed s + zeny\<rparr>) M)"

end
