(* ===== verification/ArenaTomb.thy ===== *)
theory ArenaTomb
  imports ArenaStats
begin

text \<open>
  Permanent death in the arena (\<open>src/src/map/arena7x7.cpp\<close>): breaking a Cursed Circle, turning
  a dead player into a tombstone, and restoring tombstones. Calls into other modules are recorded in
  order by \<open>engine\<close>.
\<close>

section \<open>Cursed Circle\<close>

text \<open>The callback on a player of the map: a target held by this Shura is freed.\<close>

definition arena7x7_remove_cursedcircle_callback :: "arena_env \<Rightarrow> int \<Rightarrow> uint32 \<Rightarrow> world \<Rightarrow> world" where
  "arena7x7_remove_cursedcircle_callback E shura_id c w =
     (case um_find (aw_sessions w) c of None \<Rightarrow> w | Some target \<Rightarrow>
      case um_find (sd_sc target) ''SC_CURSEDCIRCLE_TARGET'' of None \<Rightarrow> w | Some val2 \<Rightarrow>
      if val2 = shura_id
      then engine E (Status_change_end c ''SC_CURSEDCIRCLE_TARGET'')
             (engine E (Clif_bladestop c (word_of_int shura_id)) w)
      else w)"

text \<open>\<open>map_foreachinmap(..., sd->m, BL_PC, ...)\<close> visits the players standing on the map.\<close>

definition players_on_map :: "arena_env \<Rightarrow> int \<Rightarrow> world \<Rightarrow> uint32 list" where
  "players_on_map E m w =
     map fst (filter (\<lambda>(c, sd). sd_m sd = m) (um_iter (env_order E It_cursed) (aw_sessions w)))"

definition arena7x7_remove_cursedcircle_targets :: "arena_env \<Rightarrow> map_session_data option \<Rightarrow> world \<Rightarrow> world" where
  "arena7x7_remove_cursedcircle_targets E sd_ptr w =
     (case sd_ptr of None \<Rightarrow> w | Some sd0 \<Rightarrow>
      let sd = sd_now w sd0 in
      if um_find (sd_sc sd) ''SC_CURSEDCIRCLE_ATKER'' = None then w
      else engine E (Status_change_end (sd_char_id sd0) ''SC_CURSEDCIRCLE_ATKER'')
             (fold (arena7x7_remove_cursedcircle_callback E (sd_id sd)) (players_on_map E (sd_m sd) w) w))"

section \<open>Turning into a tombstone\<close>

text \<open>The effects ended one by one before everything is cleared, in order.\<close>

definition tombstone_ends :: "string list" where
  "tombstone_ends = [''SC_DEVOTION'', ''SC__FEINTBOMB'', ''SC_CLOAKING'', ''SC_CLOAKINGEXCEED'',
     ''SC_CHASEWALK'', ''SC_CAMOUFLAGE'', ''SC_STEALTHFIELD'', ''SC_SUHIDE'', ''SC__INVISIBILITY'',
     ''SC_CURSEDCIRCLE_TARGET'']"

definition mark_dead :: "uint32 \<Rightarrow> world \<Rightarrow> world" where
  "mark_dead c w =
     (case arena7x7_get_player_match c w of None \<Rightarrow> w
      | Some (m, M) \<Rightarrow> upd_match m (upd_stats c (\<lambda>s. s\<lparr>ps_is_dead := True\<rparr>)) w)"

definition lay_down :: "map_session_data \<Rightarrow> map_session_data" where
  "lay_down sd = sd\<lparr>sd_hp := 0, sd_battle_hp := 0, sd_dead_sit := 1, sd_vd_dead_sit := 1\<rparr>"

text \<open>The part from the session's death state to the immobilising effect.\<close>

definition fix_dead :: "arena_env \<Rightarrow> uint32 \<Rightarrow> world \<Rightarrow> world" where
  "fix_dead E c w =
     fold (engine E)
       [Unit_stop_walking c, Unit_stop_attack c, Unit_skillcastcancel c, Clif_clearunit_area c,
        Clif_spawn c, Status_change_start c ''SC_STOP'' 1800000]
       (upd_sd c lay_down w)"

text \<open>The respawn timer: \<open>delete_timer(sd->respawn_tid, NULL)\<close>.\<close>

definition cancel_respawn :: "map_session_data \<Rightarrow> world \<Rightarrow> world" where
  "cancel_respawn sd0 w =
     (let sd = sd_now w sd0 in
      if sd_respawn_tid sd \<noteq> INVALID_TIMER
      then upd_sd (sd_char_id sd0) (\<lambda>sd. sd\<lparr>sd_respawn_tid := INVALID_TIMER\<rparr>)
             (w\<lparr>aw_timers := snd (delete_timer (sd_respawn_tid sd) None (aw_timers w))\<rparr>)
      else w)"

definition arena7x7_transform_to_tombstone :: "arena_env \<Rightarrow> map_session_data option \<Rightarrow> world \<Rightarrow> world" where
  "arena7x7_transform_to_tombstone E sd_ptr w =
     (case sd_ptr of None \<Rightarrow> w | Some sd \<Rightarrow>
      let c = sd_char_id sd in
      if arena7x7_get_player_stats c w = None then w
      else let w1 = mark_dead c w;
               w2 = fold (\<lambda>s. engine E (Status_change_end c s)) tombstone_ends w1;
               w3 = fix_dead E c (engine E (Status_change_clear c 3) w2);
               w4 = cancel_respawn sd w3;
               w5 = engine E (Clif_displaymessage c
                      ''[Arena 7x7] Voce foi eliminado! Aguarde o fim da partida.'') w4
           in case arena7x7_get_player_match c w5 of
                None \<Rightarrow> w5
              | Some (m, M) \<Rightarrow> arena7x7_update_score_display E m w5)"

section \<open>Restoring\<close>

definition mark_alive :: "uint32 \<Rightarrow> world \<Rightarrow> world" where
  "mark_alive c w =
     (case arena7x7_get_player_match c w of None \<Rightarrow> w
      | Some (m, M) \<Rightarrow> upd_match m (upd_stats c (\<lambda>s. s\<lparr>ps_is_dead := False\<rparr>)) w)"

definition arena7x7_restore_from_tombstone :: "arena_env \<Rightarrow> map_session_data option \<Rightarrow> world \<Rightarrow> world" where
  "arena7x7_restore_from_tombstone E sd_ptr w =
     (case sd_ptr of None \<Rightarrow> w | Some sd \<Rightarrow>
      let c = sd_char_id sd in
      fold (engine E)
        [Status_change_end c ''SC_STOP'', Status_change_end c ''SC_STONE'',
         Status_change_end c ''SC_ANKLE'', Status_change_end c ''SC_SILENCE'',
         Pc_disguise c 0, Status_percent_heal c 100 100,
         Clif_displaymessage c ''[Arena 7x7] Voce foi restaurado.'']
        (mark_alive c w))"

text \<open>The body of the loop over the players: dead and online ones are restored.\<close>

definition restore_one :: "arena_env \<Rightarrow> uint32 \<Rightarrow> uint32 \<Rightarrow> world \<Rightarrow> world" where
  "restore_one E m c w =
     (case um_find (aw_matches w) m of None \<Rightarrow> w | Some M \<Rightarrow>
      case um_find (mt_players M) c of None \<Rightarrow> w | Some s \<Rightarrow>
      if ps_is_dead s then
        (case um_find (aw_sessions w) c of
           Some sd \<Rightarrow> arena7x7_restore_from_tombstone E (Some sd) w
         | None \<Rightarrow> w)
      else w)"

definition arena7x7_restore_all_tombstones :: "arena_env \<Rightarrow> uint32 \<Rightarrow> world \<Rightarrow> world" where
  "arena7x7_restore_all_tombstones E match_id w =
     (case arena7x7_get_match match_id w of None \<Rightarrow> w
      | Some (m, M) \<Rightarrow>
          fold (restore_one E m) (map fst (um_iter (env_order E It_restore) (mt_players M))) w)"

end
