(* ===== verification/ArenaHooks.thy ===== *)
theory ArenaHooks
  imports ArenaTomb
begin

text \<open>
  The hooks other modules call during a match (\<open>arena7x7_on_*\<close>, \<open>arena7x7_track_*\<close>,
  \<open>arena7x7_log_*\<close> of \<open>src/src/map/arena7x7.cpp\<close>).
\<close>

section \<open>Damage\<close>

definition damage_source :: "block_list \<Rightarrow> map_session_data option" where
  "damage_source src =
     (case src of Bl_pc sd \<Rightarrow> Some sd
      | Bl_other _ \<Rightarrow> (case battle_get_master src of Bl_pc sd \<Rightarrow> Some sd | Bl_other _ \<Rightarrow> None))"

definition arena7x7_on_damage ::
    "arena_env \<Rightarrow> block_list option \<Rightarrow> block_list option \<Rightarrow> uint16 \<Rightarrow> int \<Rightarrow> bool \<Rightarrow> world \<Rightarrow> world" where
  "arena7x7_on_damage E src target skill_id dmg is_critical w =
     (case (src, target) of
        (Some src, Some (Bl_pc target_sd)) \<Rightarrow>
          if dmg \<le> 0 then w else
          (case damage_source src of None \<Rightarrow> w | Some src_sd \<Rightarrow>
           case arena7x7_get_player_match (sd_char_id src_sd) w of None \<Rightarrow> w | Some (m, M) \<Rightarrow>
           case arena7x7_get_player_match (sd_char_id target_sd) w of None \<Rightarrow> w | Some (tm, TM) \<Rightarrow>
           if mt_match_id TM \<noteq> mt_match_id M then w
           else upd_match m (arena7x7_record_damage E (sd_char_id src_sd) (sd_char_id target_sd)
                  skill_id (word_of_int dmg) is_critical) w)
      | _ \<Rightarrow> w)"

section \<open>Death\<close>

text \<open>
  The search for the killer in the recent damage: the loop keeps the newest entry within the window
  whose attacker is in the same match (strictly newer than the best so far, starting from 0).
\<close>

fun scan_killer ::
    "world \<Rightarrow> uint32 \<Rightarrow> t_tick \<Rightarrow> t_tick \<times> uint32 \<times> uint16 \<times> uint32 \<Rightarrow> s_arena7x7_recent_damage list \<Rightarrow>
     t_tick \<times> uint32 \<times> uint16 \<times> uint32" where
  "scan_killer w mid now best [] = best"
| "scan_killer w mid now (most_recent, killer, skill, dmg) (rd # rds) =
     scan_killer w mid now
       (if DIFF_TICK now (rd_timestamp rd) \<le> ARENA7X7_ASSIST_WINDOW then
          (case arena7x7_get_player_match (rd_attacker_id rd) w of
             None \<Rightarrow> (most_recent, killer, skill, dmg)
           | Some (am, AM) \<Rightarrow>
               if mt_match_id AM = mid \<and> rd_timestamp rd > most_recent
               then (rd_timestamp rd, rd_attacker_id rd, rd_skill_id rd, rd_damage rd)
               else (most_recent, killer, skill, dmg))
        else (most_recent, killer, skill, dmg)) rds"

text \<open>The last entry of a known killer, searched from the end.\<close>

definition last_hit :: "uint32 \<Rightarrow> s_arena7x7_recent_damage list \<Rightarrow> s_arena7x7_recent_damage option" where
  "last_hit killer rds = find (\<lambda>rd. rd_attacker_id rd = killer) (rev rds)"

text \<open>Killer, skill and damage a death is credited with.\<close>

definition credited_kill ::
    "arena_env \<Rightarrow> world \<Rightarrow> s_arena7x7_match \<Rightarrow> map_session_data option \<Rightarrow> uint32 \<Rightarrow> uint16 \<Rightarrow>
     uint32 \<times> uint16 \<times> uint32" where
  "credited_kill E w M killer victim_id skill_id =
     (let killer_id = (case killer of None \<Rightarrow> 0
            | Some k \<Rightarrow> (case arena7x7_get_player_match (sd_char_id k) w of
                 None \<Rightarrow> 0
               | Some (km, KM) \<Rightarrow> if mt_match_id KM \<noteq> mt_match_id M then 0 else sd_char_id k));
          recent = (case um_find (mt_players M) victim_id of None \<Rightarrow> [] | Some s \<Rightarrow> ps_recent_damage_taken s)
      in if killer_id = 0 then
           (case scan_killer w (mt_match_id M) (env_tick E Tk_death_scan) (0, killer_id, skill_id, 0) recent
            of (_, k, s, d) \<Rightarrow> (k, s, d))
         else (case last_hit killer_id recent of
             None \<Rightarrow> (killer_id, skill_id, 0)
           | Some rd \<Rightarrow> (killer_id, if skill_id = 0 then rd_skill_id rd else skill_id, rd_damage rd)))"

definition arena7x7_on_death ::
    "arena_env \<Rightarrow> map_session_data option \<Rightarrow> map_session_data option \<Rightarrow> uint16 \<Rightarrow> world \<Rightarrow> world" where
  "arena7x7_on_death E killer victim_ptr skill_id w =
     (case victim_ptr of None \<Rightarrow> w | Some victim \<Rightarrow>
      let v = sd_char_id victim in
      case arena7x7_get_player_match v w of None \<Rightarrow> w | Some (m, M) \<Rightarrow>
      if (case arena7x7_get_player_stats v w of None \<Rightarrow> False | Some s \<Rightarrow> ps_is_dead s) then w else
      let (k, s, d) = credited_kill E w M killer v skill_id;
          w1 = (if k > 0 then upd_match m (arena7x7_record_kill E k v s d) w
                else upd_match m (upd_stats v (die_stats (env_tick E Tk_death_time) (env_tick E Tk_death_alive))) w);
          w2 = arena7x7_remove_cursedcircle_targets E victim_ptr w1;
          w3 = arena7x7_transform_to_tombstone E victim_ptr w2;
          bg = sd_bg_id (sd_now w3 victim)
      in if bg = 0 then w3
         else case env_die_event E bg of
             None \<Rightarrow> w3
           | Some ev \<Rightarrow> if ev = '''' then w3 else engine E (Npc_event v ev) w3)"

section \<open>Support\<close>

definition arena7x7_on_heal ::
    "arena_env \<Rightarrow> map_session_data option \<Rightarrow> map_session_data option \<Rightarrow> uint16 \<Rightarrow> int \<Rightarrow> world \<Rightarrow> world" where
  "arena7x7_on_heal E caster target skill_id heal_amount w =
     (case (caster, target) of
        (Some cs, Some t) \<Rightarrow>
          if heal_amount \<le> 0 then w else
          (case arena7x7_get_player_match (sd_char_id cs) w of None \<Rightarrow> w | Some (m, M) \<Rightarrow>
           case arena7x7_get_player_match (sd_char_id t) w of None \<Rightarrow> w | Some (tm, TM) \<Rightarrow>
           if mt_match_id TM \<noteq> mt_match_id M then w
           else if \<not> arena7x7_same_team (sd_char_id cs) (sd_char_id t) w then w
           else upd_match m (arena7x7_record_support E (sd_char_id cs) (sd_char_id t) skill_id
                  ARENA7X7_SUPPORT_HEAL (word_of_int heal_amount)) w)
      | _ \<Rightarrow> w)"

definition arena7x7_on_buff ::
    "arena_env \<Rightarrow> map_session_data option \<Rightarrow> map_session_data option \<Rightarrow> uint16 \<Rightarrow> world \<Rightarrow> world" where
  "arena7x7_on_buff E caster target skill_id w =
     (case (caster, target) of
        (Some cs, Some t) \<Rightarrow>
          (case arena7x7_get_player_match (sd_char_id cs) w of None \<Rightarrow> w | Some (m, M) \<Rightarrow>
           case arena7x7_get_player_match (sd_char_id t) w of None \<Rightarrow> w | Some (tm, TM) \<Rightarrow>
           if mt_match_id TM \<noteq> mt_match_id M then w
           else upd_match m (arena7x7_record_support E (sd_char_id cs) (sd_char_id t) skill_id
                  (if \<not> arena7x7_same_team (sd_char_id cs) (sd_char_id t) w
                   then ARENA7X7_SUPPORT_DEBUFF else ARENA7X7_SUPPORT_BUFF) 0) w)
      | _ \<Rightarrow> w)"

section \<open>Items and SP\<close>

definition use_item_type :: "uint32 \<Rightarrow> e_arena7x7_item_type" where
  "use_item_type item =
     (if item \<in> {501, 502, 503, 504, 505, 506, 507, 508, 545, 546, 11500, 11501, 11502} then ARENA7X7_ITEM_HP
      else if item \<in> {509, 510} then ARENA7X7_ITEM_SP
      else ARENA7X7_ITEM_OTHER)"

definition arena7x7_on_item_use ::
    "arena_env \<Rightarrow> map_session_data option \<Rightarrow> map_session_data option \<Rightarrow> uint32 \<Rightarrow> string option \<Rightarrow> int \<Rightarrow>
     world \<Rightarrow> world" where
  "arena7x7_on_item_use E sd_ptr target item_id item_name v w =
     (case sd_ptr of None \<Rightarrow> w | Some sd \<Rightarrow>
      case arena7x7_get_player_match (sd_char_id sd) w of None \<Rightarrow> w | Some (m, M) \<Rightarrow>
      let target_id = (case target of None \<Rightarrow> 0
            | Some t \<Rightarrow> if sd_char_id t \<noteq> sd_char_id sd then sd_char_id t else 0)
      in upd_match m (arena7x7_record_item_use (env_tick E Tk_record) (sd_char_id sd) target_id item_id
           item_name (use_item_type item_id) (word_of_int v)) w)"

definition skill_requirement_items :: "uint32 list" where
  "skill_requirement_items = [990, 991, 992, 993, 994, 995, 996, 997, 6145, 12383,
     18000, 18001, 18002, 18003, 18004, 6146, 6147, 6210, 6211, 6212, 6213, 6214, 6215, 6216, 6217,
     7137, 7138, 1025, 1065, 6120, 6123, 716, 717, 757, 7049]"

definition arrow_items :: "uint32 list" where
  "arrow_items = [1750, 1751, 1752, 1753, 1754, 1755, 1756, 1757, 1762, 1765, 1767, 1770]"

definition tracked_items :: "uint32 list" where
  "tracked_items = [501, 502, 503, 504, 505, 506, 545, 546, 547, 522, 607, 608, 645, 656, 657,
     12422, 12423, 12424, 11547, 11548, 11549, 11500, 11501, 11502,
     509, 510, 511, 512, 12427, 12425, 12426, 523, 525, 526,
     12429, 12430, 12431, 12432, 12433, 12434, 12436, 12437,
     12114, 12115, 12116, 12117, 12118, 12119, 12120, 12121,
     12118, 12119, 12120, 12121, 12122, 12123, 12124, 12125,
     12004, 12005, 12006, 12007, 12008, 12009, 12010, 12011, 12012, 12013, 12014, 12015,
     678, 7135, 7136, 601, 602, 605, 12210, 12211, 12212, 12028, 12029, 12030, 12031]"

definition between :: "uint32 \<Rightarrow> uint32 \<Rightarrow> uint32 \<Rightarrow> bool" where
  "between lo hi i \<longleftrightarrow> i \<ge> lo \<and> i \<le> hi"

definition consume_item_type :: "uint32 \<Rightarrow> e_arena7x7_item_type" where
  "consume_item_type i =
     (if between 501 506 i \<or> i = 545 \<or> i = 546 \<or> i = 547 \<or> i = 522 \<or> i = 607 \<or> i = 645 \<or>
         i = 656 \<or> i = 657 \<or> between 11547 11549 i \<or> between 12392 12394 i \<or> between 12422 12424 i
      then ARENA7X7_ITEM_HP
      else if between 509 512 i \<or> i = 12427 \<or> i = 12425 \<or> i = 12426 then ARENA7X7_ITEM_SP
      else if i = 714 \<or> i = 715 \<or> i = 716 \<or> i = 717 then ARENA7X7_ITEM_GEMSTONE
      else if between 1750 1757 i \<or> i = 1762 \<or> i = 1765 \<or> i = 1767 \<or> i = 1770 \<or>
         between 13265 13268 i \<or> between 13277 13283 i then ARENA7X7_ITEM_THROWING
      else if between 1750 1770 i \<or> i = 1065 \<or> between 12004 12015 i then ARENA7X7_ITEM_ARROW
      else if i = 678 \<or> i = 7940 \<or> i = 6144 \<or> i = 12383 \<or> between 6145 6147 i \<or> i = 970 \<or>
         between 6210 6217 i then ARENA7X7_ITEM_CATALYST
      else if between 12114 12121 i \<or> between 12717 12724 i \<or> i = 12436 \<or> i = 12437 \<or>
         between 12429 12434 i then ARENA7X7_ITEM_FOOD
      else if i = 523 \<or> i = 525 \<or> i = 526 \<or> i = 11513 \<or> between 18000 18004 i \<or>
         between 7137 7138 i \<or> i = 6120 \<or> i = 6123 \<or> i = 6128 then ARENA7X7_ITEM_BUFF
      else ARENA7X7_ITEM_OTHER)"

fun item_type_name :: "e_arena7x7_item_type \<Rightarrow> string" where
  "item_type_name ARENA7X7_ITEM_HP = ''hp_potion''"
| "item_type_name ARENA7X7_ITEM_SP = ''sp_potion''"
| "item_type_name ARENA7X7_ITEM_GEMSTONE = ''gemstone''"
| "item_type_name ARENA7X7_ITEM_THROWING = ''throwing''"
| "item_type_name ARENA7X7_ITEM_ARROW = ''arrow''"
| "item_type_name ARENA7X7_ITEM_CATALYST = ''catalyst''"
| "item_type_name ARENA7X7_ITEM_FOOD = ''food''"
| "item_type_name ARENA7X7_ITEM_BUFF = ''buff''"
| "item_type_name _ = ''other''"

definition item_log_entry ::
    "t_tick \<Rightarrow> map_session_data \<Rightarrow> uint32 \<Rightarrow> string \<Rightarrow> uint16 \<Rightarrow> string \<Rightarrow> uint16 \<Rightarrow> s_arena7x7_item_log" where
  "item_log_entry now sd item name amount type skill = \<lparr>il_char_id = sd_char_id sd, il_char_name = sd_name sd,
     il_item_id = item, il_item_name = name, il_amount = amount, il_item_type = type,
     il_related_skill_id = skill, il_timestamp = now\<rparr>"

definition log_item :: "s_arena7x7_item_log \<Rightarrow> s_arena7x7_match \<Rightarrow> s_arena7x7_match" where
  "log_item l M = M\<lparr>mt_item_usage_log := mt_item_usage_log M @ [l]\<rparr>"

definition arena7x7_track_item_consume ::
    "arena_env \<Rightarrow> map_session_data option \<Rightarrow> uint32 \<Rightarrow> string option \<Rightarrow> int \<Rightarrow> world \<Rightarrow> world" where
  "arena7x7_track_item_consume E sd_ptr item_id item_name amount w =
     (case sd_ptr of None \<Rightarrow> w | Some sd \<Rightarrow>
      if amount \<le> 0 then w else
      case arena7x7_get_player_match (sd_char_id sd) w of None \<Rightarrow> w | Some (m, M) \<Rightarrow>
      if mt_status M \<noteq> ARENA7X7_MATCH_ACTIVE then w else
      let is_skill_requirement = item_id \<in> set skill_requirement_items;
          is_arrow = item_id \<in> set arrow_items;
          is_tracked = item_id \<in> set tracked_items
      in if \<not> is_skill_requirement \<and> \<not> is_arrow \<and> \<not> is_tracked then w else
      let c = sd_char_id sd;
          type = consume_item_type item_id;
          entry = item_log_entry (env_tick E Tk_log) sd item_id (case item_name of Some n \<Rightarrow> n | None \<Rightarrow> '''')
                    (word_of_int amount) (item_type_name type) 0;
          w1 = upd_match m (log_item entry) w;
          w2 = fold (\<lambda>i. upd_match m
                 (arena7x7_record_item_use (env_tick E (Tk_item i)) c 0 item_id item_name type 1))
                 [0..<nat amount] w1
      in if is_tracked \<and> \<not> is_skill_requirement
         then upd_match m (upd_stats c (\<lambda>s. s\<lparr>ps_total_items_used := ps_total_items_used s + word_of_int amount\<rparr>)) w2
         else w2)"

definition arena7x7_on_sp_consume :: "map_session_data option \<Rightarrow> int \<Rightarrow> world \<Rightarrow> world" where
  "arena7x7_on_sp_consume sd_ptr sp_amount w =
     (case sd_ptr of None \<Rightarrow> w | Some sd \<Rightarrow>
      if sp_amount \<le> 0 then w else
      case arena7x7_get_player_match (sd_char_id sd) w of None \<Rightarrow> w | Some (m, M) \<Rightarrow>
      upd_match m (arena7x7_record_sp_use (sd_char_id sd) (word_of_int sp_amount)) w)"

section \<open>Detailed logs\<close>

definition arena7x7_log_skill_damage ::
    "arena_env \<Rightarrow> map_session_data option \<Rightarrow> block_list option \<Rightarrow> uint16 \<Rightarrow> uint16 \<Rightarrow> int64 \<Rightarrow> int \<Rightarrow> bool \<Rightarrow>
     world \<Rightarrow> world" where
  "arena7x7_log_skill_damage E caster target skill_id skill_lv dmg hit_count is_critical w =
     (case (caster, target) of
        (Some cs, Some (Bl_pc t)) \<Rightarrow>
          if dmg \<le> 0 then w else
          (case arena7x7_get_player_match (sd_char_id cs) w of None \<Rightarrow> w | Some (m, M) \<Rightarrow>
           case arena7x7_get_player_match (sd_char_id t) w of None \<Rightarrow> w | Some (tm, TM) \<Rightarrow>
           if mt_match_id TM \<noteq> mt_match_id M then w
           else if arena7x7_same_team (sd_char_id cs) (sd_char_id t) w then w
           else upd_match m (\<lambda>M. M\<lparr>mt_skill_log := mt_skill_log M @
                  [\<lparr>sl_caster_id = sd_char_id cs, sl_caster_name = sd_name cs,
                    sl_target_id = sd_char_id t, sl_target_name = sd_name t, sl_skill_id = skill_id,
                    sl_skill_name = (if skill_id > 0 then env_skill_name E skill_id else ''Ataque Normal''),
                    sl_skill_level = skill_lv, sl_damage = word_of_int dmg, sl_hits = word_of_int hit_count,
                    sl_is_critical = is_critical, sl_is_kill = sd_battle_hp t \<le> 0,
                    sl_timestamp = env_tick E Tk_log\<rparr>]\<rparr>) w)
      | _ \<Rightarrow> w)"

definition count_skill :: "arena_env \<Rightarrow> uint16 \<Rightarrow> s_arena7x7_player_stats \<Rightarrow> s_arena7x7_player_stats" where
  "count_skill E skill_id s = s\<lparr>ps_total_skills_used := ps_total_skills_used s + 1,
     ps_skills_used_map := um_at skill_id (0, '''')
       (\<lambda>(n, name). (n + 1, if name = '''' then env_skill_name E skill_id else name)) (ps_skills_used_map s)\<rparr>"

definition arena7x7_count_skill_use :: "arena_env \<Rightarrow> map_session_data option \<Rightarrow> uint16 \<Rightarrow> world \<Rightarrow> world" where
  "arena7x7_count_skill_use E sd_ptr skill_id w =
     (case sd_ptr of None \<Rightarrow> w | Some sd \<Rightarrow>
      if skill_id = 0 then w else
      let c = sd_char_id sd in
      case arena7x7_get_player_match c w of None \<Rightarrow> w | Some (m, M) \<Rightarrow>
      upd_match m (upd_stats c (count_skill E skill_id)) w)"

definition add_items_used :: "uint32 \<Rightarrow> uint16 \<Rightarrow> s_arena7x7_match \<Rightarrow> s_arena7x7_match" where
  "add_items_used c amount =
     upd_stats c (\<lambda>s. s\<lparr>ps_total_items_used := ps_total_items_used s + ucast amount\<rparr>)"

definition arena7x7_log_skill_item_consumption ::
    "arena_env \<Rightarrow> map_session_data option \<Rightarrow> uint32 \<Rightarrow> uint16 \<Rightarrow> uint16 \<Rightarrow> string option \<Rightarrow> world \<Rightarrow> world" where
  "arena7x7_log_skill_item_consumption E sd_ptr item_id amount skill_id item_type w =
     (case sd_ptr of None \<Rightarrow> w | Some sd \<Rightarrow>
      if amount = 0 then w else
      case arena7x7_get_player_match (sd_char_id sd) w of None \<Rightarrow> w | Some (m, M) \<Rightarrow>
      let name = (case env_item_name E item_id of Some n \<Rightarrow> n | None \<Rightarrow> ''Unknown Item'');
          entry = item_log_entry (env_tick E Tk_log) sd item_id name amount
                    (case item_type of Some t \<Rightarrow> t | None \<Rightarrow> ''other'') skill_id
      in upd_match m (log_item entry) (upd_match m (add_items_used (sd_char_id sd) amount) w))"

definition arena7x7_log_arrow_consumption ::
    "arena_env \<Rightarrow> map_session_data option \<Rightarrow> uint32 \<Rightarrow> uint16 \<Rightarrow> int \<Rightarrow> world \<Rightarrow> world" where
  "arena7x7_log_arrow_consumption E sd_ptr arrow_id amount skill_id w =
     (case sd_ptr of None \<Rightarrow> w | Some sd \<Rightarrow>
      if amount = 0 then w else
      case arena7x7_get_player_match (sd_char_id sd) w of None \<Rightarrow> w | Some (m, M) \<Rightarrow>
      let name = (case env_item_name E arrow_id of Some n \<Rightarrow> n | None \<Rightarrow> ''Unknown Arrow'');
          entry = item_log_entry (env_tick E Tk_log) sd arrow_id name amount ''arrow'' (word_of_int skill_id)
      in upd_match m (log_item entry)
           (if skill_id = 0 then upd_match m (add_items_used (sd_char_id sd) amount) w else w))"

definition attack_entry ::
    "map_session_data \<Rightarrow> map_session_data \<Rightarrow> int64 \<Rightarrow> bool \<Rightarrow> bool \<Rightarrow> s_arena7x7_attack_log \<Rightarrow> s_arena7x7_attack_log" where
  "attack_entry a t dmg is_critical is_miss e =
     (let e1 = (if al_attacker_id e = 0
                then \<lparr>al_attacker_id = sd_char_id a, al_attacker_name = sd_name a,
                      al_target_id = sd_char_id t, al_target_name = sd_name t,
                      al_total_damage = 0, al_hit_count = 0, al_critical_count = 0, al_miss_count = 0\<rparr>
                else e)
      in if is_miss then e1\<lparr>al_miss_count := al_miss_count e1 + 1\<rparr>
         else let e2 = e1\<lparr>al_hit_count := al_hit_count e1 + 1, al_total_damage := al_total_damage e1 + dmg\<rparr>
              in if is_critical then e2\<lparr>al_critical_count := al_critical_count e2 + 1\<rparr> else e2)"

definition arena7x7_log_normal_attack ::
    "map_session_data option \<Rightarrow> block_list option \<Rightarrow> int64 \<Rightarrow> bool \<Rightarrow> bool \<Rightarrow> world \<Rightarrow> world" where
  "arena7x7_log_normal_attack attacker target dmg is_critical is_miss w =
     (case (attacker, target) of
        (Some a, Some (Bl_pc t)) \<Rightarrow>
          (case arena7x7_get_player_match (sd_char_id a) w of None \<Rightarrow> w | Some (m, M) \<Rightarrow>
           case arena7x7_get_player_match (sd_char_id t) w of None \<Rightarrow> w | Some (tm, TM) \<Rightarrow>
           if mt_match_id TM \<noteq> mt_match_id M then w
           else if arena7x7_same_team (sd_char_id a) (sd_char_id t) w then w
           else upd_match m (\<lambda>M. M\<lparr>mt_attack_log := um_at (pair_key (sd_char_id a) (sd_char_id t)) zero_attack_log
                  (attack_entry a t dmg is_critical is_miss) (mt_attack_log M)\<rparr>) w)
      | _ \<Rightarrow> w)"

end
