(* ===== verification/ArenaCalls.thy ===== *)
theory ArenaCalls
  imports ArenaHooks
begin

text \<open>
  Where the rest of the server calls the arena: the script commands (\<open>BUILDIN_FUNC(arena7x7_*)\<close>
  of \<open>src/src/map/script.cpp\<close>) and the code added to \<open>status_damage\<close>,
  \<open>status_revive\<close>, \<open>pc_setpos\<close>, \<open>pc_dead\<close>, \<open>bg_member_respawn\<close> and
  \<open>bg_team_warp\<close>. A script number is an integer; the attached player of a script is
  \<open>None\<close> when there is none.
\<close>

section \<open>Script commands\<close>

datatype script_value = S_int int | S_str string

definition bool_int :: "bool \<Rightarrow> script_value" where
  "bool_int b = S_int (if b then 1 else 0)"

definition buildin_arena7x7_updatescore :: "arena_env \<Rightarrow> int \<Rightarrow> world \<Rightarrow> script_value \<times> world" where
  "buildin_arena7x7_updatescore E mid w =
     (let match_id = word_of_int mid in
      case arena7x7_get_match match_id w of
        None \<Rightarrow> (S_int 0, w)
      | Some (m, M) \<Rightarrow> (S_int 1, arena7x7_update_score_display E m w))"

definition buildin_arena7x7_getalive :: "int \<Rightarrow> int \<Rightarrow> world \<Rightarrow> script_value \<times> world" where
  "buildin_arena7x7_getalive mid team w =
     (let match_id = word_of_int mid in
      case arena7x7_get_match match_id w of
        None \<Rightarrow> (S_int 0, w)
      | Some (m, M) \<Rightarrow>
          let M' = arena7x7_count_alive_players M
          in (S_int (if team = 1 then uint (mt_blue_alive M') else if team = 2 then uint (mt_red_alive M') else 0),
              upd_match m arena7x7_count_alive_players w))"

definition buildin_arena7x7_isplayerdead :: "int \<Rightarrow> world \<Rightarrow> script_value" where
  "buildin_arena7x7_isplayerdead mid w = bool_int (arena7x7_is_player_dead (word_of_int mid) w)"

text \<open>The loop of \<open>arena7x7_restoreall\<close>: it counts the players it restores.\<close>

definition restoreall_one :: "arena_env \<Rightarrow> uint32 \<Rightarrow> uint32 \<Rightarrow> int \<times> world \<Rightarrow> int \<times> world" where
  "restoreall_one E m c nw =
     (case nw of (n, w) \<Rightarrow>
      case um_find (aw_matches w) m of None \<Rightarrow> (n, w) | Some M \<Rightarrow>
      case um_find (mt_players M) c of None \<Rightarrow> (n, w) | Some s \<Rightarrow>
      if ps_is_dead s then
        (case um_find (aw_sessions w) (ps_char_id s) of
           Some sd \<Rightarrow> (n + 1, arena7x7_restore_from_tombstone E (Some sd) w)
         | None \<Rightarrow> (n, w))
      else (n, w))"

definition buildin_arena7x7_restoreall :: "arena_env \<Rightarrow> int \<Rightarrow> world \<Rightarrow> script_value \<times> world" where
  "buildin_arena7x7_restoreall E mid w =
     (case arena7x7_get_match (word_of_int mid) w of
        None \<Rightarrow> (S_int 0, w)
      | Some (m, M) \<Rightarrow>
          (case fold (restoreall_one E m) (map fst (um_iter (env_order E It_restore) (mt_players M))) (0, w)
           of (n, w') \<Rightarrow> (S_int n, w')))"

definition buildin_arena7x7_getguildname :: "int \<Rightarrow> int \<Rightarrow> world \<Rightarrow> script_value" where
  "buildin_arena7x7_getguildname mid team w =
     (case arena7x7_get_match (word_of_int mid) w of
        None \<Rightarrow> S_str ''''
      | Some (m, M) \<Rightarrow> S_str (if team = 1 then mt_blue_guild_name M
          else if team = 2 then mt_red_guild_name M else ''''))"

definition buildin_arena7x7_create :: "string \<Rightarrow> world \<Rightarrow> script_value \<times> world" where
  "buildin_arena7x7_create map_name w =
     (case arena7x7_create_match (Some map_name) w of (mid, w') \<Rightarrow> (S_int (uint mid), w'))"

definition buildin_arena7x7_join ::
    "arena_env \<Rightarrow> int \<Rightarrow> int \<Rightarrow> int \<Rightarrow> map_session_data option \<Rightarrow> world \<Rightarrow> script_value \<times> world" where
  "buildin_arena7x7_join E mid team leader rid w =
     (case rid of None \<Rightarrow> (S_int 0, w) | Some sd \<Rightarrow>
      case arena7x7_add_player E (word_of_int mid) (Some sd) (team_cast team) (leader \<noteq> 0) w of
        (r, w') \<Rightarrow> (bool_int r, w'))"

definition buildin_arena7x7_leave ::
    "arena_env \<Rightarrow> int \<Rightarrow> map_session_data option \<Rightarrow> world \<Rightarrow> script_value \<times> world" where
  "buildin_arena7x7_leave E deserter rid w =
     (case rid of None \<Rightarrow> (S_int 0, w) | Some sd \<Rightarrow>
      case arena7x7_remove_player E (Some sd) (deserter \<noteq> 0) w of (r, w') \<Rightarrow> (bool_int r, w'))"

definition buildin_arena7x7_start :: "arena_env \<Rightarrow> int \<Rightarrow> world \<Rightarrow> script_value \<times> world" where
  "buildin_arena7x7_start E mid w =
     (case arena7x7_start_match E (word_of_int mid) w of (r, w') \<Rightarrow> (bool_int r, w'))"

definition buildin_arena7x7_finish ::
    "arena_env \<Rightarrow> int \<Rightarrow> int \<Rightarrow> int \<Rightarrow> int \<Rightarrow> world \<Rightarrow> script_value \<times> world" where
  "buildin_arena7x7_finish E mid winner blue red w =
     (case arena7x7_finish_match E (word_of_int mid) (team_cast winner) (word_of_int blue) (word_of_int red) w of
        (r, w') \<Rightarrow> (bool_int r, w'))"

definition buildin_arena7x7_cancel :: "arena_env \<Rightarrow> int \<Rightarrow> world \<Rightarrow> script_value \<times> world" where
  "buildin_arena7x7_cancel E mid w =
     (case arena7x7_cancel_match E (word_of_int mid) w of (r, w') \<Rightarrow> (bool_int r, w'))"

section \<open>Calls from the game engine\<close>

text \<open>\<open>status_damage\<close>: damage is reported when there is a source and HP were lost.\<close>

definition status_damage_arena ::
    "arena_env \<Rightarrow> block_list option \<Rightarrow> block_list option \<Rightarrow> int \<Rightarrow> uint16 \<Rightarrow> world \<Rightarrow> world" where
  "status_damage_arena E src target hp skill_id w =
     (if src \<noteq> None \<and> target \<noteq> None \<and> hp > 0
      then arena7x7_on_damage E src target skill_id hp False w else w)"

text \<open>\<open>status_damage\<close>: the end of a player's death.\<close>

definition status_damage_death ::
    "arena_env \<Rightarrow> block_list option \<Rightarrow> map_session_data \<Rightarrow> uint16 \<Rightarrow> world \<Rightarrow> world" where
  "status_damage_death E src sd skill_id w =
     (if sd_bg_id sd \<noteq> 0 \<and> arena7x7_is_in_match (sd_char_id sd) w then
        if \<not> arena7x7_is_player_dead (sd_char_id sd) w then
          arena7x7_on_death E (case src of None \<Rightarrow> None | Some b \<Rightarrow> damage_source b) (Some sd) skill_id w
        else w
      else if sd_bg_id sd \<noteq> 0 then
        (case env_die_event E (sd_bg_id sd) of
           None \<Rightarrow> w
         | Some ev \<Rightarrow> if ev = '''' then w else engine E (Npc_event (sd_char_id sd) ev) w)
      else w)"

text \<open>\<open>status_revive\<close>: a player dead in a match is not revived.\<close>

definition status_revive_blocked :: "uint32 \<Rightarrow> world \<Rightarrow> bool" where
  "status_revive_blocked char_id w = arena7x7_is_player_dead char_id w"

text \<open>
  \<open>pc_dead\<close>: with a battleground that has a cemetery, a player in a match dies in the arena's
  way without killer and skill, and the death counts as cancelled (\<open>Some\<close> the returned 0);
  otherwise \<open>pc_dead\<close> goes on (\<open>None\<close>).
\<close>

definition pc_dead_arena :: "arena_env \<Rightarrow> bool \<Rightarrow> map_session_data \<Rightarrow> world \<Rightarrow> nat option \<times> world" where
  "pc_dead_arena E has_cemetery sd w =
     (if sd_bg_id sd \<noteq> 0 \<and> has_cemetery \<and> arena7x7_is_in_match (sd_char_id sd) w then
        if arena7x7_is_player_dead (sd_char_id sd) w then (Some 0, w)
        else (Some 0, arena7x7_on_death E None (Some sd) 0 w)
      else (None, w))"

text \<open>\<open>pc_setpos\<close>: a warp restores and removes the player; leaving an active match is desertion.\<close>

definition pc_setpos_arena :: "arena_env \<Rightarrow> map_session_data \<Rightarrow> world \<Rightarrow> world" where
  "pc_setpos_arena E sd w =
     (if arena7x7_is_in_match (sd_char_id sd) w then
        let w1 = (if arena7x7_is_player_dead (sd_char_id sd) w
                  then arena7x7_restore_from_tombstone E (Some sd) w else w);
            is_deserter = (case arena7x7_get_player_match (sd_char_id sd) w1 of
                 None \<Rightarrow> False
               | Some (m, M) \<Rightarrow> mt_status M = ARENA7X7_MATCH_ACTIVE)
        in snd (arena7x7_remove_player E (Some sd) is_deserter w1)
      else w)"

text \<open>\<open>bg_member_respawn\<close> reports a player in a match as handled; \<open>bg_team_warp\<close> skips tombstones.\<close>

definition bg_member_respawn_arena :: "map_session_data option \<Rightarrow> world \<Rightarrow> bool option" where
  "bg_member_respawn_arena sd_ptr w =
     (case sd_ptr of None \<Rightarrow> Some False | Some sd \<Rightarrow>
      if sd_bg_id sd = 0 \<or> sd_dead_sit sd \<noteq> 1 then Some False
      else if arena7x7_is_in_match (sd_char_id sd) w then Some True
      else None)"

definition bg_team_warp_arena :: "arena_env \<Rightarrow> map_session_data list \<Rightarrow> world \<Rightarrow> world" where
  "bg_team_warp_arena E members w =
     fold (\<lambda>sd w. if arena7x7_is_player_dead (sd_char_id sd) w then w else pc_setpos_arena E sd w) members w"

end
