(* ===== verification/ArenaSystem.thy ===== *)
theory ArenaSystem
  imports ArenaCalls
begin

text \<open>
  The arena as a state machine: \<open>match_step\<close> is what can happen to a stored match,
  \<open>arena_step\<close> one call of an operation or hook by the rest of the server. Every arena step is
  a sequence of match steps on each match (a simulation), so a property of matches kept by
  \<open>match_step\<close> holds of every match of every reachable state.
\<close>

section \<open>Steps of a match\<close>

text \<open>The statistics a joining player starts with.\<close>

definition fresh_stats :: "uint32 \<Rightarrow> s_arena7x7_player_stats \<Rightarrow> bool" where
  "fresh_stats c s \<longleftrightarrow> ps_char_id s = c \<and> \<not> ps_is_dead s \<and> \<not> ps_is_deserter s \<and> ps_deaths s = 0 \<and>
     ps_kills s = 0 \<and> ps_current_streak s = 0 \<and> ps_best_streak s = 0 \<and> ps_recent_damage_taken s = []"

definition in_match :: "s_arena7x7_match \<Rightarrow> uint32 \<Rightarrow> bool" where
  "in_match M c \<longleftrightarrow> um_find (mt_players M) c \<noteq> None"

inductive match_step :: "s_arena7x7_match \<Rightarrow> s_arena7x7_match \<Rightarrow> bool" where
  ms_damage: "in_match M a \<Longrightarrow> in_match M t \<Longrightarrow> match_step M (arena7x7_record_damage E a t s d b M)"
| ms_kill: "in_match M k \<Longrightarrow> in_match M v \<Longrightarrow> match_step M (arena7x7_record_kill E k v s d M)"
| ms_support: "in_match M c \<Longrightarrow> in_match M t \<Longrightarrow> match_step M (arena7x7_record_support E c t s type v M)"
| ms_item: "match_step M (arena7x7_record_item_use now c t i name ity v M)"
| ms_sp: "match_step M (arena7x7_record_sp_use c v M)"
| ms_die: "match_step M (upd_stats c (die_stats t1 t2) M)"
| ms_dead: "match_step M (upd_stats c (\<lambda>s. s\<lparr>ps_is_dead := b\<rparr>) M)"
| ms_desert: "match_step M (upd_stats c (\<lambda>s. s\<lparr>ps_is_deserter := b\<rparr>) M)"
| ms_deaths: "match_step M (upd_stats c (\<lambda>s. s\<lparr>ps_deaths := n\<rparr>) M)"
| ms_items_used: "match_step M (upd_stats c (\<lambda>s. s\<lparr>ps_total_items_used := ps_total_items_used s + u\<rparr>) M)"
| ms_skill_use: "match_step M (upd_stats c (count_skill E sk) M)"
| ms_count: "match_step M (arena7x7_count_alive_players M)"
| ms_join: "mt_status M = ARENA7X7_MATCH_WAITING \<or> mt_status M = ARENA7X7_MATCH_ACTIVE \<Longrightarrow> fresh_stats c s \<Longrightarrow>
    match_step M (M\<lparr>mt_players := um_put c s (mt_players M), mt_blue_alive := x, mt_red_alive := y\<rparr>)"
| ms_blue_guild: "match_step M (M\<lparr>mt_blue_guild_id := i, mt_blue_guild_name := name\<rparr>)"
| ms_red_guild: "match_step M (M\<lparr>mt_red_guild_id := i, mt_red_guild_name := name\<rparr>)"
| ms_start: "mt_status M = ARENA7X7_MATCH_WAITING \<Longrightarrow>
    match_step M (M\<lparr>mt_status := ARENA7X7_MATCH_ACTIVE, mt_start_time := now\<rparr>)"
| ms_finish: "match_step M (finish_stamp E winner blue red M)"
| ms_cancel: "mt_status M \<noteq> ARENA7X7_MATCH_WAITING \<Longrightarrow>
    match_step M (M\<lparr>mt_status := ARENA7X7_MATCH_CANCELLED, mt_end_time := now\<rparr>)"
| ms_log_item: "match_step M (log_item l M)"
| ms_log_skill: "in_match M (sl_caster_id e) \<Longrightarrow> in_match M (sl_target_id e) \<Longrightarrow>
    match_step M (M\<lparr>mt_skill_log := mt_skill_log M @ [e]\<rparr>)"
| ms_log_attack: "in_match M (sd_char_id a) \<Longrightarrow> in_match M (sd_char_id p) \<Longrightarrow>
    match_step M (M\<lparr>mt_attack_log := um_at (pair_key (sd_char_id a) (sd_char_id p)) zero_attack_log
      (attack_entry a p dmg cr mi) (mt_attack_log M)\<rparr>)"

abbreviation match_steps :: "s_arena7x7_match \<Rightarrow> s_arena7x7_match \<Rightarrow> bool" where
  "match_steps \<equiv> match_step\<^sup>*\<^sup>*"

text \<open>A match right after \<open>arena7x7_create_match\<close>.\<close>

definition new_match_at :: "uint32 \<Rightarrow> s_arena7x7_match \<Rightarrow> bool" where
  "new_match_at m M \<longleftrightarrow> (\<exists>name season. M = new_match\<lparr>mt_match_id := m, mt_map_name := name,
     mt_status := ARENA7X7_MATCH_WAITING, mt_season := season\<rparr>)"

section \<open>The simulation\<close>

definition evolves :: "world \<Rightarrow> world \<Rightarrow> bool" where
  "evolves w w' \<longleftrightarrow> (\<forall>m M'. um_find (aw_matches w') m = Some M' \<longrightarrow>
     (\<exists>M. um_find (aw_matches w) m = Some M \<and> match_steps M M'))"

text \<open>The same when new matches may appear under unused ids.\<close>

definition evolves_new :: "world \<Rightarrow> world \<Rightarrow> bool" where
  "evolves_new w w' \<longleftrightarrow> (\<forall>m M'. um_find (aw_matches w') m = Some M' \<longrightarrow>
     (case um_find (aw_matches w) m of
        Some M \<Rightarrow> match_steps M M'
      | None \<Rightarrow> \<exists>M. new_match_at m M \<and> match_steps M M'))"

lemma evolves_evolves_new: "evolves w w' \<Longrightarrow> evolves_new w w'"
  unfolding evolves_def evolves_new_def by fastforce

lemma evolves_refl: "aw_matches w' = aw_matches w \<Longrightarrow> evolves w w'"
  unfolding evolves_def by (metis rtranclp.rtrancl_refl)

lemma evolves_trans: "evolves w1 w2 \<Longrightarrow> evolves w2 w3 \<Longrightarrow> evolves w1 w3"
  unfolding evolves_def by (metis rtranclp_trans)

lemma evolves_cong: "evolves w w' \<Longrightarrow> aw_matches w'' = aw_matches w' \<Longrightarrow> evolves w w''"
  by (simp add: evolves_def)

lemma evolves_upd_match:
  assumes "\<And>M. um_find (aw_matches w) m = Some M \<Longrightarrow> match_steps M (f M)"
  shows "evolves w (upd_match m f w)"
  unfolding evolves_def
proof (intro allI impI)
  fix k M'
  assume find: "um_find (aw_matches (upd_match m f w)) k = Some M'"
  show "\<exists>M. um_find (aw_matches w) k = Some M \<and> match_steps M M'"
  proof (cases "k = m")
    case True
    with find obtain M where "um_find (aw_matches w) m = Some M" "M' = f M" by (auto simp: umap_simps)
    with assms True show ?thesis by blast
  next
    case False
    with find have "um_find (aw_matches w) k = Some M'" by (simp add: umap_simps)
    then show ?thesis by blast
  qed
qed

text \<open>Players are never dropped from a match, and the match keeps its id and its keys.\<close>

definition players_kept :: "s_arena7x7_match \<Rightarrow> s_arena7x7_match \<Rightarrow> bool" where
  "players_kept M M' \<longleftrightarrow> (\<forall>m. match_ok m M \<longrightarrow> match_ok m M') \<and>
     (\<forall>c. um_find (mt_players M) c \<noteq> None \<longrightarrow> um_find (mt_players M') c \<noteq> None)"

text \<open>The same on the level of the players' container, closed under changing single players.\<close>

definition roster_kept ::
    "(uint32, s_arena7x7_player_stats) umap \<Rightarrow> (uint32, s_arena7x7_player_stats) umap \<Rightarrow> bool" where
  "roster_kept ps ps' \<longleftrightarrow> (um_wf ps \<longrightarrow> um_wf ps') \<and>
     (\<forall>c. um_find ps c \<noteq> None \<longrightarrow> um_find ps' c \<noteq> None) \<and>
     ((\<forall>c s. um_find ps c = Some s \<longrightarrow> ps_char_id s = c) \<longrightarrow> (\<forall>c s. um_find ps' c = Some s \<longrightarrow> ps_char_id s = c))"

lemma roster_kept_refl: "roster_kept ps ps"
  by (simp add: roster_kept_def)

lemma roster_kept_then:
  assumes kept: "roster_kept ps ps1" and wf: "um_wf ps1 \<Longrightarrow> um_wf ps2"
    and dom: "\<And>c. um_find ps1 c \<noteq> None \<Longrightarrow> um_find ps2 c \<noteq> None"
    and ids: "\<And>c s. um_find ps2 c = Some s \<Longrightarrow>
      ps_char_id s = c \<or> (\<exists>s0. um_find ps1 c = Some s0 \<and> ps_char_id s = ps_char_id s0)"
  shows "roster_kept ps ps2"
  unfolding roster_kept_def
proof (intro conjI impI allI)
  show "um_wf ps \<Longrightarrow> um_wf ps2" using kept wf unfolding roster_kept_def by blast
  show "um_find ps c \<noteq> None \<Longrightarrow> um_find ps2 c \<noteq> None" for c
    using kept dom unfolding roster_kept_def by blast
  fix c s
  assume ok: "\<forall>c s. um_find ps c = Some s \<longrightarrow> ps_char_id s = c" and s: "um_find ps2 c = Some s"
  have "\<forall>s0. um_find ps1 c = Some s0 \<longrightarrow> ps_char_id s0 = c"
    using kept ok unfolding roster_kept_def by blast
  with ids [OF s] show "ps_char_id s = c" by force
qed

lemma roster_kept_modify:
  assumes "roster_kept ps ps1" and f: "\<And>s. ps_char_id (f s) = ps_char_id s"
  shows "roster_kept ps (um_modify c f ps1)"
proof (rule roster_kept_then [OF assms(1)])
  fix k s
  assume "um_find (um_modify c f ps1) k = Some s"
  then have "\<exists>s0. um_find ps1 k = Some s0 \<and> (s = s0 \<or> s = f s0)" by (auto simp: umap_simps split: if_splits)
  with f show "ps_char_id s = k \<or> (\<exists>s0. um_find ps1 k = Some s0 \<and> ps_char_id s = ps_char_id s0)" by metis
qed (auto simp: umap_simps wf_intros)

lemma roster_kept_put:
  assumes "roster_kept ps ps1" and "ps_char_id s = c"
  shows "roster_kept ps (um_put c s ps1)"
proof (rule roster_kept_then [OF assms(1)])
  fix k s'
  assume "um_find (um_put c s ps1) k = Some s'"
  then have "k = c \<and> s' = s \<or> um_find ps1 k = Some s'" by (simp add: umap_simps split: if_splits)
  with assms(2) show "ps_char_id s' = k \<or> (\<exists>s0. um_find ps1 k = Some s0 \<and> ps_char_id s' = ps_char_id s0)"
    by blast
qed (simp_all add: umap_simps wf_intros)

lemma roster_kept_map:
  assumes "roster_kept ps ps1" and f: "\<And>s. ps_char_id (f s) = ps_char_id s"
  shows "roster_kept ps (um_map f ps1)"
proof (rule roster_kept_then [OF assms(1)])
  fix k s
  assume "um_find (um_map f ps1) k = Some s"
  then have "\<exists>s0. um_find ps1 k = Some s0 \<and> s = f s0" by (auto simp: umap_simps)
  with f show "ps_char_id s = k \<or> (\<exists>s0. um_find ps1 k = Some s0 \<and> ps_char_id s = ps_char_id s0)" by metis
qed (simp_all add: umap_simps wf_intros)

lemmas roster_intros = roster_kept_refl roster_kept_modify roster_kept_put roster_kept_map

lemma players_keptI:
  assumes ids: "mt_match_id M' = mt_match_id M" and kept: "roster_kept (mt_players M) (mt_players M')"
  shows "players_kept M M'"
  using kept unfolding players_kept_def match_ok_def roster_kept_def ids by blast

lemma players_kept_refl: "players_kept M M"
  by (simp add: players_kept_def)

lemma players_kept_trans: "players_kept M1 M2 \<Longrightarrow> players_kept M2 M3 \<Longrightarrow> players_kept M1 M3"
  by (simp add: players_kept_def)

lemma stats_ids [simp]:
  "ps_char_id (attacker_stats d s) = ps_char_id s" "ps_char_id (target_stats now a sk d s) = ps_char_id s"
  "ps_char_id (die_stats t1 t2 s) = ps_char_id s" "ps_char_id (killer_stats s) = ps_char_id s"
  "ps_char_id (caster_stats ty v s) = ps_char_id s" "ps_char_id (item_user_stats ity i s) = ps_char_id s"
  "ps_char_id (count_skill E sk s) = ps_char_id s"
  by (simp_all add: attacker_stats_def target_stats_def die_stats_def killer_stats_def caster_stats_def
      item_user_stats_def count_skill_def Let_def split: e_arena7x7_item_type.split)

text \<open>What each match step does to the players.\<close>

lemma assists_fold:
  "mt_match_id (fold (\<lambda>a. upd_stats a f) as M) = mt_match_id M"
  "mt_players (fold (\<lambda>a. upd_stats a f) as M) = fold (\<lambda>a. um_modify a f) as (mt_players M)"
  by (induction as arbitrary: M) (simp_all add: upd_stats_def)

lemma roster_kept_fold:
  "(\<And>s. ps_char_id (f s) = ps_char_id s) \<Longrightarrow> roster_kept ps ps1 \<Longrightarrow> roster_kept ps (fold (\<lambda>a. um_modify a f) as ps1)"
  by (induction as arbitrary: ps1) (auto intro: roster_kept_modify)

lemma step_match_id: "match_step M M' \<Longrightarrow> mt_match_id M' = mt_match_id M"
  by (induction rule: match_step.induct)
    (simp_all add: arena7x7_record_damage_def arena7x7_record_kill_def arena7x7_record_support_def
      arena7x7_record_item_use_def arena7x7_record_sp_use_def arena7x7_count_alive_players_def log_item_def
      finish_stamp_def Let_def assists_fold upd_stats_def)

lemma step_roster: "match_step M M' \<Longrightarrow> roster_kept (mt_players M) (mt_players M')"
proof (induction rule: match_step.induct)
  case (ms_join M c s x y)
  then show ?case by (auto simp: fresh_stats_def intro: roster_intros)
next
  case (ms_kill M k v E s d)
  then show ?case
    by (simp add: arena7x7_record_kill_def Let_def assists_fold upd_stats_def roster_intros roster_kept_fold)
qed (simp_all add: arena7x7_record_damage_def arena7x7_record_support_def
      arena7x7_record_item_use_def arena7x7_record_sp_use_def arena7x7_count_alive_players_def log_item_def
      finish_stamp_def Let_def upd_stats_def roster_intros)

lemma players_kept_step: "match_step M M' \<Longrightarrow> players_kept M M'"
  by (rule players_keptI [OF step_match_id step_roster])

lemma players_kept_steps: "match_steps M M' \<Longrightarrow> players_kept M M'"
  by (induction rule: rtranclp_induct) (auto intro: players_kept_refl players_kept_trans players_kept_step)

text \<open>One match changed by match steps: both the invariant and the simulation hold.\<close>

lemma arena_wf_upd_match_steps:
  assumes wf: "arena_wf w" and steps: "\<And>M. um_find (aw_matches w) m = Some M \<Longrightarrow> match_steps M (f M)"
  shows "arena_wf (upd_match m f w)"
proof -
  have kept: "players_kept M (f M)" if "um_find (aw_matches w) m = Some M" for M
    by (rule players_kept_steps) (rule steps [OF that])
  have ok: "match_ok k M' \<and> 0 < k \<and> k \<le> aw_match_counter w"
    if "um_find (aw_matches (upd_match m f w)) k = Some M'" for k M'
    using that wf kept by (auto simp: umap_simps arena_wf_def players_kept_def split: if_splits)
  have link: "\<exists>M s. um_find (aw_matches (upd_match m f w)) k = Some M \<and> um_find (mt_players M) c = Some s"
    if pm: "um_find (aw_player_match w) c = Some k" for c k
  proof -
    obtain M s where M: "um_find (aw_matches w) k = Some M" "um_find (mt_players M) c = Some s"
      using wf pm unfolding arena_wf_def by blast
    show ?thesis
    proof (cases "k = m")
      case True
      with kept [of M] M have "\<exists>s. um_find (mt_players (f M)) c = Some s" by (fastforce simp: players_kept_def)
      with M True show ?thesis by (auto simp: umap_simps)
    next
      case False
      with M show ?thesis by (auto simp: umap_simps)
    qed
  qed
  have "um_wf (aw_matches (upd_match m f w))"
    using wf by (simp add: arena_wf_def upd_match_def wf_intros)
  with ok link wf show ?thesis by (simp add: arena_wf_def frame_simps)
qed

definition good_step :: "world \<Rightarrow> world \<Rightarrow> bool" where
  "good_step w w' \<longleftrightarrow> (arena_wf w \<longrightarrow> arena_wf w' \<and> evolves w w')"

lemma good_step_refl: "aw_matches w' = aw_matches w \<Longrightarrow> aw_player_match w' = aw_player_match w \<Longrightarrow>
   aw_match_counter w' = aw_match_counter w \<Longrightarrow> good_step w w'"
  unfolding good_step_def using arena_wf_cong evolves_refl by blast

lemma good_step_trans: "good_step w1 w2 \<Longrightarrow> good_step w2 w3 \<Longrightarrow> good_step w1 w3"
  unfolding good_step_def using evolves_trans by blast

lemma good_step_upd:
  "(\<And>M. arena_wf w \<Longrightarrow> um_find (aw_matches w) m = Some M \<Longrightarrow> match_steps M (f M)) \<Longrightarrow> good_step w (upd_match m f w)"
  unfolding good_step_def using arena_wf_upd_match_steps evolves_upd_match by blast

lemma good_step_upd1: "(\<And>M. match_step M (f M)) \<Longrightarrow> good_step w (upd_match m f w)"
  by (rule good_step_upd) blast

lemma good_step_engine: "good_step w (engine E c w)"
  by (rule good_step_refl) (simp_all add: frame_simps)

lemma good_step_fold: "(\<And>x w. good_step w (f x w)) \<Longrightarrow> good_step w (fold f xs w)"
  by (induction xs arbitrary: w) (auto intro: good_step_refl good_step_trans)

lemma good_step_sd: "good_step w (upd_sd c f w)"
  by (rule good_step_refl) (simp_all add: frame_simps)

section \<open>Every operation is a good step\<close>

lemma good_step_score_display: "good_step w (arena7x7_update_score_display E m w)"
proof -
  have "good_step w (upd_match m arena7x7_count_alive_players w)"
    by (rule good_step_upd1) (rule ms_count)
  then have "good_step w ((upd_match m arena7x7_count_alive_players w)\<lparr>aw_mapdata := x\<rparr>)" for x
    by (rule good_step_trans) (rule good_step_refl; simp)
  then have "good_step w (engine E c ((upd_match m arena7x7_count_alive_players w)\<lparr>aw_mapdata := x\<rparr>))" for x c
    by (rule good_step_trans) (rule good_step_engine)
  then show ?thesis
    by (simp add: arena7x7_update_score_display_def Let_def good_step_refl split: option.split)
qed

lemma create_evolves_new:
  assumes wf: "arena_wf w" and room: "aw_match_counter w \<noteq> - 1"
  shows "evolves_new w (snd (arena7x7_create_match name w))"
proof -
  have "um_find (aw_matches w) m = Some M' \<or> um_find (aw_matches w) m = None \<and> new_match_at m M'"
    if "um_find (aw_matches (snd (arena7x7_create_match name w))) m = Some M'" for m M'
    using that fresh_id_free [OF wf room]
    by (auto simp: arena7x7_create_match_def Let_def umap_simps new_match_at_def split: option.splits if_splits)
  then show ?thesis
    unfolding evolves_new_def by (fastforce split: option.split)
qed

lemma join_guild_steps:
  assumes "join_guild E sd team (s, M) = (s', M')"
  shows "match_steps M M'"
proof -
  consider "M' = M" | i n where "M' = M\<lparr>mt_blue_guild_id := i, mt_blue_guild_name := n\<rparr>"
    | i n where "M' = M\<lparr>mt_red_guild_id := i, mt_red_guild_name := n\<rparr>"
    using assms by (auto simp: join_guild_def Let_def split: option.splits if_splits)
  then show ?thesis by cases (auto intro: ms_blue_guild ms_red_guild)
qed

lemma join_fresh:
  assumes "join_guild E sd team (join_stats E sd team leader, M) = (s, M')"
  shows "fresh_stats (sd_char_id sd) s"
  using assms
  by (auto simp: join_guild_def join_stats_def new_player_stats_def fresh_stats_def Let_def
      split: option.splits if_splits)

lemma alive_unchanged:
  fixes M :: s_arena7x7_match
  shows "M\<lparr>mt_players := ps, mt_blue_alive := b, mt_red_alive := mt_red_alive M\<rparr> = M\<lparr>mt_players := ps, mt_blue_alive := b\<rparr>"
    "M\<lparr>mt_players := ps, mt_blue_alive := mt_blue_alive M, mt_red_alive := r\<rparr> = M\<lparr>mt_players := ps, mt_red_alive := r\<rparr>"
    "M\<lparr>mt_players := ps, mt_blue_alive := mt_blue_alive M\<rparr> = M\<lparr>mt_players := ps\<rparr>"
    "M\<lparr>mt_players := ps, mt_red_alive := mt_red_alive M\<rparr> = M\<lparr>mt_players := ps\<rparr>"
  by (cases M; simp)+

lemma add_player_steps:
  assumes "arena7x7_add_player E m sd_ptr team leader w = (ok, w')" and "ok"
  shows "\<exists>M M'. um_find (aw_matches w) m = Some M \<and> match_steps M M' \<and> aw_matches w' = um_put m M' (aw_matches w)"
proof -
  from assms obtain sd M where sd: "sd_ptr = Some sd" "sd_name sd \<noteq> ''''"
      "um_find (aw_matches w) m = Some M"
      "mt_status M = ARENA7X7_MATCH_WAITING \<or> mt_status M = ARENA7X7_MATCH_ACTIVE"
      "um_find (aw_player_match w) (sd_char_id sd) = None"
    by (auto simp: arena7x7_add_player_def Let_def split: option.splits if_splits)
  obtain s M1 where j: "join_guild E sd team (join_stats E sd team leader, M) = (s, M1)" by fastforce
  note f = join_guild_frame [OF j]
  have join: "match_steps M (M1\<lparr>mt_players := um_put (sd_char_id sd) s (mt_players M1), mt_blue_alive := x, mt_red_alive := y\<rparr>)" for x y
    using join_guild_steps [OF j] ms_join [of M1 "sd_char_id sd" s y x] join_fresh [OF j] f(4) sd(4)
    by (simp add: rtranclp.rtrancl_into_rtrancl)
  have st: "\<not> (mt_status M \<noteq> ARENA7X7_MATCH_WAITING \<and> mt_status M \<noteq> ARENA7X7_MATCH_ACTIVE)"
    using sd(4) by auto
  let ?ps = "um_put (sd_char_id sd) s (mt_players M1)"
  have w': "aw_matches w' = um_put m
      (if team = ARENA7X7_TEAM_BLUE then M1\<lparr>mt_players := ?ps, mt_blue_alive := mt_blue_alive M1 + 1\<rparr>
       else if team = ARENA7X7_TEAM_RED then M1\<lparr>mt_players := ?ps, mt_red_alive := mt_red_alive M1 + 1\<rparr>
       else M1\<lparr>mt_players := ?ps\<rparr>) (aw_matches w)"
    using assms sd(1,2,3,5) st by (simp add: arena7x7_add_player_def Let_def j cong: if_cong split del: if_split) (auto split del: if_split)
  have "match_steps M (if team = ARENA7X7_TEAM_BLUE then M1\<lparr>mt_players := ?ps, mt_blue_alive := mt_blue_alive M1 + 1\<rparr>
       else if team = ARENA7X7_TEAM_RED then M1\<lparr>mt_players := ?ps, mt_red_alive := mt_red_alive M1 + 1\<rparr>
       else M1\<lparr>mt_players := ?ps\<rparr>)"
    using join [where x = "mt_blue_alive M1 + 1" and y = "mt_red_alive M1"]
      join [where x = "mt_blue_alive M1" and y = "mt_red_alive M1 + 1"]
      join [where x = "mt_blue_alive M1" and y = "mt_red_alive M1"]
    by (simp add: alive_unchanged)
  with w' sd(3) show ?thesis by blast
qed

lemma good_step_add: "good_step w (snd (arena7x7_add_player E m sd_ptr team leader w))"
proof -
  obtain ok w' where add: "arena7x7_add_player E m sd_ptr team leader w = (ok, w')" by fastforce
  have "evolves w w'"
  proof (cases ok)
    case False
    from add have "w' = w" by (rule add_player_cases) (use False in simp_all)
    then show ?thesis by (simp add: evolves_refl)
  next
    case True
    from add_player_steps [OF add this] obtain M M' where
      M: "um_find (aw_matches w) m = Some M" "match_steps M M'" "aw_matches w' = um_put m M' (aw_matches w)"
      by (elim exE conjE) (rule that)
    show ?thesis
      unfolding evolves_def
    proof (intro allI impI)
      fix k M2
      assume "um_find (aw_matches w') k = Some M2"
      with M(3) have "k = m \<and> M2 = M' \<or> um_find (aw_matches w) k = Some M2" by (simp add: umap_simps split: if_splits)
      with M(1,2) show "\<exists>M. um_find (aw_matches w) k = Some M \<and> match_steps M M2" by blast
    qed
  qed
  with arena_wf_add [of w E m sd_ptr team leader] add show ?thesis by (simp add: good_step_def)
qed

end
