(* ===== verification/ArenaReach.thy ===== *)
theory ArenaReach
  imports ArenaSystem
begin

text \<open>
  The operations and hooks as good steps, one call of the rest of the server as
  \<open>arena_exec\<close>, and the reachable states.
\<close>

section \<open>Leaving, starting, finishing, cancelling\<close>

lemma um_put_put: "um_put k v (um_put k v' m) = um_put k v m"
  by (simp add: um_put_def update_last)

lemma um_modify_modify: "um_modify k g (um_modify k f m) = um_modify k (\<lambda>v. g (f v)) m"
  by (cases "um_find m k") (simp_all add: um_modify_def umap_simps um_put_put)

lemma upd_stats_upd_stats: "upd_stats c g (upd_stats c f M) = upd_stats c (\<lambda>s. g (f s)) M"
  by (simp add: upd_stats_def um_modify_modify)

lemma upd_stats_const:
  "um_find (mt_players M) c = Some s \<Longrightarrow> g s = s' \<Longrightarrow> upd_stats c (\<lambda>_. s') M = upd_stats c g M"
  by (simp add: upd_stats_def um_modify_def)

lemma count_desertion_update: "\<exists>n. count_desertion s = s\<lparr>ps_deaths := n\<rparr>"
  by (cases s) (auto simp: count_desertion_def)

lemma good_step_db: "good_step w (w\<lparr>aw_db := D\<rparr>)"
  by (rule good_step_refl) simp_all

lemma good_step_upd_db:
  "(\<And>M. um_find (aw_matches w) m = Some M \<Longrightarrow> match_steps M (f M)) \<Longrightarrow> good_step w (upd_match m f (w\<lparr>aw_db := D\<rparr>))"
  by (rule good_step_trans [OF good_step_db]) (rule good_step_upd, simp)

lemma good_step_erase_player: "good_step w (w\<lparr>aw_player_match := um_erase c (aw_player_match w)\<rparr>)"
  by (simp add: good_step_def arena_wf_erase_player evolves_refl)

lemma good_step_remove: "good_step w (snd (arena7x7_remove_player E sd_ptr deserter w))"
proof (cases sd_ptr)
  case None
  then show ?thesis by (simp add: arena7x7_remove_player_def good_step_refl)
next
  case (Some sd)
  let ?c = "sd_char_id sd"
  have body: "good_step w (upd_match m (upd_stats ?c (\<lambda>_. s\<lparr>ps_is_deserter := b\<rparr>)) w)"
    and pen: "good_step w (upd_match m (upd_stats ?c (\<lambda>_. count_desertion (s\<lparr>ps_is_deserter := b, ps_deaths := n\<rparr>)))
          (w\<lparr>aw_db := D\<rparr>))"
    if M: "um_find (aw_matches w) m = Some M" "um_find (mt_players M) ?c = Some s" for m M s b n D
  proof -
    have "match_steps M (upd_stats ?c (\<lambda>_. s\<lparr>ps_is_deserter := b\<rparr>) M)"
      using M(2) upd_stats_const [of M ?c s "\<lambda>s. s\<lparr>ps_is_deserter := b\<rparr>"] ms_desert [of M ?c b] by auto
    with M(1) show "good_step w (upd_match m (upd_stats ?c (\<lambda>_. s\<lparr>ps_is_deserter := b\<rparr>)) w)"
      by (intro good_step_upd) simp
    obtain n' where n': "count_desertion (s\<lparr>ps_is_deserter := b, ps_deaths := n\<rparr>) = s\<lparr>ps_is_deserter := b, ps_deaths := n'\<rparr>"
      using count_desertion_update [of "s\<lparr>ps_is_deserter := b, ps_deaths := n\<rparr>"] by auto
    have "match_steps M (upd_stats ?c (\<lambda>s. s\<lparr>ps_is_deserter := b, ps_deaths := n'\<rparr>) M)"
      using ms_desert [of M ?c b] ms_deaths [of "upd_stats ?c (\<lambda>s. s\<lparr>ps_is_deserter := b\<rparr>) M" ?c n']
      by (simp add: upd_stats_upd_stats)
    then have "match_steps M (upd_stats ?c (\<lambda>_. count_desertion (s\<lparr>ps_is_deserter := b, ps_deaths := n\<rparr>)) M)"
      using M(2) n' upd_stats_const [of M ?c s "\<lambda>s. s\<lparr>ps_is_deserter := b, ps_deaths := n'\<rparr>"] by simp
    with M(1) show "good_step w (upd_match m (upd_stats ?c (\<lambda>_. count_desertion (s\<lparr>ps_is_deserter := b, ps_deaths := n\<rparr>)))
          (w\<lparr>aw_db := D\<rparr>))"
      by (intro good_step_upd_db) simp
  qed
  have finish: "good_step w (w1\<lparr>aw_player_match := um_erase ?c (aw_player_match w1)\<rparr>)" if "good_step w w1" for w1
    using that good_step_erase_player by (rule good_step_trans)
  show ?thesis
  proof (cases "um_find (aw_player_match w) ?c")
    case None
    with Some show ?thesis by (simp add: arena7x7_remove_player_def good_step_refl Let_def)
  next
    case pm: (Some m)
    show ?thesis
    proof (cases "um_find (aw_matches w) m")
      case None
      with Some pm show ?thesis
        by (simp add: arena7x7_remove_player_def Let_def arena7x7_get_match_def good_step_erase_player)
    next
      case M: (Some M)
      show ?thesis
      proof (cases "um_find (mt_players M) ?c")
        case None
        with Some pm M show ?thesis
          by (simp add: arena7x7_remove_player_def Let_def arena7x7_get_match_def good_step_erase_player)
      next
        case s: (Some s)
        show ?thesis
          using Some pm M s finish [OF body [OF M s]] finish [OF pen [OF M s, where b = True]]
          by (simp add: arena7x7_remove_player_def Let_def arena7x7_get_match_def ranking_case)
      qed
    qed
  qed
qed

lemma good_step_start: "good_step w (snd (arena7x7_start_match E m w))"
proof -
  have "good_step w (upd_match m (\<lambda>M. arena7x7_count_alive_players
      (M\<lparr>mt_status := ARENA7X7_MATCH_ACTIVE, mt_start_time := now\<rparr>)) w)"
    if "um_find (aw_matches w) m = Some M" "mt_status M = ARENA7X7_MATCH_WAITING" for M now
    by (rule good_step_upd)
      (use that rtranclp.rtrancl_into_rtrancl [OF r_into_rtranclp [of match_step, OF ms_start] ms_count] in simp)
  from good_step_trans [OF this good_step_score_display] show ?thesis
    by (auto simp: arena7x7_start_match_def arena7x7_get_match_def good_step_refl split: option.split)
qed

lemma good_step_rank_player: "good_step w (rank_player E m winner c w)"
proof (cases "um_find (aw_matches w) m")
  case None
  then show ?thesis by (simp add: rank_player_def good_step_refl)
next
  case M: (Some M)
  show ?thesis
  proof (cases "um_find (mt_players M) c")
    case None
    with M show ?thesis by (simp add: rank_player_def good_step_refl)
  next
    case s: (Some s)
    obtain n where n: "count_desertion s = s\<lparr>ps_deaths := n\<rparr>" using count_desertion_update by blast
    have "upd_stats c (\<lambda>_. count_desertion s) M = upd_stats c (\<lambda>s. s\<lparr>ps_deaths := n\<rparr>) M"
      by (rule upd_stats_const) (use s n in simp_all)
    then have "good_step w (upd_match m (upd_stats c (\<lambda>_. count_desertion s)) (w\<lparr>aw_db := D\<rparr>))" for D
      using M ms_deaths [of M c n] by (intro good_step_upd_db) auto
    with M s show ?thesis by (simp add: rank_player_def Let_def ranking_case good_step_refl)
  qed
qed

lemma good_step_finish: "good_step w (snd (arena7x7_finish_match E m winner blue red w))"
proof -
  have 1: "good_step w (upd_match m (finish_stamp E winner blue red) w)"
    by (rule good_step_upd1) (rule ms_finish)
  have 2: "good_step w' (arena7x7_save_detailed_logs E m (w'\<lparr>aw_db := D\<rparr>))" for w' D
    by (rule good_step_refl) (simp_all add: frame_simps)
  note 3 = good_step_fold [of "rank_player E m winner", OF good_step_rank_player]
  show ?thesis
    by (auto simp: arena7x7_finish_match_def arena7x7_get_match_def Let_def good_step_refl
        split: option.split intro!: good_step_trans [OF good_step_trans [OF 1 2] 3])
qed

lemma good_step_set_guild_names: "good_step w (snd (arena7x7_set_guild_names m blue red bi ri w))"
proof -
  have swap: "M\<lparr>mt_blue_guild_name := n, mt_blue_guild_id := i\<rparr> = M\<lparr>mt_blue_guild_id := i, mt_blue_guild_name := n\<rparr>"
    "M\<lparr>mt_red_guild_name := n, mt_red_guild_id := i\<rparr> = M\<lparr>mt_red_guild_id := i, mt_red_guild_name := n\<rparr>"
    for M :: s_arena7x7_match and n i by simp_all
  have b: "match_steps M (case x of Some n \<Rightarrow> if n \<noteq> '''' then M\<lparr>mt_blue_guild_name := safe_name n, mt_blue_guild_id := i\<rparr> else M | None \<Rightarrow> M)"
    and r: "match_steps M (case x of Some n \<Rightarrow> if n \<noteq> '''' then M\<lparr>mt_red_guild_name := safe_name n, mt_red_guild_id := i\<rparr> else M | None \<Rightarrow> M)"
    for M x i by (auto split: option.split simp: swap intro: ms_blue_guild ms_red_guild)
  from good_step_upd [of w m, OF rtranclp_trans [OF b r]] show ?thesis
    by (simp add: arena7x7_set_guild_names_def arena7x7_get_match_def Let_def good_step_refl split: option.split)
qed

text \<open>Cancelling a waiting match erases it and everyone registered in it.\<close>

lemma arena_wf_cancel_waiting:
  assumes wf: "arena_wf w"
  shows "arena_wf (w\<lparr>aw_player_match := um_erase_if (\<lambda>k. k = m) (aw_player_match w),
      aw_matches := um_erase m (aw_matches w),
      aw_match_counter := (if m = aw_match_counter w then aw_match_counter w - 1 else aw_match_counter w)\<rparr>)"
proof -
  have pm: "um_wf (aw_player_match w)" using wf by (simp add: arena_wf_def)
  have bound: "0 < k \<and> k \<le> (if m = aw_match_counter w then aw_match_counter w - 1 else aw_match_counter w)"
    if "um_find (aw_matches w) k = Some M" "k \<noteq> m" for k M
  proof -
    have k: "0 < k" "k \<le> aw_match_counter w" using wf that(1) by (auto simp: arena_wf_def)
    show ?thesis
    proof (cases "m = aw_match_counter w")
      case True
      with k that(2) have "k < aw_match_counter w" by simp
      then have "k \<le> aw_match_counter w - 1" by unat_arith
      with True k show ?thesis by simp
    qed (use k in simp)
  qed
  have link: "\<exists>M s. um_find (um_erase m (aw_matches w)) k = Some M \<and> um_find (mt_players M) c = Some s"
    if "um_find (um_erase_if (\<lambda>k. k = m) (aw_player_match w)) c = Some k" for c k
  proof -
    have k: "um_find (aw_player_match w) c = Some k" "k \<noteq> m"
      using that pm by (auto simp: umap_simps split: option.splits if_splits)
    then obtain M s where "um_find (aw_matches w) k = Some M" "um_find (mt_players M) c = Some s"
      using wf unfolding arena_wf_def by blast
    with k(2) show ?thesis by (simp add: umap_simps)
  qed
  have "match_ok k M \<and> 0 < k \<and> k \<le> (if m = aw_match_counter w then aw_match_counter w - 1 else aw_match_counter w)"
    if "um_find (um_erase m (aw_matches w)) k = Some M" for k M
    using that wf bound [of k M] by (auto simp: umap_simps arena_wf_def split: if_splits)
  with link wf show ?thesis
    by (simp add: arena_wf_def wf_intros split del: if_split)
qed

lemma good_step_cancel: "good_step w (snd (arena7x7_cancel_match E m w))"
proof (cases "um_find (aw_matches w) m")
  case None
  then show ?thesis by (simp add: arena7x7_cancel_match_def arena7x7_get_match_def good_step_refl)
next
  case M: (Some M)
  show ?thesis
  proof (cases "mt_status M = ARENA7X7_MATCH_WAITING")
    case True
    have "evolves w (snd (arena7x7_cancel_match E m w))"
      unfolding evolves_def
      using M True by (auto simp: arena7x7_cancel_match_def arena7x7_get_match_def umap_simps split: if_splits)
    moreover have "arena_wf w \<longrightarrow> arena_wf (snd (arena7x7_cancel_match E m w))"
      using M True arena_wf_cancel_waiting [of w m]
      by (simp add: arena7x7_cancel_match_def arena7x7_get_match_def split del: if_split)
    ultimately show ?thesis by (simp add: good_step_def)
  next
    case False
    then have "good_step w (upd_match m (\<lambda>M. M\<lparr>mt_status := ARENA7X7_MATCH_CANCELLED, mt_end_time := env_tick E Tk_cancel\<rparr>) w)"
      using M ms_cancel by (intro good_step_upd) auto
    with M False show ?thesis by (simp add: arena7x7_cancel_match_def arena7x7_get_match_def)
  qed
qed

section \<open>Tombstones\<close>

lemma good_step_engines: "good_step w (fold (engine E) cs w)"
  by (rule good_step_fold) (rule good_step_engine)

lemma good_step_mark_dead: "good_step w (mark_dead c w)"
  by (auto simp: mark_dead_def good_step_refl intro: good_step_upd1 ms_dead split: option.split)

lemma good_step_mark_alive: "good_step w (mark_alive c w)"
  by (auto simp: mark_alive_def good_step_refl intro: good_step_upd1 ms_dead split: option.split)

lemma good_step_fix_dead: "good_step w (fix_dead E c w)"
  unfolding fix_dead_def by (rule good_step_trans [OF good_step_sd good_step_engines])

lemma good_step_cancel_respawn: "good_step w (cancel_respawn sd w)"
proof -
  have "good_step w (upd_sd c f (w\<lparr>aw_timers := T\<rparr>))" for c f T
    by (rule good_step_trans [OF good_step_refl good_step_sd]) simp_all
  then show ?thesis by (simp add: cancel_respawn_def Let_def good_step_refl)
qed

lemma good_step_tombstone: "good_step w (arena7x7_transform_to_tombstone E sd_ptr w)"
proof (cases sd_ptr)
  case None
  then show ?thesis by (simp add: arena7x7_transform_to_tombstone_def good_step_refl)
next
  case (Some sd)
  let ?c = "sd_char_id sd"
  have "good_step w (engine E m (cancel_respawn sd (fix_dead E ?c (engine E cl
      (fold (\<lambda>s. engine E (Status_change_end ?c s)) ss (mark_dead ?c w))))))" for m cl ss
    by (rule good_step_trans [OF good_step_trans [OF good_step_trans [OF good_step_trans
          [OF good_step_trans [OF good_step_mark_dead good_step_fold [OF good_step_engine]] good_step_engine]
          good_step_fix_dead] good_step_cancel_respawn] good_step_engine])
  note up = this
  show ?thesis
  proof (cases "arena7x7_get_player_stats ?c w")
    case None
    with Some show ?thesis by (simp add: arena7x7_transform_to_tombstone_def Let_def good_step_refl)
  next
    case st: (Some s)
    show ?thesis
      unfolding arena7x7_transform_to_tombstone_def Some option.case Let_def st
      using up good_step_trans [OF up good_step_score_display]
      by (simp split: option.split prod.split)
  qed
qed

lemma good_step_restore: "good_step w (arena7x7_restore_from_tombstone E sd_ptr w)"
proof (cases sd_ptr)
  case (Some sd)
  then show ?thesis
    unfolding arena7x7_restore_from_tombstone_def Let_def option.case
    by (simp only: option.case good_step_trans [OF good_step_mark_alive good_step_engines])
qed (simp add: arena7x7_restore_from_tombstone_def good_step_refl)

lemma good_step_restore_all: "good_step w (arena7x7_restore_all_tombstones E m w)"
proof -
  have "good_step w (restore_one E m c w)" for m c w
    by (auto simp: restore_one_def good_step_refl good_step_restore split: option.split)
  then show ?thesis
    by (auto simp: arena7x7_restore_all_tombstones_def good_step_refl split: option.split intro: good_step_fold)
qed

lemma good_step_cursedcircle: "good_step w (arena7x7_remove_cursedcircle_targets E sd_ptr w)"
proof -
  have cb: "good_step w (arena7x7_remove_cursedcircle_callback E i c w)" for i c w
    by (auto simp: arena7x7_remove_cursedcircle_callback_def good_step_refl
        intro: good_step_trans [OF good_step_engine good_step_engine] split: option.split)
  show ?thesis
    by (auto simp: arena7x7_remove_cursedcircle_targets_def Let_def good_step_refl split: option.split
        intro!: good_step_trans [OF good_step_fold good_step_engine] cb)
qed

section \<open>Hooks\<close>

lemma player_matchD:
  assumes "arena_wf w" "arena7x7_get_player_match c w = Some (m, M)"
  shows "um_find (aw_matches w) m = Some M" "mt_match_id M = m" "\<exists>s. um_find (mt_players M) c = Some s"
proof -
  have pm: "um_find (aw_player_match w) c = Some m" and M: "um_find (aw_matches w) m = Some M"
    using assms(2) by (simp_all add: get_player_match_iff)
  show "um_find (aw_matches w) m = Some M" by (rule M)
  show "mt_match_id M = m" using arena_wf_match [OF assms(1) M] by (simp add: match_ok_def)
  show "\<exists>s. um_find (mt_players M) c = Some s"
    using assms(1) pm M unfolding arena_wf_def by fastforce
qed

text \<open>Two characters whose matches have the same id are players of one match.\<close>

lemma same_match_players:
  assumes wf: "arena_wf w" and a: "arena7x7_get_player_match a w = Some (m, M)"
    and t: "arena7x7_get_player_match t w = Some (tm, TM)" and same: "mt_match_id TM = mt_match_id M"
  shows "um_find (aw_matches w) m = Some M \<and> in_match M a \<and> in_match M t"
proof -
  note A = player_matchD [OF wf a] and T = player_matchD [OF wf t]
  have "tm = m" using A(2) T(2) same by simp
  with A T show ?thesis by (auto simp: in_match_def)
qed

lemma good_step_same: "good_step w w"
  by (rule good_step_refl) simp_all

lemma good_step_pair:
  assumes a: "arena7x7_get_player_match a w = Some (m, M)"
    and t: "arena7x7_get_player_match t w = Some (tm, TM)" and same: "mt_match_id TM = mt_match_id M"
    and f: "\<And>M. in_match M a \<Longrightarrow> in_match M t \<Longrightarrow> match_step M (f M)"
  shows "good_step w (upd_match m f w)"
proof (rule good_step_upd)
  fix M'
  assume wf: "arena_wf w" and M': "um_find (aw_matches w) m = Some M'"
  with same_match_players [OF wf a t same] f show "match_steps M' (f M')" by auto
qed

text \<open>A killer a death is credited to is a player of the victim's match.\<close>

lemma scan_killer_in_match:
  assumes wf: "arena_wf w" and M: "um_find (aw_matches w) m = Some M"
  shows "killer = 0 \<or> um_find (mt_players M) killer \<noteq> None \<Longrightarrow>
    scan_killer w m now (t, killer, sk, d) rds = (t', k', sk', d') \<Longrightarrow>
    k' = 0 \<or> um_find (mt_players M) k' \<noteq> None"
proof (induction rds arbitrary: t killer sk d)
  case Nil
  then show ?case by simp
next
  case (Cons rd rds)
  have new: "um_find (mt_players M) (rd_attacker_id rd) \<noteq> None"
    if "arena7x7_get_player_match (rd_attacker_id rd) w = Some (am, AM)" "mt_match_id AM = m" for am AM
    using player_matchD [OF wf that(1)] that(2) M by auto
  define best where "best = (if DIFF_TICK now (rd_timestamp rd) \<le> ARENA7X7_ASSIST_WINDOW then
          (case arena7x7_get_player_match (rd_attacker_id rd) w of
             None \<Rightarrow> (t, killer, sk, d)
           | Some (am, AM) \<Rightarrow>
               if mt_match_id AM = m \<and> rd_timestamp rd > t
               then (rd_timestamp rd, rd_attacker_id rd, rd_skill_id rd, rd_damage rd)
               else (t, killer, sk, d))
        else (t, killer, sk, d))"
  obtain t1 k1 s1 d1 where b: "best = (t1, k1, s1, d1)" by (metis prod_cases4)
  have "k1 = killer \<or> um_find (mt_players M) k1 \<noteq> None"
    using b new unfolding best_def by (fastforce split: if_splits option.splits prod.splits)
  with Cons.prems(1) have k1: "k1 = 0 \<or> um_find (mt_players M) k1 \<noteq> None" by blast
  have "scan_killer w m now (t1, k1, s1, d1) rds = (t', k', sk', d')"
    using Cons.prems(2) b unfolding best_def by simp
  from Cons.IH [OF k1 this] show ?case .
qed

lemma credited_killer_in_match:
  assumes wf: "arena_wf w" and M: "arena7x7_get_player_match v w = Some (m, M)"
    and cr: "credited_kill E w M killer v skill = (k, s, d)" and k: "k > 0"
  shows "um_find (mt_players M) k \<noteq> None"
proof -
  note Mm = player_matchD [OF wf M]
  define kid where "kid = (case killer of None \<Rightarrow> 0
            | Some k \<Rightarrow> (case arena7x7_get_player_match (sd_char_id k) w of
                 None \<Rightarrow> 0
               | Some (km, KM) \<Rightarrow> if mt_match_id KM \<noteq> mt_match_id M then 0 else sd_char_id k))"
  have kid: "kid = 0 \<or> um_find (mt_players M) kid \<noteq> None"
  proof (cases killer)
    case (Some ks)
    show ?thesis
    proof (cases "arena7x7_get_player_match (sd_char_id ks) w")
      case None
      with Some show ?thesis by (simp add: kid_def)
    next
      case km: (Some kmM)
      obtain km KM where kmM: "kmM = (km, KM)" by fastforce
      note K = player_matchD [OF wf km [unfolded kmM]]
      show ?thesis
      proof (cases "mt_match_id KM = mt_match_id M")
        case True
        with K Mm have "KM = M" by simp
        with K(3) km kmM Some show ?thesis by (simp add: kid_def)
      next
        case False
        with km kmM Some show ?thesis by (simp add: kid_def)
      qed
    qed
  qed (simp add: kid_def)
  show ?thesis
  proof (cases "kid = 0")
    case True
    obtain t' k' s' d' where sc: "scan_killer w m (env_tick E Tk_death_scan) (0, kid, skill, 0)
        (case um_find (mt_players M) v of None \<Rightarrow> [] | Some s \<Rightarrow> ps_recent_damage_taken s) = (t', k', s', d')"
      by (metis prod_cases4)
    with True cr Mm have "k = k'" by (auto simp: credited_kill_def Let_def kid_def [symmetric])
    with scan_killer_in_match [OF wf Mm(1) kid sc] k show ?thesis by auto
  next
    case False
    with cr have "k = kid" by (auto simp: credited_kill_def Let_def kid_def [symmetric] split: option.splits)
    with kid False show ?thesis by simp
  qed
qed

lemma good_step_on_damage: "good_step w (arena7x7_on_damage E src target skill dmg crit w)"
  unfolding arena7x7_on_damage_def
  by (auto split: option.split block_list.split prod.split intro!: good_step_same
      intro: good_step_pair [OF _ _ _ ms_damage])

lemma good_step_on_death: "good_step w (arena7x7_on_death E killer victim skill w)"
proof (cases victim)
  case None
  then show ?thesis by (simp add: arena7x7_on_death_def good_step_refl)
next
  case (Some vic)
  let ?v = "sd_char_id vic"
  have tomb: "good_step w (arena7x7_transform_to_tombstone E victim (arena7x7_remove_cursedcircle_targets E victim w1))"
    if "good_step w w1" for w1
    by (rule good_step_trans [OF good_step_trans [OF that good_step_cursedcircle] good_step_tombstone])
  have kill: "good_step w (if k > 0 then upd_match m (arena7x7_record_kill E k ?v s d) w
                else upd_match m (upd_stats ?v (die_stats t1 t2)) w)"
    if M: "arena7x7_get_player_match ?v w = Some (m, M)" and cr: "credited_kill E w M killer ?v skill = (k, s, d)"
    for m M k s d t1 t2
  proof (cases "k > 0")
    case True
    have "good_step w (upd_match m (arena7x7_record_kill E k ?v s d) w)"
    proof (rule good_step_upd)
      fix M'
      assume wf: "arena_wf w" and M': "um_find (aw_matches w) m = Some M'"
      have "M' = M" using M' M by (simp add: get_player_match_iff)
      moreover have "in_match M ?v" using player_matchD(3) [OF wf M] by (auto simp: in_match_def)
      moreover have "in_match M k" using credited_killer_in_match [OF wf M cr True] by (simp add: in_match_def)
      ultimately show "match_steps M' (arena7x7_record_kill E k ?v s d M')" using ms_kill by auto
    qed
    with True show ?thesis by simp
  next
    case False
    then show ?thesis by (simp add: good_step_upd1 ms_die)
  qed
  show ?thesis
  proof (cases "arena7x7_get_player_match ?v w")
    case None
    with Some show ?thesis by (simp add: arena7x7_on_death_def Let_def good_step_refl)
  next
    case mM: (Some mM)
    obtain m M where M: "arena7x7_get_player_match ?v w = Some (m, M)" using mM by (cases mM) simp
    obtain k s d where cr: "credited_kill E w M killer ?v skill = (k, s, d)" by (metis prod_cases3)
    note fin = tomb [OF kill [OF M cr, of "env_tick E Tk_death_time" "env_tick E Tk_death_alive"]]
    show ?thesis
    proof (cases "case arena7x7_get_player_stats ?v w of None \<Rightarrow> False | Some s \<Rightarrow> ps_is_dead s")
      case True
      with Some M show ?thesis by (simp add: arena7x7_on_death_def Let_def good_step_refl)
    next
      case False
      define w3 where "w3 = arena7x7_transform_to_tombstone E victim (arena7x7_remove_cursedcircle_targets E victim
        (if k > 0 then upd_match m (arena7x7_record_kill E k ?v s d) w
         else upd_match m (upd_stats ?v (die_stats (env_tick E Tk_death_time) (env_tick E Tk_death_alive))) w))"
      have "arena7x7_on_death E killer victim skill w =
          (let bg = sd_bg_id (sd_now w3 vic) in if bg = 0 then w3
           else case env_die_event E bg of None \<Rightarrow> w3
             | Some ev \<Rightarrow> if ev = '''' then w3 else engine E (Npc_event ?v ev) w3)"
        unfolding w3_def arena7x7_on_death_def Let_def Some option.case M prod.case cr using False by (simp only: if_False)
      with fin [folded w3_def] good_step_trans [OF fin [folded w3_def] good_step_engine] show ?thesis
        by (simp add: Let_def split: option.split)
    qed
  qed
qed

lemma good_step_on_heal: "good_step w (arena7x7_on_heal E caster target skill amount w)"
  unfolding arena7x7_on_heal_def
  by (auto split: option.split prod.split intro!: good_step_same intro: good_step_pair [OF _ _ _ ms_support])

lemma good_step_on_buff: "good_step w (arena7x7_on_buff E caster target skill w)"
  unfolding arena7x7_on_buff_def
  by (auto split: option.split prod.split intro!: good_step_same intro: good_step_pair [OF _ _ _ ms_support])

lemma good_step_on_item_use: "good_step w (arena7x7_on_item_use E sd_ptr target item name v w)"
  unfolding arena7x7_on_item_use_def Let_def
  by (auto split: option.split prod.split intro!: good_step_refl good_step_upd1 ms_item)

lemma good_step_track: "good_step w (arena7x7_track_item_consume E sd_ptr item name amount w)"
proof -
  have 1: "good_step w (upd_match m (log_item l) w)" for w m l by (rule good_step_upd1) (rule ms_log_item)
  have 2: "good_step w (upd_match m (arena7x7_record_item_use now c t i nm ty v) w)" for w m now c t i nm ty v
    by (rule good_step_upd1) (rule ms_item)
  have 3: "good_step w (fold (\<lambda>i. upd_match m (arena7x7_record_item_use (tk i) c 0 it nm ty 1)) js (upd_match m (log_item l) w))"
    for w m l tk c it nm ty js
    by (rule good_step_trans [OF 1 good_step_fold [OF 2]])
  have 4: "good_step w (upd_match m (upd_stats c (\<lambda>s. s\<lparr>ps_total_items_used := ps_total_items_used s + u\<rparr>))
      (fold (\<lambda>i. upd_match m (arena7x7_record_item_use (tk i) c 0 it nm ty 1)) js (upd_match m (log_item l) w)))"
    for w m l tk c it nm ty js u
    by (rule good_step_trans [OF 3 good_step_upd1]) (rule ms_items_used)
  show ?thesis
    unfolding arena7x7_track_item_consume_def Let_def
    by (simp add: good_step_refl 3 4 split: option.split prod.split)
qed

lemma good_step_sp: "good_step w (arena7x7_on_sp_consume sd_ptr amount w)"
  unfolding arena7x7_on_sp_consume_def
  by (auto split: option.split prod.split intro!: good_step_refl good_step_upd1 ms_sp)

lemma good_step_log_skill: "good_step w (arena7x7_log_skill_damage E caster target sk lv dmg hits crit w)"
  unfolding arena7x7_log_skill_damage_def
  by (auto split: option.split block_list.split prod.split intro!: good_step_same
      intro: good_step_pair [OF _ _ _ ms_log_skill])

lemma good_step_count_skill: "good_step w (arena7x7_count_skill_use E sd_ptr sk w)"
  unfolding arena7x7_count_skill_use_def Let_def
  by (auto split: option.split prod.split intro!: good_step_refl good_step_upd1 ms_skill_use)

lemma good_step_items_used: "good_step w (upd_match m (add_items_used c amount) w)"
  unfolding add_items_used_def by (rule good_step_upd1) (rule ms_items_used)

lemma good_step_log_item: "good_step w (upd_match m (log_item l) w)"
  by (rule good_step_upd1) (rule ms_log_item)

lemma good_step_skill_item: "good_step w (arena7x7_log_skill_item_consumption E sd_ptr item amount sk ty w)"
  unfolding arena7x7_log_skill_item_consumption_def Let_def
  by (auto split: option.split prod.split
      intro!: good_step_refl good_step_trans [OF good_step_items_used good_step_log_item])

lemma good_step_arrow: "good_step w (arena7x7_log_arrow_consumption E sd_ptr arrow amount sk w)"
  unfolding arena7x7_log_arrow_consumption_def Let_def
  by (auto split: option.split prod.split
      intro!: good_step_refl good_step_trans [OF good_step_items_used good_step_log_item] good_step_log_item)

lemma good_step_normal_attack: "good_step w (arena7x7_log_normal_attack attacker target dmg crit miss w)"
  unfolding arena7x7_log_normal_attack_def
  by (auto split: option.split block_list.split prod.split intro!: good_step_same
      intro: good_step_pair [OF _ _ _ ms_log_attack])

section \<open>One call of the arena\<close>

text \<open>
  The entry points the rest of the server uses. \<open>Op_sessions\<close> and \<open>Op_timers\<close> stand
  for everything other modules do to their own state between two calls (players log in and out and
  move, timers come and go).
\<close>

datatype arena_op =
    Op_updatescore int
  | Op_getalive int int
  | Op_restoreall int
  | Op_create string
  | Op_join int int int "map_session_data option"
  | Op_leave int "map_session_data option"
  | Op_start int
  | Op_finish int int int int
  | Op_cancel int
  | Op_set_guild_names uint32 "string option" "string option" uint32 uint32
  | Op_restore_tombstones uint32
  | Op_damage "block_list option" "block_list option" int uint16
  | Op_death "block_list option" map_session_data uint16
  | Op_pc_dead bool map_session_data
  | Op_setpos map_session_data
  | Op_team_warp "map_session_data list"
  | Op_heal "map_session_data option" "map_session_data option" uint16 int
  | Op_buff "map_session_data option" "map_session_data option" uint16
  | Op_item_use "map_session_data option" "map_session_data option" uint32 "string option" int
  | Op_item_consume "map_session_data option" uint32 "string option" int
  | Op_sp_consume "map_session_data option" int
  | Op_skill_damage "map_session_data option" "block_list option" uint16 uint16 int int bool
  | Op_skill_use "map_session_data option" uint16
  | Op_skill_item "map_session_data option" uint32 uint16 uint16 "string option"
  | Op_arrow "map_session_data option" uint32 uint16 int
  | Op_normal_attack "map_session_data option" "block_list option" int bool bool
  | Op_sessions "(uint32, map_session_data) umap"
  | Op_timers timers
  | Op_shutdown

fun arena_exec :: "arena_env \<Rightarrow> arena_op \<Rightarrow> world \<Rightarrow> world" where
  "arena_exec E (Op_updatescore i) w = snd (buildin_arena7x7_updatescore E i w)"
| "arena_exec E (Op_getalive i t) w = snd (buildin_arena7x7_getalive i t w)"
| "arena_exec E (Op_restoreall i) w = snd (buildin_arena7x7_restoreall E i w)"
| "arena_exec E (Op_create name) w = snd (buildin_arena7x7_create name w)"
| "arena_exec E (Op_join i t l rid) w = snd (buildin_arena7x7_join E i t l rid w)"
| "arena_exec E (Op_leave d rid) w = snd (buildin_arena7x7_leave E d rid w)"
| "arena_exec E (Op_start i) w = snd (buildin_arena7x7_start E i w)"
| "arena_exec E (Op_finish i t b r) w = snd (buildin_arena7x7_finish E i t b r w)"
| "arena_exec E (Op_cancel i) w = snd (buildin_arena7x7_cancel E i w)"
| "arena_exec E (Op_set_guild_names m b r bi ri) w = snd (arena7x7_set_guild_names m b r bi ri w)"
| "arena_exec E (Op_restore_tombstones m) w = arena7x7_restore_all_tombstones E m w"
| "arena_exec E (Op_damage src tgt hp sk) w = status_damage_arena E src tgt hp sk w"
| "arena_exec E (Op_death src sd sk) w = status_damage_death E src sd sk w"
| "arena_exec E (Op_pc_dead cem sd) w = snd (pc_dead_arena E cem sd w)"
| "arena_exec E (Op_setpos sd) w = pc_setpos_arena E sd w"
| "arena_exec E (Op_team_warp sds) w = bg_team_warp_arena E sds w"
| "arena_exec E (Op_heal c t sk n) w = arena7x7_on_heal E c t sk n w"
| "arena_exec E (Op_buff c t sk) w = arena7x7_on_buff E c t sk w"
| "arena_exec E (Op_item_use c t i n v) w = arena7x7_on_item_use E c t i n v w"
| "arena_exec E (Op_item_consume c i n a) w = arena7x7_track_item_consume E c i n a w"
| "arena_exec E (Op_sp_consume c n) w = arena7x7_on_sp_consume c n w"
| "arena_exec E (Op_skill_damage c t sk lv d h cr) w = arena7x7_log_skill_damage E c t sk lv d h cr w"
| "arena_exec E (Op_skill_use c sk) w = arena7x7_count_skill_use E c sk w"
| "arena_exec E (Op_skill_item c i a sk ty) w = arena7x7_log_skill_item_consumption E c i a sk ty w"
| "arena_exec E (Op_arrow c i a sk) w = arena7x7_log_arrow_consumption E c i a sk w"
| "arena_exec E (Op_normal_attack c t d cr mi) w = arena7x7_log_normal_attack c t d cr mi w"
| "arena_exec E (Op_sessions ss) w = w\<lparr>aw_sessions := ss\<rparr>"
| "arena_exec E (Op_timers T) w = w\<lparr>aw_timers := T\<rparr>"
| "arena_exec E Op_shutdown w = do_final_arena7x7 E w"

end
