(* ===== verification/ArenaInvariants.thy ===== *)
theory ArenaInvariants
  imports ArenaReach
begin

text \<open>
  Reachable states of the arena and the invariants of their matches: the aggregates agree with the
  logs, streaks are bounded, and a match that has left the waiting state never returns to it.
\<close>

section \<open>Reachable states\<close>

lemma good_step_restoreall: "good_step w (snd (buildin_arena7x7_restoreall E i w))"
proof -
  have one: "good_step w (snd (restoreall_one E m c (n, w)))" for m c n w
    by (auto simp: restoreall_one_def good_step_refl good_step_restore split: option.split)
  have "good_step w (snd (fold (restoreall_one E m) cs (n, w)))" for m cs n w
  proof (induction cs arbitrary: n w)
    case Nil
    then show ?case by (simp add: good_step_refl)
  next
    case (Cons c cs)
    obtain n1 w1 where r: "restoreall_one E m c (n, w) = (n1, w1)" by fastforce
    with one [of w m c n] have "good_step w w1" by simp
    from good_step_trans [OF this Cons.IH [of w1 n1]] r show ?case by simp
  qed
  then have "good_step w (snd (case fold (restoreall_one E m) cs (n, w) of (n, w') \<Rightarrow> (S_int n, w')))" for m cs n
    by (simp add: case_prod_beta)
  then show ?thesis by (simp add: buildin_arena7x7_restoreall_def good_step_refl split: option.split prod.split)
qed

lemma good_step_setpos: "good_step w (pc_setpos_arena E sd w)"
  unfolding pc_setpos_arena_def Let_def
  by (auto intro: good_step_refl good_step_trans [OF good_step_restore good_step_remove] good_step_remove)

lemma good_step_status_death: "good_step w (status_damage_death E src sd sk w)"
  unfolding status_damage_death_def
  by (auto split: option.split intro: good_step_refl good_step_on_death good_step_engine)

lemma good_step_pc_dead: "good_step w (snd (pc_dead_arena E cem sd w))"
  unfolding pc_dead_arena_def by (auto intro: good_step_refl good_step_on_death)

lemma good_step_team_warp: "good_step w (bg_team_warp_arena E sds w)"
  unfolding bg_team_warp_arena_def
  by (rule good_step_fold) (auto intro: good_step_refl good_step_setpos)

lemma good_step_final: "good_step w (do_final_arena7x7 E w)"
  unfolding good_step_def using arena_wf_final
  by (auto simp: evolves_def do_final_arena7x7_def Let_def umap_simps)

text \<open>
  Creating needs an unused id: after 2^32 - 1 creations the counter wraps, and this development
  stops there.
\<close>

definition op_ready :: "arena_op \<Rightarrow> world \<Rightarrow> bool" where
  "op_ready c w = (case c of Op_create _ \<Rightarrow> aw_match_counter w \<noteq> - 1 | _ \<Rightarrow> True)"

definition is_create :: "arena_op \<Rightarrow> bool" where
  "is_create c = (case c of Op_create _ \<Rightarrow> True | _ \<Rightarrow> False)"

lemma good_step_exec: "\<not> is_create c \<Longrightarrow> good_step w (arena_exec E c w)"
proof (cases c)
  case (Op_create name)
  then show "\<not> is_create c \<Longrightarrow> ?thesis" by (simp add: is_create_def)
next
  case (Op_getalive i t)
  then show ?thesis
    by (auto simp: buildin_arena7x7_getalive_def Let_def good_step_refl good_step_upd1 ms_count split: option.split)
next
  case (Op_join i t l rid)
  then show ?thesis
    by (auto simp: buildin_arena7x7_join_def case_prod_beta good_step_refl good_step_add split: option.split)
next
  case (Op_leave d rid)
  then show ?thesis
    by (auto simp: buildin_arena7x7_leave_def case_prod_beta good_step_refl good_step_remove split: option.split)
qed (auto simp: buildin_arena7x7_updatescore_def buildin_arena7x7_start_def buildin_arena7x7_finish_def
    buildin_arena7x7_cancel_def case_prod_beta Let_def status_damage_arena_def
    good_step_refl good_step_score_display good_step_restoreall good_step_start good_step_finish
    good_step_cancel good_step_set_guild_names good_step_restore_all good_step_on_damage
    good_step_status_death good_step_pc_dead good_step_setpos good_step_team_warp good_step_on_heal
    good_step_on_buff good_step_on_item_use good_step_track good_step_sp good_step_log_skill
    good_step_count_skill good_step_skill_item good_step_arrow good_step_normal_attack good_step_final
    split: option.split)

text \<open>One call keeps the invariant, and every match it leaves has come from the one stored before.\<close>

lemma exec_step:
  assumes wf: "arena_wf w" and ready: "op_ready c w"
  shows "arena_wf (arena_exec E c w) \<and> evolves_new w (arena_exec E c w)"
proof (cases "is_create c")
  case True
  then obtain name where c: "c = Op_create name" by (cases c) (simp_all add: is_create_def)
  with ready have "aw_match_counter w \<noteq> - 1" by (simp add: op_ready_def)
  from arena_wf_create [OF wf this] create_evolves_new [OF wf this] c show ?thesis
    by (simp add: buildin_arena7x7_create_def case_prod_beta)
next
  case False
  from good_step_exec [OF this, of w E] wf show ?thesis
    by (simp add: good_step_def evolves_evolves_new)
qed

inductive arena_reachable :: "world \<Rightarrow> bool" where
  boot: "arena_reachable (do_init_arena7x7 E (start_world\<lparr>aw_db := D, aw_mapdata := md, aw_timers := T\<rparr>))"
| call: "arena_reachable w \<Longrightarrow> op_ready c w \<Longrightarrow> arena_reachable (arena_exec E c w)"

lemma do_init_frame:
  "aw_matches (do_init_arena7x7 E w) = aw_matches w" "aw_player_match (do_init_arena7x7 E w) = aw_player_match w"
  by (simp_all add: do_init_arena7x7_def Let_def case_prod_beta)

lemma reachable_wf: "arena_reachable w \<Longrightarrow> arena_wf w"
proof (induction rule: arena_reachable.induct)
  case (boot E D md T)
  show ?case by (simp add: arena_wf_def do_init_frame start_world_def umap_simps wf_intros)
next
  case (call w c E)
  then show ?case using exec_step by blast
qed

text \<open>Every match of a reachable state has come from a new one by match steps.\<close>

definition match_reachable :: "s_arena7x7_match \<Rightarrow> bool" where
  "match_reachable M \<longleftrightarrow> (\<exists>m M0. new_match_at m M0 \<and> match_steps M0 M)"

lemma reachable_match:
  "arena_reachable w \<Longrightarrow> um_find (aw_matches w) m = Some M \<Longrightarrow> match_reachable M"
proof (induction arbitrary: m M rule: arena_reachable.induct)
  case (boot E D md T)
  then show ?case by (simp add: do_init_frame start_world_def umap_simps)
next
  case (call w c E)
  have ev: "evolves_new w (arena_exec E c w)"
    using exec_step [OF reachable_wf [OF call.hyps(1)] call.hyps(2)] by blast
  show ?case
  proof (cases "um_find (aw_matches w) m")
    case None
    with ev call.prems show ?thesis unfolding evolves_new_def match_reachable_def by fastforce
  next
    case (Some M0)
    with ev call.prems have "match_steps M0 M" unfolding evolves_new_def by fastforce
    with call.IH [OF Some] show ?thesis unfolding match_reachable_def by (meson rtranclp_trans)
  qed
qed

section \<open>Invariants of a match\<close>

text \<open>
  The interface: a predicate that holds of new matches and is kept by every match step holds of every
  match of every reachable state.
\<close>

locale match_invariant =
  fixes P :: "s_arena7x7_match \<Rightarrow> bool"
  assumes P_new: "new_match_at m M \<Longrightarrow> P M"
    and P_step: "match_step M M' \<Longrightarrow> P M \<Longrightarrow> P M'"
begin

lemma P_steps: "match_steps M M' \<Longrightarrow> P M \<Longrightarrow> P M'"
  by (induction rule: rtranclp_induct) (auto intro: P_step)

lemma P_reachable: "match_reachable M \<Longrightarrow> P M"
  unfolding match_reachable_def using P_new P_steps by blast

lemma invariant: "arena_reachable w \<Longrightarrow> um_find (aw_matches w) m = Some M \<Longrightarrow> P M"
  using P_reachable reachable_match by blast

end

text \<open>The fields no step but its own kind touches.\<close>

lemma assists_frame:
  "mt_damage_log (fold (\<lambda>a. upd_stats a f) as M) = mt_damage_log M"
  "mt_support_log (fold (\<lambda>a. upd_stats a f) as M) = mt_support_log M"
  "mt_kill_log (fold (\<lambda>a. upd_stats a f) as M) = mt_kill_log M"
  "mt_damage_by_skill (fold (\<lambda>a. upd_stats a f) as M) = mt_damage_by_skill M"
  "mt_damage_by_target (fold (\<lambda>a. upd_stats a f) as M) = mt_damage_by_target M"
  "mt_support_by_target (fold (\<lambda>a. upd_stats a f) as M) = mt_support_by_target M"
  "mt_status (fold (\<lambda>a. upd_stats a f) as M) = mt_status M"
  "mt_item_log (fold (\<lambda>a. upd_stats a f) as M) = mt_item_log M"
  "mt_skill_log (fold (\<lambda>a. upd_stats a f) as M) = mt_skill_log M"
  "mt_item_usage_log (fold (\<lambda>a. upd_stats a f) as M) = mt_item_usage_log M"
  "mt_map_name (fold (\<lambda>a. upd_stats a f) as M) = mt_map_name M"
  "mt_attack_log (fold (\<lambda>a. upd_stats a f) as M) = mt_attack_log M"
  by (induction as arbitrary: M) (simp_all add: frame_simps)

lemmas step_defs = arena7x7_record_damage_def arena7x7_record_kill_def arena7x7_record_support_def
  arena7x7_record_item_use_def arena7x7_record_sp_use_def arena7x7_count_alive_players_def log_item_def
  finish_stamp_def Let_def

text \<open>The books: damage, hits and critical hits by pair and by skill, healing, buffs and uses by pair.\<close>

interpretation target_damage: ledger de_target_key zero_damage_by_target post_by_target dt_total_damage de_damage
  by unfold_locales (simp_all add: zero_damage_by_target_def post_by_target_def Let_def)

interpretation target_hits: ledger de_target_key zero_damage_by_target post_by_target dt_hit_count "\<lambda>_. 1"
  by unfold_locales (simp_all add: zero_damage_by_target_def post_by_target_def Let_def)

interpretation skill_damage: ledger de_skill_key zero_damage_by_skill "post_by_skill E" ds_total_damage de_damage for E
  by unfold_locales (simp_all add: zero_damage_by_skill_def post_by_skill_def Let_def)

interpretation skill_hits: ledger de_skill_key zero_damage_by_skill "post_by_skill E" ds_hit_count "\<lambda>_. 1" for E
  by unfold_locales (simp_all add: zero_damage_by_skill_def post_by_skill_def Let_def)

interpretation support_healing: ledger se_key zero_support_by_target post_support st_total_healing
  "\<lambda>e. if se_type e = ARENA7X7_SUPPORT_HEAL then se_value e else 0"
  by unfold_locales (simp_all add: zero_support_by_target_def post_support_def Let_def)

interpretation support_uses: ledger se_key zero_support_by_target post_support st_skill_count "\<lambda>_. 1"
  by unfold_locales (simp_all add: zero_support_by_target_def post_support_def Let_def)

definition damage_books :: "s_arena7x7_match \<Rightarrow> bool" where
  "damage_books M \<longleftrightarrow>
     ledger_books de_target_key dt_total_damage de_damage (mt_damage_log M) (mt_damage_by_target M) \<and>
     ledger_books de_target_key dt_hit_count (\<lambda>_. 1) (mt_damage_log M) (mt_damage_by_target M) \<and>
     ledger_books de_skill_key ds_total_damage de_damage (mt_damage_log M) (mt_damage_by_skill M) \<and>
     ledger_books de_skill_key ds_hit_count (\<lambda>_. 1) (mt_damage_log M) (mt_damage_by_skill M)"

definition support_books :: "s_arena7x7_match \<Rightarrow> bool" where
  "support_books M \<longleftrightarrow>
     ledger_books se_key st_total_healing (\<lambda>e. if se_type e = ARENA7X7_SUPPORT_HEAL then se_value e else 0)
       (mt_support_log M) (mt_support_by_target M) \<and>
     ledger_books se_key st_skill_count (\<lambda>_. 1) (mt_support_log M) (mt_support_by_target M)"

text \<open>A kill leaves the totals of the two damage aggregates alone.\<close>

lemma ledger_total_kill:
  "ledger_total dt_total_damage (um_at k zero_damage_by_target (\<lambda>d. d\<lparr>dt_kill_count := dt_kill_count d + 1\<rparr>) m) k' =
     ledger_total dt_total_damage m k'"
  "ledger_total dt_hit_count (um_at k zero_damage_by_target (\<lambda>d. d\<lparr>dt_kill_count := dt_kill_count d + 1\<rparr>) m) k' =
     ledger_total dt_hit_count m k'"
  "ledger_total ds_total_damage (um_modify s (\<lambda>d. d\<lparr>ds_kill_count := ds_kill_count d + 1\<rparr>) n) k' =
     ledger_total ds_total_damage n k'"
  "ledger_total ds_hit_count (um_modify s (\<lambda>d. d\<lparr>ds_kill_count := ds_kill_count d + 1\<rparr>) n) k' =
     ledger_total ds_hit_count n k'"
  by (auto simp: ledger_total_def umap_simps zero_damage_by_target_def split: option.splits)

lemma damage_books_step: "match_step M M' \<Longrightarrow> damage_books M \<Longrightarrow> damage_books M'"
proof (induction rule: match_step.induct)
  case (ms_damage M a t E s d b)
  then show ?case
    using target_damage.books_post target_hits.books_post skill_damage.books_post skill_hits.books_post
    by (auto simp: damage_books_def arena7x7_record_damage_def Let_def frame_simps)
next
  case (ms_kill M k v E s d)
  then show ?case
    by (auto simp: damage_books_def arena7x7_record_kill_def Let_def frame_simps assists_frame
        ledger_books_def ledger_total_kill)
qed (auto simp: damage_books_def step_defs frame_simps)

lemma support_books_step: "match_step M M' \<Longrightarrow> support_books M \<Longrightarrow> support_books M'"
proof (induction rule: match_step.induct)
  case (ms_support M c t E s type v)
  then show ?case
    using support_healing.books_post support_uses.books_post
    by (auto simp: support_books_def arena7x7_record_support_def Let_def frame_simps)
next
  case (ms_kill M k v E s d)
  then show ?case
    by (auto simp: support_books_def arena7x7_record_kill_def Let_def frame_simps assists_frame)
qed (auto simp: support_books_def step_defs frame_simps)

lemma new_match_books: "new_match_at m M \<Longrightarrow> damage_books M \<and> support_books M"
  by (auto simp: new_match_at_def new_match_def damage_books_def support_books_def ledger_books_Nil)

interpretation books: match_invariant "\<lambda>M. damage_books M \<and> support_books M"
  by unfold_locales (use new_match_books damage_books_step support_books_step in blast)+

end
