(* ===== verification/ArenaHistory.thy ===== *)
theory ArenaHistory
  imports ArenaInvariants "HOL-Library.Sublist"
begin

text \<open>
  What every reachable state of the arena satisfies, and how a match may change from one call to the
  next: a concrete run used as the example, the invariants of single matches, and the order on the
  histories of a match.
\<close>

section \<open>A concrete run\<close>

text \<open>
  Two players join a match on the map \<open>arena\<close>, one on each team; it starts, the first hits the
  second twice, and the second dies of it.
\<close>

definition boot_world :: world where
  "boot_world = do_init_arena7x7 sample_env start_world"

definition sample_sessions :: "(uint32, map_session_data) umap" where
  "sample_sessions = [(7, sample_sd 7), (8, sample_sd 8)]"

definition join_ops :: "arena_op list" where
  "join_ops = [Op_sessions sample_sessions, Op_create ''arena'', Op_join 1 1 1 (Some (sample_sd 7)),
     Op_join 1 2 0 (Some (sample_sd 8))]"

definition fight_ops :: "arena_op list" where
  "fight_ops = [Op_start 1, Op_damage (Some (Bl_pc (sample_sd 7))) (Some (Bl_pc (sample_sd 8))) 40 14,
     Op_damage (Some (Bl_pc (sample_sd 7))) (Some (Bl_pc (sample_sd 8))) 60 14]"

definition death_op :: arena_op where
  "death_op = Op_pc_dead True ((sample_sd 8)\<lparr>sd_bg_id := 1\<rparr>)"

definition run_ops :: "arena_op list \<Rightarrow> world \<Rightarrow> world" where
  "run_ops cs w = fold (arena_exec sample_env) cs w"

definition joined_world :: world where
  "joined_world = run_ops join_ops boot_world"

definition fought_world :: world where
  "fought_world = run_ops fight_ops joined_world"

definition killed_world :: world where
  "killed_world = arena_exec sample_env death_op fought_world"

lemma boot_reachable: "arena_reachable boot_world"
  using arena_reachable.boot [where E = sample_env and D = "aw_db start_world" and
    md = "aw_mapdata start_world" and T = "aw_timers start_world"]
  by (simp add: boot_world_def)

lemma run_reachable:
  "arena_reachable w \<Longrightarrow> \<forall>c \<in> set cs. \<not> is_create c \<Longrightarrow> arena_reachable (run_ops cs w)"
proof (induction cs arbitrary: w)
  case Nil
  then show ?case by (simp add: run_ops_def)
next
  case (Cons c cs)
  then have "op_ready c w" by (cases c) (simp_all add: op_ready_def is_create_def)
  with Cons.prems have "arena_reachable (arena_exec sample_env c w)" by (intro arena_reachable.call)
  from Cons.IH [OF this] Cons.prems show ?case by (simp add: run_ops_def)
qed

lemma joined_reachable: "arena_reachable joined_world"
proof -
  have "arena_reachable (run_ops [Op_sessions sample_sessions] boot_world)"
    by (rule run_reachable [OF boot_reachable]) (simp add: is_create_def)
  moreover have "op_ready (Op_create ''arena'') (run_ops [Op_sessions sample_sessions] boot_world)"
    by code_simp
  ultimately have "arena_reachable (arena_exec sample_env (Op_create ''arena'')
      (run_ops [Op_sessions sample_sessions] boot_world))"
    by (rule arena_reachable.call)
  from run_reachable [OF this, of "[Op_join 1 1 1 (Some (sample_sd 7)), Op_join 1 2 0 (Some (sample_sd 8))]"]
  show ?thesis by (simp add: joined_world_def join_ops_def run_ops_def is_create_def)
qed

lemma fought_reachable: "arena_reachable fought_world"
  unfolding fought_world_def by (rule run_reachable [OF joined_reachable]) (simp add: fight_ops_def is_create_def)

lemma killed_reachable: "arena_reachable killed_world"
  using run_reachable [OF fought_reachable, of "[death_op]"]
  by (simp add: killed_world_def run_ops_def death_op_def is_create_def)

definition killed_match :: s_arena7x7_match where
  "killed_match = the (um_find (aw_matches killed_world) 1)"

lemma killed_found: "um_find (aw_matches killed_world) 1 = Some killed_match"
proof -
  have "um_find (aw_matches killed_world) 1 \<noteq> None" by code_simp
  then show ?thesis by (auto simp: killed_match_def)
qed

section \<open>The invariant of the whole arena\<close>

text \<open>C1: In every reachable state the registration of characters and the matches agree: a
  registered character is found in a match that is stored under its own id, as one of its players,
  and is reported as being in a match; a character that is not registered is in no match, has no
  statistics, no team, and is not dead.\<close>

theorem registration_consistent:
  assumes "arena_reachable w"
  shows "(case um_find (aw_player_match w) c of
      Some m \<Rightarrow> (\<exists>M s. arena7x7_get_player_match c w = Some (m, M) \<and> mt_match_id M = m \<and>
        arena7x7_get_player_stats c w = Some s \<and> ps_char_id s = c \<and>
        arena7x7_get_player_team c w = ps_team s) \<and> arena7x7_is_in_match c w
    | None \<Rightarrow> arena7x7_get_player_match c w = None \<and> arena7x7_get_player_stats c w = None \<and>
        arena7x7_get_player_team c w = ARENA7X7_TEAM_NONE \<and> \<not> arena7x7_is_in_match c w \<and>
        \<not> arena7x7_is_player_dead c w)"
proof (cases "um_find (aw_player_match w) c")
  case None
  then show ?thesis
    by (simp add: arena7x7_get_player_match_def arena7x7_get_player_stats_def arena7x7_get_player_team_def
        arena7x7_is_in_match_def arena7x7_is_player_dead_def)
next
  case (Some m)
  have wf: "arena_wf w" by (rule reachable_wf) (rule assms)
  obtain M s where M: "arena7x7_get_player_match c w = Some (m, M)" "um_find (mt_players M) c = Some s"
      "arena7x7_get_player_stats c w = Some s"
    by (rule player_match_found [OF wf Some])
  have "mt_match_id M = m" "ps_char_id s = c"
    using player_matchD [OF wf M(1)] arena_wf_match [OF wf, of m M] M(2) by (simp_all add: match_ok_def)
  moreover have "mt_status M = ARENA7X7_MATCH_ACTIVE \<or> mt_status M = ARENA7X7_MATCH_WAITING \<or>
      mt_status M = ARENA7X7_MATCH_FINISHED \<or> mt_status M = ARENA7X7_MATCH_CANCELLED"
    by (cases "mt_status M") simp_all
  ultimately show ?thesis
    using Some M by (simp add: arena7x7_get_player_team_def arena7x7_is_in_match_def)
qed

theorem registration_consistent_witness:
  "case um_find (aw_player_match killed_world) 8 of
      Some m \<Rightarrow> (\<exists>M s. arena7x7_get_player_match 8 killed_world = Some (m, M) \<and> mt_match_id M = m \<and>
        arena7x7_get_player_stats 8 killed_world = Some s \<and> ps_char_id s = 8 \<and>
        arena7x7_get_player_team 8 killed_world = ps_team s) \<and> arena7x7_is_in_match 8 killed_world
    | None \<Rightarrow> arena7x7_get_player_match 8 killed_world = None \<and> arena7x7_get_player_stats 8 killed_world = None \<and>
        arena7x7_get_player_team 8 killed_world = ARENA7X7_TEAM_NONE \<and> \<not> arena7x7_is_in_match 8 killed_world \<and>
        \<not> arena7x7_is_player_dead 8 killed_world"
  by (rule registration_consistent) (rule killed_reachable)

section \<open>Aggregates and logs\<close>

text \<open>C3: In every match of a reachable state the damage aggregates are the sums of the damage log:
  per attacker and target, and per attacker and skill, the total damage (mod 2^32) and the number of
  hits (mod 2^16) are those of the log entries with that key; and the healing and the number of
  support skills per caster and target are those of the support log.\<close>

theorem aggregates_match_logs:
  assumes "arena_reachable w" and "um_find (aw_matches w) m = Some M"
  shows "ledger_books de_target_key dt_total_damage de_damage (mt_damage_log M) (mt_damage_by_target M) \<and>
     ledger_books de_target_key dt_hit_count (\<lambda>_. 1) (mt_damage_log M) (mt_damage_by_target M) \<and>
     ledger_books de_skill_key ds_total_damage de_damage (mt_damage_log M) (mt_damage_by_skill M) \<and>
     ledger_books de_skill_key ds_hit_count (\<lambda>_. 1) (mt_damage_log M) (mt_damage_by_skill M) \<and>
     ledger_books se_key st_total_healing (\<lambda>e. if se_type e = ARENA7X7_SUPPORT_HEAL then se_value e else 0)
       (mt_support_log M) (mt_support_by_target M) \<and>
     ledger_books se_key st_skill_count (\<lambda>_. 1) (mt_support_log M) (mt_support_by_target M)"
  using books.invariant [OF assms] unfolding damage_books_def support_books_def by blast

theorem aggregates_match_logs_witness:
  "ledger_books de_target_key dt_total_damage de_damage (mt_damage_log killed_match) (mt_damage_by_target killed_match) \<and>
     ledger_books de_target_key dt_hit_count (\<lambda>_. 1) (mt_damage_log killed_match) (mt_damage_by_target killed_match) \<and>
     ledger_books de_skill_key ds_total_damage de_damage (mt_damage_log killed_match) (mt_damage_by_skill killed_match) \<and>
     ledger_books de_skill_key ds_hit_count (\<lambda>_. 1) (mt_damage_log killed_match) (mt_damage_by_skill killed_match) \<and>
     ledger_books se_key st_total_healing (\<lambda>e. if se_type e = ARENA7X7_SUPPORT_HEAL then se_value e else 0)
       (mt_support_log killed_match) (mt_support_by_target killed_match) \<and>
     ledger_books se_key st_skill_count (\<lambda>_. 1) (mt_support_log killed_match) (mt_support_by_target killed_match)"
  by (rule aggregates_match_logs [OF killed_reachable killed_found])

section \<open>Who appears in the logs\<close>

lemma in_match_step: "match_step M M' \<Longrightarrow> in_match M c \<Longrightarrow> in_match M' c"
  using step_roster [of M M'] by (auto simp: roster_kept_def in_match_def)

text \<open>The recent damage of a player, and how a step may change it.\<close>

definition recent_of :: "s_arena7x7_match \<Rightarrow> uint32 \<Rightarrow> s_arena7x7_recent_damage list" where
  "recent_of M c = (case um_find (mt_players M) c of None \<Rightarrow> [] | Some s \<Rightarrow> ps_recent_damage_taken s)"

lemma recent_upd_stats:
  "(\<And>s. ps_recent_damage_taken (f s) = ps_recent_damage_taken s) \<Longrightarrow> recent_of (upd_stats a f M) c = recent_of M c"
  by (simp add: recent_of_def umap_simps split: option.split)

lemma recent_fold:
  "(\<And>s. ps_recent_damage_taken (f s) = ps_recent_damage_taken s) \<Longrightarrow>
   recent_of (fold (\<lambda>a. upd_stats a f) as M) c = recent_of M c"
  by (induction as arbitrary: M) (simp_all add: recent_upd_stats)

lemma recent_stats [simp]:
  "ps_recent_damage_taken (attacker_stats d s) = ps_recent_damage_taken s"
  "ps_recent_damage_taken (killer_stats s) = ps_recent_damage_taken s"
  "ps_recent_damage_taken (caster_stats ty v s) = ps_recent_damage_taken s"
  "ps_recent_damage_taken (item_user_stats ity i s) = ps_recent_damage_taken s"
  "ps_recent_damage_taken (count_skill E sk s) = ps_recent_damage_taken s"
  "ps_recent_damage_taken (die_stats t1 t2 s) = []"
  by (simp_all add: attacker_stats_def killer_stats_def caster_stats_def item_user_stats_def count_skill_def
      die_stats_def Let_def split: e_arena7x7_item_type.split)



lemma recent_frame [simp]:
  "recent_of (mt_damage_log_update f0 M) c = recent_of M c" "recent_of (mt_support_log_update f1 M) c = recent_of M c"
  "recent_of (mt_kill_log_update f2 M) c = recent_of M c" "recent_of (mt_item_log_update f3 M) c = recent_of M c"
  "recent_of (mt_damage_by_skill_update f4 M) c = recent_of M c" "recent_of (mt_damage_by_target_update f5 M) c = recent_of M c"
  "recent_of (mt_support_by_target_update f6 M) c = recent_of M c" "recent_of (mt_skill_log_update f7 M) c = recent_of M c"
  "recent_of (mt_attack_log_update f8 M) c = recent_of M c" "recent_of (mt_item_usage_log_update f9 M) c = recent_of M c"
  "recent_of (mt_blue_alive_update f10 M) c = recent_of M c" "recent_of (mt_red_alive_update f11 M) c = recent_of M c"
  "recent_of (mt_status_update f12 M) c = recent_of M c" "recent_of (mt_start_time_update f13 M) c = recent_of M c"
  "recent_of (mt_end_time_update f14 M) c = recent_of M c" "recent_of (mt_blue_guild_name_update f15 M) c = recent_of M c"
  "recent_of (mt_blue_guild_id_update f16 M) c = recent_of M c" "recent_of (mt_red_guild_name_update f17 M) c = recent_of M c"
  "recent_of (mt_red_guild_id_update f18 M) c = recent_of M c"
  by (simp_all add: recent_of_def)

lemma recent_die: "rd \<in> set (recent_of (upd_stats a (die_stats t1 t2) M) c) \<Longrightarrow> rd \<in> set (recent_of M c)"
  by (cases "um_find (mt_players M) a") (simp_all add: recent_of_def umap_simps split: if_splits)

lemma recent_target:
  "rd \<in> set (recent_of (upd_stats t (target_stats now a sk d) M) c) \<Longrightarrow>
   rd \<in> set (recent_of M c) \<or> rd_attacker_id rd = a"
  by (cases "um_find (mt_players M) t") (auto simp: recent_of_def umap_simps target_stats_def split: if_splits)

lemma recent_step:
  "match_step M M' \<Longrightarrow> rd \<in> set (recent_of M' c) \<Longrightarrow> rd \<in> set (recent_of M c) \<or> in_match M (rd_attacker_id rd)"
proof (induction rule: match_step.induct)
  case (ms_damage M a t E s d b)
  show ?case
  proof (cases "mt_status M = ARENA7X7_MATCH_ACTIVE")
    case True
    let ?e = "damage_entry (env_tick E Tk_record) a t s d b"
    let ?M1 = "M\<lparr>mt_damage_log := mt_damage_log M @ [?e]\<rparr>"
    let ?M3 = "upd_stats t (target_stats (env_tick E Tk_record) a s d) (upd_stats a (attacker_stats d) ?M1)"
    have "recent_of (arena7x7_record_damage E a t s d b M) c = recent_of ?M3 c"
      by (simp add: arena7x7_record_damage_def Let_def True)
    with ms_damage.prems have "rd \<in> set (recent_of (upd_stats a (attacker_stats d) ?M1) c) \<or> rd_attacker_id rd = a"
      using recent_target by fastforce
    moreover have "recent_of (upd_stats a (attacker_stats d) ?M1) c = recent_of M c"
      by (simp add: recent_upd_stats)
    ultimately show ?thesis using ms_damage.hyps by auto
  next
    case False
    with ms_damage.prems show ?thesis by (simp add: arena7x7_record_damage_def)
  qed
next
  case (ms_kill M k v E s d)
  have "recent_of (arena7x7_record_kill E k v s d M) c =
      recent_of (upd_stats v (die_stats (env_tick E Tk_record) (env_tick E Tk_record)) M) c"
    if "mt_status M = ARENA7X7_MATCH_ACTIVE"
    using that by (simp add: arena7x7_record_kill_def Let_def recent_fold recent_upd_stats)
  with ms_kill.prems recent_die show ?case
    by (cases "mt_status M = ARENA7X7_MATCH_ACTIVE") (fastforce simp: arena7x7_record_kill_def)+
next
  case (ms_join M c' s x y)
  then show ?case by (auto simp: recent_of_def umap_simps fresh_stats_def split: if_splits)
next
  case (ms_finish M E winner blue red)
  then show ?case by (auto simp: recent_of_def finish_stamp_def umap_simps split: option.splits if_splits)
next
  case (ms_die M c' t1 t2)
  then show ?case using recent_die by blast
qed (auto simp: step_defs recent_upd_stats split: if_splits)

text \<open>A kill names players of the match, up to three assistants other than the killer, and a streak.\<close>

definition kill_ok :: "s_arena7x7_match \<Rightarrow> s_arena7x7_kill_entry \<Rightarrow> bool" where
  "kill_ok M k \<longleftrightarrow> in_match M (ke_killer_id k) \<and> in_match M (ke_victim_id k) \<and> ke_killer_streak k \<noteq> None \<and>
     (\<exists>as. distinct as \<and> length as \<le> 3 \<and> ke_killer_id k \<notin> set as \<and> (\<forall>a \<in> set as. in_match M a) \<and>
        ke_assist1_id k = nth_or_zero as 0 \<and> ke_assist2_id k = nth_or_zero as 1 \<and> ke_assist3_id k = nth_or_zero as 2)"

definition logs_ok :: "s_arena7x7_match \<Rightarrow> bool" where
  "logs_ok M \<longleftrightarrow>
     (\<forall>e \<in> set (mt_damage_log M). in_match M (de_attacker_id e) \<and> in_match M (de_target_id e) \<and> \<not> de_is_kill e) \<and>
     (\<forall>e \<in> set (mt_support_log M). in_match M (se_caster_id e) \<and> in_match M (se_target_id e)) \<and>
     (\<forall>e \<in> set (mt_skill_log M). in_match M (sl_caster_id e) \<and> in_match M (sl_target_id e)) \<and>
     (\<forall>k \<in> set (mt_kill_log M). kill_ok M k) \<and>
     (\<forall>c. \<forall>rd \<in> set (recent_of M c). in_match M (rd_attacker_id rd))"

lemma kill_ok_step: "match_step M M' \<Longrightarrow> kill_ok M k \<Longrightarrow> kill_ok M' k"
  unfolding kill_ok_def using in_match_step by blast

text \<open>The assistants of a kill.\<close>

lemma kill_assists_props:
  assumes "as = kill_assists E now k v"
  shows "distinct as" "length as \<le> 3" "k \<notin> set as"
    and "a \<in> set as \<Longrightarrow> \<exists>s rd. v = Some s \<and> rd \<in> set (ps_recent_damage_taken s) \<and> rd_attacker_id rd = a \<and>
      DIFF_TICK now (rd_timestamp rd) \<le> ARENA7X7_ASSIST_WINDOW"
proof -
  show "distinct as" "length as \<le> 3"
    using assms by (auto simp: kill_assists_def assist_set_def split: option.split)
  have sub: "set as \<subseteq> (case v of None \<Rightarrow> {} | Some s \<Rightarrow> set (assist_set now k s))"
  proof (cases v)
    case None
    with assms show ?thesis by (simp add: kill_assists_def)
  next
    case (Some s)
    have "set as \<subseteq> set (perm_by (env_order E It_assists) (assist_set now k s))"
      using assms Some by (simp only: kill_assists_def option.case set_take_subset)
    with Some show ?thesis by simp
  qed
  then show "k \<notin> set as" by (auto simp: assist_set_def split: option.splits)
  show "\<exists>s rd. v = Some s \<and> rd \<in> set (ps_recent_damage_taken s) \<and> rd_attacker_id rd = a \<and>
      DIFF_TICK now (rd_timestamp rd) \<le> ARENA7X7_ASSIST_WINDOW" if "a \<in> set as"
    using that sub by (cases v) (auto simp: assist_set_def)
qed

text \<open>What a step adds to each log.\<close>

lemma new_damage:
  "match_step M M' \<Longrightarrow> e \<in> set (mt_damage_log M') \<Longrightarrow>
   e \<in> set (mt_damage_log M) \<or> in_match M (de_attacker_id e) \<and> in_match M (de_target_id e) \<and> \<not> de_is_kill e"
  by (induction rule: match_step.induct)
    (auto simp: step_defs frame_simps assists_frame damage_entry_def split: if_splits)

lemma new_support:
  "match_step M M' \<Longrightarrow> e \<in> set (mt_support_log M') \<Longrightarrow>
   e \<in> set (mt_support_log M) \<or> in_match M (se_caster_id e) \<and> in_match M (se_target_id e)"
  by (induction rule: match_step.induct)
    (auto simp: step_defs frame_simps assists_frame support_entry_def split: if_splits)

lemma new_skill:
  "match_step M M' \<Longrightarrow> e \<in> set (mt_skill_log M') \<Longrightarrow>
   e \<in> set (mt_skill_log M) \<or> in_match M (sl_caster_id e) \<and> in_match M (sl_target_id e)"
  by (induction rule: match_step.induct) (auto simp: step_defs frame_simps assists_frame split: if_splits)

lemma record_kill_ok:
  assumes k: "in_match M k" and v: "in_match M v"
    and recent: "\<And>c rd. rd \<in> set (recent_of M c) \<Longrightarrow> in_match M (rd_attacker_id rd)"
    and e: "e \<in> set (mt_kill_log (arena7x7_record_kill E k v s d M))"
  shows "e \<in> set (mt_kill_log M) \<or> kill_ok M e"
proof (cases "mt_status M = ARENA7X7_MATCH_ACTIVE")
  case False
  with e show ?thesis by (simp add: arena7x7_record_kill_def)
next
  case True
  define as where "as = kill_assists E (env_tick E Tk_record) k (um_find (mt_players M) v)"
  note props = kill_assists_props [OF as_def]
  have in_as: "\<forall>a \<in> set as. in_match M a"
  proof
    fix a
    assume "a \<in> set as"
    from props(4) [OF this] obtain rd where "rd \<in> set (recent_of M v)" "rd_attacker_id rd = a"
      by (auto simp: recent_of_def)
    with recent show "in_match M a" by blast
  qed
  have "e \<in> set (mt_kill_log M) \<or> (ke_killer_id e = k \<and> ke_victim_id e = v \<and> ke_assist1_id e = nth_or_zero as 0 \<and>
      ke_assist2_id e = nth_or_zero as 1 \<and> ke_assist3_id e = nth_or_zero as 2 \<and> ke_killer_streak e \<noteq> None)"
    using e True k
    by (auto simp: arena7x7_record_kill_def Let_def frame_simps assists_frame as_def [symmetric]
        umap_simps in_match_def)
  then show ?thesis
    using props(1-3) in_as k v unfolding kill_ok_def by blast
qed

lemma new_kill:
  assumes "match_step M M'" and recent: "\<And>c rd. rd \<in> set (recent_of M c) \<Longrightarrow> in_match M (rd_attacker_id rd)"
    and "e \<in> set (mt_kill_log M')"
  shows "e \<in> set (mt_kill_log M) \<or> kill_ok M e"
  using assms(1,3) recent
proof (induction rule: match_step.induct)
  case (ms_kill M k v E s d)
  then show ?case using record_kill_ok by blast
qed (auto simp: step_defs frame_simps split: if_splits)

lemma logs_ok_step:
  assumes step: "match_step M M'" and ok: "logs_ok M"
  shows "logs_ok M'"
proof -
  note keep = in_match_step [OF step] and new = new_damage [OF step] new_support [OF step] new_skill [OF step]
  have recent: "in_match M (rd_attacker_id rd)" if "rd \<in> set (recent_of M c)" for c rd
    using ok that unfolding logs_ok_def by blast
  have "\<forall>e \<in> set (mt_damage_log M'). in_match M' (de_attacker_id e) \<and> in_match M' (de_target_id e) \<and> \<not> de_is_kill e"
    "\<forall>e \<in> set (mt_support_log M'). in_match M' (se_caster_id e) \<and> in_match M' (se_target_id e)"
    "\<forall>e \<in> set (mt_skill_log M'). in_match M' (sl_caster_id e) \<and> in_match M' (sl_target_id e)"
    using new keep ok unfolding logs_ok_def by blast+
  moreover have "e \<in> set (mt_kill_log M) \<or> kill_ok M e" if "e \<in> set (mt_kill_log M')" for e
    using new_kill [OF step _ that] recent by blast
  with kill_ok_step [OF step] ok have "\<forall>e \<in> set (mt_kill_log M'). kill_ok M' e" unfolding logs_ok_def by blast
  moreover have "\<forall>c. \<forall>rd \<in> set (recent_of M' c). in_match M' (rd_attacker_id rd)"
    using recent_step [OF step] recent keep by blast
  ultimately show ?thesis unfolding logs_ok_def by blast
qed

lemma new_match_logs_ok: "new_match_at m M \<Longrightarrow> logs_ok M"
  by (auto simp: new_match_at_def new_match_def logs_ok_def recent_of_def umap_simps)

interpretation logs: match_invariant logs_ok
  by unfold_locales (use new_match_logs_ok logs_ok_step in blast)+

text \<open>C11: In every match of a reachable state the logs name only players of the match: attackers
  and targets of the damage log, casters and targets of the support log and of the skill log, killers,
  victims and assistants of the kill log, and the attackers remembered for the next kill. A kill has at
  most three assistants, all different and none of them the killer, and its killing streak is never
  the uninitialised value. The kill flag of a damage entry is never set.\<close>

theorem logs_name_players:
  assumes "arena_reachable w" and "um_find (aw_matches w) m = Some M"
  shows "logs_ok M"
  using assms by (rule logs.invariant)

theorem logs_name_players_witness: "logs_ok killed_match"
  by (rule logs_name_players [OF killed_reachable killed_found])

section \<open>Killing streaks\<close>

definition streak_fine :: "s_arena7x7_player_stats \<Rightarrow> bool" where
  "streak_fine s \<longleftrightarrow> ps_current_streak s \<le> ps_best_streak s"

definition roster_streaks :: "(uint32, s_arena7x7_player_stats) umap \<Rightarrow> bool" where
  "roster_streaks ps \<longleftrightarrow> (\<forall>c s. um_find ps c = Some s \<longrightarrow> streak_fine s)"

lemma roster_streaks_modify:
  "roster_streaks ps \<Longrightarrow> (\<And>s. streak_fine s \<Longrightarrow> streak_fine (f s)) \<Longrightarrow> roster_streaks (um_modify c f ps)"
  by (auto simp: roster_streaks_def umap_simps split: if_splits)

lemma roster_streaks_fold:
  "roster_streaks ps \<Longrightarrow> (\<And>s. streak_fine s \<Longrightarrow> streak_fine (f s)) \<Longrightarrow> roster_streaks (fold (\<lambda>a. um_modify a f) as ps)"
  by (induction as arbitrary: ps) (simp_all add: roster_streaks_modify)

lemma streak_fine_stats [intro, simp]:
  "streak_fine s \<Longrightarrow> streak_fine (attacker_stats d s)" "streak_fine s \<Longrightarrow> streak_fine (target_stats now a sk d s)"
  "streak_fine (die_stats t1 t2 s)" "streak_fine s \<Longrightarrow> streak_fine (killer_stats s)"
  "streak_fine s \<Longrightarrow> streak_fine (caster_stats ty v s)" "streak_fine s \<Longrightarrow> streak_fine (item_user_stats ity i s)"
  "streak_fine s \<Longrightarrow> streak_fine (count_skill E sk s)"
  by (auto simp: streak_fine_def attacker_stats_def target_stats_def die_stats_def killer_stats_def caster_stats_def
      item_user_stats_def count_skill_def Let_def split: e_arena7x7_item_type.split)

lemma players_upd_stats: "mt_players (upd_stats c f M) = um_modify c f (mt_players M)"
  by (simp add: upd_stats_def)

lemma streak_fine_frame [simp]:
  "streak_fine (ps_assists_update f0 s) = streak_fine s" "streak_fine (ps_healing_received_update f1 s) = streak_fine s" "streak_fine (ps_is_dead_update f2 s) = streak_fine s"
  "streak_fine (ps_is_deserter_update f3 s) = streak_fine s" "streak_fine (ps_deaths_update f4 s) = streak_fine s" "streak_fine (ps_total_items_used_update f5 s) = streak_fine s"
  "streak_fine (ps_sp_consumed_update f6 s) = streak_fine s" "streak_fine (ps_zeny_consumed_update f7 s) = streak_fine s" "streak_fine (ps_time_alive_update f8 s) = streak_fine s"
  by (simp_all add: streak_fine_def)

lemma roster_streaks_map:
  "roster_streaks ps \<Longrightarrow> (\<And>s. streak_fine s \<Longrightarrow> streak_fine (f s)) \<Longrightarrow> roster_streaks (um_map f ps)"
  by (auto simp: roster_streaks_def umap_simps)

lemma roster_streaks_put: "roster_streaks ps \<Longrightarrow> streak_fine s \<Longrightarrow> roster_streaks (um_put c s ps)"
  by (auto simp: roster_streaks_def umap_simps)

lemma streaks_step: "match_step M M' \<Longrightarrow> roster_streaks (mt_players M) \<Longrightarrow> roster_streaks (mt_players M')"
proof (induction rule: match_step.induct)
  case (ms_join M c s x y)
  then show ?case by (simp add: roster_streaks_put streak_fine_def fresh_stats_def)
qed (simp_all add: step_defs assists_fold players_upd_stats roster_streaks_modify roster_streaks_fold roster_streaks_map)

lemma new_match_streaks: "new_match_at m M \<Longrightarrow> roster_streaks (mt_players M)"
  by (auto simp: new_match_at_def new_match_def roster_streaks_def umap_simps)

interpretation streaks: match_invariant "\<lambda>M. roster_streaks (mt_players M)"
  by unfold_locales (use new_match_streaks streaks_step in blast)+

text \<open>In every match of a reachable state a player's current killing streak is at most the best
  one, wrap-around at 2^16 included.\<close>

theorem streak_at_most_best:
  assumes "arena_reachable w" and "um_find (aw_matches w) m = Some M" and "um_find (mt_players M) c = Some s"
  shows "ps_current_streak s \<le> ps_best_streak s"
  using streaks.invariant [OF assms(1,2)] assms(3) unfolding roster_streaks_def streak_fine_def by blast

theorem streak_at_most_best_witness:
  "ps_current_streak (the (um_find (mt_players killed_match) 7)) \<le> ps_best_streak (the (um_find (mt_players killed_match) 7))"
proof (rule streak_at_most_best [OF killed_reachable killed_found])
  have "um_find (mt_players killed_match) 7 \<noteq> None" by code_simp
  then show "um_find (mt_players killed_match) 7 = Some (the (um_find (mt_players killed_match) 7))" by simp
qed

section \<open>The history of a match\<close>

text \<open>
  How the value of a match before a call relates to its value after it. A decided match (finished
  or cancelled) keeps its record.
\<close>

definition decided :: "s_arena7x7_match \<Rightarrow> bool" where
  "decided M \<longleftrightarrow> mt_status M = ARENA7X7_MATCH_FINISHED \<or> mt_status M = ARENA7X7_MATCH_CANCELLED"

definition same_record :: "s_arena7x7_match \<Rightarrow> s_arena7x7_match \<Rightarrow> bool" where
  "same_record M M' \<longleftrightarrow> mt_damage_log M' = mt_damage_log M \<and> mt_support_log M' = mt_support_log M \<and>
     mt_item_log M' = mt_item_log M \<and> mt_kill_log M' = mt_kill_log M \<and>
     mt_damage_by_skill M' = mt_damage_by_skill M \<and> mt_damage_by_target M' = mt_damage_by_target M \<and>
     mt_support_by_target M' = mt_support_by_target M"

definition history :: "s_arena7x7_match \<Rightarrow> s_arena7x7_match \<Rightarrow> bool" where
  "history M M' \<longleftrightarrow> mt_match_id M' = mt_match_id M \<and> mt_map_name M' = mt_map_name M \<and> mt_season M' = mt_season M \<and>
     prefix (mt_damage_log M) (mt_damage_log M') \<and> prefix (mt_support_log M) (mt_support_log M') \<and>
     prefix (mt_item_log M) (mt_item_log M') \<and> prefix (mt_kill_log M) (mt_kill_log M') \<and>
     prefix (mt_skill_log M) (mt_skill_log M') \<and> prefix (mt_item_usage_log M) (mt_item_usage_log M') \<and>
     (\<forall>c. in_match M c \<longrightarrow> in_match M' c) \<and>
     (mt_status M' = ARENA7X7_MATCH_WAITING \<longrightarrow> mt_status M = ARENA7X7_MATCH_WAITING \<and> same_record M M') \<and>
     (decided M \<longrightarrow> decided M' \<and> same_record M M')"

lemma history_refl: "history M M"
  by (simp add: history_def same_record_def)

lemma history_trans: "history M1 M2 \<Longrightarrow> history M2 M3 \<Longrightarrow> history M1 M3"
  unfolding history_def same_record_def by (auto intro: prefix_order.trans)

text \<open>A step that leaves identity, status, players' presence and records alone.\<close>

lemma logs_prefix_step:
  "match_step M M' \<Longrightarrow>
     prefix (mt_damage_log M) (mt_damage_log M') \<and> prefix (mt_support_log M) (mt_support_log M') \<and>
     prefix (mt_item_log M) (mt_item_log M') \<and> prefix (mt_kill_log M) (mt_kill_log M') \<and>
     prefix (mt_skill_log M) (mt_skill_log M') \<and> prefix (mt_item_usage_log M) (mt_item_usage_log M')"
  by (induction rule: match_step.induct) (simp_all add: step_defs frame_simps assists_frame)

lemma identity_step:
  "match_step M M' \<Longrightarrow> mt_map_name M' = mt_map_name M \<and> mt_season M' = mt_season M"
proof -
  have fold: "mt_season (fold (\<lambda>a. upd_stats a f) as M) = mt_season M" for f as M
    by (induction as arbitrary: M) (simp_all add: upd_stats_def)
  show "match_step M M' \<Longrightarrow> ?thesis"
    by (induction rule: match_step.induct)
      (simp_all add: step_defs frame_simps assists_frame fold, simp_all add: upd_stats_def)
qed

lemma status_step:
  "match_step M M' \<Longrightarrow>
     (mt_status M' = ARENA7X7_MATCH_WAITING \<longrightarrow> mt_status M = ARENA7X7_MATCH_WAITING \<and> same_record M M') \<and>
     (decided M \<longrightarrow> decided M' \<and> same_record M M')"
  by (induction rule: match_step.induct)
    (auto simp: step_defs frame_simps assists_frame decided_def same_record_def split: if_splits)

lemma history_step: "match_step M M' \<Longrightarrow> history M M'"
  using logs_prefix_step identity_step status_step step_match_id in_match_step unfolding history_def by blast

lemma history_steps: "match_steps M M' \<Longrightarrow> history M M'"
  by (induction rule: rtranclp_induct) (auto intro: history_refl history_trans history_step)

text \<open>C2: A call of the arena never rewrites a match's past. A match stored before and after it
  keeps its id, map and season, every player stays a player, and each of its six logs is the old log
  with entries appended; it does not return to the waiting state, and while it waits no damage,
  support, item or kill is recorded; once it is finished or cancelled it stays so and its damage,
  support, item and kill logs and their aggregates no longer change.\<close>

theorem history_append_only:
  assumes "arena_reachable w" and "op_ready c w"
    and "um_find (aw_matches w) m = Some M" and "um_find (aw_matches (arena_exec E c w)) m = Some M'"
  shows "history M M'"
proof -
  have "evolves_new w (arena_exec E c w)" using exec_step [OF reachable_wf [OF assms(1)] assms(2)] by blast
  with assms(3,4) have "match_steps M M'" unfolding evolves_new_def by fastforce
  then show ?thesis by (rule history_steps)
qed

theorem history_append_only_witness:
  "history (the (um_find (aw_matches fought_world) 1)) killed_match"
proof (rule history_append_only [OF fought_reachable])
  show "op_ready death_op fought_world" by (simp add: op_ready_def death_op_def)
  have "um_find (aw_matches fought_world) 1 \<noteq> None" by code_simp
  then show "um_find (aw_matches fought_world) 1 = Some (the (um_find (aw_matches fought_world) 1))" by simp
  show "um_find (aw_matches (arena_exec sample_env death_op fought_world)) 1 = Some killed_match"
    using killed_found by (simp add: killed_world_def)
qed

end
