(* ===== verification/ArenaLifecycle.thy ===== *)
theory ArenaLifecycle
  imports ArenaHistory
begin

text \<open>
  What the operations on a match's life do, on every branch: creating (also after a restart),
  joining, leaving, cancelling, finishing and awarding the ranking, and counting the living.
\<close>

section \<open>Creating\<close>

text \<open>While ids are left, creating a match for a named map returns the next id, which no stored
  match has, and stores under it a waiting match of the current season without players; all other
  matches stay as they are. Without a map name it returns 0 and changes nothing.\<close>

theorem create_match_spec:
  assumes wf: "arena_wf w" and room: "aw_match_counter w \<noteq> - 1"
  shows "(case arena7x7_create_match name w of (new_id, w') \<Rightarrow>
      if name = None \<or> name = Some '''' then new_id = 0 \<and> w' = w
      else new_id = aw_match_counter w + 1 \<and> 0 < new_id \<and> aw_match_counter w' = new_id \<and>
        um_find (aw_matches w) new_id = None \<and> (\<forall>c. um_find (aw_player_match w) c \<noteq> Some new_id) \<and>
        um_find (aw_matches w') new_id = Some (new_match\<lparr>mt_match_id := new_id, mt_map_name := the name,
          mt_status := ARENA7X7_MATCH_WAITING, mt_season := aw_current_season w\<rparr>) \<and>
        (\<forall>k. k \<noteq> new_id \<longrightarrow> um_find (aw_matches w') k = um_find (aw_matches w) k) \<and>
        aw_player_match w' = aw_player_match w)"
proof -
  note free = fresh_id_free [OF wf room]
  have "um_find (aw_player_match w) c \<noteq> Some (aw_match_counter w + 1)" for c
    using wf free unfolding arena_wf_def by fastforce
  with free word_succ_greater [OF room] show ?thesis
    by (auto simp: arena7x7_create_match_def Let_def umap_simps split: option.split)
qed

theorem create_match_spec_witness:
  "(case arena7x7_create_match (Some ''arena'') joined_world of (new_id, w') \<Rightarrow>
      if Some ''arena'' = None \<or> Some ''arena'' = Some '''' then new_id = 0 \<and> w' = joined_world
      else new_id = aw_match_counter joined_world + 1 \<and> 0 < new_id \<and> aw_match_counter w' = new_id \<and>
        um_find (aw_matches joined_world) new_id = None \<and> (\<forall>c. um_find (aw_player_match joined_world) c \<noteq> Some new_id) \<and>
        um_find (aw_matches w') new_id = Some (new_match\<lparr>mt_match_id := new_id, mt_map_name := the (Some ''arena''),
          mt_status := ARENA7X7_MATCH_WAITING, mt_season := aw_current_season joined_world\<rparr>) \<and>
        (\<forall>k. k \<noteq> new_id \<longrightarrow> um_find (aw_matches w') k = um_find (aw_matches joined_world) k) \<and>
        aw_player_match w' = aw_player_match joined_world)"
proof (rule create_match_spec [OF reachable_wf [OF joined_reachable]])
  show "aw_match_counter joined_world \<noteq> - 1" by code_simp
qed

text \<open>After a restart that could read the largest saved match id, the first match created gets
  an id above every saved one, so no saved match is overwritten. When that query fails, the first match
  gets id 1 whatever is saved.\<close>

theorem restart_ids_fresh:
  assumes "max_match_id (db_now (aw_db w)) < 2 ^ 32 - 1" and "name \<noteq> ''''"
  shows "(let new_id = fst (arena7x7_create_match (Some name) (do_init_arena7x7 E w))
     in if env_sql_ok E (db_issued (aw_db w))
        then \<forall>n \<in> set (saved_match_ids (db_now (aw_db w))). n < unat new_id
        else new_id = 1)"
proof (cases "env_sql_ok E (db_issued (aw_db w))")
  case True
  let ?c = "aw_match_counter (do_init_arena7x7 E w)"
  have c: "unat ?c = max_match_id (db_now (aw_db w))" by (rule do_init_counter [where E = E, OF True])
  have "?c \<noteq> - 1"
  proof
    assume "?c = - 1"
    then have "unat ?c = 2 ^ 32 - 1" by (simp add: unsigned_minus_1_eq_mask mask_eq_exp_minus_1)
    with c assms(1) show False by simp
  qed
  then have "unat ?c < unat (?c + 1)" using word_succ_greater by (simp add: word_less_nat_alt)
  with c max_match_id_upper [of _ "db_now (aw_db w)"] True assms(2) show ?thesis
    by (fastforce simp: arena7x7_create_match_def Let_def)
next
  case False
  then have "aw_match_counter (do_init_arena7x7 E w) = 0"
    by (simp add: do_init_arena7x7_def arena7x7_load_next_match_id_def Sql_Query_def Let_def split: prod.split)
  with False assms(2) show ?thesis by (simp add: arena7x7_create_match_def Let_def)
qed

definition saved_world :: world where
  "saved_world = start_world\<lparr>aw_db := snd (arena7x7_save_match sample_env (new_match\<lparr>mt_match_id := 4\<rparr>) empty_db)\<rparr>"

theorem restart_ids_fresh_witness:
  "(let new_id = fst (arena7x7_create_match (Some ''arena'') (do_init_arena7x7 sample_env saved_world))
     in if env_sql_ok sample_env (db_issued (aw_db saved_world))
        then \<forall>n \<in> set (saved_match_ids (db_now (aw_db saved_world))). n < unat new_id
        else new_id = 1)"
proof (rule restart_ids_fresh)
  have "max_match_id (db_now (aw_db saved_world)) = 4" by code_simp
  then show "max_match_id (db_now (aw_db saved_world)) < 2 ^ 32 - 1" by simp
qed simp

section \<open>Joining\<close>

definition join_allowed :: "uint32 \<Rightarrow> map_session_data option \<Rightarrow> world \<Rightarrow> bool" where
  "join_allowed m sd_ptr w \<longleftrightarrow>
     (case sd_ptr of None \<Rightarrow> False | Some sd \<Rightarrow>
      sd_name sd \<noteq> '''' \<and> um_find (aw_player_match w) (sd_char_id sd) = None \<and>
      (case um_find (aw_matches w) m of None \<Rightarrow> False
       | Some M \<Rightarrow> mt_status M = ARENA7X7_MATCH_WAITING \<or> mt_status M = ARENA7X7_MATCH_ACTIVE))"

lemma add_player_refused: "\<not> join_allowed m sd_ptr w \<Longrightarrow> arena7x7_add_player E m sd_ptr team leader w = (False, w)"
  by (auto simp: arena7x7_add_player_def join_allowed_def split: option.splits)

lemma add_player_ok: "fst (arena7x7_add_player E m sd_ptr team leader w) = join_allowed m sd_ptr w"
proof (cases "join_allowed m sd_ptr w")
  case False
  from add_player_refused [OF this] False show ?thesis by simp
next
  case True
  then obtain sd M where sd: "sd_ptr = Some sd" "sd_name sd \<noteq> ''''" "um_find (aw_player_match w) (sd_char_id sd) = None"
      "um_find (aw_matches w) m = Some M" "mt_status M = ARENA7X7_MATCH_WAITING \<or> mt_status M = ARENA7X7_MATCH_ACTIVE"
    by (auto simp: join_allowed_def split: option.splits)
  then have "\<not> (mt_status M \<noteq> ARENA7X7_MATCH_WAITING \<and> mt_status M \<noteq> ARENA7X7_MATCH_ACTIVE)" by auto
  with sd(1-4) True show ?thesis by (simp add: arena7x7_add_player_def case_prod_beta Let_def)
qed

text \<open>C14: Joining succeeds exactly for a named, unregistered character and a waiting or active match,
  however many players the team has; otherwise nothing changes. The player is then registered in the match,
  stored with the chosen team, alive and with fresh statistics (also when the character had been in
  this match before), the team's alive counter goes up by one, and no other match and no other
  registration changes.\<close>

theorem join_spec:
  "(case arena7x7_add_player E m sd_ptr team leader w of (ok, w') \<Rightarrow>
     ok = join_allowed m sd_ptr w \<and>
     (if ok then \<exists>sd M M' s. sd_ptr = Some sd \<and> um_find (aw_matches w) m = Some M \<and>
          um_find (aw_matches w') m = Some M' \<and> mt_status M' = mt_status M \<and>
          (\<forall>c. um_find (mt_players M') c = (if c = sd_char_id sd then Some s else um_find (mt_players M) c)) \<and>
          ps_char_id s = sd_char_id sd \<and> ps_team s = team \<and> \<not> ps_is_dead s \<and> ps_deaths s = 0 \<and>
          mt_blue_alive M' = mt_blue_alive M + (if team = ARENA7X7_TEAM_BLUE then 1 else 0) \<and>
          mt_red_alive M' = mt_red_alive M + (if team = ARENA7X7_TEAM_RED then 1 else 0) \<and>
          (\<forall>k. k \<noteq> m \<longrightarrow> um_find (aw_matches w') k = um_find (aw_matches w) k) \<and>
          (\<forall>c. um_find (aw_player_match w') c =
            (if c = sd_char_id sd then Some m else um_find (aw_player_match w) c))
      else w' = w))"
proof (cases "join_allowed m sd_ptr w")
  case False
  from add_player_refused [OF this] False show ?thesis by simp
next
  case True
  obtain ok w' where add: "arena7x7_add_player E m sd_ptr team leader w = (ok, w')" by fastforce
  with True add_player_ok [of E m sd_ptr team leader w] have ok by simp
  from add show ?thesis
  proof (cases rule: add_player_cases)
    case 1
    with \<open>ok\<close> show ?thesis by simp
  next
    case (2 sd M s M3)
    then show ?thesis using add True by (auto simp: umap_simps intro!: exI [of _ s])
  qed
qed

lemma sample_sd_id: "sd_char_id (sample_sd c) = c"
  by (simp add: sample_sd_def)

theorem join_spec_witness:
  "fst (arena7x7_add_player sample_env 1 (Some (sample_sd 9)) ARENA7X7_TEAM_RED False joined_world) \<and>
   um_find (aw_player_match (snd (arena7x7_add_player sample_env 1 (Some (sample_sd 9)) ARENA7X7_TEAM_RED False joined_world))) 9
     = Some 1"
proof -
  have "join_allowed 1 (Some (sample_sd 9)) joined_world" by code_simp
  with join_spec [where E = sample_env and m = 1 and sd_ptr = "Some (sample_sd 9)" and team = ARENA7X7_TEAM_RED
      and leader = False and w = joined_world] show ?thesis
    by (fastforce simp: case_prod_beta sample_sd_id)
qed

section \<open>Leaving\<close>

text \<open>A registered player's removal, with the match and the statistics it works on.\<close>

definition desertion_stats :: "s_arena7x7_player_stats \<Rightarrow> s_arena7x7_player_stats" where
  "desertion_stats s = s\<lparr>ps_is_deserter := True, ps_deaths := ps_deaths s + 1\<rparr>"

lemma remove_player_eq:
  assumes pm: "um_find (aw_player_match w) (sd_char_id sd) = Some m"
    and M: "um_find (aw_matches w) m = Some M" and s: "um_find (mt_players M) (sd_char_id sd) = Some s"
  shows "arena7x7_remove_player E (Some sd) deserter w =
    (True, (let c = sd_char_id sd; erased = um_erase c (aw_player_match w) in
      if deserter \<and> mt_status M = ARENA7X7_MATCH_ACTIVE
      then upd_match m (upd_stats c (\<lambda>_. count_desertion (desertion_stats s)))
             (w\<lparr>aw_player_match := erased, aw_db :=
               snd (snd (arena7x7_update_ranking E c (desertion_stats s) False True False True (aw_db w)))\<rparr>)
      else upd_match m (upd_stats c (\<lambda>_. s\<lparr>ps_is_deserter := deserter\<rparr>)) (w\<lparr>aw_player_match := erased\<rparr>)))"
  using assms
  by (simp add: arena7x7_remove_player_def arena7x7_get_match_def Let_def ranking_case desertion_stats_def upd_match_def)

lemma desertion_deaths:
  "ps_deaths (count_desertion (desertion_stats s)) = ps_deaths s + 2" "ps_is_deserter (count_desertion (desertion_stats s))"
  "ps_is_deserter (desertion_stats s)"
  by (simp_all add: count_desertion_def desertion_stats_def add.assoc)

text \<open>C13: A registered player who leaves is unregistered, stays among the match's players and is
  marked as a deserter or not as told; nobody else's registration, statistics or match changes. Deserting
  an active match adds two deaths to the player's statistics (one in the removal, one in the ranking update),
  and, with every statement accepted, the character's ranking row gets a loss, a match, all the deaths
  of the statistics and three points less, never below 0; otherwise neither the statistics nor the
  database change.\<close>

theorem leave_spec:
  assumes wf: "arena_wf w" and pm: "um_find (aw_player_match w) (sd_char_id sd) = Some m"
  shows "(let c = sd_char_id sd; (ok, w') = arena7x7_remove_player E (Some sd) deserter w in
    \<exists>M M' s s'. ok \<and> um_find (aw_matches w) m = Some M \<and> um_find (aw_matches w') m = Some M' \<and>
      um_find (mt_players M) c = Some s \<and> um_find (mt_players M') c = Some s' \<and>
      (\<forall>k. um_find (aw_player_match w') k = (if k = c then None else um_find (aw_player_match w) k)) \<and>
      (\<forall>k. k \<noteq> c \<longrightarrow> um_find (mt_players M') k = um_find (mt_players M) k) \<and>
      (\<forall>k. k \<noteq> m \<longrightarrow> um_find (aw_matches w') k = um_find (aw_matches w) k) \<and>
      mt_status M' = mt_status M \<and> ps_is_deserter s' = deserter \<and>
      (if deserter \<and> mt_status M = ARENA7X7_MATCH_ACTIVE
       then ps_deaths s' = ps_deaths s + 2 \<and>
         (all_ok E \<longrightarrow> (let r = rank_or_empty E s (um_find (tb_rank (db_now (aw_db w))) c) in
           \<exists>r'. um_find (tb_rank (db_now (aw_db w'))) c = Some r' \<and> rk_losses r' = rk_losses r + 1 \<and>
             rk_matches_played r' = rk_matches_played r + 1 \<and> rk_wins r' = rk_wins r \<and>
             rk_total_deaths r' = rk_total_deaths r + uint (ps_deaths s + 2) \<and>
             rk_points r' = max 0 (rk_points r - 3)))
       else s' = s\<lparr>ps_is_deserter := deserter\<rparr> \<and> aw_db w' = aw_db w))"
proof -
  let ?c = "sd_char_id sd"
  obtain M s where M: "um_find (aw_matches w) m = Some M" and s: "um_find (mt_players M) ?c = Some s"
    using wf pm unfolding arena_wf_def by blast
  note eq = remove_player_eq [OF pm M s, of E deserter]
  let ?r = "rank_or_empty E s (um_find (tb_rank (db_now (aw_db w))) ?c)"
  let ?r' = "rank_set (count_desertion (desertion_stats s)) False True False True (- 3) ?r"
  have empty: "rank_or_empty E (desertion_stats s) old = rank_or_empty E s old" for old
    by (cases old) (simp_all add: rank_or_empty_def desertion_stats_def)
  have points: "ranking_points (desertion_stats s) False True = - 3"
    by (simp add: ranking_points_def desertion_stats_def)
  have row: "um_find (tb_rank (db_now (snd (snd (arena7x7_update_ranking E ?c (desertion_stats s) False True False True
      (aw_db w)))))) ?c = Some ?r'" if "all_ok E"
    using update_ranking_ok [OF that, of ?c "desertion_stats s" False True False True "aw_db w"]
    unfolding points empty by auto
  have r': "rk_losses ?r' = rk_losses ?r + 1 \<and> rk_matches_played ?r' = rk_matches_played ?r + 1 \<and> rk_wins ?r' = rk_wins ?r \<and>
    rk_total_deaths ?r' = rk_total_deaths ?r + uint (ps_deaths s + 2) \<and> rk_points ?r' = max 0 (rk_points ?r - 3)"
    by (simp add: rank_set_def desertion_deaths)
  have rank: "all_ok E \<longrightarrow> (\<exists>r'. um_find (tb_rank (db_now (snd (snd (arena7x7_update_ranking E ?c (desertion_stats s)
      False True False True (aw_db w)))))) ?c = Some r' \<and> rk_losses r' = rk_losses ?r + 1 \<and>
    rk_matches_played r' = rk_matches_played ?r + 1 \<and> rk_wins r' = rk_wins ?r \<and>
    rk_total_deaths r' = rk_total_deaths ?r + uint (ps_deaths s + 2) \<and> rk_points r' = max 0 (rk_points ?r - 3))"
    using row r' by blast
  show ?thesis
  proof (cases "deserter \<and> mt_status M = ARENA7X7_MATCH_ACTIVE")
    case True
    show ?thesis
      unfolding Let_def eq prod.case
      by (rule exI [of _ M], rule exI [of _ "upd_stats ?c (\<lambda>_. count_desertion (desertion_stats s)) M"],
          rule exI [of _ s], rule exI [of _ "count_desertion (desertion_stats s)"])
        (use M s True rank in \<open>simp add: umap_simps frame_simps desertion_deaths\<close>)
  next
    case False
    show ?thesis
      unfolding Let_def eq prod.case
      by (rule exI [of _ M], rule exI [of _ "upd_stats ?c (\<lambda>_. s\<lparr>ps_is_deserter := deserter\<rparr>) M"],
          rule exI [of _ s], rule exI [of _ "s\<lparr>ps_is_deserter := deserter\<rparr>"])
        (use M s False in \<open>auto simp: umap_simps frame_simps\<close>)
  qed
qed

lemma fought_registered: "um_find (aw_player_match fought_world) (sd_char_id (sample_sd 7)) = Some 1"
  by code_simp

theorem leave_spec_witness:
  "fst (arena7x7_remove_player sample_env (Some (sample_sd 7)) True fought_world) \<and>
   um_find (aw_player_match (snd (arena7x7_remove_player sample_env (Some (sample_sd 7)) True fought_world))) 7 = None"
  using leave_spec [OF reachable_wf [OF fought_reachable] fought_registered, of sample_env True]
  by (auto simp: Let_def sample_sd_def split: prod.splits)

text \<open>Death does not last in an active match: a dead player who leaves and joins again is alive, with no
  deaths and no kills, whatever team is chosen.\<close>

theorem rejoin_revives:
  assumes wf: "arena_wf w" and pm: "um_find (aw_player_match w) (sd_char_id sd) = Some m"
    and M: "um_find (aw_matches w) m = Some M" "mt_status M = ARENA7X7_MATCH_ACTIVE" and name: "sd_name sd \<noteq> ''''"
  shows "(case arena7x7_add_player E m (Some sd) team leader (snd (arena7x7_remove_player E (Some sd) deserter w)) of
    (ok, w') \<Rightarrow> ok \<and> um_find (aw_player_match w') (sd_char_id sd) = Some m \<and>
      (\<exists>s. arena7x7_get_player_stats (sd_char_id sd) w' = Some s \<and> ps_team s = team \<and> ps_deaths s = 0) \<and>
      \<not> arena7x7_is_player_dead (sd_char_id sd) w')"
proof -
  let ?c = "sd_char_id sd"
  obtain ok1 w1 where rem: "arena7x7_remove_player E (Some sd) deserter w = (ok1, w1)" by fastforce
  obtain s where s: "um_find (mt_players M) ?c = Some s" using wf pm M(1) unfolding arena_wf_def by fastforce
  from remove_player_eq [OF pm M(1) s, of E deserter] rem pm M
  obtain M1 where M1: "um_find (aw_matches w1) m = Some M1" "mt_status M1 = ARENA7X7_MATCH_ACTIVE"
      "um_find (aw_player_match w1) ?c = None"
    by (auto simp: Let_def umap_simps frame_simps split: if_splits)
  obtain ok w2 where add: "arena7x7_add_player E m (Some sd) team leader w1 = (ok, w2)" by fastforce
  have "join_allowed m (Some sd) w1" using M1 name by (simp add: join_allowed_def)
  with add add_player_ok [of E m "Some sd" team leader w1] have ok: ok by simp
  from add show ?thesis
  proof (cases rule: add_player_cases)
    case 1
    with ok show ?thesis by simp
  next
    case (2 sd' M' s' M3)
    then have "arena7x7_get_player_stats ?c w2 = Some s'"
      by (simp add: arena7x7_get_player_stats_def arena7x7_get_player_match_def arena7x7_get_match_def umap_simps)
    then have "arena7x7_get_player_stats ?c w2 = Some s' \<and> ps_team s' = team \<and> ps_deaths s' = 0 \<and> \<not> ps_is_dead s'"
      "um_find (aw_player_match w2) ?c = Some m"
      using 2 by (simp_all add: umap_simps)
    with ok show ?thesis by (simp add: rem add arena7x7_is_player_dead_def)
  qed
qed

lemma killed_registered: "um_find (aw_player_match killed_world) (sd_char_id (sample_sd 8)) = Some 1"
  by code_simp

lemma killed_active: "mt_status killed_match = ARENA7X7_MATCH_ACTIVE"
  by code_simp

theorem rejoin_revives_witness:
  "\<not> arena7x7_is_player_dead 8 (snd (arena7x7_add_player sample_env 1 (Some (sample_sd 8)) ARENA7X7_TEAM_BLUE False
     (snd (arena7x7_remove_player sample_env (Some (sample_sd 8)) True killed_world))))"
  using rejoin_revives [OF reachable_wf [OF killed_reachable] killed_registered killed_found killed_active,
      where E = sample_env and team = ARENA7X7_TEAM_BLUE and leader = False and deserter = True]
  by (auto simp: sample_sd_def split: prod.splits)

section \<open>Cancelling\<close>

text \<open>Cancelling a waiting match erases it and the registration of everyone in it and of nobody else,
  and when it was the newest match its id is the next to be handed out again. Any other stored match is only
  marked as cancelled: its players stay registered, and the counter stays. An unknown id is refused.\<close>

theorem cancel_spec:
  assumes wf: "arena_wf w"
  shows "(case arena7x7_cancel_match E m w of (ok, w') \<Rightarrow>
    ok = (um_find (aw_matches w) m \<noteq> None) \<and> (\<forall>k. k \<noteq> m \<longrightarrow> um_find (aw_matches w') k = um_find (aw_matches w) k) \<and>
    (case um_find (aw_matches w) m of
       None \<Rightarrow> w' = w
     | Some M \<Rightarrow>
         if mt_status M = ARENA7X7_MATCH_WAITING
         then um_find (aw_matches w') m = None \<and>
           (\<forall>c. um_find (aw_player_match w') c =
             (if um_find (aw_player_match w) c = Some m then None else um_find (aw_player_match w) c)) \<and>
           (name \<noteq> '''' \<longrightarrow> m = aw_match_counter w \<longrightarrow> fst (arena7x7_create_match (Some name) w') = m)
         else um_find (aw_matches w') m =
             Some (M\<lparr>mt_status := ARENA7X7_MATCH_CANCELLED, mt_end_time := env_tick E Tk_cancel\<rparr>) \<and>
           aw_player_match w' = aw_player_match w \<and> aw_match_counter w' = aw_match_counter w))"
proof (cases "um_find (aw_matches w) m")
  case None
  then show ?thesis by (simp add: arena7x7_cancel_match_def arena7x7_get_match_def)
next
  case (Some M)
  have "um_wf (aw_player_match w)" using wf by (simp add: arena_wf_def)
  with Some show ?thesis
    by (auto simp: arena7x7_cancel_match_def arena7x7_get_match_def umap_simps frame_simps
        arena7x7_create_match_def Let_def split: option.split)
qed

theorem cancel_spec_witness:
  "fst (arena7x7_create_match (Some ''arena'') (snd (arena7x7_cancel_match sample_env 1 joined_world))) = 1"
proof -
  have M: "\<exists>M. um_find (aw_matches joined_world) 1 = Some M \<and> mt_status M = ARENA7X7_MATCH_WAITING"
  proof -
    have "map_option mt_status (um_find (aw_matches joined_world) 1) = Some ARENA7X7_MATCH_WAITING" by code_simp
    then show ?thesis by auto
  qed
  have "aw_match_counter joined_world = 1" by code_simp
  with M cancel_spec [OF reachable_wf [OF joined_reachable], where E = sample_env and m = 1 and name = "''arena''"]
  show ?thesis
    by (auto simp: case_prod_beta)
qed

end
