(* ===== verification/ArenaAwards.thy ===== *)
theory ArenaAwards
  imports ArenaLifecycle
begin

text \<open>
  The end of a match: counting the living, what finishing awards to whom, and that the order in which
  the players are visited does not matter.
\<close>

section \<open>Counting the living\<close>

lemma count_loop_eq:
  "count_loop t n ps = n + of_nat (length (filter (\<lambda>(c, s). \<not> ps_is_dead s \<and> ps_team s = t) ps))"
  by (induction t n ps rule: count_loop.induct) (auto simp: add.assoc)

lemma count_filter_card:
  assumes "um_wf ps"
  shows "length (filter (\<lambda>(c, s). P s) ps) = card {c. \<exists>s. um_find ps c = Some s \<and> P s}"
proof -
  let ?f = "filter (\<lambda>(c, s). P s) ps"
  have "distinct (map fst ?f)" using assms unfolding um_wf_def by (rule distinct_map_filter)
  then have "length ?f = card (fst ` set ?f)" by (metis distinct_card length_map set_map)
  also have "fst ` set ?f = {c. \<exists>s. um_find ps c = Some s \<and> P s}"
    using assms by (force simp: um_find_def um_wf_def)
  finally show ?thesis .
qed

text \<open>Counting the living sets each team's counter to the number of its players (mod 2^16) that are
  not dead, whether or not they have left the match.\<close>

theorem count_alive_spec:
  assumes "arena_reachable w" and "um_find (aw_matches w) m = Some M"
  shows "(let alive = (\<lambda>t. card {c. \<exists>s. um_find (mt_players M) c = Some s \<and> \<not> ps_is_dead s \<and> ps_team s = t})
     in mt_blue_alive (arena7x7_count_alive_players M) = of_nat (alive ARENA7X7_TEAM_BLUE) \<and>
        mt_red_alive (arena7x7_count_alive_players M) = of_nat (alive ARENA7X7_TEAM_RED) \<and>
        mt_players (arena7x7_count_alive_players M) = mt_players M)"
proof -
  have "um_wf (mt_players M)" using arena_wf_match [OF reachable_wf [OF assms(1)] assms(2)] by (simp add: match_ok_def)
  then show ?thesis
    by (simp add: arena7x7_count_alive_players_def count_loop_eq count_filter_card)
qed

theorem count_alive_spec_witness:
  "mt_red_alive (arena7x7_count_alive_players killed_match) = of_nat (card {c. \<exists>s.
     um_find (mt_players killed_match) c = Some s \<and> \<not> ps_is_dead s \<and> ps_team s = ARENA7X7_TEAM_RED})"
  using count_alive_spec [OF killed_reachable killed_found] by (simp add: Let_def)

section \<open>The ranking at the end of a match\<close>

text \<open>Whether a player is ranked at the end, and the result counted.\<close>

definition ranked :: "world \<Rightarrow> s_arena7x7_player_stats \<Rightarrow> bool" where
  "ranked w s \<longleftrightarrow> \<not> (ps_is_deserter s \<and> um_find (aw_player_match w) (ps_char_id s) = None)"

definition result_won :: "e_arena7x7_team \<Rightarrow> s_arena7x7_player_stats \<Rightarrow> bool" where
  "result_won winner s \<longleftrightarrow> \<not> ps_is_deserter s \<and> ps_team s = winner"

definition result_lost :: "e_arena7x7_team \<Rightarrow> s_arena7x7_player_stats \<Rightarrow> bool" where
  "result_lost winner s \<longleftrightarrow> ps_is_deserter s \<or> winner \<noteq> ARENA7X7_TEAM_NONE \<and> ps_team s \<noteq> winner"

definition result_tie :: "e_arena7x7_team \<Rightarrow> s_arena7x7_player_stats \<Rightarrow> bool" where
  "result_tie winner s \<longleftrightarrow> \<not> ps_is_deserter s \<and> winner = ARENA7X7_TEAM_NONE"

definition award ::
    "arena_env \<Rightarrow> e_arena7x7_team \<Rightarrow> s_arena7x7_player_stats \<Rightarrow> rank_row option \<Rightarrow> rank_row" where
  "award E winner s old = rank_set (count_desertion s) (result_won winner s) (result_lost winner s)
     (result_tie winner s) True (ranking_points s (result_won winner s) (result_lost winner s)) (rank_or_empty E s old)"

lemma rank_player_skip:
  assumes "um_find (aw_matches w) m = Some M" "um_find (mt_players M) c = Some s" "\<not> ranked w s"
  shows "rank_player E m winner c w = w"
  using assms by (simp add: rank_player_def ranked_def)

lemma rank_player_award:
  assumes ok: "all_ok E" and M: "um_find (aw_matches w) m = Some M" and s: "um_find (mt_players M) c = Some s"
    and id: "ps_char_id s = c" and r: "ranked w s"
  shows "um_find (aw_matches (rank_player E m winner c w)) m = Some (upd_stats c (\<lambda>_. count_desertion s) M)"
    and "aw_player_match (rank_player E m winner c w) = aw_player_match w"
    and "um_find (tb_rank (db_now (aw_db (rank_player E m winner c w)))) k =
      (if k = c then Some (award E winner s (um_find (tb_rank (db_now (aw_db w))) c))
       else um_find (tb_rank (db_now (aw_db w))) k)"
proof -
  obtain D where D: "arena7x7_update_ranking E c s (result_won winner s) (result_lost winner s) (result_tie winner s) True (aw_db w)
      = (True, count_desertion s, D)"
    and row: "um_find (tb_rank (db_now D)) k = (if k = c then Some (award E winner s (um_find (tb_rank (db_now (aw_db w))) c))
       else um_find (tb_rank (db_now (aw_db w))) k)"
    using update_ranking_ok [OF ok, of c s "result_won winner s" "result_lost winner s" "result_tie winner s" True "aw_db w"]
    unfolding award_def by blast
  have flags: "(if ps_is_deserter s then False else ps_team s = winner) = result_won winner s"
    "(if ps_is_deserter s then True else winner \<noteq> ARENA7X7_TEAM_NONE \<and> ps_team s \<noteq> winner) = result_lost winner s"
    "(if ps_is_deserter s then False else winner = ARENA7X7_TEAM_NONE) = result_tie winner s"
    by (auto simp: result_won_def result_lost_def result_tie_def)
  have "rank_player E m winner c w = upd_match m (upd_stats c (\<lambda>_. count_desertion s)) (w\<lparr>aw_db := D\<rparr>)"
    using r unfolding rank_player_def M s option.case Let_def flags id D prod.case ranked_def by auto
  then show "um_find (aw_matches (rank_player E m winner c w)) m = Some (upd_stats c (\<lambda>_. count_desertion s) M)"
    "aw_player_match (rank_player E m winner c w) = aw_player_match w"
    "um_find (tb_rank (db_now (aw_db (rank_player E m winner c w)))) k =
      (if k = c then Some (award E winner s (um_find (tb_rank (db_now (aw_db w))) c))
       else um_find (tb_rank (db_now (aw_db w))) k)"
    using M row by (simp_all add: umap_simps frame_simps)
qed

text \<open>The loop, whatever the order: every player of the list that is ranked gets exactly one award.\<close>

lemma rank_players:
  assumes ok: "all_ok E" and "um_find (aw_matches w) m = Some M" and "distinct cs"
    and "\<And>c. c \<in> set cs \<Longrightarrow> \<exists>s. um_find (mt_players M) c = Some s \<and> ps_char_id s = c"
  shows "um_find (tb_rank (db_now (aw_db (fold (rank_player E m winner) cs w)))) k =
    (let old = um_find (tb_rank (db_now (aw_db w))) k in
     case um_find (mt_players M) k of None \<Rightarrow> old
     | Some s \<Rightarrow> if k \<in> set cs \<and> ranked w s then Some (award E winner s old) else old)"
  using assms(2-)
proof (induction cs arbitrary: w M)
  case Nil
  then show ?case by (simp add: Let_def split: option.split)
next
  case (Cons c cs)
  obtain s where s: "um_find (mt_players M) c = Some s" "ps_char_id s = c" using Cons.prems(3) [of c] by auto
  have c: "c \<notin> set cs" "distinct cs" using Cons.prems(2) by simp_all
  show ?case
  proof (cases "ranked w s")
    case False
    note skip = rank_player_skip [OF Cons.prems(1) s(1) False]
    have "\<exists>s. um_find (mt_players M) c' = Some s \<and> ps_char_id s = c'" if "c' \<in> set cs" for c'
      using Cons.prems(3) that by simp
    from Cons.IH [OF Cons.prems(1) c(2) this] False s c(1) show ?thesis
      by (auto simp: skip Let_def split: option.splits)
  next
    case True
    let ?w = "rank_player E m winner c w" and ?M = "upd_stats c (\<lambda>_. count_desertion s) M"
    note step = rank_player_award [OF ok Cons.prems(1) s True, of winner]
    have other: "um_find (mt_players ?M) c' = um_find (mt_players M) c'" if "c' \<noteq> c" for c'
      using that by (simp add: umap_simps)
    have "\<exists>s. um_find (mt_players ?M) c' = Some s \<and> ps_char_id s = c'" if "c' \<in> set cs" for c'
    proof -
      have "c' \<noteq> c" using that c(1) by auto
      with Cons.prems(3) [of c'] that show ?thesis by (simp add: other)
    qed
    note IH = Cons.IH [OF step(1) c(2) this]
    have same: "ranked ?w t = ranked w t" for t using step(2) by (simp add: ranked_def)
    show ?thesis
    proof (cases "k = c")
      case True
      then have "um_find (mt_players ?M) k = Some (count_desertion s)" using s by (simp add: umap_simps)
      with True IH c(1) s \<open>ranked w s\<close> show ?thesis by (simp add: step(3) Let_def)
    next
      case False
      with IH other [OF this] show ?thesis
        by (simp add: step(3) same Let_def cong: option.case_cong)
    qed
  qed
qed

lemma award_stamp: "award E winner (s\<lparr>ps_time_alive := t\<rparr>) old = award E winner s old" "ranked w (s\<lparr>ps_time_alive := t\<rparr>) = ranked w s"
  by (simp_all add: award_def rank_set_def count_desertion_def result_won_def result_lost_def result_tie_def
      ranking_points_def rank_or_empty_def ranked_def cong: option.case_cong)

lemma find_finish_stamp:
  "um_find (mt_players (finish_stamp E winner blue red M)) k = (case um_find (mt_players M) k of None \<Rightarrow> None
     | Some s \<Rightarrow> Some (if ps_time_alive s = 0
         then s\<lparr>ps_time_alive := word_of_int (DIFF_TICK (env_tick E Tk_finish_now) (ps_join_time s))\<rparr> else s))"
  by (simp add: finish_stamp_def umap_simps split: option.split)

lemma save_detailed_logs_rank:
  assumes "db_saved (aw_db w) = None"
  shows "tb_rank (db_now (aw_db (arena7x7_save_detailed_logs E m w))) = tb_rank (db_now (aw_db w))"
  using transaction_rank(1) [of "write_details E m _", OF _ assms] write_details_frame
  by (simp add: arena7x7_save_detailed_logs_def split: option.split)

lemma finish_awards:
  assumes ok: "all_ok E" and wf: "arena_wf w" and M: "um_find (aw_matches w) m = Some M"
  shows "(case arena7x7_finish_match E m winner blue red w of (done, w') \<Rightarrow> done \<and>
    um_find (tb_rank (db_now (aw_db w'))) k =
     (let old = um_find (tb_rank (db_now (aw_db w))) k in
      case um_find (mt_players M) k of None \<Rightarrow> old
      | Some s \<Rightarrow> if ranked w s then Some (award E winner s old) else old))"
proof -
  let ?M1 = "finish_stamp E winner blue red M"
  let ?w1 = "upd_match m (finish_stamp E winner blue red) w"
  let ?w2 = "?w1\<lparr>aw_db := snd (arena7x7_save_match E ?M1 (aw_db ?w1))\<rparr>"
  let ?w3 = "arena7x7_save_detailed_logs E m ?w2"
  let ?cs = "map fst (um_iter (env_order E It_ranking) (mt_players ?M1))"
  have okM: "match_ok m M" using arena_wf_match [OF wf M] .
  then have ps: "um_wf (mt_players ?M1)" by (simp add: finish_stamp_def match_ok_def wf_intros)
  have fin: "arena7x7_finish_match E m winner blue red w = (True, fold (rank_player E m winner) ?cs ?w3)"
    using M by (simp add: arena7x7_finish_match_def arena7x7_get_match_def Let_def)
  obtain D where D: "arena7x7_save_match E ?M1 (aw_db w) = (True, D)" "db_saved D = None"
      "tb_rank (db_now D) = tb_rank (db_now (aw_db w))"
    using save_match_all_ok [OF ok, of ?M1 "aw_db w"] by blast
  have M3: "um_find (aw_matches ?w3) m = Some ?M1" using M by (simp add: frame_simps umap_simps)
  have rank3: "tb_rank (db_now (aw_db ?w3)) = tb_rank (db_now (aw_db w))"
    using save_detailed_logs_rank [of ?w2] D by (simp add: frame_simps)
  have pm: "ranked ?w3 s = ranked w s" for s by (simp add: ranked_def frame_simps)
  have keys: "\<exists>s. um_find (mt_players ?M1) c = Some s \<and> ps_char_id s = c" if "c \<in> set ?cs" for c
  proof -
    have "um_find (mt_players ?M1) c \<noteq> None" using that um.iter_key [OF ps] by simp
    then show ?thesis using okM by (auto simp: find_finish_stamp match_ok_def split: option.splits)
  qed
  have dist: "distinct ?cs" by (rule um.iter_distinct [OF ps])
  have mem: "k \<in> set ?cs" if "um_find (mt_players ?M1) k \<noteq> None" using that um.iter_key [OF ps] by simp
  show ?thesis
  proof (cases "um_find (mt_players M) k")
    case None
    with rank_players [OF ok M3 dist keys, of winner k] show ?thesis
      by (simp add: fin rank3 find_finish_stamp Let_def)
  next
    case (Some s)
    then have "k \<in> set ?cs" using mem by (simp add: find_finish_stamp)
    with Some rank_players [OF ok M3 dist keys, of winner k] show ?thesis
      by (simp add: fin rank3 find_finish_stamp Let_def pm award_stamp)
  qed
qed

text \<open>C18: With every statement accepted, finishing a stored match, whatever its status, awards every
  player of the match exactly once, in any visiting order: the row gets the result and the statistics of the
  match, 3 points for the winner's team, 1 for a tie, 0 for the losers, and 3 less (with one more death) for a
  player still marked as a deserter. Only deserters that are in no match at that moment are skipped, having
  been penalised when they left; all rows of other characters stay as they are.\<close>

theorem finish_awards_once:
  assumes ok: "all_ok E" and wf: "arena_wf w" and M: "um_find (aw_matches w) m = Some M"
  shows "(case arena7x7_finish_match E m winner blue red w of (done, w') \<Rightarrow> done \<and>
    um_find (tb_rank (db_now (aw_db w'))) k =
     (let old = um_find (tb_rank (db_now (aw_db w))) k in
      case um_find (mt_players M) k of None \<Rightarrow> old
      | Some s \<Rightarrow> if ranked w s then Some (award E winner s old) else old))"
  by (rule finish_awards [OF assms])

theorem finish_awards_once_witness:
  "fst (arena7x7_finish_match sample_env 1 ARENA7X7_TEAM_BLUE 1 0 killed_world)"
  using finish_awards_once [OF all_ok_sample reachable_wf [OF killed_reachable] killed_found,
      where winner = ARENA7X7_TEAM_BLUE and blue = 1 and red = 0 and k = 7]
  by (simp add: case_prod_beta)

lemma rank_player_keeps:
  assumes M: "um_find (aw_matches w) m = Some M" and s: "um_find (mt_players M) k = Some s" "\<not> ps_is_deserter s"
  shows "\<exists>M'. um_find (aw_matches (rank_player E m winner c w)) m = Some M' \<and> um_find (mt_players M') k = Some s"
proof (cases "um_find (mt_players M) c")
  case None
  with M s show ?thesis by (simp add: rank_player_def)
next
  case (Some t)
  have "c = k \<Longrightarrow> count_desertion t = s" using Some s by (simp add: count_desertion_def)
  with M s Some show ?thesis
    by (auto simp: rank_player_def Let_def ranking_case umap_simps frame_simps)
qed

lemma rank_players_keep:
  assumes "um_find (aw_matches w) m = Some M" and "um_find (mt_players M) k = Some s" and "\<not> ps_is_deserter s"
  shows "\<exists>M'. um_find (aw_matches (fold (rank_player E m winner) cs w)) m = Some M' \<and> um_find (mt_players M') k = Some s"
  using assms
proof (induction cs arbitrary: w M)
  case (Cons c cs)
  from rank_player_keeps [OF Cons.prems, of E winner c] Cons.IH Cons.prems(3) show ?case by fastforce
qed auto

lemma finish_keeps:
  assumes M: "um_find (aw_matches w) m = Some M" and s: "um_find (mt_players M) k = Some s" "\<not> ps_is_deserter s"
  shows "\<exists>M' t. um_find (aw_matches (snd (arena7x7_finish_match E m winner blue red w))) m = Some M' \<and>
    um_find (mt_players M') k = Some (s\<lparr>ps_time_alive := t\<rparr>)"
proof -
  let ?M1 = "finish_stamp E winner blue red M"
  obtain t where t: "um_find (mt_players ?M1) k = Some (s\<lparr>ps_time_alive := t\<rparr>)"
    using s(1) by (cases "ps_time_alive s = 0") (auto simp: find_finish_stamp intro: that [of "ps_time_alive s"])
  let ?w1 = "upd_match m (finish_stamp E winner blue red) w"
  let ?w3 = "arena7x7_save_detailed_logs E m (?w1\<lparr>aw_db := snd (arena7x7_save_match E ?M1 (aw_db ?w1))\<rparr>)"
  have "um_find (aw_matches ?w3) m = Some ?M1" using M by (simp add: frame_simps umap_simps)
  from rank_players_keep [OF this t, of E winner "map fst (um_iter (env_order E It_ranking) (mt_players ?M1))"] s(2) M
  show ?thesis by (fastforce simp: arena7x7_finish_match_def arena7x7_get_match_def Let_def)
qed

text \<open>Nothing stops a match from being finished again, and each time every player is awarded: after
  a second call the row of a player who is no deserter has been given both results.\<close>

theorem finish_again_awards_again:
  assumes ok: "all_ok E" and wf: "arena_wf w" and M: "um_find (aw_matches w) m = Some M"
    and s: "um_find (mt_players M) k = Some s" "\<not> ps_is_deserter s"
  shows "(let w1 = snd (arena7x7_finish_match E m winner1 blue1 red1 w);
       w2 = snd (arena7x7_finish_match E m winner2 blue2 red2 w1)
     in um_find (tb_rank (db_now (aw_db w2))) k =
       Some (award E winner2 s (Some (award E winner1 s (um_find (tb_rank (db_now (aw_db w))) k)))))"
proof -
  have r: "ranked v s" for v using s(2) by (simp add: ranked_def)
  obtain w1 done1 where w1: "arena7x7_finish_match E m winner1 blue1 red1 w = (done1, w1)" by fastforce
  obtain w2 done2 where w2: "arena7x7_finish_match E m winner2 blue2 red2 w1 = (done2, w2)" by fastforce
  have first: "um_find (tb_rank (db_now (aw_db w1))) k = Some (award E winner1 s (um_find (tb_rank (db_now (aw_db w))) k))"
    using finish_awards [OF ok wf M, where winner = winner1 and blue = blue1 and red = red1 and k = k] w1 s r by (simp add: Let_def)
  obtain M' t where M': "um_find (aw_matches w1) m = Some M'" "um_find (mt_players M') k = Some (s\<lparr>ps_time_alive := t\<rparr>)"
    using finish_keeps [OF M s, of E winner1 blue1 red1] w1 by auto
  have wf1: "arena_wf w1" using arena_wf_finish [OF wf, of E m winner1 blue1 red1] w1 by simp
  have "um_find (tb_rank (db_now (aw_db w2))) k =
      Some (award E winner2 s (um_find (tb_rank (db_now (aw_db w1))) k))"
    using finish_awards [OF ok wf1 M'(1), where winner = winner2 and blue = blue2 and red = red2 and k = k] w2 M'(2) r by (simp add: Let_def award_stamp)
  with first w1 w2 show ?thesis by (simp add: Let_def)
qed

lemma killed_killer: "\<exists>s. um_find (mt_players killed_match) 7 = Some s \<and> \<not> ps_is_deserter s"
proof -
  have "map_option ps_is_deserter (um_find (mt_players killed_match) 7) = Some False" by code_simp
  then show ?thesis by auto
qed

theorem finish_again_awards_again_witness:
  "\<exists>s. um_find (tb_rank (db_now (aw_db (snd (arena7x7_finish_match sample_env 1 ARENA7X7_TEAM_RED 0 1
     (snd (arena7x7_finish_match sample_env 1 ARENA7X7_TEAM_BLUE 1 0 killed_world))))))) 7 =
   Some (award sample_env ARENA7X7_TEAM_RED s (Some (award sample_env ARENA7X7_TEAM_BLUE s
     (um_find (tb_rank (db_now (aw_db killed_world))) 7))))"
proof -
  obtain s where s: "um_find (mt_players killed_match) 7 = Some s" "\<not> ps_is_deserter s" using killed_killer by blast
  from finish_again_awards_again [OF all_ok_sample reachable_wf [OF killed_reachable] killed_found s]
  show ?thesis by (auto simp: Let_def)
qed

end
