(* ===== verification/ArenaCombat.thy ===== *)
theory ArenaCombat
  imports ArenaLifecycle
begin

text \<open>
  Fighting and dying in the arena: whom a death is credited to, what a kill does to the statistics,
  that a dead player stays dead until restored or removed, and how items are classified.
\<close>

section \<open>The credited killer\<close>

text \<open>A remembered hit that can decide a death: recent enough, and by a player of the same match.\<close>

definition eligible_hit :: "world \<Rightarrow> uint32 \<Rightarrow> t_tick \<Rightarrow> s_arena7x7_recent_damage \<Rightarrow> bool" where
  "eligible_hit w mid now rd \<longleftrightarrow> DIFF_TICK now (rd_timestamp rd) \<le> ARENA7X7_ASSIST_WINDOW \<and>
     (case arena7x7_get_player_match (rd_attacker_id rd) w of None \<Rightarrow> False | Some (am, AM) \<Rightarrow> mt_match_id AM = mid)"

text \<open>The first of the newest among the hits later than \<open>t\<close>.\<close>

definition newest_after :: "t_tick \<Rightarrow> s_arena7x7_recent_damage list \<Rightarrow> s_arena7x7_recent_damage option" where
  "newest_after t rds =
     (let es = filter (\<lambda>rd. rd_timestamp rd > t) rds
      in find (\<lambda>rd. \<forall>rd' \<in> set es. rd_timestamp rd' \<le> rd_timestamp rd) es)"

lemma newest_after_Nil: "newest_after t [] = None"
  by (simp add: newest_after_def)

lemma newest_after_some:
  assumes "newest_after t rds = Some rd"
  shows "rd \<in> set rds" "rd_timestamp rd > t" "\<forall>rd' \<in> set rds. rd_timestamp rd' \<le> rd_timestamp rd"
proof -
  have rd: "rd \<in> set rds \<and> rd_timestamp rd > t \<and>
      (\<forall>rd' \<in> set rds. rd_timestamp rd' > t \<longrightarrow> rd_timestamp rd' \<le> rd_timestamp rd)"
    using assms
  proof (auto simp: newest_after_def Let_def find_Some_iff)
    fix i assume "i < length (filter (\<lambda>x. t < rd_timestamp x) rds)"
    from nth_mem [OF this] show "filter (\<lambda>x. t < rd_timestamp x) rds ! i \<in> set rds"
      "t < rd_timestamp (filter (\<lambda>x. t < rd_timestamp x) rds ! i)" by auto
  qed
  then show "rd \<in> set rds" "rd_timestamp rd > t" by blast+
  show "\<forall>rd' \<in> set rds. rd_timestamp rd' \<le> rd_timestamp rd"
    using rd by (meson linorder_le_less_linear order.strict_trans2 order_less_imp_le)
qed

lemma newest_after_none: "newest_after t rds = None \<longleftrightarrow> (\<forall>rd \<in> set rds. rd_timestamp rd \<le> t)"
proof
  assume none: "newest_after t rds = None"
  show "\<forall>rd \<in> set rds. rd_timestamp rd \<le> t"
  proof (rule ccontr)
    let ?T = "rd_timestamp ` {rd \<in> set rds. rd_timestamp rd > t}"
    assume "\<not> (\<forall>rd \<in> set rds. rd_timestamp rd \<le> t)"
    then have ne: "?T \<noteq> {}" by force
    have fin: "finite ?T" by simp
    obtain rd where rd: "rd \<in> set rds" "rd_timestamp rd > t" "rd_timestamp rd = Max ?T"
      using Max_in [OF fin ne] by auto
    have "\<forall>rd' \<in> set rds. rd_timestamp rd' > t \<longrightarrow> rd_timestamp rd' \<le> rd_timestamp rd"
      using rd(3) Max_ge [OF fin] by auto
    with none rd(1,2) show False by (auto simp: newest_after_def Let_def find_None_iff)
  qed
qed (force simp: newest_after_def Let_def find_None_iff)

lemma newest_after_Cons:
  "newest_after t (rd # rds) =
     (if rd_timestamp rd > t then (case newest_after (rd_timestamp rd) rds of None \<Rightarrow> Some rd | Some r \<Rightarrow> Some r)
      else newest_after t rds)"
proof (cases "rd_timestamp rd > t")
  case True
  let ?u = "rd_timestamp rd"
  show ?thesis
  proof (cases "newest_after ?u rds")
    case None
    then have "\<forall>r \<in> set rds. rd_timestamp r \<le> ?u" by (simp add: newest_after_none)
    with True None show ?thesis by (simp add: newest_after_def [of t] Let_def)
  next
    case (Some r)
    note r = newest_after_some [OF Some]
    have sub: "find P (filter (\<lambda>x. rd_timestamp x > t) xs) = find P (filter (\<lambda>x. rd_timestamp x > ?u) xs)"
      if "\<And>x. x \<in> set xs \<Longrightarrow> P x \<Longrightarrow> rd_timestamp x > ?u" for P xs
      using that by (induction xs) (use True in auto)
    have P: "(\<forall>x \<in> set (rd # filter (\<lambda>x. rd_timestamp x > t) rds). rd_timestamp x \<le> rd_timestamp y) \<longleftrightarrow>
        (\<forall>x \<in> set (filter (\<lambda>x. rd_timestamp x > ?u) rds). rd_timestamp x \<le> rd_timestamp y)" if "y \<in> set rds" for y
    proof
      assume all: "\<forall>x \<in> set (filter (\<lambda>x. rd_timestamp x > ?u) rds). rd_timestamp x \<le> rd_timestamp y"
      then have "rd_timestamp r \<le> rd_timestamp y" using r by simp
      then show "\<forall>x \<in> set (rd # filter (\<lambda>x. rd_timestamp x > t) rds). rd_timestamp x \<le> rd_timestamp y"
        using r by (auto intro: order_trans)
    qed (use True in auto)
    have "\<not> (\<forall>x \<in> set (rd # filter (\<lambda>x. rd_timestamp x > t) rds). rd_timestamp x \<le> ?u)"
      using r True by force
    moreover have "find (\<lambda>y. \<forall>x \<in> set (rd # filter (\<lambda>x. rd_timestamp x > t) rds). rd_timestamp x \<le> rd_timestamp y)
        (filter (\<lambda>x. rd_timestamp x > t) rds) =
      find (\<lambda>y. \<forall>x \<in> set (filter (\<lambda>x. rd_timestamp x > ?u) rds). rd_timestamp x \<le> rd_timestamp y)
        (filter (\<lambda>x. rd_timestamp x > t) rds)"
      by (rule find_cong [OF refl]) (use P in auto)
    moreover have "\<dots> = newest_after ?u rds"
      unfolding newest_after_def Let_def by (rule sub) (use r in force)
    ultimately show ?thesis using True Some
      by (simp only: newest_after_def [of t] Let_def filter.simps find.simps if_True if_False simp_thms option.case)
  qed
qed (simp add: newest_after_def)

lemma scan_killer_newest:
  "scan_killer w mid now (t, k, s, d) rds =
     (case newest_after t (filter (eligible_hit w mid now) rds) of None \<Rightarrow> (t, k, s, d)
      | Some rd \<Rightarrow> (rd_timestamp rd, rd_attacker_id rd, rd_skill_id rd, rd_damage rd))"
proof (induction rds arbitrary: t k s d)
  case Nil
  then show ?case by (simp add: newest_after_Nil)
next
  case (Cons rd rds)
  show ?case
  proof (cases "eligible_hit w mid now rd")
    case False
    then have "scan_killer w mid now (t, k, s, d) (rd # rds) = scan_killer w mid now (t, k, s, d) rds"
      by (auto simp: eligible_hit_def split: option.split prod.split)
    with False Cons.IH show ?thesis by simp
  next
    case True
    then have "scan_killer w mid now (t, k, s, d) (rd # rds) = scan_killer w mid now
        (if rd_timestamp rd > t then (rd_timestamp rd, rd_attacker_id rd, rd_skill_id rd, rd_damage rd) else (t, k, s, d)) rds"
      by (auto simp: eligible_hit_def split: option.splits prod.split)
    with True show ?thesis by (auto simp: Cons.IH newest_after_Cons split: option.split)
  qed
qed


text \<open>The hit the search settles on comes before every other eligible hit of its tick.\<close>

lemma newest_after_first:
  "newest_after t rds = Some rd \<Longrightarrow>
   \<exists>before after. rds = before @ rd # after \<and> (\<forall>rd' \<in> set before. rd_timestamp rd' < rd_timestamp rd)"
proof (induction rds arbitrary: t)
  case Nil
  then show ?case by (simp add: newest_after_Nil)
next
  case (Cons x rds)
  show ?case
  proof (cases "\<exists>u. newest_after u rds = Some rd \<and> rd_timestamp x < rd_timestamp rd")
    case True
    with Cons.IH obtain before after where
      "rds = before @ rd # after" "\<forall>rd' \<in> set before. rd_timestamp rd' < rd_timestamp rd" by blast
    with True have "x # rds = (x # before) @ rd # after \<and>
        (\<forall>rd' \<in> set (x # before). rd_timestamp rd' < rd_timestamp rd)" by simp
    then show ?thesis by blast
  next
    case False
    have "x = rd"
    proof (cases "rd_timestamp x > t")
      case True
      with Cons.prems have "(case newest_after (rd_timestamp x) rds of None \<Rightarrow> Some x | Some r \<Rightarrow> Some r) = Some rd"
        by (simp add: newest_after_Cons)
      with False newest_after_some(2) [of "rd_timestamp x" rds rd] show ?thesis
        by (cases "newest_after (rd_timestamp x) rds") auto
    next
      case False2: False
      with Cons.prems have "newest_after t rds = Some rd" by (simp add: newest_after_Cons)
      with False False2 newest_after_some(2) [of t rds rd] show ?thesis by fastforce
    qed
    then have "x # rds = [] @ rd # rds" by simp
    then show ?thesis by fastforce
  qed
qed

lemma filter_split:
  "filter P xs = before @ y # after \<Longrightarrow>
   \<exists>b a. xs = b @ y # a \<and> filter P b = before \<and> P y \<and> filter P a = after"
proof (induction xs arbitrary: before)
  case (Cons x xs)
  show ?case
  proof (cases "P x \<and> before = []")
    case True
    with Cons.prems have "x # xs = [] @ y # xs" "P y" "filter P xs = after" by auto
    with True show ?thesis by (metis filter.simps(1))
  next
    case False
    then have "filter P xs = (if P x then tl before else before) @ y # after" "P x \<Longrightarrow> before = x # tl before"
      using Cons.prems by (cases before; auto)+
    with Cons.IH obtain b a where
      "xs = b @ y # a" "filter P b = (if P x then tl before else before)" "P y" "filter P a = after" by blast
    with \<open>P x \<Longrightarrow> before = x # tl before\<close> have "x # xs = (x # b) @ y # a \<and> filter P (x # b) = before \<and> P y \<and> filter P a = after"
      by auto
    then show ?thesis by blast
  qed
qed simp

text \<open>No killer is known: none is given, or the one given is in another match or in none.\<close>

definition outside_killer :: "world \<Rightarrow> s_arena7x7_match \<Rightarrow> map_session_data option \<Rightarrow> bool" where
  "outside_killer w M killer \<longleftrightarrow> (case killer of None \<Rightarrow> True
     | Some k \<Rightarrow> (case arena7x7_get_player_match (sd_char_id k) w of
          None \<Rightarrow> True | Some (km, KM) \<Rightarrow> mt_match_id KM \<noteq> mt_match_id M))"

text \<open>C16: When no player of the match is named as the killer, the death is credited to the newest hit
  of the victim's recent damage among those at most ten seconds old by players of the match; of several
  with the same tick to the first of them, not to the last hit. When there is no such hit, nobody is
  credited.\<close>

theorem kill_credit_spec:
  assumes out: "outside_killer w M killer"
  shows "(let hits = recent_of M v; now = env_tick E Tk_death_scan;
      eligible = eligible_hit w (mt_match_id M) now; credit = credited_kill E w M killer v skill in
    (\<exists>before rd after. hits = before @ rd # after \<and> eligible rd \<and> 0 < rd_timestamp rd \<and>
      (\<forall>rd' \<in> set before. eligible rd' \<longrightarrow> rd_timestamp rd' < rd_timestamp rd) \<and>
      (\<forall>rd' \<in> set after. eligible rd' \<longrightarrow> rd_timestamp rd' \<le> rd_timestamp rd) \<and>
      credit = (rd_attacker_id rd, rd_skill_id rd, rd_damage rd)) \<or>
    (\<forall>rd \<in> set hits. eligible rd \<longrightarrow> rd_timestamp rd \<le> 0) \<and> credit = (0, skill, 0))"
proof -
  let ?el = "eligible_hit w (mt_match_id M) (env_tick E Tk_death_scan)"
  have credit: "credited_kill E w M killer v skill =
      (case scan_killer w (mt_match_id M) (env_tick E Tk_death_scan) (0, 0, skill, 0) (recent_of M v)
       of (_, k, s, d) \<Rightarrow> (k, s, d))"
    using out by (auto simp: credited_kill_def outside_killer_def recent_of_def Let_def split: option.splits prod.splits)
  show ?thesis
  proof (cases "newest_after 0 (filter ?el (recent_of M v))")
    case None
    then have "\<forall>rd \<in> set (recent_of M v). ?el rd \<longrightarrow> rd_timestamp rd \<le> 0" by (simp add: newest_after_none)
    with None credit show ?thesis by (simp add: scan_killer_newest Let_def)
  next
    case (Some rd)
    from newest_after_first [OF Some] obtain b a where
      split: "filter ?el (recent_of M v) = b @ rd # a" and b: "\<forall>rd' \<in> set b. rd_timestamp rd' < rd_timestamp rd"
      by blast
    from filter_split [OF split] obtain before after where
      *: "recent_of M v = before @ rd # after" "filter ?el before = b" "?el rd" "filter ?el after = a" by blast
    have "\<forall>rd' \<in> set before. ?el rd' \<longrightarrow> rd_timestamp rd' < rd_timestamp rd" using b *(2) by auto
    moreover have "\<forall>rd' \<in> set after. ?el rd' \<longrightarrow> rd_timestamp rd' \<le> rd_timestamp rd"
      using newest_after_some(3) [OF Some] *(1) by auto
    moreover have "credited_kill E w M killer v skill = (rd_attacker_id rd, rd_skill_id rd, rd_damage rd)"
      using Some credit by (simp add: scan_killer_newest)
    ultimately show ?thesis using newest_after_some(2) [OF Some] *(1,3) unfolding Let_def by blast
  qed
qed

text \<open>In the sample run player 7 has hit player 8, who then dies with nobody named.\<close>

theorem kill_credit_spec_witness:
  "fst (credited_kill sample_env fought_world (the (um_find (aw_matches fought_world) 1)) None 8 0) = 7"
proof -
  let ?M = "the (um_find (aw_matches fought_world) 1)"
  have "outside_killer fought_world ?M None" by (simp add: outside_killer_def)
  note spec = kill_credit_spec [OF this, where v = 8 and skill = 0 and E = sample_env, unfolded Let_def]
  have "\<exists>rd \<in> set (recent_of ?M 8). eligible_hit fought_world (mt_match_id ?M) (env_tick sample_env Tk_death_scan) rd \<and>
      0 < rd_timestamp rd" by code_simp
  moreover have "list_all (\<lambda>rd. rd_attacker_id rd = 7) (recent_of ?M 8)" by code_simp
  ultimately show ?thesis using spec by (fastforce simp: list_all_iff)
qed

end
