(* ===== verification/ArenaDeath.thy ===== *)
theory ArenaDeath
  imports ArenaCombat
begin

text \<open>
  What a death does: to the statistics of the players of the match, to the dead player's state until
  a restoration or a removal, and to the timer that would respawn the player.
\<close>

section \<open>A recorded kill\<close>

lemma find_assists_fold:
  "distinct as \<Longrightarrow> um_find (mt_players (fold (\<lambda>a. upd_stats a f) as M)) c =
     (if c \<in> set as then map_option f (um_find (mt_players M) c) else um_find (mt_players M) c)"
  by (induction as arbitrary: M) (auto simp: umap_simps)

text \<open>What a kill changes in one player's statistics.\<close>

definition kill_change :: "t_tick \<Rightarrow> uint32 \<Rightarrow> uint32 \<Rightarrow> uint32 list \<Rightarrow> uint32 \<Rightarrow> s_arena7x7_player_stats \<Rightarrow> s_arena7x7_player_stats" where
  "kill_change now killer victim as c s =
     (let s1 = (if c = victim then die_stats now now s else s);
          s2 = (if c = killer then killer_stats s1 else s1)
      in if c \<in> set as then s2\<lparr>ps_assists := ps_assists s2 + 1\<rparr> else s2)"

lemma record_kill_players:
  assumes active: "mt_status M = ARENA7X7_MATCH_ACTIVE"
  shows "um_find (mt_players (arena7x7_record_kill E killer victim skill dmg M)) c =
    map_option (kill_change (env_tick E Tk_record) killer victim
      (kill_assists E (env_tick E Tk_record) killer (um_find (mt_players M) victim)) c) (um_find (mt_players M) c)"
  using kill_assists_props(1) [OF refl]
  by (cases "um_find (mt_players M) c")
    (auto simp: arena7x7_record_kill_def active Let_def find_assists_fold umap_simps kill_change_def)

lemma kill_change_simps:
  "ps_kills (kill_change now k v as c s) = (if c = k then ps_kills s + 1 else ps_kills s)"
  "ps_deaths (kill_change now k v as c s) = (if c = v then ps_deaths s + 1 else ps_deaths s)"
  "ps_assists (kill_change now k v as c s) = (if c \<in> set as then ps_assists s + 1 else ps_assists s)"
  "ps_current_streak (kill_change now k v as c s) =
     (if c = k then (if c = v then 1 else ps_current_streak s + 1) else if c = v then 0 else ps_current_streak s)"
  "ps_recent_damage_taken (kill_change now k v as c s) = (if c = v then [] else ps_recent_damage_taken s)"
  "ps_is_dead (kill_change now k v as c s) = ps_is_dead s" "ps_team (kill_change now k v as c s) = ps_team s"
  "ps_damage_done (kill_change now k v as c s) = ps_damage_done s"
  by (simp_all add: kill_change_def die_stats_def killer_stats_def Let_def)


definition fought_match :: s_arena7x7_match where
  "fought_match = the (um_find (aw_matches fought_world) 1)"

lemma fought_players: "in_match fought_match 7" "um_find (mt_players fought_match) 8 \<noteq> None"
  "mt_status fought_match = ARENA7X7_MATCH_ACTIVE" "um_find (mt_players fought_match) 7 \<noteq> None"
  by code_simp+


section \<open>The dead player\<close>

text \<open>Steps that change sessions and call other modules, and nothing of the arena itself.\<close>

definition quiet :: "world \<Rightarrow> world \<Rightarrow> bool" where
  "quiet w w' \<longleftrightarrow> aw_matches w' = aw_matches w \<and> aw_player_match w' = aw_player_match w \<and>
     aw_timers w' = aw_timers w \<and> aw_db w' = aw_db w \<and> aw_match_counter w' = aw_match_counter w \<and>
     aw_mapdata w' = aw_mapdata w"

lemma quiet_refl: "quiet w w"
  by (simp add: quiet_def)

lemma quiet_trans: "quiet w1 w2 \<Longrightarrow> quiet w2 w3 \<Longrightarrow> quiet w1 w3"
  by (simp add: quiet_def)

lemma quiet_engine: "quiet w (engine E c w)"
  by (simp add: quiet_def frame_simps)

lemma quiet_sd: "quiet w (upd_sd c f w)"
  by (simp add: quiet_def frame_simps)

lemma quiet_fold: "(\<And>x w. quiet w (f x w)) \<Longrightarrow> quiet w (fold f xs w)"
  by (induction xs arbitrary: w) (auto intro: quiet_refl quiet_trans)

lemma quiet_engines: "quiet w (fold (engine E) cs w)"
  by (rule quiet_fold) (rule quiet_engine)

lemma quiet_cursedcircle: "quiet w (arena7x7_remove_cursedcircle_targets E sd_ptr w)"
proof -
  have cb: "quiet w (arena7x7_remove_cursedcircle_callback E i c w)" for i c w
    by (auto simp: arena7x7_remove_cursedcircle_callback_def quiet_refl split: option.split
        intro: quiet_trans quiet_engine)
  show ?thesis
    by (auto simp: arena7x7_remove_cursedcircle_targets_def Let_def quiet_refl split: option.split
        intro!: quiet_trans [OF quiet_fold quiet_engine] cb)
qed

lemma quiet_fix_dead: "quiet w (fix_dead E c w)"
  unfolding fix_dead_def by (rule quiet_trans [OF quiet_sd quiet_engines])

text \<open>A registered player, with its match and its statistics.\<close>

definition plays :: "world \<Rightarrow> uint32 \<Rightarrow> uint32 \<Rightarrow> s_arena7x7_match \<Rightarrow> s_arena7x7_player_stats \<Rightarrow> bool" where
  "plays w c m M s \<longleftrightarrow> um_find (aw_player_match w) c = Some m \<and> um_find (aw_matches w) m = Some M \<and>
     um_find (mt_players M) c = Some s"

lemma plays_get:
  "plays w c m M s \<Longrightarrow> arena7x7_get_player_match c w = Some (m, M)"
  "plays w c m M s \<Longrightarrow> arena7x7_get_player_stats c w = Some s"
  "plays w c m M s \<Longrightarrow> arena7x7_is_player_dead c w = ps_is_dead s"
proof -
  assume p: "plays w c m M s"
  then show get: "arena7x7_get_player_match c w = Some (m, M)" by (simp add: plays_def get_player_match_iff)
  from p show stats: "arena7x7_get_player_stats c w = Some s"
    by (simp add: arena7x7_get_player_stats_def get plays_def)
  show "arena7x7_is_player_dead c w = ps_is_dead s" by (simp add: arena7x7_is_player_dead_def stats)
qed

lemma plays_obtain:
  assumes "arena_wf w" "um_find (aw_player_match w) c = Some m"
  obtains M s where "plays w c m M s"
  using assms unfolding plays_def arena_wf_def by blast

lemma plays_quiet:
  "quiet w w' \<Longrightarrow> plays w' c m M s = plays w c m M s" "quiet w w' \<Longrightarrow> aw_player_match w' = aw_player_match w"
  by (simp_all add: quiet_def plays_def)

lemma plays_upd_stats:
  "plays w c m M s \<Longrightarrow> plays (upd_match m (upd_stats c f) w) c m (upd_stats c f M) (f s)"
  by (simp add: plays_def umap_simps frame_simps)

lemma count_alive_frame:
  "mt_players (arena7x7_count_alive_players M) = mt_players M"
  "mt_status (arena7x7_count_alive_players M) = mt_status M"
  "mt_kill_log (arena7x7_count_alive_players M) = mt_kill_log M"
  by (simp_all add: arena7x7_count_alive_players_def)

lemma score_display_plays:
  assumes "plays w c m M s"
  shows "\<exists>M'. plays (arena7x7_update_score_display E m w) c m M' s \<and> (M' = M \<or> M' = arena7x7_count_alive_players M)"
    "aw_player_match (arena7x7_update_score_display E m w) = aw_player_match w"
    "aw_timers (arena7x7_update_score_display E m w) = aw_timers w"
  using assms
  by (auto simp: arena7x7_update_score_display_def Let_def plays_def frame_simps umap_simps count_alive_frame
      split: option.split)

text \<open>The statistics are marked, the scores may be counted again, the registrations stay.\<close>

lemma tombstone_plays:
  fixes E :: arena_env
  assumes p: "plays w (sd_char_id sd) m M s"
  defines "w' \<equiv> arena7x7_transform_to_tombstone E (Some sd) w"
    and "N \<equiv> upd_stats (sd_char_id sd) (\<lambda>s. s\<lparr>ps_is_dead := True\<rparr>) M"
  shows "\<exists>M'. plays w' (sd_char_id sd) m M' (s\<lparr>ps_is_dead := True\<rparr>) \<and> (M' = N \<or> M' = arena7x7_count_alive_players N)"
    and "aw_player_match w' = aw_player_match w"
proof -
  let ?c = "sd_char_id sd"
  define w1 where "w1 = mark_dead ?c w"
  have w1: "plays w1 ?c m N (s\<lparr>ps_is_dead := True\<rparr>)" "aw_player_match w1 = aw_player_match w"
    using plays_upd_stats [OF p] by (simp_all add: w1_def mark_dead_def plays_get [OF p] N_def frame_simps)
  define w3 where "w3 = fix_dead E ?c (engine E (Status_change_clear ?c 3)
    (fold (\<lambda>s. engine E (Status_change_end ?c s)) tombstone_ends w1))"
  have q: "quiet w1 w3"
    unfolding w3_def
    by (rule quiet_trans [OF quiet_trans [OF quiet_fold quiet_engine] quiet_fix_dead]) (rule quiet_engine)
  have w3: "plays w3 ?c m N (s\<lparr>ps_is_dead := True\<rparr>)" "aw_player_match w3 = aw_player_match w"
    using w1 by (simp_all add: plays_quiet [OF q])
  define w5 where "w5 = engine E (Clif_displaymessage ?c
    ''[Arena 7x7] Voce foi eliminado! Aguarde o fim da partida.'') (cancel_respawn sd w3)"
  have w5: "plays w5 ?c m N (s\<lparr>ps_is_dead := True\<rparr>)" "aw_player_match w5 = aw_player_match w"
    using w3 by (auto simp: w5_def cancel_respawn_def Let_def plays_def frame_simps)
  have "w' = arena7x7_update_score_display E m w5"
    unfolding w'_def arena7x7_transform_to_tombstone_def Let_def
    using plays_get(2) [OF p] plays_get(1) [OF w5(1)] by (simp add: w5_def w3_def w1_def)
  with score_display_plays [OF w5(1)] w5(2)
  show "\<exists>M'. plays w' ?c m M' (s\<lparr>ps_is_dead := True\<rparr>) \<and> (M' = N \<or> M' = arena7x7_count_alive_players N)"
    "aw_player_match w' = aw_player_match w" by simp_all
qed

lemma die_event_quiet:
  "quiet w (if bg = 0 then w else case env_die_event E bg of None \<Rightarrow> w
     | Some ev \<Rightarrow> if ev = '''' then w else engine E (Npc_event v ev) w)"
  by (simp add: quiet_refl quiet_engine split: option.split)

lemma on_death_dead:
  "arena7x7_is_player_dead (sd_char_id sd) w \<Longrightarrow> arena7x7_on_death E killer (Some sd) skill w = w"
  by (auto simp: arena7x7_on_death_def arena7x7_is_player_dead_def arena7x7_get_player_stats_def Let_def
      split: option.splits prod.splits)

text \<open>The match after the kill or the uncredited death, before the tombstone.\<close>

definition death_match :: "arena_env \<Rightarrow> uint32 \<Rightarrow> uint32 \<times> uint16 \<times> uint32 \<Rightarrow> s_arena7x7_match \<Rightarrow> s_arena7x7_match" where
  "death_match E v credit M = (case credit of (k, s, d) \<Rightarrow>
     if k > 0 then arena7x7_record_kill E k v s d M
     else upd_stats v (die_stats (env_tick E Tk_death_time) (env_tick E Tk_death_alive)) M)"

lemma death_match_stats:
  assumes s: "um_find (mt_players M) v = Some s"
  shows "\<exists>s1. um_find (mt_players (death_match E v credit M)) v = Some s1 \<and>
      ps_deaths s1 = (if fst credit = 0 \<or> mt_status M = ARENA7X7_MATCH_ACTIVE then ps_deaths s + 1 else ps_deaths s)"
    and "mt_status (death_match E v credit M) = mt_status M"
    and "length (mt_kill_log (death_match E v credit M)) =
      (if fst credit \<noteq> 0 \<and> mt_status M = ARENA7X7_MATCH_ACTIVE then Suc (length (mt_kill_log M)) else length (mt_kill_log M))"
proof -
  obtain k sk d where credit: "credit = (k, sk, d)" by (cases credit)
  have zero: "k > 0 \<longleftrightarrow> k \<noteq> 0" by (simp add: word_neq_0_conv)
  show "\<exists>s1. um_find (mt_players (death_match E v credit M)) v = Some s1 \<and>
      ps_deaths s1 = (if fst credit = 0 \<or> mt_status M = ARENA7X7_MATCH_ACTIVE then ps_deaths s + 1 else ps_deaths s)"
  proof (cases "k \<noteq> 0 \<and> mt_status M = ARENA7X7_MATCH_ACTIVE")
    case True
    then show ?thesis
      using record_kill_players [of M E k v sk d v] s by (simp add: death_match_def credit zero kill_change_simps)
  next
    case False
    then show ?thesis
      using s by (auto simp: death_match_def credit zero umap_simps die_stats_def arena7x7_record_kill_def)
  qed
  show "mt_status (death_match E v credit M) = mt_status M"
    by (simp add: death_match_def credit arena7x7_record_kill_def Let_def assists_frame frame_simps)
  show "length (mt_kill_log (death_match E v credit M)) =
      (if fst credit \<noteq> 0 \<and> mt_status M = ARENA7X7_MATCH_ACTIVE then Suc (length (mt_kill_log M)) else length (mt_kill_log M))"
    by (simp add: death_match_def credit zero arena7x7_record_kill_def Let_def assists_frame frame_simps)
qed

lemma on_death_plays:
  assumes p: "plays w (sd_char_id sd) m M s" and alive: "\<not> ps_is_dead s"
  shows "\<exists>M' s1. let D = death_match E (sd_char_id sd) (credited_kill E w M killer (sd_char_id sd) skill) M;
        w' = arena7x7_on_death E killer (Some sd) skill w; N = upd_stats (sd_char_id sd) (\<lambda>s. s\<lparr>ps_is_dead := True\<rparr>) D
      in um_find (mt_players D) (sd_char_id sd) = Some s1 \<and> plays w' (sd_char_id sd) m M' (s1\<lparr>ps_is_dead := True\<rparr>) \<and>
        (M' = N \<or> M' = arena7x7_count_alive_players N) \<and> aw_player_match w' = aw_player_match w"
proof -
  let ?c = "sd_char_id sd" and ?dead = "\<lambda>s :: s_arena7x7_player_stats. s\<lparr>ps_is_dead := True\<rparr>"
  define D where "D = death_match E ?c (credited_kill E w M killer ?c skill) M"
  obtain s1 where s1: "um_find (mt_players D) ?c = Some s1"
    using death_match_stats(1) [of M ?c s E "credited_kill E w M killer ?c skill"] p by (auto simp: D_def plays_def)
  obtain k sk d where credit: "credited_kill E w M killer ?c skill = (k, sk, d)" by (cases "credited_kill E w M killer ?c skill")
  define w1 where "w1 = (if k > 0 then upd_match m (arena7x7_record_kill E k ?c sk d) w
    else upd_match m (upd_stats ?c (die_stats (env_tick E Tk_death_time) (env_tick E Tk_death_alive))) w)"
  have "um_find (aw_matches w1) m = Some D" "aw_player_match w1 = aw_player_match w"
    using p by (simp_all add: w1_def D_def death_match_def credit plays_def umap_simps frame_simps)
  with s1 p have w1: "plays w1 ?c m D s1" "aw_player_match w1 = aw_player_match w" by (simp_all add: plays_def)
  define w2 where "w2 = arena7x7_remove_cursedcircle_targets E (Some sd) w1"
  have q: "quiet w1 w2" unfolding w2_def by (rule quiet_cursedcircle)
  have w2: "plays w2 ?c m D s1" "aw_player_match w2 = aw_player_match w" using w1 by (simp_all add: plays_quiet [OF q])
  define w3 where "w3 = arena7x7_transform_to_tombstone E (Some sd) w2"
  from tombstone_plays [OF w2(1), of E] w2(2) obtain M' where
    w3: "plays w3 ?c m M' (?dead s1)" "aw_player_match w3 = aw_player_match w"
    and M': "M' = upd_stats ?c ?dead D \<or> M' = arena7x7_count_alive_players (upd_stats ?c ?dead D)"
    by (auto simp: w3_def)
  have "arena7x7_on_death E killer (Some sd) skill w =
      (let bg = sd_bg_id (sd_now w3 sd) in if bg = 0 then w3 else case env_die_event E bg of None \<Rightarrow> w3
         | Some ev \<Rightarrow> if ev = '''' then w3 else engine E (Npc_event ?c ev) w3)"
    unfolding arena7x7_on_death_def option.case Let_def plays_get(1) [OF p] plays_get(2) [OF p] prod.case credit
    by (simp only: alive if_False w3_def w2_def w1_def)
  then have q: "quiet w3 (arena7x7_on_death E killer (Some sd) skill w)"
    using die_event_quiet by (simp only: Let_def)
  have "plays (arena7x7_on_death E killer (Some sd) skill w) ?c m M' (?dead s1)"
    "aw_player_match (arena7x7_on_death E killer (Some sd) skill w) = aw_player_match w"
    using w3 by (simp_all add: plays_quiet [OF q])
  with s1 M' show ?thesis unfolding Let_def D_def by blast
qed

text \<open>C15: The death of a living registered player leaves it dead and registered as before: it stays in
  the match, further deaths are no-ops whoever is named, and nobody else is unregistered. The player's deaths
  grow by one when nobody is credited, whatever the status of the match, or when the match is active; the kill
  log grows by one exactly when somebody is credited in an active match.\<close>

theorem death_spec:
  assumes wf: "arena_wf w" and pm: "um_find (aw_player_match w) (sd_char_id sd) = Some m"
    and alive: "\<not> arena7x7_is_player_dead (sd_char_id sd) w"
  shows "(let c = sd_char_id sd; w' = arena7x7_on_death E killer (Some sd) skill w in
    arena7x7_is_player_dead c w' \<and> aw_player_match w' = aw_player_match w \<and>
    arena7x7_on_death E killer' (Some sd) skill' w' = w' \<and>
    (\<exists>M M' s s'. plays w c m M s \<and> plays w' c m M' s' \<and> mt_status M' = mt_status M \<and>
      (let k = fst (credited_kill E w M killer c skill); active = (mt_status M = ARENA7X7_MATCH_ACTIVE) in
        ps_deaths s' = (if k = 0 \<or> active then ps_deaths s + 1 else ps_deaths s) \<and>
        length (mt_kill_log M') = (if k \<noteq> 0 \<and> active then Suc (length (mt_kill_log M)) else length (mt_kill_log M)))))"
proof -
  let ?c = "sd_char_id sd" and ?w' = "arena7x7_on_death E killer (Some sd) skill w"
  obtain M s where p: "plays w ?c m M s" by (rule plays_obtain [OF wf pm])
  let ?D = "death_match E ?c (credited_kill E w M killer ?c skill) M"
  have s: "um_find (mt_players M) ?c = Some s" "\<not> ps_is_dead s" using p alive plays_get(3) [OF p] by (simp_all add: plays_def)
  obtain M' s1 where D: "um_find (mt_players ?D) ?c = Some s1" "plays ?w' ?c m M' (s1\<lparr>ps_is_dead := True\<rparr>)"
      "M' = upd_stats ?c (\<lambda>s. s\<lparr>ps_is_dead := True\<rparr>) ?D \<or>
       M' = arena7x7_count_alive_players (upd_stats ?c (\<lambda>s. s\<lparr>ps_is_dead := True\<rparr>) ?D)"
      "aw_player_match ?w' = aw_player_match w"
    using on_death_plays [OF p s(2), of E killer skill] unfolding Let_def by blast
  have dead: "arena7x7_is_player_dead ?c ?w'" using plays_get(3) [OF D(2)] by simp
  have M': "mt_status M' = mt_status ?D" "mt_kill_log M' = mt_kill_log ?D"
    using D(3) by (auto simp: count_alive_frame frame_simps)
  note st = death_match_stats [OF s(1), of E "credited_kill E w M killer ?c skill"]
  have "ps_deaths (s1\<lparr>ps_is_dead := True\<rparr>) =
      (if fst (credited_kill E w M killer ?c skill) = 0 \<or> mt_status M = ARENA7X7_MATCH_ACTIVE
       then ps_deaths s + 1 else ps_deaths s)"
    using st(1) D(1) by simp
  with p D(2) M' st(2,3) dead D(4) on_death_dead [OF dead, of E killer' skill'] show ?thesis
    unfolding Let_def by metis
qed

lemma fought_alive: "\<not> arena7x7_is_player_dead (sd_char_id (sample_sd 8)) fought_world"
  "um_find (aw_player_match fought_world) (sd_char_id (sample_sd 8)) = Some 1"
  by code_simp+

theorem death_spec_witness:
  "arena7x7_is_player_dead 8 (arena7x7_on_death sample_env None (Some (sample_sd 8)) 0 fought_world)"
  using death_spec [OF reachable_wf [OF fought_reachable] fought_alive(2) fought_alive(1),
      where E = sample_env and killer = None and skill = 0]
  by (simp add: Let_def sample_sd_id)

section \<open>The respawn timer\<close>

text \<open>A character's stored session holds this timer id.\<close>

definition holds_timer :: "uint32 \<Rightarrow> int \<Rightarrow> world \<Rightarrow> bool" where
  "holds_timer c tid w \<longleftrightarrow> (case um_find (aw_sessions w) c of None \<Rightarrow> False | Some sd \<Rightarrow> sd_respawn_tid sd = tid)"

lemma holds_timer_engine:
  assumes "\<And>call s. sd_respawn_tid (env_engine E call s) = sd_respawn_tid s"
  shows "holds_timer c tid w \<Longrightarrow> holds_timer c tid (engine E call w)"
  using assms
  by (auto simp: holds_timer_def engine_def Let_def upd_sd_def umap_simps split: option.splits)

lemma holds_timer_engines:
  assumes "\<And>call s. sd_respawn_tid (env_engine E call s) = sd_respawn_tid s"
  shows "holds_timer c tid w \<Longrightarrow> holds_timer c tid (fold (\<lambda>x. engine E (g x)) xs w)"
  by (induction xs arbitrary: w) (simp_all add: holds_timer_engine [OF assms])

lemma fix_dead_fold: "fix_dead E c w = fold (\<lambda>x. engine E x) [Unit_stop_walking c, Unit_stop_attack c,
    Unit_skillcastcancel c, Clif_clearunit_area c, Clif_spawn c, Status_change_start c ''SC_STOP'' 1800000]
    (upd_sd c lay_down w)"
  by (simp add: fix_dead_def)

text \<open>A player who lies down as a tombstone loses the respawn timer's id, but not the timer: the
  timer has a callback, \<open>delete_timer(sd->respawn_tid, NULL)\<close> does not match it, and the timer manager stays
  exactly as it was, so the timer still fires. Other modules are taken to leave the stored timer id alone.\<close>

theorem tombstone_keeps_respawn_timer:
  assumes p: "plays w (sd_char_id sd) m M s" and holds: "holds_timer (sd_char_id sd) tid w"
    and callback: "td_func (timer_at (aw_timers w) (nat tid)) \<noteq> None"
    and env: "\<And>call s. sd_respawn_tid (env_engine E call s) = sd_respawn_tid s"
  shows "(let w' = arena7x7_transform_to_tombstone E (Some sd) w in
    aw_timers w' = aw_timers w \<and> holds_timer (sd_char_id sd) INVALID_TIMER w')"
proof -
  let ?c = "sd_char_id sd"
  define w1 where "w1 = mark_dead ?c w"
  define w2 where "w2 = engine E (Status_change_clear ?c 3)
    (fold (\<lambda>s. engine E (Status_change_end ?c s)) tombstone_ends w1)"
  define w3 where "w3 = fix_dead E ?c w2"
  define w5 where "w5 = engine E (Clif_displaymessage ?c
    ''[Arena 7x7] Voce foi eliminado! Aguarde o fim da partida.'') (cancel_respawn sd w3)"
  have w1: "plays w1 ?c m (upd_stats ?c (\<lambda>s. s\<lparr>ps_is_dead := True\<rparr>) M) (s\<lparr>ps_is_dead := True\<rparr>)"
    "aw_timers w1 = aw_timers w" "aw_sessions w1 = aw_sessions w"
    using plays_upd_stats [OF p] by (simp_all add: w1_def mark_dead_def plays_get [OF p] frame_simps)
  have "quiet w1 w3"
    unfolding w3_def w2_def
    by (rule quiet_trans [OF quiet_trans [OF quiet_fold quiet_engine] quiet_fix_dead]) (rule quiet_engine)
  with w1(2) have t3: "aw_timers w3 = aw_timers w" "plays w3 ?c m
      (upd_stats ?c (\<lambda>s. s\<lparr>ps_is_dead := True\<rparr>) M) (s\<lparr>ps_is_dead := True\<rparr>)"
    using w1(1) by (simp_all add: plays_quiet) (simp add: quiet_def)
  have "holds_timer ?c tid w1" using holds w1(3) by (simp add: holds_timer_def)
  then have "holds_timer ?c tid w2" unfolding w2_def by (intro holds_timer_engine holds_timer_engines env)
  then have "holds_timer ?c tid (upd_sd ?c lay_down w2)"
    by (auto simp: holds_timer_def upd_sd_def umap_simps lay_down_def split: option.splits)
  then have h3: "holds_timer ?c tid w3" unfolding w3_def fix_dead_fold by (intro holds_timer_engines env)
  then obtain sd3 where sd3: "um_find (aw_sessions w3) ?c = Some sd3" "sd_respawn_tid sd3 = tid"
    by (auto simp: holds_timer_def split: option.splits)
  have "snd (delete_timer tid None (aw_timers w3)) = aw_timers w3"
    using callback by (auto simp: delete_timer_def t3(1))
  with sd3 have "aw_timers (cancel_respawn sd w3) = aw_timers w" "holds_timer ?c INVALID_TIMER (cancel_respawn sd w3)"
    "plays (cancel_respawn sd w3) ?c m (upd_stats ?c (\<lambda>s. s\<lparr>ps_is_dead := True\<rparr>) M) (s\<lparr>ps_is_dead := True\<rparr>)"
    using t3 by (auto simp: cancel_respawn_def Let_def sd_now_def holds_timer_def umap_simps upd_sd_def plays_def)
  then have w5: "aw_timers w5 = aw_timers w" "holds_timer ?c INVALID_TIMER w5"
    "plays w5 ?c m (upd_stats ?c (\<lambda>s. s\<lparr>ps_is_dead := True\<rparr>) M) (s\<lparr>ps_is_dead := True\<rparr>)"
    by (auto simp: w5_def frame_simps plays_quiet [OF quiet_engine] intro: holds_timer_engine [OF env])
  have "arena7x7_transform_to_tombstone E (Some sd) w = arena7x7_update_score_display E m w5"
    unfolding arena7x7_transform_to_tombstone_def Let_def
    using plays_get(2) [OF p] plays_get(1) [OF w5(3)] by (simp add: w5_def w3_def w2_def w1_def)
  moreover have "aw_sessions (arena7x7_update_score_display E m w5) = aw_sessions w5"
    by (simp add: arena7x7_update_score_display_def Let_def engine_def frame_simps split: option.split)
  ultimately show ?thesis
    using w5(1,2) score_display_plays(3) [OF w5(3), of E] by (simp add: Let_def holds_timer_def)
qed

text \<open>A player waiting for a respawn: session 8 holds the timer that was added for it.\<close>

definition respawn_world :: world where
  "respawn_world = (let (tid, T) = add_timer 5000 (Some ''pc_respawn_timer'') 8 0 (aw_timers fought_world) in
     (upd_sd 8 (\<lambda>sd. sd\<lparr>sd_respawn_tid := tid\<rparr>) fought_world)\<lparr>aw_timers := T\<rparr>)"

theorem tombstone_keeps_respawn_timer_witness:
  "td_func (timer_at (aw_timers (arena7x7_transform_to_tombstone sample_env (Some (sample_sd 8)) respawn_world))
     (nat (sd_respawn_tid (the (um_find (aw_sessions respawn_world) 8))))) = Some ''pc_respawn_timer''"
proof -
  let ?tid = "sd_respawn_tid (the (um_find (aw_sessions respawn_world) 8))"
  have f: "td_func (timer_at (aw_timers respawn_world) (nat ?tid)) = Some ''pc_respawn_timer''"
    and h: "holds_timer (sd_char_id (sample_sd 8)) ?tid respawn_world"
    and "um_find (aw_player_match respawn_world) (sd_char_id (sample_sd 8)) = Some 1"
    and "um_find (aw_matches respawn_world) 1 \<noteq> None"
    and "um_find (mt_players (the (um_find (aw_matches respawn_world) 1))) (sd_char_id (sample_sd 8)) \<noteq> None"
    by code_simp+
  then obtain M s where p: "plays respawn_world (sd_char_id (sample_sd 8)) 1 M s" by (fastforce simp: plays_def)
  have "sd_respawn_tid (env_engine sample_env call s) = sd_respawn_tid s" for call s by (simp add: sample_env_def)
  from tombstone_keeps_respawn_timer [OF p h _ this] f show ?thesis by (simp add: Let_def)
qed

section \<open>Restoration and leaving by a warp\<close>

lemma dead_mark_alive:
  "arena7x7_is_player_dead k (mark_alive c w) \<longleftrightarrow> k \<noteq> c \<and> arena7x7_is_player_dead k w"
proof (cases "arena7x7_get_player_match c w")
  case None
  then show ?thesis
    by (auto simp: mark_alive_def arena7x7_is_player_dead_def arena7x7_get_player_stats_def)
next
  case (Some mM)
  then obtain m M where M: "um_find (aw_player_match w) c = Some m" "um_find (aw_matches w) m = Some M"
    "mark_alive c w = upd_match m (upd_stats c (\<lambda>s. s\<lparr>ps_is_dead := False\<rparr>)) w"
    by (cases mM) (simp add: mark_alive_def get_player_match_iff)
  have "arena7x7_get_player_match k (mark_alive c w) = map_option (\<lambda>(m', M').
      (m', if m' = m then upd_stats c (\<lambda>s. s\<lparr>ps_is_dead := False\<rparr>) M' else M')) (arena7x7_get_player_match k w)"
    by (auto simp: M(3) arena7x7_get_player_match_def arena7x7_get_match_def umap_simps frame_simps
        option.map_comp comp_def split: option.split)
  moreover have "m' = m" if "arena7x7_get_player_match c w = Some (m', M')" for m' M'
    using that M(1) by (simp add: get_player_match_iff)
  ultimately show ?thesis
    by (cases "k = c") (auto simp: arena7x7_is_player_dead_def arena7x7_get_player_stats_def umap_simps
        split: option.splits prod.splits)
qed

lemma quiet_dead: "quiet w w' \<Longrightarrow> arena7x7_is_player_dead k w' = arena7x7_is_player_dead k w"
  by (simp add: quiet_def arena7x7_is_player_dead_def arena7x7_get_player_stats_def arena7x7_get_player_match_def
      arena7x7_get_match_def cong: option.case_cong)

lemma restore_quiet: "quiet (mark_alive (sd_char_id sd) w) (arena7x7_restore_from_tombstone E (Some sd) w)"
  unfolding arena7x7_restore_from_tombstone_def option.case Let_def by (rule quiet_engines)

lemma dead_restore:
  "arena7x7_is_player_dead k (arena7x7_restore_from_tombstone E (Some sd) w) \<longleftrightarrow>
   k \<noteq> sd_char_id sd \<and> arena7x7_is_player_dead k w"
  by (simp add: quiet_dead [OF restore_quiet] dead_mark_alive)

lemma mark_alive_frame [frame_simps]:
  "aw_player_match (mark_alive c w) = aw_player_match w" "aw_sessions (mark_alive c w) = aw_sessions w"
  "aw_db (mark_alive c w) = aw_db w"
  by (simp_all add: mark_alive_def frame_simps split: option.split)

lemma restore_registered: "aw_player_match (arena7x7_restore_from_tombstone E (Some sd) w) = aw_player_match w"
  using restore_quiet [of sd w E] by (simp add: quiet_def frame_simps)

text \<open>Who is online, and under the right id.\<close>

definition online :: "world \<Rightarrow> uint32 \<Rightarrow> bool" where
  "online w c \<longleftrightarrow> (case um_find (aw_sessions w) c of None \<Rightarrow> False | Some sd \<Rightarrow> sd_char_id sd = c)"

lemma online_engine:
  assumes "\<And>call s. sd_char_id (env_engine E call s) = sd_char_id s"
  shows "online (engine E call w) c = online w c"
  using assms by (auto simp: online_def engine_def Let_def upd_sd_def umap_simps split: option.splits)

lemma online_engines:
  assumes "\<And>call s. sd_char_id (env_engine E call s) = sd_char_id s"
  shows "online (fold (engine E) cs w) c = online w c"
  by (induction cs arbitrary: w) (simp_all add: online_engine [OF assms])

lemma online_restore:
  assumes "\<And>call s. sd_char_id (env_engine E call s) = sd_char_id s"
  shows "online (arena7x7_restore_from_tombstone E (Some sd) w) c = online w c"
  unfolding arena7x7_restore_from_tombstone_def option.case Let_def online_engines [OF assms]
  by (simp add: online_def frame_simps)

lemma restore_one_step:
  assumes env: "\<And>call s. sd_char_id (env_engine E call s) = sd_char_id s"
  shows "online (restore_one E m c w) k = online w k"
    and "aw_player_match (restore_one E m c w) = aw_player_match w"
    and "arena7x7_is_player_dead k (restore_one E m c w) \<Longrightarrow> arena7x7_is_player_dead k w"
    and "um_find (aw_player_match w) c = Some m \<Longrightarrow> online w c \<Longrightarrow> \<not> arena7x7_is_player_dead c (restore_one E m c w)"
proof -
  show "online (restore_one E m c w) k = online w k" "aw_player_match (restore_one E m c w) = aw_player_match w"
    "arena7x7_is_player_dead k (restore_one E m c w) \<Longrightarrow> arena7x7_is_player_dead k w"
    by (auto simp: restore_one_def online_restore [OF env] restore_registered dead_restore split: option.splits if_splits)
  assume reg: "um_find (aw_player_match w) c = Some m" and on: "online w c"
  show "\<not> arena7x7_is_player_dead c (restore_one E m c w)"
  proof
    assume dead: "arena7x7_is_player_dead c (restore_one E m c w)"
    then have "arena7x7_is_player_dead c w"
      by (auto simp: restore_one_def dead_restore split: option.splits if_splits)
    with reg obtain M s where "um_find (aw_matches w) m = Some M" "um_find (mt_players M) c = Some s" "ps_is_dead s"
      by (auto simp: arena7x7_is_player_dead_def arena7x7_get_player_stats_def get_player_match_iff
          split: option.splits prod.splits)
    with on dead show False by (auto simp: restore_one_def online_def dead_restore split: option.splits)
  qed
qed

lemma restore_fold:
  assumes env: "\<And>call s. sd_char_id (env_engine E call s) = sd_char_id s"
  shows "aw_player_match (fold (restore_one E m) cs w) = aw_player_match w \<and>
    (\<forall>k. arena7x7_is_player_dead k (fold (restore_one E m) cs w) \<longrightarrow> arena7x7_is_player_dead k w \<and>
      \<not> (k \<in> set cs \<and> um_find (aw_player_match w) k = Some m \<and> online w k))"
proof (induction cs arbitrary: w)
  case (Cons c cs)
  note st = restore_one_step [OF env, where m = m and c = c and w = w] and IH = Cons.IH [of "restore_one E m c w"]
  have "aw_player_match (fold (restore_one E m) (c # cs) w) = aw_player_match w" using IH st(2) by simp
  moreover have "arena7x7_is_player_dead k w \<and>
      \<not> (k \<in> set (c # cs) \<and> um_find (aw_player_match w) k = Some m \<and> online w k)"
    if "arena7x7_is_player_dead k (fold (restore_one E m) (c # cs) w)" for k
  proof -
    from that IH have k: "arena7x7_is_player_dead k (restore_one E m c w)"
      "\<not> (k \<in> set cs \<and> um_find (aw_player_match w) k = Some m \<and> online w k)" by (simp_all add: st(1,2))
    with st(3,4) show ?thesis by auto
  qed
  ultimately show ?case by blast
qed simp

text \<open>Restoring a match's tombstones leaves no online player that is registered in the match dead, kills
  nobody, and changes no registration. Other modules are taken to leave a session's character id alone.\<close>

theorem restore_all_revives:
  assumes wf: "arena_wf w" and env: "\<And>call s. sd_char_id (env_engine E call s) = sd_char_id s"
  shows "(let w' = arena7x7_restore_all_tombstones E m w in aw_player_match w' = aw_player_match w \<and>
    (\<forall>c. arena7x7_is_player_dead c w' \<longrightarrow> arena7x7_is_player_dead c w) \<and>
    (\<forall>c. um_find (aw_player_match w) c = Some m \<and> online w c \<longrightarrow> \<not> arena7x7_is_player_dead c w'))"
proof (cases "um_find (aw_matches w) m")
  case None
  then have "arena7x7_restore_all_tombstones E m w = w"
    by (simp add: arena7x7_restore_all_tombstones_def arena7x7_get_match_def)
  moreover have "um_find (aw_player_match w) c \<noteq> Some m" for c
    using wf None unfolding arena_wf_def by fastforce
  ultimately show ?thesis by simp
next
  case (Some M)
  let ?cs = "map fst (um_iter (env_order E It_restore) (mt_players M))"
  have eq: "arena7x7_restore_all_tombstones E m w = fold (restore_one E m) ?cs w"
    using Some by (simp add: arena7x7_restore_all_tombstones_def arena7x7_get_match_def)
  have "c \<in> set ?cs" if reg: "um_find (aw_player_match w) c = Some m" for c
  proof -
    obtain M' s where "plays w c m M' s" by (rule plays_obtain [OF wf reg])
    with Some have "(c, s) \<in> set (mt_players M)"
      by (simp add: plays_def um_find_def map_of_SomeD)
    then show ?thesis by (force simp: um_iter_def)
  qed
  with restore_fold [OF env, of m ?cs w] show ?thesis unfolding eq Let_def by blast
qed

theorem restore_all_revives_witness:
  "\<not> arena7x7_is_player_dead 8 (arena7x7_restore_all_tombstones sample_env 1 killed_world)"
proof -
  have env: "sd_char_id (env_engine sample_env call s) = sd_char_id s" for call s by (simp add: sample_env_def)
  have "um_find (aw_player_match killed_world) 8 = Some 1 \<and> online killed_world 8" by code_simp
  with restore_all_revives [OF reachable_wf [OF killed_reachable] env, of 1] show ?thesis unfolding Let_def by blast
qed

text \<open>A registered player who is warped is removed from the arena: nobody else's registration changes, the
  player is a deserter, with two more deaths, exactly when the match is active, and it does not stay dead: it
  remains among the players of the match as a living one, which the count of the living counts.\<close>

theorem warp_leaves:
  assumes wf: "arena_wf w" and pm: "um_find (aw_player_match w) (sd_char_id sd) = Some m"
  shows "(let c = sd_char_id sd; w' = pc_setpos_arena E sd w in
    \<not> arena7x7_is_in_match c w' \<and>
    (\<forall>k. um_find (aw_player_match w') k = (if k = c then None else um_find (aw_player_match w) k)) \<and>
    (\<exists>M s M' s'. plays w c m M s \<and> um_find (aw_matches w') m = Some M' \<and> um_find (mt_players M') c = Some s' \<and>
      mt_status M' = mt_status M \<and> \<not> ps_is_dead s' \<and> ps_is_deserter s' = (mt_status M = ARENA7X7_MATCH_ACTIVE) \<and>
      ps_deaths s' = (if mt_status M = ARENA7X7_MATCH_ACTIVE then ps_deaths s + 2 else ps_deaths s)))"
proof -
  let ?c = "sd_char_id sd"
  obtain M s where p: "plays w ?c m M s" by (rule plays_obtain [OF wf pm])
  define w1 where "w1 = (if arena7x7_is_player_dead ?c w then arena7x7_restore_from_tombstone E (Some sd) w else w)"
  obtain M1 s1 where p1: "plays w1 ?c m M1 s1" and s1: "\<not> ps_is_dead s1" "ps_deaths s1 = ps_deaths s"
    and M1: "mt_status M1 = mt_status M"
  proof (cases "ps_is_dead s")
    case True
    have "plays (mark_alive ?c w) ?c m (upd_stats ?c (\<lambda>s. s\<lparr>ps_is_dead := False\<rparr>) M) (s\<lparr>ps_is_dead := False\<rparr>)"
      using plays_upd_stats [OF p] by (simp add: mark_alive_def plays_get [OF p])
    then have "plays w1 ?c m (upd_stats ?c (\<lambda>s. s\<lparr>ps_is_dead := False\<rparr>) M) (s\<lparr>ps_is_dead := False\<rparr>)"
      using True by (simp add: w1_def plays_get(3) [OF p] plays_quiet(1) [OF restore_quiet])
    then show ?thesis by (rule that) (simp_all add: frame_simps)
  next
    case False
    with p show ?thesis by (intro that [of M s]) (simp_all add: w1_def plays_get(3) [OF p])
  qed
  have reg: "aw_player_match w1 = aw_player_match w" by (simp add: w1_def restore_registered)
  have "arena7x7_is_in_match ?c w"
    using plays_get(1) [OF p] by (cases "mt_status M") (simp_all add: arena7x7_is_in_match_def)
  then have w': "pc_setpos_arena E sd w =
      snd (arena7x7_remove_player E (Some sd) (mt_status M = ARENA7X7_MATCH_ACTIVE) w1)"
    unfolding pc_setpos_arena_def Let_def w1_def [symmetric] plays_get(1) [OF p1] by (simp add: M1)
  have p1': "um_find (aw_player_match w1) ?c = Some m" "um_find (aw_matches w1) m = Some M1"
    "um_find (mt_players M1) ?c = Some s1" using p1 by (simp_all add: plays_def)
  let ?w' = "pc_setpos_arena E sd w"
  have gone: "um_find (aw_player_match ?w') k = (if k = ?c then None else um_find (aw_player_match w) k)" for k
    by (simp add: w' remove_player_eq [OF p1'] Let_def frame_simps umap_simps reg)
  have left: "\<exists>M' s'. um_find (aw_matches ?w') m = Some M' \<and> um_find (mt_players M') ?c = Some s' \<and>
      mt_status M' = mt_status M \<and> \<not> ps_is_dead s' \<and> ps_is_deserter s' = (mt_status M = ARENA7X7_MATCH_ACTIVE) \<and>
      ps_deaths s' = (if mt_status M = ARENA7X7_MATCH_ACTIVE then ps_deaths s + 2 else ps_deaths s)"
    using p1' s1 M1
    by (simp add: w' remove_player_eq [OF p1'] Let_def frame_simps umap_simps desertion_deaths)
      (simp add: count_desertion_def desertion_stats_def)
  have "\<not> arena7x7_is_in_match ?c ?w'"
    using gone [of ?c] by (simp add: arena7x7_is_in_match_def arena7x7_get_player_match_def)
  with gone left p show ?thesis unfolding Let_def by blast
qed

theorem warp_leaves_witness:
  "\<not> arena7x7_is_in_match 8 (pc_setpos_arena sample_env (sample_sd 8) killed_world)"
  using warp_leaves [OF reachable_wf [OF killed_reachable] killed_registered, of sample_env]
  by (simp add: Let_def sample_sd_id)

end
