(* ===== verification/ArenaItems.thy ===== *)
theory ArenaItems
  imports ArenaDeath
begin

text \<open>
  What consuming an item during a match records: the loop that logs every unit, and the counters.
\<close>

section \<open>The loop over the units\<close>

definition unit_entry :: "arena_env \<Rightarrow> uint32 \<Rightarrow> uint32 \<Rightarrow> string option \<Rightarrow> e_arena7x7_item_type \<Rightarrow> nat \<Rightarrow> s_arena7x7_item_entry" where
  "unit_entry E c item name type i = \<lparr>ie_char_id = c, ie_target_id = 0, ie_item_id = item,
     ie_item_name = (case name of Some n \<Rightarrow> n | None \<Rightarrow> ''''), ie_type = type, ie_value = 1,
     ie_timestamp = env_tick E (Tk_item i)\<rparr>"

lemma item_user_counts:
  "ps_hp_potions (item_user_stats t i s) = (if t = ARENA7X7_ITEM_HP then ps_hp_potions s + 1 else ps_hp_potions s)"
  "ps_sp_potions (item_user_stats t i s) = (if t = ARENA7X7_ITEM_SP then ps_sp_potions s + 1 else ps_sp_potions s)"
  "ps_total_items_used (item_user_stats t i s) = ps_total_items_used s"
  by (cases t; simp add: item_user_stats_def Let_def)+

text \<open>What the match and the user look like after \<open>n\<close> units.\<close>

definition units_recorded ::
    "arena_env \<Rightarrow> uint32 \<Rightarrow> uint32 \<Rightarrow> string option \<Rightarrow> e_arena7x7_item_type \<Rightarrow> nat \<Rightarrow> s_arena7x7_match \<Rightarrow>
     s_arena7x7_player_stats \<Rightarrow> s_arena7x7_match \<Rightarrow> s_arena7x7_player_stats \<Rightarrow> bool" where
  "units_recorded E c item name type n M s M' s' \<longleftrightarrow>
     mt_status M' = mt_status M \<and> mt_item_usage_log M' = mt_item_usage_log M \<and>
     mt_item_log M' = mt_item_log M @ map (unit_entry E c item name type) [0..<n] \<and>
     ps_hp_potions s' = ps_hp_potions s + (if type = ARENA7X7_ITEM_HP then of_nat n else 0) \<and>
     ps_sp_potions s' = ps_sp_potions s + (if type = ARENA7X7_ITEM_SP then of_nat n else 0) \<and>
     ps_total_items_used s' = ps_total_items_used s"

lemma units_loop:
  assumes p: "plays w c m M s" and active: "mt_status M = ARENA7X7_MATCH_ACTIVE"
  shows "\<exists>M' s'. plays (fold (\<lambda>i. upd_match m (arena7x7_record_item_use (env_tick E (Tk_item i)) c 0 item name type 1))
      [0..<n] w) c m M' s' \<and> units_recorded E c item name type n M s M' s'"
proof (induction n)
  case 0
  then show ?case using p by (auto simp: units_recorded_def)
next
  case (Suc n)
  let ?use = "\<lambda>i. arena7x7_record_item_use (env_tick E (Tk_item i)) c 0 item name type 1"
  let ?w = "fold (\<lambda>i. upd_match m (?use i)) [0..<n] w"
  from Suc.IH obtain M1 s1 where p1: "plays ?w c m M1 s1" and r1: "units_recorded E c item name type n M s M1 s1"
    by blast
  have use: "?use n M1 = upd_stats c (item_user_stats type item)
      (M1\<lparr>mt_item_log := mt_item_log M1 @ [unit_entry E c item name type n]\<rparr>)"
    using r1 active by (simp add: arena7x7_record_item_use_def units_recorded_def unit_entry_def)
  have "plays (upd_match m (?use n) ?w) c m (?use n M1) (item_user_stats type item s1)"
    using p1 by (simp add: plays_def umap_simps frame_simps use)
  moreover have "units_recorded E c item name type (Suc n) M s (?use n M1) (item_user_stats type item s1)"
    using r1 by (simp add: units_recorded_def use frame_simps item_user_counts)
  ultimately show ?case by auto
qed

section \<open>Consuming an item\<close>

text \<open>When a player of an active match loses items, an item that is in none of the three lists is
  ignored. Otherwise one entry with the whole amount is appended to the usage log and as many entries
  of one unit to the item log, the potion counter of the item's type grows by the amount, and the
  number of items used grows by the amount exactly for tracked items that are no skill requirement.\<close>

theorem consume_item_spec:
  assumes p: "plays w (sd_char_id sd) m M s" and active: "mt_status M = ARENA7X7_MATCH_ACTIVE" and amount: "amount > 0"
  shows "(let c = sd_char_id sd; w' = arena7x7_track_item_consume E (Some sd) item name amount w;
      t = consume_item_type item; req = item \<in> set skill_requirement_items; tracked = item \<in> set tracked_items in
    if \<not> req \<and> \<not> item \<in> set arrow_items \<and> \<not> tracked then w' = w
    else \<exists>M' s' e es. plays w' c m M' s' \<and>
      mt_item_usage_log M' = mt_item_usage_log M @ [e] \<and> il_char_id e = c \<and> il_item_id e = item \<and>
      il_amount e = word_of_int amount \<and> il_item_type e = item_type_name t \<and>
      mt_item_log M' = mt_item_log M @ es \<and> int (length es) = amount \<and>
      list_all (\<lambda>i. ie_char_id i = c \<and> ie_item_id i = item \<and> ie_type i = t \<and> ie_value i = 1) es \<and>
      ps_hp_potions s' = ps_hp_potions s + (if t = ARENA7X7_ITEM_HP then word_of_int amount else 0) \<and>
      ps_sp_potions s' = ps_sp_potions s + (if t = ARENA7X7_ITEM_SP then word_of_int amount else 0) \<and>
      ps_total_items_used s' = ps_total_items_used s + (if tracked \<and> \<not> req then word_of_int amount else 0))"
proof -
  let ?c = "sd_char_id sd" and ?t = "consume_item_type item"
  let ?req = "item \<in> set skill_requirement_items" and ?tracked = "item \<in> set tracked_items"
  let ?w' = "arena7x7_track_item_consume E (Some sd) item name amount w"
  show ?thesis
  proof (cases "\<not> ?req \<and> \<not> item \<in> set arrow_items \<and> \<not> ?tracked")
    case True
    then have "?w' = w"
      by (auto simp: arena7x7_track_item_consume_def Let_def split: option.split prod.split)
    with True show ?thesis by (simp add: Let_def)
  next
    case False
    define e where "e = item_log_entry (env_tick E Tk_log) sd item (case name of Some n \<Rightarrow> n | None \<Rightarrow> '''')
      (word_of_int amount) (item_type_name ?t) 0"
    define w1 where "w1 = upd_match m (log_item e) w"
    have p1: "plays w1 ?c m (log_item e M) s" using p by (simp add: w1_def plays_def umap_simps frame_simps log_item_def)
    have st: "mt_status (log_item e M) = ARENA7X7_MATCH_ACTIVE" using active by (simp add: log_item_def)
    let ?w2 = "fold (\<lambda>i. upd_match m (arena7x7_record_item_use (env_tick E (Tk_item i)) ?c 0 item name ?t 1))
      [0..<nat amount] w1"
    from units_loop [OF p1 st, of E item name ?t "nat amount"] obtain M2 s2 where
      p2: "plays ?w2 ?c m M2 s2" and r2: "units_recorded E ?c item name ?t (nat amount) (log_item e M) s M2 s2" by blast
    have w': "?w' = (if ?tracked \<and> \<not> ?req
        then upd_match m (upd_stats ?c (\<lambda>s. s\<lparr>ps_total_items_used := ps_total_items_used s + word_of_int amount\<rparr>)) ?w2
        else ?w2)"
      unfolding arena7x7_track_item_consume_def option.case plays_get(1) [OF p] prod.case Let_def w1_def e_def
      using False amount active by (auto cong: if_cong)
    obtain M' s' where p': "plays ?w' ?c m M' s'" and
      M': "mt_item_usage_log M' = mt_item_usage_log M2" "mt_item_log M' = mt_item_log M2" and
      s': "ps_hp_potions s' = ps_hp_potions s2" "ps_sp_potions s' = ps_sp_potions s2"
        "ps_total_items_used s' = ps_total_items_used s2 + (if ?tracked \<and> \<not> ?req then word_of_int amount else 0)"
    proof (cases "?tracked \<and> \<not> ?req")
      case True
      then show ?thesis
        using plays_upd_stats [OF p2, of "\<lambda>s. s\<lparr>ps_total_items_used := ps_total_items_used s + word_of_int amount\<rparr>"]
        by (intro that [of "upd_stats ?c (\<lambda>s. s\<lparr>ps_total_items_used := ps_total_items_used s + word_of_int amount\<rparr>) M2"
              "s2\<lparr>ps_total_items_used := ps_total_items_used s2 + word_of_int amount\<rparr>"]) (simp_all add: w' frame_simps)
    next
      case False
      with p2 show ?thesis by (intro that [of M2 s2]) (auto simp: w')
    qed
    let ?es = "map (unit_entry E ?c item name ?t) [0..<nat amount]"
    have n: "of_nat (nat amount) = (word_of_int amount :: 'a::len word)" using amount by simp
    have "mt_item_usage_log M' = mt_item_usage_log M @ [e]" "mt_item_log M' = mt_item_log M @ ?es"
      "ps_hp_potions s' = ps_hp_potions s + (if ?t = ARENA7X7_ITEM_HP then word_of_int amount else 0)"
      "ps_sp_potions s' = ps_sp_potions s + (if ?t = ARENA7X7_ITEM_SP then word_of_int amount else 0)"
      "ps_total_items_used s' = ps_total_items_used s + (if ?tracked \<and> \<not> ?req then word_of_int amount else 0)"
      using r2 by (simp_all add: M' s' units_recorded_def log_item_def n)
    moreover have "il_char_id e = ?c" "il_item_id e = item" "il_amount e = word_of_int amount"
      "il_item_type e = item_type_name ?t" by (simp_all add: e_def item_log_entry_def)
    moreover have "int (length ?es) = amount" using amount by simp
    moreover have "list_all (\<lambda>i. ie_char_id i = ?c \<and> ie_item_id i = item \<and> ie_type i = ?t \<and> ie_value i = 1) ?es"
      by (simp add: list_all_iff unit_entry_def)
    ultimately show ?thesis unfolding Let_def if_not_P [OF False] using p' by blast
  qed
qed

theorem consume_item_spec_witness:
  "\<exists>M' s'. plays (arena7x7_track_item_consume sample_env (Some (sample_sd 7)) 501 None 3 fought_world) 7 1 M' s' \<and>
     length (mt_item_log M') = length (mt_item_log fought_match) + 3"
proof -
  obtain s where s: "um_find (mt_players fought_match) 7 = Some s" using fought_players(4) by blast
  have "um_find (aw_matches fought_world) 1 \<noteq> None" by code_simp
  then have "um_find (aw_matches fought_world) 1 = Some fought_match" by (auto simp: fought_match_def)
  with s fought_registered have p: "plays fought_world (sd_char_id (sample_sd 7)) 1 fought_match s"
    by (simp add: plays_def sample_sd_id)
  have "(501::uint32) \<in> set tracked_items" by code_simp
  with consume_item_spec [OF p fought_players(3), of 3 sample_env 501 None] show ?thesis
    by (auto simp: Let_def sample_sd_id)
qed

end
