(* ===== verification/Inventory.thy ===== *)
theory Inventory
  imports Prelude
begin

text \<open>
  A player's inventory and purse (\<open>src/src/map/pc.cpp\<close>): adding and removing items, checking
  for room, paying and receiving zeny, and the bank. The item database is an argument of the
  definitions, because it is loaded from files; packets to the client and log lines are left out.
\<close>

section \<open>Items\<close>

datatype item_types =
    IT_HEALING | IT_UNKNOWN | IT_USABLE | IT_ETC | IT_ARMOR | IT_WEAPON | IT_CARD | IT_PETEGG
  | IT_PETARMOR | IT_UNKNOWN2 | IT_AMMO | IT_DELAYCONSUME | IT_SHADOWGEAR | IT_CASH

text \<open>An entry of the item database, as far as the inventory and the trade read it.\<close>

record item_data =
  id_type :: item_types
  id_weight :: uint32
  id_slots :: nat
  id_equip :: uint32
  id_stack_amount :: uint16
  id_stack_inventory :: bool
  id_guid :: bool
  id_autoequip :: bool
  id_no_trade :: bool
  id_trade_partner :: bool
  id_stack_cart :: bool
  id_stack_storage :: bool
  id_stack_guild_storage :: bool
  id_no_cart :: bool
  id_no_storage :: bool
  id_no_guild_storage :: bool
  id_gm_lv_trade_override :: int

text \<open>\<open>item_data::isStackable\<close>\<close>

fun isStackable :: "item_types \<Rightarrow> bool" where
  "isStackable IT_WEAPON = False"
| "isStackable IT_ARMOR = False"
| "isStackable IT_PETEGG = False"
| "isStackable IT_PETARMOR = False"
| "isStackable IT_SHADOWGEAR = False"
| "isStackable _ = True"

definition itemdb_isstackable2 :: "item_data \<Rightarrow> bool" where
  "itemdb_isstackable2 d = isStackable (id_type d)"

text \<open>
  \<open>struct item\<close>. The amount is a signed 16-bit number: stores into it go through
  \<open>to_int16\<close>. A slot of the inventory is empty when its \<open>nameid\<close> is 0.
\<close>

record item =
  it_id :: int
  it_nameid :: uint32
  it_amount :: int
  it_equip :: uint32
  it_identify :: int
  it_refine :: int
  it_attribute :: int
  it_card :: "uint32 list"
  it_option :: "(int \<times> int \<times> int) list"
  it_expire_time :: uint32
  it_favorite :: bool
  it_bound :: nat
  it_unique_id :: uint64
  it_equipSwitch :: uint32
  it_enchantgrade :: nat

text \<open>What \<open>memset(item, 0, sizeof(struct item))\<close> leaves.\<close>

definition zero_item :: item where
  "zero_item = \<lparr>it_id = 0, it_nameid = 0, it_amount = 0, it_equip = 0, it_identify = 0, it_refine = 0,
     it_attribute = 0, it_card = replicate 4 0, it_option = replicate 5 (0, 0, 0), it_expire_time = 0,
     it_favorite = False, it_bound = 0, it_unique_id = 0, it_equipSwitch = 0, it_enchantgrade = 0\<rparr>"

definition MAX_INVENTORY :: nat where "MAX_INVENTORY = 200"
definition MAX_AMOUNT :: int where "MAX_AMOUNT = 30000"
definition MAX_ZENY :: int where "MAX_ZENY = 2147483647"
definition MAX_BANK_ZENY :: int where "MAX_BANK_ZENY = 2147483647"
definition EQP_AMMO :: uint32 where "EQP_AMMO = 0x8000"

section \<open>The player\<close>

datatype pc_permission = PC_PERM_TRADE | PC_PERM_TRADE_UNCONDITIONAL | PC_PERM_TRADE_BOUNDED

text \<open>
  The fields of \<open>map_session_data\<close> the inventory, the bank and the trade use; the trade's own
  fields are \<open>state.trading\<close>, \<open>state.deal_locked\<close>, \<open>state.isBoundTrading\<close>,
  \<open>trade_partner\<close> and \<open>deal\<close>.
\<close>

record player =
  pl_id :: uint32
  pl_account_id :: uint32
  pl_char_id :: uint32
  pl_base_level :: uint32
  pl_guild_id :: int
  pl_zeny :: int
  pl_bank_vault :: int
  pl_inventory :: "item list"
  pl_inventory_data :: "item_data option list"
  pl_weight :: uint32
  pl_max_weight :: uint32
  pl_inventory_slots :: nat
  pl_uniqueitem_counter :: uint32
  pl_permissions :: "pc_permission list"
  pl_m :: int
  pl_npc_id :: int
  pl_vending :: bool
  pl_buyingstore :: bool
  pl_storage_flag :: nat
  pl_guild_invite :: int
  pl_party_invite :: int
  pl_adopt_invite :: int
  pl_banking :: bool
  pl_trading :: bool
  pl_deal_locked :: nat
  pl_isBoundTrading :: uint8
  pl_partner_id :: uint32
  pl_partner_lv :: uint32
  pl_deal_item :: "(int \<times> int) list"
  pl_deal_zeny :: int
  pl_deal_weight :: int
  pl_deal_space :: uint8
  pl_zeny_hacker :: bool
  pl_eof :: bool

text \<open>
  The environment: the item database and the dummy entry for items it does not have, the clock, and the equipment code that a new item with the
  auto-equip flag and a removed equipped item call.
\<close>

record item_env =
  ev_item :: "uint32 \<Rightarrow> item_data option"
  ev_dummy :: item_data
  ev_time :: uint32
  ev_equip :: "nat \<Rightarrow> uint32 \<Rightarrow> player \<Rightarrow> player"
  ev_unequip :: "nat \<Rightarrow> player \<Rightarrow> player"

definition itemdb_search :: "('a item_env_scheme) \<Rightarrow> uint32 \<Rightarrow> item_data" where
  "itemdb_search E i = (case ev_item E i of None \<Rightarrow> ev_dummy E | Some d \<Rightarrow> d)"

abbreviation slot :: "player \<Rightarrow> nat \<Rightarrow> item" where
  "slot sd i \<equiv> pl_inventory sd ! i"

definition set_slot :: "nat \<Rightarrow> (item \<Rightarrow> item) \<Rightarrow> player \<Rightarrow> player" where
  "set_slot i f sd = sd\<lparr>pl_inventory := (pl_inventory sd)[i := f (pl_inventory sd ! i)]\<rparr>"

section \<open>Removing and adding items\<close>

datatype e_additem_result =
    ADDITEM_SUCCESS | ADDITEM_INVALID | ADDITEM_OVERWEIGHT | ADDITEM_ITEM | ADDITEM_OVERITEM
  | ADDITEM_OVERAMOUNT | ADDITEM_REFUSED_TIME | ADDITEM_STACKLIMIT

datatype e_chkitem_result = CHKADDITEM_EXIST | CHKADDITEM_NEW | CHKADDITEM_OVERAMOUNT

text \<open>\<open>pc_delitem\<close> for an index of the inventory: the result is 0 for success, 1 otherwise.\<close>

definition pc_delitem :: "('a item_env_scheme) \<Rightarrow> int \<Rightarrow> int \<Rightarrow> player \<Rightarrow> nat \<times> player" where
  "pc_delitem E n amount sd =
     (if n < 0 \<or> it_nameid (slot sd (nat n)) = 0 \<or> amount \<le> 0 \<or> it_amount (slot sd (nat n)) < amount \<or>
         pl_inventory_data sd ! nat n = None then (1, sd)
      else let i = nat n;
               sd1 = set_slot i (\<lambda>it. it\<lparr>it_amount := to_int16 (it_amount it - amount)\<rparr>) sd;
               sd2 = sd1\<lparr>pl_weight := pl_weight sd1 -
                       id_weight (the (pl_inventory_data sd1 ! i)) * word_of_int amount\<rparr>
           in if it_amount (slot sd2 i) \<le> 0 then
                let sd3 = (if it_equip (slot sd2 i) \<noteq> 0 then ev_unequip E i sd2 else sd2);
                    sd4 = set_slot i (\<lambda>_. zero_item) sd3
                in (0, sd4\<lparr>pl_inventory_data := (pl_inventory_data sd4)[i := None]\<rparr>)
              else (0, sd2))"

text \<open>\<open>pc_search_inventory\<close>: the first slot with the item, for 0 the first empty slot.\<close>

definition pc_search_inventory :: "uint32 \<Rightarrow> player \<Rightarrow> nat option" where
  "pc_search_inventory nameid sd =
     (let i = arr_find (\<lambda>it. it_nameid it = nameid \<and> (it_amount it > 0 \<or> nameid = 0)) (pl_inventory sd)
      in if i < MAX_INVENTORY then Some i else None)"

definition pc_generate_unique_id :: "player \<Rightarrow> uint64 \<times> player" where
  "pc_generate_unique_id sd =
     (or (push_bit 32 (ucast (pl_char_id sd))) (ucast (pl_uniqueitem_counter sd)),
      sd\<lparr>pl_uniqueitem_counter := pl_uniqueitem_counter sd + 1\<rparr>)"

text \<open>The stack a new item joins, if it is stackable and not rented.\<close>

definition same_stack :: "item \<Rightarrow> item \<Rightarrow> bool" where
  "same_stack new it \<longleftrightarrow> it_nameid it = it_nameid new \<and> it_bound it = it_bound new \<and> it_expire_time it = 0 \<and>
     it_unique_id it = it_unique_id new \<and> it_card it = it_card new"

text \<open>The end of \<open>pc_additem\<close>: weight, automatic equipment, rented items that have run out.\<close>

definition additem_finish :: "('a item_env_scheme) \<Rightarrow> item_data \<Rightarrow> item \<Rightarrow> nat \<Rightarrow> uint32 \<Rightarrow> player \<Rightarrow> player" where
  "additem_finish E d item i w sd =
     (let sd1 = sd\<lparr>pl_weight := pl_weight sd + w\<rparr>;
          sd2 = (if id_autoequip d then ev_equip E i (id_equip d) sd1 else sd1)
      in if it_expire_time item \<noteq> 0 \<and> ev_time E > it_expire_time item
         then snd (pc_delitem E (int i) (it_amount (slot sd2 i)) sd2) else sd2)"

text \<open>The part of \<open>pc_additem\<close> that finds a place: a stack to join, or the first empty slot.\<close>

definition additem_place ::
    "('a item_env_scheme) \<Rightarrow> item_data \<Rightarrow> item \<Rightarrow> int \<Rightarrow> bool \<Rightarrow> uint32 \<Rightarrow> player \<Rightarrow> e_additem_result \<times> player" where
  "additem_place E d item amount favorite w sd =
     (let i = (if itemdb_isstackable2 d \<and> it_expire_time item = 0
               then arr_find (same_stack item) (pl_inventory sd) else MAX_INVENTORY)
      in if i < MAX_INVENTORY then
           (if amount > MAX_AMOUNT - it_amount (slot sd i) \<or>
               id_stack_inventory d \<and> amount > uint (id_stack_amount d) - it_amount (slot sd i)
            then (ADDITEM_OVERAMOUNT, sd)
            else if i \<ge> pl_inventory_slots sd then (ADDITEM_OVERAMOUNT, sd)
            else (ADDITEM_SUCCESS, additem_finish E d item i w
                   (set_slot i (\<lambda>it. it\<lparr>it_amount := to_int16 (it_amount it + amount)\<rparr>) sd)))
         else (case pc_search_inventory 0 sd of
             None \<Rightarrow> (ADDITEM_OVERITEM, sd)
           | Some i \<Rightarrow>
               if i \<ge> pl_inventory_slots sd then (ADDITEM_OVERITEM, sd)
               else let new = item\<lparr>it_equip := 0, it_equipSwitch := 0, it_amount := to_int16 amount,
                            it_favorite := favorite\<rparr>;
                        sd1 = (set_slot i (\<lambda>_. new) sd)\<lparr>pl_inventory_data :=
                            (pl_inventory_data sd)[i := Some d]\<rparr>;
                        sd2 = (if \<not> itemdb_isstackable2 d \<or> id_guid d then
                            (if it_unique_id item \<noteq> 0
                             then set_slot i (\<lambda>it. it\<lparr>it_unique_id := it_unique_id item\<rparr>) sd1
                             else let (u, sd') = pc_generate_unique_id sd1
                                  in set_slot i (\<lambda>it. it\<lparr>it_unique_id := u\<rparr>) sd')
                          else sd1)
                    in (ADDITEM_SUCCESS, additem_finish E d item i w sd2)))"

text \<open>
  \<open>pc_additem\<close>: the result, the player, and the item passed in, whose \<open>unique_id\<close> is
  filled in when the database asks for one.
\<close>

definition pc_additem ::
    "('a item_env_scheme) \<Rightarrow> item \<Rightarrow> int \<Rightarrow> bool \<Rightarrow> player \<Rightarrow> e_additem_result \<times> player \<times> item" where
  "pc_additem E item amount favorite sd =
     (if it_nameid item = 0 \<or> amount \<le> 0 then (ADDITEM_INVALID, sd, item) else
      if amount > MAX_AMOUNT then (ADDITEM_OVERAMOUNT, sd, item) else
      let d = itemdb_search E (it_nameid item) in
      if id_stack_inventory d \<and> amount > uint (id_stack_amount d) then (ADDITEM_STACKLIMIT, sd, item) else
      let w = id_weight d * word_of_int amount in
      if pl_weight sd + w > pl_max_weight sd then (ADDITEM_OVERWEIGHT, sd, item) else
      let (uid, sdg) = pc_generate_unique_id sd;
          fill = (id_guid d \<and> it_unique_id item = 0);
          item' = (if fill then item\<lparr>it_unique_id := uid\<rparr> else item);
          (r, sd') = additem_place E d item' amount favorite w (if fill then sdg else sd)
      in (r, sd', item'))"

text \<open>\<open>pc_checkadditem\<close> and \<open>pc_inventoryblank\<close>\<close>

definition pc_checkadditem :: "('a item_env_scheme) \<Rightarrow> uint32 \<Rightarrow> int \<Rightarrow> player \<Rightarrow> e_chkitem_result" where
  "pc_checkadditem E nameid amount sd =
     (if amount > MAX_AMOUNT then CHKADDITEM_OVERAMOUNT else
      let d = itemdb_search E nameid in
      if \<not> itemdb_isstackable2 d then CHKADDITEM_NEW else
      if id_stack_inventory d \<and> amount > uint (id_stack_amount d) then CHKADDITEM_OVERAMOUNT else
      if id_guid d then CHKADDITEM_NEW else
      let i = arr_find (\<lambda>it. it_nameid it = nameid) (pl_inventory sd) in
      if i < MAX_INVENTORY then
        (if amount > MAX_AMOUNT - it_amount (slot sd i) \<or>
            id_stack_inventory d \<and> amount > uint (id_stack_amount d) - it_amount (slot sd i)
         then CHKADDITEM_OVERAMOUNT
         else if i \<ge> pl_inventory_slots sd then CHKADDITEM_OVERAMOUNT
         else CHKADDITEM_EXIST)
      else CHKADDITEM_NEW)"

definition pc_inventoryblank :: "player \<Rightarrow> nat" where
  "pc_inventoryblank sd =
     length (filter (\<lambda>it. it_nameid it = 0) (take (pl_inventory_slots sd) (pl_inventory sd))) mod 256"

section \<open>Zeny\<close>

text \<open>Results: \<open>pc_payzeny\<close> 0 success, 1 failure; \<open>pc_getzeny\<close> 0 success, 1 failure.\<close>

definition pc_payzeny :: "int \<Rightarrow> player \<Rightarrow> nat \<times> player" where
  "pc_payzeny zeny sd =
     (let zeny = cap_value zeny (- MAX_ZENY) MAX_ZENY in
      if zeny < 0 then (1, sd) else
      if pl_zeny sd < zeny then (1, sd)
      else (0, sd\<lparr>pl_zeny := pl_zeny sd - zeny\<rparr>))"

definition pc_getzeny :: "int \<Rightarrow> player \<Rightarrow> nat \<times> player" where
  "pc_getzeny zeny sd =
     (let zeny = cap_value zeny (- MAX_ZENY) MAX_ZENY in
      if zeny < 0 then (1, sd) else
      let zeny = (if zeny > MAX_ZENY - pl_zeny sd then MAX_ZENY - pl_zeny sd else zeny)
      in (0, sd\<lparr>pl_zeny := pl_zeny sd + zeny\<rparr>))"

section \<open>The bank\<close>

datatype e_BANKING_DEPOSIT_ACK = BDA_SUCCESS | BDA_ERROR | BDA_NO_MONEY | BDA_OVERFLOW
datatype e_BANKING_WITHDRAW_ACK = BWA_SUCCESS | BWA_NO_MONEY | BWA_UNKNOWN_ERROR

text \<open>The limit is computed in unsigned 32-bit arithmetic; \<open>enforce\<close> is a battle configuration.\<close>

definition pc_bank_deposit :: "bool \<Rightarrow> int \<Rightarrow> player \<Rightarrow> e_BANKING_DEPOSIT_ACK \<times> player" where
  "pc_bank_deposit enforce money sd =
     (if enforce \<and> \<not> pl_banking sd then (BDA_ERROR, sd) else
      let limit_check = (word_of_int (money + pl_bank_vault sd) :: uint32) in
      if money \<le> 0 \<or> uint limit_check > MAX_BANK_ZENY then (BDA_OVERFLOW, sd) else
      if money > pl_zeny sd then (BDA_NO_MONEY, sd) else
      let (r, sd1) = pc_payzeny money sd in
      if r \<noteq> 0 then (BDA_NO_MONEY, sd1)
      else (BDA_SUCCESS, sd1\<lparr>pl_bank_vault := pl_bank_vault sd1 + money\<rparr>))"

definition pc_bank_withdraw :: "bool \<Rightarrow> int \<Rightarrow> player \<Rightarrow> e_BANKING_WITHDRAW_ACK \<times> player" where
  "pc_bank_withdraw enforce money sd =
     (if enforce \<and> \<not> pl_banking sd then (BWA_UNKNOWN_ERROR, sd) else
      let limit_check = (word_of_int (money + pl_zeny sd) :: uint32) in
      if money \<le> 0 then (BWA_UNKNOWN_ERROR, sd) else
      if money > pl_bank_vault sd then (BWA_NO_MONEY, sd) else
      if uint limit_check > MAX_ZENY then (BWA_UNKNOWN_ERROR, sd) else
      let (r, sd1) = pc_getzeny money sd in
      if r \<noteq> 0 then (BWA_NO_MONEY, sd1)
      else (BWA_SUCCESS, sd1\<lparr>pl_bank_vault := pl_bank_vault sd1 - money\<rparr>))"

end
