(* ===== verification/Trade.thy ===== *)
theory Trade
  imports Inventory
begin

text \<open>
  Trading between two players (\<open>src/src/map/trade.cpp\<close>): asking, answering, offering items and
  zeny, confirming, cancelling and the exchange itself. A session pointer is the id \<open>map_id2sd\<close> finds
  the player under, so that two pointers to one player are one player. Packets and log lines are left out.
\<close>

section \<open>The state and the environment\<close>

type_synonym trade_world = "(uint32, player) umap"

text \<open>
  What the trade asks other modules: map flags, distances, the use of \<open>@trade\<close>, group levels,
  marriage partners, the battle configuration, and for the packet handlers whether a player is in a chat
  room, busy in one of the ways the player record does not show, refuses requests, writes a mail, or has
  the basic skill the configuration asks for.
\<close>

record trade_env = item_env +
  tv_notrade :: "int \<Rightarrow> bool"
  tv_near :: "uint32 \<Rightarrow> uint32 \<Rightarrow> bool"
  tv_can_use_trade :: "uint32 \<Rightarrow> bool"
  tv_group_level :: "uint32 \<Rightarrow> int"
  tv_partner :: "uint32 \<Rightarrow> uint32 option"
  tv_invite_request_check :: bool
  tv_trade_count_stackable :: bool
  tv_ban_hack_trade :: int
  tv_chat :: "uint32 \<Rightarrow> bool"
  tv_other_act :: "uint32 \<Rightarrow> bool"
  tv_noask :: "uint32 \<Rightarrow> bool"
  tv_mail_writing :: "uint32 \<Rightarrow> bool"
  tv_basic_skill :: "uint32 \<Rightarrow> bool"

abbreviation upd :: "uint32 \<Rightarrow> (player \<Rightarrow> player) \<Rightarrow> trade_world \<Rightarrow> trade_world" where
  "upd a f w \<equiv> um_modify a f w"

definition no_partner :: "player \<Rightarrow> player" where
  "no_partner sd = sd\<lparr>pl_partner_id := 0, pl_partner_lv := 0\<rparr>"

definition pc_can_give_items :: "player \<Rightarrow> bool" where
  "pc_can_give_items sd \<longleftrightarrow> PC_PERM_TRADE \<in> set (pl_permissions sd) \<or>
     PC_PERM_TRADE_UNCONDITIONAL \<in> set (pl_permissions sd)"

definition pc_can_give_bounded_items :: "player \<Rightarrow> bool" where
  "pc_can_give_bounded_items sd \<longleftrightarrow> PC_PERM_TRADE_BOUNDED \<in> set (pl_permissions sd) \<or>
     PC_PERM_TRADE_UNCONDITIONAL \<in> set (pl_permissions sd)"

definition TRADE_ITEMS :: nat where "TRADE_ITEMS = 10"

section \<open>Which items may be traded\<close>

definition CARD0_FORGE :: uint32 where "CARD0_FORGE = 0x00FF"
definition CARD0_CREATE :: uint32 where "CARD0_CREATE = 0x00FE"
definition CARD0_PET :: uint32 where "CARD0_PET = 0x0100"

definition itemdb_isspecial :: "uint32 \<Rightarrow> bool" where
  "itemdb_isspecial i \<longleftrightarrow> i = CARD0_FORGE \<or> i = CARD0_CREATE \<or> i = CARD0_PET"

definition itemdb_cantrade_sub :: "item_data \<Rightarrow> int \<Rightarrow> int \<Rightarrow> bool" where
  "itemdb_cantrade_sub d gmlv gmlv2 \<longleftrightarrow> \<not> id_no_trade d \<or> gmlv \<ge> id_gm_lv_trade_override d \<or>
     gmlv2 \<ge> id_gm_lv_trade_override d"

definition itemdb_canpartnertrade_sub :: "item_data \<Rightarrow> int \<Rightarrow> int \<Rightarrow> bool" where
  "itemdb_canpartnertrade_sub d gmlv gmlv2 \<longleftrightarrow> id_trade_partner d \<or> gmlv \<ge> id_gm_lv_trade_override d \<or>
     gmlv2 \<ge> id_gm_lv_trade_override d"

text \<open>The item and, unless it is a named or hatched one, the cards in its slots pass the test.\<close>

definition itemdb_isrestricted ::
    "('a item_env_scheme) \<Rightarrow> item \<Rightarrow> int \<Rightarrow> int \<Rightarrow> (item_data \<Rightarrow> int \<Rightarrow> int \<Rightarrow> bool) \<Rightarrow> bool" where
  "itemdb_isrestricted E it gmlv gmlv2 func =
     (let d = itemdb_search E (it_nameid it) in
      if \<not> func d gmlv gmlv2 then False else
      if id_slots d = 0 \<or> itemdb_isspecial (it_card it ! 0) then True else
      list_all (\<lambda>c. c = 0 \<or> func (itemdb_search E c) gmlv gmlv2) (take (id_slots d) (it_card it)))"

definition itemdb_ishatched_egg :: "item \<Rightarrow> bool" where
  "itemdb_ishatched_egg it \<longleftrightarrow> it_card it ! 0 = CARD0_PET \<and> it_attribute it = 1"

section \<open>Cancelling\<close>

definition no_offer :: "player \<Rightarrow> player" where
  "no_offer sd = sd\<lparr>pl_deal_item := map (\<lambda>(i, a). if a = 0 then (i, a) else (0, 0)) (pl_deal_item sd),
     pl_deal_zeny := 0, pl_deal_locked := 0, pl_trading := False, pl_partner_id := 0, pl_partner_lv := 0\<rparr>"

definition trade_tradecancel :: "uint32 \<Rightarrow> trade_world \<Rightarrow> trade_world" where
  "trade_tradecancel a w =
     (case um_find w a of None \<Rightarrow> w | Some sd \<Rightarrow>
      let b = pl_partner_id sd;
          w1 = upd a (\<lambda>sd. sd\<lparr>pl_isBoundTrading := 0\<rparr>) w
      in if \<not> pl_trading sd then upd a no_partner (upd b no_partner w1)
         else upd b no_offer (upd a no_offer w1))"

section \<open>Asking and answering\<close>

definition trade_traderequest :: "trade_env \<Rightarrow> uint32 \<Rightarrow> uint32 \<Rightarrow> trade_world \<Rightarrow> trade_world" where
  "trade_traderequest E a b w =
     (case um_find w a of None \<Rightarrow> w | Some sd \<Rightarrow>
      if tv_notrade E (pl_m sd) then w else
      case um_find w b of None \<Rightarrow> w | Some target \<Rightarrow>
      if a = b then w else
      if pl_npc_id target \<noteq> 0 then w else
      if \<not> tv_invite_request_check E \<and> (pl_guild_invite target > 0 \<or> pl_party_invite target > 0 \<or>
           pl_adopt_invite target \<noteq> 0) then w else
      let w1 = (if pl_partner_id sd \<noteq> 0 then upd a no_partner (upd (pl_partner_id sd) no_partner w) else w)
      in case um_find w1 b of None \<Rightarrow> w1 | Some target \<Rightarrow>
      if pl_partner_id target \<noteq> 0 then w1 else
      if \<not> pc_can_give_items sd \<or> \<not> pc_can_give_items target then w1 else
      if \<not> tv_can_use_trade E a \<and> (pl_m sd \<noteq> pl_m target \<or> \<not> tv_near E a b) then w1 else
      upd a (\<lambda>s. s\<lparr>pl_partner_id := pl_account_id target, pl_partner_lv := pl_base_level target\<rparr>)
        (upd b (\<lambda>s. s\<lparr>pl_partner_id := pl_account_id sd, pl_partner_lv := pl_base_level sd\<rparr>) w1))"

definition busy :: "player \<Rightarrow> bool" where
  "busy sd \<longleftrightarrow> pl_npc_id sd \<noteq> 0 \<or> pl_vending sd \<or> pl_buyingstore sd \<or> pl_storage_flag sd \<noteq> 0"

definition unlock :: "player \<Rightarrow> player" where
  "unlock sd = sd\<lparr>pl_deal_locked := 0, pl_partner_id := 0, pl_partner_lv := 0\<rparr>"

text \<open>The state in which a trade starts: \<open>memset(&sd->deal, 0, sizeof(sd->deal))\<close>.\<close>

definition start_trading :: "player \<Rightarrow> player" where
  "start_trading sd = sd\<lparr>pl_trading := True, pl_deal_item := replicate TRADE_ITEMS (0, 0), pl_deal_zeny := 0,
     pl_deal_weight := 0, pl_deal_space := 0\<rparr>"

definition trade_tradeack :: "trade_env \<Rightarrow> uint32 \<Rightarrow> int \<Rightarrow> trade_world \<Rightarrow> trade_world" where
  "trade_tradeack E a type w =
     (case um_find w a of None \<Rightarrow> w | Some sd \<Rightarrow>
      if pl_trading sd \<or> pl_partner_id sd = 0 then w else
      let b = pl_partner_id sd in
      case um_find w b of None \<Rightarrow> upd a no_partner w | Some tsd \<Rightarrow>
      if pl_trading tsd \<or> pl_partner_id tsd \<noteq> pl_id sd then upd a no_partner w else
      if type = 4 then upd b unlock (upd a unlock w) else
      if type \<noteq> 3 then w else
      if \<not> tv_can_use_trade E a \<and> (pl_m sd \<noteq> pl_m tsd \<or> \<not> tv_near E a b)
      then upd b no_partner (upd a no_partner w) else
      if busy sd \<or> busy tsd then upd b unlock (upd a unlock w) else
      upd b start_trading (upd a start_trading w))"

section \<open>Offering\<close>

definition BOUND_ACCOUNT :: nat where "BOUND_ACCOUNT = 1"
definition BOUND_GUILD :: nat where "BOUND_GUILD = 2"

text \<open>The checks of \<open>trade_tradeadditem\<close> on the item before a position is looked for.\<close>

definition may_offer :: "trade_env \<Rightarrow> player \<Rightarrow> player \<Rightarrow> item \<Rightarrow> bool" where
  "may_offer E sd target it \<longleftrightarrow>
     (let src = tv_group_level E (pl_id sd); dst = tv_group_level E (pl_id target) in
      (itemdb_isrestricted E it src dst itemdb_cantrade_sub \<or>
       tv_partner E (pl_id sd) = Some (pl_id target) \<and> itemdb_isrestricted E it src dst itemdb_canpartnertrade_sub) \<and>
      \<not> itemdb_ishatched_egg it \<and> it_expire_time it = 0 \<and>
      \<not> ((it_bound it = BOUND_ACCOUNT \<or> it_bound it > BOUND_GUILD \<or>
          it_bound it = BOUND_GUILD \<and> pl_guild_id sd \<noteq> pl_guild_id target) \<and> \<not> pc_can_give_bounded_items sd) \<and>
      it_equipSwitch it = 0)"

text \<open>
  The end of \<open>trade_tradeadditem\<close>: position \<open>t\<close> gets the item, and when it has this item already
  no more than the slot holds.
\<close>

definition place_offer :: "int \<Rightarrow> int \<Rightarrow> uint32 \<Rightarrow> nat \<Rightarrow> bool \<Rightarrow> player \<Rightarrow> player" where
  "place_offer index amount unit t count_stackable sd =
     (let it = slot sd (nat index);
          (i, m) = pl_deal_item sd ! t;
          exceeds = (i = index \<and> m + amount > it_amount it);
          amount' = (if exceeds then to_int16 (it_amount it - m) else amount);
          offer = (if i = index then (i, to_int16 (m + amount')) else (index, amount'))
      in sd\<lparr>pl_deal_item := (pl_deal_item sd)[t := offer],
            pl_deal_weight := pl_deal_weight sd + sint (unit * word_of_int amount'),
            pl_deal_space := (if count_stackable then pl_deal_space sd + 1 else pl_deal_space sd)\<rparr>)"

definition trade_tradeadditem :: "trade_env \<Rightarrow> uint32 \<Rightarrow> int \<Rightarrow> int \<Rightarrow> trade_world \<Rightarrow> trade_world" where
  "trade_tradeadditem E a index amount w =
     (case um_find w a of None \<Rightarrow> w | Some sd0 \<Rightarrow>
      if \<not> pl_trading sd0 \<or> pl_deal_locked sd0 > 0 then w else
      case um_find w (pl_partner_id sd0) of None \<Rightarrow> trade_tradecancel a w | Some target \<Rightarrow>
      if amount = 0 then w else
      if index < 0 \<or> index \<ge> int MAX_INVENTORY then w else
      let n = nat index; it = slot sd0 n in
      if amount < 0 \<or> amount > it_amount it then w else
      if \<not> may_offer E sd0 target it then w else
      let sd = (if it_bound it \<noteq> 0
                then sd0\<lparr>pl_isBoundTrading := or (pl_isBoundTrading sd0) (push_bit (it_bound it) 1)\<rparr> else sd0);
          wb = upd a (\<lambda>_. sd) w;
          t = arr_find (\<lambda>(i, m). i = index \<or> m = 0) (pl_deal_item sd)
      in if t = TRADE_ITEMS then wb else
      let add_item = pc_checkadditem E (it_nameid it) amount target in
      if add_item = CHKADDITEM_OVERAMOUNT then wb else
      let count_stackable = (tv_trade_count_stackable E \<or> add_item \<noteq> CHKADDITEM_EXIST) in
      if count_stackable \<and> int (pc_inventoryblank target) < uint (pl_deal_space sd) + 1 then wb else
      let unit = id_weight (the (pl_inventory_data sd ! n));
          trade_weight = sint (unit * word_of_int amount) in
      if pl_weight target + word_of_int (pl_deal_weight sd) + word_of_int trade_weight > pl_max_weight target then wb else
      upd a (\<lambda>_. place_offer index amount unit t count_stackable sd) w)"

definition trade_tradeaddzeny :: "uint32 \<Rightarrow> int \<Rightarrow> trade_world \<Rightarrow> trade_world" where
  "trade_tradeaddzeny a amount w =
     (case um_find w a of None \<Rightarrow> w | Some sd \<Rightarrow>
      if \<not> pl_trading sd \<or> pl_deal_locked sd > 0 then w else
      case um_find w (pl_partner_id sd) of None \<Rightarrow> trade_tradecancel a w | Some target \<Rightarrow>
      if amount < 0 \<or> amount > pl_zeny sd \<or> amount > MAX_ZENY - pl_zeny target then trade_tradecancel a w
      else upd a (\<lambda>sd. sd\<lparr>pl_deal_zeny := amount\<rparr>) w)"

definition trade_tradeok :: "uint32 \<Rightarrow> trade_world \<Rightarrow> trade_world" where
  "trade_tradeok a w =
     (case um_find w a of None \<Rightarrow> w | Some sd \<Rightarrow>
      if pl_deal_locked sd \<noteq> 0 \<or> \<not> pl_trading sd then w else
      case um_find w (pl_partner_id sd) of None \<Rightarrow> trade_tradecancel a w | Some target \<Rightarrow>
      upd a (\<lambda>sd. sd\<lparr>pl_deal_locked := 1\<rparr>) w)"

section \<open>The checks before the exchange\<close>

text \<open>The loop of \<open>impossible_trade_check\<close>: does the offer ask for more than the inventory holds?\<close>

fun exceeds_inventory :: "item list \<Rightarrow> (int \<times> int) list \<Rightarrow> bool" where
  "exceeds_inventory bag [] = False"
| "exceeds_inventory bag ((index, amount) # ds) =
     (if amount = 0 then exceeds_inventory bag ds
      else let it = bag ! nat index in
        if it_amount it < amount then True
        else exceeds_inventory (bag[nat index := it\<lparr>it_amount := to_int16 (it_amount it - amount)\<rparr>]) ds)"

definition tradeable_slots :: "item list \<Rightarrow> item list" where
  "tradeable_slots bag = map (\<lambda>it. if it_nameid it > 0 \<and> it_equip it \<noteq> 0 \<and> and (it_equip it) EQP_AMMO = 0
     then zero_item else it) bag"

text \<open>The result, and the player with a mark for cheating with zeny, or disconnected after a ban.\<close>

definition impossible_trade_check :: "trade_env \<Rightarrow> player \<Rightarrow> int \<times> player" where
  "impossible_trade_check E sd =
     (if pl_deal_zeny sd > pl_zeny sd then (-1, sd\<lparr>pl_zeny_hacker := True\<rparr>)
      else if exceeds_inventory (tradeable_slots (pl_inventory sd)) (take TRADE_ITEMS (pl_deal_item sd))
      then (1, if tv_ban_hack_trade E \<noteq> 0 then sd\<lparr>pl_eof := True\<rparr> else sd)
      else (0, sd))"

text \<open>One position of \<open>trade_check\<close>: moving it from the first copy of an inventory to the second.\<close>

definition fits :: "trade_env \<Rightarrow> int \<times> int \<Rightarrow> item list \<times> item list \<Rightarrow> (item list \<times> item list) option" where
  "fits E offer invs =
     (case (offer, invs) of ((index, amount), (bag, bag2)) \<Rightarrow>
      if amount = 0 then Some (bag, bag2) else
      let n = nat index; it = bag ! n in
      if amount > it_amount it then None else
      let d = itemdb_search E (it_nameid it);
          i = (if itemdb_isstackable2 d
               then arr_find (\<lambda>it2. it_nameid it2 = it_nameid it \<and> it_card it2 = it_card it) bag2 else MAX_INVENTORY);
          taken = bag[n := it\<lparr>it_amount := to_int16 (it_amount it - amount)\<rparr>]
      in if i < MAX_INVENTORY then
           (if it_amount (bag2 ! i) + amount > MAX_AMOUNT then None
            else Some (taken, bag2[i := (bag2 ! i)\<lparr>it_amount := to_int16 (it_amount (bag2 ! i) + amount)\<rparr>]))
         else let j = arr_find (\<lambda>it2. it_nameid it2 = 0) bag2
              in if j \<ge> MAX_INVENTORY then None
                 else Some (taken, bag2[j := it\<lparr>it_amount := amount\<rparr>]))"

fun fits_all :: "trade_env \<Rightarrow> ((int \<times> int) \<times> (int \<times> int)) list \<Rightarrow> item list \<times> item list \<Rightarrow> bool" where
  "fits_all E [] invs = True"
| "fits_all E ((d1, d2) # ds) (bag, bag2) =
     (case fits E d1 (bag, bag2) of None \<Rightarrow> False | Some (bag, bag2) \<Rightarrow>
      case fits E d2 (bag2, bag) of None \<Rightarrow> False | Some (bag2, bag) \<Rightarrow> fits_all E ds (bag, bag2))"

definition trade_check :: "trade_env \<Rightarrow> player \<Rightarrow> player \<Rightarrow> bool" where
  "trade_check E sd tsd =
     (if pl_deal_zeny sd > pl_zeny sd \<or> pl_zeny tsd > MAX_ZENY - pl_deal_zeny sd then False else
      if pl_deal_zeny tsd > pl_zeny tsd \<or> pl_zeny sd > MAX_ZENY - pl_deal_zeny tsd then False else
      fits_all E (zip (take TRADE_ITEMS (pl_deal_item sd)) (take TRADE_ITEMS (pl_deal_item tsd)))
        (pl_inventory sd, pl_inventory tsd))"

section \<open>The exchange\<close>

text \<open>One position of the offer of \<open>a\<close> goes to \<open>b\<close>, or stays when \<open>b\<close> has no room for it.\<close>

definition give_item :: "trade_env \<Rightarrow> uint32 \<Rightarrow> uint32 \<Rightarrow> nat \<Rightarrow> trade_world \<Rightarrow> trade_world" where
  "give_item E a b t w =
     (case um_find w a of None \<Rightarrow> w | Some sd \<Rightarrow>
      case um_find w b of None \<Rightarrow> w | Some tsd \<Rightarrow>
      case pl_deal_item sd ! t of (n, amount) \<Rightarrow>
      if amount = 0 then w else
      let (flag, tsd', item') = pc_additem E (slot sd (nat n)) amount False tsd;
          w1 = upd a (set_slot (nat n) (\<lambda>it. it\<lparr>it_unique_id := it_unique_id item'\<rparr>)) (upd b (\<lambda>_. tsd') w);
          w2 = (if flag = ADDITEM_SUCCESS then upd a (\<lambda>sd. snd (pc_delitem E n amount sd)) w1 else w1)
      in upd a (\<lambda>sd. sd\<lparr>pl_deal_item := (pl_deal_item sd)[t := (0, 0)]\<rparr>) w2)"

definition give_zeny :: "uint32 \<Rightarrow> uint32 \<Rightarrow> trade_world \<Rightarrow> trade_world" where
  "give_zeny a b w =
     (case um_find w a of None \<Rightarrow> w | Some sd \<Rightarrow>
      if pl_deal_zeny sd = 0 then w else
      let z = pl_deal_zeny sd
      in upd a (\<lambda>sd. sd\<lparr>pl_deal_zeny := 0\<rparr>)
           (upd b (\<lambda>sd. snd (pc_getzeny z sd)) (upd a (\<lambda>sd. snd (pc_payzeny z sd)) w)))"

definition finish_trading :: "player \<Rightarrow> player" where
  "finish_trading sd = sd\<lparr>pl_deal_locked := 0, pl_partner_id := 0, pl_partner_lv := 0, pl_trading := False,
     pl_isBoundTrading := 0\<rparr>"

definition exchange :: "trade_env \<Rightarrow> uint32 \<Rightarrow> uint32 \<Rightarrow> trade_world \<Rightarrow> trade_world" where
  "exchange E a b w =
     (let w1 = fold (\<lambda>t w. give_item E b a t (give_item E a b t w)) [0..<TRADE_ITEMS] w
      in upd b finish_trading (upd a finish_trading (give_zeny b a (give_zeny a b w1))))"

definition trade_tradecommit :: "trade_env \<Rightarrow> uint32 \<Rightarrow> trade_world \<Rightarrow> trade_world" where
  "trade_tradecommit E a w =
     (case um_find w a of None \<Rightarrow> w | Some sd \<Rightarrow>
      if \<not> pl_trading sd \<or> pl_deal_locked sd = 0 then w else
      let b = pl_partner_id sd in
      case um_find w b of None \<Rightarrow> trade_tradecancel a w | Some _ \<Rightarrow>
      let w1 = upd a (\<lambda>sd. sd\<lparr>pl_deal_locked := 2\<rparr>) w in
      case um_find w1 b of None \<Rightarrow> w1 | Some tsd \<Rightarrow>
      if pl_deal_locked tsd < 2 then w1 else
      case um_find w1 a of None \<Rightarrow> w1 | Some sd \<Rightarrow>
      let (hack, sd') = impossible_trade_check E sd; w2 = upd a (\<lambda>_. sd') w1 in
      if hack \<noteq> 0 then trade_tradecancel a w2 else
      case um_find w2 b of None \<Rightarrow> w2 | Some tsd \<Rightarrow>
      let (hack, tsd') = impossible_trade_check E tsd; w3 = upd b (\<lambda>_. tsd') w2 in
      if hack \<noteq> 0 then trade_tradecancel b w3 else
      if \<not> trade_check E sd' tsd' then trade_tradecancel a w3
      else exchange E a b w3)"

section \<open>The packets\<close>

text \<open>\<open>pc_cant_act\<close>: busy with something that excludes other interactions.\<close>

definition pc_cant_act :: "trade_env \<Rightarrow> player \<Rightarrow> bool" where
  "pc_cant_act E sd \<longleftrightarrow> pl_npc_id sd \<noteq> 0 \<or> tv_chat E (pl_id sd) \<or> pl_vending sd \<or> pl_buyingstore sd \<or>
     pl_trading sd \<or> pl_storage_flag sd \<noteq> 0 \<or> tv_other_act E (pl_id sd)"

definition clif_parse_TradeRequest :: "trade_env \<Rightarrow> uint32 \<Rightarrow> uint32 \<Rightarrow> trade_world \<Rightarrow> trade_world" where
  "clif_parse_TradeRequest E a b w =
     (case um_find w a of None \<Rightarrow> w | Some sd \<Rightarrow>
      if \<not> tv_chat E (pl_id sd) \<and> pc_cant_act E sd then w else
      if um_find w b \<noteq> None \<and> (tv_noask E b \<or> tv_mail_writing E b) then w else
      if \<not> tv_basic_skill E a then w else
      trade_traderequest E a b w)"

definition clif_parse_TradeAddItem :: "trade_env \<Rightarrow> uint32 \<Rightarrow> int \<Rightarrow> int \<Rightarrow> trade_world \<Rightarrow> trade_world" where
  "clif_parse_TradeAddItem E a index amount w =
     (if index = 0 then trade_tradeaddzeny a amount w
      else trade_tradeadditem E a (index - 2) (to_int16 amount) w)"

text \<open>What a client can send, and the \<open>@trade\<close> command, which asks for a trade without the packet's checks.\<close>

datatype trade_message =
    Msg_request uint32 uint32
  | Msg_command uint32 uint32
  | Msg_ack uint32 int
  | Msg_additem uint32 int int
  | Msg_ok uint32
  | Msg_cancel uint32
  | Msg_commit uint32

fun trade_handle :: "trade_env \<Rightarrow> trade_message \<Rightarrow> trade_world \<Rightarrow> trade_world" where
  "trade_handle E (Msg_request a b) w = clif_parse_TradeRequest E a b w"
| "trade_handle E (Msg_command a b) w = trade_traderequest E a b w"
| "trade_handle E (Msg_ack a type) w = trade_tradeack E a type w"
| "trade_handle E (Msg_additem a index amount) w = clif_parse_TradeAddItem E a index amount w"
| "trade_handle E (Msg_ok a) w = trade_tradeok a w"
| "trade_handle E (Msg_cancel a) w = trade_tradecancel a w"
| "trade_handle E (Msg_commit a) w = trade_tradecommit E a w"

end
