(* ===== verification/Containers.thy ===== *)
theory Containers
  imports Trade
begin

text \<open>
  A player's cart (\<open>src/src/map/pc.cpp\<close>) and storages (\<open>src/src/map/storage.cpp\<close>): moving items
  between the inventory, the cart and the storage that is open, the account's, a premium or the guild's,
  and the packet handlers that ask for it. Packets, log lines, opening and saving are left out.
\<close>

section \<open>Cart and storage\<close>

definition MAX_CART :: nat where "MAX_CART = 100"
definition MAX_STORAGE :: nat where "MAX_STORAGE = 600"

text \<open>\<open>struct s_storage\<close>: an account's, a premium or a guild's storage.\<close>

record s_storage =
  st_items :: "item list"
  st_amount :: uint16
  st_max_amount :: nat
  st_dirty :: bool
  st_status :: bool
  st_lock :: bool
  st_get :: bool
  st_put :: bool

text \<open>The player with the cart and the storages; the guild's is the one \<open>guild2storage2\<close> finds.\<close>

record holder =
  h_sd :: player
  h_cart :: "item list"
  h_cart_num :: int
  h_cart_weight :: int
  h_cart_weight_max :: int
  h_prevend :: bool
  h_storage :: s_storage
  h_premium :: s_storage
  h_guild :: "s_storage option"

datatype e_storage_add = STORAGE_ADD_OK | STORAGE_ADD_NOROOM | STORAGE_ADD_NOACCESS | STORAGE_ADD_INVALID

text \<open>The environment: that of the trade, the map's and the player's carts.\<close>

record box_env = trade_env +
  bv_nousecart :: "int \<Rightarrow> bool"
  bv_carton :: "uint32 \<Rightarrow> bool"

definition set_box :: "nat \<Rightarrow> (item \<Rightarrow> item) \<Rightarrow> item list \<Rightarrow> item list" where
  "set_box i f items = items[i := f (items ! i)]"

definition itemdb_cancartstore_sub :: "item_data \<Rightarrow> int \<Rightarrow> int \<Rightarrow> bool" where
  "itemdb_cancartstore_sub d gmlv unused \<longleftrightarrow> \<not> id_no_cart d \<or> gmlv \<ge> id_gm_lv_trade_override d"

definition itemdb_canstore_sub :: "item_data \<Rightarrow> int \<Rightarrow> int \<Rightarrow> bool" where
  "itemdb_canstore_sub d gmlv unused \<longleftrightarrow> \<not> id_no_storage d \<or> gmlv \<ge> id_gm_lv_trade_override d"

definition itemdb_canguildstore_sub :: "item_data \<Rightarrow> int \<Rightarrow> int \<Rightarrow> bool" where
  "itemdb_canguildstore_sub d gmlv unused \<longleftrightarrow> \<not> id_no_guild_storage d \<or> gmlv \<ge> id_gm_lv_trade_override d"

section \<open>The cart\<close>

text \<open>The stack \<open>pc_cart_additem\<close> joins; it does not ask whether that stack is rented.\<close>

definition same_cart_stack :: "item \<Rightarrow> item \<Rightarrow> bool" where
  "same_cart_stack new it \<longleftrightarrow> it_nameid it = it_nameid new \<and> it_bound it = it_bound new \<and>
     it_unique_id it = it_unique_id new \<and> it_card it = it_card new"

definition pc_cart_additem :: "('a trade_env_scheme) \<Rightarrow> item \<Rightarrow> int \<Rightarrow> holder \<Rightarrow> e_additem_result \<times> holder" where
  "pc_cart_additem E item amount h =
     (if it_nameid item = 0 \<or> amount \<le> 0 then (ADDITEM_INVALID, h) else
      if itemdb_ishatched_egg item then (ADDITEM_INVALID, h) else
      let d = itemdb_search E (it_nameid item) in
      if id_stack_cart d \<and> amount > uint (id_stack_amount d) then (ADDITEM_STACKLIMIT, h) else
      if \<not> itemdb_isrestricted E item (tv_group_level E (pl_id (h_sd h))) 0 itemdb_cancartstore_sub \<or>
         it_bound item > BOUND_ACCOUNT \<and> \<not> pc_can_give_bounded_items (h_sd h) then (ADDITEM_INVALID, h) else
      let w = sint (id_weight d * word_of_int amount) in
      if w + h_cart_weight h > h_cart_weight_max h then (ADDITEM_OVERWEIGHT, h) else
      let i = (if itemdb_isstackable2 d \<and> it_expire_time item = 0 then arr_find (same_cart_stack item) (h_cart h) else MAX_CART);
          finish = (\<lambda>i h. h\<lparr>h_cart := set_box i (\<lambda>it. it\<lparr>it_favorite := False, it_equipSwitch := 0\<rparr>) (h_cart h),
                             h_cart_weight := h_cart_weight h + w\<rparr>)
      in if i < MAX_CART then
           (let it = h_cart h ! i in
            if amount > MAX_AMOUNT - it_amount it \<or> id_stack_cart d \<and> amount > uint (id_stack_amount d) - it_amount it
            then (ADDITEM_OVERAMOUNT, h)
            else (ADDITEM_SUCCESS, finish i (h\<lparr>h_cart := set_box i (\<lambda>it. it\<lparr>it_amount := to_int16 (it_amount it + amount)\<rparr>) (h_cart h)\<rparr>)))
         else
           (let j = arr_find (\<lambda>it. it_nameid it = 0) (h_cart h) in
            if j = MAX_CART then (ADDITEM_OVERAMOUNT, h)
            else (ADDITEM_SUCCESS, finish j (h\<lparr>h_cart := set_box j (\<lambda>_. item\<lparr>it_id := 0, it_amount := to_int16 amount\<rparr>) (h_cart h),
                                                h_cart_num := h_cart_num h + 1\<rparr>))))"

definition pc_cart_delitem :: "('a trade_env_scheme) \<Rightarrow> nat \<Rightarrow> int \<Rightarrow> holder \<Rightarrow> holder" where
  "pc_cart_delitem E n amount h =
     (let it = h_cart h ! n in
      if it_nameid it = 0 \<or> it_amount it < amount then h else
      let h1 = h\<lparr>h_cart := set_box n (\<lambda>it. it\<lparr>it_amount := to_int16 (it_amount it - amount)\<rparr>) (h_cart h),
                 h_cart_weight := sint (word_of_int (h_cart_weight h) - id_weight (itemdb_search E (it_nameid it)) * word_of_int amount :: uint32)\<rparr>
      in if it_amount (h_cart h1 ! n) \<le> 0
         then h1\<lparr>h_cart := set_box n (\<lambda>_. zero_item) (h_cart h1), h_cart_num := h_cart_num h1 - 1\<rparr> else h1)"

definition pc_putitemtocart :: "('a trade_env_scheme) \<Rightarrow> int \<Rightarrow> int \<Rightarrow> holder \<Rightarrow> holder" where
  "pc_putitemtocart E idx amount h =
     (if idx < 0 \<or> idx \<ge> int MAX_INVENTORY then h else
      let it = slot (h_sd h) (nat idx) in
      if it_nameid it = 0 \<or> amount < 1 \<or> it_amount it < amount \<or> pl_vending (h_sd h) \<or> h_prevend h then h else
      if it_equipSwitch it \<noteq> 0 then h else
      case pc_cart_additem E it amount h of (flag, h1) \<Rightarrow>
      if flag = ADDITEM_SUCCESS then h1\<lparr>h_sd := snd (pc_delitem E idx amount (h_sd h1))\<rparr> else h1)"

definition pc_getitemfromcart :: "('a trade_env_scheme) \<Rightarrow> int \<Rightarrow> int \<Rightarrow> holder \<Rightarrow> holder" where
  "pc_getitemfromcart E idx amount h =
     (if idx < 0 \<or> idx \<ge> int MAX_CART then h else
      let it = h_cart h ! nat idx in
      if it_nameid it = 0 \<or> amount < 1 \<or> it_amount it < amount \<or> pl_vending (h_sd h) \<or> h_prevend h then h else
      case pc_additem E it amount False (h_sd h) of (flag, sd', it') \<Rightarrow>
      let h1 = h\<lparr>h_sd := sd', h_cart := set_box (nat idx) (\<lambda>_. it') (h_cart h)\<rparr>
      in if flag = ADDITEM_SUCCESS then pc_cart_delitem E (nat idx) amount h1 else h1)"

section \<open>A storage\<close>

definition compare_item :: "item \<Rightarrow> item \<Rightarrow> bool" where
  "compare_item a b \<longleftrightarrow> it_nameid a = it_nameid b \<and> it_identify a = it_identify b \<and> it_refine a = it_refine b \<and>
     it_attribute a = it_attribute b \<and> it_expire_time a = it_expire_time b \<and> it_bound a = it_bound b \<and>
     it_unique_id a = it_unique_id b \<and> it_card a = it_card b"

definition storage_canAddItem :: "s_storage \<Rightarrow> int \<Rightarrow> item list \<Rightarrow> int \<Rightarrow> nat \<Rightarrow> e_storage_add" where
  "storage_canAddItem stor idx items amount max_num =
     (if idx < 0 \<or> idx \<ge> int max_num then STORAGE_ADD_INVALID else
      let it = items ! nat idx in
      if it_nameid it = 0 then STORAGE_ADD_INVALID else
      if amount < 1 \<or> amount > it_amount it then STORAGE_ADD_INVALID else
      if itemdb_ishatched_egg it then STORAGE_ADD_INVALID else
      if \<not> st_put stor then STORAGE_ADD_NOACCESS else STORAGE_ADD_OK)"

definition storage_canGetItem :: "s_storage \<Rightarrow> int \<Rightarrow> int \<Rightarrow> e_storage_add" where
  "storage_canGetItem stor idx amount =
     (if idx < 0 \<or> idx \<ge> int MAX_STORAGE then STORAGE_ADD_INVALID else
      let it = st_items stor ! nat idx in
      if it_nameid it = 0 then STORAGE_ADD_INVALID else
      if amount < 1 \<or> amount > it_amount it then STORAGE_ADD_INVALID else
      if \<not> st_get stor then STORAGE_ADD_NOACCESS else STORAGE_ADD_OK)"

text \<open>0 for success, 1 for a refusal, 2 for no room.\<close>

definition storage_additem :: "('a trade_env_scheme) \<Rightarrow> player \<Rightarrow> item \<Rightarrow> int \<Rightarrow> s_storage \<Rightarrow> nat \<times> s_storage" where
  "storage_additem E sd it amount stor =
     (if it_nameid it = 0 \<or> amount \<le> 0 then (1, stor) else
      let d = itemdb_search E (it_nameid it) in
      if id_stack_storage d \<and> amount > uint (id_stack_amount d) then (2, stor) else
      if \<not> itemdb_isrestricted E it (tv_group_level E (pl_id sd)) 0 itemdb_canstore_sub then (1, stor) else
      if it_bound it > BOUND_ACCOUNT \<and> \<not> pc_can_give_bounded_items sd then (1, stor) else
      let m = st_max_amount stor;
          i = (if itemdb_isstackable2 d then arr_find (\<lambda>x. compare_item x it) (take m (st_items stor)) else m)
      in if i < m then
           (let x = st_items stor ! i in
            if amount > MAX_AMOUNT - it_amount x \<or> id_stack_storage d \<and> amount > uint (id_stack_amount d) - it_amount x
            then (2, stor)
            else (0, stor\<lparr>st_items := set_box i (\<lambda>x. x\<lparr>it_amount := to_int16 (it_amount x + amount)\<rparr>) (st_items stor), st_dirty := True\<rparr>))
         else if unat (st_amount stor) \<ge> m then (2, stor)
         else (let j = arr_find (\<lambda>x. it_nameid x = 0) (take m (st_items stor)) in
           if j \<ge> m then (2, stor)
           else (0, stor\<lparr>st_items := set_box j (\<lambda>_. it\<lparr>it_amount := to_int16 amount\<rparr>) (st_items stor),
                         st_amount := st_amount stor + 1, st_dirty := True\<rparr>)))"

definition storage_delitem :: "nat \<Rightarrow> int \<Rightarrow> s_storage \<Rightarrow> nat \<times> s_storage" where
  "storage_delitem index amount stor =
     (let it = st_items stor ! index in
      if it_nameid it = 0 \<or> it_amount it < amount then (1, stor) else
      let s1 = stor\<lparr>st_items := set_box index (\<lambda>x. x\<lparr>it_amount := to_int16 (it_amount x - amount)\<rparr>) (st_items stor), st_dirty := True\<rparr>
      in if it_amount (st_items s1 ! index) = 0
         then (0, s1\<lparr>st_items := set_box index (\<lambda>_. zero_item) (st_items s1), st_amount := st_amount s1 - 1\<rparr>)
         else (0, s1))"

section \<open>Moving items into and out of a storage\<close>

definition storage_storageadd :: "('a trade_env_scheme) \<Rightarrow> int \<Rightarrow> int \<Rightarrow> holder \<times> s_storage \<Rightarrow> holder \<times> s_storage" where
  "storage_storageadd E index amount hs =
     (case hs of (h, stor) \<Rightarrow>
      if storage_canAddItem stor index (pl_inventory (h_sd h)) amount MAX_INVENTORY \<noteq> STORAGE_ADD_OK then (h, stor) else
      case storage_additem E (h_sd h) (slot (h_sd h) (nat index)) amount stor of (r, stor') \<Rightarrow>
      if r = 0 then (h\<lparr>h_sd := snd (pc_delitem E index amount (h_sd h))\<rparr>, stor') else (h, stor'))"

definition storage_storageget :: "('a trade_env_scheme) \<Rightarrow> int \<Rightarrow> int \<Rightarrow> bool \<Rightarrow> holder \<times> s_storage \<Rightarrow> holder \<times> s_storage" where
  "storage_storageget E index amount favorite hs =
     (case hs of (h, stor) \<Rightarrow>
      if storage_canGetItem stor index amount \<noteq> STORAGE_ADD_OK then (h, stor) else
      case pc_additem E (st_items stor ! nat index) amount favorite (h_sd h) of (flag, sd', it') \<Rightarrow>
      let h1 = h\<lparr>h_sd := sd'\<rparr>; s1 = stor\<lparr>st_items := set_box (nat index) (\<lambda>_. it') (st_items stor)\<rparr>
      in if flag = ADDITEM_SUCCESS then (h1, snd (storage_delitem (nat index) amount s1)) else (h1, s1))"

definition storage_storageaddfromcart :: "('a trade_env_scheme) \<Rightarrow> int \<Rightarrow> int \<Rightarrow> holder \<times> s_storage \<Rightarrow> holder \<times> s_storage" where
  "storage_storageaddfromcart E index amount hs =
     (case hs of (h, stor) \<Rightarrow>
      if h_prevend h then (h, stor) else
      if storage_canAddItem stor index (h_cart h) amount MAX_CART \<noteq> STORAGE_ADD_OK then (h, stor) else
      case storage_additem E (h_sd h) (h_cart h ! nat index) amount stor of (r, stor') \<Rightarrow>
      if r = 0 then (pc_cart_delitem E (nat index) amount h, stor') else (h, stor'))"

definition storage_storagegettocart :: "('a trade_env_scheme) \<Rightarrow> int \<Rightarrow> int \<Rightarrow> holder \<times> s_storage \<Rightarrow> holder \<times> s_storage" where
  "storage_storagegettocart E index amount hs =
     (case hs of (h, stor) \<Rightarrow>
      if h_prevend h then (h, stor) else
      if storage_canGetItem stor index amount \<noteq> STORAGE_ADD_OK then (h, stor) else
      case pc_cart_additem E (st_items stor ! nat index) amount h of (flag, h1) \<Rightarrow>
      if flag = ADDITEM_SUCCESS then (h1, snd (storage_delitem (nat index) amount stor)) else (h1, stor))"

definition storage_storageclose :: "holder \<Rightarrow> holder" where
  "storage_storageclose h =
     (if pl_storage_flag (h_sd h) = 1 then h\<lparr>h_sd := (h_sd h)\<lparr>pl_storage_flag := 0\<rparr>\<rparr> else h)"

definition storage_premiumStorage_close :: "holder \<Rightarrow> holder" where
  "storage_premiumStorage_close h =
     (if pl_storage_flag (h_sd h) = 3 then h\<lparr>h_sd := (h_sd h)\<lparr>pl_storage_flag := 0\<rparr>\<rparr> else h)"

section \<open>The guild's storage\<close>

definition storage_guild_additem :: "('a trade_env_scheme) \<Rightarrow> player \<Rightarrow> item \<Rightarrow> int \<Rightarrow> s_storage \<Rightarrow> bool \<times> s_storage" where
  "storage_guild_additem E sd it amount stor =
     (if it_nameid it = 0 \<or> amount \<le> 0 then (False, stor) else
      let d = itemdb_search E (it_nameid it) in
      if id_stack_guild_storage d \<and> amount > uint (id_stack_amount d) then (False, stor) else
      if \<not> itemdb_isrestricted E it (tv_group_level E (pl_id sd)) 0 itemdb_canguildstore_sub \<or> it_expire_time it \<noteq> 0
      then (False, stor) else
      if (it_bound it = BOUND_ACCOUNT \<or> it_bound it > BOUND_GUILD) \<and> \<not> pc_can_give_bounded_items sd then (False, stor) else
      let m = st_max_amount stor;
          i = (if itemdb_isstackable2 d then arr_find (\<lambda>x. compare_item x it) (take m (st_items stor)) else m)
      in if i < m then
           (let x = st_items stor ! i in
            if amount > MAX_AMOUNT - it_amount x \<or> id_stack_guild_storage d \<and> amount > uint (id_stack_amount d) - it_amount x
            then (False, stor)
            else (True, stor\<lparr>st_items := set_box i (\<lambda>x. x\<lparr>it_amount := to_int16 (it_amount x + amount)\<rparr>) (st_items stor), st_dirty := True\<rparr>))
         else (let j = arr_find (\<lambda>x. it_nameid x = 0) (take m (st_items stor)) in
           if j \<ge> m then (False, stor)
           else (True, stor\<lparr>st_items := set_box j (\<lambda>_. it\<lparr>it_amount := to_int16 amount\<rparr>) (st_items stor),
                            st_amount := st_amount stor + 1, st_dirty := True\<rparr>)))"

definition storage_guild_delitem :: "nat \<Rightarrow> int \<Rightarrow> s_storage \<Rightarrow> bool \<times> s_storage" where
  "storage_guild_delitem n amount stor =
     (let it = st_items stor ! n in
      if it_nameid it = 0 \<or> it_amount it < amount then (False, stor) else
      let s1 = stor\<lparr>st_items := set_box n (\<lambda>x. x\<lparr>it_amount := to_int16 (it_amount x - amount)\<rparr>) (st_items stor)\<rparr>;
          s2 = (if it_amount (st_items s1 ! n) = 0
                then s1\<lparr>st_items := set_box n (\<lambda>_. zero_item) (st_items s1), st_amount := st_amount s1 - 1\<rparr> else s1)
      in (True, s2\<lparr>st_dirty := True\<rparr>))"

definition storage_guild_storageclose :: "holder \<times> s_storage \<Rightarrow> holder \<times> s_storage" where
  "storage_guild_storageclose hs = (case hs of (h, stor) \<Rightarrow> (h\<lparr>h_sd := (h_sd h)\<lparr>pl_storage_flag := 0\<rparr>\<rparr>, stor\<lparr>st_status := False\<rparr>))"

definition storage_guild_storageadd :: "('a trade_env_scheme) \<Rightarrow> int \<Rightarrow> int \<Rightarrow> holder \<times> s_storage \<Rightarrow> holder \<times> s_storage" where
  "storage_guild_storageadd E index amount hs =
     (case hs of (h, stor) \<Rightarrow>
      if \<not> st_status stor \<or> unat (st_amount stor) > st_max_amount stor then (h, stor) else
      if index < 0 \<or> index \<ge> int MAX_INVENTORY then (h, stor) else
      let it = slot (h_sd h) (nat index) in
      if it_nameid it = 0 then (h, stor) else
      if amount < 1 \<or> amount > it_amount it then (h, stor) else
      if itemdb_ishatched_egg it then (h, stor) else
      if st_lock stor then storage_guild_storageclose (h, stor) else
      case storage_guild_additem E (h_sd h) it amount stor of (r, stor') \<Rightarrow>
      if r then (h\<lparr>h_sd := snd (pc_delitem E index amount (h_sd h))\<rparr>, stor') else (h, stor'))"

definition storage_guild_storageget :: "('a trade_env_scheme) \<Rightarrow> int \<Rightarrow> int \<Rightarrow> bool \<Rightarrow> holder \<times> s_storage \<Rightarrow> holder \<times> s_storage" where
  "storage_guild_storageget E index amount favorite hs =
     (case hs of (h, stor) \<Rightarrow>
      if \<not> st_status stor then (h, stor) else
      if index < 0 \<or> index \<ge> int (st_max_amount stor) then (h, stor) else
      let it = st_items stor ! nat index in
      if it_nameid it = 0 then (h, stor) else
      if amount < 1 \<or> amount > it_amount it then (h, stor) else
      if st_lock stor then storage_guild_storageclose (h, stor) else
      case pc_additem E it amount favorite (h_sd h) of (flag, sd', it') \<Rightarrow>
      let h1 = h\<lparr>h_sd := sd'\<rparr>; s1 = stor\<lparr>st_items := set_box (nat index) (\<lambda>_. it') (st_items stor)\<rparr>
      in if flag = ADDITEM_SUCCESS then (h1, snd (storage_guild_delitem (nat index) amount s1)) else (h1, s1))"

text \<open>The two moves between guild storage and cart, which do not look at the lock.\<close>

definition storage_guild_storageaddfromcart :: "('a trade_env_scheme) \<Rightarrow> int \<Rightarrow> int \<Rightarrow> holder \<times> s_storage \<Rightarrow> holder \<times> s_storage" where
  "storage_guild_storageaddfromcart E index amount hs =
     (case hs of (h, stor) \<Rightarrow>
      if \<not> st_status stor \<or> unat (st_amount stor) > st_max_amount stor then (h, stor) else
      if index < 0 \<or> index \<ge> int MAX_CART then (h, stor) else
      let it = h_cart h ! nat index in
      if it_nameid it = 0 then (h, stor) else
      if amount < 1 \<or> amount > it_amount it then (h, stor) else
      case storage_guild_additem E (h_sd h) it amount stor of (r, stor') \<Rightarrow>
      if r then (pc_cart_delitem E (nat index) amount h, stor') else (h, stor'))"

definition storage_guild_storagegettocart :: "('a trade_env_scheme) \<Rightarrow> int \<Rightarrow> int \<Rightarrow> holder \<times> s_storage \<Rightarrow> holder \<times> s_storage" where
  "storage_guild_storagegettocart E index amount hs =
     (case hs of (h, stor) \<Rightarrow>
      if \<not> st_status stor then (h, stor) else
      if index < 0 \<or> index \<ge> int (st_max_amount stor) then (h, stor) else
      let it = st_items stor ! nat index in
      if it_nameid it = 0 then (h, stor) else
      if amount < 1 \<or> amount > it_amount it then (h, stor) else
      case pc_cart_additem E it amount h of (flag, h1) \<Rightarrow>
      if flag = ADDITEM_SUCCESS then (h1, snd (storage_guild_delitem (nat index) amount stor)) else (h1, stor))"

section \<open>The packets\<close>

text \<open>The storage that is open: 1 the account's, 2 the guild's, 3 a premium one.\<close>

definition with_open_storage :: "(holder \<times> s_storage \<Rightarrow> holder \<times> s_storage) \<Rightarrow> (holder \<times> s_storage \<Rightarrow> holder \<times> s_storage) \<Rightarrow> holder \<Rightarrow> holder" where
  "with_open_storage f g h =
     (if pl_storage_flag (h_sd h) = 1 then (case f (h, h_storage h) of (h1, stor) \<Rightarrow> h1\<lparr>h_storage := stor\<rparr>)
      else if pl_storage_flag (h_sd h) = 2 then
        (case h_guild h of None \<Rightarrow> h | Some s \<Rightarrow> (case g (h, s) of (h1, stor) \<Rightarrow> h1\<lparr>h_guild := Some stor\<rparr>))
      else if pl_storage_flag (h_sd h) = 3 then (case f (h, h_premium h) of (h1, stor) \<Rightarrow> h1\<lparr>h_premium := stor\<rparr>)
      else h)"

definition pc_istrading :: "player \<Rightarrow> bool" where
  "pc_istrading sd \<longleftrightarrow> pl_npc_id sd \<noteq> 0 \<or> pl_vending sd \<or> pl_buyingstore sd \<or> pl_trading sd"

definition pc_cant_act2 :: "box_env \<Rightarrow> holder \<Rightarrow> bool" where
  "pc_cant_act2 E h \<longleftrightarrow> pl_vending (h_sd h) \<or> pl_buyingstore (h_sd h) \<or> pl_trading (h_sd h) \<or>
     pl_storage_flag (h_sd h) \<noteq> 0 \<or> h_prevend h \<or> tv_other_act E (pl_id (h_sd h))"

text \<open>The handlers, with the index as the client sends it.\<close>

definition clif_parse_PutItemToCart :: "box_env \<Rightarrow> int \<Rightarrow> int \<Rightarrow> holder \<Rightarrow> holder" where
  "clif_parse_PutItemToCart E index amount h =
     (if pc_istrading (h_sd h) \<or> \<not> bv_carton E (pl_id (h_sd h)) \<or> pc_cant_act2 E h then h else
      if bv_nousecart E (pl_m (h_sd h)) then h else pc_putitemtocart E (index - 2) amount h)"

definition clif_parse_GetItemFromCart :: "box_env \<Rightarrow> int \<Rightarrow> int \<Rightarrow> holder \<Rightarrow> holder" where
  "clif_parse_GetItemFromCart E index amount h =
     (if \<not> bv_carton E (pl_id (h_sd h)) \<or> pc_cant_act2 E h then h else
      if bv_nousecart E (pl_m (h_sd h)) then h else pc_getitemfromcart E (index - 2) amount h)"

definition clif_parse_MoveToKafra :: "box_env \<Rightarrow> int \<Rightarrow> int \<Rightarrow> holder \<Rightarrow> holder" where
  "clif_parse_MoveToKafra E index amount h =
     (if pc_istrading (h_sd h) then h else
      if index - 2 < 0 \<or> index - 2 \<ge> int MAX_INVENTORY \<or> amount < 1 then h else
      if it_equipSwitch (slot (h_sd h) (nat (index - 2))) \<noteq> 0 then h else
      with_open_storage (storage_storageadd E (index - 2) amount) (storage_guild_storageadd E (index - 2) amount) h)"

text \<open>Retrieving, as favorite item or not.\<close>

definition clif_parse_MoveFromKafra :: "box_env \<Rightarrow> int \<Rightarrow> int \<Rightarrow> bool \<Rightarrow> holder \<Rightarrow> holder" where
  "clif_parse_MoveFromKafra E index amount favorite h =
     with_open_storage (storage_storageget E (index - 1) amount favorite) (storage_guild_storageget E (index - 1) amount favorite) h"

definition clif_parse_MoveToKafraFromCart :: "box_env \<Rightarrow> int \<Rightarrow> int \<Rightarrow> holder \<Rightarrow> holder" where
  "clif_parse_MoveToKafraFromCart E index amount h =
     (if pl_vending (h_sd h) then h else
      if \<not> bv_carton E (pl_id (h_sd h)) then h else
      if bv_nousecart E (pl_m (h_sd h)) then h else
      with_open_storage (storage_storageaddfromcart E (index - 2) amount) (storage_guild_storageaddfromcart E (index - 2) amount) h)"

definition clif_parse_MoveFromKafraToCart :: "box_env \<Rightarrow> int \<Rightarrow> int \<Rightarrow> holder \<Rightarrow> holder" where
  "clif_parse_MoveFromKafraToCart E index amount h =
     (if pl_vending (h_sd h) then h else
      if \<not> bv_carton E (pl_id (h_sd h)) then h else
      if bv_nousecart E (pl_m (h_sd h)) then h else
      with_open_storage (storage_storagegettocart E (index - 1) amount) (storage_guild_storagegettocart E (index - 1) amount) h)"

definition clif_parse_CloseKafra :: "holder \<Rightarrow> holder" where
  "clif_parse_CloseKafra h =
     (if pl_storage_flag (h_sd h) = 1 then storage_storageclose h
      else if pl_storage_flag (h_sd h) = 2 then
        (case h_guild h of None \<Rightarrow> h | Some s \<Rightarrow> (case storage_guild_storageclose (h, s) of (h1, stor) \<Rightarrow> h1\<lparr>h_guild := Some stor\<rparr>))
      else if pl_storage_flag (h_sd h) = 3 then storage_premiumStorage_close h else h)"

datatype box_message =
    Box_put_cart int int
  | Box_get_cart int int
  | Box_store int int
  | Box_retrieve int int bool
  | Box_store_from_cart int int
  | Box_retrieve_to_cart int int
  | Box_close

fun box_handle :: "box_env \<Rightarrow> box_message \<Rightarrow> holder \<Rightarrow> holder" where
  "box_handle E (Box_put_cart index amount) h = clif_parse_PutItemToCart E index amount h"
| "box_handle E (Box_get_cart index amount) h = clif_parse_GetItemFromCart E index amount h"
| "box_handle E (Box_store index amount) h = clif_parse_MoveToKafra E index amount h"
| "box_handle E (Box_retrieve index amount favorite) h = clif_parse_MoveFromKafra E index amount favorite h"
| "box_handle E (Box_store_from_cart index amount) h = clif_parse_MoveToKafraFromCart E index amount h"
| "box_handle E (Box_retrieve_to_cart index amount) h = clif_parse_MoveFromKafraToCart E index amount h"
| "box_handle E Box_close h = clif_parse_CloseKafra h"

end
