(* ===== verification/Vending.thy ===== *)
theory Vending
  imports Containers Strlib
begin

text \<open>
  Player shops (\<open>src/src/map/vending.cpp\<close>): opening and closing a shop that sells from the cart, looking
  at one, buying from it, and searching it. The tables that mirror open shops in the database, the restoring
  of shops from them, packets and log lines are left out.
\<close>

section \<open>Shops\<close>

definition MAX_VENDING :: nat where "MAX_VENDING = 12"
definition MESSAGE_SIZE :: nat where "MESSAGE_SIZE = 80"

record s_vending =
  vd_index :: int
  vd_amount :: int
  vd_value :: uint32

text \<open>A player with cart as seller and buyer: the shop's entries, its title and number, the number of the shop
  last looked at, and the shop a search result opened for buying from afar.\<close>

record merchant =
  mc_h :: holder
  mc_dead_sit :: nat
  mc_autotrade :: nat
  mc_workinprogress :: nat
  mc_vended_id :: int
  mc_vender_id :: int
  mc_vend_num :: nat
  mc_message :: string
  mc_vending :: "s_vending list"
  mc_search_open :: bool
  mc_search_items :: nat
  mc_remote_id :: int

abbreviation mc_sd :: "merchant \<Rightarrow> player" where "mc_sd m \<equiv> h_sd (mc_h m)"
abbreviation mc_cart :: "merchant \<Rightarrow> item list" where "mc_cart m \<equiv> h_cart (mc_h m)"

text \<open>The players \<open>map_id2sd\<close> finds, the counter of shop numbers, \<open>vending_db\<close> from character to
  player, and the calls of \<open>map_quit\<close>.\<close>

record market =
  mk_players :: "uint32 \<Rightarrow> merchant option"
  mk_nextid :: uint32
  mk_vending_db :: "uint32 \<Rightarrow> uint32 option"
  mk_quit :: "uint32 list"

text \<open>The environment: whether two players are within \<open>AREA_SIZE\<close>, the tax (what is left of an amount, a
  computation in floating point), the skill, and two battle configurations.\<close>

record vend_env = box_env +
  ve_near :: "uint32 \<Rightarrow> uint32 \<Rightarrow> bool"
  ve_after_tax :: "int \<Rightarrow> int"
  ve_vending_lv :: "uint32 \<Rightarrow> int"
  ve_vending_max_value :: int
  ve_vending_over_max :: bool

definition put_player :: "uint32 \<Rightarrow> merchant \<Rightarrow> market \<Rightarrow> market" where
  "put_player a m W = W\<lparr>mk_players := (mk_players W)(a := Some m)\<rparr>"

definition set_sd :: "(player \<Rightarrow> player) \<Rightarrow> merchant \<Rightarrow> merchant" where
  "set_sd f m = m\<lparr>mc_h := (mc_h m)\<lparr>h_sd := f (mc_sd m)\<rparr>\<rparr>"

definition searchstore_queryremote :: "merchant \<Rightarrow> uint32 \<Rightarrow> bool" where
  "searchstore_queryremote m account_id \<longleftrightarrow>
     mc_search_open m \<and> mc_search_items m \<noteq> 0 \<and> (word_of_int (mc_remote_id m) :: uint32) = account_id"

definition searchstore_clearremote :: "merchant \<Rightarrow> merchant" where
  "searchstore_clearremote m = m\<lparr>mc_remote_id := 0\<rparr>"

section \<open>Closing and looking\<close>

definition vending_closevending :: "uint32 \<Rightarrow> market \<Rightarrow> market" where
  "vending_closevending a W =
     (case mk_players W a of None \<Rightarrow> W | Some m \<Rightarrow>
      if pl_vending (mc_sd m) then
        (put_player a ((set_sd (\<lambda>sd. sd\<lparr>pl_vending := False\<rparr>) m)\<lparr>mc_vender_id := 0\<rparr>) W)
          \<lparr>mk_vending_db := (mk_vending_db W)(pl_char_id (mc_sd m) := None)\<rparr>
      else W)"

definition vending_vendinglistreq :: "uint32 \<Rightarrow> uint32 \<Rightarrow> market \<Rightarrow> market" where
  "vending_vendinglistreq a vid W =
     (case mk_players W a of None \<Rightarrow> W | Some m \<Rightarrow>
      case mk_players W vid of None \<Rightarrow> W | Some vm \<Rightarrow>
      if \<not> pl_vending (mc_sd vm) then W else
      if \<not> pc_can_give_items (mc_sd m) \<or> \<not> pc_can_give_items (mc_sd vm) then W else
      put_player a (m\<lparr>mc_vended_id := mc_vender_id vm\<rparr>) W)"

section \<open>Buying\<close>

text \<open>One order of the packet: the amount, and the index in the cart the client counts from 2.\<close>

definition read_order :: "uint16 \<times> uint16 \<Rightarrow> int \<times> int" where
  "read_order line = (to_int16 (uint (fst line)), to_int16 (to_int16 (uint (snd line)) - 2))"

text \<open>The entry of the shop that sells the item at a position of the cart; the number of entries if none does.\<close>

definition vend_entry :: "merchant \<Rightarrow> int \<Rightarrow> nat" where
  "vend_entry vm idx = arr_find (\<lambda>v. vd_index v = idx) (take (mc_vend_num vm) (mc_vending vm))"

text \<open>
  The checks, order by order, on a copy of the entries (\<open>vending\<close>), the sum of prices, the sum of weights and
  the number of slots the buyer needs. The result is the entry of each order and the price of them all.
\<close>

fun vending_check :: "vend_env \<Rightarrow> player \<Rightarrow> merchant \<Rightarrow> nat \<Rightarrow> (int \<times> int) list \<Rightarrow>
    s_vending list \<Rightarrow> int \<Rightarrow> uint32 \<Rightarrow> nat \<Rightarrow> (nat list \<times> int) option" where
  "vending_check E sd vm blank [] vending z w new = Some ([], z)"
| "vending_check E sd vm blank ((amount, idx) # orders) vending z w new =
     (if amount \<le> 0 then None else
      if idx < 0 \<or> idx \<ge> int MAX_CART then None else
      let j = vend_entry vm idx in
      if j = mc_vend_num vm then None else
      let z1 = z + uint (vd_value (mc_vending vm ! j)) * amount; it = mc_cart vm ! nat idx in
      if z1 > pl_zeny sd \<or> z1 < 0 \<or> z1 > MAX_ZENY then None else
      if z1 + pl_zeny (mc_sd vm) > MAX_ZENY then None else
      let w1 = w + id_weight (itemdb_search E (it_nameid it)) * word_of_int amount in
      if w1 + pl_weight sd > pl_max_weight sd then None else
      let left = (if vd_amount (vending ! j) > it_amount it then it_amount it else vd_amount (vending ! j)) in
      if left < amount then None else
      let vending1 = vending[j := (vending ! j)\<lparr>vd_amount := to_int16 (left - amount)\<rparr>];
          next = (\<lambda>new. map_option (apfst (\<lambda>js. j # js)) (vending_check E sd vm blank orders vending1 z1 w1 new))
      in case pc_checkadditem E (it_nameid it) amount sd of
           CHKADDITEM_EXIST \<Rightarrow> next new
         | CHKADDITEM_NEW \<Rightarrow> if new + 1 > blank then None else next (new + 1)
         | CHKADDITEM_OVERAMOUNT \<Rightarrow> None)"

text \<open>Handing over one order: the result of \<open>pc_additem\<close> is not looked at.\<close>

definition vending_deliver :: "vend_env \<Rightarrow> (int \<times> int) \<times> nat \<Rightarrow> player \<times> merchant \<Rightarrow> player \<times> merchant" where
  "vending_deliver E order sv = (case order of ((amount, idx), j) \<Rightarrow> case sv of (sd, vm) \<Rightarrow>
     case pc_additem E (mc_cart vm ! nat idx) amount False sd of (_, sd', it') \<Rightarrow>
     let vm1 = vm\<lparr>mc_h := (mc_h vm)\<lparr>h_cart := set_box (nat idx) (\<lambda>_. it') (mc_cart vm)\<rparr>,
           mc_vending := (mc_vending vm)[j := (mc_vending vm ! j)\<lparr>vd_amount := to_int16 (vd_amount (mc_vending vm ! j) - amount)\<rparr>]\<rparr>
     in (sd', vm1\<lparr>mc_h := pc_cart_delitem E (nat idx) amount (mc_h vm1)\<rparr>))"

text \<open>The loop that moves the entries that are left to the front.\<close>

definition compact_step :: "nat \<Rightarrow> s_vending list \<times> nat \<Rightarrow> s_vending list \<times> nat" where
  "compact_step i vc = (case vc of (vs, cursor) \<Rightarrow>
     if vd_amount (vs ! i) = 0 then (vs, cursor) else (if cursor \<noteq> i then vs[cursor := vs ! i] else vs, cursor + 1))"

definition vending_compact :: "merchant \<Rightarrow> merchant" where
  "vending_compact vm = (case fold compact_step [0..<mc_vend_num vm] (mc_vending vm, 0) of
     (vs, cursor) \<Rightarrow> vm\<lparr>mc_vending := vs, mc_vend_num := cursor\<rparr>)"

text \<open>An autotrader with nothing left closes the shop and leaves the game.\<close>

definition close_sold_out :: "uint32 \<Rightarrow> market \<Rightarrow> market" where
  "close_sold_out a W =
     (case mk_players W a of None \<Rightarrow> W | Some vm \<Rightarrow>
      if mc_autotrade vm \<noteq> 0 \<and> arr_find (\<lambda>v. vd_amount v > 0) (take (mc_vend_num vm) (mc_vending vm)) = mc_vend_num vm
      then (vending_closevending a W)\<lparr>mk_quit := mk_quit W @ [a]\<rparr> else W)"

definition vending_purchasereq :: "vend_env \<Rightarrow> uint32 \<Rightarrow> uint32 \<Rightarrow> uint32 \<Rightarrow> (uint16 \<times> uint16) list \<Rightarrow> market \<Rightarrow> market" where
  "vending_purchasereq E a aid uid data W =
     (case mk_players W a of None \<Rightarrow> W | Some m \<Rightarrow>
      case mk_players W aid of None \<Rightarrow> W | Some vm \<Rightarrow>
      if \<not> pl_vending (mc_sd vm) \<or> aid = a then W else
      if word_of_int (mc_vender_id vm) \<noteq> uid then W else
      if \<not> searchstore_queryremote m aid \<and> (pl_m (mc_sd m) \<noteq> pl_m (mc_sd vm) \<or> \<not> ve_near E a aid) then W else
      let m1 = searchstore_clearremote m; orders = map read_order data; W1 = put_player a m1 W in
      if length data < 1 \<or> length data > MAX_VENDING \<or> length data > mc_vend_num vm then W1 else
      case vending_check E (mc_sd m1) vm (pc_inventoryblank (mc_sd m1)) orders (mc_vending vm) 0 0 0 of
        None \<Rightarrow> W1
      | Some (js, z) \<Rightarrow>
         (let sd1 = snd (pc_payzeny z (mc_sd m1)); vm1 = set_sd (\<lambda>sd. snd (pc_getzeny (ve_after_tax E z) sd)) vm in
          case fold (vending_deliver E) (zip orders js) (sd1, vm1) of
            (sd2, vm2) \<Rightarrow> close_sold_out aid (put_player aid (vending_compact vm2) (put_player a (set_sd (\<lambda>_. sd2) m1) W1))))"

section \<open>Opening a shop\<close>

definition pc_cartitem_amount :: "holder \<Rightarrow> int \<Rightarrow> int \<Rightarrow> int" where
  "pc_cartitem_amount h idx amount =
     (let it = h_cart h ! nat idx in if it_nameid it = 0 \<or> it_amount it = 0 then -1 else it_amount it - amount)"

text \<open>Whether an item of the cart may be sold in a shop.\<close>

definition may_vend :: "vend_env \<Rightarrow> merchant \<Rightarrow> int \<Rightarrow> int \<Rightarrow> bool" where
  "may_vend E m index amount \<longleftrightarrow>
     (let it = mc_cart m ! nat index; lv = tv_group_level E (pl_id (mc_sd m)) in
      \<not> (index < 0 \<or> index \<ge> int MAX_CART \<or> pc_cartitem_amount (mc_h m) index amount < 0 \<or> it_identify it = 0 \<or>
         it_attribute it = 1 \<or> it_expire_time it \<noteq> 0 \<or> it_bound it \<noteq> 0 \<and> \<not> pc_can_give_bounded_items (mc_sd m) \<or>
         \<not> itemdb_isrestricted E it lv lv itemdb_cantrade_sub))"

text \<open>One line of the packet: index, amount and price; the state is the entries, their number and their value.\<close>

definition list_entry :: "vend_env \<Rightarrow> merchant \<Rightarrow> uint16 \<times> uint16 \<times> uint32 \<Rightarrow> s_vending list \<times> nat \<times> int \<Rightarrow> s_vending list \<times> nat \<times> int" where
  "list_entry E m line acc = (case line of (w_index, w_amount, w_value) \<Rightarrow> case acc of (vs, i, worth) \<Rightarrow>
     let index = to_int16 (to_int16 (uint w_index) - 2); amount = to_int16 (uint w_amount) in
     if \<not> may_vend E m index amount then acc else
     let value = min w_value (word_of_int (ve_vending_max_value E))
     in (vs[i := \<lparr>vd_index = index, vd_amount = amount, vd_value = value\<rparr>], i + 1, worth + uint value * amount))"

definition end_setup :: "merchant \<Rightarrow> merchant" where
  "end_setup m = m\<lparr>mc_h := (mc_h m)\<lparr>h_prevend := False\<rparr>, mc_workinprogress := 0\<rparr>"

definition vending_openvending :: "vend_env \<Rightarrow> uint32 \<Rightarrow> string \<Rightarrow> (uint16 \<times> uint16 \<times> uint32) list \<Rightarrow> market \<Rightarrow> int \<times> market" where
  "vending_openvending E a message data W =
     (case mk_players W a of None \<Rightarrow> (1, W) | Some m \<Rightarrow>
      if mc_dead_sit m = 1 \<or> \<not> h_prevend (mc_h m) \<or> pc_istrading (mc_sd m) then (1, W) else
      let lv = ve_vending_lv E a in
      if lv = 0 \<or> \<not> bv_carton E a then (2, put_player a (end_setup m) W) else
      if length data < 1 \<or> length data > MAX_VENDING \<or> int (length data) > 2 + lv then (3, put_player a (end_setup m) W) else
      case fold (list_entry E m) data (mc_vending m, 0, 0) of (vs, i, worth) \<Rightarrow>
      let m1 = m\<lparr>mc_vending := vs\<rparr> in
      if \<not> ve_vending_over_max E \<and> pl_zeny (mc_sd m) + worth > MAX_ZENY then (1, put_player a (end_setup m1) W) else
      if i \<noteq> length data then (5, put_player a (end_setup m1) W) else
      if i = 0 then (5, put_player a (end_setup m1) W) else
      let uid = mk_nextid W + 1;
          m2 = (set_sd (\<lambda>sd. sd\<lparr>pl_vending := True\<rparr>) (end_setup m1))
                 \<lparr>mc_vender_id := sint uid, mc_vend_num := i, mc_message := safestrncpy message MESSAGE_SIZE\<rparr>
      in (0, (put_player a m2 W)\<lparr>mk_nextid := uid, mk_vending_db := (mk_vending_db W)(pl_char_id (mc_sd m) \<mapsto> a)\<rparr>))"

section \<open>Searching a shop\<close>

definition vending_search :: "merchant \<Rightarrow> uint32 \<Rightarrow> bool" where
  "vending_search m nameid \<longleftrightarrow>
     (if \<not> pl_vending (mc_sd m) then False else
      arr_find (\<lambda>v. it_nameid (mc_cart m ! nat (vd_index v)) = nameid) (take (mc_vend_num m) (mc_vending m)) \<noteq> mc_vend_num m)"

text \<open>\<open>struct s_search_store_search\<close> and a result.\<close>

record store_search =
  ss_min_price :: uint32
  ss_max_price :: uint32
  ss_items :: "uint32 list"
  ss_cards :: "uint32 list"

record store_result =
  sr_store_id :: int
  sr_account_id :: uint32
  sr_store_name :: string
  sr_nameid :: uint32
  sr_amount :: uint16
  sr_price :: uint32
  sr_card :: "uint32 list"
  sr_refine :: uint8
  sr_enchantgrade :: nat

text \<open>The loop over the cards: the first wanted card, unless an empty slot comes before it.\<close>

definition has_card :: "vend_env \<Rightarrow> uint32 list \<Rightarrow> item \<Rightarrow> bool" where
  "has_card E cards it \<longleftrightarrow>
     (let n = id_slots (itemdb_search E (it_nameid it));
          c = arr_find (\<lambda>x. x = 0 \<or> x \<in> set cards) (take n (it_card it))
      in \<not> (c = n \<or> it_card it ! c = 0))"

text \<open>One wanted item; the list is the results so far, or a full one that stops the search.\<close>

fun vending_searchall :: "vend_env \<Rightarrow> nat \<Rightarrow> merchant \<Rightarrow> store_search \<Rightarrow> uint32 list \<Rightarrow> store_result list \<Rightarrow> bool \<times> store_result list" where
  "vending_searchall E maxresults m s [] found = (True, found)"
| "vending_searchall E maxresults m s (nameid # wanted) found =
     (if \<not> pl_vending (mc_sd m) then (True, found) else
      let i = arr_find (\<lambda>v. it_nameid (mc_cart m ! nat (vd_index v)) = nameid) (take (mc_vend_num m) (mc_vending m)) in
      if i = mc_vend_num m then vending_searchall E maxresults m s wanted found else
      let v = mc_vending m ! i; it = mc_cart m ! nat (vd_index v) in
      if ss_min_price s \<noteq> 0 \<and> ss_min_price s > vd_value v then vending_searchall E maxresults m s wanted found else
      if ss_max_price s \<noteq> 0 \<and> ss_max_price s < vd_value v then vending_searchall E maxresults m s wanted found else
      if ss_cards s \<noteq> [] \<and> (itemdb_isspecial (it_card it ! 0) \<or> \<not> has_card E (ss_cards s) it)
      then vending_searchall E maxresults m s wanted found else
      if length found \<ge> maxresults then (False, found) else
      vending_searchall E maxresults m s wanted (found @ [\<lparr>sr_store_id = mc_vender_id m, sr_account_id = pl_account_id (mc_sd m),
        sr_store_name = safestrncpy (mc_message m) MESSAGE_SIZE, sr_nameid = it_nameid it, sr_amount = word_of_int (vd_amount v),
        sr_price = vd_value v, sr_card = it_card it, sr_refine = word_of_int (it_refine it), sr_enchantgrade = it_enchantgrade it\<rparr>]))"

section \<open>The packets\<close>

datatype vend_message =
    Vend_close
  | Vend_list uint32
  | Vend_buy uint32 "(uint16 \<times> uint16) list"
  | Vend_buy2 uint32 uint32 "(uint16 \<times> uint16) list"
  | Vend_open bool string "(uint16 \<times> uint16 \<times> uint32) list"

definition close_window :: "uint32 \<Rightarrow> market \<Rightarrow> market" where
  "close_window a W = (case mk_players W a of None \<Rightarrow> W | Some m \<Rightarrow> put_player a (m\<lparr>mc_vended_id := 0\<rparr>) W)"

definition clif_parse_VendingListReq :: "uint32 \<Rightarrow> uint32 \<Rightarrow> market \<Rightarrow> market" where
  "clif_parse_VendingListReq a vid W =
     (case mk_players W a of None \<Rightarrow> W | Some m \<Rightarrow>
      if pl_npc_id (mc_sd m) \<noteq> 0 then W else vending_vendinglistreq a vid W)"

definition clif_parse_PurchaseReq :: "vend_env \<Rightarrow> uint32 \<Rightarrow> uint32 \<Rightarrow> (uint16 \<times> uint16) list \<Rightarrow> market \<Rightarrow> market" where
  "clif_parse_PurchaseReq E a aid data W =
     (case mk_players W a of None \<Rightarrow> W | Some m \<Rightarrow>
      close_window a (vending_purchasereq E a aid (word_of_int (mc_vended_id m)) data W))"

definition clif_parse_PurchaseReq2 :: "vend_env \<Rightarrow> uint32 \<Rightarrow> uint32 \<Rightarrow> uint32 \<Rightarrow> (uint16 \<times> uint16) list \<Rightarrow> market \<Rightarrow> market" where
  "clif_parse_PurchaseReq2 E a aid uid data W = close_window a (vending_purchasereq E a aid uid data W)"

text \<open>Whether the map, the cell or a ban on chatting forbids a shop is an argument.\<close>

definition clif_parse_OpenVending :: "vend_env \<Rightarrow> (uint32 \<Rightarrow> bool) \<Rightarrow> uint32 \<Rightarrow> bool \<Rightarrow> string \<Rightarrow> (uint16 \<times> uint16 \<times> uint32) list \<Rightarrow> market \<Rightarrow> market" where
  "clif_parse_OpenVending E forbidden a flag message data W =
     (case mk_players W a of None \<Rightarrow> W | Some m \<Rightarrow>
      let W1 = (if flag then W else put_player a (end_setup m) W) in
      if forbidden a then W1 else
      if message = [] \<or> hd message = NUL then W1 else snd (vending_openvending E a message data W1))"

definition vend_handle :: "vend_env \<Rightarrow> (uint32 \<Rightarrow> bool) \<Rightarrow> uint32 \<times> vend_message \<Rightarrow> market \<Rightarrow> market" where
  "vend_handle E forbidden am W = (case am of (a, msg) \<Rightarrow>
     (case msg of
        Vend_close \<Rightarrow> vending_closevending a W
      | Vend_list vid \<Rightarrow> clif_parse_VendingListReq a vid W
      | Vend_buy aid data \<Rightarrow> clif_parse_PurchaseReq E a aid data W
      | Vend_buy2 aid uid data \<Rightarrow> clif_parse_PurchaseReq2 E a aid uid data W
      | Vend_open flag message data \<Rightarrow> clif_parse_OpenVending E forbidden a flag message data W))"

end
