(* ===== verification/Buyingstore.thy ===== *)
theory Buyingstore
  imports Vending
begin

text \<open>
  Buying stores (\<open>src/src/map/buyingstore.cpp\<close>): a player lists items to buy, a price for each and a limit of
  zeny, and other players sell to the list. Sums of zeny are 32-bit numbers in the code and are cut to their
  width here, as the machine does. The tables that mirror open stores in the database, the restoring of
  stores from them, packets and log lines are left out.
\<close>

section \<open>Stores\<close>

definition to_int32 :: "int \<Rightarrow> int" where
  "to_int32 i = sint (word_of_int i :: 32 word)"

definition MAX_BUYINGSTORE_SLOTS :: nat where "MAX_BUYINGSTORE_SLOTS = 5"
definition BUYINGSTORE_MAX_PRICE :: int where "BUYINGSTORE_MAX_PRICE = 99990000"
definition BUYINGSTORE_MAX_AMOUNT :: int where "BUYINGSTORE_MAX_AMOUNT = 9999"

record s_buyingstore_item =
  bs_price :: int
  bs_amount :: uint16
  bs_nameid :: uint32

definition zero_entry :: s_buyingstore_item where
  "zero_entry = \<lparr>bs_price = 0, bs_amount = 0, bs_nameid = 0\<rparr>"

text \<open>A player as buyer and seller: what the shops use of a player, \<open>buyer_id\<close> and \<open>struct s_buyingstore\<close>.\<close>

record patron =
  pt_mc :: merchant
  pt_buyer_id :: uint32
  pt_items :: "s_buyingstore_item list"
  pt_zenylimit :: int
  pt_slots :: nat

abbreviation pt_sd :: "patron \<Rightarrow> player" where "pt_sd p \<equiv> mc_sd (pt_mc p)"

text \<open>The players \<open>map_id2sd\<close> finds, the counter of store numbers, \<open>buyingstore_db\<close> from character to
  player, and the calls of \<open>map_quit\<close>.\<close>

record plaza =
  pz_players :: "uint32 \<Rightarrow> patron option"
  pz_nextid :: uint32
  pz_db :: "uint32 \<Rightarrow> uint32 option"
  pz_quit :: "uint32 list"

text \<open>The environment: the configuration switch, whether a player is muted, the map and the cell that forbid
  buying stores, the items that may be bought, and the configured limit of weight.\<close>

record bs_env = vend_env +
  be_feature :: bool
  be_muted :: "uint32 \<Rightarrow> bool"
  be_nomap :: "int \<Rightarrow> bool"
  be_nocell :: "uint32 \<Rightarrow> bool"
  be_buyable :: "uint32 \<Rightarrow> bool"
  be_major_overweight :: int

definition put_patron :: "uint32 \<Rightarrow> patron \<Rightarrow> plaza \<Rightarrow> plaza" where
  "put_patron a p W = W\<lparr>pz_players := (pz_players W)(a := Some p)\<rparr>"

definition on_sd :: "(player \<Rightarrow> player) \<Rightarrow> patron \<Rightarrow> patron" where
  "on_sd f p = p\<lparr>pt_mc := set_sd f (pt_mc p)\<rparr>"

definition buyingstore_getuid :: "plaza \<Rightarrow> uint32 \<times> plaza" where
  "buyingstore_getuid W = (pz_nextid W + 1, W\<lparr>pz_nextid := pz_nextid W + 1\<rparr>)"

text \<open>The entry of the list that buys an item; the number of entries if none does.\<close>

definition bs_entry :: "patron \<Rightarrow> uint32 \<Rightarrow> nat" where
  "bs_entry p nameid = arr_find (\<lambda>b. bs_nameid b = nameid) (take (pt_slots p) (pt_items p))"

section \<open>Opening and closing\<close>

definition buyingstore_setup :: "bs_env \<Rightarrow> uint32 \<Rightarrow> uint8 \<Rightarrow> plaza \<Rightarrow> int \<times> plaza" where
  "buyingstore_setup E a slots W =
     (case pz_players W a of None \<Rightarrow> (1, W) | Some p \<Rightarrow>
      if \<not> be_feature E \<or> pl_vending (pt_sd p) \<or> pl_buyingstore (pt_sd p) \<or> pl_trading (pt_sd p) \<or> slots = 0 then (1, W) else
      if be_muted E a then (2, W) else
      if be_nomap E (pl_m (pt_sd p)) then (3, W) else
      if be_nocell E a then (4, W) else
      (0, put_patron a (p\<lparr>pt_slots := min (unat slots) MAX_BUYINGSTORE_SLOTS\<rparr>) W))"

text \<open>
  The loop over the list of the packet (item, amount, price), which fills the entries as it goes: the number of
  lines it accepted, the weight so far, the entries.
\<close>

fun create_list :: "bs_env \<Rightarrow> player \<Rightarrow> (uint32 \<times> uint16 \<times> uint32) list \<Rightarrow> nat \<Rightarrow> uint32 \<Rightarrow>
    s_buyingstore_item list \<Rightarrow> nat \<times> uint32 \<times> s_buyingstore_item list" where
  "create_list E sd [] i w items = (i, w, items)"
| "create_list E sd ((nameid, amount, price) # lines) i w items =
     (case ev_item E nameid of None \<Rightarrow> (i, w, items) | Some d \<Rightarrow>
      if amount = 0 then (i, w, items) else
      if price \<le> 0 \<or> uint price > BUYINGSTORE_MAX_PRICE then (i, w, items) else
      let lv = tv_group_level E (pl_id sd) in
      if \<not> be_buyable E nameid \<or> \<not> itemdb_cantrade_sub d lv lv then (i, w, items) else
      (case pc_search_inventory nameid sd of None \<Rightarrow> (i, w, items) | Some idx \<Rightarrow>
       if it_amount (slot sd idx) + uint amount > BUYINGSTORE_MAX_AMOUNT then (i, w, items) else
       if i \<noteq> 0 \<and> arr_find (\<lambda>b. bs_nameid b = nameid) (take i items) \<noteq> i then (i, w, items) else
       create_list E sd lines (i + 1) (w + id_weight d * ucast amount)
         (items[i := \<lparr>bs_price = to_int32 (uint price), bs_amount = amount, bs_nameid = nameid\<rparr>])))"

text \<open>\<open>pc_getpercentweight\<close>, in 32-bit arithmetic and cut to 16 bits.\<close>

definition pc_getpercentweight :: "player \<Rightarrow> uint32 \<Rightarrow> uint16" where
  "pc_getpercentweight sd weight =
     (let w = (if weight = 0 then pl_weight sd else weight) in ucast (w * 100 div max (pl_max_weight sd) 1))"

definition buyingstore_create :: "bs_env \<Rightarrow> uint32 \<Rightarrow> int \<Rightarrow> uint8 \<Rightarrow> string \<Rightarrow> (uint32 \<times> uint16 \<times> uint32) list \<Rightarrow>
    plaza \<Rightarrow> int \<times> plaza" where
  "buyingstore_create E a zenylimit result storename itemlist W =
     (case pz_players W a of None \<Rightarrow> (1, W) | Some p \<Rightarrow>
      if result = 0 \<or> length itemlist = 0 then (5, W) else
      if \<not> be_feature E \<or> pc_istrading (pt_sd p) \<or> pt_slots p = 0 \<or> length itemlist > pt_slots p \<or> zenylimit \<le> 0 \<or>
         zenylimit > pl_zeny (pt_sd p) \<or> storename = [] \<or> hd storename = NUL
      then (1, put_patron a (p\<lparr>pt_slots := 0\<rparr>) W) else
      if \<not> pc_can_give_items (pt_sd p) then (6, put_patron a (p\<lparr>pt_slots := 0\<rparr>) W) else
      if be_muted E a then (2, W) else
      if be_nomap E (pl_m (pt_sd p)) then (3, W) else
      if be_nocell E a then (4, W) else
      case create_list E (pt_sd p) itemlist 0 (pl_weight (pt_sd p)) (pt_items p) of (i, weight, items) \<Rightarrow>
      let p1 = p\<lparr>pt_items := items\<rparr> in
      if i \<noteq> length itemlist then (5, put_patron a (p1\<lparr>pt_slots := 0\<rparr>) W) else
      if uint (pc_getpercentweight (pt_sd p) weight) \<ge> be_major_overweight E then (7, put_patron a (p1\<lparr>pt_slots := 0\<rparr>) W) else
      case buyingstore_getuid W of (uid, W1) \<Rightarrow>
      let p2 = (on_sd (\<lambda>sd. sd\<lparr>pl_buyingstore := True\<rparr>) p1)\<lparr>pt_buyer_id := uid, pt_zenylimit := zenylimit, pt_slots := i\<rparr>;
          p3 = p2\<lparr>pt_mc := (pt_mc p2)\<lparr>mc_message := safestrncpy storename MESSAGE_SIZE\<rparr>\<rparr>
      in (0, (put_patron a p3 W1)\<lparr>pz_db := (pz_db W)(pl_char_id (pt_sd p) \<mapsto> a)\<rparr>))"

definition closed_store :: "patron \<Rightarrow> patron" where
  "closed_store p = (on_sd (\<lambda>sd. sd\<lparr>pl_buyingstore := False\<rparr>) p)
     \<lparr>pt_buyer_id := 0, pt_items := replicate MAX_BUYINGSTORE_SLOTS zero_entry, pt_zenylimit := 0, pt_slots := 0\<rparr>"

definition buyingstore_close :: "uint32 \<Rightarrow> plaza \<Rightarrow> plaza" where
  "buyingstore_close a W =
     (case pz_players W a of None \<Rightarrow> W | Some p \<Rightarrow>
      if pl_buyingstore (pt_sd p) then
        (put_patron a (closed_store p) W)\<lparr>pz_db := (pz_db W)(pl_char_id (pt_sd p) := None)\<rparr>
      else W)"

text \<open>Whether the player \<open>a\<close> is shown the list of the player \<open>b\<close>; nothing else happens.\<close>

definition buyingstore_open :: "bs_env \<Rightarrow> uint32 \<Rightarrow> uint32 \<Rightarrow> plaza \<Rightarrow> bool" where
  "buyingstore_open E a b W =
     (case pz_players W a of None \<Rightarrow> False | Some p \<Rightarrow>
      if \<not> be_feature E \<or> pc_istrading (pt_sd p) then False else
      if \<not> pc_can_give_items (pt_sd p) then False else
      case pz_players W b of None \<Rightarrow> False | Some q \<Rightarrow>
      if \<not> pl_buyingstore (pt_sd q) then False else
      if \<not> searchstore_queryremote (pt_mc p) b \<and> (pl_m (pt_sd p) \<noteq> pl_m (pt_sd q) \<or> \<not> ve_near E a b) then False else True)"

section \<open>Selling to a store\<close>

text \<open>A line of the packet: index as the client counts, item, amount.\<close>

type_synonym sale = "int \<times> uint32 \<times> int"

definition read_sale :: "uint16 \<times> uint32 \<times> uint16 \<Rightarrow> sale" where
  "read_sale line = (case line of (index, nameid, amount) \<Rightarrow> (to_int16 (uint index), nameid, uint amount))"

text \<open>Whether the item at a position of the seller's inventory may be sold to a store.\<close>

definition may_sell :: "bs_env \<Rightarrow> player \<Rightarrow> player \<Rightarrow> item \<Rightarrow> bool" where
  "may_sell E sd pl_sd it \<longleftrightarrow>
     \<not> (it_expire_time it \<noteq> 0 \<or> it_bound it \<noteq> 0 \<and> \<not> pc_can_give_bounded_items sd \<or>
        \<not> itemdb_isrestricted E it (tv_group_level E (pl_id sd)) (tv_group_level E (pl_id pl_sd)) itemdb_cantrade_sub \<or>
        it_card it \<noteq> replicate 4 0)"

text \<open>
  The checks, line by line: the list of indices seen, the buyer's weight and the zeny so far. The entries'
  amounts and the buyer's inventory are those before the sale for every line.
\<close>

fun trade_check_list :: "bs_env \<Rightarrow> player \<Rightarrow> patron \<Rightarrow> int list \<Rightarrow> sale list \<Rightarrow> uint32 \<Rightarrow> int \<Rightarrow> bool" where
  "trade_check_list E sd q seen [] weight zeny = True"
| "trade_check_list E sd q seen ((index, nameid, amount) # sales) weight zeny =
     (if index \<in> set seen then False else
      let i = index - 2 in
      if i < 0 \<or> i \<ge> int MAX_INVENTORY then False else
      (case pl_inventory_data sd ! nat i of None \<Rightarrow> False | Some d \<Rightarrow>
       let it = slot sd (nat i) in
       if it_nameid it \<noteq> nameid \<or> it_amount it < amount then False else
       if \<not> may_sell E sd (pt_sd q) it then False else
       let l = bs_entry q nameid; e = pt_items q ! l in
       if l = pt_slots q \<or> bs_amount e = 0 then False else
       if uint (bs_amount e) < amount then False else
       if pc_checkadditem E nameid amount (pt_sd q) = CHKADDITEM_OVERAMOUNT then False else
       if word_of_int amount * id_weight d > pl_max_weight (pt_sd q) - weight then False else
       if to_int32 (amount * bs_price e) > to_int32 (pt_zenylimit q - zeny) then False else
       trade_check_list E sd q (index # seen) sales (weight + word_of_int amount * id_weight d)
         (to_int32 (zeny + to_int32 (amount * bs_price e)))))"

text \<open>Handing over one line: the results of \<open>pc_additem\<close>, \<open>pc_payzeny\<close> and \<open>pc_getzeny\<close> are not looked at.\<close>

definition trade_deliver :: "bs_env \<Rightarrow> sale \<Rightarrow> player \<times> patron \<Rightarrow> player \<times> patron" where
  "trade_deliver E line sq = (case line of (index, nameid, amount) \<Rightarrow> case sq of (sd, q) \<Rightarrow>
     let l = bs_entry q nameid; e = pt_items q ! l; zeny = to_int32 (amount * bs_price e); i = nat (index - 2) in
     case pc_additem E (slot sd i) amount False (pt_sd q) of (_, pl_sd, it') \<Rightarrow>
     let sd1 = snd (pc_delitem E (index - 2) amount (set_slot i (\<lambda>_. it') sd));
         q1 = q\<lparr>pt_items := (pt_items q)[l := e\<lparr>bs_amount := bs_amount e - word_of_int amount\<rparr>]\<rparr>
     in (snd (pc_getzeny zeny sd1),
         (on_sd (\<lambda>_. snd (pc_payzeny zeny pl_sd)) q1)\<lparr>pt_zenylimit := to_int32 (pt_zenylimit q - zeny)\<rparr>))"

text \<open>A store that wants nothing more, or has spent its limit, is closed; an autotrader leaves the game.\<close>

definition close_satisfied :: "uint32 \<Rightarrow> plaza \<Rightarrow> plaza" where
  "close_satisfied b W =
     (case pz_players W b of None \<Rightarrow> W | Some q \<Rightarrow>
      if arr_find (\<lambda>e. bs_amount e \<noteq> 0) (take (pt_slots q) (pt_items q)) = pt_slots q \<or> pt_zenylimit q = 0 then
        (let W1 = buyingstore_close b W in
         if mc_autotrade (pt_mc q) \<noteq> 0 then W1\<lparr>pz_quit := pz_quit W1 @ [b]\<rparr> else W1)
      else W)"

definition clear_remote :: "patron \<Rightarrow> patron" where
  "clear_remote p = p\<lparr>pt_mc := searchstore_clearremote (pt_mc p)\<rparr>"

text \<open>The limit never exceeds what the buyer has left.\<close>

definition fix_limit :: "patron \<Rightarrow> patron" where
  "fix_limit q = (if pl_zeny (pt_sd q) < pt_zenylimit q then q\<lparr>pt_zenylimit := pl_zeny (pt_sd q)\<rparr> else q)"

definition buyingstore_trade :: "bs_env \<Rightarrow> uint32 \<Rightarrow> uint32 \<Rightarrow> uint32 \<Rightarrow> (uint16 \<times> uint32 \<times> uint16) list \<Rightarrow> plaza \<Rightarrow> plaza" where
  "buyingstore_trade E a b buyer_id itemlist W =
     (case pz_players W a of None \<Rightarrow> W | Some p \<Rightarrow>
      if length itemlist = 0 then W else
      if \<not> be_feature E \<or> pc_istrading (pt_sd p) then W else
      if \<not> pc_can_give_items (pt_sd p) then W else
      case pz_players W b of None \<Rightarrow> W | Some q \<Rightarrow>
      if \<not> pl_buyingstore (pt_sd q) \<or> pt_buyer_id q \<noteq> buyer_id then W else
      if \<not> searchstore_queryremote (pt_mc p) b \<and> (pl_m (pt_sd p) \<noteq> pl_m (pt_sd q) \<or> \<not> ve_near E a b) then W else
      let p1 = clear_remote p; q1 = fix_limit q; W1 = put_patron b q1 (put_patron a p1 W); sales = map read_sale itemlist in
      if \<not> trade_check_list E (pt_sd p1) q1 [] sales (pl_weight (pt_sd q1)) 0 then W1 else
      case fold (trade_deliver E) sales (pt_sd p1, q1) of (sd, q2) \<Rightarrow>
      close_satisfied b (put_patron b q2 (put_patron a (on_sd (\<lambda>_. sd) p1) W1)))"

section \<open>Searching a store\<close>

definition buyingstore_search :: "patron \<Rightarrow> uint32 \<Rightarrow> bool" where
  "buyingstore_search p nameid \<longleftrightarrow>
     (if \<not> pl_buyingstore (pt_sd p) then False else
      arr_find (\<lambda>b. bs_nameid b = nameid \<and> bs_amount b \<noteq> 0) (take (pt_slots p) (pt_items p)) \<noteq> pt_slots p)"

fun buyingstore_searchall :: "nat \<Rightarrow> patron \<Rightarrow> store_search \<Rightarrow> uint32 list \<Rightarrow> store_result list \<Rightarrow> bool \<times> store_result list" where
  "buyingstore_searchall maxresults p s [] found = (True, found)"
| "buyingstore_searchall maxresults p s (nameid # wanted) found =
     (if \<not> pl_buyingstore (pt_sd p) then (True, found) else
      let i = arr_find (\<lambda>b. bs_nameid b = nameid \<and> bs_amount b \<noteq> 0) (take (pt_slots p) (pt_items p)) in
      if i = pt_slots p then buyingstore_searchall maxresults p s wanted found else
      let b = pt_items p ! i; price = (word_of_int (bs_price b) :: uint32) in
      if ss_min_price s \<noteq> 0 \<and> ss_min_price s > price then buyingstore_searchall maxresults p s wanted found else
      if ss_max_price s \<noteq> 0 \<and> ss_max_price s < price then buyingstore_searchall maxresults p s wanted found else
      if length found \<ge> maxresults then (False, found) else
      buyingstore_searchall maxresults p s wanted (found @ [\<lparr>sr_store_id = sint (pt_buyer_id p),
        sr_account_id = pl_account_id (pt_sd p), sr_store_name = safestrncpy (mc_message (pt_mc p)) MESSAGE_SIZE,
        sr_nameid = bs_nameid b, sr_amount = bs_amount b, sr_price = price, sr_card = replicate 4 0, sr_refine = 0,
        sr_enchantgrade = 0\<rparr>]))"

section \<open>The packets\<close>

datatype bs_message =
    Bs_setup uint8
  | Bs_create uint32 uint8 string "(uint32 \<times> uint16 \<times> uint32) list"
  | Bs_close
  | Bs_trade uint32 uint32 "(uint16 \<times> uint32 \<times> uint16) list"

definition clif_parse_ReqOpenBuyingStore :: "bs_env \<Rightarrow> uint32 \<Rightarrow> uint32 \<Rightarrow> uint8 \<Rightarrow> string \<Rightarrow>
    (uint32 \<times> uint16 \<times> uint32) list \<Rightarrow> plaza \<Rightarrow> plaza" where
  "clif_parse_ReqOpenBuyingStore E a zenylimit result storename items W =
     (case pz_players W a of None \<Rightarrow> W | Some p \<Rightarrow>
      if be_nomap E (pl_m (pt_sd p)) then W else
      if be_nocell E a then W else
      snd (buyingstore_create E a (sint zenylimit) result (safestrncpy storename MESSAGE_SIZE) items W))"

text \<open>The skill \<open>ALL_BUYING_STORE\<close> and items call \<open>buyingstore_setup\<close>; the other messages are packets.\<close>

definition bs_handle :: "bs_env \<Rightarrow> uint32 \<times> bs_message \<Rightarrow> plaza \<Rightarrow> plaza" where
  "bs_handle E am W = (case am of (a, msg) \<Rightarrow>
     (case msg of
        Bs_setup slots \<Rightarrow> snd (buyingstore_setup E a slots W)
      | Bs_create zenylimit result storename items \<Rightarrow> clif_parse_ReqOpenBuyingStore E a zenylimit result storename items W
      | Bs_close \<Rightarrow> buyingstore_close a W
      | Bs_trade b buyer_id items \<Rightarrow> buyingstore_trade E a b buyer_id items W))"

end
