(* ===== verification/Searchstore.thy ===== *)
theory Searchstore
  imports Buyingstore
begin

text \<open>
  Searching the stores of all players (\<open>src/src/map/searchstore.cpp\<close>): a player with the search window open asks
  for items, looks at the results page by page, and clicks on a result, which shows where the store is or
  opens it from afar. The functions for the two kinds of stores are those of \<open>Vending\<close> and \<open>Buyingstore\<close>.
\<close>

section \<open>The state\<close>

definition SEARCHSTORE_RESULTS_PER_PAGE :: nat where "SEARCHSTORE_RESULTS_PER_PAGE = 10"

datatype e_searchstore_failure =
    SSI_FAILED_NOTHING_SEARCH_ITEM | SSI_FAILED_OVER_MAXCOUNT | SSI_FAILED_SEARCH_CNT | SSI_FAILED_LIMIT_SEARCH_TIME
  | SSI_FAILED_SSILIST_CLICK_TO_OPEN_STORE

datatype e_searchstore_searchtype = SEARCHTYPE_VENDING | SEARCHTYPE_BUYING_STORE

datatype e_searchstore_effecttype = SEARCHSTORE_EFFECT_NORMAL | SEARCHSTORE_EFFECT_REMOTE | SEARCHSTORE_EFFECT_MAX

text \<open>
  A player and \<open>struct s_search_store_info\<close>. Its fields \<open>open\<close> and \<open>remote_id\<close> are those of the merchant,
  and the merchant's number of results is the length of the list here: \<open>set_results\<close> changes both.
\<close>

record seeker =
  sk_pt :: patron
  sk_results :: "store_result list"
  sk_pages :: nat
  sk_uses :: uint16
  sk_nextquerytime :: int
  sk_effect :: e_searchstore_effecttype
  sk_type :: e_searchstore_searchtype
  sk_mapid :: int

abbreviation sk_mc :: "seeker \<Rightarrow> merchant" where "sk_mc k \<equiv> pt_mc (sk_pt k)"
abbreviation sk_sd :: "seeker \<Rightarrow> player" where "sk_sd k \<equiv> mc_sd (sk_mc k)"

type_synonym hall = "uint32 \<Rightarrow> seeker option"

record ss_env = bs_env +
  se_feature :: bool
  se_querydelay :: int
  se_maxresults :: nat
  se_position :: "uint32 \<Rightarrow> int \<times> int"

text \<open>What the player's client is told.\<close>

datatype ss_reply =
    Ss_failed e_searchstore_failure
  | Ss_page (first_page: bool) (next_page: bool) (uses_left: uint16) (shown: "store_result list")
  | Ss_where int int
  | Ss_window e_searchstore_effecttype uint16
  | Ss_buying_list uint32

definition on_mc :: "(merchant \<Rightarrow> merchant) \<Rightarrow> seeker \<Rightarrow> seeker" where
  "on_mc f k = k\<lparr>sk_pt := (sk_pt k)\<lparr>pt_mc := f (sk_mc k)\<rparr>\<rparr>"

definition set_results :: "store_result list \<Rightarrow> seeker \<Rightarrow> seeker" where
  "set_results rs k = on_mc (\<lambda>m. m\<lparr>mc_search_items := length rs\<rparr>) (k\<lparr>sk_results := rs\<rparr>)"

section \<open>The two kinds of stores\<close>

definition searchstore_getsearchfunc :: "e_searchstore_searchtype \<Rightarrow> seeker \<Rightarrow> uint32 \<Rightarrow> bool" where
  "searchstore_getsearchfunc t k nameid = (case t of
     SEARCHTYPE_VENDING \<Rightarrow> vending_search (sk_mc k) nameid
   | SEARCHTYPE_BUYING_STORE \<Rightarrow> buyingstore_search (sk_pt k) nameid)"

definition searchstore_getsearchallfunc ::
    "ss_env \<Rightarrow> e_searchstore_searchtype \<Rightarrow> seeker \<Rightarrow> store_search \<Rightarrow> store_result list \<Rightarrow> bool \<times> store_result list" where
  "searchstore_getsearchallfunc E t k s found = (case t of
     SEARCHTYPE_VENDING \<Rightarrow> vending_searchall (vend_env.truncate E) (se_maxresults E) (sk_mc k) s (ss_items s) found
   | SEARCHTYPE_BUYING_STORE \<Rightarrow> buyingstore_searchall (se_maxresults E) (sk_pt k) s (ss_items s) found)"

definition searchstore_hasstore :: "e_searchstore_searchtype \<Rightarrow> seeker \<Rightarrow> bool" where
  "searchstore_hasstore t k = (case t of
     SEARCHTYPE_VENDING \<Rightarrow> pl_vending (sk_sd k)
   | SEARCHTYPE_BUYING_STORE \<Rightarrow> pl_buyingstore (sk_sd k))"

definition searchstore_getstoreid :: "e_searchstore_searchtype \<Rightarrow> seeker \<Rightarrow> int" where
  "searchstore_getstoreid t k = (case t of
     SEARCHTYPE_VENDING \<Rightarrow> mc_vender_id (sk_mc k)
   | SEARCHTYPE_BUYING_STORE \<Rightarrow> sint (pt_buyer_id (sk_pt k)))"

section \<open>Opening, paging, closing\<close>

definition searchstore_open :: "ss_env \<Rightarrow> uint16 \<Rightarrow> e_searchstore_effecttype \<Rightarrow> int \<Rightarrow> seeker \<Rightarrow> bool \<times> ss_reply list \<times> seeker" where
  "searchstore_open E uses effect mapid k =
     (if mc_search_open (sk_mc k) then (False, [], k) else
      (True, if se_feature E then [Ss_window effect (min uses 255)] else [],
       (on_mc (\<lambda>m. m\<lparr>mc_search_open := True\<rparr>) k)\<lparr>sk_uses := uses, sk_effect := effect, sk_mapid := mapid\<rparr>))"

definition searchstore_querynext :: "seeker \<Rightarrow> bool" where
  "searchstore_querynext k \<longleftrightarrow> sk_results k \<noteq> [] \<and> (length (sk_results k) - 1) div SEARCHSTORE_RESULTS_PER_PAGE > sk_pages k"

text \<open>One page: the results from ten times the number of pages shown before.\<close>

definition clif_search_store_info_ack :: "ss_env \<Rightarrow> seeker \<Rightarrow> ss_reply list" where
  "clif_search_store_info_ack E k =
     (if \<not> se_feature E then [] else
      [Ss_page (sk_pages k = 0) (searchstore_querynext k) (min (sk_uses k) 255)
        (take SEARCHSTORE_RESULTS_PER_PAGE (drop (sk_pages k * SEARCHSTORE_RESULTS_PER_PAGE) (sk_results k)))])"

text \<open>Why a request was refused, and where a store is.\<close>

definition clif_search_store_info_failed :: "ss_env \<Rightarrow> e_searchstore_failure \<Rightarrow> ss_reply list" where
  "clif_search_store_info_failed E reason = (if \<not> se_feature E then [] else [Ss_failed reason])"

definition clif_search_store_info_click_ack :: "ss_env \<Rightarrow> int \<Rightarrow> int \<Rightarrow> ss_reply list" where
  "clif_search_store_info_click_ack E x y = (if \<not> se_feature E then [] else [Ss_where x y])"

definition searchstore_next :: "ss_env \<Rightarrow> seeker \<Rightarrow> ss_reply list \<times> seeker" where
  "searchstore_next E k =
     (if \<not> mc_search_open (sk_mc k) \<or> length (sk_results k) \<le> sk_pages k * SEARCHSTORE_RESULTS_PER_PAGE then ([], k) else
      (clif_search_store_info_ack E k, k\<lparr>sk_pages := sk_pages k + 1\<rparr>))"

definition searchstore_clear :: "seeker \<Rightarrow> seeker" where
  "searchstore_clear k = (set_results [] (on_mc searchstore_clearremote k))\<lparr>sk_pages := 0\<rparr>"

definition searchstore_close :: "seeker \<Rightarrow> seeker" where
  "searchstore_close k =
     (if mc_search_open (sk_mc k) then (on_mc (\<lambda>m. m\<lparr>mc_search_open := False\<rparr>) (searchstore_clear k))\<lparr>sk_uses := 0\<rparr> else k)"

section \<open>The search\<close>

text \<open>The loop over the stores; \<open>skip\<close> are those the search leaves out.\<close>

fun search_shops :: "('s \<Rightarrow> store_result list \<Rightarrow> bool \<times> store_result list) \<Rightarrow> ('s \<Rightarrow> bool) \<Rightarrow> 's list \<Rightarrow> store_result list \<Rightarrow>
    bool \<times> store_result list" where
  "search_shops searchall skip [] found = (True, found)"
| "search_shops searchall skip (x # xs) found =
     (if skip x then search_shops searchall skip xs found else
      case searchall x found of (complete, found') \<Rightarrow> if complete then search_shops searchall skip xs found' else (False, found'))"

text \<open>The stores are given as the iterator over \<open>vending_db\<close> or \<open>buyingstore_db\<close> delivers them.\<close>

definition searchstore_query :: "ss_env \<Rightarrow> (e_searchstore_searchtype \<Rightarrow> uint32 list) \<Rightarrow> int \<Rightarrow> uint32 \<Rightarrow> e_searchstore_searchtype \<Rightarrow>
    uint32 \<Rightarrow> uint32 \<Rightarrow> uint32 list \<Rightarrow> uint32 list \<Rightarrow> hall \<Rightarrow> ss_reply list \<times> hall" where
  "searchstore_query E shops now a type min_price max_price itemlist cardlist H =
     (case H a of None \<Rightarrow> ([], H) | Some k \<Rightarrow>
      if \<not> mc_search_open (sk_mc k) then ([], H) else
      if sk_nextquerytime k > now then (clif_search_store_info_failed E SSI_FAILED_LIMIT_SEARCH_TIME, H) else
      if sk_uses k = 0 then (clif_search_store_info_failed E SSI_FAILED_SEARCH_CNT, H) else
      let k1 = searchstore_clear (k\<lparr>sk_uses := sk_uses k - 1, sk_type := type, sk_nextquerytime := now + se_querydelay E\<rparr>) in
      if list_ex (\<lambda>i. ev_item E i = None) itemlist \<or> list_ex (\<lambda>i. ev_item E i = None) cardlist
      then (clif_search_store_info_failed E SSI_FAILED_NOTHING_SEARCH_ITEM @ clif_search_store_info_ack E k1, H(a := Some k1)) else
      let s = \<lparr>ss_min_price = min min_price max_price, ss_max_price = max min_price max_price, ss_items = itemlist, ss_cards = cardlist\<rparr>;
          H1 = H(a := Some k1);
          skip = (\<lambda>b. b = a \<or> H1 b = None \<or> sk_mapid k1 \<noteq> 0 \<and> pl_m (sk_sd (the (H1 b))) \<noteq> sk_mapid k1)
      in case search_shops (\<lambda>b. searchstore_getsearchallfunc E type (the (H1 b)) s) skip (shops type) [] of (complete, found) \<Rightarrow>
         let k2 = set_results found k1; over = (if complete then [] else clif_search_store_info_failed E SSI_FAILED_OVER_MAXCOUNT) in
         if found \<noteq> [] then (over @ clif_search_store_info_ack E k2, H(a := Some (k2\<lparr>sk_pages := sk_pages k2 + 1\<rparr>)))
         else let k3 = searchstore_clear k2 in
           (over @ clif_search_store_info_failed E SSI_FAILED_NOTHING_SEARCH_ITEM @ clif_search_store_info_ack E k3, H(a := Some k3)))"

section \<open>Clicking a result\<close>

text \<open>The players as the shops and the buying stores see them.\<close>

definition market_of :: "hall \<Rightarrow> market" where
  "market_of H = \<lparr>mk_players = (\<lambda>a. map_option sk_mc (H a)), mk_nextid = 0, mk_vending_db = Map.empty, mk_quit = []\<rparr>"

definition plaza_of :: "hall \<Rightarrow> plaza" where
  "plaza_of H = \<lparr>pz_players = (\<lambda>a. map_option sk_pt (H a)), pz_nextid = 0, pz_db = Map.empty, pz_quit = []\<rparr>"

definition with_market :: "market \<Rightarrow> hall \<Rightarrow> hall" where
  "with_market W H = (\<lambda>a. case H a of None \<Rightarrow> None | Some k \<Rightarrow>
     (case mk_players W a of None \<Rightarrow> None | Some m \<Rightarrow> Some (on_mc (\<lambda>_. m) k)))"

definition searchstore_click :: "ss_env \<Rightarrow> uint32 \<Rightarrow> uint32 \<Rightarrow> int \<Rightarrow> uint32 \<Rightarrow> hall \<Rightarrow> ss_reply list \<times> hall" where
  "searchstore_click E a account_id store_id nameid H =
     (case H a of None \<Rightarrow> ([], H) | Some k \<Rightarrow>
      if \<not> mc_search_open (sk_mc k) \<or> sk_results k = [] then ([], H) else
      let k1 = on_mc searchstore_clearremote k; H1 = H(a := Some k1); failed = (clif_search_store_info_failed E SSI_FAILED_SSILIST_CLICK_TO_OPEN_STORE, H1) in
      if arr_find (\<lambda>r. sr_store_id r = store_id \<and> sr_account_id r = account_id \<and> sr_nameid r = nameid) (sk_results k1) = length (sk_results k1)
      then failed else
      (case H1 account_id of None \<Rightarrow> failed | Some pl \<Rightarrow>
       if \<not> searchstore_hasstore (sk_type k1) pl \<or> searchstore_getstoreid (sk_type k1) pl \<noteq> store_id then failed else
       if \<not> searchstore_getsearchfunc (sk_type k1) pl nameid then failed else
       (case sk_effect k1 of
          SEARCHSTORE_EFFECT_NORMAL \<Rightarrow>
            (if pl_m (sk_sd k1) \<noteq> pl_m (sk_sd pl) then clif_search_store_info_click_ack E (- 1) (- 1)
             else case_prod (clif_search_store_info_click_ack E) (se_position E account_id), H1)
        | SEARCHSTORE_EFFECT_REMOTE \<Rightarrow>
            (let H2 = H1(a := Some (on_mc (\<lambda>m. m\<lparr>mc_remote_id := to_int32 (uint account_id)\<rparr>) k1)) in
             case sk_type k1 of
               SEARCHTYPE_VENDING \<Rightarrow> ([], with_market (vending_vendinglistreq a account_id (market_of H2)) H2)
             | SEARCHTYPE_BUYING_STORE \<Rightarrow>
                 (if buyingstore_open (bs_env.truncate E) a account_id (plaza_of H2) then [Ss_buying_list account_id] else [], H2))
        | SEARCHSTORE_EFFECT_MAX \<Rightarrow> ([], H1))))"

section \<open>The messages\<close>

text \<open>\<open>Ss_script\<close> is the script command \<open>searchstores\<close> with the map it resolved.\<close>

datatype ss_message =
    Ss_script int int int
  | Ss_search e_searchstore_searchtype uint32 uint32 "uint32 list" "uint32 list"
  | Ss_next
  | Ss_close
  | Ss_click uint32 uint32 uint32

definition effect_of :: "int \<Rightarrow> e_searchstore_effecttype option" where
  "effect_of n = (if n = 0 then Some SEARCHSTORE_EFFECT_NORMAL else if n = 1 then Some SEARCHSTORE_EFFECT_REMOTE else None)"

definition buildin_searchstores :: "ss_env \<Rightarrow> int \<Rightarrow> int \<Rightarrow> int \<Rightarrow> seeker \<Rightarrow> ss_reply list \<times> seeker" where
  "buildin_searchstores E uses effect mapid k =
     (if \<not> se_feature E then ([], k) else
      if uses < 1 \<or> uses > 255 then ([], k) else
      case effect_of effect of None \<Rightarrow> ([], k) | Some e \<Rightarrow> snd (searchstore_open E (word_of_int uses) e mapid k))"

definition ss_handle :: "ss_env \<Rightarrow> (e_searchstore_searchtype \<Rightarrow> uint32 list) \<Rightarrow> int \<Rightarrow> uint32 \<times> ss_message \<Rightarrow> hall \<Rightarrow> ss_reply list \<times> hall" where
  "ss_handle E shops now am H = (case am of (a, msg) \<Rightarrow> case H a of None \<Rightarrow> ([], H) | Some k \<Rightarrow>
     (case msg of
        Ss_script uses effect mapid \<Rightarrow> apsnd (\<lambda>k'. H(a := Some k')) (buildin_searchstores E uses effect mapid k)
      | Ss_search type min_price max_price items cards \<Rightarrow>
          (if \<not> se_feature E then ([], H) else
           if min_price > word_of_int (ve_vending_max_value E) \<or> max_price > word_of_int (ve_vending_max_value E) then ([], H) else
           searchstore_query E shops now a type min_price max_price items cards H)
      | Ss_next \<Rightarrow> if \<not> se_feature E then ([], H) else apsnd (\<lambda>k'. H(a := Some k')) (searchstore_next E k)
      | Ss_close \<Rightarrow> if \<not> se_feature E then ([], H) else ([], H(a := Some (searchstore_close k)))
      | Ss_click account_id store_id nameid \<Rightarrow>
          if \<not> se_feature E then ([], H) else searchstore_click E a account_id (sint store_id) nameid H))"

end
