(* ===== verification/Stock.thy ===== *)
theory Stock
  imports Inventory
begin

text \<open>
  What adding and removing items does to an inventory: how many of each item there are, what stays
  well formed, and which slots change.
\<close>

section \<open>Well-formed inventories\<close>

definition item_ok :: "item \<Rightarrow> bool" where
  "item_ok it \<longleftrightarrow> 0 \<le> it_amount it \<and> it_amount it \<le> MAX_AMOUNT \<and> (it_nameid it = 0 \<longleftrightarrow> it_amount it = 0)"

definition inventory_ok :: "player \<Rightarrow> bool" where
  "inventory_ok sd \<longleftrightarrow> length (pl_inventory sd) = MAX_INVENTORY \<and> length (pl_inventory_data sd) = MAX_INVENTORY \<and>
     (\<forall>i < MAX_INVENTORY. item_ok (slot sd i) \<and> (it_nameid (slot sd i) \<noteq> 0 \<longrightarrow> pl_inventory_data sd ! i \<noteq> None))"

text \<open>How many of an item a player has.\<close>

definition units :: "uint32 \<Rightarrow> item \<Rightarrow> int" where
  "units nid it = (if it_nameid it = nid then it_amount it else 0)"

definition stock :: "uint32 \<Rightarrow> player \<Rightarrow> int" where
  "stock nid sd = (\<Sum>it \<leftarrow> pl_inventory sd. units nid it)"

lemma sum_map_update:
  fixes f :: "'a \<Rightarrow> 'b :: ab_group_add"
  shows "i < length xs \<Longrightarrow> (\<Sum>x \<leftarrow> xs[i := y]. f x) = (\<Sum>x \<leftarrow> xs. f x) - f (xs ! i) + f y"
  by (induction xs arbitrary: i) (auto split: nat.split simp: nth_Cons algebra_simps)

lemma stock_set_slot:
  "i < length (pl_inventory sd) \<Longrightarrow>
   stock nid (set_slot i f sd) = stock nid sd - units nid (slot sd i) + units nid (f (slot sd i))"
  by (simp add: stock_def set_slot_def sum_map_update)

lemma slot_set_slot:
  "i < length (pl_inventory sd) \<Longrightarrow> slot (set_slot i f sd) j = (if j = i then f (slot sd i) else slot sd j)"
  by (simp add: set_slot_def nth_list_update)

lemma set_slot_simps [simp]:
  "length (pl_inventory (set_slot i f sd)) = length (pl_inventory sd)"
  "pl_inventory_data (set_slot i f sd) = pl_inventory_data sd" "pl_weight (set_slot i f sd) = pl_weight sd"
  "pl_max_weight (set_slot i f sd) = pl_max_weight sd" "pl_inventory_slots (set_slot i f sd) = pl_inventory_slots sd"
  by (simp_all add: set_slot_def)

section \<open>Frames\<close>

text \<open>Only the inventory, the weights and the counter of unique ids change.\<close>

definition bag_only :: "player \<Rightarrow> player \<Rightarrow> bool" where
  "bag_only sd sd' \<longleftrightarrow> sd'\<lparr>pl_inventory := pl_inventory sd, pl_inventory_data := pl_inventory_data sd,
     pl_weight := pl_weight sd, pl_max_weight := pl_max_weight sd, pl_uniqueitem_counter := pl_uniqueitem_counter sd\<rparr> = sd"

lemma bag_only_refl: "bag_only sd sd"
  by (simp add: bag_only_def)

lemma bag_only_trans: "bag_only sd1 sd2 \<Longrightarrow> bag_only sd2 sd3 \<Longrightarrow> bag_only sd1 sd3"
  unfolding bag_only_def by (cases sd1; cases sd2; cases sd3) simp

lemma bag_only_set_slot: "bag_only sd (set_slot i f sd)"
  by (simp add: bag_only_def set_slot_def)

lemma bag_only_simps:
  assumes "bag_only sd sd'"
  shows "pl_id sd' = pl_id sd" "pl_account_id sd' = pl_account_id sd" "pl_zeny sd' = pl_zeny sd"
    "pl_bank_vault sd' = pl_bank_vault sd" "pl_trading sd' = pl_trading sd" "pl_deal_locked sd' = pl_deal_locked sd"
    "pl_partner_id sd' = pl_partner_id sd" "pl_deal_item sd' = pl_deal_item sd" "pl_deal_zeny sd' = pl_deal_zeny sd"
    "pl_inventory_slots sd' = pl_inventory_slots sd"
  using assms unfolding bag_only_def by (cases sd; cases sd'; simp)+

text \<open>
  The equipment code, which belongs to other modules, is taken to change where items are worn and how
  much a player can carry, and nothing else of what the trade uses.
\<close>

definition worn_only :: "player \<Rightarrow> player \<Rightarrow> bool" where
  "worn_only sd sd' \<longleftrightarrow> sd'\<lparr>pl_inventory := pl_inventory sd, pl_max_weight := pl_max_weight sd\<rparr> = sd \<and>
     map (\<lambda>it. it\<lparr>it_equip := 0\<rparr>) (pl_inventory sd') = map (\<lambda>it. it\<lparr>it_equip := 0\<rparr>) (pl_inventory sd)"

definition equip_neutral :: "('a item_env_scheme) \<Rightarrow> bool" where
  "equip_neutral E \<longleftrightarrow> (\<forall>i loc sd. worn_only sd (ev_equip E i loc sd) \<and> worn_only sd (ev_unequip E i sd))"

lemma worn_only_refl: "worn_only sd sd"
  by (simp add: worn_only_def)

lemma worn_only_bag: "worn_only sd sd' \<Longrightarrow> bag_only sd sd'"
  unfolding worn_only_def bag_only_def by (cases sd; cases sd') simp

lemma worn_slot:
  assumes "worn_only sd sd'" "i < length (pl_inventory sd)"
  shows "it_nameid (slot sd' i) = it_nameid (slot sd i)" "it_amount (slot sd' i) = it_amount (slot sd i)"
    "it_expire_time (slot sd' i) = it_expire_time (slot sd i)"
proof -
  let ?f = "\<lambda>it :: item. it\<lparr>it_equip := 0\<rparr>"
  have m: "map ?f (pl_inventory sd') = map ?f (pl_inventory sd)" using assms(1) by (simp add: worn_only_def)
  then have "length (pl_inventory sd') = length (pl_inventory sd)" by (rule map_eq_imp_length_eq)
  with m assms(2) have f: "?f (slot sd' i) = ?f (slot sd i)" by (metis nth_map)
  show "it_nameid (slot sd' i) = it_nameid (slot sd i)" "it_amount (slot sd' i) = it_amount (slot sd i)"
    "it_expire_time (slot sd' i) = it_expire_time (slot sd i)"
    using arg_cong [OF f, of it_nameid] arg_cong [OF f, of it_amount] arg_cong [OF f, of it_expire_time] by simp_all
qed

lemma worn_same:
  assumes "worn_only sd sd'"
  shows "length (pl_inventory sd') = length (pl_inventory sd)" "pl_inventory_data sd' = pl_inventory_data sd"
    "stock nid sd' = stock nid sd" "pl_weight sd' = pl_weight sd"
proof -
  let ?f = "\<lambda>it :: item. it\<lparr>it_equip := 0\<rparr>"
  have m: "map ?f (pl_inventory sd') = map ?f (pl_inventory sd)" using assms by (simp add: worn_only_def)
  then show "length (pl_inventory sd') = length (pl_inventory sd)" by (rule map_eq_imp_length_eq)
  have "map (units nid) (map ?f (pl_inventory sd')) = map (units nid) (map ?f (pl_inventory sd))" by (simp only: m)
  moreover have "units nid (it\<lparr>it_equip := 0\<rparr>) = units nid it" for it by (simp add: units_def)
  ultimately have "map (units nid) (pl_inventory sd') = map (units nid) (pl_inventory sd)" by (simp add: comp_def)
  then show "stock nid sd' = stock nid sd" by (simp only: stock_def)
  show "pl_inventory_data sd' = pl_inventory_data sd" "pl_weight sd' = pl_weight sd"
    using assms unfolding worn_only_def by (cases sd; cases sd'; simp)+
qed

lemma worn_inventory_ok: "worn_only sd sd' \<Longrightarrow> inventory_ok sd \<Longrightarrow> inventory_ok sd'"
  by (simp add: inventory_ok_def worn_same worn_slot item_ok_def)

section \<open>Removing\<close>

text \<open>Rented items that have not run out.\<close>

definition fresh_item :: "('a item_env_scheme) \<Rightarrow> item \<Rightarrow> bool" where
  "fresh_item E it \<longleftrightarrow> it_expire_time it = 0 \<or> ev_time E \<le> it_expire_time it"

definition fresh_bag :: "('a item_env_scheme) \<Rightarrow> player \<Rightarrow> bool" where
  "fresh_bag E sd \<longleftrightarrow> (\<forall>i < MAX_INVENTORY. fresh_item E (slot sd i))"

definition with_weight :: "uint32 \<Rightarrow> player \<Rightarrow> player" where
  "with_weight w sd = sd\<lparr>pl_weight := w\<rparr>"

lemma with_weight_simps [simp]:
  "pl_inventory (with_weight w sd) = pl_inventory sd" "pl_inventory_data (with_weight w sd) = pl_inventory_data sd"
  "stock nid (with_weight w sd) = stock nid sd" "inventory_ok (with_weight w sd) = inventory_ok sd"
  "fresh_bag E (with_weight w sd) = fresh_bag E sd" "bag_only sd (with_weight w sd)"
  by (simp_all add: with_weight_def stock_def inventory_ok_def fresh_bag_def bag_only_def)

lemma worn_fresh: "worn_only sd sd' \<Longrightarrow> length (pl_inventory sd) = MAX_INVENTORY \<Longrightarrow> fresh_bag E sd' = fresh_bag E sd"
  by (simp add: fresh_bag_def fresh_item_def worn_slot)

lemma inventory_lengths:
  "inventory_ok sd \<Longrightarrow> length (pl_inventory sd) = MAX_INVENTORY" "inventory_ok sd \<Longrightarrow> length (pl_inventory_data sd) = MAX_INVENTORY"
  by (simp_all add: inventory_ok_def)

lemma inventory_okD:
  assumes "inventory_ok sd" "i < MAX_INVENTORY"
  shows "0 \<le> it_amount (slot sd i)" "it_amount (slot sd i) \<le> 30000" "it_nameid (slot sd i) = 0 \<longleftrightarrow> it_amount (slot sd i) = 0"
    "it_nameid (slot sd i) \<noteq> 0 \<Longrightarrow> pl_inventory_data sd ! i \<noteq> None"
  using assms by (auto simp: inventory_ok_def item_ok_def MAX_AMOUNT_def)

lemma inventory_ok_set_slot:
  assumes "inventory_ok sd" "i < MAX_INVENTORY" "item_ok (f (slot sd i))"
    "it_nameid (f (slot sd i)) \<noteq> 0 \<Longrightarrow> pl_inventory_data sd ! i \<noteq> None"
  shows "inventory_ok (set_slot i f sd)"
  using assms by (auto simp: inventory_ok_def slot_set_slot)

lemma zero_item_simps [simp]: "it_amount zero_item = 0" "it_nameid zero_item = 0" "it_expire_time zero_item = 0"
  by (simp_all add: zero_item_def)

definition cleared :: "nat \<Rightarrow> player \<Rightarrow> player" where
  "cleared i sd = (set_slot i (\<lambda>_. zero_item) sd)\<lparr>pl_inventory_data := (pl_inventory_data sd)[i := None]\<rparr>"

lemma cleared_spec:
  assumes len: "length (pl_inventory sd) = MAX_INVENTORY" "length (pl_inventory_data sd) = MAX_INVENTORY"
    and i: "i < MAX_INVENTORY" and zero: "it_amount (slot sd i) = 0"
    and others: "\<And>j. j < MAX_INVENTORY \<Longrightarrow> j \<noteq> i \<Longrightarrow>
      item_ok (slot sd j) \<and> (it_nameid (slot sd j) \<noteq> 0 \<longrightarrow> pl_inventory_data sd ! j \<noteq> None)"
  shows "inventory_ok (cleared i sd)" "bag_only sd (cleared i sd)" "stock nid (cleared i sd) = stock nid sd"
    "it_amount (slot (cleared i sd) j) = it_amount (slot sd j)"
    "fresh_bag E sd \<Longrightarrow> fresh_bag E (cleared i sd)"
proof -
  have slots: "slot (cleared i sd) j = (if j = i then zero_item else slot sd j)" for j
    using len i by (simp add: cleared_def slot_set_slot)
  then show "it_amount (slot (cleared i sd) j) = it_amount (slot sd j)" for j using zero by simp
  have "pl_inventory_data (cleared i sd) ! j = pl_inventory_data sd ! j" if "j \<noteq> i" for j
    using that by (simp add: cleared_def)
  with slots others show "inventory_ok (cleared i sd)"
    using len by (auto simp: inventory_ok_def item_ok_def MAX_AMOUNT_def) (auto simp: cleared_def)
  show "bag_only sd (cleared i sd)" by (simp add: bag_only_def cleared_def set_slot_def)
  have "stock nid (cleared i sd) = stock nid (set_slot i (\<lambda>_. zero_item) sd)" by (simp add: cleared_def stock_def)
  then show "stock nid (cleared i sd) = stock nid sd"
    using len i zero by (simp add: stock_set_slot units_def)
  show "fresh_bag E sd \<Longrightarrow> fresh_bag E (cleared i sd)" by (simp add: fresh_bag_def slots fresh_item_def)
qed

text \<open>Removing no more than a slot holds succeeds and takes exactly that.\<close>

lemma delitem_spec:
  assumes ok: "inventory_ok sd" and E: "equip_neutral E" and i: "i < MAX_INVENTORY"
    and amount: "0 < amount" "amount \<le> it_amount (slot sd i)"
  defines "sd' \<equiv> snd (pc_delitem E (int i) amount sd)"
  shows "fst (pc_delitem E (int i) amount sd) = 0" "inventory_ok sd'" "bag_only sd sd'"
    "stock nid sd' = stock nid sd - (if it_nameid (slot sd i) = nid then amount else 0)"
    "j < MAX_INVENTORY \<Longrightarrow> it_amount (slot sd' j) = it_amount (slot sd j) - (if j = i then amount else 0)"
    "fresh_bag E sd \<Longrightarrow> fresh_bag E sd'"
proof -
  let ?less = "\<lambda>it. it\<lparr>it_amount := to_int16 (it_amount it - amount)\<rparr>"
  note D = inventory_okD [OF ok i]
  have len: "length (pl_inventory sd) = MAX_INVENTORY" using ok by (simp add: inventory_lengths)
  have name: "it_nameid (slot sd i) \<noteq> 0" using D(3) amount by simp
  have int16: "to_int16 (it_amount (slot sd i) - amount) = it_amount (slot sd i) - amount"
    using amount D(2) by (intro to_int16_id) simp_all
  have not_fail: "\<not> (int i < 0 \<or> it_nameid (slot sd (nat (int i))) = 0 \<or> amount \<le> 0 \<or>
      it_amount (slot sd (nat (int i))) < amount \<or> pl_inventory_data sd ! nat (int i) = None)"
    using amount name D(4) by simp
  define sd2 where "sd2 = with_weight (pl_weight sd - id_weight (the (pl_inventory_data sd ! i)) * word_of_int amount)
    (set_slot i ?less sd)"
  have slot2: "slot sd2 j = (if j = i then ?less (slot sd i) else slot sd j)" for j
    using len i by (simp add: sd2_def slot_set_slot)
  have bag2: "bag_only sd sd2"
    unfolding sd2_def by (rule bag_only_trans [OF bag_only_set_slot with_weight_simps(6)])
  have stock2: "stock nid sd2 = stock nid sd - (if it_nameid (slot sd i) = nid then amount else 0)" for nid
    using len i by (simp add: sd2_def stock_set_slot units_def int16)
  have fresh2: "fresh_bag E sd2" if "fresh_bag E sd"
    using that i by (simp add: fresh_bag_def slot2 fresh_item_def)
  have len2: "length (pl_inventory sd2) = MAX_INVENTORY" by (simp add: sd2_def len)
  have result: "pc_delitem E (int i) amount sd =
      (0, if it_amount (slot sd2 i) \<le> 0
          then cleared i (if it_equip (slot sd2 i) \<noteq> 0 then ev_unequip E i sd2 else sd2) else sd2)"
    unfolding pc_delitem_def if_not_P [OF not_fail] by (simp add: Let_def sd2_def with_weight_def cleared_def)
  then show "fst (pc_delitem E (int i) amount sd) = 0" by simp
  have "inventory_ok sd' \<and> bag_only sd sd' \<and> (\<forall>nid. stock nid sd' = stock nid sd2) \<and>
      (\<forall>j < MAX_INVENTORY. it_amount (slot sd' j) = it_amount (slot sd2 j)) \<and> (fresh_bag E sd2 \<longrightarrow> fresh_bag E sd')"
  proof (cases "it_amount (slot sd2 i) \<le> 0")
    case False
    then have sd': "sd' = sd2" by (simp add: sd'_def result)
    have "item_ok (?less (slot sd i))" using False D name slot2 [of i] int16 amount by (simp add: item_ok_def MAX_AMOUNT_def)
    then have "inventory_ok sd2"
      unfolding sd2_def with_weight_simps using D(4) name by (intro inventory_ok_set_slot ok i) simp_all
    with bag2 show ?thesis by (simp add: sd')
  next
    case True
    define sd3 where "sd3 = (if it_equip (slot sd2 i) \<noteq> 0 then ev_unequip E i sd2 else sd2)"
    have sd': "sd' = cleared i sd3" using True by (simp add: sd'_def result sd3_def)
    have worn: "worn_only sd2 sd3" using E by (simp add: sd3_def equip_neutral_def worn_only_refl)
    have zero: "it_amount (slot sd2 i) = 0" using True slot2 [of i] int16 amount by simp
    have len3: "length (pl_inventory sd3) = MAX_INVENTORY" "length (pl_inventory_data sd3) = MAX_INVENTORY"
      using ok by (simp_all add: worn_same [OF worn] len2) (simp add: sd2_def inventory_lengths)
    have three: "it_nameid (slot sd3 j) = it_nameid (slot sd2 j)" "it_amount (slot sd3 j) = it_amount (slot sd2 j)"
      if "j < MAX_INVENTORY" for j
      using worn_slot [OF worn, of j] that len2 by simp_all
    have "item_ok (slot sd3 j) \<and> (it_nameid (slot sd3 j) \<noteq> 0 \<longrightarrow> pl_inventory_data sd3 ! j \<noteq> None)"
      if "j < MAX_INVENTORY" "j \<noteq> i" for j
      using ok that by (simp add: item_ok_def three slot2 worn_same [OF worn]) (simp add: inventory_ok_def item_ok_def sd2_def)
    note cl = cleared_spec [OF len3 i _ this]
    have zero3: "it_amount (slot sd3 i) = 0" using zero three [OF i] by simp
    show ?thesis
      unfolding sd' using cl(1-4) [OF zero3] cl(5) [OF zero3, of E] bag_only_trans [OF bag_only_trans [OF bag2 worn_only_bag [OF worn]]]
      by (simp add: worn_same [OF worn] three worn_fresh [OF worn len2])
  qed
  then show "inventory_ok sd'" "bag_only sd sd'" "fresh_bag E sd \<Longrightarrow> fresh_bag E sd'"
    "stock nid sd' = stock nid sd - (if it_nameid (slot sd i) = nid then amount else 0)"
    "j < MAX_INVENTORY \<Longrightarrow> it_amount (slot sd' j) = it_amount (slot sd j) - (if j = i then amount else 0)"
    using fresh2 stock2 slot2 int16 by auto
qed

section \<open>Adding\<close>

text \<open>Steps after which every slot holds as much as before.\<close>

definition same_goods :: "player \<Rightarrow> player \<Rightarrow> bool" where
  "same_goods sd sd' \<longleftrightarrow> bag_only sd sd' \<and> (inventory_ok sd \<longrightarrow> inventory_ok sd') \<and>
     (\<forall>nid. stock nid sd' = stock nid sd) \<and> (\<forall>j < MAX_INVENTORY. it_amount (slot sd' j) = it_amount (slot sd j))"

lemma same_goods_refl: "same_goods sd sd"
  by (simp add: same_goods_def bag_only_refl)

lemma same_goods_worn: "worn_only sd sd' \<Longrightarrow> length (pl_inventory sd) = MAX_INVENTORY \<Longrightarrow> same_goods sd sd'"
  by (simp add: same_goods_def worn_only_bag worn_inventory_ok worn_same worn_slot)

lemma finish_same_goods:
  assumes E: "equip_neutral E" and fresh: "fresh_item E item" and len: "length (pl_inventory sd) = MAX_INVENTORY"
  shows "same_goods sd (additem_finish E d item i w sd)"
    "fresh_bag E sd \<Longrightarrow> fresh_bag E (additem_finish E d item i w sd)"
proof -
  let ?sd1 = "with_weight (pl_weight sd + w) sd"
  let ?sd2 = "if id_autoequip d then ev_equip E i (id_equip d) ?sd1 else ?sd1"
  have finish: "additem_finish E d item i w sd = ?sd2"
    using fresh by (auto simp: additem_finish_def with_weight_def fresh_item_def Let_def)
  have worn: "worn_only ?sd1 ?sd2" using E by (simp add: equip_neutral_def worn_only_refl)
  have len1: "length (pl_inventory ?sd1) = MAX_INVENTORY" using len by simp
  have goods: "same_goods ?sd1 ?sd2" by (rule same_goods_worn [OF worn len1])
  then show "same_goods sd (additem_finish E d item i w sd)"
    unfolding finish using bag_only_trans [OF with_weight_simps(6)] unfolding same_goods_def by (metis with_weight_simps(1,3,4))
  show "fresh_bag E sd \<Longrightarrow> fresh_bag E (additem_finish E d item i w sd)"
    unfolding finish worn_fresh [OF worn len1] by simp
qed

definition with_counter :: "uint32 \<Rightarrow> player \<Rightarrow> player" where
  "with_counter n sd = sd\<lparr>pl_uniqueitem_counter := n\<rparr>"

lemma with_counter_simps [simp]:
  "pl_inventory (with_counter n sd) = pl_inventory sd" "pl_inventory_data (with_counter n sd) = pl_inventory_data sd"
  "stock nid (with_counter n sd) = stock nid sd" "inventory_ok (with_counter n sd) = inventory_ok sd"
  "fresh_bag E (with_counter n sd) = fresh_bag E sd" "bag_only sd (with_counter n sd)"
  "pl_inventory_slots (with_counter n sd) = pl_inventory_slots sd"
  by (simp_all add: with_counter_def stock_def inventory_ok_def fresh_bag_def bag_only_def)

lemma generate_counter: "snd (pc_generate_unique_id sd) = with_counter (pl_uniqueitem_counter sd + 1) sd"
  by (simp add: pc_generate_unique_id_def with_counter_def)

text \<open>A new item in an empty slot.\<close>

definition placed :: "nat \<Rightarrow> item \<Rightarrow> item_data \<Rightarrow> player \<Rightarrow> player" where
  "placed i new d sd = (set_slot i (\<lambda>_. new) sd)\<lparr>pl_inventory_data := (pl_inventory_data sd)[i := Some d]\<rparr>"

text \<open>The three ways \<open>pc_additem\<close> ends.\<close>

lemma set_placed:
  "i < length (pl_inventory sd) \<Longrightarrow> set_slot i f (placed i new d sd) = placed i (f new) d sd"
  "with_counter c (placed i new d sd) = placed i new d (with_counter c sd)"
  "with_counter (pl_uniqueitem_counter sd) sd = sd"
  by (simp_all add: set_slot_def placed_def with_counter_def)

lemma search_empty:
  "pc_search_inventory 0 sd = Some i \<Longrightarrow> length (pl_inventory sd) = MAX_INVENTORY \<Longrightarrow>
   i < MAX_INVENTORY \<and> it_nameid (slot sd i) = 0"
  using arr_find_nth [of "\<lambda>it. it_nameid it = 0" "pl_inventory sd"]
  by (auto simp: pc_search_inventory_def Let_def split: if_splits)

text \<open>The last store into a new slot, of the unique id.\<close>

definition stamp_unique :: "item_data \<Rightarrow> item \<Rightarrow> nat \<Rightarrow> player \<Rightarrow> player" where
  "stamp_unique d item j sd = (if \<not> itemdb_isstackable2 d \<or> id_guid d
     then (if it_unique_id item \<noteq> 0 then set_slot j (\<lambda>it. it\<lparr>it_unique_id := it_unique_id item\<rparr>) sd
           else (case pc_generate_unique_id sd of (u, sd') \<Rightarrow> set_slot j (\<lambda>it. it\<lparr>it_unique_id := u\<rparr>) sd'))
     else sd)"

lemma stamp_unique_placed:
  assumes "j < length (pl_inventory sd)"
  shows "\<exists>u c. stamp_unique d item j (placed j new d sd) = placed j (new\<lparr>it_unique_id := u\<rparr>) d (with_counter c sd)"
proof -
  consider "\<not> (\<not> itemdb_isstackable2 d \<or> id_guid d)" | "\<not> itemdb_isstackable2 d \<or> id_guid d" "it_unique_id item \<noteq> 0"
    | "\<not> itemdb_isstackable2 d \<or> id_guid d" "it_unique_id item = 0" by blast
  then show ?thesis
  proof cases
    case 1
    then have "stamp_unique d item j (placed j new d sd) =
        placed j (new\<lparr>it_unique_id := it_unique_id new\<rparr>) d (with_counter (pl_uniqueitem_counter sd) sd)"
      by (simp add: stamp_unique_def set_placed)
    then show ?thesis by blast
  next
    case 2
    then have "stamp_unique d item j (placed j new d sd) =
        placed j (new\<lparr>it_unique_id := it_unique_id item\<rparr>) d (with_counter (pl_uniqueitem_counter sd) sd)"
      using assms by (auto simp: stamp_unique_def set_placed)
    then show ?thesis by blast
  next
    case 3
    then have "stamp_unique d item j (placed j new d sd) =
        set_slot j (\<lambda>it. it\<lparr>it_unique_id := fst (pc_generate_unique_id (placed j new d sd))\<rparr>)
          (snd (pc_generate_unique_id (placed j new d sd)))" by (auto simp: stamp_unique_def case_prod_beta)
    then show ?thesis using assms by (simp add: generate_counter set_placed) blast
  qed
qed

lemma place_cases:
  assumes place: "additem_place E d item amount favorite w sd = (r, sd')" and len: "length (pl_inventory sd) = MAX_INVENTORY"
  obtains (refused) "r \<noteq> ADDITEM_SUCCESS" "sd' = sd"
  | (stacked) i where "r = ADDITEM_SUCCESS" "i < MAX_INVENTORY" "same_stack item (slot sd i)"
      "amount \<le> MAX_AMOUNT - it_amount (slot sd i)"
      "sd' = additem_finish E d item i w (set_slot i (\<lambda>it. it\<lparr>it_amount := to_int16 (it_amount it + amount)\<rparr>) sd)"
  | (new_slot) i c new where "r = ADDITEM_SUCCESS" "i < MAX_INVENTORY" "it_nameid (slot sd i) = 0"
      "it_nameid new = it_nameid item" "it_amount new = to_int16 amount" "it_expire_time new = it_expire_time item"
      "sd' = additem_finish E d item i w (placed i new d (with_counter c sd))"
proof -
  define i where "i = (if itemdb_isstackable2 d \<and> it_expire_time item = 0
    then arr_find (same_stack item) (pl_inventory sd) else MAX_INVENTORY)"
  show thesis
  proof (cases "i < MAX_INVENTORY")
    case True
    then have "same_stack item (slot sd i)"
      using len arr_find_nth [of "same_stack item" "pl_inventory sd"] by (auto simp: i_def split: if_splits)
    with True place show thesis
      unfolding additem_place_def i_def [symmetric] Let_def if_P [OF True]
      by (auto split: if_splits intro: refused stacked)
  next
    case False
    note place = place [unfolded additem_place_def i_def [symmetric] Let_def if_not_P [OF False]]
    show thesis
    proof (cases "\<exists>j. pc_search_inventory 0 sd = Some j \<and> j < pl_inventory_slots sd")
      case False
      with place show thesis by (intro refused) (auto split: option.splits if_splits)
    next
      case True
      then obtain j where j: "pc_search_inventory 0 sd = Some j" "\<not> j \<ge> pl_inventory_slots sd" by auto
      let ?new = "item\<lparr>it_equip := 0, it_equipSwitch := 0, it_amount := to_int16 amount, it_favorite := favorite\<rparr>"
      note slot_j = search_empty [OF j(1) len]
      with len stamp_unique_placed [of j sd d item ?new] obtain u c where
        "stamp_unique d item j (placed j ?new d sd) = placed j (?new\<lparr>it_unique_id := u\<rparr>) d (with_counter c sd)" by auto
      moreover have "r = ADDITEM_SUCCESS \<and> sd' = additem_finish E d item j w (stamp_unique d item j (placed j ?new d sd))"
        using place j by (auto simp: stamp_unique_def placed_def split del: if_split)
      ultimately show thesis using slot_j by (intro new_slot [where i = j]) simp_all
    qed
  qed
qed

lemma additem_cases:
  assumes add: "pc_additem E item amount favorite sd = (r, sd', item')"
  obtains (refused) "r \<noteq> ADDITEM_SUCCESS" "sd' = sd" "item' = item"
  | (tried) c u d w where "it_nameid item \<noteq> 0" "0 < amount" "amount \<le> MAX_AMOUNT" "item' = item\<lparr>it_unique_id := u\<rparr>"
      "additem_place E d item' amount favorite w (with_counter c sd) = (r, sd')"
proof -
  let ?d = "itemdb_search E (it_nameid item)"
  let ?w = "id_weight ?d * word_of_int amount"
  show thesis
  proof (cases "it_nameid item = 0 \<or> amount \<le> 0 \<or> amount > MAX_AMOUNT \<or>
      id_stack_inventory ?d \<and> amount > uint (id_stack_amount ?d) \<or> pl_weight sd + ?w > pl_max_weight sd")
    case True
    with add show thesis by (intro refused) (auto simp: pc_additem_def Let_def split: if_splits prod.splits)
  next
    case False
    let ?fill = "id_guid ?d \<and> it_unique_id item = 0"
    let ?item = "if ?fill then item\<lparr>it_unique_id := fst (pc_generate_unique_id sd)\<rparr> else item"
    have sd: "(if ?fill then snd (pc_generate_unique_id sd) else sd) =
        with_counter (if ?fill then pl_uniqueitem_counter sd + 1 else pl_uniqueitem_counter sd) sd"
      by (simp add: generate_counter set_placed)
    have item: "?item = item\<lparr>it_unique_id := (if ?fill then fst (pc_generate_unique_id sd) else it_unique_id item)\<rparr>" by simp
    have "additem_place E ?d ?item amount favorite ?w (if ?fill then snd (pc_generate_unique_id sd) else sd) = (r, sd')"
      "item' = ?item"
      using add False by (auto simp: pc_additem_def Let_def case_prod_beta)
    then show thesis using False sd item by (intro tried) auto
  qed
qed

text \<open>What a success adds: the amount, of that item, somewhere, with nothing else lost.\<close>

definition gained :: "uint32 \<Rightarrow> int \<Rightarrow> player \<Rightarrow> player \<Rightarrow> bool" where
  "gained nameid amount sd sd' \<longleftrightarrow> inventory_ok sd' \<and> bag_only sd sd' \<and>
     (\<forall>nid. stock nid sd' = stock nid sd + (if nid = nameid then amount else 0)) \<and>
     (\<forall>j < MAX_INVENTORY. it_amount (slot sd j) \<le> it_amount (slot sd' j))"

lemma gained_stack:
  assumes ok: "inventory_ok sd" and i: "i < MAX_INVENTORY" and name: "it_nameid (slot sd i) = nameid" "nameid \<noteq> 0"
    and amount: "0 < amount" "amount \<le> MAX_AMOUNT - it_amount (slot sd i)"
  defines "sd' \<equiv> set_slot i (\<lambda>it. it\<lparr>it_amount := to_int16 (it_amount it + amount)\<rparr>) sd"
  shows "gained nameid amount sd sd'" "fresh_bag E sd \<Longrightarrow> fresh_bag E sd'"
proof -
  have len: "i < length (pl_inventory sd)" using ok i by (simp add: inventory_lengths)
  note D = inventory_okD [OF ok i]
  have int16: "to_int16 (it_amount (slot sd i) + amount) = it_amount (slot sd i) + amount"
    using amount D by (intro to_int16_id) (simp_all add: MAX_AMOUNT_def)
  have "inventory_ok sd'"
    unfolding sd'_def using D name amount int16
    by (intro inventory_ok_set_slot ok i) (simp_all add: item_ok_def)
  then show "gained nameid amount sd sd'"
    using len name amount int16
    by (simp add: gained_def sd'_def bag_only_set_slot stock_set_slot units_def slot_set_slot)
  show "fresh_bag E sd \<Longrightarrow> fresh_bag E sd'"
    using len i by (simp add: fresh_bag_def sd'_def slot_set_slot fresh_item_def)
qed

lemma gained_placed:
  assumes ok: "inventory_ok sd" and i: "i < MAX_INVENTORY" and empty: "it_nameid (slot sd i) = 0"
    and new: "it_nameid new = nameid" "nameid \<noteq> 0" "it_amount new = to_int16 amount"
    and amount: "0 < amount" "amount \<le> MAX_AMOUNT"
  shows "gained nameid amount sd (placed i new d sd)"
    "fresh_bag E sd \<Longrightarrow> fresh_item E new \<Longrightarrow> fresh_bag E (placed i new d sd)"
proof -
  have len: "i < length (pl_inventory sd)" "length (pl_inventory sd) = MAX_INVENTORY"
    "length (pl_inventory_data sd) = MAX_INVENTORY" using ok i by (simp_all add: inventory_lengths)
  note D = inventory_okD [OF ok i]
  have int16: "it_amount new = amount"
    using amount new(3) to_int16_id [of amount] by (simp add: MAX_AMOUNT_def)
  have slots: "slot (placed i new d sd) j = (if j = i then new else slot sd j)" for j
    using len by (simp add: placed_def slot_set_slot)
  have zero: "it_amount (slot sd i) = 0" using D(3) empty by simp
  have "inventory_ok (placed i new d sd)"
    unfolding inventory_ok_def
  proof (intro conjI allI impI)
    fix j assume j: "j < MAX_INVENTORY"
    show "item_ok (slot (placed i new d sd) j)"
      using ok j new amount int16 by (simp add: slots item_ok_def) (simp add: inventory_ok_def item_ok_def)
    assume "it_nameid (slot (placed i new d sd) j) \<noteq> 0"
    with ok j i len show "pl_inventory_data (placed i new d sd) ! j \<noteq> None"
      by (cases "j = i"; simp add: slots inventory_ok_def; simp add: placed_def)
  qed (use len in \<open>simp_all add: placed_def\<close>)
  moreover have "bag_only sd (placed i new d sd)" by (simp add: bag_only_def placed_def set_slot_def)
  moreover have "stock nid (placed i new d sd) = stock nid (set_slot i (\<lambda>_. new) sd)" for nid
    by (simp add: placed_def stock_def)
  ultimately show "gained nameid amount sd (placed i new d sd)"
    using len(1) zero int16 new amount by (simp add: gained_def stock_set_slot units_def slots)
  show "fresh_bag E sd \<Longrightarrow> fresh_item E new \<Longrightarrow> fresh_bag E (placed i new d sd)"
    by (simp add: fresh_bag_def slots)
qed

lemma gained_goods: "gained nameid amount sd1 sd2 \<Longrightarrow> same_goods sd2 sd3 \<Longrightarrow> gained nameid amount sd1 sd3"
  unfolding gained_def same_goods_def by (auto intro: bag_only_trans)

lemma gained_counter: "gained nameid amount (with_counter c sd) sd' \<Longrightarrow> gained nameid amount sd sd'"
  unfolding gained_def by (auto intro: bag_only_trans [OF with_counter_simps(6)])

text \<open>Adding an item either is refused and moves nothing, or adds exactly the amount.\<close>

lemma additem_spec:
  assumes ok: "inventory_ok sd" and E: "equip_neutral E" and fresh: "fresh_item E item"
    and add: "pc_additem E item amount favorite sd = (r, sd', item')"
  shows "r = ADDITEM_SUCCESS \<Longrightarrow> gained (it_nameid item) amount sd sd'"
    "r \<noteq> ADDITEM_SUCCESS \<Longrightarrow> same_goods sd sd'"
    "fresh_bag E sd \<Longrightarrow> fresh_bag E sd'"
    "inventory_ok sd'" "bag_only sd sd'" "\<exists>u. item' = item\<lparr>it_unique_id := u\<rparr>"
proof -
  let ?result = "(if r = ADDITEM_SUCCESS then gained (it_nameid item) amount sd sd' else same_goods sd sd') \<and>
    (fresh_bag E sd \<longrightarrow> fresh_bag E sd') \<and> (\<exists>u. item' = item\<lparr>it_unique_id := u\<rparr>)"
  have ?result
    using add
  proof (cases rule: additem_cases)
    case refused
    then have "\<exists>u. item' = item\<lparr>it_unique_id := u\<rparr>" by (intro exI [of _ "it_unique_id item"]) simp
    with refused show ?thesis by (simp add: same_goods_refl)
  next
    case (tried c u d w)
    let ?sdc = "with_counter c sd"
    have okc: "inventory_ok ?sdc" "length (pl_inventory ?sdc) = MAX_INVENTORY" using ok by (simp_all add: inventory_lengths)
    have freshi: "fresh_item E item'" using fresh tried(4) by (simp add: fresh_item_def)
    from tried(5) okc(2) show ?thesis
    proof (cases rule: place_cases)
      case refused
      then show ?thesis using tried(4) by (auto simp: same_goods_def)
    next
      case (stacked i)
      have "it_nameid (slot ?sdc i) = it_nameid item" using stacked(3) tried(4) by (simp add: same_stack_def)
      note g = gained_stack [OF okc(1) stacked(2) this tried(1,2) stacked(4)]
      have len: "length (pl_inventory (set_slot i f ?sdc)) = MAX_INVENTORY" for f using okc(2) by simp
      note fin = finish_same_goods [OF E freshi len]
      show ?thesis
        using gained_counter [OF gained_goods [OF g(1) fin(1)]] g(2) [of E] fin(2) stacked(1,5) tried(4) by auto
    next
      case (new_slot i c' new)
      have okc': "inventory_ok (with_counter c' ?sdc)" using okc by simp
      have g: "gained (it_nameid item) amount (with_counter c' ?sdc) (placed i new d (with_counter c' ?sdc))"
        "fresh_bag E (with_counter c' ?sdc) \<Longrightarrow> fresh_item E new \<Longrightarrow>
         fresh_bag E (placed i new d (with_counter c' ?sdc))"
        using new_slot tried by (intro gained_placed [OF okc']; simp)+
      have "fresh_item E new" using freshi new_slot(6) by (simp add: fresh_item_def)
      moreover have len: "length (pl_inventory (placed i new d (with_counter c' ?sdc))) = MAX_INVENTORY"
        using okc(2) by (simp add: placed_def)
      note fin = finish_same_goods [OF E freshi len]
      ultimately show ?thesis
        using gained_counter [OF gained_counter [OF gained_goods [OF g(1) fin(1)]]] g(2) fin(2) new_slot(1,7) tried(4)
        by auto
    qed
  qed
  then show "r = ADDITEM_SUCCESS \<Longrightarrow> gained (it_nameid item) amount sd sd'"
    "r \<noteq> ADDITEM_SUCCESS \<Longrightarrow> same_goods sd sd'" "fresh_bag E sd \<Longrightarrow> fresh_bag E sd'"
    "\<exists>u. item' = item\<lparr>it_unique_id := u\<rparr>" by (simp_all split: if_splits)
  from \<open>?result\<close> ok show "inventory_ok sd'" "bag_only sd sd'"
    by (auto simp: gained_def same_goods_def split: if_splits)
qed

end
