(* ===== verification/TradeExchange.thy ===== *)
theory TradeExchange
  imports Trade Stock
begin

text \<open>
  The exchange at the end of a trade: nothing is created, nothing is lost, and each side gets
  exactly the zeny the other offered.
\<close>

section \<open>What is left to give\<close>

text \<open>How much of a slot a list of offers asks for.\<close>

fun demand :: "(int \<times> int) list \<Rightarrow> nat \<Rightarrow> int" where
  "demand [] j = 0"
| "demand ((n, m) # ds) j = (if nat n = j then m else 0) + demand ds j"

definition offers_ok :: "(int \<times> int) list \<Rightarrow> bool" where
  "offers_ok ds \<longleftrightarrow> (\<forall>(n, m) \<in> set ds. 0 \<le> n \<and> n < int MAX_INVENTORY \<and> 0 \<le> m \<and> m \<le> MAX_AMOUNT)"

text \<open>From position \<open>t\<close> on the offers ask for no more than the inventory holds.\<close>

definition covers :: "nat \<Rightarrow> player \<Rightarrow> bool" where
  "covers t sd \<longleftrightarrow> (\<forall>j < MAX_INVENTORY. demand (drop t (pl_deal_item sd)) j \<le> it_amount (slot sd j))"

lemma demand_nonneg: "offers_ok ds \<Longrightarrow> 0 \<le> demand ds j"
  by (induction ds j rule: demand.induct) (auto simp: offers_ok_def)

lemma covers_step:
  assumes "covers t sd" "t < length (pl_deal_item sd)" "pl_deal_item sd ! t = (n, m)" "j < MAX_INVENTORY"
  shows "(if nat n = j then m else 0) + demand (drop (Suc t) (pl_deal_item sd)) j \<le> it_amount (slot sd j)"
proof -
  have "drop t (pl_deal_item sd) = (n, m) # drop (Suc t) (pl_deal_item sd)"
    using assms(2,3) by (simp add: Cons_nth_drop_Suc [symmetric])
  with assms(1,4) show ?thesis by (auto simp: covers_def)
qed

lemma covers_here:
  assumes "covers t sd" "t < length (pl_deal_item sd)" "pl_deal_item sd ! t = (n, m)"
    "0 \<le> n" "n < int MAX_INVENTORY" "offers_ok (pl_deal_item sd)"
  shows "m \<le> it_amount (slot sd (nat n))"
proof -
  have "offers_ok (drop (Suc t) (pl_deal_item sd))"
    using assms(6) by (auto simp: offers_ok_def dest: in_set_dropD)
  from demand_nonneg [OF this, of "nat n"] covers_step [OF assms(1-3), of "nat n"] assms(4,5)
  show ?thesis by (simp add: nat_less_iff)
qed

text \<open>The check against cheating means that the offers are covered.\<close>

lemma not_exceeding:
  "\<not> exceeds_inventory bag ds \<Longrightarrow> offers_ok ds \<Longrightarrow> length bag = MAX_INVENTORY \<Longrightarrow>
   \<forall>j < MAX_INVENTORY. 0 \<le> it_amount (bag ! j) \<and> it_amount (bag ! j) \<le> MAX_AMOUNT \<Longrightarrow>
   j < MAX_INVENTORY \<Longrightarrow> demand ds j \<le> it_amount (bag ! j)"
proof (induction ds arbitrary: bag)
  case (Cons d ds)
  obtain n m where d: "d = (n, m)" by (cases d)
  have nm: "0 \<le> n" "nat n < MAX_INVENTORY" "0 \<le> m" and ds: "offers_ok ds"
    using Cons.prems(2) by (auto simp: d offers_ok_def)
  show ?case
  proof (cases "m = 0")
    case True
    with Cons d ds show ?thesis by simp
  next
    case False
    let ?it = "bag ! nat n"
    let ?bag = "bag[nat n := ?it\<lparr>it_amount := to_int16 (it_amount ?it - m)\<rparr>]"
    have enough: "m \<le> it_amount ?it" and rest: "\<not> exceeds_inventory ?bag ds"
      using Cons.prems(1) False by (auto simp: d Let_def split: if_splits)
    have range: "0 \<le> it_amount ?it" "it_amount ?it \<le> MAX_AMOUNT" using Cons.prems(4) nm by auto
    have int16: "to_int16 (it_amount ?it - m) = it_amount ?it - m"
      using enough range nm by (intro to_int16_id) (simp_all add: MAX_AMOUNT_def)
    have bag: "it_amount (?bag ! k) = (if k = nat n then it_amount ?it - m else it_amount (bag ! k))"
      if "k < MAX_INVENTORY" for k
      using that Cons.prems(3) nm by (simp add: nth_list_update int16)
    have "\<forall>k < MAX_INVENTORY. 0 \<le> it_amount (?bag ! k) \<and> it_amount (?bag ! k) \<le> MAX_AMOUNT"
      using Cons.prems(4) enough range nm by (auto simp: bag)
    from Cons.IH [OF rest ds _ this Cons.prems(5)] Cons.prems(3) have "demand ds j \<le> it_amount (?bag ! j)" by simp
    with bag [OF Cons.prems(5)] show ?thesis by (auto simp: d split: if_splits)
  qed
qed simp

section \<open>A player ready to exchange\<close>

definition ready :: "trade_env \<Rightarrow> player \<Rightarrow> bool" where
  "ready E sd \<longleftrightarrow> inventory_ok sd \<and> fresh_bag E sd \<and> offers_ok (pl_deal_item sd) \<and>
     length (pl_deal_item sd) = TRADE_ITEMS \<and> 0 \<le> pl_zeny sd \<and> pl_zeny sd \<le> MAX_ZENY \<and> 0 \<le> pl_deal_zeny sd"

lemma check_covers:
  assumes ready: "ready E sd" and check: "fst (impossible_trade_check E sd) = 0"
  shows "covers 0 sd" "pl_deal_zeny sd \<le> pl_zeny sd" "snd (impossible_trade_check E sd) = sd"
proof -
  have no: "\<not> exceeds_inventory (tradeable_slots (pl_inventory sd)) (pl_deal_item sd)" "pl_deal_zeny sd \<le> pl_zeny sd"
    using check ready by (auto simp: impossible_trade_check_def ready_def split: if_splits)
  then show "pl_deal_zeny sd \<le> pl_zeny sd" "snd (impossible_trade_check E sd) = sd"
    using ready by (simp_all add: impossible_trade_check_def ready_def)
  have ok: "inventory_ok sd" "offers_ok (pl_deal_item sd)" using ready by (simp_all add: ready_def)
  have len: "length (tradeable_slots (pl_inventory sd)) = MAX_INVENTORY"
    using ok by (simp add: tradeable_slots_def inventory_lengths)
  have less: "0 \<le> it_amount (tradeable_slots (pl_inventory sd) ! j) \<and>
      it_amount (tradeable_slots (pl_inventory sd) ! j) \<le> it_amount (slot sd j)" if "j < MAX_INVENTORY" for j
    using that inventory_okD [OF ok(1) that] ok(1) by (simp add: tradeable_slots_def inventory_lengths)
  then have "\<forall>j < MAX_INVENTORY. 0 \<le> it_amount (tradeable_slots (pl_inventory sd) ! j) \<and>
      it_amount (tradeable_slots (pl_inventory sd) ! j) \<le> MAX_AMOUNT"
    using inventory_okD(2) [OF ok(1)] by (fastforce simp: MAX_AMOUNT_def)
  from not_exceeding [OF no(1) ok(2) len this] less show "covers 0 sd" by (fastforce simp: covers_def)
qed

section \<open>Giving one item\<close>

text \<open>One side of the exchange, with positions from \<open>t\<close> on still to be given.\<close>

definition side :: "trade_env \<Rightarrow> nat \<Rightarrow> player \<Rightarrow> bool" where
  "side E t sd \<longleftrightarrow> inventory_ok sd \<and> fresh_bag E sd \<and> offers_ok (pl_deal_item sd) \<and>
     length (pl_deal_item sd) = TRADE_ITEMS \<and> covers t sd"

text \<open>Purse, bank, identity and the state of the trade are kept.\<close>

definition kept :: "player \<Rightarrow> player \<Rightarrow> bool" where
  "kept sd sd' \<longleftrightarrow> pl_id sd' = pl_id sd \<and> pl_account_id sd' = pl_account_id sd \<and> pl_zeny sd' = pl_zeny sd \<and>
     pl_bank_vault sd' = pl_bank_vault sd \<and> pl_trading sd' = pl_trading sd \<and>
     pl_deal_locked sd' = pl_deal_locked sd \<and> pl_partner_id sd' = pl_partner_id sd \<and> pl_deal_zeny sd' = pl_deal_zeny sd"

lemma kept_refl: "kept sd sd"
  by (simp add: kept_def)

lemma kept_trans: "kept sd1 sd2 \<Longrightarrow> kept sd2 sd3 \<Longrightarrow> kept sd1 sd3"
  by (simp add: kept_def)

lemma kept_bag: "bag_only sd sd' \<Longrightarrow> kept sd sd'"
  by (simp add: kept_def bag_only_simps)

lemma unique_id_goods:
  assumes "inventory_ok sd" "i < MAX_INVENTORY"
  shows "same_goods sd (set_slot i (\<lambda>it. it\<lparr>it_unique_id := u\<rparr>) sd)"
    "fresh_bag E (set_slot i (\<lambda>it. it\<lparr>it_unique_id := u\<rparr>) sd) = fresh_bag E sd"
    "it_nameid (slot (set_slot i (\<lambda>it. it\<lparr>it_unique_id := u\<rparr>) sd) i) = it_nameid (slot sd i)"
proof -
  let ?f = "\<lambda>it :: item. it\<lparr>it_unique_id := u\<rparr>"
  have len: "i < length (pl_inventory sd)" using assms by (simp add: inventory_lengths)
  have "item_ok (slot sd i)" "it_nameid (slot sd i) \<noteq> 0 \<longrightarrow> pl_inventory_data sd ! i \<noteq> None"
    using assms unfolding inventory_ok_def by blast+
  then have "inventory_ok (set_slot i ?f sd)"
    by (intro inventory_ok_set_slot assms) (simp_all add: item_ok_def)
  then show "same_goods sd (set_slot i ?f sd)"
    using len by (simp add: same_goods_def bag_only_set_slot stock_set_slot units_def slot_set_slot)
  have "it_expire_time (slot (set_slot i ?f sd) j) = it_expire_time (slot sd j)" for j
    using len by (simp add: slot_set_slot)
  then show "fresh_bag E (set_slot i ?f sd) = fresh_bag E sd" by (simp add: fresh_bag_def fresh_item_def)
  show "it_nameid (slot (set_slot i ?f sd) i) = it_nameid (slot sd i)" using len by (simp add: slot_set_slot)
qed

definition clear_offer :: "nat \<Rightarrow> player \<Rightarrow> player" where
  "clear_offer t sd = sd\<lparr>pl_deal_item := (pl_deal_item sd)[t := (0, 0)]\<rparr>"

lemma clear_offer_simps [simp]:
  "pl_inventory (clear_offer t sd) = pl_inventory sd" "stock nid (clear_offer t sd) = stock nid sd"
  "inventory_ok (clear_offer t sd) = inventory_ok sd" "fresh_bag E (clear_offer t sd) = fresh_bag E sd"
  "kept sd (clear_offer t sd)" "pl_deal_item (clear_offer t sd) = (pl_deal_item sd)[t := (0, 0)]"
  by (simp_all add: clear_offer_def stock_def inventory_ok_def fresh_bag_def kept_def)

lemma offers_ok_clear: "offers_ok ds \<Longrightarrow> offers_ok (ds[t := (0, 0)])"
  using set_update_subset_insert [of ds t "(0, 0)"]
  by (fastforce simp: offers_ok_def MAX_AMOUNT_def MAX_INVENTORY_def)

text \<open>The giver may lose up to the offered amount from the offered slot, and the receiver loses nothing.\<close>

lemma side_given:
  assumes s: "side E t sd" and t: "t < TRADE_ITEMS" and offer: "pl_deal_item sd ! t = (n, m)"
    and ok: "inventory_ok sd2" "fresh_bag E sd2" and deal: "pl_deal_item sd2 = pl_deal_item sd"
    and amounts: "\<And>j. j < MAX_INVENTORY \<Longrightarrow> it_amount (slot sd j) - (if j = nat n then m else 0) \<le> it_amount (slot sd2 j)"
  shows "side E (Suc t) (clear_offer t sd2)"
proof -
  have s': "offers_ok (pl_deal_item sd)" "length (pl_deal_item sd) = TRADE_ITEMS" "covers t sd"
    using s by (simp_all add: side_def)
  have "demand (drop (Suc t) (pl_deal_item sd)) j \<le> it_amount (slot sd2 j)" if j: "j < MAX_INVENTORY" for j
    using covers_step [OF s'(3) _ offer j] amounts [OF j] t s'(2) by (auto split: if_splits)
  with s' ok deal show ?thesis by (simp add: side_def covers_def offers_ok_clear)
qed

lemma side_grows:
  assumes s: "side E u sd" and ok: "inventory_ok sd2" "fresh_bag E sd2" and deal: "pl_deal_item sd2 = pl_deal_item sd"
    and amounts: "\<And>j. j < MAX_INVENTORY \<Longrightarrow> it_amount (slot sd j) \<le> it_amount (slot sd2 j)"
  shows "side E u sd2"
  using assms unfolding side_def covers_def by (metis order_trans)

lemma give_item_spec:
  assumes ab: "a \<noteq> b" and a: "um_find w a = Some sd" and b: "um_find w b = Some tsd"
    and E: "equip_neutral E" and sa: "side E t sd" and sb: "side E u tsd" and t: "t < TRADE_ITEMS"
  defines "w' \<equiv> give_item E a b t w"
  shows "\<exists>sd' tsd'. um_find w' a = Some sd' \<and> um_find w' b = Some tsd' \<and>
    (\<forall>k. k \<noteq> a \<and> k \<noteq> b \<longrightarrow> um_find w' k = um_find w k) \<and> side E (Suc t) sd' \<and> side E u tsd' \<and>
    (\<forall>nid. stock nid sd' + stock nid tsd' = stock nid sd + stock nid tsd) \<and> kept sd sd' \<and> kept tsd tsd'"
proof -
  obtain n m where offer: "pl_deal_item sd ! t = (n, m)" by fastforce
  have oka: "inventory_ok sd" "fresh_bag E sd" "offers_ok (pl_deal_item sd)" "t < length (pl_deal_item sd)" "covers t sd"
    and okb: "inventory_ok tsd" "fresh_bag E tsd" using sa sb t by (simp_all add: side_def)
  have nm: "0 \<le> n" "n < int MAX_INVENTORY" "0 \<le> m"
    using oka(3,4) offer nth_mem [OF oka(4)] by (auto simp: offers_ok_def)
  then have i: "nat n < MAX_INVENTORY" by simp
  show ?thesis
  proof (cases "m = 0")
    case True
    have "side E (Suc t) sd"
      using sa covers_step [OF oka(5,4) offer [unfolded True]] by (simp add: side_def covers_def)
    moreover have "w' = w" using a b offer True by (simp add: w'_def give_item_def)
    ultimately show ?thesis using a b sb by (simp add: kept_refl)
  next
    case False
    obtain r tsd' item' where add: "pc_additem E (slot sd (nat n)) m False tsd = (r, tsd', item')"
      by (metis prod_cases3)
    have fresh: "fresh_item E (slot sd (nat n))" using oka(2) i by (simp add: fresh_bag_def)
    note A = additem_spec [OF okb(1) E fresh add]
    define sd1 where "sd1 = set_slot (nat n) (\<lambda>it. it\<lparr>it_unique_id := it_unique_id item'\<rparr>) sd"
    note U = unique_id_goods [OF oka(1) i, where u = "it_unique_id item'", folded sd1_def]
    have sd1: "inventory_ok sd1" "fresh_bag E sd1" "bag_only sd sd1" "\<And>nid. stock nid sd1 = stock nid sd"
      "\<And>j. j < MAX_INVENTORY \<Longrightarrow> it_amount (slot sd1 j) = it_amount (slot sd j)"
      using U(1) U(2) [where E = E] oka(1,2) by (simp_all add: same_goods_def)
    have m1: "0 < m" "m \<le> it_amount (slot sd1 (nat n))"
      using nm False covers_here [OF oka(5,4) offer nm(1,2) oka(3)] sd1(5) [OF i] by simp_all
    define sd2 where "sd2 = (if r = ADDITEM_SUCCESS then snd (pc_delitem E (int (nat n)) m sd1) else sd1)"
    note D = delitem_spec [OF sd1(1) E i m1]
    have sd2: "inventory_ok sd2" "fresh_bag E sd2" "bag_only sd sd2"
      using D(2,3,6) sd1 bag_only_trans [OF sd1(3)] by (simp_all add: sd2_def)
    have amounts: "it_amount (slot sd j) - (if j = nat n then m else 0) \<le> it_amount (slot sd2 j)"
      if "j < MAX_INVENTORY" for j
      using D(5) [OF that] sd1(5) [OF that] nm by (auto simp: sd2_def)
    have stock: "stock nid sd2 + stock nid tsd' = stock nid sd + stock nid tsd" for nid
      using A(1,2) D(4) sd1(4) U(3) by (auto simp: sd2_def gained_def same_goods_def)
    have grow: "it_amount (slot tsd j) \<le> it_amount (slot tsd' j)" if "j < MAX_INVENTORY" for j
      using A(1,2) that by (cases "r = ADDITEM_SUCCESS") (simp_all add: gained_def same_goods_def)
    have w': "w' = upd a (clear_offer t) ((if r = ADDITEM_SUCCESS
        then upd a (\<lambda>sd. snd (pc_delitem E n m sd)) else (\<lambda>w. w))
          (upd a (set_slot (nat n) (\<lambda>it. it\<lparr>it_unique_id := it_unique_id item'\<rparr>)) (upd b (\<lambda>_. tsd') w)))"
      using a b offer False add by (simp add: w'_def give_item_def clear_offer_def [abs_def])
    have "um_find w' a = Some (clear_offer t sd2)" "um_find w' b = Some tsd'"
      "\<forall>k. k \<noteq> a \<and> k \<noteq> b \<longrightarrow> um_find w' k = um_find w k"
      using ab a b nm by (simp_all add: w' umap_simps sd2_def sd1_def)
    moreover have "side E (Suc t) (clear_offer t sd2)"
      by (rule side_given [OF sa t offer sd2(1,2) _ amounts]) (simp_all add: bag_only_simps [OF sd2(3)])
    moreover have "side E u tsd'"
      by (rule side_grows [OF sb A(4) A(3) [OF okb(2)] _ grow]) (simp_all add: bag_only_simps [OF A(5)])
    moreover have "kept sd (clear_offer t sd2)" "kept tsd tsd'"
      using kept_trans [OF kept_bag [OF sd2(3)] clear_offer_simps(5)] kept_bag [OF A(5)] by simp_all
    moreover have "stock nid (clear_offer t sd2) + stock nid tsd' = stock nid sd + stock nid tsd" for nid
      using stock by simp
    ultimately show ?thesis by blast
  qed
qed

section \<open>The whole exchange\<close>

text \<open>Two players of a world between two states of it: goods are only moved between them.\<close>

definition swapped :: "uint32 \<Rightarrow> uint32 \<Rightarrow> trade_world \<Rightarrow> trade_world \<Rightarrow> (player \<Rightarrow> bool) \<Rightarrow> (player \<Rightarrow> bool) \<Rightarrow> bool" where
  "swapped a b w w' P Q \<longleftrightarrow> (\<exists>sd tsd sd' tsd'. um_find w a = Some sd \<and> um_find w b = Some tsd \<and>
     um_find w' a = Some sd' \<and> um_find w' b = Some tsd' \<and> (\<forall>k. k \<noteq> a \<and> k \<noteq> b \<longrightarrow> um_find w' k = um_find w k) \<and>
     (\<forall>nid. stock nid sd' + stock nid tsd' = stock nid sd + stock nid tsd) \<and> kept sd sd' \<and> kept tsd tsd' \<and> P sd' \<and> Q tsd')"

lemma swapped_refl:
  "um_find w a = Some sd \<Longrightarrow> um_find w b = Some tsd \<Longrightarrow> P sd \<Longrightarrow> Q tsd \<Longrightarrow> swapped a b w w P Q"
  by (simp add: swapped_def kept_refl)

lemma swapped_trans:
  assumes "swapped a b w1 w2 P Q" "swapped a b w2 w3 P' Q'"
  shows "swapped a b w1 w3 P' Q'"
proof -
  from assms(1) obtain sd1 tsd1 sd2 tsd2 where 1: "um_find w1 a = Some sd1" "um_find w1 b = Some tsd1"
    "um_find w2 a = Some sd2" "um_find w2 b = Some tsd2" "\<forall>k. k \<noteq> a \<and> k \<noteq> b \<longrightarrow> um_find w2 k = um_find w1 k"
    "\<forall>nid. stock nid sd2 + stock nid tsd2 = stock nid sd1 + stock nid tsd1" "kept sd1 sd2" "kept tsd1 tsd2"
    unfolding swapped_def by blast
  with assms(2) obtain sd3 tsd3 where 2: "um_find w3 a = Some sd3" "um_find w3 b = Some tsd3"
    "\<forall>k. k \<noteq> a \<and> k \<noteq> b \<longrightarrow> um_find w3 k = um_find w2 k"
    "\<forall>nid. stock nid sd3 + stock nid tsd3 = stock nid sd2 + stock nid tsd2" "kept sd2 sd3" "kept tsd2 tsd3" "P' sd3" "Q' tsd3"
    unfolding swapped_def by auto
  have "kept sd1 sd3" "kept tsd1 tsd3" using kept_trans 1(7,8) 2(5,6) by blast+
  with 1 2 show ?thesis unfolding swapped_def by auto
qed

lemma give_swapped:
  assumes "a \<noteq> b" "swapped a b w0 w (side E t) (side E u)" "equip_neutral E" "t < TRADE_ITEMS"
  shows "swapped a b w0 (give_item E a b t w) (side E (Suc t)) (side E u)"
proof -
  obtain sd tsd where f: "um_find w a = Some sd" "um_find w b = Some tsd" "side E t sd" "side E u tsd"
    using assms(2) unfolding swapped_def by blast
  have "swapped a b w (give_item E a b t w) (side E (Suc t)) (side E u)"
    using give_item_spec [OF assms(1) f(1,2) assms(3) f(3,4) assms(4)] f(1,2) unfolding swapped_def by blast
  with assms(2) show ?thesis by (rule swapped_trans)
qed

lemma swapped_sym: "swapped a b w w' P Q \<Longrightarrow> swapped b a w w' Q P"
  unfolding swapped_def by (metis add.commute)

lemma items_swapped:
  assumes "a \<noteq> b" "swapped a b w w (side E 0) (side E 0)" "equip_neutral E"
  shows "n \<le> TRADE_ITEMS \<Longrightarrow>
    swapped a b w (fold (\<lambda>t w. give_item E b a t (give_item E a b t w)) [0..<n] w) (side E n) (side E n)"
proof (induction n)
  case 0
  then show ?case using assms(2) by simp
next
  case (Suc n)
  then have "swapped a b w (fold (\<lambda>t w. give_item E b a t (give_item E a b t w)) [0..<n] w) (side E n) (side E n)"
    and n: "n < TRADE_ITEMS" by simp_all
  from give_swapped [OF assms(1) this(1) assms(3) n] give_swapped [OF assms(1) [symmetric] swapped_sym assms(3) n]
  show ?case by (simp add: swapped_sym)
qed

text \<open>Paying what one has, and receiving what fits, moves exactly the amount.\<close>

lemma payzeny_exact: "0 \<le> z \<Longrightarrow> z \<le> pl_zeny sd \<Longrightarrow> z \<le> MAX_ZENY \<Longrightarrow> snd (pc_payzeny z sd) = sd\<lparr>pl_zeny := pl_zeny sd - z\<rparr>"
  by (auto simp: pc_payzeny_def cap_value_def Let_def MAX_ZENY_def)

lemma getzeny_exact: "0 \<le> z \<Longrightarrow> z \<le> MAX_ZENY - pl_zeny sd \<Longrightarrow> z \<le> MAX_ZENY \<Longrightarrow> snd (pc_getzeny z sd) = sd\<lparr>pl_zeny := pl_zeny sd + z\<rparr>"
  by (auto simp: pc_getzeny_def cap_value_def Let_def MAX_ZENY_def)

lemma give_zeny_spec:
  assumes ab: "a \<noteq> b" and a: "um_find w a = Some sd" and b: "um_find w b = Some tsd"
    and z: "0 \<le> pl_deal_zeny sd" "pl_deal_zeny sd \<le> pl_zeny sd" "pl_zeny tsd \<le> MAX_ZENY - pl_deal_zeny sd" "0 \<le> pl_zeny tsd"
  shows "um_find (give_zeny a b w) k =
    (if k = a then Some (sd\<lparr>pl_zeny := pl_zeny sd - pl_deal_zeny sd, pl_deal_zeny := 0\<rparr>)
     else if k = b then Some (tsd\<lparr>pl_zeny := pl_zeny tsd + pl_deal_zeny sd\<rparr>) else um_find w k)"
proof (cases "pl_deal_zeny sd = 0")
  case True
  then show ?thesis using a b by (simp add: give_zeny_def)
next
  case False
  with z show ?thesis
    using a b ab by (simp add: give_zeny_def umap_simps payzeny_exact getzeny_exact Let_def)
qed

text \<open>The zeny conditions of \<open>trade_check\<close>.\<close>

definition zeny_fits :: "player \<Rightarrow> player \<Rightarrow> bool" where
  "zeny_fits sd tsd \<longleftrightarrow> 0 \<le> pl_deal_zeny sd \<and> pl_deal_zeny sd \<le> pl_zeny sd \<and> pl_zeny tsd \<le> MAX_ZENY - pl_deal_zeny sd \<and> 0 \<le> pl_zeny tsd"

text \<open>No trade is going on or asked for.\<close>

definition idle :: "player \<Rightarrow> bool" where
  "idle sd \<longleftrightarrow> \<not> pl_trading sd \<and> pl_partner_id sd = 0 \<and> pl_deal_locked sd = 0"

definition same_person :: "player \<Rightarrow> player \<Rightarrow> bool" where
  "same_person sd sd' \<longleftrightarrow> pl_id sd' = pl_id sd \<and> pl_account_id sd' = pl_account_id sd"

lemma exchange_spec:
  assumes ab: "a \<noteq> b" and a: "um_find w a = Some sd" and b: "um_find w b = Some tsd" and E: "equip_neutral E"
    and side: "side E 0 sd" "side E 0 tsd" and zeny: "zeny_fits sd tsd" "zeny_fits tsd sd"
  defines "w' \<equiv> exchange E a b w"
  shows "\<exists>sd' tsd'. um_find w' a = Some sd' \<and> um_find w' b = Some tsd' \<and>
    (\<forall>k. k \<noteq> a \<and> k \<noteq> b \<longrightarrow> um_find w' k = um_find w k) \<and>
    (\<forall>nid. stock nid sd' + stock nid tsd' = stock nid sd + stock nid tsd) \<and>
    pl_zeny sd' = pl_zeny sd - pl_deal_zeny sd + pl_deal_zeny tsd \<and>
    pl_zeny tsd' = pl_zeny tsd - pl_deal_zeny tsd + pl_deal_zeny sd \<and>
    pl_bank_vault sd' = pl_bank_vault sd \<and> pl_bank_vault tsd' = pl_bank_vault tsd \<and>
    ready E sd' \<and> ready E tsd' \<and> idle sd' \<and> idle tsd' \<and> same_person sd sd' \<and> same_person tsd tsd'"
proof -
  define w1 where "w1 = fold (\<lambda>t w. give_item E b a t (give_item E a b t w)) [0..<TRADE_ITEMS] w"
  have "swapped a b w w (side E 0) (side E 0)" using a b side by (simp add: swapped_refl)
  from items_swapped [OF ab this E order_refl] obtain sd1 tsd1 where
    w1: "um_find w1 a = Some sd1" "um_find w1 b = Some tsd1" "\<forall>k. k \<noteq> a \<and> k \<noteq> b \<longrightarrow> um_find w1 k = um_find w k"
    and stock: "\<forall>nid. stock nid sd1 + stock nid tsd1 = stock nid sd + stock nid tsd"
    and kept: "kept sd sd1" "kept tsd tsd1" and sides: "side E TRADE_ITEMS sd1" "side E TRADE_ITEMS tsd1"
    using a b unfolding swapped_def w1_def [symmetric] by auto
  define sd2 where "sd2 = sd1\<lparr>pl_zeny := pl_zeny sd - pl_deal_zeny sd, pl_deal_zeny := 0\<rparr>"
  define tsd2 where "tsd2 = tsd1\<lparr>pl_zeny := pl_zeny tsd + pl_deal_zeny sd\<rparr>"
  have z1: "um_find (give_zeny a b w1) k = (if k = a then Some sd2 else if k = b then Some tsd2 else um_find w1 k)" for k
    using give_zeny_spec [OF ab w1(1,2), of k] zeny kept by (simp add: zeny_fits_def kept_def sd2_def tsd2_def)
  define sd3 where "sd3 = sd2\<lparr>pl_zeny := pl_zeny sd - pl_deal_zeny sd + pl_deal_zeny tsd\<rparr>"
  define tsd3 where "tsd3 = tsd2\<lparr>pl_zeny := pl_zeny tsd + pl_deal_zeny sd - pl_deal_zeny tsd, pl_deal_zeny := 0\<rparr>"
  have z2: "um_find (give_zeny b a (give_zeny a b w1)) k =
      (if k = b then Some tsd3 else if k = a then Some sd3 else um_find w1 k)" for k
    using give_zeny_spec [of b a "give_zeny a b w1" tsd2 sd2 k] ab zeny kept
    by (simp add: z1 zeny_fits_def kept_def sd2_def tsd2_def sd3_def tsd3_def)
  have w': "w' = upd b finish_trading (upd a finish_trading (give_zeny b a (give_zeny a b w1)))"
    by (simp add: w'_def exchange_def w1_def)
  have goods: "stock nid (finish_trading sd3) = stock nid sd1" "stock nid (finish_trading tsd3) = stock nid tsd1"
    "inventory_ok (finish_trading sd3)" "inventory_ok (finish_trading tsd3)"
    "fresh_bag E (finish_trading sd3)" "fresh_bag E (finish_trading tsd3)" for nid
    using sides by (simp_all add: finish_trading_def sd3_def sd2_def tsd3_def tsd2_def stock_def side_def inventory_ok_def fresh_bag_def)
  have "ready E (finish_trading sd3)" "ready E (finish_trading tsd3)"
    using goods sides zeny
    by (simp_all add: ready_def side_def zeny_fits_def) (simp_all add: finish_trading_def sd3_def sd2_def tsd3_def tsd2_def)
  moreover have "um_find w' a = Some (finish_trading sd3)" "um_find w' b = Some (finish_trading tsd3)"
    "\<forall>k. k \<noteq> a \<and> k \<noteq> b \<longrightarrow> um_find w' k = um_find w k"
    using ab w1(3) by (auto simp: w' umap_simps z2)
  ultimately show ?thesis
    using stock kept goods(1,2)
    by (intro exI [of _ "finish_trading sd3"] exI [of _ "finish_trading tsd3"])
      (simp add: finish_trading_def sd3_def sd2_def tsd3_def tsd2_def kept_def idle_def same_person_def)
qed

end
