(* ===== verification/Hoard.thy ===== *)
theory Hoard
  imports Containers TradeExchange
begin

text \<open>
  Moving items between inventory, cart and storage moves them: nothing is created, nothing is lost, and
  the counters of occupied slots stay right.
\<close>

section \<open>Lists of items\<close>

definition holding :: "uint32 \<Rightarrow> item list \<Rightarrow> int" where
  "holding nid items = (\<Sum>it \<leftarrow> items. units nid it)"

definition occupied :: "item list \<Rightarrow> nat" where
  "occupied items = length (filter (\<lambda>it. it_nameid it \<noteq> 0) items)"

definition box_ok :: "('a item_env_scheme) \<Rightarrow> nat \<Rightarrow> item list \<Rightarrow> bool" where
  "box_ok E n items \<longleftrightarrow> length items = n \<and> list_all (\<lambda>it. item_ok it \<and> fresh_item E it) items"

lemma box_okD:
  assumes "box_ok E n items" "i < n"
  shows "length items = n" "item_ok (items ! i)" "fresh_item E (items ! i)"
  using assms by (auto simp: box_ok_def list_all_length)

lemma box_ok_update:
  "box_ok E n items \<Longrightarrow> item_ok x \<Longrightarrow> fresh_item E x \<Longrightarrow> box_ok E n (items[i := x])"
  by (auto simp: box_ok_def list_all_iff dest!: set_update_subset_insert [THEN subsetD])

lemma holding_update: "i < length items \<Longrightarrow> holding nid (items[i := x]) = holding nid items - units nid (items ! i) + units nid x"
  by (simp add: holding_def sum_map_update)

lemma occupied_sum: "int (occupied items) = (\<Sum>it \<leftarrow> items. if it_nameid it \<noteq> 0 then 1 else 0)"
  by (induction items) (simp_all add: occupied_def)

lemma occupied_update:
  "i < length items \<Longrightarrow> int (occupied (items[i := x])) = int (occupied items) -
     (if it_nameid (items ! i) \<noteq> 0 then 1 else 0) + (if it_nameid x \<noteq> 0 then 1 else 0)"
  unfolding occupied_sum by (rule sum_map_update)

text \<open>What the same list of items holds after a change by \<open>change\<close> of the item \<open>nameid\<close>.\<close>

definition changed :: "('a item_env_scheme) \<Rightarrow> nat \<Rightarrow> uint32 \<Rightarrow> int \<Rightarrow> int \<Rightarrow> item list \<Rightarrow> item list \<Rightarrow> bool" where
  "changed E n nameid change slots items items' \<longleftrightarrow> box_ok E n items' \<and>
     (\<forall>nid. holding nid items' = holding nid items + (if nid = nameid then change else 0)) \<and>
     int (occupied items') = int (occupied items) + slots"

lemma changed_trans:
  "changed E n nameid c1 s1 xs ys \<Longrightarrow> changed E n nameid c2 s2 ys zs \<Longrightarrow> changed E n nameid (c1 + c2) (s1 + s2) xs zs"
  by (auto simp: changed_def)

text \<open>Changes of one slot: what it is worn as, flags and ids do not matter.\<close>

lemma changed_slot:
  assumes ok: "box_ok E n items" and i: "i < n" and x: "item_ok x" "fresh_item E x"
    and same: "it_nameid x = it_nameid (items ! i)"
  shows "changed E n (it_nameid (items ! i)) (it_amount x - it_amount (items ! i)) 0 items (items[i := x])"
proof -
  have "length items = n" using ok by (simp add: box_ok_def)
  with i same box_ok_update [OF ok x] show ?thesis
    by (auto simp: changed_def holding_update units_def occupied_update)
qed

lemma changed_new:
  assumes ok: "box_ok E n items" and i: "i < n" and x: "item_ok x" "fresh_item E x" "it_nameid x \<noteq> 0"
    and empty: "it_nameid (items ! i) = 0"
  shows "changed E n (it_nameid x) (it_amount x) 1 items (items[i := x])"
proof -
  have len: "length items = n" using ok by (simp add: box_ok_def)
  have "it_amount (items ! i) = 0" using box_okD(2) [OF ok i] empty by (simp add: item_ok_def)
  with i x len box_ok_update [OF ok x(1,2)] empty show ?thesis
    by (auto simp: changed_def holding_update units_def occupied_update)
qed

lemma zero_item_ok: "item_ok zero_item" "fresh_item E zero_item" "it_nameid zero_item = 0" "it_amount zero_item = 0"
  by (simp_all add: item_ok_def fresh_item_def zero_item_def MAX_AMOUNT_def)

lemma changed_clear:
  assumes ok: "box_ok E n items" and i: "i < n" and name: "it_nameid (items ! i) \<noteq> 0"
  shows "changed E n (it_nameid (items ! i)) (- it_amount (items ! i)) (- 1) items (items[i := zero_item])"
proof -
  have "length items = n" using ok by (simp add: box_ok_def)
  with i name box_ok_update [OF ok zero_item_ok(1,2)] show ?thesis
    by (auto simp: changed_def holding_update units_def occupied_update zero_item_ok)
qed

section \<open>Taking out and putting in\<close>

text \<open>What \<open>pc_cart_delitem\<close> and \<open>storage_delitem\<close> do to the list.\<close>

definition taken :: "nat \<Rightarrow> int \<Rightarrow> item list \<Rightarrow> item list" where
  "taken i amount items = (if it_amount (items ! i) = amount then items[i := zero_item]
     else items[i := (items ! i)\<lparr>it_amount := it_amount (items ! i) - amount\<rparr>])"

lemma changed_taken:
  assumes ok: "box_ok E n items" and i: "i < n" and amount: "0 < amount" "amount \<le> it_amount (items ! i)"
  shows "changed E n (it_nameid (items ! i)) (- amount) (if it_amount (items ! i) = amount then -1 else 0) items (taken i amount items)"
proof -
  have it: "item_ok (items ! i)" "fresh_item E (items ! i)" using box_okD [OF ok i] by simp_all
  then have name: "it_nameid (items ! i) \<noteq> 0" using amount by (auto simp: item_ok_def)
  show ?thesis
  proof (cases "it_amount (items ! i) = amount")
    case True
    with changed_clear [OF ok i name] show ?thesis by (simp add: taken_def)
  next
    case False
    let ?x = "(items ! i)\<lparr>it_amount := it_amount (items ! i) - amount\<rparr>"
    have "item_ok ?x" "fresh_item E ?x" using it amount False name by (auto simp: item_ok_def fresh_item_def)
    from changed_slot [OF ok i this] False show ?thesis by (simp add: taken_def)
  qed
qed

lemma changed_joined:
  assumes ok: "box_ok E n items" and i: "i < n" and amount: "0 < amount" "amount \<le> MAX_AMOUNT - it_amount (items ! i)"
    and name: "it_nameid (items ! i) \<noteq> 0"
  shows "changed E n (it_nameid (items ! i)) amount 0 items (set_box i (\<lambda>it. it\<lparr>it_amount := to_int16 (it_amount it + amount)\<rparr>) items)"
proof -
  have it: "item_ok (items ! i)" "fresh_item E (items ! i)" using box_okD [OF ok i] by simp_all
  then have "to_int16 (it_amount (items ! i) + amount) = it_amount (items ! i) + amount"
    using amount by (intro to_int16_id) (simp_all add: item_ok_def MAX_AMOUNT_def)
  moreover have "item_ok ((items ! i)\<lparr>it_amount := it_amount (items ! i) + amount\<rparr>)"
    using it amount name by (auto simp: item_ok_def)
  moreover have "fresh_item E ((items ! i)\<lparr>it_amount := it_amount (items ! i) + amount\<rparr>)"
    using it by (simp add: fresh_item_def)
  ultimately show ?thesis using changed_slot [OF ok i, of "(items ! i)\<lparr>it_amount := it_amount (items ! i) + amount\<rparr>"]
    by (simp add: set_box_def)
qed

text \<open>Flags of a slot do not count.\<close>

lemma changed_flags:
  assumes ok: "box_ok E n items" and i: "i < n"
    and x: "it_nameid x = it_nameid (items ! i)" "it_amount x = it_amount (items ! i)" "it_expire_time x = it_expire_time (items ! i)"
  shows "changed E n nameid 0 0 items (items[i := x])"
proof -
  have "item_ok x" "fresh_item E x" using box_okD [OF ok i] x by (simp_all add: item_ok_def fresh_item_def)
  from changed_slot [OF ok i this x(1)] x(2) show ?thesis by (simp add: changed_def)
qed


section \<open>The cart\<close>

definition cart_ok :: "('a item_env_scheme) \<Rightarrow> holder \<Rightarrow> bool" where
  "cart_ok E h \<longleftrightarrow> box_ok E MAX_CART (h_cart h) \<and> h_cart_num h = int (occupied (h_cart h))"

definition cart_only :: "holder \<Rightarrow> holder \<Rightarrow> bool" where
  "cart_only h h' \<longleftrightarrow> h_sd h' = h_sd h \<and> h_storage h' = h_storage h \<and> h_premium h' = h_premium h \<and> h_guild h' = h_guild h"

lemma finish_cart:
  assumes ch: "changed E MAX_CART nameid c s (h_cart h) cart" and i: "i < MAX_CART"
  shows "changed E MAX_CART nameid c s (h_cart h) (set_box i (\<lambda>it. it\<lparr>it_favorite := False, it_equipSwitch := 0\<rparr>) cart)"
proof -
  have "box_ok E MAX_CART cart" using ch by (simp add: changed_def)
  from changed_trans [OF ch changed_flags [OF this i]] show ?thesis by (simp add: set_box_def)
qed

lemma cart_additem_spec:
  assumes ok: "cart_ok E h" and fresh: "fresh_item E item" and most: "amount \<le> MAX_AMOUNT"
    and add: "pc_cart_additem E item amount h = (r, h')"
  shows "if r = ADDITEM_SUCCESS
    then cart_ok E h' \<and> cart_only h h' \<and>
      (\<forall>nid. holding nid (h_cart h') = holding nid (h_cart h) + (if nid = it_nameid item then amount else 0))
    else h' = h"
proof (cases "r = ADDITEM_SUCCESS")
  case False
  with add show ?thesis by (auto simp: pc_cart_additem_def Let_def split: if_splits)
next
  case True
  let ?d = "itemdb_search E (it_nameid item)"
  let ?w = "sint (id_weight ?d * word_of_int amount)"
  let ?fin = "\<lambda>i. set_box i (\<lambda>it. it\<lparr>it_favorite := False, it_equipSwitch := 0\<rparr>)"
  define i where "i = (if itemdb_isstackable2 ?d \<and> it_expire_time item = 0 then arr_find (same_cart_stack item) (h_cart h) else MAX_CART)"
  define j where "j = arr_find (\<lambda>it. it_nameid it = 0) (h_cart h)"
  have box: "box_ok E MAX_CART (h_cart h)" and num: "h_cart_num h = int (occupied (h_cart h))"
    and len: "length (h_cart h) = MAX_CART" using ok by (simp_all add: cart_ok_def box_ok_def)
  have valid: "it_nameid item \<noteq> 0" "0 < amount" using add True by (auto simp: pc_cart_additem_def split: if_splits)
  show ?thesis
  proof (cases "i < MAX_CART")
    case i: True
    have stack: "same_cart_stack item (h_cart h ! i)"
      using i len arr_find_nth [of "same_cart_stack item" "h_cart h"] by (auto simp: i_def split: if_splits)
    have room: "amount \<le> MAX_AMOUNT - it_amount (h_cart h ! i)" and
      h': "h' = h\<lparr>h_cart := ?fin i (set_box i (\<lambda>it. it\<lparr>it_amount := to_int16 (it_amount it + amount)\<rparr>) (h_cart h)),
        h_cart_weight := h_cart_weight h + ?w\<rparr>"
      using add True i unfolding pc_cart_additem_def i_def [symmetric] Let_def by (auto split: if_splits)
    have name: "it_nameid (h_cart h ! i) = it_nameid item" using stack by (simp add: same_cart_stack_def)
    from finish_cart [OF changed_joined [OF box i valid(2) room] i] name valid True num show ?thesis
      by (simp add: h' cart_ok_def cart_only_def changed_def)
  next
    case i: False
    have j: "j < MAX_CART" and
      h': "h' = h\<lparr>h_cart := ?fin j (set_box j (\<lambda>_. item\<lparr>it_id := 0, it_amount := to_int16 amount\<rparr>) (h_cart h)),
        h_cart_num := h_cart_num h + 1, h_cart_weight := h_cart_weight h + ?w\<rparr>"
      using add True i arr_find_le [of "\<lambda>it. it_nameid it = 0" "h_cart h"] len
      unfolding pc_cart_additem_def i_def [symmetric] j_def [symmetric] Let_def by (auto split: if_splits)
    have empty: "it_nameid (h_cart h ! j) = 0"
      using j len arr_find_nth [of "\<lambda>it. it_nameid it = 0" "h_cart h"] by (simp add: j_def)
    let ?x = "item\<lparr>it_id := 0, it_amount := to_int16 amount\<rparr>"
    have int16: "to_int16 amount = amount" using valid most by (intro to_int16_id) (simp_all add: MAX_AMOUNT_def)
    have "item_ok ?x" "fresh_item E ?x" "it_nameid ?x \<noteq> 0"
      using valid most int16 fresh by (simp_all add: item_ok_def fresh_item_def)
    from finish_cart [OF changed_new [OF box j this empty] j] valid True num int16 show ?thesis
      by (simp add: h' cart_ok_def cart_only_def changed_def set_box_def)
  qed
qed

lemma cart_delitem_spec:
  assumes ok: "cart_ok E h" and n: "n < MAX_CART" and amount: "0 < amount" "amount \<le> it_amount (h_cart h ! n)"
  defines "h' \<equiv> pc_cart_delitem E n amount h"
  shows "cart_ok E h' \<and> cart_only h h' \<and>
    (\<forall>nid. holding nid (h_cart h') = holding nid (h_cart h) - (if nid = it_nameid (h_cart h ! n) then amount else 0))"
proof -
  have box: "box_ok E MAX_CART (h_cart h)" and num: "h_cart_num h = int (occupied (h_cart h))"
    and len: "length (h_cart h) = MAX_CART" using ok by (simp_all add: cart_ok_def box_ok_def)
  have it: "item_ok (h_cart h ! n)" using box_okD [OF box n] by simp
  then have name: "it_nameid (h_cart h ! n) \<noteq> 0" using amount by (auto simp: item_ok_def)
  have int16: "to_int16 (it_amount (h_cart h ! n) - amount) = it_amount (h_cart h ! n) - amount"
    using it amount by (intro to_int16_id) (simp_all add: item_ok_def MAX_AMOUNT_def)
  have "h_cart h' = taken n amount (h_cart h)" "cart_only h h'"
    "h_cart_num h' = h_cart_num h + (if it_amount (h_cart h ! n) = amount then -1 else 0)"
    using amount name n len
    by (simp_all add: h'_def pc_cart_delitem_def Let_def set_box_def int16 taken_def cart_only_def)
  with changed_taken [OF box n amount] num show ?thesis by (auto simp: cart_ok_def changed_def)
qed


section \<open>A storage\<close>

definition store_ok :: "('a item_env_scheme) \<Rightarrow> s_storage \<Rightarrow> bool" where
  "store_ok E s \<longleftrightarrow> box_ok E MAX_STORAGE (st_items s) \<and> st_max_amount s \<le> MAX_STORAGE \<and>
     st_amount s = word_of_int (int (occupied (st_items s)))"

lemma store_changed:
  assumes "store_ok E s" "changed E MAX_STORAGE nameid c k (st_items s) (st_items s')"
    "st_max_amount s' = st_max_amount s" "st_amount s' = st_amount s + word_of_int k"
  shows "store_ok E s' \<and> (\<forall>nid. holding nid (st_items s') = holding nid (st_items s) + (if nid = nameid then c else 0))"
  using assms by (simp add: store_ok_def changed_def)

lemma arr_find_take:
  assumes "arr_find P (take m xs) < m" "m \<le> length xs"
  shows "P (xs ! arr_find P (take m xs))"
  using assms arr_find_nth [of P "take m xs"] by simp

text \<open>The two ways an item gets into a storage: joining a stack, and filling an empty slot.\<close>

lemma store_joins:
  assumes ok: "store_ok E stor" and valid: "it_nameid it \<noteq> 0" "0 < amount"
    and i: "i = (if stackable then arr_find (\<lambda>x. compare_item x it) (take (st_max_amount stor) (st_items stor)) else st_max_amount stor)"
      "i < st_max_amount stor"
    and room: "amount \<le> MAX_AMOUNT - it_amount (st_items stor ! i)"
  defines "stor' \<equiv> stor\<lparr>st_items := set_box i (\<lambda>x. x\<lparr>it_amount := to_int16 (it_amount x + amount)\<rparr>) (st_items stor), st_dirty := True\<rparr>"
  shows "store_ok E stor' \<and>
    (\<forall>nid. holding nid (st_items stor') = holding nid (st_items stor) + (if nid = it_nameid it then amount else 0))"
proof -
  have box: "box_ok E MAX_STORAGE (st_items stor)" and m: "st_max_amount stor \<le> length (st_items stor)" "i < MAX_STORAGE"
    using ok i(2) by (simp_all add: store_ok_def box_ok_def)
  have "compare_item (st_items stor ! i) it"
    using i arr_find_take [of "\<lambda>x. compare_item x it" "st_max_amount stor" "st_items stor"] m by (cases stackable) simp_all
  then have name: "it_nameid (st_items stor ! i) = it_nameid it" by (simp add: compare_item_def)
  from changed_joined [OF box m(2) valid(2) room] name valid
  have "changed E MAX_STORAGE (it_nameid it) amount 0 (st_items stor) (st_items stor')" by (simp add: stor'_def)
  from store_changed [OF ok this] show ?thesis by (simp add: stor'_def)
qed

lemma store_news:
  assumes ok: "store_ok E stor" and fresh: "fresh_item E it" and most: "amount \<le> MAX_AMOUNT"
    and valid: "it_nameid it \<noteq> 0" "0 < amount"
    and j: "j = arr_find (\<lambda>x. it_nameid x = 0) (take (st_max_amount stor) (st_items stor))" "j < st_max_amount stor"
  defines "stor' \<equiv> stor\<lparr>st_items := set_box j (\<lambda>_. it\<lparr>it_amount := to_int16 amount\<rparr>) (st_items stor),
    st_amount := st_amount stor + 1, st_dirty := True\<rparr>"
  shows "store_ok E stor' \<and>
    (\<forall>nid. holding nid (st_items stor') = holding nid (st_items stor) + (if nid = it_nameid it then amount else 0))"
proof -
  have box: "box_ok E MAX_STORAGE (st_items stor)" and m: "st_max_amount stor \<le> length (st_items stor)" "j < MAX_STORAGE"
    using ok j(2) by (simp_all add: store_ok_def box_ok_def)
  have empty: "it_nameid (st_items stor ! j) = 0"
    using arr_find_take [of "\<lambda>x. it_nameid x = 0" "st_max_amount stor" "st_items stor"] j m by simp
  let ?x = "it\<lparr>it_amount := to_int16 amount\<rparr>"
  have int16: "to_int16 amount = amount" using valid most by (intro to_int16_id) (simp_all add: MAX_AMOUNT_def)
  have "item_ok ?x" "fresh_item E ?x" "it_nameid ?x \<noteq> 0"
    using valid most int16 fresh by (simp_all add: item_ok_def fresh_item_def)
  from changed_new [OF box m(2) this empty] int16
  have "changed E MAX_STORAGE (it_nameid it) amount 1 (st_items stor) (st_items stor')" by (simp add: stor'_def set_box_def)
  from store_changed [OF ok this] show ?thesis by (simp add: stor'_def)
qed

lemma storage_additem_spec:
  assumes ok: "store_ok E stor" and fresh: "fresh_item E it" and most: "amount \<le> MAX_AMOUNT"
    and add: "storage_additem E sd it amount stor = (r, stor')"
  shows "if r = 0
    then store_ok E stor' \<and>
      (\<forall>nid. holding nid (st_items stor') = holding nid (st_items stor) + (if nid = it_nameid it then amount else 0))
    else stor' = stor"
proof (cases "r = 0")
  case False
  with add show ?thesis by (auto simp: storage_additem_def Let_def split: if_splits)
next
  case True
  let ?d = "itemdb_search E (it_nameid it)" and ?m = "st_max_amount stor"
  define i where "i = (if itemdb_isstackable2 ?d then arr_find (\<lambda>x. compare_item x it) (take ?m (st_items stor)) else ?m)"
  define j where "j = arr_find (\<lambda>x. it_nameid x = 0) (take ?m (st_items stor))"
  have valid: "it_nameid it \<noteq> 0" "0 < amount" using add True by (auto simp: storage_additem_def split: if_splits)
  show ?thesis
  proof (cases "i < ?m")
    case i: True
    have "amount \<le> MAX_AMOUNT - it_amount (st_items stor ! i)" and
      "stor' = stor\<lparr>st_items := set_box i (\<lambda>x. x\<lparr>it_amount := to_int16 (it_amount x + amount)\<rparr>) (st_items stor), st_dirty := True\<rparr>"
      using add True i unfolding storage_additem_def i_def [symmetric] Let_def by (auto split: if_splits)
    with store_joins [OF ok valid i_def i] True show ?thesis by simp
  next
    case i: False
    have "j < ?m" and
      "stor' = stor\<lparr>st_items := set_box j (\<lambda>_. it\<lparr>it_amount := to_int16 amount\<rparr>) (st_items stor),
        st_amount := st_amount stor + 1, st_dirty := True\<rparr>"
      using add True i unfolding storage_additem_def i_def [symmetric] j_def [symmetric] Let_def by (auto split: if_splits)
    with store_news [OF ok fresh most valid j_def] True show ?thesis by simp
  qed
qed

lemma storage_delitem_spec:
  assumes ok: "store_ok E stor" and n: "n < MAX_STORAGE" and amount: "0 < amount" "amount \<le> it_amount (st_items stor ! n)"
  defines "stor' \<equiv> snd (storage_delitem n amount stor)"
  shows "store_ok E stor' \<and>
    (\<forall>nid. holding nid (st_items stor') = holding nid (st_items stor) - (if nid = it_nameid (st_items stor ! n) then amount else 0))"
proof -
  have box: "box_ok E MAX_STORAGE (st_items stor)" and len: "length (st_items stor) = MAX_STORAGE"
    using ok by (simp_all add: store_ok_def box_ok_def)
  have it: "item_ok (st_items stor ! n)" using box_okD [OF box n] by simp
  then have name: "it_nameid (st_items stor ! n) \<noteq> 0" using amount by (auto simp: item_ok_def)
  have int16: "to_int16 (it_amount (st_items stor ! n) - amount) = it_amount (st_items stor ! n) - amount"
    using it amount by (intro to_int16_id) (simp_all add: item_ok_def MAX_AMOUNT_def)
  have s': "st_items stor' = taken n amount (st_items stor)" "st_max_amount stor' = st_max_amount stor"
    "st_amount stor' = st_amount stor + word_of_int (if it_amount (st_items stor ! n) = amount then -1 else 0)"
    using amount name n len
    by (auto simp: stor'_def storage_delitem_def Let_def set_box_def int16 taken_def)
  from store_changed [OF ok _ s'(2,3)] changed_taken [OF box n amount] s'(1) show ?thesis by simp
qed

text \<open>Only the unique id of a stored item may change while it is offered to the inventory.\<close>

lemma changed_unique:
  assumes ok: "box_ok E n items" and i: "i < n" and u: "\<exists>u. it' = (items ! i)\<lparr>it_unique_id := u\<rparr>"
  shows "changed E n nameid 0 0 items (set_box i (\<lambda>_. it') items)" "it_amount (set_box i (\<lambda>_. it') items ! i) = it_amount (items ! i)"
    "it_nameid (set_box i (\<lambda>_. it') items ! i) = it_nameid (items ! i)"
proof -
  have len: "length items = n" using ok by (simp add: box_ok_def)
  show "changed E n nameid 0 0 items (set_box i (\<lambda>_. it') items)"
    unfolding set_box_def by (rule changed_flags [OF ok i]) (use u in auto)
  show "it_amount (set_box i (\<lambda>_. it') items ! i) = it_amount (items ! i)"
    "it_nameid (set_box i (\<lambda>_. it') items ! i) = it_nameid (items ! i)" using u i len by (auto simp: set_box_def)
qed


section \<open>Moves\<close>

definition holder_ok :: "('a item_env_scheme) \<Rightarrow> holder \<Rightarrow> bool" where
  "holder_ok E h \<longleftrightarrow> inventory_ok (h_sd h) \<and> fresh_bag E (h_sd h) \<and> cart_ok E h \<and>
     store_ok E (h_storage h) \<and> store_ok E (h_premium h) \<and> (\<forall>s. h_guild h = Some s \<longrightarrow> store_ok E s)"

text \<open>What is in the guild's storage, if there is one.\<close>

definition guild_holding :: "uint32 \<Rightarrow> holder \<Rightarrow> int" where
  "guild_holding nid h = (case h_guild h of None \<Rightarrow> 0 | Some s \<Rightarrow> holding nid (st_items s))"

definition carried :: "uint32 \<Rightarrow> holder \<Rightarrow> int" where
  "carried nid h = stock nid (h_sd h) + holding nid (h_cart h)"

definition total :: "uint32 \<Rightarrow> holder \<Rightarrow> int" where
  "total nid h = carried nid h + holding nid (st_items (h_storage h)) + holding nid (st_items (h_premium h)) + guild_holding nid h"

text \<open>What the player carries stays well formed, and the rest of the player is not touched.\<close>

definition carrier_ok :: "('a item_env_scheme) \<Rightarrow> holder \<Rightarrow> bool" where
  "carrier_ok E h \<longleftrightarrow> inventory_ok (h_sd h) \<and> fresh_bag E (h_sd h) \<and> cart_ok E h"

definition load_only :: "holder \<Rightarrow> holder \<Rightarrow> bool" where
  "load_only h h' \<longleftrightarrow> h_storage h' = h_storage h \<and> h_premium h' = h_premium h \<and> h_guild h' = h_guild h \<and>
     pl_zeny (h_sd h') = pl_zeny (h_sd h) \<and> pl_bank_vault (h_sd h') = pl_bank_vault (h_sd h)"

lemma load_refl: "load_only h h"
  by (simp add: load_only_def)

lemma carrier_simps [simp]:
  "carrier_ok E (h\<lparr>h_storage := s\<rparr>) = carrier_ok E h" "carrier_ok E (h\<lparr>h_premium := s\<rparr>) = carrier_ok E h"
  "carrier_ok E (h\<lparr>h_guild := g\<rparr>) = carrier_ok E h" "carried nid (h\<lparr>h_guild := g\<rparr>) = carried nid h"
  "carried nid (h\<lparr>h_storage := s\<rparr>) = carried nid h" "carried nid (h\<lparr>h_premium := s\<rparr>) = carried nid h"
  "guild_holding nid (h\<lparr>h_storage := s\<rparr>) = guild_holding nid h" "guild_holding nid (h\<lparr>h_premium := s\<rparr>) = guild_holding nid h"
  "guild_holding nid (h\<lparr>h_guild := Some s\<rparr>) = holding nid (st_items s)"
  by (simp_all add: carrier_ok_def cart_ok_def carried_def guild_holding_def)

text \<open>A move between what is carried and one storage.\<close>

definition moves :: "('a item_env_scheme) \<Rightarrow> holder \<times> s_storage \<Rightarrow> holder \<times> s_storage \<Rightarrow> bool" where
  "moves E hs hs' = (case (hs, hs') of ((h, s), (h', s')) \<Rightarrow> carrier_ok E h' \<and> store_ok E s' \<and> load_only h h' \<and>
     (\<forall>nid. carried nid h' + holding nid (st_items s') = carried nid h + holding nid (st_items s)))"

lemma moves_refl: "carrier_ok E h \<Longrightarrow> store_ok E s \<Longrightarrow> moves E (h, s) (h, s)"
  by (simp add: moves_def load_refl)

lemma bag_item:
  assumes "inventory_ok sd" "fresh_bag E sd" "n < MAX_INVENTORY"
  shows "item_ok (slot sd n)" "fresh_item E (slot sd n)"
  using assms unfolding inventory_ok_def fresh_bag_def by blast+

lemma add_result:
  "storage_canAddItem stor idx items amount m = STORAGE_ADD_OK \<Longrightarrow>
   int (nat idx) = idx \<and> nat idx < m \<and> 0 < amount \<and> amount \<le> it_amount (items ! nat idx)"
  by (auto simp: storage_canAddItem_def Let_def nat_less_iff split: if_splits)

lemma get_result:
  "storage_canGetItem stor idx amount = STORAGE_ADD_OK \<Longrightarrow>
   int (nat idx) = idx \<and> nat idx < MAX_STORAGE \<and> 0 < amount \<and> amount \<le> it_amount (st_items stor ! nat idx)"
  by (auto simp: storage_canGetItem_def Let_def nat_less_iff split: if_splits)

lemma moves_storageadd:
  assumes h: "carrier_ok E h" and s: "store_ok E stor" and E: "equip_neutral E"
  shows "moves E (h, stor) (storage_storageadd E index amount (h, stor))"
proof (cases "storage_canAddItem stor index (pl_inventory (h_sd h)) amount MAX_INVENTORY = STORAGE_ADD_OK")
  case False
  with h s show ?thesis by (simp add: storage_storageadd_def moves_refl)
next
  case True
  note R = add_result [OF True]
  have ok: "inventory_ok (h_sd h)" "fresh_bag E (h_sd h)" using h by (simp_all add: carrier_ok_def)
  have n: "nat index < MAX_INVENTORY" "int (nat index) = index" using R by simp_all
  note B = bag_item [OF ok n(1)]
  obtain r stor' where add: "storage_additem E (h_sd h) (slot (h_sd h) (nat index)) amount stor = (r, stor')" by fastforce
  have "amount \<le> MAX_AMOUNT" using R B(1) by (simp add: item_ok_def)
  note A = storage_additem_spec [OF s B(2) this add]
  have am: "0 < amount" "amount \<le> it_amount (slot (h_sd h) (nat index))" using R by simp_all
  note D = delitem_spec [OF ok(1) E n(1) am, unfolded n(2)]
  show ?thesis
  proof (cases "r = 0")
    case False
    with A True add h s show ?thesis by (simp add: storage_storageadd_def moves_refl)
  next
    case r: True
    with True add have "storage_storageadd E index amount (h, stor) = (h\<lparr>h_sd := snd (pc_delitem E index amount (h_sd h))\<rparr>, stor')"
      by (simp add: storage_storageadd_def)
    with r A D(2,4) bag_only_simps [OF D(3)] D(6) [OF ok(2)] h show ?thesis
      by (simp add: moves_def carrier_ok_def cart_ok_def load_only_def carried_def)
  qed
qed

lemma moves_storageget:
  assumes h: "carrier_ok E h" and s: "store_ok E stor" and E: "equip_neutral E"
  shows "moves E (h, stor) (storage_storageget E index amount favorite (h, stor))"
proof (cases "storage_canGetItem stor index amount = STORAGE_ADD_OK")
  case False
  with h s show ?thesis by (simp add: storage_storageget_def moves_refl)
next
  case True
  note R = get_result [OF True]
  let ?n = "nat index" and ?it = "st_items stor ! nat index"
  have ok: "inventory_ok (h_sd h)" "fresh_bag E (h_sd h)" using h by (simp_all add: carrier_ok_def)
  have box: "box_ok E MAX_STORAGE (st_items stor)" and n: "?n < MAX_STORAGE" using s R by (simp_all add: store_ok_def)
  note B = box_okD [OF box n]
  obtain r sd' it' where add: "pc_additem E ?it amount favorite (h_sd h) = (r, sd', it')" by (metis prod_cases3)
  note A = additem_spec [OF ok(1) E B(3) add]
  note U = changed_unique [OF box n A(6)]
  define s1 where "s1 = stor\<lparr>st_items := set_box ?n (\<lambda>_. it') (st_items stor)\<rparr>"
  have s1: "store_ok E s1" "\<And>nid. holding nid (st_items s1) = holding nid (st_items stor)"
    using store_changed [OF s, of 0 0 0 s1] U(1) [of 0] by (simp_all add: s1_def)
  have am: "0 < amount" "amount \<le> it_amount (st_items s1 ! ?n)" using R U(2) by (simp_all add: s1_def)
  note D = storage_delitem_spec [OF s1(1) n am]
  have result: "storage_storageget E index amount favorite (h, stor) =
      (h\<lparr>h_sd := sd'\<rparr>, if r = ADDITEM_SUCCESS then snd (storage_delitem ?n amount s1) else s1)"
    using True add by (simp add: storage_storageget_def s1_def Let_def)
  have name: "it_nameid (st_items s1 ! ?n) = it_nameid ?it" using U(3) by (simp add: s1_def)
  show ?thesis
  proof (cases "r = ADDITEM_SUCCESS")
    case r: True
    from A(1) [OF r] A(3) [OF ok(2)] bag_only_simps [OF A(5)] D h name s1(2) show ?thesis unfolding result
      by (simp add: r moves_def carrier_ok_def cart_ok_def load_only_def carried_def gained_def)
  next
    case r: False
    from A(2) [OF r] A(3) [OF ok(2)] bag_only_simps [OF A(5)] s1 h show ?thesis unfolding result
      by (simp add: r moves_def carrier_ok_def cart_ok_def load_only_def carried_def same_goods_def)
  qed
qed

lemma moves_storageaddfromcart:
  assumes h: "carrier_ok E h" and s: "store_ok E stor"
  shows "moves E (h, stor) (storage_storageaddfromcart E index amount (h, stor))"
proof (cases "\<not> h_prevend h \<and> storage_canAddItem stor index (h_cart h) amount MAX_CART = STORAGE_ADD_OK")
  case False
  with h s show ?thesis by (auto simp: storage_storageaddfromcart_def moves_refl)
next
  case True
  note R = add_result [OF conjunct2 [OF True]]
  have cart: "cart_ok E h" using h by (simp add: carrier_ok_def)
  have n: "nat index < MAX_CART" using R by simp
  have box: "box_ok E MAX_CART (h_cart h)" using cart by (simp add: cart_ok_def)
  note B = box_okD [OF box n]
  obtain r stor' where add: "storage_additem E (h_sd h) (h_cart h ! nat index) amount stor = (r, stor')" by fastforce
  have "amount \<le> MAX_AMOUNT" using R B(2) by (simp add: item_ok_def)
  note A = storage_additem_spec [OF s B(3) this add]
  have am: "0 < amount" "amount \<le> it_amount (h_cart h ! nat index)" using R by simp_all
  note D = cart_delitem_spec [OF cart n am]
  show ?thesis
  proof (cases "r = 0")
    case r: False
    with A True add h s show ?thesis by (simp add: storage_storageaddfromcart_def moves_refl)
  next
    case r: True
    with True add have "storage_storageaddfromcart E index amount (h, stor) = (pc_cart_delitem E (nat index) amount h, stor')"
      by (simp add: storage_storageaddfromcart_def)
    with r A D h show ?thesis
      by (simp add: moves_def carrier_ok_def load_only_def carried_def cart_only_def)
  qed
qed

lemma moves_storagegettocart:
  assumes h: "carrier_ok E h" and s: "store_ok E stor"
  shows "moves E (h, stor) (storage_storagegettocart E index amount (h, stor))"
proof (cases "\<not> h_prevend h \<and> storage_canGetItem stor index amount = STORAGE_ADD_OK")
  case False
  with h s show ?thesis by (auto simp: storage_storagegettocart_def moves_refl)
next
  case True
  note R = get_result [OF conjunct2 [OF True]]
  have cart: "cart_ok E h" using h by (simp add: carrier_ok_def)
  have n: "nat index < MAX_STORAGE" using R by simp
  have box: "box_ok E MAX_STORAGE (st_items stor)" using s by (simp add: store_ok_def)
  note B = box_okD [OF box n]
  obtain r h' where add: "pc_cart_additem E (st_items stor ! nat index) amount h = (r, h')" by fastforce
  have "amount \<le> MAX_AMOUNT" using R B(2) by (simp add: item_ok_def)
  note A = cart_additem_spec [OF cart B(3) this add]
  have am: "0 < amount" "amount \<le> it_amount (st_items stor ! nat index)" using R by simp_all
  note D = storage_delitem_spec [OF s n am]
  show ?thesis
  proof (cases "r = ADDITEM_SUCCESS")
    case r: False
    with A True add h s show ?thesis by (simp add: storage_storagegettocart_def moves_refl)
  next
    case r: True
    with True add have "storage_storagegettocart E index amount (h, stor) = (h', snd (storage_delitem (nat index) amount stor))"
      by (simp add: storage_storagegettocart_def)
    with r A D h show ?thesis
      by (simp add: moves_def carrier_ok_def load_only_def carried_def cart_only_def)
  qed
qed


section \<open>The guild's storage\<close>

lemma guild_additem_spec:
  assumes ok: "store_ok E stor" and fresh: "fresh_item E it" and most: "amount \<le> MAX_AMOUNT"
    and add: "storage_guild_additem E sd it amount stor = (r, stor')"
  shows "if r
    then store_ok E stor' \<and>
      (\<forall>nid. holding nid (st_items stor') = holding nid (st_items stor) + (if nid = it_nameid it then amount else 0))
    else stor' = stor"
proof (cases r)
  case False
  with add show ?thesis by (auto simp: storage_guild_additem_def Let_def split: if_splits)
next
  case True
  let ?d = "itemdb_search E (it_nameid it)" and ?m = "st_max_amount stor"
  define i where "i = (if itemdb_isstackable2 ?d then arr_find (\<lambda>x. compare_item x it) (take ?m (st_items stor)) else ?m)"
  define j where "j = arr_find (\<lambda>x. it_nameid x = 0) (take ?m (st_items stor))"
  have valid: "it_nameid it \<noteq> 0" "0 < amount" using add True by (auto simp: storage_guild_additem_def split: if_splits)
  show ?thesis
  proof (cases "i < ?m")
    case i: True
    have "amount \<le> MAX_AMOUNT - it_amount (st_items stor ! i)" and
      "stor' = stor\<lparr>st_items := set_box i (\<lambda>x. x\<lparr>it_amount := to_int16 (it_amount x + amount)\<rparr>) (st_items stor), st_dirty := True\<rparr>"
      using add True i unfolding storage_guild_additem_def i_def [symmetric] Let_def by (auto split: if_splits)
    with store_joins [OF ok valid i_def i] True show ?thesis by simp
  next
    case i: False
    have "j < ?m" and
      "stor' = stor\<lparr>st_items := set_box j (\<lambda>_. it\<lparr>it_amount := to_int16 amount\<rparr>) (st_items stor),
        st_amount := st_amount stor + 1, st_dirty := True\<rparr>"
      using add True i unfolding storage_guild_additem_def i_def [symmetric] j_def [symmetric] Let_def by (auto split: if_splits)
    with store_news [OF ok fresh most valid j_def] True show ?thesis by simp
  qed
qed

lemma guild_delitem_spec:
  assumes ok: "store_ok E stor" and n: "n < MAX_STORAGE" and amount: "0 < amount" "amount \<le> it_amount (st_items stor ! n)"
  defines "stor' \<equiv> snd (storage_guild_delitem n amount stor)"
  shows "store_ok E stor' \<and>
    (\<forall>nid. holding nid (st_items stor') = holding nid (st_items stor) - (if nid = it_nameid (st_items stor ! n) then amount else 0))"
proof -
  have "it_nameid (st_items stor ! n) \<noteq> 0"
    using ok n amount box_okD(2) [of E MAX_STORAGE "st_items stor" n] by (auto simp: store_ok_def item_ok_def)
  then have "stor' = snd (storage_delitem n amount stor)"
    using amount by (simp add: stor'_def storage_guild_delitem_def storage_delitem_def Let_def)
  with storage_delitem_spec [OF ok n amount] show ?thesis by simp
qed

lemma moves_guild_close:
  "carrier_ok E h \<Longrightarrow> store_ok E s \<Longrightarrow> moves E (h, s) (storage_guild_storageclose (h, s))"
  by (simp add: moves_def storage_guild_storageclose_def carrier_ok_def cart_ok_def load_only_def carried_def
      inventory_ok_def fresh_bag_def stock_def store_ok_def)

lemma moves_guild_storageadd:
  assumes h: "carrier_ok E h" and s: "store_ok E stor" and E: "equip_neutral E"
  shows "moves E (h, stor) (storage_guild_storageadd E index amount (h, stor))"
proof -
  let ?it = "slot (h_sd h) (nat index)"
  obtain r stor' where add: "storage_guild_additem E (h_sd h) ?it amount stor = (r, stor')" by fastforce
  show ?thesis
  proof (cases "0 \<le> index \<and> index < int MAX_INVENTORY \<and> 0 < amount \<and> amount \<le> it_amount ?it \<and> r")
    case False
    have "\<not> r \<Longrightarrow> stor' = stor" using add by (auto simp: storage_guild_additem_def Let_def split: if_splits)
    with False add have "storage_guild_storageadd E index amount (h, stor) \<in> {(h, stor), storage_guild_storageclose (h, stor)}"
      by (auto simp: storage_guild_storageadd_def Let_def)
    with moves_refl [OF h s] moves_guild_close [OF h s] show ?thesis by auto
  next
    case True
    have ok: "inventory_ok (h_sd h)" "fresh_bag E (h_sd h)" using h by (simp_all add: carrier_ok_def)
    have n: "nat index < MAX_INVENTORY" "int (nat index) = index" using True by (simp_all add: nat_less_iff)
    note B = bag_item [OF ok n(1)]
    have "amount \<le> MAX_AMOUNT" using True B(1) by (simp add: item_ok_def)
    note A = guild_additem_spec [OF s B(2) this add]
    have am: "0 < amount" "amount \<le> it_amount ?it" using True by simp_all
    note D = delitem_spec [OF ok(1) E n(1) am, unfolded n(2)]
    have "storage_guild_storageadd E index amount (h, stor) \<in>
        {(h, stor), storage_guild_storageclose (h, stor), (h\<lparr>h_sd := snd (pc_delitem E index amount (h_sd h))\<rparr>, stor')}"
      using add True by (auto simp: storage_guild_storageadd_def Let_def)
    moreover have "moves E (h, stor) (h\<lparr>h_sd := snd (pc_delitem E index amount (h_sd h))\<rparr>, stor')"
      using True A D(2,4) bag_only_simps [OF D(3)] D(6) [OF ok(2)] h
      by (simp add: moves_def carrier_ok_def cart_ok_def load_only_def carried_def)
    ultimately show ?thesis using moves_refl [OF h s] moves_guild_close [OF h s] by auto
  qed
qed

lemma moves_guild_storageget:
  assumes h: "carrier_ok E h" and s: "store_ok E stor" and E: "equip_neutral E"
  shows "moves E (h, stor) (storage_guild_storageget E index amount favorite (h, stor))"
proof -
  let ?n = "nat index" and ?it = "st_items stor ! nat index"
  obtain r sd' it' where add: "pc_additem E ?it amount favorite (h_sd h) = (r, sd', it')" by (metis prod_cases3)
  define s1 where "s1 = stor\<lparr>st_items := set_box ?n (\<lambda>_. it') (st_items stor)\<rparr>"
  have result: "storage_guild_storageget E index amount favorite (h, stor) \<in> {(h, stor), storage_guild_storageclose (h, stor),
      (h\<lparr>h_sd := sd'\<rparr>, if r = ADDITEM_SUCCESS then snd (storage_guild_delitem ?n amount s1) else s1)}"
    using add by (simp add: storage_guild_storageget_def s1_def Let_def)
  show ?thesis
  proof (cases "0 \<le> index \<and> index < int (st_max_amount stor) \<and> 0 < amount \<and> amount \<le> it_amount ?it")
    case False
    then have "storage_guild_storageget E index amount favorite (h, stor) = (h, stor)"
      by (auto simp: storage_guild_storageget_def Let_def)
    with moves_refl [OF h s] show ?thesis by simp
  next
    case True
    have ok: "inventory_ok (h_sd h)" "fresh_bag E (h_sd h)" using h by (simp_all add: carrier_ok_def)
    have box: "box_ok E MAX_STORAGE (st_items stor)" and n: "?n < MAX_STORAGE"
      using s True by (simp_all add: store_ok_def nat_less_iff)
    note A = additem_spec [OF ok(1) E box_okD(3) [OF box n] add]
    note U = changed_unique [OF box n A(6)]
    have s1: "store_ok E s1" "\<And>nid. holding nid (st_items s1) = holding nid (st_items stor)"
      using store_changed [OF s, of 0 0 0 s1] U(1) [of 0] by (simp_all add: s1_def)
    have am: "0 < amount" "amount \<le> it_amount (st_items s1 ! ?n)" using True U(2) by (simp_all add: s1_def)
    note D = guild_delitem_spec [OF s1(1) n am]
    have name: "it_nameid (st_items s1 ! ?n) = it_nameid ?it" using U(3) by (simp add: s1_def)
    have "moves E (h, stor) (h\<lparr>h_sd := sd'\<rparr>, if r = ADDITEM_SUCCESS then snd (storage_guild_delitem ?n amount s1) else s1)"
    proof (cases "r = ADDITEM_SUCCESS")
      case r: True
      from A(1) [OF r] A(3) [OF ok(2)] bag_only_simps [OF A(5)] D h name s1(2) show ?thesis
        by (simp add: r moves_def carrier_ok_def cart_ok_def load_only_def carried_def gained_def)
    next
      case r: False
      from A(2) [OF r] A(3) [OF ok(2)] bag_only_simps [OF A(5)] s1 h show ?thesis
        by (simp add: r moves_def carrier_ok_def cart_ok_def load_only_def carried_def same_goods_def)
    qed
    with result moves_refl [OF h s] moves_guild_close [OF h s] show ?thesis by auto
  qed
qed

lemma moves_guild_storageaddfromcart:
  assumes h: "carrier_ok E h" and s: "store_ok E stor"
  shows "moves E (h, stor) (storage_guild_storageaddfromcart E index amount (h, stor))"
proof -
  let ?it = "h_cart h ! nat index"
  obtain r stor' where add: "storage_guild_additem E (h_sd h) ?it amount stor = (r, stor')" by fastforce
  show ?thesis
  proof (cases "0 \<le> index \<and> index < int MAX_CART \<and> 0 < amount \<and> amount \<le> it_amount ?it \<and> r")
    case False
    have "\<not> r \<Longrightarrow> stor' = stor" using add by (auto simp: storage_guild_additem_def Let_def split: if_splits)
    with False add have "storage_guild_storageaddfromcart E index amount (h, stor) = (h, stor)"
      by (auto simp: storage_guild_storageaddfromcart_def Let_def)
    with moves_refl [OF h s] show ?thesis by simp
  next
    case True
    have cart: "cart_ok E h" using h by (simp add: carrier_ok_def)
    have n: "nat index < MAX_CART" using True by (simp add: nat_less_iff)
    have box: "box_ok E MAX_CART (h_cart h)" using cart by (simp add: cart_ok_def)
    note B = box_okD [OF box n]
    have "amount \<le> MAX_AMOUNT" using True B(2) by (simp add: item_ok_def)
    note A = guild_additem_spec [OF s B(3) this add]
    have am: "0 < amount" "amount \<le> it_amount ?it" using True by simp_all
    note D = cart_delitem_spec [OF cart n am]
    have "storage_guild_storageaddfromcart E index amount (h, stor) \<in> {(h, stor), (pc_cart_delitem E (nat index) amount h, stor')}"
      using add True by (auto simp: storage_guild_storageaddfromcart_def Let_def)
    moreover have "moves E (h, stor) (pc_cart_delitem E (nat index) amount h, stor')"
      using True A D h by (simp add: moves_def carrier_ok_def load_only_def carried_def cart_only_def)
    ultimately show ?thesis using moves_refl [OF h s] by auto
  qed
qed

lemma moves_guild_storagegettocart:
  assumes h: "carrier_ok E h" and s: "store_ok E stor"
  shows "moves E (h, stor) (storage_guild_storagegettocart E index amount (h, stor))"
proof -
  let ?it = "st_items stor ! nat index"
  obtain r h' where add: "pc_cart_additem E ?it amount h = (r, h')" by fastforce
  show ?thesis
  proof (cases "0 \<le> index \<and> index < int (st_max_amount stor) \<and> 0 < amount \<and> amount \<le> it_amount ?it \<and> r = ADDITEM_SUCCESS")
    case False
    have "r \<noteq> ADDITEM_SUCCESS \<Longrightarrow> h' = h" using add by (auto simp: pc_cart_additem_def Let_def split: if_splits)
    with False add have "storage_guild_storagegettocart E index amount (h, stor) = (h, stor)"
      by (auto simp: storage_guild_storagegettocart_def Let_def)
    with moves_refl [OF h s] show ?thesis by simp
  next
    case True
    have cart: "cart_ok E h" using h by (simp add: carrier_ok_def)
    have n: "nat index < MAX_STORAGE" using True s by (simp add: nat_less_iff store_ok_def)
    have box: "box_ok E MAX_STORAGE (st_items stor)" using s by (simp add: store_ok_def)
    note B = box_okD [OF box n]
    have "amount \<le> MAX_AMOUNT" using True B(2) by (simp add: item_ok_def)
    note A = cart_additem_spec [OF cart B(3) this add]
    have am: "0 < amount" "amount \<le> it_amount ?it" using True by simp_all
    note D = guild_delitem_spec [OF s n am]
    have "storage_guild_storagegettocart E index amount (h, stor) \<in> {(h, stor), (h', snd (storage_guild_delitem (nat index) amount stor))}"
      using add True by (auto simp: storage_guild_storagegettocart_def Let_def)
    moreover have "moves E (h, stor) (h', snd (storage_guild_delitem (nat index) amount stor))"
      using True A D h by (simp add: moves_def carrier_ok_def load_only_def carried_def cart_only_def)
    ultimately show ?thesis using moves_refl [OF h s] by auto
  qed
qed

section \<open>Every message\<close>

text \<open>A step of the player, cart and storages together.\<close>

definition step_ok :: "('a item_env_scheme) \<Rightarrow> holder \<Rightarrow> holder \<Rightarrow> bool" where
  "step_ok E h h' \<longleftrightarrow> holder_ok E h' \<and> (\<forall>nid. total nid h' = total nid h) \<and>
     pl_zeny (h_sd h') = pl_zeny (h_sd h) \<and> pl_bank_vault (h_sd h') = pl_bank_vault (h_sd h)"

lemma step_refl: "holder_ok E h \<Longrightarrow> step_ok E h h"
  by (simp add: step_ok_def)

lemma step_trans: "step_ok E h1 h2 \<Longrightarrow> step_ok E h2 h3 \<Longrightarrow> step_ok E h1 h3"
  by (simp add: step_ok_def)

lemma holder_carrier:
  "holder_ok E h \<longleftrightarrow> carrier_ok E h \<and> store_ok E (h_storage h) \<and> store_ok E (h_premium h) \<and>
     (\<forall>s. h_guild h = Some s \<longrightarrow> store_ok E s)"
  by (simp add: holder_ok_def carrier_ok_def)

lemma step_stores:
  assumes ok: "holder_ok E h" and mv: "moves E (h, s) (h1, s1)"
  shows "s = h_storage h \<Longrightarrow> step_ok E h (h1\<lparr>h_storage := s1\<rparr>)" "s = h_premium h \<Longrightarrow> step_ok E h (h1\<lparr>h_premium := s1\<rparr>)"
    "h_guild h = Some s \<Longrightarrow> step_ok E h (h1\<lparr>h_guild := Some s1\<rparr>)"
proof -
  have g: "guild_holding nid h1 = guild_holding nid h" for nid
    using mv by (simp add: moves_def load_only_def guild_holding_def)
  note mv = mv [unfolded moves_def load_only_def, simplified]
  show "s = h_storage h \<Longrightarrow> step_ok E h (h1\<lparr>h_storage := s1\<rparr>)" "s = h_premium h \<Longrightarrow> step_ok E h (h1\<lparr>h_premium := s1\<rparr>)"
    using mv ok g by (simp_all add: step_ok_def holder_carrier total_def)
  show "h_guild h = Some s \<Longrightarrow> step_ok E h (h1\<lparr>h_guild := Some s1\<rparr>)"
    using mv ok by (simp add: step_ok_def holder_carrier total_def guild_holding_def [of _ h])
qed

lemma step_open:
  assumes ok: "holder_ok E h" and f: "\<And>s. store_ok E s \<Longrightarrow> moves E (h, s) (f (h, s))"
    and g: "\<And>s. store_ok E s \<Longrightarrow> moves E (h, s) (g (h, s))"
  shows "step_ok E h (with_open_storage f g h)"
proof -
  have stores: "store_ok E (h_storage h)" "store_ok E (h_premium h)" "\<And>s. h_guild h = Some s \<Longrightarrow> store_ok E s"
    using ok by (simp_all add: holder_carrier)
  note own = step_stores(1) [OF ok _ refl] and premium = step_stores(2) [OF ok _ refl] and guild = step_stores(3) [OF ok]
  show ?thesis
    using f [OF stores(1)] f [OF stores(2)] g [OF stores(3)] step_refl [OF ok] own premium guild
    by (auto simp: with_open_storage_def split: prod.split option.split)
qed

lemma step_load:
  assumes "holder_ok E h" "carrier_ok E h'" "load_only h h'" "\<And>nid. carried nid h' = carried nid h"
  shows "step_ok E h h'"
  using assms by (simp add: step_ok_def holder_carrier load_only_def total_def guild_holding_def)

lemma step_putitemtocart:
  assumes ok: "holder_ok E h" and E: "equip_neutral E"
  shows "step_ok E h (pc_putitemtocart E idx amount h)"
proof -
  let ?it = "slot (h_sd h) (nat idx)"
  obtain r h1 where add: "pc_cart_additem E ?it amount h = (r, h1)" by fastforce
  show ?thesis
  proof (cases "0 \<le> idx \<and> idx < int MAX_INVENTORY \<and> 0 < amount \<and> amount \<le> it_amount ?it \<and> r = ADDITEM_SUCCESS")
    case False
    have "r \<noteq> ADDITEM_SUCCESS \<Longrightarrow> h1 = h" using add by (auto simp: pc_cart_additem_def Let_def split: if_splits)
    with False add have "pc_putitemtocart E idx amount h = h" by (auto simp: pc_putitemtocart_def Let_def)
    with step_refl [OF ok] show ?thesis by simp
  next
    case True
    have bag: "inventory_ok (h_sd h)" "fresh_bag E (h_sd h)" "cart_ok E h" using ok by (simp_all add: holder_ok_def)
    have n: "nat idx < MAX_INVENTORY" "int (nat idx) = idx" using True by (simp_all add: nat_less_iff)
    note B = bag_item [OF bag(1,2) n(1)]
    have "amount \<le> MAX_AMOUNT" using True B(1) by (simp add: item_ok_def)
    note A = cart_additem_spec [OF bag(3) B(2) this add]
    have am: "0 < amount" "amount \<le> it_amount ?it" using True by simp_all
    note D = delitem_spec [OF bag(1) E n(1) am, unfolded n(2)]
    have same: "h_sd h1 = h_sd h" using A True by (simp add: cart_only_def)
    have "pc_putitemtocart E idx amount h = h \<or>
        pc_putitemtocart E idx amount h = h1\<lparr>h_sd := snd (pc_delitem E idx amount (h_sd h))\<rparr>"
      using add same True by (auto simp: pc_putitemtocart_def Let_def)
    moreover have "step_ok E h (h1\<lparr>h_sd := snd (pc_delitem E idx amount (h_sd h))\<rparr>)"
      by (rule step_load [OF ok])
        (use A D(2,4) bag_only_simps [OF D(3)] D(6) [OF bag(2)] True in \<open>simp_all add: carrier_ok_def cart_ok_def load_only_def cart_only_def carried_def\<close>)
    ultimately show ?thesis using step_refl [OF ok] by auto
  qed
qed

lemma step_getitemfromcart:
  assumes ok: "holder_ok E h" and E: "equip_neutral E"
  shows "step_ok E h (pc_getitemfromcart E idx amount h)"
proof -
  let ?n = "nat idx" and ?it = "h_cart h ! nat idx"
  obtain r sd' it' where add: "pc_additem E ?it amount False (h_sd h) = (r, sd', it')" by (metis prod_cases3)
  define h1 where "h1 = h\<lparr>h_sd := sd', h_cart := set_box ?n (\<lambda>_. it') (h_cart h)\<rparr>"
  show ?thesis
  proof (cases "0 \<le> idx \<and> idx < int MAX_CART \<and> 0 < amount \<and> amount \<le> it_amount ?it")
    case False
    then have "pc_getitemfromcart E idx amount h = h" by (auto simp: pc_getitemfromcart_def Let_def)
    with step_refl [OF ok] show ?thesis by simp
  next
    case True
    have bag: "inventory_ok (h_sd h)" "fresh_bag E (h_sd h)" "cart_ok E h" using ok by (simp_all add: holder_ok_def)
    have n: "?n < MAX_CART" using True by (simp add: nat_less_iff)
    have box: "box_ok E MAX_CART (h_cart h)" using bag(3) by (simp add: cart_ok_def)
    note A = additem_spec [OF bag(1) E box_okD(3) [OF box n] add]
    note U = changed_unique [OF box n A(6)]
    have h1: "cart_ok E h1" "\<And>nid. holding nid (h_cart h1) = holding nid (h_cart h)"
      using U(1) [of 0] bag(3) by (simp_all add: cart_ok_def changed_def h1_def)
    have same: "h_cart h1 = set_box ?n (\<lambda>_. it') (h_cart h)" by (simp add: h1_def)
    have am: "0 < amount" "amount \<le> it_amount (h_cart h1 ! ?n)" using True U(2) same by simp_all
    note D = cart_delitem_spec [OF h1(1) n am]
    have name: "it_nameid (h_cart h1 ! ?n) = it_nameid ?it" using U(3) same by simp
    have result: "pc_getitemfromcart E idx amount h = h \<or>
        pc_getitemfromcart E idx amount h = (if r = ADDITEM_SUCCESS then pc_cart_delitem E ?n amount h1 else h1)"
      using add by (auto simp: pc_getitemfromcart_def Let_def h1_def)
    have "step_ok E h (if r = ADDITEM_SUCCESS then pc_cart_delitem E ?n amount h1 else h1)"
    proof (cases "r = ADDITEM_SUCCESS")
      case r: True
      show ?thesis
        by (rule step_load [OF ok])
          (use A(1) [OF r] A(3) [OF bag(2)] bag_only_simps [OF A(5)] D h1(2) name r in
            \<open>simp_all add: carrier_ok_def load_only_def carried_def gained_def cart_only_def h1_def\<close>)
    next
      case r: False
      show ?thesis
        by (rule step_load [OF ok])
          (use A(2) [OF r] A(3) [OF bag(2)] A(4) bag_only_simps [OF A(5)] h1 r in
            \<open>simp_all add: carrier_ok_def load_only_def carried_def same_goods_def h1_def\<close>)
    qed
    with result step_refl [OF ok] show ?thesis by auto
  qed
qed

lemma step_flag: "holder_ok E h \<Longrightarrow> step_ok E h (h\<lparr>h_sd := (h_sd h)\<lparr>pl_storage_flag := n\<rparr>\<rparr>)"
  by (simp add: step_ok_def holder_ok_def inventory_ok_def fresh_bag_def cart_ok_def total_def carried_def stock_def guild_holding_def)

lemma step_CloseKafra:
  assumes ok: "holder_ok E h"
  shows "step_ok E h (clif_parse_CloseKafra h)"
proof -
  have "h_guild h = Some s \<Longrightarrow> step_ok E h (case storage_guild_storageclose (h, s) of (h1, stor) \<Rightarrow> h1\<lparr>h_guild := Some stor\<rparr>)" for s
    using step_stores(3) [OF ok moves_guild_close [unfolded storage_guild_storageclose_def prod.case], of s] ok
    by (simp add: holder_carrier storage_guild_storageclose_def)
  with step_flag [OF ok] step_refl [OF ok] show ?thesis
    by (simp add: clif_parse_CloseKafra_def storage_storageclose_def storage_premiumStorage_close_def split: option.split)
qed

lemma step_handle:
  assumes ok: "holder_ok E h" and E: "equip_neutral E"
  shows "step_ok E h (box_handle E m h)"
proof -
  have "carrier_ok E h" using ok by (simp add: holder_carrier)
  note mv = moves_storageadd [OF this _ E] moves_storageget [OF this _ E] moves_storageaddfromcart [OF this]
    moves_storagegettocart [OF this] moves_guild_storageadd [OF this _ E] moves_guild_storageget [OF this _ E]
    moves_guild_storageaddfromcart [OF this] moves_guild_storagegettocart [OF this]
  note opens = step_open [OF ok mv(1,5)] step_open [OF ok mv(2,6)] step_open [OF ok mv(3,7)] step_open [OF ok mv(4,8)]
  show ?thesis
    by (cases m) (use step_refl [OF ok] step_putitemtocart [OF ok E] step_getitemfromcart [OF ok E] step_CloseKafra [OF ok] opens in
      \<open>simp_all add: clif_parse_PutItemToCart_def clif_parse_GetItemFromCart_def clif_parse_MoveToKafra_def
        clif_parse_MoveFromKafra_def clif_parse_MoveToKafraFromCart_def clif_parse_MoveFromKafraToCart_def\<close>)
qed

lemma steps_handle:
  assumes E: "equip_neutral E"
  shows "holder_ok E h \<Longrightarrow> step_ok E h (fold (box_handle E) ms h)"
proof (induction ms arbitrary: h)
  case Nil
  then show ?case by (simp add: step_refl)
next
  case (Cons m ms)
  have s: "step_ok E h (box_handle E m h)" by (rule step_handle [OF Cons.prems E])
  then have "holder_ok E (box_handle E m h)" by (simp add: step_ok_def)
  from step_trans [OF s Cons.IH [OF this]] show ?case by simp
qed

end
