(* ===== verification/Stalls.thy ===== *)
theory Stalls
  imports Vending Hoard
begin

text \<open>
  What the two loops of a purchase do: the checks bound the orders by what the cart holds, however the
  client repeats or splits them, and the deliveries take exactly the orders out of the cart.
\<close>

section \<open>A free slot\<close>

text \<open>A new item finds its place when there is a free slot, if its kind is one \<open>pc_checkadditem\<close> judges rightly:
  neither stackable with unique ids, nor unstackable with a limit on stacks.\<close>

lemma additem_new:
  assumes new: "pc_checkadditem E (it_nameid it) n sd = CHKADDITEM_NEW" and blank: "0 < pc_inventoryblank sd"
    and it: "it_nameid it \<noteq> 0" "0 < n" and len: "length (pl_inventory sd) = MAX_INVENTORY"
    and weight: "pl_weight sd + id_weight (itemdb_search E (it_nameid it)) * word_of_int n \<le> pl_max_weight sd"
    and kind: "\<not> (itemdb_isstackable2 (itemdb_search E (it_nameid it)) \<and> id_guid (itemdb_search E (it_nameid it)))"
      "itemdb_isstackable2 (itemdb_search E (it_nameid it)) \<or> \<not> id_stack_inventory (itemdb_search E (it_nameid it))"
  shows "fst (pc_additem E it n favorite sd) = ADDITEM_SUCCESS"
proof -
  let ?d = "itemdb_search E (it_nameid it)"
  obtain j where j: "j < length (take (pl_inventory_slots sd) (pl_inventory sd))" "it_nameid (slot sd j) = 0"
  proof -
    have "filter (\<lambda>it. it_nameid it = 0) (take (pl_inventory_slots sd) (pl_inventory sd)) \<noteq> []"
      using blank by (auto simp: pc_inventoryblank_def simp del: length_take)
    with that show ?thesis by (auto simp: filter_empty_conv in_set_conv_nth)
  qed
  define k where "k = arr_find (\<lambda>it. it_nameid it = 0) (pl_inventory sd)"
  have "k \<le> j" using arr_find_before [of j "\<lambda>it. it_nameid it = 0" "pl_inventory sd"] j(2)
    by (auto simp: k_def not_less [symmetric])
  then have search: "pc_search_inventory 0 sd = Some k" "k < pl_inventory_slots sd"
    using j(1) len by (simp_all add: pc_search_inventory_def k_def [symmetric])
  have none: "itemdb_isstackable2 ?d \<Longrightarrow> arr_find (same_stack it) (pl_inventory sd) = MAX_INVENTORY"
  proof -
    assume stack: "itemdb_isstackable2 ?d"
    then have "arr_find (\<lambda>x. it_nameid x = it_nameid it) (pl_inventory sd) \<ge> MAX_INVENTORY"
      using new kind by (auto simp: pc_checkadditem_def Let_def split: if_splits)
    then have "\<not> (\<exists>x \<in> set (pl_inventory sd). it_nameid x = it_nameid it)"
      using arr_find_found [of _ "pl_inventory sd" "\<lambda>x. it_nameid x = it_nameid it"] len by fastforce
    then show "arr_find (same_stack it) (pl_inventory sd) = MAX_INVENTORY"
      using arr_find_none [of "pl_inventory sd" "same_stack it"] len by (auto simp: same_stack_def)
  qed
  have amount: "n \<le> MAX_AMOUNT" "\<not> (id_stack_inventory ?d \<and> n > uint (id_stack_amount ?d))"
    using new kind by (auto simp: pc_checkadditem_def Let_def split: if_splits)
  define fill where "fill = (id_guid ?d \<and> it_unique_id it = 0)"
  define it' where "it' = (if fill then it\<lparr>it_unique_id := fst (pc_generate_unique_id sd)\<rparr> else it)"
  define sd' where "sd' = (if fill then snd (pc_generate_unique_id sd) else sd)"
  have same: "pc_search_inventory 0 sd' = pc_search_inventory 0 sd" "pl_inventory_slots sd' = pl_inventory_slots sd"
    "pl_inventory sd' = pl_inventory sd" "it_expire_time it' = it_expire_time it" "itemdb_isstackable2 ?d \<Longrightarrow> it' = it"
    using kind(1) by (auto simp: sd'_def it'_def fill_def pc_generate_unique_id_def pc_search_inventory_def)
  have "fst (additem_place E ?d it' n favorite w sd') = ADDITEM_SUCCESS" for w
    using none search same by (auto simp: additem_place_def Let_def split: prod.split)
  then show ?thesis
    using it amount weight
    by (simp add: pc_additem_def Let_def fill_def [symmetric] it'_def [symmetric] sd'_def [symmetric] case_prod_beta not_less
        if_distrib [of fst])
qed

section \<open>Orders\<close>

text \<open>How much of the position of the cart is ordered, and what the orders cost.\<close>

definition ordered_at :: "(int \<times> int) list \<Rightarrow> int \<Rightarrow> int" where
  "ordered_at orders idx = (\<Sum>(n, i) \<leftarrow> orders. if i = idx then n else 0)"

definition ordered :: "uint32 \<Rightarrow> item list \<Rightarrow> (int \<times> int) list \<Rightarrow> int" where
  "ordered nid cart orders = (\<Sum>(n, i) \<leftarrow> orders. if it_nameid (cart ! nat i) = nid then n else 0)"

definition price :: "merchant \<Rightarrow> (int \<times> int) list \<Rightarrow> int" where
  "price vm orders = (\<Sum>(n, i) \<leftarrow> orders. uint (vd_value (mc_vending vm ! vend_entry vm i)) * n)"

lemma ordered_simps [simp]:
  "ordered_at [] idx = 0" "ordered_at ((n, i) # orders) idx = (if i = idx then n else 0) + ordered_at orders idx"
  "ordered nid cart [] = 0" "ordered nid cart ((n, i) # orders) = (if it_nameid (cart ! nat i) = nid then n else 0) + ordered nid cart orders"
  "price vm [] = 0" "price vm ((n, i) # orders) = uint (vd_value (mc_vending vm ! vend_entry vm i)) * n + price vm orders"
  by (simp_all add: ordered_at_def ordered_def price_def)

text \<open>Orders the checks let through name a position of the cart that is for sale.\<close>

definition sound_order :: "merchant \<Rightarrow> int \<times> int \<Rightarrow> bool" where
  "sound_order vm line = (case line of (n, i) \<Rightarrow> 0 < n \<and> 0 \<le> i \<and> i < int MAX_CART \<and> vend_entry vm i < mc_vend_num vm)"

definition in_cart :: "int \<times> int \<Rightarrow> bool" where
  "in_cart line = (case line of (n, i) \<Rightarrow> 0 < n \<and> 0 \<le> i \<and> i < int MAX_CART)"

lemma in_cart_line: "in_cart (n, i) \<longleftrightarrow> 0 < n \<and> 0 \<le> i \<and> i < int MAX_CART"
  by (simp add: in_cart_def)

lemma sound_in_cart: "list_all (sound_order vm) orders \<Longrightarrow> list_all in_cart orders"
  by (induction orders) (auto simp: sound_order_def in_cart_def)

lemma ordered_at_nonneg: "list_all in_cart orders \<Longrightarrow> 0 \<le> ordered_at orders idx"
  by (induction orders) (auto simp: in_cart_def)

lemma ordered_nonneg: "list_all in_cart orders \<Longrightarrow> 0 \<le> ordered nid cart orders"
  by (induction orders) (auto simp: in_cart_def)

lemma ordered_at_pos:
  "list_all in_cart orders \<Longrightarrow> (n, i) \<in> set orders \<Longrightarrow> 0 < ordered_at orders i"
proof (induction orders)
  case (Cons line orders)
  from Cons.prems ordered_at_nonneg [of orders i] have "0 \<le> ordered_at orders i" by simp
  with Cons show ?case by (cases line) (auto simp: in_cart_def)
qed simp

lemma vend_entry_distinct:
  assumes "vend_entry vm i = vend_entry vm k" "vend_entry vm i < mc_vend_num vm" "mc_vend_num vm \<le> length (mc_vending vm)"
  shows "i = k"
proof -
  have at: "vend_entry vm x < mc_vend_num vm \<Longrightarrow> vd_index (take (mc_vend_num vm) (mc_vending vm) ! vend_entry vm x) = x" for x
    using arr_find_nth [of "\<lambda>v. vd_index v = x" "take (mc_vend_num vm) (mc_vending vm)"] assms(3) by (simp add: vend_entry_def)
  from at [of i] at [of k] assms(1,2) show ?thesis by simp
qed

section \<open>The checks\<close>

lemma vending_check_Cons:
  assumes "vending_check E sd vm blank ((n, i) # orders) vending z w new = Some (js, z')"
  defines "j \<equiv> vend_entry vm i" and "it \<equiv> mc_cart vm ! nat i"
  obtains v1 w1 new1 js1 left where "js = j # js1" "left = min (vd_amount (vending ! j)) (it_amount it)"
    "v1 = vending[j := (vending ! j)\<lparr>vd_amount := to_int16 (left - n)\<rparr>]"
    "vending_check E sd vm blank orders v1 (z + uint (vd_value (mc_vending vm ! j)) * n) w1 new1 = Some (js1, z')"
    "0 < n" "0 \<le> i" "i < int MAX_CART" "j \<noteq> mc_vend_num vm" "n \<le> left"
    "0 \<le> z + uint (vd_value (mc_vending vm ! j)) * n" "z + uint (vd_value (mc_vending vm ! j)) * n \<le> pl_zeny sd"
    "z + uint (vd_value (mc_vending vm ! j)) * n + pl_zeny (mc_sd vm) \<le> MAX_ZENY"
  using assms(1) by (auto simp: Let_def j_def [symmetric] it_def [symmetric] min_def split: if_splits e_chkitem_result.splits)

declare vending_check.simps(2) [simp del]

lemma vend_entry_le: "mc_vend_num vm \<le> length (mc_vending vm) \<Longrightarrow> vend_entry vm i \<le> mc_vend_num vm"
  using arr_find_le [of "\<lambda>v. vd_index v = i" "take (mc_vend_num vm) (mc_vending vm)"] by (simp add: vend_entry_def)

lemma vending_check_spec:
  assumes num: "mc_vend_num vm \<le> length (mc_vending vm)"
  shows "vending_check E sd vm blank orders vending z w new = Some (js, z') \<Longrightarrow>
    list_all (sound_order vm) orders \<and> js = map (\<lambda>line. vend_entry vm (snd line)) orders \<and> z' = z + price vm orders \<and>
    (orders \<noteq> [] \<longrightarrow> 0 \<le> z' \<and> z' \<le> pl_zeny sd \<and> z' + pl_zeny (mc_sd vm) \<le> MAX_ZENY)"
proof (induction orders arbitrary: vending z w new js)
  case (Cons line orders)
  obtain n i where line: "line = (n, i)" by (cases line)
  show ?case unfolding line
  proof (rule vending_check_Cons [OF Cons.prems [unfolded line]])
    fix v1 w1 new1 js1 left
    assume js: "js = vend_entry vm i # js1" and n: "0 < n" "0 \<le> i" "i < int MAX_CART" "vend_entry vm i \<noteq> mc_vend_num vm"
      and rest: "vending_check E sd vm blank orders v1 (z + uint (vd_value (mc_vending vm ! vend_entry vm i)) * n) w1 new1 = Some (js1, z')"
      and z: "0 \<le> z + uint (vd_value (mc_vending vm ! vend_entry vm i)) * n"
        "z + uint (vd_value (mc_vending vm ! vend_entry vm i)) * n \<le> pl_zeny sd"
        "z + uint (vd_value (mc_vending vm ! vend_entry vm i)) * n + pl_zeny (mc_sd vm) \<le> MAX_ZENY"
    have "sound_order vm (n, i)" using n vend_entry_le [OF num, of i] by (simp add: sound_order_def)
    with Cons.IH [OF rest] z show
      "list_all (sound_order vm) ((n, i) # orders) \<and> js = map (\<lambda>line. vend_entry vm (snd line)) ((n, i) # orders) \<and>
       z' = z + price vm ((n, i) # orders) \<and>
       ((n, i) # orders \<noteq> [] \<longrightarrow> 0 \<le> z' \<and> z' \<le> pl_zeny sd \<and> z' + pl_zeny (mc_sd vm) \<le> MAX_ZENY)"
      by (cases "orders = []") (auto simp: js)
  qed
qed simp

text \<open>Whatever the client repeats, no more is ordered of a position than the cart holds there and than the
  shop's entry offers.\<close>

lemma vending_check_cumulative:
  assumes num: "mc_vend_num vm \<le> length (mc_vending vm)" and cart: "\<And>k. k < MAX_CART \<Longrightarrow> item_ok (mc_cart vm ! k)"
  shows "vending_check E sd vm blank orders vending z w new = Some (js, z') \<Longrightarrow> length vending = length (mc_vending vm) \<Longrightarrow>
    0 < ordered_at orders idx \<Longrightarrow>
    ordered_at orders idx \<le> it_amount (mc_cart vm ! nat idx) \<and> ordered_at orders idx \<le> vd_amount (vending ! vend_entry vm idx)"
proof (induction orders arbitrary: vending z w new js)
  case (Cons line orders)
  obtain n i where line: "line = (n, i)" by (cases line)
  have sound: "list_all (sound_order vm) orders" "sound_order vm (n, i)"
    using vending_check_spec [OF num Cons.prems(1)] by (simp_all add: line)
  show ?case unfolding line
  proof (rule vending_check_Cons [OF Cons.prems(1) [unfolded line]])
    fix v1 w1 new1 js1 left
    let ?j = "vend_entry vm i" and ?it = "mc_cart vm ! nat i"
    assume left: "left = min (vd_amount (vending ! ?j)) (it_amount ?it)"
      and v1: "v1 = vending[?j := (vending ! ?j)\<lparr>vd_amount := to_int16 (left - n)\<rparr>]"
      and n: "0 < n" "n \<le> left" "0 \<le> i" "i < int MAX_CART"
      and rest: "vending_check E sd vm blank orders v1 (z + uint (vd_value (mc_vending vm ! ?j)) * n) w1 new1 = Some (js1, z')"
    have "item_ok ?it" using cart n by (simp add: nat_less_iff)
    moreover have "left \<le> it_amount ?it" by (simp add: left)
    ultimately have int16: "to_int16 (left - n) = left - n"
      using n by (intro to_int16_id) (simp_all add: item_ok_def MAX_AMOUNT_def)
    have len: "length v1 = length (mc_vending vm)" and j: "?j < length vending" "?j < mc_vend_num vm"
      using Cons.prems(2) num sound(2) by (simp_all add: v1 sound_order_def)
    note IH = Cons.IH [OF rest len]
    show "ordered_at ((n, i) # orders) idx \<le> it_amount (mc_cart vm ! nat idx) \<and>
        ordered_at ((n, i) # orders) idx \<le> vd_amount (vending ! vend_entry vm idx)"
    proof (cases "i = idx")
      case True
      have "vd_amount (v1 ! ?j) = left - n" using j int16 by (simp add: v1)
      moreover have "0 < ordered_at orders idx \<or> ordered_at orders idx = 0"
        using ordered_at_nonneg [OF sound_in_cart [OF sound(1)], of idx] by auto
      ultimately show ?thesis using IH n left True by (auto simp: min_def split: if_splits)
    next
      case False
      then have pos: "0 < ordered_at orders idx" using Cons.prems(3) by (simp add: line)
      have "vend_entry vm idx \<noteq> ?j" using vend_entry_distinct [OF _ j(2) num, of idx] False by auto
      then have "v1 ! vend_entry vm idx = vending ! vend_entry vm idx" by (simp add: v1)
      with IH [OF pos] False show ?thesis by simp
    qed
  qed
qed simp

section \<open>The deliveries\<close>

lemma cart_delitem_taken:
  assumes ok: "cart_ok E h" and n: "n < MAX_CART" and amount: "0 < amount" "amount \<le> it_amount (h_cart h ! n)"
  shows "h_cart (pc_cart_delitem E n amount h) = taken n amount (h_cart h)"
proof -
  have box: "box_ok E MAX_CART (h_cart h)" and len: "length (h_cart h) = MAX_CART" using ok by (simp_all add: cart_ok_def box_ok_def)
  have it: "item_ok (h_cart h ! n)" using box_okD [OF box n] by simp
  then have name: "it_nameid (h_cart h ! n) \<noteq> 0" using amount by (auto simp: item_ok_def)
  have "to_int16 (it_amount (h_cart h ! n) - amount) = it_amount (h_cart h ! n) - amount"
    using it amount by (intro to_int16_id) (simp_all add: item_ok_def MAX_AMOUNT_def)
  with amount name n len show ?thesis by (simp add: pc_cart_delitem_def Let_def set_box_def taken_def)
qed

text \<open>Handing over one order takes it from the seller; the buyer gets it or nothing.\<close>

definition handed :: "e_additem_result \<Rightarrow> uint32 \<Rightarrow> int \<Rightarrow> player \<Rightarrow> player \<Rightarrow> bool" where
  "handed r nameid n sd sd' \<longleftrightarrow> bag_only sd sd' \<and>
     (\<forall>nid. stock nid sd' = stock nid sd + (if r = ADDITEM_SUCCESS \<and> nid = nameid then n else 0))"

lemma vending_deliver_spec:
  assumes sd: "inventory_ok sd" "fresh_bag E sd" and E: "equip_neutral E" and cart: "cart_ok E (mc_h vm)"
    and n: "0 < n" "n \<le> it_amount (mc_cart vm ! nat i)" "nat i < MAX_CART"
    and step: "vending_deliver E ((n, i), j) (sd, vm) = (sd', vm')"
  defines "it \<equiv> mc_cart vm ! nat i"
  shows "inventory_ok sd'" "fresh_bag E sd'" "handed (fst (pc_additem E it n False sd)) (it_nameid it) n sd sd'" "cart_ok E (mc_h vm')" "cart_only (mc_h vm) (mc_h vm')"
    "\<And>nid. holding nid (mc_cart vm') = holding nid (mc_cart vm) - (if nid = it_nameid it then n else 0)"
    "\<And>k. k \<noteq> nat i \<Longrightarrow> mc_cart vm' ! k = mc_cart vm ! k" "it_amount (mc_cart vm' ! nat i) = it_amount it - n"
    "n < it_amount it \<Longrightarrow> it_nameid (mc_cart vm' ! nat i) = it_nameid it"
    "vm' = vm\<lparr>mc_h := mc_h vm', mc_vending := mc_vending vm'\<rparr>" "length (mc_vending vm') = length (mc_vending vm)"
proof -
  obtain r it' where add: "pc_additem E it n False sd = (r, sd', it')" and
    vm': "vm' = vm\<lparr>mc_h := pc_cart_delitem E (nat i) n ((mc_h vm)\<lparr>h_cart := set_box (nat i) (\<lambda>_. it') (mc_cart vm)\<rparr>),
      mc_vending := (mc_vending vm)[j := (mc_vending vm ! j)\<lparr>vd_amount := to_int16 (vd_amount (mc_vending vm ! j) - n)\<rparr>]\<rparr>"
    using step by (auto simp: vending_deliver_def it_def [symmetric] Let_def split: prod.splits)
  define h1 where "h1 = (mc_h vm)\<lparr>h_cart := set_box (nat i) (\<lambda>_. it') (mc_cart vm)\<rparr>"
  have box: "box_ok E MAX_CART (mc_cart vm)" and len: "length (mc_cart vm) = MAX_CART" using cart by (simp_all add: cart_ok_def box_ok_def)
  note A = additem_spec [OF sd(1) E box_okD(3) [OF box n(3), folded it_def] add]
  have u: "\<exists>u. it' = (mc_cart vm ! nat i)\<lparr>it_unique_id := u\<rparr>" using A(6) by (simp add: it_def)
  note U = changed_unique [OF box n(3) u]
  have h1: "cart_ok E h1" "\<And>nid. holding nid (h_cart h1) = holding nid (mc_cart vm)"
    using U(1) [of 0] cart by (simp_all add: cart_ok_def changed_def h1_def)
  have name: "it_nameid (h_cart h1 ! nat i) = it_nameid it" "it_amount (h_cart h1 ! nat i) = it_amount it"
    using U(2,3) by (simp_all add: h1_def it_def)
  have am: "n \<le> it_amount (h_cart h1 ! nat i)" using n name by (simp add: it_def)
  note D = cart_delitem_spec [OF h1(1) n(3,1) am]
  have taken: "mc_cart vm' = taken (nat i) n (h_cart h1)" using cart_delitem_taken [OF h1(1) n(3,1) am] by (simp add: vm' h1_def)
  have len1: "length (h_cart h1) = MAX_CART" using len by (simp add: h1_def set_box_def)
  show "inventory_ok sd'" "fresh_bag E sd'" using A(3) [OF sd(2)] A(4) by simp_all
  show "handed (fst (pc_additem E it n False sd)) (it_nameid it) n sd sd'"
    using A(1,2,5) by (cases "r = ADDITEM_SUCCESS") (simp_all add: add handed_def gained_def same_goods_def)
  show "cart_ok E (mc_h vm')" "cart_only (mc_h vm) (mc_h vm')"
    using D by (simp_all add: vm' h1_def cart_only_def)
  show "holding nid (mc_cart vm') = holding nid (mc_cart vm) - (if nid = it_nameid it then n else 0)" for nid
    using D h1(2) name by (simp add: vm' h1_def)
  show "mc_cart vm' ! k = mc_cart vm ! k" if "k \<noteq> nat i" for k
    using that by (simp add: taken taken_def h1_def set_box_def)
  show "it_amount (mc_cart vm' ! nat i) = it_amount it - n" "n < it_amount it \<Longrightarrow> it_nameid (mc_cart vm' ! nat i) = it_nameid it"
    using n(3) len1 name by (auto simp: taken taken_def)
  show "vm' = vm\<lparr>mc_h := mc_h vm', mc_vending := mc_vending vm'\<rparr>" "length (mc_vending vm') = length (mc_vending vm)"
    by (simp_all add: vm')
qed


text \<open>An order leaves the other orders as they are: what they name is still there.\<close>

lemma ordered_cong:
  assumes "\<And>n i. (n, i) \<in> set orders \<Longrightarrow> it_nameid (cart' ! nat i) = it_nameid (cart ! nat i)"
  shows "ordered nid cart' orders = ordered nid cart orders"
  unfolding ordered_def by (intro arg_cong [where f = sum_list] map_cong) (auto dest: assms)

lemma cart_only_trans: "cart_only h1 h2 \<Longrightarrow> cart_only h2 h3 \<Longrightarrow> cart_only h1 h3"
  by (simp add: cart_only_def)

definition dealt :: "('a item_env_scheme) \<Rightarrow> (int \<times> int) list \<Rightarrow> player \<Rightarrow> merchant \<Rightarrow> player \<Rightarrow> merchant \<Rightarrow> bool" where
  "dealt E orders sd vm sd' vm' \<longleftrightarrow> inventory_ok sd' \<and> fresh_bag E sd' \<and> bag_only sd sd' \<and>
     cart_ok E (mc_h vm') \<and> cart_only (mc_h vm) (mc_h vm') \<and>
     (\<forall>nid. holding nid (mc_cart vm') = holding nid (mc_cart vm) - ordered nid (mc_cart vm) orders) \<and>
     (\<forall>nid. stock nid sd \<le> stock nid sd' \<and> stock nid sd' \<le> stock nid sd + ordered nid (mc_cart vm) orders) \<and>
     vm' = vm\<lparr>mc_h := mc_h vm', mc_vending := mc_vending vm'\<rparr> \<and> length (mc_vending vm') = length (mc_vending vm)"

lemma vending_deliver_all:
  assumes E: "equip_neutral E"
  shows "inventory_ok sd \<Longrightarrow> fresh_bag E sd \<Longrightarrow> cart_ok E (mc_h vm) \<Longrightarrow> list_all in_cart orders \<Longrightarrow>
    (\<And>i. 0 < ordered_at orders i \<Longrightarrow> ordered_at orders i \<le> it_amount (mc_cart vm ! nat i)) \<Longrightarrow>
    length js = length orders \<Longrightarrow> fold (vending_deliver E) (zip orders js) (sd, vm) = (sd', vm') \<Longrightarrow>
    dealt E orders sd vm sd' vm'"
proof (induction orders arbitrary: sd vm js)
  case Nil
  then show ?case by (simp add: dealt_def bag_only_refl cart_only_def)
next
  case (Cons line orders)
  obtain n i where line: "line = (n, i)" by (cases line)
  obtain j js1 where js: "js = j # js1" using Cons.prems(6) by (cases js) auto
  obtain sd1 vm1 where step: "vending_deliver E ((n, i), j) (sd, vm) = (sd1, vm1)" by fastforce
  have cart: "0 < n" "nat i < MAX_CART" "0 \<le> i" "list_all in_cart orders"
    using Cons.prems(4) by (simp_all add: line in_cart_line nat_less_iff)
  have pos: "0 \<le> ordered_at orders i" by (rule ordered_at_nonneg [OF cart(4)])
  have all: "n + ordered_at orders i \<le> it_amount (mc_cart vm ! nat i)"
    using Cons.prems(5) [of i] cart(1) pos by (simp add: line)
  then have n: "n \<le> it_amount (mc_cart vm ! nat i)" using pos by simp
  note S = vending_deliver_spec [OF Cons.prems(1,2) E Cons.prems(3) cart(1) n cart(2) step]
  have left: "0 < ordered_at orders k \<Longrightarrow> 0 \<le> k \<Longrightarrow> ordered_at orders k \<le> it_amount (mc_cart vm1 ! nat k)" for k
    using Cons.prems(5) [of k] all S(7) [of "nat k"] S(8) cart(1,3) by (cases "k = i") (auto simp: line)
  have negative: "k < 0 \<Longrightarrow> ordered_at orders k = 0" for k
    using cart(4) by (induction orders) (auto simp: in_cart_def)
  have left: "0 < ordered_at orders k \<Longrightarrow> ordered_at orders k \<le> it_amount (mc_cart vm1 ! nat k)" for k
    using left [of k] negative [of k] by (cases "k < 0") auto
  have names: "it_nameid (mc_cart vm1 ! nat k) = it_nameid (mc_cart vm ! nat k)" if "(m, k) \<in> set orders" for m k
  proof (cases "nat k = nat i")
    case False
    with S(7) show ?thesis by simp
  next
    case True
    have "0 < ordered_at orders k" by (rule ordered_at_pos [OF cart(4) that])
    with left [of k] S(8) True have "n < it_amount (mc_cart vm ! nat i)" by simp
    with S(9) True show ?thesis by simp
  qed
  have rest: "dealt E orders sd1 vm1 sd' vm'"
    using Cons.IH [OF S(1,2,4) cart(4) left, of js1] Cons.prems(6,7) step by (simp add: line js)
  have orders: "ordered nid (mc_cart vm1) orders = ordered nid (mc_cart vm) orders" for nid
    by (rule ordered_cong) (rule names)
  have nonneg: "0 \<le> ordered nid (mc_cart vm) orders" for nid by (rule ordered_nonneg [OF cart(4)])
  have stocks: "stock nid sd \<le> stock nid sd' \<and> stock nid sd' \<le> stock nid sd + ordered nid (mc_cart vm) ((n, i) # orders)" for nid
    using rest S(3) cart(1) nonneg [of nid] orders [of nid] unfolding dealt_def handed_def ordered_simps
    by (auto split: if_splits dest!: spec [of _ nid])
  have vm': "vm' = vm\<lparr>mc_h := mc_h vm', mc_vending := mc_vending vm'\<rparr>"
  proof -
    have "vm' = vm1\<lparr>mc_h := mc_h vm', mc_vending := mc_vending vm'\<rparr>" using rest by (simp add: dealt_def)
    with S(10) show ?thesis by (cases vm; cases vm1; cases vm') simp
  qed
  have bag: "bag_only sd sd'" using bag_only_trans [of sd sd1 sd'] rest S(3) by (simp add: dealt_def handed_def)
  have carts: "\<forall>nid. holding nid (mc_cart vm') = holding nid (mc_cart vm) - ordered nid (mc_cart vm) ((n, i) # orders)"
    using rest S(6) orders by (simp add: dealt_def)
  have only: "cart_only (mc_h vm) (mc_h vm')" using cart_only_trans [OF S(5)] rest by (simp add: dealt_def)
  have "inventory_ok sd'" "fresh_bag E sd'" "cart_ok E (mc_h vm')" "length (mc_vending vm') = length (mc_vending vm)"
    using rest S(11) by (simp_all add: dealt_def)
  then show ?case unfolding line dealt_def using bag carts only stocks vm' by (intro conjI) simp_all
qed


section \<open>The entries that are left\<close>

lemma compact_loop:
  "k \<le> length vs \<Longrightarrow> fold compact_step [0..<k] (vs, 0) = (vs', c) \<Longrightarrow>
   take c vs' = filter (\<lambda>v. vd_amount v \<noteq> 0) (take k vs) \<and> c \<le> k \<and> length vs' = length vs \<and> drop k vs' = drop k vs"
proof (induction k arbitrary: vs' c)
  case (Suc k)
  obtain us d where us: "fold compact_step [0..<k] (vs, 0) = (us, d)" by fastforce
  have k: "k < length vs" using Suc.prems(1) by simp
  have IH: "take d us = filter (\<lambda>v. vd_amount v \<noteq> 0) (take k vs)" "d \<le> k" "length us = length vs" "drop k us = drop k vs"
    using Suc.IH [OF _ us] Suc.prems(1) by simp_all
  have at: "us ! k = vs ! k" using IH(3,4) k by (metis Cons_nth_drop_Suc list.inject)
  have drops: "drop (Suc k) us = drop (Suc k) vs" using IH(4) k IH(3) by (metis drop_Suc tl_drop)
  have step: "(vs', c) = compact_step k (us, d)" using Suc.prems(2) us by simp
  show ?case
  proof (cases "vd_amount (vs ! k) = 0")
    case True
    with step at IH drops k show ?thesis by (simp add: compact_step_def take_Suc_conv_app_nth)
  next
    case False
    have "us[k := vs ! k] = us" using list_update_id [of us k] by (simp add: at)
    with False step at have vs': "vs' = us[d := us ! k]" "c = Suc d" by (auto simp: compact_step_def split: if_splits)
    have "take (Suc d) (us[d := us ! k]) = take d us @ [us ! k]"
      using IH(2,3) k by (simp add: take_Suc_conv_app_nth)
    with vs' False IH at drops k show ?thesis by (simp add: take_Suc_conv_app_nth)
  qed
qed simp

lemma vending_compact_spec:
  assumes "mc_vend_num vm \<le> length (mc_vending vm)"
  shows "take (mc_vend_num (vending_compact vm)) (mc_vending (vending_compact vm)) =
      filter (\<lambda>v. vd_amount v \<noteq> 0) (take (mc_vend_num vm) (mc_vending vm))"
    "mc_vend_num (vending_compact vm) \<le> mc_vend_num vm" "length (mc_vending (vending_compact vm)) = length (mc_vending vm)"
    "mc_h (vending_compact vm) = mc_h vm" "mc_vender_id (vending_compact vm) = mc_vender_id vm"
  using compact_loop [OF assms] by (auto simp: vending_compact_def split: prod.split)

end
