(* ===== verification/TradeSystem.thy ===== *)
theory TradeSystem
  imports TradeExchange
begin

text \<open>
  The players of the map server under every sequence of logins, logouts and trade messages: trade
  partners are partners of each other, and goods move only when both confirmed. The last section shows
  what a request that a trading player sends from a chat room does to this.
\<close>

section \<open>The invariant\<close>

text \<open>What holds of one player the server knows under the id \<open>k\<close>.\<close>

definition trader_ok :: "uint32 \<Rightarrow> player \<Rightarrow> bool" where
  "trader_ok k sd \<longleftrightarrow> k \<noteq> 0 \<and> pl_id sd = k \<and> pl_account_id sd = k \<and>
     (pl_trading sd \<longrightarrow> pl_partner_id sd \<noteq> 0) \<and> (\<not> pl_trading sd \<longrightarrow> pl_deal_locked sd = 0) \<and>
     inventory_ok sd \<and> offers_ok (pl_deal_item sd) \<and> length (pl_deal_item sd) = TRADE_ITEMS \<and>
     0 \<le> pl_zeny sd \<and> pl_zeny sd \<le> MAX_ZENY \<and> 0 \<le> pl_deal_zeny sd"

text \<open>Two players who asked each other, or who trade with each other.\<close>

definition paired :: "uint32 \<Rightarrow> player \<Rightarrow> uint32 \<Rightarrow> player \<Rightarrow> bool" where
  "paired a sd b tsd \<longleftrightarrow> a \<noteq> b \<and> pl_partner_id sd = b \<and> pl_partner_id tsd = a \<and> pl_trading sd = pl_trading tsd"

definition mutual :: "trade_world \<Rightarrow> bool" where
  "mutual w \<longleftrightarrow> (\<forall>k sd. um_find w k = Some sd \<longrightarrow> trader_ok k sd \<and>
     (pl_partner_id sd \<noteq> 0 \<longrightarrow> (\<exists>tsd. um_find w (pl_partner_id sd) = Some tsd \<and> paired k sd (pl_partner_id sd) tsd)))"

lemma mutualD:
  assumes "mutual w" "um_find w k = Some sd"
  shows "trader_ok k sd"
    "pl_partner_id sd \<noteq> 0 \<Longrightarrow> \<exists>tsd. um_find w (pl_partner_id sd) = Some tsd \<and> paired k sd (pl_partner_id sd) tsd"
  using assms unfolding mutual_def by blast+

text \<open>Nobody else's partner is one of two partners.\<close>

lemma partner_unique:
  assumes "mutual w" "um_find w a = Some sd" "um_find w k = Some x" "pl_partner_id x = a" "pl_partner_id sd \<in> {0, b}"
    "k \<noteq> b"
  shows False
proof -
  have "a \<noteq> 0" using mutualD(1) [OF assms(1,2)] by (simp add: trader_ok_def)
  with mutualD(2) [OF assms(1,3)] assms(2,4) have "paired k x a sd" by auto
  with mutualD(1) [OF assms(1,3)] assms(5,6) show False by (auto simp: paired_def trader_ok_def)
qed

text \<open>A step that changes one player, and neither the partner nor whether they trade.\<close>

lemma mutual_one:
  assumes inv: "mutual w" and a: "um_find w a = Some sd" and ok: "trader_ok a sd'"
    and same: "pl_partner_id sd' = pl_partner_id sd" "pl_trading sd' = pl_trading sd"
    and w': "\<And>k. um_find w' k = (if k = a then Some sd' else um_find w k)"
  shows "mutual w'"
  unfolding mutual_def
proof (intro allI impI)
  fix k x assume x: "um_find w' k = Some x"
  obtain y where y: "um_find w k = Some y" "pl_partner_id x = pl_partner_id y" "pl_trading x = pl_trading y" "trader_ok k x"
    using x w' [of k] a ok same mutualD(1) [OF inv, of k] by (cases "k = a") auto
  show "trader_ok k x \<and> (pl_partner_id x \<noteq> 0 \<longrightarrow>
      (\<exists>tsd. um_find w' (pl_partner_id x) = Some tsd \<and> paired k x (pl_partner_id x) tsd))"
  proof (intro conjI impI y)
    assume "pl_partner_id x \<noteq> 0"
    with mutualD(2) [OF inv y(1)] y(2) obtain t where
      t: "um_find w (pl_partner_id x) = Some t" "paired k y (pl_partner_id x) t" by auto
    obtain t' where t': "um_find w' (pl_partner_id x) = Some t'" "pl_partner_id t' = pl_partner_id t" "pl_trading t' = pl_trading t"
      using t(1) w' [of "pl_partner_id x"] a same by (cases "pl_partner_id x = a") auto
    with t y show "\<exists>tsd. um_find w' (pl_partner_id x) = Some tsd \<and> paired k x (pl_partner_id x) tsd"
      by (auto simp: paired_def)
  qed
qed

text \<open>A step that changes two players who have no other partner: they end paired or both without one.\<close>

lemma mutual_two:
  assumes inv: "mutual w" and ab: "a \<noteq> b" and a: "um_find w a = Some sd" and b: "um_find w b = Some tsd"
    and free: "pl_partner_id sd \<in> {0, b}" "pl_partner_id tsd \<in> {0, a}"
    and ok: "trader_ok a sd'" "trader_ok b tsd'"
    and fin: "paired a sd' b tsd' \<or> pl_partner_id sd' = 0 \<and> pl_partner_id tsd' = 0"
    and w': "\<And>k. um_find w' k = (if k = a then Some sd' else if k = b then Some tsd' else um_find w k)"
  shows "mutual w'"
  unfolding mutual_def
proof (intro allI impI)
  fix k x assume x: "um_find w' k = Some x"
  show "trader_ok k x \<and> (pl_partner_id x \<noteq> 0 \<longrightarrow>
      (\<exists>t. um_find w' (pl_partner_id x) = Some t \<and> paired k x (pl_partner_id x) t))"
  proof -
    have wa: "um_find w' a = Some sd'" and wb: "um_find w' b = Some tsd'" using w' [of a] w' [of b] ab by simp_all
    consider "k = a" | "k = b" | "k \<noteq> a" "k \<noteq> b" by blast
    then show ?thesis
    proof cases
      case 1
      then have "x = sd'" using x wa by simp
      with 1 fin ok(1) wb show ?thesis by (auto simp only: paired_def)
    next
      case 2
      then have "x = tsd'" using x wb by simp
      with 2 fin ok(2) wa show ?thesis by (auto simp only: paired_def)
    next
      case 3
      then have y: "um_find w k = Some x" using x w' [of k] by simp
      have "pl_partner_id x \<noteq> a" using partner_unique [OF inv a y _ free(1)] 3 by blast
      moreover have "pl_partner_id x \<noteq> b" using partner_unique [OF inv b y _ free(2)] 3 by blast
      ultimately show ?thesis using mutualD [OF inv y] w' [of "pl_partner_id x"] by simp
    qed
  qed
qed


section \<open>Cancelling keeps it\<close>

lemma offers_ok_none: "offers_ok (map (\<lambda>(i, a). if a = 0 then (i, a) else (0, 0)) ds) = (\<forall>(i, a) \<in> set ds. a = 0 \<longrightarrow> 0 \<le> i \<and> i < int MAX_INVENTORY)"
  by (fastforce simp: offers_ok_def MAX_INVENTORY_def MAX_AMOUNT_def split: if_splits)

lemma trader_ok_ends:
  assumes "trader_ok k sd"
  shows "trader_ok k (no_offer sd)" "\<not> pl_trading sd \<Longrightarrow> trader_ok k (no_partner sd)"
    "\<not> pl_trading sd \<Longrightarrow> trader_ok k (unlock sd)" "trader_ok k (sd\<lparr>pl_isBoundTrading := u\<rparr>)"
  using assms
  by (auto simp: trader_ok_def no_offer_def no_partner_def unlock_def inventory_ok_def offers_ok_none)
    (auto simp: offers_ok_def)

lemma ends_simps [simp]:
  "pl_partner_id (no_offer sd) = 0" "pl_partner_id (no_partner sd) = 0" "pl_partner_id (unlock sd) = 0"
  "pl_trading (no_partner sd) = pl_trading sd" "pl_trading (unlock sd) = pl_trading sd" "\<not> pl_trading (no_offer sd)"
  by (simp_all add: no_offer_def no_partner_def unlock_def)

lemma mutual_zero: "mutual w \<Longrightarrow> um_find w 0 = None"
  using mutualD(1) [of w 0] by (cases "um_find w 0") (auto simp: trader_ok_def)



text \<open>A step that takes both partners of a pair back to having no partner.\<close>

lemma mutual_part:
  assumes inv: "mutual w" and a: "um_find w a = Some sd" and b: "um_find w (pl_partner_id sd) = Some tsd"
    and ok: "trader_ok a sd'" "trader_ok (pl_partner_id sd) tsd'" and fin: "pl_partner_id sd' = 0" "pl_partner_id tsd' = 0"
    and w': "\<And>k. um_find w' k = (if k = a then Some sd' else if k = pl_partner_id sd then Some tsd' else um_find w k)"
  shows "mutual w'"
proof -
  have "pl_partner_id sd \<noteq> 0" using b mutual_zero [OF inv] by auto
  with mutualD(2) [OF inv a] b have "paired a sd (pl_partner_id sd) tsd" by simp
  then have "a \<noteq> pl_partner_id sd" "pl_partner_id tsd \<in> {0, a}" "pl_partner_id sd \<in> {0, pl_partner_id sd}"
    by (auto simp only: paired_def insert_iff)
  with fin mutual_two [OF inv this(1) a b this(3,2) ok] w' show ?thesis by blast
qed

lemma cancel_alone:
  assumes inv: "mutual w" and a: "um_find w a = Some sd" and none: "pl_partner_id sd = 0"
  shows "\<not> pl_trading sd"
    "um_find (trade_tradecancel a w) k = (if k = a then Some (no_partner (sd\<lparr>pl_isBoundTrading := 0\<rparr>)) else um_find w k)"
proof -
  show nt: "\<not> pl_trading sd" using mutualD(1) [OF inv a] none by (auto simp: trader_ok_def)
  show "um_find (trade_tradecancel a w) k = (if k = a then Some (no_partner (sd\<lparr>pl_isBoundTrading := 0\<rparr>)) else um_find w k)"
    using a none nt mutual_zero [OF inv] by (auto simp: trade_tradecancel_def Let_def umap_simps)
qed

lemma cancel_pair:
  assumes inv: "mutual w" and a: "um_find w a = Some sd" and some: "pl_partner_id sd \<noteq> 0"
  shows "\<exists>tsd. um_find w (pl_partner_id sd) = Some tsd \<and> paired a sd (pl_partner_id sd) tsd \<and>
    (\<forall>k. um_find (trade_tradecancel a w) k =
      (if k = a then Some ((if pl_trading sd then no_offer else no_partner) (sd\<lparr>pl_isBoundTrading := 0\<rparr>))
       else if k = pl_partner_id sd then Some ((if pl_trading sd then no_offer else no_partner) tsd)
       else um_find w k))"
proof -
  obtain tsd where b: "um_find w (pl_partner_id sd) = Some tsd" and p: "paired a sd (pl_partner_id sd) tsd"
    using mutualD(2) [OF inv a some] by blast
  from p have "a \<noteq> pl_partner_id sd" by (simp add: paired_def)
  then have "um_find (trade_tradecancel a w) k =
      (if k = a then Some ((if pl_trading sd then no_offer else no_partner) (sd\<lparr>pl_isBoundTrading := 0\<rparr>))
       else if k = pl_partner_id sd then Some ((if pl_trading sd then no_offer else no_partner) tsd)
       else um_find w k)" for k
    using a b by (auto simp: trade_tradecancel_def Let_def umap_simps)
  with b p show ?thesis by blast
qed

lemma mutual_cancel:
  assumes inv: "mutual w"
  shows "mutual (trade_tradecancel a w)"
proof (cases "um_find w a")
  case None
  with inv show ?thesis by (simp add: trade_tradecancel_def)
next
  case (Some sd)
  note ok = mutualD(1) [OF inv Some]
  show ?thesis
  proof (cases "pl_partner_id sd = 0")
    case True
    note C = cancel_alone [OF inv Some True]
    have "trader_ok a (no_partner (sd\<lparr>pl_isBoundTrading := 0\<rparr>))" using trader_ok_ends [of a] ok C(1) by simp
    with mutual_one [OF inv Some this _ _ C(2)] True show ?thesis by (simp add: no_partner_def)
  next
    case False
    obtain tsd where b: "um_find w (pl_partner_id sd) = Some tsd" and p: "paired a sd (pl_partner_id sd) tsd"
      and w': "\<And>k. um_find (trade_tradecancel a w) k =
        (if k = a then Some ((if pl_trading sd then no_offer else no_partner) (sd\<lparr>pl_isBoundTrading := 0\<rparr>))
         else if k = pl_partner_id sd then Some ((if pl_trading sd then no_offer else no_partner) tsd)
         else um_find w k)" using cancel_pair [OF inv Some False] by blast
    have t: "pl_trading tsd = pl_trading sd" using p by (simp add: paired_def)
    note ok = ok mutualD(1) [OF inv b]
    show ?thesis
      by (rule mutual_part [OF inv Some b _ _ _ _ w']) (use ok t trader_ok_ends in \<open>auto\<close>)
  qed
qed


section \<open>Asking and answering keep it\<close>

text \<open>The first half of a request: a requester who does not trade gives up an earlier request.\<close>

definition give_up :: "uint32 \<Rightarrow> player \<Rightarrow> trade_world \<Rightarrow> trade_world" where
  "give_up a sd w = (if pl_partner_id sd \<noteq> 0 then upd a no_partner (upd (pl_partner_id sd) no_partner w) else w)"

lemma give_up_spec:
  assumes inv: "mutual w" and a: "um_find w a = Some sd" and nt: "\<not> pl_trading sd"
  shows "mutual (give_up a sd w)"
    "um_find (give_up a sd w) a = Some (if pl_partner_id sd \<noteq> 0 then no_partner sd else sd)"
    "um_find (give_up a sd w) k = None \<longleftrightarrow> um_find w k = None"
proof -
  have "mutual (give_up a sd w) \<and>
    um_find (give_up a sd w) a = Some (if pl_partner_id sd \<noteq> 0 then no_partner sd else sd)"
  proof (cases "pl_partner_id sd = 0")
    case True
    with inv a show ?thesis by (simp add: give_up_def)
  next
    case False
    obtain tsd where b: "um_find w (pl_partner_id sd) = Some tsd" and p: "paired a sd (pl_partner_id sd) tsd"
      using mutualD(2) [OF inv a False] by blast
    have ne: "a \<noteq> pl_partner_id sd" "\<not> pl_trading tsd" using p nt by (simp_all add: paired_def)
    have w': "um_find (give_up a sd w) k =
        (if k = a then Some (no_partner sd) else if k = pl_partner_id sd then Some (no_partner tsd) else um_find w k)" for k
      using False a b ne(1) by (auto simp: give_up_def umap_simps)
    have "mutual (give_up a sd w)"
      by (rule mutual_part [OF inv a b _ _ _ _ w'])
        (simp_all add: trader_ok_ends(2) mutualD(1) [OF inv a] mutualD(1) [OF inv b] nt ne)
    with w' False show ?thesis by simp
  qed
  then show "mutual (give_up a sd w)"
    "um_find (give_up a sd w) a = Some (if pl_partner_id sd \<noteq> 0 then no_partner sd else sd)" by simp_all
  show "um_find (give_up a sd w) k = None \<longleftrightarrow> um_find w k = None" by (simp add: give_up_def umap_simps)
qed

text \<open>The second half: two players without a partner become partners.\<close>

definition partner_with :: "player \<Rightarrow> player \<Rightarrow> player" where
  "partner_with t sd = sd\<lparr>pl_partner_id := pl_account_id t, pl_partner_lv := pl_base_level t\<rparr>"

lemma partner_with_simps [simp]:
  "pl_partner_id (partner_with t sd) = pl_account_id t" "pl_trading (partner_with t sd) = pl_trading sd"
  "trader_ok k sd \<Longrightarrow> pl_account_id t \<noteq> 0 \<Longrightarrow> trader_ok k (partner_with t sd)"
  by (simp_all add: partner_with_def trader_ok_def inventory_ok_def)

lemma mutual_pair:
  assumes inv: "mutual w" and ab: "a \<noteq> b" and a: "um_find w a = Some sd" and b: "um_find w b = Some tsd"
    and free: "pl_partner_id sd = 0" "pl_partner_id tsd = 0"
    and t: "pl_account_id t = pl_account_id tsd" and s: "pl_account_id s = pl_account_id sd"
  shows "mutual (upd a (partner_with t) (upd b (partner_with s) w))"
proof -
  note ok = mutualD(1) [OF inv a] mutualD(1) [OF inv b]
  have w': "um_find (upd a (partner_with t) (upd b (partner_with s) w)) k =
      (if k = a then Some (partner_with t sd) else if k = b then Some (partner_with s tsd) else um_find w k)" for k
    using a b ab by (auto simp: umap_simps)
  show ?thesis
  proof (rule mutual_two [OF inv ab a b _ _ _ _ _ w'])
    have ids: "pl_account_id t = b" "pl_account_id s = a" "b \<noteq> 0" "a \<noteq> 0" "pl_trading sd = pl_trading tsd"
      using ok free s t by (auto simp: trader_ok_def)
    then show "trader_ok a (partner_with t sd)" "trader_ok b (partner_with s tsd)" using ok by simp_all
    show "paired a (partner_with t sd) b (partner_with s tsd) \<or>
        pl_partner_id (partner_with t sd) = 0 \<and> pl_partner_id (partner_with s tsd) = 0"
      using ids ab by (simp add: paired_def)
  qed (simp_all add: free)
qed


lemma mutual_request:
  assumes inv: "mutual w" and nt: "\<And>sd. um_find w a = Some sd \<Longrightarrow> \<not> pl_trading sd"
  shows "mutual (trade_traderequest E a b w)"
proof (cases "um_find w a = None \<or> um_find w b = None \<or> a = b")
  case True
  with inv show ?thesis by (auto simp: trade_traderequest_def split: option.splits)
next
  case False
  then obtain sd y where a: "um_find w a = Some sd" and b: "um_find w b = Some y" and ab: "a \<noteq> b" by auto
  let ?w1 = "give_up a sd w"
  note G = give_up_spec [OF inv a nt [OF a]]
  from G(3) [of b] b obtain t where t: "um_find ?w1 b = Some t" by auto
  let ?w2 = "upd a (partner_with t) (upd b (partner_with sd) ?w1)"
  have cases: "trade_traderequest E a b w \<in> {w, ?w1} \<or> trade_traderequest E a b w = ?w2 \<and> pl_partner_id t = 0"
    unfolding trade_traderequest_def a b Let_def option.case give_up_def [symmetric] t partner_with_def [symmetric]
    using ab by simp
  obtain sd1 where sd1: "um_find ?w1 a = Some sd1" "pl_partner_id sd1 = 0" "pl_account_id sd1 = pl_account_id sd"
    using G(2) by (cases "pl_partner_id sd = 0") (simp_all add: no_partner_def)
  from mutual_pair [OF G(1) ab sd1(1) t sd1(2) _ refl sd1(3) [symmetric]] inv G(1) cases show ?thesis by auto
qed

lemma start_ok: "trader_ok k sd \<Longrightarrow> pl_partner_id sd \<noteq> 0 \<Longrightarrow> trader_ok k (start_trading sd)"
  by (auto simp: trader_ok_def start_trading_def inventory_ok_def offers_ok_def MAX_INVENTORY_def MAX_AMOUNT_def)

lemma start_simps [simp]: "pl_partner_id (start_trading sd) = pl_partner_id sd" "pl_trading (start_trading sd)"
  by (simp_all add: start_trading_def)

lemma mutual_ack:
  assumes inv: "mutual w"
  shows "mutual (trade_tradeack E a type w)"
proof (cases "\<exists>sd. um_find w a = Some sd \<and> \<not> pl_trading sd \<and> pl_partner_id sd \<noteq> 0")
  case False
  with inv show ?thesis by (auto simp: trade_tradeack_def split: option.splits)
next
  case True
  then obtain sd where a: "um_find w a = Some sd" and nt: "\<not> pl_trading sd" and some: "pl_partner_id sd \<noteq> 0" by blast
  let ?b = "pl_partner_id sd"
  obtain tsd where b: "um_find w ?b = Some tsd" and p: "paired a sd ?b tsd" using mutualD(2) [OF inv a some] by blast
  have q: "pl_partner_id tsd = a" "\<not> pl_trading tsd" "a \<noteq> ?b" "pl_id sd = a"
    using p nt mutualD(1) [OF inv a] by (auto simp: paired_def trader_ok_def)
  define both where "both f = upd ?b f (upd a f w)" for f
  have both: "um_find (both f) k = (if k = a then Some (f sd) else if k = ?b then Some (f tsd) else um_find w k)" for f k
    using a b q(3) by (simp add: both_def umap_simps)
  have cases: "trade_tradeack E a type w \<in> {w, both unlock, both no_partner, both start_trading}"
    using a b nt some q by (simp add: trade_tradeack_def both_def Let_def)
  note ok = mutualD(1) [OF inv a] mutualD(1) [OF inv b]
  have "mutual (both unlock)"
    by (rule mutual_part [OF inv a b _ _ _ _ both]) (simp_all add: trader_ok_ends(3) ok nt q)
  moreover have "mutual (both no_partner)"
    by (rule mutual_part [OF inv a b _ _ _ _ both]) (simp_all add: trader_ok_ends(2) ok nt q)
  moreover have "mutual (both start_trading)"
  proof (rule mutual_two [OF inv q(3) a b _ _ _ _ _ both])
    have "a \<noteq> 0" using ok(1) by (simp add: trader_ok_def)
    then show "trader_ok a (start_trading sd)" "trader_ok ?b (start_trading tsd)" using ok some q by (simp_all add: start_ok)
  qed (use p q in \<open>simp_all add: paired_def\<close>)
  ultimately show ?thesis using cases inv by auto
qed


section \<open>Offering keeps it\<close>

text \<open>Only what is offered changes, and it is within the inventory.\<close>

definition offer_only :: "player \<Rightarrow> player \<Rightarrow> bool" where
  "offer_only sd sd' \<longleftrightarrow> sd'\<lparr>pl_isBoundTrading := pl_isBoundTrading sd, pl_deal_item := pl_deal_item sd,
     pl_deal_weight := pl_deal_weight sd, pl_deal_space := pl_deal_space sd, pl_deal_zeny := pl_deal_zeny sd\<rparr> = sd \<and>
     offers_ok (pl_deal_item sd') \<and> length (pl_deal_item sd') = TRADE_ITEMS \<and> 0 \<le> pl_deal_zeny sd'"

lemma offer_only_simps:
  assumes "offer_only sd sd'"
  shows "pl_id sd' = pl_id sd" "pl_account_id sd' = pl_account_id sd" "pl_zeny sd' = pl_zeny sd"
    "pl_bank_vault sd' = pl_bank_vault sd" "pl_trading sd' = pl_trading sd" "pl_deal_locked sd' = pl_deal_locked sd"
    "pl_partner_id sd' = pl_partner_id sd" "pl_inventory sd' = pl_inventory sd" "pl_inventory_data sd' = pl_inventory_data sd"
  using assms unfolding offer_only_def by (cases sd; cases sd'; simp)+

lemma offer_only_ok: "trader_ok a sd \<Longrightarrow> offer_only sd sd' \<Longrightarrow> trader_ok a sd'"
  using offer_only_simps [of sd sd'] by (simp add: trader_ok_def inventory_ok_def offer_only_def)

lemma offers_ok_update:
  "offers_ok ds \<Longrightarrow> 0 \<le> fst d \<Longrightarrow> fst d < int MAX_INVENTORY \<Longrightarrow> 0 \<le> snd d \<Longrightarrow> snd d \<le> MAX_AMOUNT \<Longrightarrow> offers_ok (ds[t := d])"
  using set_update_subset_insert [of ds t d] by (fastforce simp: offers_ok_def)

text \<open>The amount a position ends with: what was there plus the amount, cut to what the slot holds.\<close>

lemma offer_amount:
  fixes m n amount have_amount :: int
  assumes "0 \<le> m" "m \<le> MAX_AMOUNT" "0 < amount" "amount \<le> have_amount" "have_amount \<le> MAX_AMOUNT"
    and "x = (if m + amount > have_amount then to_int16 (have_amount - m) else amount)"
  shows "0 \<le> to_int16 (m + x) \<and> to_int16 (m + x) \<le> MAX_AMOUNT"
proof -
  have "to_int16 (have_amount - m) = have_amount - m" using assms by (intro to_int16_id) (simp_all add: MAX_AMOUNT_def)
  then have "0 \<le> m + x \<and> m + x \<le> have_amount" using assms by auto
  with assms(5) show ?thesis using to_int16_id [of "m + x"] by (simp add: MAX_AMOUNT_def)
qed

lemma arr_find_offer:
  "offers_ok ds \<Longrightarrow> arr_find P ds \<noteq> length ds \<Longrightarrow> ds ! arr_find P ds = (i, m) \<Longrightarrow> 0 \<le> m \<and> m \<le> MAX_AMOUNT"
  using arr_find_le [of P ds] nth_mem [of "arr_find P ds" ds] unfolding offers_ok_def by fastforce

lemma place_offer_only:
  assumes ok: "trader_ok a sd" and range: "0 \<le> index" "index < int MAX_INVENTORY"
    and amount: "0 < amount" "amount \<le> it_amount (slot sd (nat index))"
    and t: "t = arr_find (\<lambda>(i, m). i = index \<or> m = 0) (pl_deal_item sd)" "t \<noteq> TRADE_ITEMS"
  shows "offer_only sd (place_offer index amount unit t c sd)"
proof -
  let ?have = "it_amount (slot sd (nat index))"
  have sd: "offers_ok (pl_deal_item sd)" "length (pl_deal_item sd) = TRADE_ITEMS" "0 \<le> pl_deal_zeny sd"
    "inventory_ok sd" using ok by (simp_all add: trader_ok_def)
  have most: "?have \<le> MAX_AMOUNT"
    using sd(4) range unfolding inventory_ok_def item_ok_def by (meson nat_less_iff)
  obtain i m where im: "pl_deal_item sd ! t = (i, m)" by fastforce
  define x where "x = (if m + amount > ?have then to_int16 (?have - m) else amount)"
  define offer where "offer = (if i = index then (i, to_int16 (m + x)) else (index, amount))"
  have "0 \<le> m \<and> m \<le> MAX_AMOUNT" using arr_find_offer [OF sd(1)] t sd(2) im by metis
  then have "0 \<le> to_int16 (m + x) \<and> to_int16 (m + x) \<le> MAX_AMOUNT"
    using offer_amount [OF _ _ amount most x_def] by blast
  then have "0 \<le> fst offer" "fst offer < int MAX_INVENTORY" "0 \<le> snd offer" "snd offer \<le> MAX_AMOUNT"
    using range amount most by (auto simp: offer_def)
  note new = offers_ok_update [OF sd(1) this, of t]
  have deal: "pl_deal_item (place_offer index amount unit t c sd) = (pl_deal_item sd)[t := offer]"
    by (simp add: place_offer_def im Let_def offer_def x_def)
  show ?thesis
    unfolding offer_only_def deal using new sd(2,3) by (simp add: place_offer_def im Let_def)
qed

lemma bound_only:
  "trader_ok a sd \<Longrightarrow> offer_only sd (sd\<lparr>pl_isBoundTrading := u\<rparr>)"
  "offer_only (sd\<lparr>pl_isBoundTrading := u\<rparr>) sd' \<Longrightarrow> offer_only sd sd'"
  unfolding offer_only_def trader_ok_def by (cases sd; cases sd'; simp)+

lemma additem_offers:
  assumes a: "um_find w a = Some sd" and ok: "trader_ok a sd"
  shows "trade_tradeadditem E a index amount w \<in> {w, trade_tradecancel a w} \<or>
    (\<exists>sd'. trade_tradeadditem E a index amount w = upd a (\<lambda>_. sd') w \<and> offer_only sd sd')"
proof (cases "0 \<le> index \<and> index < int MAX_INVENTORY \<and> 0 < amount \<and> amount \<le> it_amount (slot sd (nat index))")
  case False
  then show ?thesis using a by (auto simp: trade_tradeadditem_def Let_def split: option.splits)
next
  case True
  define u where "u = (if it_bound (slot sd (nat index)) \<noteq> 0
    then or (pl_isBoundTrading sd) (push_bit (it_bound (slot sd (nat index))) 1) else pl_isBoundTrading sd)"
  let ?sd1 = "sd\<lparr>pl_isBoundTrading := u\<rparr>"
  have sd1: "(if it_bound (slot sd (nat index)) \<noteq> 0 then sd\<lparr>pl_isBoundTrading :=
      or (pl_isBoundTrading sd) (push_bit (it_bound (slot sd (nat index))) 1)\<rparr> else sd) = ?sd1"
    by (simp add: u_def)
  let ?t = "arr_find (\<lambda>(i, m). i = index \<or> m = 0) (pl_deal_item ?sd1)"
  have "trader_ok a ?sd1" using ok trader_ok_ends(4) by blast
  from bound_only(2) [OF place_offer_only [OF this _ _ _ _ refl]] True
  have placed: "offer_only sd (place_offer index amount unit ?t c ?sd1)" if "?t \<noteq> TRADE_ITEMS" for unit c
    using that by simp
  show ?thesis
    using a True placed bound_only(1) [OF ok, of u]
    unfolding trade_tradeadditem_def a option.case Let_def sd1
    by (auto split: option.split)
qed

lemma mutual_offer:
  assumes inv: "mutual w" and a: "um_find w a = Some sd" and sd': "offer_only sd sd'"
  shows "mutual (upd a (\<lambda>_. sd') w)"
  by (rule mutual_one [OF inv a offer_only_ok [OF mutualD(1) [OF inv a] sd']])
    (use a offer_only_simps [OF sd'] in \<open>simp_all add: umap_simps\<close>)

lemma mutual_additem:
  assumes inv: "mutual w"
  shows "mutual (trade_tradeadditem E a index amount w)"
proof (cases "um_find w a")
  case None
  with inv show ?thesis by (simp add: trade_tradeadditem_def)
next
  case (Some sd)
  from additem_offers [OF Some mutualD(1) [OF inv Some], of E index amount] mutual_cancel [OF inv, of a]
    mutual_offer [OF inv Some] inv show ?thesis by auto
qed

lemma addzeny_offers:
  assumes a: "um_find w a = Some sd" and ok: "trader_ok a sd"
  shows "trade_tradeaddzeny a amount w \<in> {w, trade_tradecancel a w} \<or>
    (\<exists>sd'. trade_tradeaddzeny a amount w = upd a (\<lambda>_. sd') w \<and> offer_only sd sd')"
proof (cases "0 \<le> amount")
  case False
  then show ?thesis using a by (auto simp: trade_tradeaddzeny_def split: option.splits)
next
  case True
  then have "offer_only sd (sd\<lparr>pl_deal_zeny := amount\<rparr>)" using ok by (simp add: offer_only_def trader_ok_def)
  moreover have "upd a (\<lambda>sd. sd\<lparr>pl_deal_zeny := amount\<rparr>) w = upd a (\<lambda>_. sd\<lparr>pl_deal_zeny := amount\<rparr>) w"
    using a by (simp add: um_modify_def)
  ultimately show ?thesis using a by (auto simp: trade_tradeaddzeny_def split: option.splits)
qed

lemma mutual_addzeny:
  assumes inv: "mutual w"
  shows "mutual (trade_tradeaddzeny a amount w)"
proof (cases "um_find w a")
  case None
  with inv show ?thesis by (simp add: trade_tradeaddzeny_def)
next
  case (Some sd)
  from addzeny_offers [OF Some mutualD(1) [OF inv Some], of amount] mutual_cancel [OF inv, of a]
    mutual_offer [OF inv Some] inv show ?thesis by auto
qed

lemma trader_ok_lock: "trader_ok k sd \<Longrightarrow> pl_trading sd \<Longrightarrow> trader_ok k (sd\<lparr>pl_deal_locked := n\<rparr>)"
  by (simp add: trader_ok_def inventory_ok_def)

lemma mutual_lock:
  assumes inv: "mutual w" and a: "um_find w a = Some sd" and t: "pl_trading sd"
  shows "mutual (upd a (\<lambda>sd. sd\<lparr>pl_deal_locked := n\<rparr>) w)"
  by (rule mutual_one [OF inv a trader_ok_lock [where n = n, OF mutualD(1) [OF inv a] t]])
    (use a in \<open>simp_all add: umap_simps\<close>)

lemma mutual_ok: "mutual w \<Longrightarrow> mutual (trade_tradeok a w)"
  using mutual_lock [of w a _ 1] mutual_cancel [of w a]
  by (auto simp: trade_tradeok_def split: option.splits)


section \<open>Confirming keeps it, and moves exactly what was offered\<close>

definition goods :: "player \<Rightarrow> item list \<times> item_data option list \<times> uint32 \<times> int \<times> int" where
  "goods sd = (pl_inventory sd, pl_inventory_data sd, pl_weight sd, pl_zeny sd, pl_bank_vault sd)"

definition goods_same :: "trade_world \<Rightarrow> trade_world \<Rightarrow> bool" where
  "goods_same w w' \<longleftrightarrow> (\<forall>k. map_option goods (um_find w' k) = map_option goods (um_find w k))"

definition all_fresh :: "trade_env \<Rightarrow> trade_world \<Rightarrow> bool" where
  "all_fresh E w \<longleftrightarrow> (\<forall>k sd. um_find w k = Some sd \<longrightarrow> fresh_bag E sd)"

text \<open>
  The player \<open>a\<close>, who pressed OK, and the partner, who confirmed before, exchange: each gets the zeny the
  other offered, of every item both together have as much as before, and nobody else is touched.
\<close>

definition exchanged :: "uint32 \<Rightarrow> trade_world \<Rightarrow> trade_world \<Rightarrow> bool" where
  "exchanged a w w' \<longleftrightarrow> (\<exists>b sd tsd sd' tsd'.
     um_find w a = Some sd \<and> um_find w b = Some tsd \<and> paired a sd b tsd \<and> pl_trading sd \<and>
     pl_deal_locked sd \<noteq> 0 \<and> pl_deal_locked tsd \<ge> 2 \<and>
     um_find w' a = Some sd' \<and> um_find w' b = Some tsd' \<and> (\<forall>k. k \<noteq> a \<and> k \<noteq> b \<longrightarrow> um_find w' k = um_find w k) \<and>
     (\<forall>nid. stock nid sd' + stock nid tsd' = stock nid sd + stock nid tsd) \<and>
     pl_zeny sd' = pl_zeny sd - pl_deal_zeny sd + pl_deal_zeny tsd \<and>
     pl_zeny tsd' = pl_zeny tsd - pl_deal_zeny tsd + pl_deal_zeny sd \<and>
     pl_bank_vault sd' = pl_bank_vault sd \<and> pl_bank_vault tsd' = pl_bank_vault tsd \<and> idle sd' \<and> idle tsd')"

lemma goods_refl [simp]: "goods_same w w"
  by (simp add: goods_same_def)

lemma goods_trans: "goods_same w1 w2 \<Longrightarrow> goods_same w2 w3 \<Longrightarrow> goods_same w1 w3"
  by (simp add: goods_same_def)

lemma goods_upd: "(\<And>sd. um_find w a = Some sd \<Longrightarrow> goods (f sd) = goods sd) \<Longrightarrow> goods_same w (upd a f w)"
  by (auto simp: goods_same_def umap_simps option.map_comp intro!: option.map_cong)

lemma goods_keep: "goods_same w0 w \<Longrightarrow> (\<And>sd. goods (f sd) = goods sd) \<Longrightarrow> goods_same w0 (upd a f w)"
  by (rule goods_trans [OF _ goods_upd])

lemma goods_simps [simp]:
  "goods (no_offer sd) = goods sd" "goods (no_partner sd) = goods sd" "goods (unlock sd) = goods sd"
  "goods (sd\<lparr>pl_isBoundTrading := u\<rparr>) = goods sd" "goods (sd\<lparr>pl_deal_locked := n\<rparr>) = goods sd"
  "goods (start_trading sd) = goods sd" "goods (partner_with t sd) = goods sd"
  by (simp_all add: goods_def no_offer_def no_partner_def unlock_def start_trading_def partner_with_def)

lemma goods_cancel: "goods_same w (trade_tradecancel a w)"
  by (simp add: trade_tradecancel_def Let_def goods_keep split: option.split)


text \<open>The check against cheating only marks the player.\<close>

lemma check_marks:
  "\<exists>h e. snd (impossible_trade_check E sd) = sd\<lparr>pl_zeny_hacker := h, pl_eof := e\<rparr>"
proof -
  have "snd (impossible_trade_check E sd) \<in> {sd\<lparr>pl_zeny_hacker := True, pl_eof := pl_eof sd\<rparr>,
      sd\<lparr>pl_zeny_hacker := pl_zeny_hacker sd, pl_eof := True\<rparr>,
      sd\<lparr>pl_zeny_hacker := pl_zeny_hacker sd, pl_eof := pl_eof sd\<rparr>}"
    by (simp add: impossible_trade_check_def)
  then show ?thesis by (simp only: insert_iff empty_iff) blast
qed

lemma marked_simps [simp]:
  "goods (sd\<lparr>pl_zeny_hacker := h, pl_eof := e\<rparr>) = goods sd"
  "trader_ok k (sd\<lparr>pl_zeny_hacker := h, pl_eof := e\<rparr>) = trader_ok k sd"
  by (simp_all add: goods_def trader_ok_def inventory_ok_def)

lemma mark_world:
  fixes E :: trade_env
  assumes inv: "mutual w" and a: "um_find w a = Some sd"
  defines "w' \<equiv> upd a (\<lambda>_. snd (impossible_trade_check E sd)) w"
  shows "mutual w'" "goods_same w w'"
proof -
  obtain h e where m: "snd (impossible_trade_check E sd) = sd\<lparr>pl_zeny_hacker := h, pl_eof := e\<rparr>"
    using check_marks by blast
  show "mutual w'"
    unfolding w'_def m
    by (rule mutual_one [OF inv a, where sd' = "sd\<lparr>pl_zeny_hacker := h, pl_eof := e\<rparr>"])
      (use a mutualD(1) [OF inv a] in \<open>simp_all add: umap_simps\<close>)
  show "goods_same w w'" unfolding w'_def m by (rule goods_upd) (use a in simp)
qed

lemma ready_trader: "trader_ok k sd \<Longrightarrow> fresh_bag E sd \<Longrightarrow> ready E sd"
  by (simp add: trader_ok_def ready_def)

lemma trade_check_zeny:
  assumes "trade_check E sd tsd" "ready E sd" "ready E tsd"
  shows "zeny_fits sd tsd" "zeny_fits tsd sd"
  using assms unfolding trade_check_def zeny_fits_def ready_def by (auto split: if_splits)

lemma exchange_mutual:
  assumes inv: "mutual w" and a: "um_find w a = Some sd" and b: "um_find w b = Some tsd" and p: "paired a sd b tsd"
    and E: "equip_neutral E" and fresh: "all_fresh E w"
    and check: "fst (impossible_trade_check E sd) = 0" "fst (impossible_trade_check E tsd) = 0" "trade_check E sd tsd"
    and locked: "pl_trading sd" "pl_deal_locked sd \<noteq> 0" "pl_deal_locked tsd \<ge> 2"
  shows "mutual (exchange E a b w) \<and> exchanged a w (exchange E a b w)"
proof -
  note ok = mutualD(1) [OF inv a] mutualD(1) [OF inv b]
  have ready: "ready E sd" "ready E tsd"
    using ok a b fresh unfolding all_fresh_def by (blast intro: ready_trader)+
  note C = check_covers [OF ready(1) check(1)] check_covers [OF ready(2) check(2)]
  have sides: "side E 0 sd" "side E 0 tsd" using ready C by (simp_all add: side_def ready_def)
  note zeny = trade_check_zeny [OF check(3) ready]
  have ab: "a \<noteq> b" using p by (simp add: paired_def)
  from exchange_spec [OF ab a b E sides zeny] obtain sd' tsd' where
    f: "um_find (exchange E a b w) a = Some sd'" "um_find (exchange E a b w) b = Some tsd'"
      "\<forall>k. k \<noteq> a \<and> k \<noteq> b \<longrightarrow> um_find (exchange E a b w) k = um_find w k" and
    g: "\<forall>nid. stock nid sd' + stock nid tsd' = stock nid sd + stock nid tsd"
      "pl_zeny sd' = pl_zeny sd - pl_deal_zeny sd + pl_deal_zeny tsd"
      "pl_zeny tsd' = pl_zeny tsd - pl_deal_zeny tsd + pl_deal_zeny sd"
      "pl_bank_vault sd' = pl_bank_vault sd" "pl_bank_vault tsd' = pl_bank_vault tsd" and
    r: "ready E sd'" "ready E tsd'" "idle sd'" "idle tsd'" "same_person sd sd'" "same_person tsd tsd'" by blast
  have "trader_ok a sd'" "trader_ok b tsd'" using r ok by (auto simp: trader_ok_def ready_def idle_def same_person_def)
  moreover have "um_find (exchange E a b w) k = (if k = a then Some sd' else if k = b then Some tsd' else um_find w k)" for k
    using f by simp
  moreover have "pl_partner_id sd \<in> {0, b}" "pl_partner_id tsd \<in> {0, a}" using p by (simp_all add: paired_def)
  ultimately have "mutual (exchange E a b w)"
    using mutual_two [OF inv ab a b] r(3,4) by (simp add: idle_def)
  moreover have "exchanged a w (exchange E a b w)"
    unfolding exchanged_def using a b p locked f g r(3,4) by blast
  ultimately show ?thesis by blast
qed


lemma upd_same: "um_find w a = Some sd \<Longrightarrow> upd a (\<lambda>_. sd) w = w"
  by (simp add: um_modify_def um_put_def um_find_def update_triv)

lemma exchanged_lock:
  assumes ex: "exchanged a (upd a (\<lambda>sd. sd\<lparr>pl_deal_locked := 2\<rparr>) w) w'"
    and a: "um_find w a = Some sd" and locked: "pl_deal_locked sd \<noteq> 0"
  shows "exchanged a w w'"
proof -
  let ?w1 = "upd a (\<lambda>sd. sd\<lparr>pl_deal_locked := 2\<rparr>) w"
  have a1: "um_find ?w1 a = Some (sd\<lparr>pl_deal_locked := 2\<rparr>)" using a by (simp add: umap_simps)
  have others: "k \<noteq> a \<Longrightarrow> um_find ?w1 k = um_find w k" for k by (simp add: umap_simps)
  from ex obtain b tsd sd' tsd' where b: "um_find ?w1 b = Some tsd" "paired a (sd\<lparr>pl_deal_locked := 2\<rparr>) b tsd"
    "pl_trading sd" "pl_deal_locked tsd \<ge> 2" and
    r: "um_find w' a = Some sd'" "um_find w' b = Some tsd'" "\<forall>k. k \<noteq> a \<and> k \<noteq> b \<longrightarrow> um_find w' k = um_find ?w1 k"
     "\<forall>nid. stock nid sd' + stock nid tsd' = stock nid (sd\<lparr>pl_deal_locked := 2\<rparr>) + stock nid tsd"
     "pl_zeny sd' = pl_zeny sd - pl_deal_zeny sd + pl_deal_zeny tsd"
     "pl_zeny tsd' = pl_zeny tsd - pl_deal_zeny tsd + pl_deal_zeny sd"
     "pl_bank_vault sd' = pl_bank_vault sd" "pl_bank_vault tsd' = pl_bank_vault tsd" "idle sd'" "idle tsd'"
    unfolding exchanged_def a1 by auto
  have p: "paired a sd b tsd" "a \<noteq> b" using b(2) by (simp_all add: paired_def)
  show ?thesis
    unfolding exchanged_def
    using a b(1,3,4) r p locked others by (intro exI [of _ b] exI [of _ sd] exI [of _ tsd] exI [of _ sd'] exI [of _ tsd'])
      (simp add: stock_def)
qed

text \<open>The checks and the exchange, once both have confirmed.\<close>

definition settle :: "trade_env \<Rightarrow> uint32 \<Rightarrow> uint32 \<Rightarrow> trade_world \<Rightarrow> trade_world" where
  "settle E a b w1 =
     (case um_find w1 a of None \<Rightarrow> w1 | Some sd \<Rightarrow>
      let (hack, sd') = impossible_trade_check E sd; w2 = upd a (\<lambda>_. sd') w1 in
      if hack \<noteq> 0 then trade_tradecancel a w2 else
      case um_find w2 b of None \<Rightarrow> w2 | Some tsd \<Rightarrow>
      let (hack, tsd') = impossible_trade_check E tsd; w3 = upd b (\<lambda>_. tsd') w2 in
      if hack \<noteq> 0 then trade_tradecancel b w3 else
      if \<not> trade_check E sd' tsd' then trade_tradecancel a w3
      else exchange E a b w3)"

lemma settle_spec:
  assumes inv: "mutual w" and a: "um_find w a = Some sd" and b: "um_find w b = Some tsd" and p: "paired a sd b tsd"
    and E: "equip_neutral E" and fresh: "all_fresh E w"
    and locked: "pl_trading sd" "pl_deal_locked sd \<noteq> 0" "pl_deal_locked tsd \<ge> 2"
  shows "mutual (settle E a b w) \<and> (goods_same w (settle E a b w) \<or> exchanged a w (settle E a b w))"
proof -
  have ready: "ready E sd" "ready E tsd"
    using mutualD(1) [OF inv a] mutualD(1) [OF inv b] a b fresh unfolding all_fresh_def by (blast intro: ready_trader)+
  have cancelled: "mutual (trade_tradecancel k w2) \<and> goods_same w (trade_tradecancel k w2)"
    if "mutual w2" "goods_same w w2" for k w2
    using mutual_cancel [OF that(1)] goods_trans [OF that(2) goods_cancel] by blast
  note marks = cancelled [OF mark_world [OF inv a]] cancelled [OF mark_world [OF inv b]]
  have same: "upd a (\<lambda>_. sd) w = w" "upd b (\<lambda>_. tsd) w = w" using a b by (simp_all add: upd_same)
  consider "fst (impossible_trade_check E sd) \<noteq> 0"
    | "fst (impossible_trade_check E sd) = 0" "fst (impossible_trade_check E tsd) \<noteq> 0"
    | "fst (impossible_trade_check E sd) = 0" "fst (impossible_trade_check E tsd) = 0" "\<not> trade_check E sd tsd"
    | "fst (impossible_trade_check E sd) = 0" "fst (impossible_trade_check E tsd) = 0" "trade_check E sd tsd" by blast
  then show ?thesis
  proof cases
    case 1
    with a marks(1) show ?thesis by (simp add: settle_def case_prod_beta Let_def)
  next
    case 2
    with a b same check_covers(3) [OF ready(1)] marks(2) show ?thesis by (simp add: settle_def case_prod_beta Let_def)
  next
    case 3
    then have "settle E a b w = trade_tradecancel a w"
      using a b same check_covers(3) [OF ready(1)] check_covers(3) [OF ready(2)] by (simp add: settle_def case_prod_beta Let_def)
    with cancelled [OF inv goods_refl] show ?thesis by simp
  next
    case 4
    then have "settle E a b w = exchange E a b w"
      using a b same check_covers(3) [OF ready(1)] check_covers(3) [OF ready(2)] by (simp add: settle_def case_prod_beta Let_def)
    with exchange_mutual [OF inv a b p E fresh 4 locked] show ?thesis by simp
  qed
qed

lemma commit_spec:
  assumes inv: "mutual w" and E: "equip_neutral E" and fresh: "all_fresh E w"
  shows "mutual (trade_tradecommit E a w) \<and>
    (goods_same w (trade_tradecommit E a w) \<or> exchanged a w (trade_tradecommit E a w))"
proof (cases "\<exists>sd. um_find w a = Some sd \<and> pl_trading sd \<and> pl_deal_locked sd \<noteq> 0")
  case False
  then have "trade_tradecommit E a w = w" by (auto simp: trade_tradecommit_def split: option.split)
  with inv show ?thesis by simp
next
  case True
  then obtain sd where a: "um_find w a = Some sd" and t: "pl_trading sd" and locked: "pl_deal_locked sd \<noteq> 0" by blast
  have "pl_partner_id sd \<noteq> 0" using mutualD(1) [OF inv a] t by (simp add: trader_ok_def)
  then obtain b tsd where b: "um_find w b = Some tsd" "pl_partner_id sd = b" and p: "paired a sd b tsd"
    using mutualD(2) [OF inv a] by blast
  have ab: "a \<noteq> b" using p by (simp add: paired_def)
  let ?w1 = "upd a (\<lambda>sd. sd\<lparr>pl_deal_locked := 2\<rparr>) w" and ?sd1 = "sd\<lparr>pl_deal_locked := 2\<rparr>"
  have a1: "um_find ?w1 a = Some ?sd1" and b1: "um_find ?w1 b = Some tsd" using a b ab by (simp_all add: umap_simps)
  have inv1: "mutual ?w1" by (rule mutual_lock [OF inv a t])
  have goods1: "goods_same w ?w1" by (rule goods_upd) simp
  have fresh1: "all_fresh E ?w1" using fresh by (auto simp: all_fresh_def umap_simps fresh_bag_def split: if_splits)
  have result: "trade_tradecommit E a w = (if pl_deal_locked tsd < 2 then ?w1 else settle E a b ?w1)"
    using a b t locked b1 by (simp add: trade_tradecommit_def settle_def Let_def)
  show ?thesis
  proof (cases "pl_deal_locked tsd < 2")
    case True
    with result inv1 goods1 show ?thesis by simp
  next
    case False
    have "paired a ?sd1 b tsd" using p by (simp add: paired_def)
    from settle_spec [OF inv1 a1 b1 this E fresh1] t False
    have s: "mutual (settle E a b ?w1)" "goods_same ?w1 (settle E a b ?w1) \<or> exchanged a ?w1 (settle E a b ?w1)" by simp_all
    with exchanged_lock [OF _ a locked] goods_trans [OF goods1] False result show ?thesis by auto
  qed
qed


section \<open>The server\<close>

text \<open>A player who just logged in: the session record starts out zeroed.\<close>

definition newcomer :: "uint32 \<Rightarrow> player \<Rightarrow> bool" where
  "newcomer k sd \<longleftrightarrow> k \<noteq> 0 \<and> pl_id sd = k \<and> pl_account_id sd = k \<and> idle sd \<and> inventory_ok sd \<and>
     pl_deal_item sd = replicate TRADE_ITEMS (0, 0) \<and> pl_deal_zeny sd = 0 \<and> 0 \<le> pl_zeny sd \<and> pl_zeny sd \<le> MAX_ZENY"

text \<open>
  The trade's part of \<open>unit_remove_map_\<close>, for a player who leaves the map; one who leaves the server is
  then no longer found under the id.
\<close>

definition unit_remove_map_trade :: "uint32 \<Rightarrow> trade_world \<Rightarrow> trade_world" where
  "unit_remove_map_trade a w =
     (case um_find w a of None \<Rightarrow> w | Some sd \<Rightarrow> if pl_partner_id sd > 0 then trade_tradecancel a w else w)"

text \<open>Whatever else a player does, as long as it leaves the trade alone.\<close>

definition plays :: "player \<Rightarrow> player \<Rightarrow> bool" where
  "plays sd sd' \<longleftrightarrow> pl_id sd' = pl_id sd \<and> pl_account_id sd' = pl_account_id sd \<and> pl_trading sd' = pl_trading sd \<and>
     pl_deal_locked sd' = pl_deal_locked sd \<and> pl_partner_id sd' = pl_partner_id sd \<and>
     pl_deal_item sd' = pl_deal_item sd \<and> pl_deal_zeny sd' = pl_deal_zeny sd \<and>
     inventory_ok sd' \<and> 0 \<le> pl_zeny sd' \<and> pl_zeny sd' \<le> MAX_ZENY"

text \<open>A player who trades asks nobody else: neither from a chat room nor by \<open>@trade\<close>.\<close>

definition message_ok :: "trade_env \<Rightarrow> trade_message \<Rightarrow> trade_world \<Rightarrow> bool" where
  "message_ok E m w =
     (case m of
        Msg_request a b \<Rightarrow> (case um_find w a of None \<Rightarrow> True | Some sd \<Rightarrow> \<not> (pl_trading sd \<and> tv_chat E a))
      | Msg_command a b \<Rightarrow> (case um_find w a of None \<Rightarrow> True | Some sd \<Rightarrow> \<not> pl_trading sd)
      | _ \<Rightarrow> True)"

inductive trade_reachable :: "trade_world \<Rightarrow> bool" where
  empty: "trade_reachable []"
| login: "trade_reachable w \<Longrightarrow> um_find w k = None \<Longrightarrow> newcomer k sd \<Longrightarrow> trade_reachable (um_put k sd w)"
| warp: "trade_reachable w \<Longrightarrow> trade_reachable (unit_remove_map_trade a w)"
| logout: "trade_reachable w \<Longrightarrow> trade_reachable (um_erase a (unit_remove_map_trade a w))"
| play: "trade_reachable w \<Longrightarrow> um_find w a = Some sd \<Longrightarrow> plays sd sd' \<Longrightarrow> trade_reachable (um_put a sd' w)"
| message: "trade_reachable w \<Longrightarrow> equip_neutral E \<Longrightarrow> all_fresh E w \<Longrightarrow> message_ok E m w \<Longrightarrow>
    trade_reachable (trade_handle E m w)"

lemma mutual_login:
  assumes inv: "mutual w" and new: "um_find w k = None" "newcomer k sd"
  shows "mutual (um_put k sd w)"
  unfolding mutual_def
proof (intro allI impI)
  fix j x assume x: "um_find (um_put k sd w) j = Some x"
  have sd: "trader_ok k sd" "pl_partner_id sd = 0"
    using new by (auto simp: newcomer_def trader_ok_def idle_def offers_ok_def MAX_INVENTORY_def MAX_AMOUNT_def)
  show "trader_ok j x \<and> (pl_partner_id x \<noteq> 0 \<longrightarrow>
      (\<exists>t. um_find (um_put k sd w) (pl_partner_id x) = Some t \<and> paired j x (pl_partner_id x) t))"
  proof (cases "j = k")
    case True
    with x sd show ?thesis by (simp add: umap_simps)
  next
    case False
    then have y: "um_find w j = Some x" using x by (simp add: umap_simps)
    have "pl_partner_id x \<noteq> 0 \<Longrightarrow> pl_partner_id x \<noteq> k" using mutualD(2) [OF inv y] new(1) by auto
    with mutualD [OF inv y] show ?thesis by (auto simp: umap_simps)
  qed
qed

lemma mutual_erase:
  assumes inv: "mutual w" and a: "um_find w a = Some sd" and none: "pl_partner_id sd = 0"
  shows "mutual (um_erase a w)"
  unfolding mutual_def
proof (intro allI impI)
  fix j x assume x: "um_find (um_erase a w) j = Some x"
  then have y: "um_find w j = Some x" and ja: "j \<noteq> a" by (simp_all add: umap_simps split: if_splits)
  have "pl_partner_id x \<noteq> a" using partner_unique [OF inv a y, of a] none ja by auto
  with mutualD [OF inv y] show "trader_ok j x \<and> (pl_partner_id x \<noteq> 0 \<longrightarrow>
      (\<exists>t. um_find (um_erase a w) (pl_partner_id x) = Some t \<and> paired j x (pl_partner_id x) t))"
    by (simp add: umap_simps)
qed

lemma cancel_self:
  assumes "mutual w" "um_find w a = Some sd"
  shows "\<exists>sd'. um_find (trade_tradecancel a w) a = Some sd' \<and> pl_partner_id sd' = 0"
  using cancel_alone(2) [OF assms] cancel_pair [OF assms] by (cases "pl_partner_id sd = 0") auto

lemma mutual_warp: "mutual w \<Longrightarrow> mutual (unit_remove_map_trade a w)"
  by (simp add: unit_remove_map_trade_def mutual_cancel split: option.split)

lemma mutual_logout:
  assumes inv: "mutual w"
  shows "mutual (um_erase a (unit_remove_map_trade a w))"
proof (cases "um_find w a")
  case None
  then have "um_find (um_erase a w) = um_find w" by (auto simp: umap_simps)
  with inv None show ?thesis by (simp add: mutual_def unit_remove_map_trade_def)
next
  case (Some sd)
  obtain sd' where sd': "um_find (unit_remove_map_trade a w) a = Some sd'" "pl_partner_id sd' = 0"
    using cancel_self [OF inv Some] Some by (cases "pl_partner_id sd = 0") (auto simp: unit_remove_map_trade_def word_gt_0_no word_neq_0_conv)
  show ?thesis by (rule mutual_erase [OF mutual_warp [OF inv] sd'])
qed

lemma mutual_play:
  assumes inv: "mutual w" and a: "um_find w a = Some sd" and p: "plays sd sd'"
  shows "mutual (um_put a sd' w)"
  by (rule mutual_one [OF inv a, of sd'])
    (use p mutualD(1) [OF inv a] in \<open>auto simp: umap_simps plays_def trader_ok_def\<close>)

lemma request_message:
  assumes inv: "mutual w" and ok: "message_ok E (Msg_request a b) w"
  shows "clif_parse_TradeRequest E a b w = w \<or>
    clif_parse_TradeRequest E a b w = trade_traderequest E a b w \<and> (\<forall>sd. um_find w a = Some sd \<longrightarrow> \<not> pl_trading sd)"
proof (cases "um_find w a")
  case (Some sd)
  have "pl_id sd = a" using mutualD(1) [OF inv Some] by (simp add: trader_ok_def)
  with Some ok show ?thesis by (auto simp: clif_parse_TradeRequest_def message_ok_def pc_cant_act_def)
qed (simp add: clif_parse_TradeRequest_def)

lemma mutual_message:
  assumes inv: "mutual w" and E: "equip_neutral E" "all_fresh E w" and ok: "message_ok E m w"
  shows "mutual (trade_handle E m w)"
proof (cases m)
  case (Msg_request a b)
  from request_message [OF inv ok [unfolded Msg_request]] inv mutual_request [OF inv, of a E b]
  show ?thesis by (auto simp: Msg_request)
next
  case (Msg_command a b)
  then have "\<And>sd. um_find w a = Some sd \<Longrightarrow> \<not> pl_trading sd" using ok by (simp add: message_ok_def)
  with mutual_request [OF inv] Msg_command show ?thesis by simp
next
  case (Msg_commit a)
  with commit_spec [OF inv E] show ?thesis by simp
qed (use inv in \<open>simp_all add: mutual_ack mutual_additem mutual_addzeny mutual_ok mutual_cancel clif_parse_TradeAddItem_def\<close>)

lemma reachable_mutual: "trade_reachable w \<Longrightarrow> mutual w"
proof (induction rule: trade_reachable.induct)
  case empty
  show ?case by (simp add: mutual_def um_find_Nil)
qed (simp_all add: mutual_login mutual_warp mutual_logout mutual_play mutual_message)


section \<open>An example server\<close>

text \<open>
  Four players with empty bags, 5000 zeny each; every item is a plain stackable one, equipping does
  nothing, and player 1 sits in a chat room.
\<close>

definition sample_item :: item_data where
  "sample_item = \<lparr>id_type = IT_ETC, id_weight = 1, id_slots = 0, id_equip = 0, id_stack_amount = 0,
     id_stack_inventory = False, id_guid = False, id_autoequip = False, id_no_trade = False,
     id_trade_partner = False, id_stack_cart = False, id_stack_storage = False, id_stack_guild_storage = False,
     id_no_cart = False, id_no_storage = False, id_no_guild_storage = False, id_gm_lv_trade_override = 0\<rparr>"

definition sample_env :: trade_env where
  "sample_env = \<lparr>ev_item = \<lambda>_. Some sample_item, ev_dummy = sample_item, ev_time = 1, ev_equip = \<lambda>_ _ sd. sd, ev_unequip = \<lambda>_ sd. sd,
     tv_notrade = \<lambda>_. False, tv_near = \<lambda>_ _. True, tv_can_use_trade = \<lambda>_. False, tv_group_level = \<lambda>_. 0,
     tv_partner = \<lambda>_. None, tv_invite_request_check = True, tv_trade_count_stackable = False,
     tv_ban_hack_trade = 0, tv_chat = \<lambda>k. k = 1, tv_other_act = \<lambda>_. False, tv_noask = \<lambda>_. False,
     tv_mail_writing = \<lambda>_. False, tv_basic_skill = \<lambda>_. True\<rparr>"

definition sample_player :: "uint32 \<Rightarrow> player" where
  "sample_player k = \<lparr>pl_id = k, pl_account_id = k, pl_char_id = k, pl_base_level = 1, pl_guild_id = 0,
     pl_zeny = 5000, pl_bank_vault = 0, pl_inventory = replicate MAX_INVENTORY zero_item,
     pl_inventory_data = replicate MAX_INVENTORY None, pl_weight = 0, pl_max_weight = 1000,
     pl_inventory_slots = 100, pl_uniqueitem_counter = 0, pl_permissions = [PC_PERM_TRADE], pl_m = 0,
     pl_npc_id = 0, pl_vending = False, pl_buyingstore = False, pl_storage_flag = 0, pl_guild_invite = 0,
     pl_party_invite = 0, pl_adopt_invite = 0, pl_banking = False, pl_trading = False, pl_deal_locked = 0,
     pl_isBoundTrading = 0, pl_partner_id = 0, pl_partner_lv = 0, pl_deal_item = replicate TRADE_ITEMS (0, 0),
     pl_deal_zeny = 0, pl_deal_weight = 0, pl_deal_space = 0, pl_zeny_hacker = False, pl_eof = False\<rparr>"

definition sample_world :: trade_world where
  "sample_world = um_put 4 (sample_player 4) (um_put 3 (sample_player 3)
     (um_put 2 (sample_player 2) (um_put 1 (sample_player 1) [])))"

definition run :: "trade_message list \<Rightarrow> trade_world" where
  "run ms = fold (trade_handle sample_env) ms sample_world"

definition zeny_of :: "uint32 \<Rightarrow> trade_world \<Rightarrow> int option" where
  "zeny_of k w = map_option pl_zeny (um_find w k)"

end
