(* ===== verification/TradeFairness.thy ===== *)
theory TradeFairness
  imports TradeSystem
begin

text \<open>
  The properties of the trade, with runs of the example server as witnesses, and a run in which a
  player in a chat room takes the offer another player made to somebody else.
\<close>

section \<open>Evaluating runs\<close>

named_theorems run_simps

lemma assoc_simps [run_simps]:
  "um_find ((k, v) # m) j = (if j = k then Some v else um_find m j)" "um_find [] j = None"
  "um_put k v ((k', v') # m) = (if k = k' then (k, v) # m else (k', v') # um_put k v m)" "um_put k v [] = [(k, v)]"
  by (simp_all add: um_find_def um_put_def)

text \<open>Offers of no items.\<close>

abbreviation nothing :: "(int \<times> int) list" where
  "nothing \<equiv> replicate TRADE_ITEMS (0, 0)"

lemma nothing_exceeds [run_simps]: "\<not> exceeds_inventory bag (replicate n (0, 0))"
  by (induction n) simp_all

lemma nothing_fits [run_simps]: "fits_all E (replicate n ((0, 0), (0, 0))) (bag, bag2)"
  by (induction n arbitrary: bag bag2) (simp_all add: fits_def)

lemma give_nothing:
  "um_find w a = Some sd \<Longrightarrow> pl_deal_item sd = nothing \<Longrightarrow> t < TRADE_ITEMS \<Longrightarrow> give_item E a b t w = w"
  by (simp add: give_item_def split: option.split)

lemma nothing_exchanged:
  assumes a: "um_find w a = Some sd" "pl_deal_item sd = nothing" and b: "um_find w b = Some tsd" "pl_deal_item tsd = nothing"
  shows "exchange E a b w = upd b finish_trading (upd a finish_trading (give_zeny b a (give_zeny a b w)))"
proof -
  have "n \<le> TRADE_ITEMS \<Longrightarrow> fold (\<lambda>t w. give_item E b a t (give_item E a b t w)) [0..<n] w = w" for n
    by (induction n) (simp_all add: give_nothing [OF a] give_nothing [OF b])
  then show ?thesis by (simp add: exchange_def)
qed

lemmas trade_defs = clif_parse_TradeRequest_def pc_cant_act_def trade_traderequest_def pc_can_give_items_def
  no_partner_def trade_tradeack_def busy_def start_trading_def clif_parse_TradeAddItem_def trade_tradeaddzeny_def
  trade_tradeok_def trade_tradecommit_def impossible_trade_check_def trade_check_def um_modify_def Let_def

lemmas sample_defs = run_def sample_world_def sample_player_def sample_env_def zeny_of_def MAX_ZENY_def

text \<open>Players 1 and 2 trade, and 2 offers 1000 zeny.\<close>

lemma run_trading [run_simps]:
  "run [Msg_request 1 2, Msg_ack 2 3, Msg_additem 2 0 1000] =
     [(1, (sample_player 1)\<lparr>pl_trading := True, pl_partner_id := 2, pl_partner_lv := 1\<rparr>),
      (2, (sample_player 2)\<lparr>pl_trading := True, pl_partner_id := 1, pl_partner_lv := 1, pl_deal_zeny := 1000\<rparr>),
      (3, sample_player 3), (4, sample_player 4)]"
  by (simp add: sample_defs trade_defs run_simps)


section \<open>The example server is reachable\<close>

lemma sample_newcomer: "k \<noteq> 0 \<Longrightarrow> newcomer k (sample_player k)"
  by (simp add: newcomer_def idle_def sample_player_def inventory_ok_def item_ok_def zero_item_def MAX_ZENY_def MAX_AMOUNT_def)

lemma sample_neutral: "equip_neutral sample_env"
  by (simp add: equip_neutral_def sample_env_def worn_only_refl)

lemma sample_reachable: "trade_reachable sample_world"
  unfolding sample_world_def
  by (intro trade_reachable.intros sample_newcomer) (simp_all add: run_simps)

lemma run_snoc: "run (ms @ [m]) = trade_handle sample_env m (run ms)"
  by (simp add: run_def)

lemma sample_fresh: "(\<forall>(k, sd) \<in> set w. pl_inventory sd = replicate MAX_INVENTORY zero_item) \<Longrightarrow> all_fresh sample_env w"
  by (auto simp: all_fresh_def um_find_def fresh_bag_def fresh_item_def zero_item_def dest!: map_of_SomeD)

lemma run_step:
  "trade_reachable (run ms) \<Longrightarrow> \<forall>(k, sd) \<in> set (run ms). pl_inventory sd = replicate MAX_INVENTORY zero_item \<Longrightarrow>
   message_ok sample_env m (run ms) \<Longrightarrow> trade_reachable (run (ms @ [m]))"
  unfolding run_snoc by (rule trade_reachable.message [OF _ sample_neutral sample_fresh])

lemma run_one: "run [Msg_request 1 2] = [(1, (sample_player 1)\<lparr>pl_partner_id := 2, pl_partner_lv := 1\<rparr>),
    (2, (sample_player 2)\<lparr>pl_partner_id := 1, pl_partner_lv := 1\<rparr>), (3, sample_player 3), (4, sample_player 4)]"
  by (simp add: sample_defs trade_defs run_simps)

lemma run_two: "run [Msg_request 1 2, Msg_ack 2 3] =
    [(1, (sample_player 1)\<lparr>pl_trading := True, pl_partner_id := 2, pl_partner_lv := 1\<rparr>),
     (2, (sample_player 2)\<lparr>pl_trading := True, pl_partner_id := 1, pl_partner_lv := 1\<rparr>),
     (3, sample_player 3), (4, sample_player 4)]"
  by (simp add: sample_defs trade_defs run_simps)

lemma sample_bag [simp]: "pl_inventory (sample_player k) = replicate MAX_INVENTORY zero_item"
  by (simp add: sample_player_def)

lemma trading_reachable: "trade_reachable (run [Msg_request 1 2, Msg_ack 2 3, Msg_additem 2 0 1000])"
proof -
  have "trade_reachable (run [])" using sample_reachable by (simp add: run_def)
  from run_step [OF this, of "Msg_request 1 2"] have "trade_reachable (run [Msg_request 1 2])"
    by (simp add: run_def sample_world_def run_simps message_ok_def sample_player_def)
  from run_step [OF this, of "Msg_ack 2 3"] have "trade_reachable (run [Msg_request 1 2, Msg_ack 2 3])"
    by (simp add: run_one message_ok_def)
  from run_step [OF this, of "Msg_additem 2 0 1000"] show ?thesis by (simp add: run_two message_ok_def)
qed

lemma run_locked: "run [Msg_request 1 2, Msg_ack 2 3, Msg_additem 2 0 1000, Msg_ok 1, Msg_ok 2, Msg_commit 2] =
    [(1, (sample_player 1)\<lparr>pl_trading := True, pl_partner_id := 2, pl_partner_lv := 1, pl_deal_locked := 1\<rparr>),
     (2, (sample_player 2)\<lparr>pl_trading := True, pl_partner_id := 1, pl_partner_lv := 1, pl_deal_zeny := 1000, pl_deal_locked := 2\<rparr>),
     (3, sample_player 3), (4, sample_player 4)]"
  by (simp add: sample_defs trade_defs run_simps)

lemma locked_reachable:
  "trade_reachable (run [Msg_request 1 2, Msg_ack 2 3, Msg_additem 2 0 1000, Msg_ok 1, Msg_ok 2, Msg_commit 2])"
proof -
  from run_step [OF trading_reachable, of "Msg_ok 1"]
  have 1: "trade_reachable (run [Msg_request 1 2, Msg_ack 2 3, Msg_additem 2 0 1000, Msg_ok 1])"
    by (simp add: run_simps message_ok_def)
  have 2: "run [Msg_request 1 2, Msg_ack 2 3, Msg_additem 2 0 1000, Msg_ok 1] =
    [(1, (sample_player 1)\<lparr>pl_trading := True, pl_partner_id := 2, pl_partner_lv := 1, pl_deal_locked := 1\<rparr>),
     (2, (sample_player 2)\<lparr>pl_trading := True, pl_partner_id := 1, pl_partner_lv := 1, pl_deal_zeny := 1000\<rparr>),
     (3, sample_player 3), (4, sample_player 4)]"
    by (simp add: sample_defs trade_defs run_simps)
  from run_step [OF 1, of "Msg_ok 2"]
  have 3: "trade_reachable (run [Msg_request 1 2, Msg_ack 2 3, Msg_additem 2 0 1000, Msg_ok 1, Msg_ok 2])"
    by (simp add: 2 message_ok_def)
  have 4: "run [Msg_request 1 2, Msg_ack 2 3, Msg_additem 2 0 1000, Msg_ok 1, Msg_ok 2] =
    [(1, (sample_player 1)\<lparr>pl_trading := True, pl_partner_id := 2, pl_partner_lv := 1, pl_deal_locked := 1\<rparr>),
     (2, (sample_player 2)\<lparr>pl_trading := True, pl_partner_id := 1, pl_partner_lv := 1, pl_deal_zeny := 1000, pl_deal_locked := 1\<rparr>),
     (3, sample_player 3), (4, sample_player 4)]"
    by (simp add: sample_defs trade_defs run_simps)
  from run_step [OF 3, of "Msg_commit 2"] show ?thesis by (simp add: 4 message_ok_def)
qed


section \<open>Partners\<close>

text \<open>C5: whatever players do, as long as nobody who trades asks for another trade, a player who has a
  trade partner is that player's partner too, and the two are in the same phase: both only asked, or both
  trading with each other. Nobody trades without a partner or with oneself.\<close>

theorem trade_partners_mutual:
  assumes "trade_reachable w" "um_find w a = Some sd"
  shows "(pl_trading sd \<longrightarrow> pl_partner_id sd \<noteq> 0) \<and> pl_partner_id sd \<noteq> a \<and>
    (pl_partner_id sd \<noteq> 0 \<longrightarrow> (\<exists>tsd. um_find w (pl_partner_id sd) = Some tsd \<and> pl_partner_id tsd = a \<and>
       pl_trading tsd = pl_trading sd))"
proof -
  note D = mutualD [OF reachable_mutual [OF assms(1)] assms(2)]
  have "pl_partner_id sd \<noteq> a" using D by (cases "pl_partner_id sd = 0") (auto simp: trader_ok_def paired_def)
  with D show ?thesis by (auto simp: trader_ok_def paired_def)
qed

theorem trade_partners_mutual_witness:
  "\<exists>tsd. um_find (run [Msg_request 1 2, Msg_ack 2 3, Msg_additem 2 0 1000]) 2 = Some tsd \<and> pl_partner_id tsd = 1 \<and>
     pl_trading tsd"
  using trade_partners_mutual [OF trading_reachable, of 1
      "(sample_player 1)\<lparr>pl_trading := True, pl_partner_id := 2, pl_partner_lv := 1\<rparr>"]
  by (simp add: run_simps)

section \<open>Goods\<close>



lemma goods_zeny: "goods_same w w' \<Longrightarrow> zeny_of k w' = zeny_of k w"
proof -
  assume same: "goods_same w w'"
  have "zeny_of k w = map_option (\<lambda>(bag, data, weight, z, vault). z) (map_option goods (um_find w k))" for w
    by (simp add: zeny_of_def option.map_comp o_def goods_def)
  with same show ?thesis by (simp only: goods_same_def)
qed

lemma goods_ok: "goods_same w (trade_tradeok a w)"
  by (simp add: trade_tradeok_def goods_cancel goods_keep split: option.split)

lemma goods_ack: "goods_same w (trade_tradeack E a type w)"
  by (simp add: trade_tradeack_def Let_def goods_keep split: option.split)

lemma goods_request: "goods_same w (trade_traderequest E a b w)"
  by (simp add: trade_traderequest_def Let_def goods_keep partner_with_def [symmetric] split: option.split)

lemma goods_parse_request: "goods_same w (clif_parse_TradeRequest E a b w)"
  by (simp add: clif_parse_TradeRequest_def goods_request split: option.split)

lemma goods_addzeny: "goods_same w (trade_tradeaddzeny a amount w)"
  by (auto simp: trade_tradeaddzeny_def goods_cancel goods_def intro!: goods_upd split: option.split)

lemma goods_place: "goods (place_offer index amount unit t c sd) = goods sd"
  by (simp add: place_offer_def goods_def Let_def case_prod_beta)

lemma goods_additem: "goods_same w (trade_tradeadditem E a index amount w)"
  by (auto simp: trade_tradeadditem_def Let_def goods_cancel goods_place intro!: goods_upd split: option.split)

text \<open>C4: no message of the trade moves goods, except a confirmation by a player who pressed OK and whose
  partner confirmed before: then the zeny changes hands exactly as both offered, of every item the two
  together have as much as before, everybody else keeps everything, the bank accounts too, and the two are
  free for the next trade.\<close>

theorem trade_moves_goods_fairly:
  assumes "trade_reachable w" "equip_neutral E" "all_fresh E w" "message_ok E m w"
  shows "goods_same w (trade_handle E m w) \<or>
    (\<exists>a. m = Msg_commit a \<and> exchanged a w (trade_handle E m w))"
proof (cases m)
  case (Msg_commit a)
  with commit_spec [OF reachable_mutual [OF assms(1)] assms(2,3)] show ?thesis by simp
qed (simp_all add: goods_request goods_parse_request goods_ack goods_additem goods_addzeny goods_ok goods_cancel
    clif_parse_TradeAddItem_def)

lemma locked_fresh:
  "all_fresh sample_env (run [Msg_request 1 2, Msg_ack 2 3, Msg_additem 2 0 1000, Msg_ok 1, Msg_ok 2, Msg_commit 2])"
  by (rule sample_fresh) (simp add: run_locked)

theorem trade_moves_goods_fairly_witness:
  "exchanged 1 (run [Msg_request 1 2, Msg_ack 2 3, Msg_additem 2 0 1000, Msg_ok 1, Msg_ok 2, Msg_commit 2])
     (run [Msg_request 1 2, Msg_ack 2 3, Msg_additem 2 0 1000, Msg_ok 1, Msg_ok 2, Msg_commit 2, Msg_commit 1])"
proof -
  let ?w = "run [Msg_request 1 2, Msg_ack 2 3, Msg_additem 2 0 1000, Msg_ok 1, Msg_ok 2, Msg_commit 2]"
  let ?w' = "trade_handle sample_env (Msg_commit 1) ?w"
  have w': "run [Msg_request 1 2, Msg_ack 2 3, Msg_additem 2 0 1000, Msg_ok 1, Msg_ok 2, Msg_commit 2, Msg_commit 1] = ?w'"
    by (simp add: run_def)
  have "zeny_of 1 ?w' \<noteq> zeny_of 1 ?w"
    unfolding run_locked
    by (simp add: sample_defs trade_defs run_simps nothing_exchanged finish_trading_def
        give_zeny_def pc_payzeny_def pc_getzeny_def cap_value_def)
  then have "\<not> goods_same ?w ?w'" using goods_zeny by blast
  with trade_moves_goods_fairly [OF locked_reachable sample_neutral locked_fresh, of "Msg_commit 1"] w'
  show ?thesis by (simp add: message_ok_def)
qed


section \<open>Cancelling\<close>

definition nothing_offered :: "player \<Rightarrow> bool" where
  "nothing_offered sd \<longleftrightarrow> pl_deal_zeny sd = 0 \<and> list_all (\<lambda>(i, m). m = 0) (pl_deal_item sd)"

lemma no_offer_offers: "nothing_offered (no_offer sd)" "idle (no_offer sd)"
  by (auto simp: nothing_offered_def no_offer_def idle_def list_all_iff split: if_splits)

lemma no_partner_idle: "trader_ok k sd \<Longrightarrow> \<not> pl_trading sd \<Longrightarrow> idle (no_partner sd)"
  by (simp add: trader_ok_def idle_def no_partner_def)

text \<open>Cancelling frees the player and the partner, if there is one, for other trades; a trade in
  progress leaves neither of them with anything on offer. Nobody else changes, and goods stay where they are.\<close>

theorem cancel_gives_back:
  assumes "trade_reachable w" "um_find w a = Some sd"
  defines "w' \<equiv> trade_tradecancel a w"
  shows "(\<exists>sd'. um_find w' a = Some sd' \<and> idle sd' \<and> (pl_trading sd \<longrightarrow> nothing_offered sd')) \<and>
    (pl_partner_id sd \<noteq> 0 \<longrightarrow>
       (\<exists>tsd'. um_find w' (pl_partner_id sd) = Some tsd' \<and> idle tsd' \<and> (pl_trading sd \<longrightarrow> nothing_offered tsd'))) \<and>
    (\<forall>k. k \<noteq> a \<and> k \<noteq> pl_partner_id sd \<longrightarrow> um_find w' k = um_find w k) \<and> goods_same w w'"
proof -
  note inv = reachable_mutual [OF assms(1)]
  have ok: "trader_ok a (sd\<lparr>pl_isBoundTrading := 0\<rparr>)" using mutualD(1) [OF inv assms(2)] trader_ok_ends(4) by blast
  show ?thesis
  proof (cases "pl_partner_id sd = 0")
    case True
    note C = cancel_alone [OF inv assms(2) True]
    from no_partner_idle [OF ok] C True goods_cancel [of w a] show ?thesis by (simp add: w'_def)
  next
    case False
    from cancel_pair [OF inv assms(2) this] obtain tsd where
      t: "um_find w (pl_partner_id sd) = Some tsd" "paired a sd (pl_partner_id sd) tsd" and
      w': "\<And>k. um_find w' k = (if k = a then Some ((if pl_trading sd then no_offer else no_partner) (sd\<lparr>pl_isBoundTrading := 0\<rparr>))
         else if k = pl_partner_id sd then Some ((if pl_trading sd then no_offer else no_partner) tsd) else um_find w k)"
      unfolding w'_def by blast
    have "a \<noteq> pl_partner_id sd" "pl_trading tsd = pl_trading sd" using t(2) by (simp_all add: paired_def)
    with no_partner_idle [OF ok] no_partner_idle [OF mutualD(1) [OF inv t(1)]] goods_cancel [of w a] False
    show ?thesis by (simp add: w' no_offer_offers) (simp add: w'_def)
  qed
qed

theorem cancel_gives_back_witness:
  "\<exists>tsd'. um_find (trade_tradecancel 1 (run [Msg_request 1 2, Msg_ack 2 3, Msg_additem 2 0 1000])) 2 = Some tsd' \<and>
     idle tsd' \<and> nothing_offered tsd'"
  using cancel_gives_back [OF trading_reachable, of 1
      "(sample_player 1)\<lparr>pl_trading := True, pl_partner_id := 2, pl_partner_lv := 1\<rparr>"]
  by (simp add: run_simps)

section \<open>Completing a trade\<close>

lemma check_locked [simp]:
  "fst (impossible_trade_check E (sd\<lparr>pl_deal_locked := n\<rparr>)) = fst (impossible_trade_check E sd)"
  "trade_check E (sd\<lparr>pl_deal_locked := n\<rparr>) (tsd\<lparr>pl_deal_locked := m\<rparr>) = trade_check E sd tsd"
  by (simp_all add: impossible_trade_check_def trade_check_def)

lemma all_fresh_lock:
  "all_fresh E w \<Longrightarrow> all_fresh E (upd a (\<lambda>sd. sd\<lparr>pl_deal_locked := n\<rparr>) w)"
  by (auto simp: all_fresh_def umap_simps fresh_bag_def split: if_splits)

text \<open>The world after both pressed OK and one confirmed.\<close>

lemma three_clicks:
  assumes a: "um_find w a = Some sd" and b: "um_find w b = Some tsd" and p: "paired a sd b tsd"
    and unlocked: "pl_trading sd" "pl_deal_locked sd = 0" "pl_deal_locked tsd = 0"
  shows "trade_tradecommit E b (trade_tradeok b (trade_tradeok a w)) =
    upd b (\<lambda>sd. sd\<lparr>pl_deal_locked := 2\<rparr>) (upd b (\<lambda>sd. sd\<lparr>pl_deal_locked := 1\<rparr>) (upd a (\<lambda>sd. sd\<lparr>pl_deal_locked := 1\<rparr>) w))"
proof -
  have ab: "a \<noteq> b" "pl_partner_id sd = b" "pl_partner_id tsd = a" "pl_trading tsd" using p unlocked by (simp_all add: paired_def)
  have "trade_tradeok a w = upd a (\<lambda>sd. sd\<lparr>pl_deal_locked := 1\<rparr>) w" (is "_ = ?w1")
    using a b unlocked ab by (simp add: trade_tradeok_def)
  moreover have "trade_tradeok b ?w1 = upd b (\<lambda>sd. sd\<lparr>pl_deal_locked := 1\<rparr>) ?w1" (is "_ = ?w2")
    using a b unlocked ab by (simp add: trade_tradeok_def umap_simps)
  moreover have "trade_tradecommit E b ?w2 = upd b (\<lambda>sd. sd\<lparr>pl_deal_locked := 2\<rparr>) ?w2"
    using a b unlocked ab by (simp add: trade_tradecommit_def umap_simps)
  ultimately show ?thesis by simp
qed

text \<open>C21: a trade the checks allow comes to its end: when two players trade, neither has pressed OK yet,
  and what they offer passes the checks, then both pressing OK and both confirming makes the exchange, whatever the
  order of the two players, and both are free again.\<close>

theorem trade_completes:
  assumes "trade_reachable w" "equip_neutral E" "all_fresh E w"
    and "um_find w a = Some sd" "um_find w b = Some tsd" "pl_partner_id sd = b" "pl_trading sd"
    and "pl_deal_locked sd = 0" "pl_deal_locked tsd = 0"
    and "fst (impossible_trade_check E sd) = 0" "fst (impossible_trade_check E tsd) = 0" "trade_check E sd tsd"
  defines "w' \<equiv> fold (trade_handle E) [Msg_ok a, Msg_ok b, Msg_commit b, Msg_commit a] w"
  shows "\<exists>sd' tsd'. um_find w' a = Some sd' \<and> um_find w' b = Some tsd' \<and> idle sd' \<and> idle tsd' \<and>
    pl_zeny sd' = pl_zeny sd - pl_deal_zeny sd + pl_deal_zeny tsd \<and>
    pl_zeny tsd' = pl_zeny tsd - pl_deal_zeny tsd + pl_deal_zeny sd \<and>
    (\<forall>nid. stock nid sd' + stock nid tsd' = stock nid sd + stock nid tsd)"
proof -
  note inv = reachable_mutual [OF assms(1)]
  have "pl_partner_id sd \<noteq> 0" using assms(5,6) mutual_zero [OF inv] by auto
  with mutualD(2) [OF inv assms(4)] assms(5,6) have p: "paired a sd b tsd" by auto
  then have ab: "a \<noteq> b" "pl_trading tsd" using assms(7) by (simp_all add: paired_def)
  define lock where "lock n k = upd k (\<lambda>sd :: player. sd\<lparr>pl_deal_locked := n\<rparr>)" for n k
  define w3 where "w3 = lock 2 b (lock 1 b (lock 1 a w))"
  define w4 where "w4 = lock 2 a w3"
  have clicks: "w' = trade_tradecommit E a w3"
    using three_clicks [OF assms(4,5) p assms(7-9)] by (simp add: w'_def w3_def lock_def)
  have find3: "um_find w3 a = Some (sd\<lparr>pl_deal_locked := 1\<rparr>)" "um_find w3 b = Some (tsd\<lparr>pl_deal_locked := 2\<rparr>)"
    using assms(4,5) ab by (simp_all add: w3_def lock_def umap_simps)
  have "mutual w3"
    unfolding w3_def lock_def
    by (intro mutual_lock [where sd = tsd] mutual_lock [where sd = "tsd\<lparr>pl_deal_locked := 1\<rparr>"] mutual_lock [OF inv assms(4,7)])
      (use assms(4,5) ab in \<open>simp_all add: umap_simps\<close>)
  then have m4: "mutual w4" unfolding w4_def lock_def by (rule mutual_lock [OF _ find3(1)]) (simp add: assms(7))
  have f4: "all_fresh E w4" unfolding w4_def w3_def lock_def by (intro all_fresh_lock assms(3))
  have find4: "um_find w4 a = Some (sd\<lparr>pl_deal_locked := 2\<rparr>)" "um_find w4 b = Some (tsd\<lparr>pl_deal_locked := 2\<rparr>)"
    using find3 ab by (simp_all add: w4_def lock_def umap_simps)
  have r4: "ready E (sd\<lparr>pl_deal_locked := 2\<rparr>)" "ready E (tsd\<lparr>pl_deal_locked := 2\<rparr>)"
    using mutualD(1) [OF m4] find4 f4 unfolding all_fresh_def by (blast intro: ready_trader)+
  have "w' = settle E a b w4"
    using find3 assms(6,7) ab find4(2) by (simp add: clicks trade_tradecommit_def settle_def w4_def lock_def Let_def)
  also have "\<dots> = exchange E a b w4"
    using find4 check_covers(3) [OF r4(1)] check_covers(3) [OF r4(2)] assms(10-12)
    by (simp add: settle_def case_prod_beta Let_def upd_same)
  finally have w': "w' = exchange E a b w4" .
  have "paired a (sd\<lparr>pl_deal_locked := 2\<rparr>) b (tsd\<lparr>pl_deal_locked := 2\<rparr>)" using p by (simp add: paired_def)
  from exchange_mutual [OF m4 find4 this assms(2) f4] assms(7,10-12) have "exchanged a w4 w'" by (simp add: w')
  then obtain b' sd' tsd' where x: "um_find w4 b' = Some tsd'" "paired a (sd\<lparr>pl_deal_locked := 2\<rparr>) b' tsd'" and
    r: "\<exists>sd2 tsd2. um_find w' a = Some sd2 \<and> um_find w' b' = Some tsd2 \<and> idle sd2 \<and> idle tsd2 \<and>
      pl_zeny sd2 = pl_zeny sd - pl_deal_zeny sd + pl_deal_zeny tsd' \<and>
      pl_zeny tsd2 = pl_zeny tsd' - pl_deal_zeny tsd' + pl_deal_zeny sd \<and>
      (\<forall>nid. stock nid sd2 + stock nid tsd2 = stock nid (sd\<lparr>pl_deal_locked := 2\<rparr>) + stock nid tsd')"
    unfolding exchanged_def find4(1) by auto
  have "b' = b" "tsd' = tsd\<lparr>pl_deal_locked := 2\<rparr>" using x find4(2) assms(6) by (auto simp: paired_def)
  with r show ?thesis by (simp add: stock_def)
qed

theorem trade_completes_witness:
  "\<exists>sd' tsd'. um_find (fold (trade_handle sample_env) [Msg_ok 1, Msg_ok 2, Msg_commit 2, Msg_commit 1]
      (run [Msg_request 1 2, Msg_ack 2 3, Msg_additem 2 0 1000])) 1 = Some sd' \<and> pl_zeny sd' = 6000 \<and> idle sd'"
proof -
  have f: "all_fresh sample_env (run [Msg_request 1 2, Msg_ack 2 3, Msg_additem 2 0 1000])"
    by (rule sample_fresh) (simp add: run_simps)
  let ?sd = "(sample_player 1)\<lparr>pl_trading := True, pl_partner_id := 2, pl_partner_lv := 1\<rparr>"
  let ?tsd = "(sample_player 2)\<lparr>pl_trading := True, pl_partner_id := 1, pl_partner_lv := 1, pl_deal_zeny := 1000\<rparr>"
  have "fst (impossible_trade_check sample_env ?sd) = 0" "fst (impossible_trade_check sample_env ?tsd) = 0"
    "trade_check sample_env ?sd ?tsd" "pl_deal_locked ?sd = 0" "pl_deal_locked ?tsd = 0" "pl_zeny ?sd = 5000" "pl_deal_zeny ?sd = 0"
    by (simp_all add: impossible_trade_check_def trade_check_def sample_defs run_simps)
  with trade_completes [OF trading_reachable sample_neutral f, of 1 ?sd 2 ?tsd] show ?thesis
    by (auto simp: run_simps)
qed

section \<open>An offer taken by somebody else\<close>

text \<open>
  The messages up to the confirmation by player 3: players 1 and 2 trade, 1 asks player 3 from the chat
  room, 3 fails to answer, asks player 4 instead, trades with 4, offers 4 1000 zeny and confirms.
\<close>

definition detour :: "trade_message list" where
  "detour = [Msg_request 1 2, Msg_ack 2 3, Msg_request 1 3, Msg_ack 3 3, Msg_request 3 4, Msg_ack 4 3,
     Msg_additem 3 0 1000, Msg_ok 3, Msg_commit 3]"

lemma run_detour: "run detour =
    [(1, (sample_player 1)\<lparr>pl_trading := True, pl_partner_id := 3, pl_partner_lv := 1\<rparr>),
     (2, (sample_player 2)\<lparr>pl_trading := True\<rparr>),
     (3, (sample_player 3)\<lparr>pl_trading := True, pl_partner_id := 4, pl_partner_lv := 1, pl_deal_zeny := 1000, pl_deal_locked := 2\<rparr>),
     (4, (sample_player 4)\<lparr>pl_trading := True, pl_partner_id := 3, pl_partner_lv := 1\<rparr>)]"
  by (simp add: sample_defs trade_defs run_simps detour_def)

lemma run_stolen: "run (detour @ [Msg_ok 1, Msg_commit 1]) =
    [(1, (sample_player 1)\<lparr>pl_zeny := 6000\<rparr>), (2, (sample_player 2)\<lparr>pl_trading := True\<rparr>),
     (3, (sample_player 3)\<lparr>pl_zeny := 4000\<rparr>),
     (4, (sample_player 4)\<lparr>pl_trading := True, pl_partner_id := 3, pl_partner_lv := 1\<rparr>)]"
proof -
  have "run (detour @ [Msg_ok 1, Msg_commit 1]) = trade_handle sample_env (Msg_commit 1) (trade_handle sample_env (Msg_ok 1) (run detour))"
    by (simp add: run_def)
  then show ?thesis
    unfolding run_detour
    by (simp add: sample_defs trade_defs run_simps nothing_exchanged finish_trading_def
        give_zeny_def pc_payzeny_def pc_getzeny_def cap_value_def)
qed

text \<open>C22: a player who sits in a chat room while trading can still ask another player for a trade, and so
  end up with a partner who trades with somebody else. When player 3 has offered 1000 zeny to player 4 and
  confirmed, but 4 has not, player 1 presses OK, confirms, and gets the 1000 zeny. Player 4 gets nothing,
  and 2 and 4 are left trading without a partner who trades with them.\<close>

theorem stolen_offer:
  "let w = run detour; w' = run (detour @ [Msg_ok 1, Msg_commit 1])
   in map_option pl_partner_id (um_find w 3) = Some 4 \<and> map_option pl_partner_id (um_find w 4) = Some 3 \<and>
      map_option pl_deal_locked (um_find w 4) = Some 0 \<and>
      (zeny_of 1 w, zeny_of 3 w, zeny_of 4 w) = (Some 5000, Some 5000, Some 5000) \<and>
      (zeny_of 1 w', zeny_of 3 w', zeny_of 4 w') = (Some 6000, Some 4000, Some 5000) \<and>
      map_option pl_trading (um_find w' 4) = Some True \<and> map_option pl_trading (um_find w' 3) = Some False \<and>
      \<not> mutual w \<and> \<not> mutual w'"
proof -
  have "\<not> mutual (run detour)"
  proof
    assume "mutual (run detour)"
    from mutualD(2) [OF this, of 1] show False by (simp add: run_detour run_simps paired_def)
  qed
  moreover have "\<not> mutual (run (detour @ [Msg_ok 1, Msg_commit 1]))"
  proof
    assume "mutual (run (detour @ [Msg_ok 1, Msg_commit 1]))"
    from mutualD(2) [OF this, of 4] show False by (simp add: run_stolen run_simps paired_def sample_player_def)
  qed
  moreover have "pl_zeny (sample_player k) = 5000" "pl_deal_locked (sample_player k) = 0"
    "\<not> pl_trading (sample_player k)" for k by (simp_all add: sample_player_def)
  ultimately show ?thesis by (simp add: run_detour run_stolen run_simps zeny_of_def)
qed

end
