(* ===== verification/Custody.thy ===== *)
theory Custody
  imports Hoard TradeFairness
begin

text \<open>
  What a player may rely on when moving items between inventory, cart and storage, and the one stack that
  turns kept items into rented ones.
\<close>

section \<open>An example player with cart and storages\<close>

definition sample_box_env :: box_env where
  "sample_box_env = trade_env.extend sample_env (box_env.fields (\<lambda>_. False) (\<lambda>_. True))"

definition sample_storage :: s_storage where
  "sample_storage = \<lparr>st_items = replicate MAX_STORAGE zero_item, st_amount = 0, st_max_amount = 300, st_dirty = False,
     st_status = True, st_lock = False, st_get = True, st_put = True\<rparr>"

text \<open>Two potions that are rented until time 1000, and five that are not.\<close>

definition rented_potion :: item where
  "rented_potion = zero_item\<lparr>it_nameid := 501, it_amount := 2, it_expire_time := 1000\<rparr>"

definition plain_potion :: item where
  "plain_potion = zero_item\<lparr>it_nameid := 501, it_amount := 5\<rparr>"

definition sample_holder :: holder where
  "sample_holder = \<lparr>h_sd = (sample_player 1)\<lparr>
       pl_inventory := rented_potion # plain_potion # replicate (MAX_INVENTORY - 2) zero_item,
       pl_inventory_data := Some sample_item # Some sample_item # replicate (MAX_INVENTORY - 2) None\<rparr>,
     h_cart = replicate MAX_CART zero_item, h_cart_num = 0, h_cart_weight = 0, h_cart_weight_max = 8000,
     h_prevend = False, h_storage = sample_storage, h_premium = sample_storage, h_guild = Some sample_storage\<rparr>"

lemma blank_box: "box_ok E n (replicate n zero_item)" "occupied (replicate n zero_item) = 0"
  using zero_item_ok(1) zero_item_ok(2) [where E = E] by (simp_all add: box_ok_def list_all_iff occupied_def)

lemma sample_box_neutral: "equip_neutral sample_box_env"
  by (simp add: equip_neutral_def sample_box_env_def sample_env_def trade_env.defs box_env.defs worn_only_refl)

lemma sample_time: "ev_time sample_box_env = 1"
  by (simp add: sample_box_env_def sample_env_def trade_env.defs box_env.defs)

lemma potions_ok: "item_ok rented_potion" "item_ok plain_potion" "fresh_item sample_box_env rented_potion"
  "fresh_item sample_box_env plain_potion"
  by (simp_all add: item_ok_def fresh_item_def rented_potion_def plain_potion_def zero_item_def MAX_AMOUNT_def sample_time)

lemma two_slots: "i < MAX_INVENTORY \<Longrightarrow>
  (x # y # replicate (MAX_INVENTORY - 2) z) ! i = (if i = 0 then x else if i = 1 then y else z)"
  by (auto simp: nth_Cons less_Suc_eq_0_disj split: nat.split)

lemma sample_holder_ok: "holder_ok sample_box_env sample_holder"
proof -
  have len: "Suc (Suc (MAX_INVENTORY - 2)) = MAX_INVENTORY" by (simp add: MAX_INVENTORY_def)
  have "inventory_ok (h_sd sample_holder)" "fresh_bag sample_box_env (h_sd sample_holder)"
    using potions_ok zero_item_ok(1) zero_item_ok(2) [where E = sample_box_env]
    by (simp_all add: inventory_ok_def fresh_bag_def sample_holder_def two_slots len)
  moreover have "cart_ok sample_box_env sample_holder" by (simp add: cart_ok_def sample_holder_def blank_box)
  moreover have "store_ok sample_box_env sample_storage" by (simp add: store_ok_def sample_storage_def blank_box MAX_STORAGE_def)
  ultimately show ?thesis by (simp add: holder_ok_def sample_holder_def)
qed

section \<open>Properties\<close>

text \<open>C26: whatever messages about cart and storage a client sends, of every item the player has as much as
  before in inventory, cart, storage, premium storage and guild storage together; zeny is not touched; the
  inventory stays well formed; and the counters of the cart and of the storages are the numbers of their
  occupied slots.\<close>

theorem containers_conserve:
  fixes ms :: "box_message list"
  assumes "holder_ok E h" "equip_neutral E"
  defines "h' \<equiv> fold (box_handle E) ms h"
  shows "(\<forall>nid. total nid h' = total nid h) \<and> inventory_ok (h_sd h') \<and>
    pl_zeny (h_sd h') = pl_zeny (h_sd h) \<and> pl_bank_vault (h_sd h') = pl_bank_vault (h_sd h) \<and>
    h_cart_num h' = int (occupied (h_cart h')) \<and>
    (\<forall>s \<in> {h_storage h', h_premium h'} \<union> set_option (h_guild h'). st_amount s = word_of_int (int (occupied (st_items s))))"
  using steps_handle [OF assms(2,1), of ms] by (auto simp: h'_def step_ok_def holder_ok_def cart_ok_def store_ok_def)

theorem containers_conserve_witness:
  "total 501 (fold (box_handle sample_box_env) [Box_put_cart 2 2, Box_put_cart 3 5, Box_get_cart 2 7] sample_holder)
     = total 501 sample_holder"
  using containers_conserve [OF sample_holder_ok sample_box_neutral] by blast

text \<open>The lock on a guild storage stops items from moving between it and the inventory, but not
  between it and the cart: those two moves do the same with the lock as without.\<close>

theorem guild_lock_spares_cart:
  defines "locked \<equiv> \<lambda>stor. stor\<lparr>st_lock := True\<rparr>"
  shows "storage_guild_storageadd E index amount (h, locked stor) \<in> {(h, locked stor), storage_guild_storageclose (h, locked stor)} \<and>
    storage_guild_storageget E index amount favorite (h, locked stor) \<in> {(h, locked stor), storage_guild_storageclose (h, locked stor)} \<and>
    storage_guild_storageaddfromcart E index amount (h, locked stor) = apsnd locked (storage_guild_storageaddfromcart E index amount (h, stor)) \<and>
    storage_guild_storagegettocart E index amount (h, locked stor) = apsnd locked (storage_guild_storagegettocart E index amount (h, stor))"
proof -
  have add: "storage_guild_additem E sd it n (locked stor) = apsnd locked (storage_guild_additem E sd it n stor)" for sd it n
    by (simp add: storage_guild_additem_def locked_def Let_def)
  have del: "storage_guild_delitem i n (locked stor) = apsnd locked (storage_guild_delitem i n stor)" for i n
    by (simp add: storage_guild_delitem_def locked_def Let_def)
  have same: "st_status (locked stor) = st_status stor" "st_amount (locked stor) = st_amount stor"
      "st_max_amount (locked stor) = st_max_amount stor" "st_items (locked stor) = st_items stor" "st_lock (locked stor)"
    by (simp_all add: locked_def)
  have 1: "storage_guild_storageadd E index amount (h, locked stor) \<in> {(h, locked stor), storage_guild_storageclose (h, locked stor)}"
    and 2: "storage_guild_storageget E index amount favorite (h, locked stor) \<in> {(h, locked stor), storage_guild_storageclose (h, locked stor)}"
    by (simp_all add: storage_guild_storageadd_def storage_guild_storageget_def Let_def same(5))
  have 3: "storage_guild_storageaddfromcart E index amount (h, locked stor) = apsnd locked (storage_guild_storageaddfromcart E index amount (h, stor))"
    and 4: "storage_guild_storagegettocart E index amount (h, locked stor) = apsnd locked (storage_guild_storagegettocart E index amount (h, stor))"
    by (simp_all add: storage_guild_storageaddfromcart_def storage_guild_storagegettocart_def Let_def same add del
        split: prod.split)
  from 1 2 3 4 show ?thesis by blast
qed

text \<open>An item that is not rented joins the first stack in the cart with its id, binding, unique id
  and cards even if that stack is rented: the amount is added there, and the stack keeps the time at which it
  expires, with everything in it.\<close>

theorem cart_joins_rented:
  assumes "cart_ok E h" "pc_cart_additem E item amount h = (ADDITEM_SUCCESS, h')"
    and "itemdb_isstackable2 (itemdb_search E (it_nameid item))" "it_expire_time item = 0"
    and "i = arr_find (same_cart_stack item) (h_cart h)" "i < MAX_CART"
  shows "it_amount (h_cart h' ! i) = it_amount (h_cart h ! i) + amount \<and>
    it_expire_time (h_cart h' ! i) = it_expire_time (h_cart h ! i)"
proof -
  have box: "box_ok E MAX_CART (h_cart h)" "length (h_cart h) = MAX_CART" using assms(1) by (simp_all add: cart_ok_def box_ok_def)
  have h': "h_cart h' ! i = (h_cart h ! i)\<lparr>it_amount := to_int16 (it_amount (h_cart h ! i) + amount),
      it_favorite := False, it_equipSwitch := 0\<rparr>" and range: "0 < amount" "amount \<le> MAX_AMOUNT - it_amount (h_cart h ! i)"
    using assms(2-4,6) box(2) unfolding pc_cart_additem_def assms(5) [symmetric] Let_def
    by (auto simp: set_box_def split: if_splits)
  have "to_int16 (it_amount (h_cart h ! i) + amount) = it_amount (h_cart h ! i) + amount"
    using range box_okD(2) [OF box(1) assms(6)] by (intro to_int16_id) (simp_all add: item_ok_def MAX_AMOUNT_def)
  with h' show ?thesis by simp
qed

definition rented_holder :: holder where
  "rented_holder = sample_holder\<lparr>h_cart := rented_potion # replicate (MAX_CART - 1) zero_item, h_cart_num := 1\<rparr>"

lemma rented_cart_ok: "cart_ok sample_box_env rented_holder"
  using potions_ok zero_item_ok(1) zero_item_ok(2) [where E = sample_box_env]
  by (simp add: cart_ok_def box_ok_def list_all_iff occupied_def rented_holder_def MAX_CART_def zero_item_ok(3) rented_potion_def)

theorem cart_joins_rented_witness:
  "case h_cart (snd (pc_cart_additem sample_box_env plain_potion 5 rented_holder)) ! 0 of it \<Rightarrow>
     it_amount it = 7 \<and> it_expire_time it = 1000"
proof -
  have stack: "itemdb_isstackable2 (itemdb_search sample_box_env (it_nameid plain_potion))"
    by (simp add: sample_box_env_def sample_env_def trade_env.defs box_env.defs itemdb_search_def sample_item_def itemdb_isstackable2_def)
  have i: "0 = arr_find (same_cart_stack plain_potion) (h_cart rented_holder)" "0 < MAX_CART"
    by (simp_all add: rented_holder_def same_cart_stack_def plain_potion_def rented_potion_def MAX_CART_def)
  have "fst (pc_cart_additem sample_box_env plain_potion 5 rented_holder) = ADDITEM_SUCCESS"
    unfolding pc_cart_additem_def i(1) [symmetric] Let_def
    by (simp add: plain_potion_def rented_holder_def sample_holder_def rented_potion_def zero_item_def itemdb_ishatched_egg_def
        CARD0_PET_def itemdb_isrestricted_def itemdb_cancartstore_sub_def BOUND_ACCOUNT_def itemdb_search_def sample_box_env_def
        sample_env_def trade_env.defs box_env.defs sample_item_def itemdb_isstackable2_def i(2) MAX_AMOUNT_def)
  then have "pc_cart_additem sample_box_env plain_potion 5 rented_holder =
      (ADDITEM_SUCCESS, snd (pc_cart_additem sample_box_env plain_potion 5 rented_holder))" by (metis prod.collapse)
  from cart_joins_rented [OF rented_cart_ok this stack _ i] show ?thesis
    by (simp add: plain_potion_def rented_holder_def rented_potion_def zero_item_def)
qed

end
