(* ===== verification/Bazaar.thy ===== *)
theory Bazaar
  imports Stalls Custody
begin

text \<open>
  What players may rely on when they buy from each other's shops, and where they may not: the purchase is exact
  on the seller's side and in zeny, and the one item the buyer pays for may be lost.
\<close>

section \<open>A purchase\<close>

text \<open>A tax never adds to an amount and never takes more than all of it.\<close>

definition tax_ok :: "vend_env \<Rightarrow> bool" where
  "tax_ok E \<longleftrightarrow> (\<forall>z. 0 \<le> z \<longrightarrow> 0 \<le> ve_after_tax E z \<and> ve_after_tax E z \<le> z)"

definition keeper_ok :: "vend_env \<Rightarrow> merchant \<Rightarrow> bool" where
  "keeper_ok E m \<longleftrightarrow> carrier_ok E (mc_h m) \<and> 0 \<le> pl_zeny (mc_sd m) \<and> pl_zeny (mc_sd m) \<le> MAX_ZENY \<and>
     mc_vend_num m \<le> length (mc_vending m)"

lemma put_player_players [simp]: "mk_players (put_player a m W) = (mk_players W)(a := Some m)"
  by (simp add: put_player_def)

lemma set_sd_simps [simp]:
  "mc_sd (set_sd f m) = f (mc_sd m)" "mc_cart (set_sd f m) = mc_cart m" "mc_vending (set_sd f m) = mc_vending m"
  "mc_vend_num (set_sd f m) = mc_vend_num m" "h_cart_num (mc_h (set_sd f m)) = h_cart_num (mc_h m)"
  by (simp_all add: set_sd_def)

lemma purchase_cases:
  fixes data :: "(uint16 \<times> uint16) list"
  assumes "mk_players W a = Some m" "mk_players W aid = Some vm"
  defines "W1 \<equiv> put_player a (searchstore_clearremote m) W" and "orders \<equiv> map read_order data"
  obtains (refused) "vending_purchasereq E a aid uid data W \<in> {W, W1}"
  | (sold) js z sd vm' where "a \<noteq> aid" "orders \<noteq> []"
      "vending_check E (mc_sd m) vm (pc_inventoryblank (mc_sd m)) orders (mc_vending vm) 0 0 0 = Some (js, z)"
      "fold (vending_deliver E) (zip orders js)
         (snd (pc_payzeny z (mc_sd m)), set_sd (\<lambda>sd. snd (pc_getzeny (ve_after_tax E z) sd)) vm) = (sd, vm')"
      "vending_purchasereq E a aid uid data W = close_sold_out aid (put_player aid (vending_compact vm')
         (put_player a (set_sd (\<lambda>_. sd) (searchstore_clearremote m)) W1))"
proof (cases "vending_purchasereq E a aid uid data W \<in> {W, W1}")
  case False
  let ?check = "vending_check E (mc_sd m) vm (pc_inventoryblank (mc_sd m)) orders (mc_vending vm) 0 0 0"
  have sd: "mc_sd (searchstore_clearremote m) = mc_sd m" by (simp add: searchstore_clearremote_def)
  from False assms(1,2) have ok: "a \<noteq> aid" "data \<noteq> []" "?check \<noteq> None"
    by (auto simp: vending_purchasereq_def W1_def orders_def sd Let_def split: if_splits option.splits)
  then obtain js z where check: "?check = Some (js, z)" by auto
  obtain sd' vm' where fold: "fold (vending_deliver E) (zip orders js)
      (snd (pc_payzeny z (mc_sd m)), set_sd (\<lambda>sd. snd (pc_getzeny (ve_after_tax E z) sd)) vm) = (sd', vm')" by fastforce
  have "vending_purchasereq E a aid uid data W = close_sold_out aid (put_player aid (vending_compact vm')
         (put_player a (set_sd (\<lambda>_. sd') (searchstore_clearremote m)) W1))"
    using False assms(1,2) check fold
    by (auto simp: vending_purchasereq_def W1_def orders_def sd Let_def split: if_splits)
  with sold ok check fold show ?thesis by (simp add: orders_def)
qed (use refused in blast)

text \<open>Closing a shop that is sold out touches no goods.\<close>

lemma close_sold_out_players:
  assumes "mk_players W b = Some vm"
  shows "mk_players (close_sold_out b W) \<in>
    {(mk_players W)(b := Some vm), (mk_players W)(b := Some ((set_sd (\<lambda>sd. sd\<lparr>pl_vending := False\<rparr>) vm)\<lparr>mc_vender_id := 0\<rparr>))}"
proof -
  have "mk_players W = (mk_players W)(b := Some vm)" using assms by auto
  with assms show ?thesis by (simp add: close_sold_out_def vending_closevending_def)
qed

lemma vending_flag_frame:
  "carrier_ok E (h\<lparr>h_sd := (h_sd h)\<lparr>pl_vending := b\<rparr>\<rparr>) = carrier_ok E h" "stock nid (sd\<lparr>pl_vending := b\<rparr>) = stock nid sd"
  by (simp_all add: carrier_ok_def cart_ok_def inventory_ok_def fresh_bag_def stock_def)

lemma zeny_frame:
  "inventory_ok (sd\<lparr>pl_zeny := z\<rparr>) = inventory_ok sd" "fresh_bag E (sd\<lparr>pl_zeny := z\<rparr>) = fresh_bag E sd"
  "stock nid (sd\<lparr>pl_zeny := z\<rparr>) = stock nid sd" "pc_inventoryblank (sd\<lparr>pl_zeny := z\<rparr>) = pc_inventoryblank sd"
  "pc_checkadditem E nid n (sd\<lparr>pl_zeny := z\<rparr>) = pc_checkadditem E nid n sd"
  by (simp_all add: inventory_ok_def fresh_bag_def stock_def pc_checkadditem_def pc_inventoryblank_def Let_def)

lemma purse_exact:
  "0 \<le> z \<Longrightarrow> z \<le> pl_zeny sd \<Longrightarrow> pl_zeny sd \<le> MAX_ZENY \<Longrightarrow> snd (pc_payzeny z sd) = sd\<lparr>pl_zeny := pl_zeny sd - z\<rparr>"
  "0 \<le> z \<Longrightarrow> z + pl_zeny sd \<le> MAX_ZENY \<Longrightarrow> 0 \<le> pl_zeny sd \<Longrightarrow> snd (pc_getzeny z sd) = sd\<lparr>pl_zeny := pl_zeny sd + z\<rparr>"
  by (simp_all add: pc_payzeny_def pc_getzeny_def cap_value_def)


text \<open>A sale: both players stay well formed; the orders fit the seller's cart, which loses exactly them; the buyer
  pays exactly their price, the seller gets it less the tax; the buyer gets of every item at most what was ordered.\<close>

definition fair_sale :: "vend_env \<Rightarrow> merchant \<Rightarrow> merchant \<Rightarrow> (int \<times> int) list \<Rightarrow> merchant \<Rightarrow> merchant \<Rightarrow> bool" where
  "fair_sale E m vm orders m' vm' \<longleftrightarrow> keeper_ok E m' \<and> keeper_ok E vm' \<and>
     list_all (sound_order vm) orders \<and> (\<forall>i. ordered_at orders i \<le> max 0 (it_amount (mc_cart vm ! nat i))) \<and>
     pl_zeny (mc_sd m') = pl_zeny (mc_sd m) - price vm orders \<and>
     pl_zeny (mc_sd vm') = pl_zeny (mc_sd vm) + ve_after_tax E (price vm orders) \<and>
     mc_cart m' = mc_cart m \<and> (\<forall>nid. stock nid (mc_sd vm') = stock nid (mc_sd vm)) \<and>
     (\<forall>nid. holding nid (mc_cart vm') = holding nid (mc_cart vm) - ordered nid (mc_cart vm) orders \<and>
        stock nid (mc_sd m) \<le> stock nid (mc_sd m') \<and> stock nid (mc_sd m') \<le> stock nid (mc_sd m) + ordered nid (mc_cart vm) orders)"

lemma fair_sale_closed:
  "fair_sale E m vm orders m' vm' \<Longrightarrow> fair_sale E m vm orders m' ((set_sd (\<lambda>sd. sd\<lparr>pl_vending := False\<rparr>) vm')\<lparr>mc_vender_id := 0\<rparr>)"
  by (simp add: fair_sale_def keeper_ok_def set_sd_def vending_flag_frame)

text \<open>The deliveries of a sale, from the purses after the payment.\<close>

lemma sale_dealt:
  assumes ok: "keeper_ok E m" "keeper_ok E vm" and E: "equip_neutral E" "tax_ok E" and ne: "orders \<noteq> []"
    and check: "vending_check E (mc_sd m) vm (pc_inventoryblank (mc_sd m)) orders (mc_vending vm) 0 0 0 = Some (js, z)"
    and deliver: "fold (vending_deliver E) (zip orders js)
       (snd (pc_payzeny z (mc_sd m)), set_sd (\<lambda>sd. snd (pc_getzeny (ve_after_tax E z) sd)) vm) = (sd, vm1)"
  defines "sd0 \<equiv> (mc_sd m)\<lparr>pl_zeny := pl_zeny (mc_sd m) - price vm orders\<rparr>"
    and "vm0 \<equiv> set_sd (\<lambda>sd. sd\<lparr>pl_zeny := pl_zeny sd + ve_after_tax E (price vm orders)\<rparr>) vm"
  shows "dealt E orders sd0 vm0 sd vm1" "mc_sd vm1 = mc_sd vm0" "mc_vend_num vm1 = mc_vend_num vm"
    "length (mc_vending vm1) = length (mc_vending vm)" "list_all (sound_order vm) orders"
    "\<And>i. ordered_at orders i \<le> max 0 (it_amount (mc_cart vm ! nat i))"
    "0 \<le> price vm orders" "price vm orders \<le> pl_zeny (mc_sd m)" "price vm orders + pl_zeny (mc_sd vm) \<le> MAX_ZENY"
    "0 \<le> ve_after_tax E (price vm orders)" "ve_after_tax E (price vm orders) \<le> price vm orders"
proof -
  have num: "mc_vend_num vm \<le> length (mc_vending vm)" and zeny: "0 \<le> pl_zeny (mc_sd vm)" "pl_zeny (mc_sd m) \<le> MAX_ZENY"
    and cart: "cart_ok E (mc_h vm)" using ok by (simp_all add: keeper_ok_def carrier_ok_def)
  note C = vending_check_spec [OF num check]
  show z: "0 \<le> price vm orders" "price vm orders \<le> pl_zeny (mc_sd m)" "price vm orders + pl_zeny (mc_sd vm) \<le> MAX_ZENY"
    and sound: "list_all (sound_order vm) orders" using C ne by simp_all
  show t: "0 \<le> ve_after_tax E (price vm orders)" "ve_after_tax E (price vm orders) \<le> price vm orders"
    using E(2) z(1) by (simp_all add: tax_ok_def)
  have "set_sd (\<lambda>sd. snd (pc_getzeny (ve_after_tax E z) sd)) vm = vm0" "snd (pc_payzeny z (mc_sd m)) = sd0"
    using purse_exact(2) [OF t(1) _ zeny(1)] purse_exact(1) [OF z(1,2) zeny(2)] z(3) t(2) C by (simp_all add: vm0_def set_sd_def sd0_def)
  with deliver have deliver0: "fold (vending_deliver E) (zip orders js) (sd0, vm0) = (sd, vm1)" by simp
  have cum: "0 < ordered_at orders i \<Longrightarrow> ordered_at orders i \<le> it_amount (mc_cart vm ! nat i)" for i
    using vending_check_cumulative [OF num _ check refl] cart box_okD(2) [of E MAX_CART "mc_cart vm"] by (simp add: cart_ok_def)
  then show "ordered_at orders i \<le> max 0 (it_amount (mc_cart vm ! nat i))" for i
    by (cases "0 < ordered_at orders i") (simp_all add: le_max_iff_disj)
  have start: "inventory_ok sd0" "fresh_bag E sd0" "cart_ok E (mc_h vm0)" "mc_cart vm0 = mc_cart vm"
    using ok by (simp_all add: zeny_frame cart_ok_def vm0_def sd0_def keeper_ok_def carrier_ok_def)
  show dealt: "dealt E orders sd0 vm0 sd vm1"
    using vending_deliver_all [OF E(1) start(1-3) sound_in_cart [OF sound] _ _ deliver0] cum C start(4) by simp
  then have "vm1 = vm0\<lparr>mc_h := mc_h vm1, mc_vending := mc_vending vm1\<rparr>" by (simp add: dealt_def)
  then have "mc_vend_num vm1 = mc_vend_num vm0" by (metis merchant.select_convs(7) merchant.surjective merchant.update_convs(1,9))
  then show "mc_sd vm1 = mc_sd vm0" "mc_vend_num vm1 = mc_vend_num vm" "length (mc_vending vm1) = length (mc_vending vm)"
    using dealt by (simp_all add: dealt_def cart_only_def vm0_def)
qed

lemma sale_fair:
  assumes ok: "keeper_ok E m" "keeper_ok E vm"
    and sale: "equip_neutral E" "tax_ok E" "orders \<noteq> []"
      "vending_check E (mc_sd m) vm (pc_inventoryblank (mc_sd m)) orders (mc_vending vm) 0 0 0 = Some (js, z)"
      "fold (vending_deliver E) (zip orders js)
       (snd (pc_payzeny z (mc_sd m)), set_sd (\<lambda>sd. snd (pc_getzeny (ve_after_tax E z) sd)) vm) = (sd, vm1)"
  shows "fair_sale E m vm orders (set_sd (\<lambda>_. sd) (searchstore_clearremote m)) (vending_compact vm1)"
proof -
  note S = sale_dealt [OF ok sale]
  note D = S(1) [unfolded dealt_def]
  let ?m = "set_sd (\<lambda>_. sd) (searchstore_clearremote m)"
  have num: "mc_vend_num vm \<le> length (mc_vending vm)" using ok by (simp add: keeper_ok_def)
  note compact = vending_compact_spec [of vm1, unfolded S(3,4), OF num]
  have carts: "carrier_ok E (mc_h vm1)" using D ok(2) S(2) by (simp add: keeper_ok_def carrier_ok_def zeny_frame)
  have zeny: "pl_zeny sd = pl_zeny (mc_sd m) - price vm orders" using bag_only_simps(3) [OF D [THEN conjunct2, THEN conjunct2, THEN conjunct1]] by simp
  have buyer: "keeper_ok E ?m" "pl_zeny (mc_sd ?m) = pl_zeny (mc_sd m) - price vm orders" "mc_cart ?m = mc_cart m"
    using D ok(1) zeny S(7,8) by (simp_all add: keeper_ok_def carrier_ok_def cart_ok_def set_sd_def searchstore_clearremote_def)
  with carts compact num ok(2) S D show ?thesis by (simp add: fair_sale_def keeper_ok_def zeny_frame)
qed



section \<open>The item that is paid for\<close>

text \<open>A purchase of a single order that passes the checks: whether the buyer gets the item is up to
  \<open>pc_additem\<close>, and nothing else depends on it.\<close>

lemma single_sale:
  fixes uid :: uint32
  assumes players: "mk_players W a = Some m" "mk_players W aid = Some vm"
    and ok: "keeper_ok E m" "keeper_ok E vm" and E: "equip_neutral E" "tax_ok E"
    and shop: "pl_vending (mc_sd vm)" "a \<noteq> aid" "word_of_int (mc_vender_id vm) = uid" "pl_m (mc_sd m) = pl_m (mc_sd vm)" "ve_near E a aid"
    and order: "read_order line = (n, i)"
    and check: "vending_check E (mc_sd m) vm (pc_inventoryblank (mc_sd m)) [(n, i)] (mc_vending vm) 0 0 0 = Some (js, z)"
  defines "it \<equiv> mc_cart vm ! nat i"
  defines "r \<equiv> fst (pc_additem E it n False ((mc_sd m)\<lparr>pl_zeny := pl_zeny (mc_sd m) - price vm [(n, i)]\<rparr>))"
  shows "\<exists>m' vm'. mk_players (vending_purchasereq E a aid uid [line] W) = (mk_players W)(a := Some m', aid := Some vm') \<and>
    fair_sale E m vm [(n, i)] m' vm' \<and>
    (\<forall>nid. stock nid (mc_sd m') = stock nid (mc_sd m) + (if r = ADDITEM_SUCCESS \<and> nid = it_nameid it then n else 0))"
proof -
  have num: "mc_vend_num vm \<le> length (mc_vending vm)" using ok by (simp add: keeper_ok_def)
  note C = vending_check_spec [OF num check]
  obtain j where js: "js = [j]" using C by simp
  have n: "0 < n" "nat i < MAX_CART" "0 \<le> i" "vend_entry vm i < mc_vend_num vm" using C by (simp_all add: sound_order_def nat_less_iff)
  obtain sd vm1 where deliver: "vending_deliver E ((n, i), j)
      (snd (pc_payzeny z (mc_sd m)), set_sd (\<lambda>sd. snd (pc_getzeny (ve_after_tax E z) sd)) vm) = (sd, vm1)" by fastforce
  let ?m = "set_sd (\<lambda>_. sd) (searchstore_clearremote m)" and ?vm = "vending_compact vm1"
  let ?W = "put_player aid ?vm (put_player a ?m (put_player a (searchstore_clearremote m) W))"
  have fair: "fair_sale E m vm [(n, i)] ?m ?vm"
    by (rule sale_fair [OF ok E _ check]) (use deliver js in simp_all)
  have sd0: "snd (pc_payzeny z (mc_sd m)) = (mc_sd m)\<lparr>pl_zeny := pl_zeny (mc_sd m) - price vm [(n, i)]\<rparr>"
    using C ok(1) purse_exact(1) [of z "mc_sd m"] by (simp add: keeper_ok_def)
  have cart: "cart_ok E (mc_h (set_sd f vm))" "mc_cart (set_sd f vm) = mc_cart vm" for f
    using ok(2) by (simp_all add: keeper_ok_def carrier_ok_def cart_ok_def set_sd_def)
  have amount: "n \<le> it_amount (mc_cart vm ! nat i)" using fair n(1) by (auto simp: fair_sale_def dest!: spec [of _ i])
  have bag: "inventory_ok (snd (pc_payzeny z (mc_sd m)))" "fresh_bag E (snd (pc_payzeny z (mc_sd m)))"
    using ok(1) by (simp_all add: sd0 zeny_frame keeper_ok_def carrier_ok_def)
  have "handed r (it_nameid it) n (snd (pc_payzeny z (mc_sd m))) sd"
    using vending_deliver_spec(3) [OF bag E(1) cart(1) n(1) _ n(2) deliver] amount by (simp add: cart it_def r_def sd0)
  then have stocks: "\<forall>nid. stock nid (mc_sd ?m) = stock nid (mc_sd m) + (if r = ADDITEM_SUCCESS \<and> nid = it_nameid it then n else 0)"
    by (simp add: handed_def sd0 zeny_frame)
  have clear: "mc_sd (searchstore_clearremote m) = mc_sd m" by (simp add: searchstore_clearremote_def)
  have "vending_purchasereq E a aid uid [line] W = close_sold_out aid ?W"
    using players shop check order js deliver n(4)
    by (simp add: vending_purchasereq_def Let_def clear MAX_VENDING_def)
  then have "mk_players (vending_purchasereq E a aid uid [line] W) \<in> {(mk_players W)(a := Some ?m, aid := Some ?vm),
      (mk_players W)(a := Some ?m, aid := Some ((set_sd (\<lambda>sd. sd\<lparr>pl_vending := False\<rparr>) ?vm)\<lparr>mc_vender_id := 0\<rparr>))}"
    using close_sold_out_players [of ?W aid ?vm] by simp
  with fair fair_sale_closed [OF fair] stocks show ?thesis by blast
qed

text \<open>An order for an item that has no place in the buyer's inventory yet, neither an unstackable item
  with a limit on stacks nor a stackable one with unique ids, is delivered: the buyer pays the price and gets exactly the amount.\<close>

theorem purchase_delivers:
  fixes uid :: uint32
  assumes players: "mk_players W a = Some m" "mk_players W aid = Some vm" and ok: "keeper_ok E m" "keeper_ok E vm"
    and E: "equip_neutral E" "tax_ok E"
    and shop: "pl_vending (mc_sd vm)" "a \<noteq> aid" "word_of_int (mc_vender_id vm) = uid" "pl_m (mc_sd m) = pl_m (mc_sd vm)" "ve_near E a aid"
    and order: "read_order line = (n, i)"
    and check: "vending_check E (mc_sd m) vm (pc_inventoryblank (mc_sd m)) [(n, i)] (mc_vending vm) 0 0 0 = Some (js, z)"
    and new: "pc_checkadditem E (it_nameid (mc_cart vm ! nat i)) n (mc_sd m) = CHKADDITEM_NEW"
    and kind: "\<not> (itemdb_isstackable2 (itemdb_search E (it_nameid (mc_cart vm ! nat i))) \<and> id_guid (itemdb_search E (it_nameid (mc_cart vm ! nat i))))"
      "itemdb_isstackable2 (itemdb_search E (it_nameid (mc_cart vm ! nat i))) \<or> \<not> id_stack_inventory (itemdb_search E (it_nameid (mc_cart vm ! nat i)))"
  shows "\<exists>m' vm'. mk_players (vending_purchasereq E a aid uid [line] W) = (mk_players W)(a := Some m', aid := Some vm') \<and>
    fair_sale E m vm [(n, i)] m' vm' \<and>
    (\<forall>nid. stock nid (mc_sd m') = stock nid (mc_sd m) + ordered nid (mc_cart vm) [(n, i)])"
proof -
  let ?it = "mc_cart vm ! nat i" and ?sd = "(mc_sd m)\<lparr>pl_zeny := pl_zeny (mc_sd m) - price vm [(n, i)]\<rparr>"
  have num: "mc_vend_num vm \<le> length (mc_vending vm)" and box: "box_ok E MAX_CART (mc_cart vm)"
    and len: "length (pl_inventory (mc_sd m)) = MAX_INVENTORY"
    using ok by (simp_all add: keeper_ok_def carrier_ok_def cart_ok_def inventory_ok_def)
  have n: "0 < n" "nat i < MAX_CART" using vending_check_spec [OF num check] by (simp_all add: sound_order_def nat_less_iff)
  have "n \<le> it_amount ?it"
    using vending_check_cumulative [OF num _ check refl, of i] box_okD(2) [OF box] n by simp
  then have name: "it_nameid ?it \<noteq> 0" using box_okD(2) [OF box n(2)] n by (auto simp: item_ok_def)
  have room: "0 < pc_inventoryblank (mc_sd m)"
    "pl_weight (mc_sd m) + id_weight (itemdb_search E (it_nameid ?it)) * word_of_int n \<le> pl_max_weight (mc_sd m)"
    using check new by (auto simp: vending_check.simps(2) Let_def add.commute split: if_splits)

  have "fst (pc_additem E ?it n False ?sd) = ADDITEM_SUCCESS"
    by (rule additem_new) (use new room name n len kind in \<open>simp_all add: zeny_frame\<close>)
  with single_sale [OF players ok E shop order check] show ?thesis by (simp add: eq_commute)
qed

text \<open>C30: the seller's side of a purchase does not wait for the buyer's: when the inventory refuses the item
  after the checks have passed, the buyer has paid, the seller has lost the item, and nobody has it.\<close>

theorem paid_for_nothing:
  fixes uid :: uint32
  assumes "mk_players W a = Some m" "mk_players W aid = Some vm" "keeper_ok E m" "keeper_ok E vm" "equip_neutral E" "tax_ok E"
    and "pl_vending (mc_sd vm)" "a \<noteq> aid" "word_of_int (mc_vender_id vm) = uid" "pl_m (mc_sd m) = pl_m (mc_sd vm)" "ve_near E a aid"
    and "read_order line = (n, i)"
    and "vending_check E (mc_sd m) vm (pc_inventoryblank (mc_sd m)) [(n, i)] (mc_vending vm) 0 0 0 = Some (js, z)"
    and refused: "fst (pc_additem E (mc_cart vm ! nat i) n False ((mc_sd m)\<lparr>pl_zeny := pl_zeny (mc_sd m) - price vm [(n, i)]\<rparr>))
      \<noteq> ADDITEM_SUCCESS"
  shows "\<exists>m' vm'. mk_players (vending_purchasereq E a aid uid [line] W) = (mk_players W)(a := Some m', aid := Some vm') \<and>
    pl_zeny (mc_sd m') = pl_zeny (mc_sd m) - price vm [(n, i)] \<and> (\<forall>nid. stock nid (mc_sd m') = stock nid (mc_sd m)) \<and>
    holding (it_nameid (mc_cart vm ! nat i)) (mc_cart vm') = holding (it_nameid (mc_cart vm ! nat i)) (mc_cart vm) - n \<and>
    (\<forall>nid. stock nid (mc_sd vm') = stock nid (mc_sd vm))"
proof -
  obtain m' vm' where "mk_players (vending_purchasereq E a aid uid [line] W) = (mk_players W)(a := Some m', aid := Some vm')"
    and fair: "fair_sale E m vm [(n, i)] m' vm'" and stocks: "\<forall>nid. stock nid (mc_sd m') = stock nid (mc_sd m)"
    using single_sale [OF assms(1-13)] refused by auto
  then show ?thesis using fair [unfolded fair_sale_def] by (intro exI [of _ m'] exI [of _ vm']) simp
qed


section \<open>An example\<close>

text \<open>A shop that sells five potions for ten zeny each, and a buyer who has one potion bound to the account
  and no empty slot.\<close>

definition sample_vend_env :: vend_env where
  "sample_vend_env = box_env.extend sample_box_env (vend_env.fields (\<lambda>_ _. True) (\<lambda>z. z) (\<lambda>_. 10) 1000000 False)"

definition bound_potion :: item where "bound_potion = zero_item\<lparr>it_nameid := 501, it_amount := 1, it_bound := 1\<rparr>"
definition pebble :: item where "pebble = zero_item\<lparr>it_nameid := 600, it_amount := 1\<rparr>"

definition merchant_of :: "holder \<Rightarrow> merchant" where
  "merchant_of h = \<lparr>mc_h = h, mc_dead_sit = 0, mc_autotrade = 0, mc_workinprogress = 0, mc_vended_id = 0, mc_vender_id = 0,
     mc_vend_num = 0, mc_message = replicate MESSAGE_SIZE NUL,
     mc_vending = replicate MAX_VENDING \<lparr>vd_index = 0, vd_amount = 0, vd_value = 0\<rparr>,
     mc_search_open = False, mc_search_items = 0, mc_remote_id = 0\<rparr>"

definition sample_buyer :: merchant where
  "sample_buyer = merchant_of (sample_holder\<lparr>h_sd := (sample_player 1)\<lparr>
     pl_inventory := bound_potion # replicate (MAX_INVENTORY - 1) pebble,
     pl_inventory_data := replicate MAX_INVENTORY (Some sample_item)\<rparr>\<rparr>)"

definition sample_seller :: merchant where
  "sample_seller = (merchant_of (sample_holder\<lparr>h_sd := (sample_player 2)\<lparr>pl_vending := True\<rparr>,
     h_cart := plain_potion # replicate (MAX_CART - 1) zero_item, h_cart_num := 1\<rparr>))
     \<lparr>mc_vender_id := 7, mc_vend_num := 1,
      mc_vending := \<lparr>vd_index = 0, vd_amount = 5, vd_value = 10\<rparr> # replicate (MAX_VENDING - 1) \<lparr>vd_index = 0, vd_amount = 0, vd_value = 0\<rparr>\<rparr>"

definition sample_market :: market where
  "sample_market = \<lparr>mk_players = [1 \<mapsto> sample_buyer, 2 \<mapsto> sample_seller], mk_nextid = 7, mk_vending_db = [2 \<mapsto> 2], mk_quit = []\<rparr>"

lemma arr_find_replicate [simp]: "arr_find P (replicate n x) = (if P x then 0 else n)"
  by (induction n) auto

lemma one_slot: "i < MAX_INVENTORY \<Longrightarrow> (x # replicate (MAX_INVENTORY - Suc 0) z) ! i = (if i = 0 then x else z)"
  by (auto simp: nth_Cons split: nat.split)

lemma sample_vend_fields:
  "ev_item sample_vend_env = (\<lambda>_. Some sample_item)" "ev_time sample_vend_env = 1" "ve_near sample_vend_env = (\<lambda>_ _. True)"
  "ve_after_tax sample_vend_env = (\<lambda>z. z)" "ve_vending_lv sample_vend_env = (\<lambda>_. 10)" "equip_neutral sample_vend_env" "tax_ok sample_vend_env"
  "itemdb_search sample_vend_env nameid = sample_item"
  by (simp_all add: sample_vend_env_def sample_box_env_def sample_env_def trade_env.defs box_env.defs vend_env.defs equip_neutral_def
      worn_only_refl tax_ok_def itemdb_search_def)

lemma sample_goods: "item_ok bound_potion" "item_ok pebble" "item_ok plain_potion" "fresh_item sample_vend_env bound_potion"
  "fresh_item sample_vend_env pebble" "fresh_item sample_vend_env plain_potion"
  by (simp_all add: item_ok_def fresh_item_def bound_potion_def pebble_def plain_potion_def zero_item_def MAX_AMOUNT_def)

lemma sample_buyer_ok: "keeper_ok sample_vend_env sample_buyer"
proof -
  have len: "Suc (MAX_INVENTORY - 1) = MAX_INVENTORY" by (simp add: MAX_INVENTORY_def)
  have "inventory_ok (mc_sd sample_buyer)" "fresh_bag sample_vend_env (mc_sd sample_buyer)"
    using sample_goods len by (simp_all add: inventory_ok_def fresh_bag_def sample_buyer_def merchant_of_def one_slot)
  moreover have "cart_ok sample_vend_env (mc_h sample_buyer)"
    by (simp add: cart_ok_def sample_buyer_def merchant_of_def sample_holder_def blank_box)
  ultimately show ?thesis
    by (simp add: keeper_ok_def carrier_ok_def sample_buyer_def merchant_of_def sample_player_def MAX_ZENY_def)
qed

lemma sample_seller_ok: "keeper_ok sample_vend_env sample_seller"
proof -
  have "inventory_ok (mc_sd sample_seller)" "fresh_bag sample_vend_env (mc_sd sample_seller)"
    using zero_item_ok(1) zero_item_ok(2) [where E = sample_vend_env]
    by (simp_all add: inventory_ok_def fresh_bag_def sample_seller_def merchant_of_def sample_player_def)
  moreover have "cart_ok sample_vend_env (mc_h sample_seller)"
    using sample_goods zero_item_ok(1) zero_item_ok(2) [where E = sample_vend_env]
    by (simp add: cart_ok_def box_ok_def list_all_iff occupied_def sample_seller_def merchant_of_def MAX_CART_def zero_item_ok(3) plain_potion_def)
  ultimately show ?thesis
    by (simp add: keeper_ok_def carrier_ok_def sample_seller_def merchant_of_def sample_player_def MAX_ZENY_def MAX_VENDING_def)
qed

text \<open>One potion is ordered (position 2 of the client is position 0), and the checks let it pass.\<close>

lemma sample_check:
  "vending_check sample_vend_env (mc_sd sample_buyer) sample_seller (pc_inventoryblank (mc_sd sample_buyer)) [(1, 0)]
     (mc_vending sample_seller) 0 0 0 = Some ([0], 10)"
proof -
  have entry: "vend_entry sample_seller 0 = 0" by (simp add: vend_entry_def sample_seller_def)
  have fields: "mc_cart sample_seller ! 0 = plain_potion" "mc_vending sample_seller ! 0 = \<lparr>vd_index = 0, vd_amount = 5, vd_value = 10\<rparr>"
    "mc_vend_num sample_seller = 1" "pl_zeny (mc_sd sample_seller) = 5000" "pl_zeny (mc_sd sample_buyer) = 5000"
    "pl_weight (mc_sd sample_buyer) = 0" "pl_max_weight (mc_sd sample_buyer) = 1000"
    "it_nameid plain_potion = 501" "it_amount plain_potion = 5" "id_weight sample_item = 1"
    by (simp_all add: sample_seller_def sample_buyer_def merchant_of_def sample_player_def plain_potion_def sample_item_def)
  have exist: "pc_checkadditem sample_vend_env 501 1 (mc_sd sample_buyer) = CHKADDITEM_EXIST"
    by (simp add: pc_checkadditem_def sample_vend_fields sample_item_def itemdb_isstackable2_def sample_buyer_def merchant_of_def
        bound_potion_def MAX_AMOUNT_def MAX_INVENTORY_def sample_player_def)
  show ?thesis
    by (simp add: vending_check.simps entry exist fields MAX_CART_def MAX_ZENY_def sample_vend_fields Let_def)
qed


section \<open>The properties at work\<close>

lemma sample_players: "mk_players sample_market 1 = Some sample_buyer" "mk_players sample_market 2 = Some sample_seller"
  by (simp_all add: sample_market_def)

lemma sample_shop: "pl_vending (mc_sd sample_seller)" "(1 :: uint32) \<noteq> 2" "(word_of_int (mc_vender_id sample_seller) :: uint32) = 7"
  "pl_m (mc_sd sample_buyer) = pl_m (mc_sd sample_seller)" "ve_near sample_vend_env 1 2" "read_order (1, 2) = (1, 0)"
  by (simp_all add: sample_seller_def sample_buyer_def merchant_of_def sample_player_def sample_vend_fields read_order_def to_int16_def)


theorem paid_for_nothing_witness:
  "\<exists>m' vm'. mk_players (vending_purchasereq sample_vend_env 1 2 7 [(1, 2)] sample_market) =
     (mk_players sample_market)(1 := Some m', 2 := Some vm') \<and>
   pl_zeny (mc_sd m') = 4990 \<and> stock 501 (mc_sd m') = 1 \<and> holding 501 (mc_cart vm') = 4 \<and> stock 501 (mc_sd vm') = 0"
proof -
  have price: "price sample_seller [(1, 0)] = 10" by (simp add: vend_entry_def sample_seller_def)
  have fields: "mc_cart sample_seller ! 0 = plain_potion" "pl_zeny (mc_sd sample_buyer) = 5000" "it_nameid plain_potion = 501"
    "pl_inventory (mc_sd sample_buyer) = bound_potion # replicate (MAX_INVENTORY - Suc 0) pebble"
    "pl_weight (mc_sd sample_buyer) = 0" "pl_max_weight (mc_sd sample_buyer) = 1000"
    by (simp_all add: sample_seller_def sample_buyer_def merchant_of_def sample_player_def plain_potion_def)
  have full: "arr_find (same_stack plain_potion) (pl_inventory (mc_sd sample_buyer)) = MAX_INVENTORY"
    "pc_search_inventory 0 ((mc_sd sample_buyer)\<lparr>pl_zeny := z\<rparr>) = None" for z
    by (simp_all add: fields same_stack_def plain_potion_def bound_potion_def pebble_def zero_item_def MAX_INVENTORY_def pc_search_inventory_def)
  have refused: "fst (pc_additem sample_vend_env (mc_cart sample_seller ! nat 0) 1 False
      ((mc_sd sample_buyer)\<lparr>pl_zeny := pl_zeny (mc_sd sample_buyer) - price sample_seller [(1, 0)]\<rparr>)) \<noteq> ADDITEM_SUCCESS"
    by (simp add: pc_additem_def additem_place_def Let_def sample_vend_fields fields(1-3,5,6) full sample_item_def MAX_AMOUNT_def case_prod_beta)
  have stocks: "stock 501 (mc_sd sample_buyer) = 1" "holding 501 (mc_cart sample_seller) = 5" "stock 501 (mc_sd sample_seller) = 0"
    by (simp_all add: stock_def holding_def units_def sample_buyer_def sample_seller_def merchant_of_def bound_potion_def pebble_def
        plain_potion_def sample_player_def sum_list_replicate zero_item_def)
  obtain m' vm' where "mk_players (vending_purchasereq sample_vend_env 1 2 7 [(1, 2)] sample_market) =
      (mk_players sample_market)(1 := Some m', 2 := Some vm')"
    "pl_zeny (mc_sd m') = pl_zeny (mc_sd sample_buyer) - price sample_seller [(1, 0)]" "stock 501 (mc_sd m') = stock 501 (mc_sd sample_buyer)"
    "holding (it_nameid (mc_cart sample_seller ! nat 0)) (mc_cart vm') = holding (it_nameid (mc_cart sample_seller ! nat 0)) (mc_cart sample_seller) - 1"
    "stock 501 (mc_sd vm') = stock 501 (mc_sd sample_seller)"
    using paid_for_nothing [OF sample_players sample_buyer_ok sample_seller_ok sample_vend_fields(6,7) sample_shop sample_check refused]
    by blast
  then show ?thesis using price stocks fields by (intro exI [of _ m'] exI [of _ vm']) simp
qed


text \<open>A customer with an empty inventory.\<close>

definition sample_customer :: merchant where "sample_customer = merchant_of (sample_holder\<lparr>h_sd := sample_player 3\<rparr>)"

lemma sample_customer_ok: "keeper_ok sample_vend_env sample_customer"
proof -
  have "inventory_ok (mc_sd sample_customer)" "fresh_bag sample_vend_env (mc_sd sample_customer)"
    using zero_item_ok(1) zero_item_ok(2) [where E = sample_vend_env]
    by (simp_all add: inventory_ok_def fresh_bag_def sample_customer_def merchant_of_def sample_player_def)
  moreover have "cart_ok sample_vend_env (mc_h sample_customer)"
    by (simp add: cart_ok_def sample_customer_def merchant_of_def sample_holder_def blank_box)
  ultimately show ?thesis
    by (simp add: keeper_ok_def carrier_ok_def sample_customer_def merchant_of_def sample_player_def MAX_ZENY_def)
qed

theorem purchase_delivers_witness:
  "\<exists>m' vm'. mk_players (vending_purchasereq sample_vend_env 3 2 7 [(2, 2)] (put_player 3 sample_customer sample_market)) =
     (mk_players (put_player 3 sample_customer sample_market))(3 := Some m', 2 := Some vm') \<and>
   stock 501 (mc_sd m') = 2 \<and> pl_zeny (mc_sd m') = 4980 \<and> holding 501 (mc_cart vm') = 3"
proof -
  have entry: "vend_entry sample_seller 0 = 0" by (simp add: vend_entry_def sample_seller_def)
  have fields: "mc_cart sample_seller ! 0 = plain_potion" "mc_vending sample_seller ! 0 = \<lparr>vd_index = 0, vd_amount = 5, vd_value = 10\<rparr>"
    "mc_vend_num sample_seller = 1" "pl_zeny (mc_sd sample_seller) = 5000" "pl_zeny (mc_sd sample_customer) = 5000"
    "pl_weight (mc_sd sample_customer) = 0" "pl_max_weight (mc_sd sample_customer) = 1000"
    "it_nameid plain_potion = 501" "it_amount plain_potion = 5" "id_weight sample_item = 1"
    by (simp_all add: sample_seller_def sample_customer_def merchant_of_def sample_player_def plain_potion_def sample_item_def)
  have empty: "pl_inventory (mc_sd sample_customer) = replicate MAX_INVENTORY zero_item" "pl_inventory_slots (mc_sd sample_customer) = 100"
    by (simp_all add: sample_customer_def merchant_of_def sample_player_def)
  have new: "pc_checkadditem sample_vend_env 501 2 (mc_sd sample_customer) = CHKADDITEM_NEW"
    by (simp add: pc_checkadditem_def sample_vend_fields sample_item_def itemdb_isstackable2_def empty MAX_AMOUNT_def)
  have blank: "pc_inventoryblank (mc_sd sample_customer) = 100"
    by (simp add: pc_inventoryblank_def empty MAX_INVENTORY_def)
  have check: "vending_check sample_vend_env (mc_sd sample_customer) sample_seller (pc_inventoryblank (mc_sd sample_customer)) [(2, 0)]
     (mc_vending sample_seller) 0 0 0 = Some ([0], 20)"
    by (simp add: vending_check.simps entry new blank fields MAX_CART_def MAX_ZENY_def sample_vend_fields Let_def)
  have shop: "pl_vending (mc_sd sample_seller)" "(3 :: uint32) \<noteq> 2" "(word_of_int (mc_vender_id sample_seller) :: uint32) = 7"
    "pl_m (mc_sd sample_customer) = pl_m (mc_sd sample_seller)" "ve_near sample_vend_env 3 2" "read_order (2, 2) = (2, 0)"
    by (simp_all add: sample_seller_def sample_customer_def merchant_of_def sample_player_def sample_vend_fields read_order_def to_int16_def)
  have price: "price sample_seller [(2, 0)] = 20" by (simp add: entry fields)
  have stocks: "stock 501 (mc_sd sample_customer) = 0" "holding 501 (mc_cart sample_seller) = 5"
    by (simp_all add: stock_def holding_def units_def sample_seller_def merchant_of_def empty plain_potion_def sum_list_replicate zero_item_def)
  have players: "mk_players (put_player 3 sample_customer sample_market) 3 = Some sample_customer"
    "mk_players (put_player 3 sample_customer sample_market) 2 = Some sample_seller" by (simp_all add: sample_players)
  obtain m' vm' where W': "mk_players (vending_purchasereq sample_vend_env 3 2 7 [(2, 2)] (put_player 3 sample_customer sample_market)) =
      (mk_players (put_player 3 sample_customer sample_market))(3 := Some m', 2 := Some vm')"
    and fair: "fair_sale sample_vend_env sample_customer sample_seller [(2, 0)] m' vm'"
    and stock: "stock 501 (mc_sd m') = stock 501 (mc_sd sample_customer) + ordered 501 (mc_cart sample_seller) [(2, 0)]"
    using purchase_delivers [OF players sample_customer_ok sample_seller_ok sample_vend_fields(6,7) shop check]
    by (auto simp: fields new sample_vend_fields sample_item_def)
  from fair price have "pl_zeny (mc_sd m') = 4980" "holding 501 (mc_cart vm') = 3"
    by (simp_all add: fair_sale_def fields stocks)
  with W' stock stocks show ?thesis by (intro exI [of _ m'] exI [of _ vm']) (simp add: fields)
qed

end
