(* ===== verification/Booths.thy ===== *)
theory Booths
  imports Bazaar
begin

text \<open>
  The market under every sequence of messages: who is registered as a seller, and that shops create neither
  goods nor zeny.
\<close>

section \<open>Well-formed markets\<close>

text \<open>A shop's entries name positions of the cart.\<close>

definition entry_ok :: "s_vending \<Rightarrow> bool" where
  "entry_ok v \<longleftrightarrow> 0 \<le> vd_index v \<and> vd_index v < int MAX_CART"

definition shop_ok :: "merchant \<Rightarrow> bool" where
  "shop_ok m \<longleftrightarrow> length (mc_vending m) = MAX_VENDING \<and> mc_vend_num m \<le> MAX_VENDING \<and>
     (\<forall>v \<in> set (take (mc_vend_num m) (mc_vending m)). entry_ok v)"

text \<open>The players with open shops are the ones registered under their character in \<open>vending_db\<close>.\<close>

definition market_ok :: "vend_env \<Rightarrow> market \<Rightarrow> bool" where
  "market_ok E W \<longleftrightarrow> finite (dom (mk_players W)) \<and>
     (\<forall>a m. mk_players W a = Some m \<longrightarrow> keeper_ok E m \<and> shop_ok m \<and>
        (pl_vending (mc_sd m) \<longleftrightarrow> mk_vending_db W (pl_char_id (mc_sd m)) = Some a)) \<and>
     (\<forall>a b m n. mk_players W a = Some m \<longrightarrow> mk_players W b = Some n \<longrightarrow> pl_char_id (mc_sd m) = pl_char_id (mc_sd n) \<longrightarrow> a = b) \<and>
     (\<forall>c a. mk_vending_db W c = Some a \<longrightarrow> (\<exists>m. mk_players W a = Some m \<and> pl_char_id (mc_sd m) = c))"

lemma market_okD:
  assumes "market_ok E W" "mk_players W a = Some m"
  shows "keeper_ok E m" "shop_ok m" "pl_vending (mc_sd m) \<longleftrightarrow> mk_vending_db W (pl_char_id (mc_sd m)) = Some a"
  using assms by (simp_all add: market_ok_def)

text \<open>What all players have together.\<close>

definition overall :: "(merchant \<Rightarrow> int) \<Rightarrow> market \<Rightarrow> int" where
  "overall f W = (\<Sum>a \<in> dom (mk_players W). f (the (mk_players W a)))"

definition goods_of :: "uint32 \<Rightarrow> merchant \<Rightarrow> int" where
  "goods_of nid m = stock nid (mc_sd m) + holding nid (mc_cart m)"

definition purse :: "merchant \<Rightarrow> int" where "purse m = pl_zeny (mc_sd m)"

lemma overall_put:
  assumes "market_ok E W" "mk_players W a = Some m"
  shows "overall f (put_player a m' W) = overall f W - f m + f m'"
proof -
  let ?D = "dom (mk_players W) - {a}"
  have fin: "finite ?D" and dom: "dom (mk_players W) = insert a ?D" using assms by (auto simp: market_ok_def)
  have "overall f W = f m + (\<Sum>b \<in> ?D. f (the (mk_players W b)))"
    unfolding overall_def by (subst dom, subst sum.insert) (use fin assms(2) in auto)
  moreover have "overall f (put_player a m' W) = f m' + (\<Sum>b \<in> ?D. f (the (mk_players W b)))"
    unfolding overall_def by (simp add: sum.insert_remove fin)
  ultimately show ?thesis by simp
qed

section \<open>Steps\<close>

definition no_gain :: "vend_env \<Rightarrow> market \<Rightarrow> market \<Rightarrow> bool" where
  "no_gain E W W' \<longleftrightarrow> market_ok E W' \<and> dom (mk_players W') = dom (mk_players W) \<and>
     (\<forall>nid. overall (goods_of nid) W' \<le> overall (goods_of nid) W) \<and> overall purse W' \<le> overall purse W"

lemma no_gain_refl: "market_ok E W \<Longrightarrow> no_gain E W W"
  by (simp add: no_gain_def)

lemma no_gain_trans: "no_gain E W1 W2 \<Longrightarrow> no_gain E W2 W3 \<Longrightarrow> no_gain E W1 W3"
  unfolding no_gain_def by (metis order_trans)

text \<open>One player changes, but neither the character nor whether a shop is open.\<close>

lemma market_put:
  assumes W: "market_ok E W" "mk_players W a = Some m" and m': "keeper_ok E m'" "shop_ok m'"
    "pl_char_id (mc_sd m') = pl_char_id (mc_sd m)" "pl_vending (mc_sd m') = pl_vending (mc_sd m)"
  shows "market_ok E (put_player a m' W)"
  using W m' unfolding market_ok_def by (auto simp: put_player_def) (metis option.inject)+

lemma market_step:
  assumes W: "market_ok E W" "mk_players W a = Some m" and m': "keeper_ok E m'" "shop_ok m'"
    "pl_char_id (mc_sd m') = pl_char_id (mc_sd m)" "pl_vending (mc_sd m') = pl_vending (mc_sd m)"
    "\<And>nid. goods_of nid m' \<le> goods_of nid m" "purse m' \<le> purse m"
  shows "no_gain E W (put_player a m' W)"
  using market_put [OF W m'(1-4)] overall_put [OF W] m'(5,6) W(2) by (auto simp: no_gain_def)


section \<open>Closing, looking and opening\<close>

lemma bag_only_frame:
  assumes "bag_only sd sd'"
  shows "pl_vending sd' = pl_vending sd" "pl_char_id sd' = pl_char_id sd"
  using assms unfolding bag_only_def by (cases sd; cases sd'; simp)+

lemma flag_step:
  assumes W: "market_ok E W" "mk_players W a = Some m" and m': "keeper_ok E m'" "shop_ok m'"
    "pl_char_id (mc_sd m') = pl_char_id (mc_sd m)" "\<And>nid. goods_of nid m' \<le> goods_of nid m" "purse m' \<le> purse m"
    and db: "mk_vending_db W' = (mk_vending_db W)(pl_char_id (mc_sd m) := if pl_vending (mc_sd m') then Some a else None)"
    and players: "mk_players W' = (mk_players W)(a := Some m')"
  shows "no_gain E W W'"
proof -
  have fin: "finite (dom (mk_players W))"
    and one: "\<And>a b m n. mk_players W a = Some m \<Longrightarrow> mk_players W b = Some n \<Longrightarrow> pl_char_id (mc_sd m) = pl_char_id (mc_sd n) \<Longrightarrow> a = b"
    and registered: "\<And>c a. mk_vending_db W c = Some a \<Longrightarrow> \<exists>m. mk_players W a = Some m \<and> pl_char_id (mc_sd m) = c"
    using W(1) unfolding market_ok_def by blast+
  have "keeper_ok E n \<and> shop_ok n \<and> (pl_vending (mc_sd n) \<longleftrightarrow> mk_vending_db W' (pl_char_id (mc_sd n)) = Some b)"
    if "mk_players W' b = Some n" for b n
  proof (cases "b = a")
    case True
    with that m' db players show ?thesis by simp
  next
    case False
    with that players have n: "mk_players W b = Some n" by simp
    with one [OF W(2) n] False have "pl_char_id (mc_sd n) \<noteq> pl_char_id (mc_sd m)" by auto
    with market_okD [OF W(1) n] db show ?thesis by simp
  qed
  moreover have "\<exists>n. mk_players W' b = Some n \<and> pl_char_id (mc_sd n) = c" if "mk_vending_db W' c = Some b" for c b
    using that registered [of c b] W(2) m'(3) db players by (cases "c = pl_char_id (mc_sd m)"; cases "b = a") (auto split: if_splits)
  moreover have "b = c" if "mk_players W' b = Some n" "mk_players W' c = Some k" "pl_char_id (mc_sd n) = pl_char_id (mc_sd k)" for b c n k
  proof -
    have "\<exists>n'. mk_players W b = Some n' \<and> pl_char_id (mc_sd n') = pl_char_id (mc_sd n)"
      "\<exists>k'. mk_players W c = Some k' \<and> pl_char_id (mc_sd k') = pl_char_id (mc_sd k)"
      using that(1,2) W(2) m'(3) players by (cases "b = a"; cases "c = a"; simp)+
    with one [of b _ c] that(3) show ?thesis by auto
  qed
  moreover have "finite (dom (mk_players W'))" using fin players by simp
  ultimately have "market_ok E W'" unfolding market_ok_def by blast
  moreover have "overall f W' = overall f (put_player a m' W)" for f by (simp add: overall_def players)
  ultimately show ?thesis using overall_put [OF W] m'(4,5) W(2) players by (auto simp: no_gain_def)
qed

lemma close_step:
  assumes W: "market_ok E W"
  shows "no_gain E W (vending_closevending a W)"
proof (cases "mk_players W a")
  case (Some m)
  let ?m = "(set_sd (\<lambda>sd. sd\<lparr>pl_vending := False\<rparr>) m)\<lparr>mc_vender_id := 0\<rparr>"
  have "keeper_ok E ?m" "shop_ok ?m" "pl_char_id (mc_sd ?m) = pl_char_id (mc_sd m)" "goods_of nid ?m \<le> goods_of nid m" "purse ?m \<le> purse m" for nid
    using market_okD(1,2) [OF W Some] by (simp_all add: keeper_ok_def shop_ok_def set_sd_def vending_flag_frame goods_of_def purse_def)
  from flag_step [OF W Some this] no_gain_refl [OF W] Some show ?thesis by (simp add: vending_closevending_def put_player_def)
qed (use no_gain_refl [OF W] in \<open>simp add: vending_closevending_def\<close>)

lemma no_gain_quit: "no_gain E W (W'\<lparr>mk_quit := q\<rparr>) = no_gain E W W'"
  by (simp add: no_gain_def market_ok_def overall_def)

lemma sold_out_step:
  assumes "market_ok E W"
  shows "no_gain E W (close_sold_out a W)"
  using close_step [OF assms, of a] no_gain_refl [OF assms] by (simp add: close_sold_out_def no_gain_quit split: option.split)

text \<open>Changes of a player that touch neither goods, purse, shop nor registration.\<close>

lemma quiet_step:
  assumes W: "market_ok E W" "mk_players W a = Some m"
    and same: "mc_sd m' = mc_sd m" "mc_cart m' = mc_cart m" "h_cart_num (mc_h m') = h_cart_num (mc_h m)"
      "mc_vending m' = mc_vending m" "mc_vend_num m' = mc_vend_num m"
  shows "no_gain E W (put_player a m' W)"
  by (rule market_step [OF W])
    (use market_okD [OF W] same in \<open>simp_all add: keeper_ok_def carrier_ok_def cart_ok_def shop_ok_def goods_of_def purse_def\<close>)

lemma list_step: "market_ok E W \<Longrightarrow> no_gain E W (vending_vendinglistreq a vid W)"
  using quiet_step [of E W a] no_gain_refl [of E W] by (auto simp: vending_vendinglistreq_def split: option.split)

lemma window_step: "market_ok E W \<Longrightarrow> no_gain E W (close_window a W)"
  using quiet_step [of E W a] no_gain_refl [of E W] by (auto simp: close_window_def split: option.split)


section \<open>Buying\<close>

lemma deliver_index:
  "fold (vending_deliver E) xs (sd, vm) = (sd', vm') \<Longrightarrow> map vd_index (mc_vending vm') = map vd_index (mc_vending vm)"
proof (induction xs arbitrary: sd vm)
  case (Cons x xs)
  obtain n i j where x: "x = ((n, i), j)" by (metis prod_cases3 prod.collapse)
  obtain sd1 vm1 where step: "vending_deliver E x (sd, vm) = (sd1, vm1)" by fastforce
  have index: "map vd_index (vs[j := (vs ! j)\<lparr>vd_amount := k\<rparr>]) = map vd_index vs" for vs k
    by (cases "j < length vs") (simp_all add: map_update list_update_same_conv list_update_beyond)
  have "map vd_index (mc_vending vm1) = map vd_index (mc_vending vm)"
    using step by (auto simp: x vending_deliver_def Let_def index split: prod.splits)
  with Cons.IH [of sd1 vm1] Cons.prems step show ?case by simp
qed simp

lemma sold_shop_ok:
  assumes vm: "shop_ok vm" and index: "map vd_index (mc_vending vm1) = map vd_index (mc_vending vm)"
    and num: "mc_vend_num vm1 = mc_vend_num vm"
  shows "shop_ok (vending_compact vm1)"
proof -
  have len: "length (mc_vending vm1) = length (mc_vending vm)" using map_eq_imp_length_eq [OF index] .
  have "mc_vend_num vm1 \<le> length (mc_vending vm1)" using vm num len by (simp add: shop_ok_def)
  note C = vending_compact_spec [OF this]
  have all: "\<forall>i \<in> vd_index ` set (take (mc_vend_num vm) (mc_vending vm)). 0 \<le> i \<and> i < int MAX_CART" using vm by (simp add: shop_ok_def entry_ok_def)
  have "vd_index ` set (take (mc_vend_num vm1) (mc_vending vm1)) = vd_index ` set (take (mc_vend_num vm) (mc_vending vm))"
    using index by (simp add: num set_map [symmetric] take_map [symmetric] del: set_map)
  then have "0 \<le> vd_index v \<and> vd_index v < int MAX_CART" if "v \<in> set (take (mc_vend_num vm1) (mc_vending vm1))" for v
    using that all by (metis imageI)
  with C vm num len show ?thesis by (auto simp: shop_ok_def entry_ok_def)
qed

lemma purchase_step:
  assumes W: "market_ok E W" and E: "equip_neutral E" "tax_ok E"
  shows "no_gain E W (vending_purchasereq E a aid uid data W)"
proof (cases "mk_players W a = None \<or> mk_players W aid = None")
  case True
  with no_gain_refl [OF W] show ?thesis by (auto simp: vending_purchasereq_def split: option.split)
next
  case False
  then obtain m vm where players: "mk_players W a = Some m" "mk_players W aid = Some vm" by auto
  note m = market_okD [OF W players(1)] and vm = market_okD [OF W players(2)]
  have quiet: "no_gain E W (put_player a (searchstore_clearremote m) W)"
    by (rule quiet_step [OF W players(1)]) (simp_all add: searchstore_clearremote_def)
  show ?thesis
  proof (cases rule: purchase_cases [OF players, where E = E and uid = uid and data = data])
    case 1
    with quiet no_gain_refl [OF W] show ?thesis by auto
  next
    case (2 js z sd vm1)
    let ?m = "set_sd (\<lambda>_. sd) (searchstore_clearremote m)" and ?vm = "vending_compact vm1"
    note sale = E 2(2-4)
    note fair = sale_fair [OF m(1) vm(1) sale, unfolded fair_sale_def]
    note S = sale_dealt [OF m(1) vm(1) sale]
    have bag: "bag_only ((mc_sd m)\<lparr>pl_zeny := pl_zeny (mc_sd m) - price vm (map read_order data)\<rparr>) sd" using S(1) by (simp add: dealt_def)
    have buyer: "keeper_ok E ?m" "shop_ok ?m" "pl_char_id (mc_sd ?m) = pl_char_id (mc_sd m)" "pl_vending (mc_sd ?m) = pl_vending (mc_sd m)"
      using fair m(2) bag_only_frame [OF bag] by (simp_all add: shop_ok_def searchstore_clearremote_def)
    have "map vd_index (mc_vending vm1) = map vd_index (mc_vending vm)" using deliver_index [OF 2(4)] by simp
    from sold_shop_ok [OF vm(2) this S(3)] have seller: "keeper_ok E ?vm" "shop_ok ?vm"
        "pl_char_id (mc_sd ?vm) = pl_char_id (mc_sd vm)" "pl_vending (mc_sd ?vm) = pl_vending (mc_sd vm)"
      using fair S(2) vending_compact_spec(4) [of vm1] vm(1) S(3,4) by (simp_all add: keeper_ok_def)
    let ?W1 = "put_player a ?m W"
    have W1: "market_ok E ?W1" by (rule market_put [OF W players(1) buyer])
    have vm1: "mk_players ?W1 aid = Some vm" using 2(1) players(2) by simp
    have W2: "market_ok E (put_player aid ?vm ?W1)" by (rule market_put [OF W1 vm1 seller])
    have all: "overall f (put_player aid ?vm ?W1) = overall f W - f m + f ?m - f vm + f ?vm" for f
      using overall_put [OF W1 vm1] overall_put [OF W players(1)] by simp
    have rest: "stock nid (mc_sd ?vm) = stock nid (mc_sd vm)" "mc_cart ?m = mc_cart m"
      "holding nid (mc_cart ?vm) = holding nid (mc_cart vm) - ordered nid (mc_cart vm) (map read_order data)"
      and gets: "stock nid (mc_sd ?m) \<le> stock nid (mc_sd m) + ordered nid (mc_cart vm) (map read_order data)" for nid
      using fair by blast+
    have "goods_of nid ?m + goods_of nid ?vm \<le> goods_of nid m + goods_of nid vm" for nid
      using gets [of nid] rest(1,3) [of nid] rest(2) by (simp add: goods_of_def)
    then have "overall (goods_of nid) (put_player aid ?vm ?W1) \<le> overall (goods_of nid) W" for nid
      unfolding all by (simp add: algebra_simps)
    moreover have "overall purse (put_player aid ?vm ?W1) \<le> overall purse W"
      using fair S(11) by (simp add: all purse_def)
    ultimately have "no_gain E W (put_player aid ?vm ?W1)"
      using W2 players by (auto simp: no_gain_def)
    moreover have "put_player a ?m (put_player a (searchstore_clearremote m) W) = ?W1" by (simp add: put_player_def)
    ultimately show ?thesis using no_gain_trans sold_out_step [OF W2] 2(5) by simp
  qed
qed


section \<open>Opening\<close>



text \<open>The loop only writes entries that name positions of the cart, from the front.\<close>

lemma list_entry_step:
  assumes "list_entry E m line (vs, i, w) = (vs', i', w')"
  shows "length vs' = length vs \<and> i \<le> i' \<and> i' \<le> Suc i \<and> (\<forall>k < length vs. vs' ! k = vs ! k \<or> entry_ok (vs' ! k)) \<and>
    ((\<forall>k < i. k < length vs \<longrightarrow> entry_ok (vs ! k)) \<longrightarrow> (\<forall>k < i'. k < length vs \<longrightarrow> entry_ok (vs' ! k)))"
proof -
  obtain a b c where line: "line = (a, b, c)" by (cases line)
  define idx where "idx = to_int16 (to_int16 (uint a) - 2)"
  define v where "v = \<lparr>vd_index = idx, vd_amount = to_int16 (uint b), vd_value = min c (word_of_int (ve_vending_max_value E))\<rparr>"
  have "may_vend E m idx (to_int16 (uint b)) \<Longrightarrow> entry_ok v" by (simp add: may_vend_def v_def entry_ok_def Let_def not_le not_less)
  moreover have "(vs', i') = (if may_vend E m idx (to_int16 (uint b)) then (vs[i := v], Suc i) else (vs, i))"
    using assms by (auto simp: list_entry_def line idx_def v_def Let_def split: if_splits)
  ultimately have "(vs', i') = (vs, i) \<or> (\<exists>v. entry_ok v \<and> vs' = vs[i := v] \<and> i' = Suc i)" by (auto split: if_splits)
  then show ?thesis
  proof
    assume "\<exists>v. entry_ok v \<and> vs' = vs[i := v] \<and> i' = Suc i"
    then obtain v where v: "entry_ok v" "vs' = vs[i := v]" "i' = Suc i" by blast
    then have "vs' ! k = (if k = i then v else vs ! k)" if "k < length vs" for k using that by (simp add: nth_list_update)
    moreover have "length vs' = length vs" using v(2) by simp
    ultimately show ?thesis using v(1,3) by (auto simp: less_Suc_eq)
  qed simp
qed

lemma list_entries:
  "fold (list_entry E m) data (vs, i, w) = (vs', i', w') \<Longrightarrow>
   length vs' = length vs \<and> i' \<le> i + length data \<and> (\<forall>k < length vs. vs' ! k = vs ! k \<or> entry_ok (vs' ! k)) \<and>
    ((\<forall>k < i. k < length vs \<longrightarrow> entry_ok (vs ! k)) \<longrightarrow> (\<forall>k < i'. k < length vs \<longrightarrow> entry_ok (vs' ! k)))"
proof (induction data arbitrary: vs i w)
  case (Cons line data)
  obtain us j x where step: "list_entry E m line (vs, i, w) = (us, j, x)" by (metis prod_cases3)
  from Cons.prems step have rest: "fold (list_entry E m) data (us, j, x) = (vs', i', w')" by simp
  note A = list_entry_step [OF step] and B = Cons.IH [OF rest]
  have "vs' ! k = vs ! k \<or> entry_ok (vs' ! k)" if "k < length vs" for k using A B that by metis
  with A B show ?case by simp
qed simp

lemma shop_ok_entries:
  "shop_ok m \<longleftrightarrow> length (mc_vending m) = MAX_VENDING \<and> mc_vend_num m \<le> MAX_VENDING \<and> (\<forall>k < mc_vend_num m. entry_ok (mc_vending m ! k))"
  by (auto simp: shop_ok_def all_set_conv_all_nth)

lemma setup_step:
  assumes W: "market_ok E W" "mk_players W a = Some m" and shop: "shop_ok m1" and m1: "m1 = m\<lparr>mc_vending := vs\<rparr>"
  shows "no_gain E W (put_player a (end_setup m1) W)"
  by (rule market_step [OF W])
    (use market_okD [OF W] shop in \<open>simp_all add: m1 end_setup_def keeper_ok_def carrier_ok_def cart_ok_def shop_ok_def goods_of_def purse_def\<close>)

lemma open_step:
  assumes W: "market_ok E W"
  shows "no_gain E W (snd (vending_openvending E a message data W))"
proof (cases "mk_players W a")
  case None
  with no_gain_refl [OF W] show ?thesis by (simp add: vending_openvending_def)
next
  case (Some m)
  note M = market_okD [OF W Some]
  obtain vs i w where list: "fold (list_entry E m) data (mc_vending m, 0, 0) = (vs, i, w)" by (metis prod_cases3)
  note L = list_entries [OF list]
  let ?m1 = "m\<lparr>mc_vending := vs\<rparr>" and ?uid = "mk_nextid W + 1"
  have shop: "shop_ok ?m1" using M(2) L unfolding shop_ok_entries by auto (metis order_less_le_trans)
  have same: "no_gain E W (put_player a (end_setup m) W)" "no_gain E W (put_player a (end_setup ?m1) W)"
    using setup_step [OF W Some M(2), of "mc_vending m"] setup_step [OF W Some shop refl] by simp_all
  define m2 where "m2 = (set_sd (\<lambda>sd. sd\<lparr>pl_vending := True\<rparr>) (end_setup ?m1))
      \<lparr>mc_vender_id := sint ?uid, mc_vend_num := i, mc_message := safestrncpy message MESSAGE_SIZE\<rparr>"
  have opens: "no_gain E W ((put_player a m2 W)\<lparr>mk_nextid := ?uid, mk_vending_db := (mk_vending_db W)(pl_char_id (mc_sd m) \<mapsto> a)\<rparr>)"
    if few: "length data \<le> MAX_VENDING"
  proof (rule flag_step [OF W Some, where m' = m2])
    show "keeper_ok E m2" "shop_ok m2"
      using M(1,2) L few unfolding shop_ok_entries
      by (simp_all add: m2_def keeper_ok_def end_setup_def set_sd_def carrier_ok_def cart_ok_def inventory_ok_def fresh_bag_def)
  qed (simp_all add: m2_def end_setup_def set_sd_def goods_of_def purse_def stock_def put_player_def)
  show ?thesis
  proof (cases "i = length data")
    case True
    with same no_gain_refl [OF W] opens show ?thesis by (auto simp: vending_openvending_def Some list m2_def Let_def not_less)
  next
    case False
    with same no_gain_refl [OF W] show ?thesis by (simp add: vending_openvending_def Some list Let_def)
  qed
qed

section \<open>Every message\<close>

lemma vend_step:
  assumes W: "market_ok E W" and E: "equip_neutral E" "tax_ok E"
  shows "no_gain E W (vend_handle E forbidden (a, msg) W)"
proof -
  have buy: "no_gain E W (close_window a (vending_purchasereq E a aid uid data W))" for aid uid data
    using purchase_step [OF W E] window_step no_gain_trans by (metis no_gain_def)
  have set: "mk_players W a = Some m \<Longrightarrow> no_gain E W (put_player a (end_setup m) W)" for m
    using setup_step [OF W, where m = m and ?m1.0 = m and vs = "mc_vending m"] market_okD(2) [OF W] by simp
  have set_open: "mk_players W a = Some m \<Longrightarrow> no_gain E W (snd (vending_openvending E a message data (put_player a (end_setup m) W)))" for m message data
    using no_gain_trans [OF set open_step] set by (simp add: no_gain_def)
  have opens: "no_gain E W (clif_parse_OpenVending E forbidden a flag message data W)" for flag message data
    using open_step [OF W] set set_open no_gain_refl [OF W]
    by (simp add: clif_parse_OpenVending_def Let_def split: option.split)
  show ?thesis
    using buy opens close_step [OF W] list_step [OF W] no_gain_refl [OF W]
    by (auto simp: vend_handle_def clif_parse_VendingListReq_def clif_parse_PurchaseReq_def clif_parse_PurchaseReq2_def
        split: vend_message.split option.split)
qed

lemma vend_steps:
  assumes E: "equip_neutral E" "tax_ok E"
  shows "market_ok E W \<Longrightarrow> no_gain E W (fold (vend_handle E forbidden) ms W)"
proof (induction ms arbitrary: W)
  case Nil
  then show ?case by (simp add: no_gain_refl)
next
  case (Cons m ms)
  have s: "no_gain E W (vend_handle E forbidden m W)" by (cases m) (simp add: vend_step [OF Cons.prems E])
  then have "market_ok E (vend_handle E forbidden m W)" by (simp add: no_gain_def)
  from no_gain_trans [OF s Cons.IH [OF this]] show ?case by simp
qed


section \<open>Properties\<close>

text \<open>C28: whatever messages clients send, the players of a market together never have more of an item, in inventories
  and carts, and never more zeny than before, and nobody joins or leaves the table of players.\<close>

theorem market_never_gains:
  fixes ms :: "(uint32 \<times> vend_message) list" and forbidden :: "uint32 \<Rightarrow> bool"
  assumes "market_ok E W" "equip_neutral E" "tax_ok E"
  defines "W' \<equiv> fold (vend_handle E forbidden) ms W"
  shows "(\<forall>nid. overall (goods_of nid) W' \<le> overall (goods_of nid) W) \<and> overall purse W' \<le> overall purse W \<and>
    dom (mk_players W') = dom (mk_players W)"
  using vend_steps [OF assms(2,3,1), of forbidden ms] by (simp add: W'_def no_gain_def)

text \<open>C29: whatever messages clients send, every player's data keeps its shape: 200 slots with amounts from 0 to 30000 that
  are 0 exactly in empty slots, as many occupied cart slots as the cart counts, zeny from 0 to the limit, an array of 12 entries
  of which the used ones name cart positions; and the players with an open shop are the ones registered under their
  character.\<close>

theorem market_well_formed:
  fixes ms :: "(uint32 \<times> vend_message) list" and forbidden :: "uint32 \<Rightarrow> bool"
  assumes "market_ok E W" "equip_neutral E" "tax_ok E"
  defines "W' \<equiv> fold (vend_handle E forbidden) ms W"
  assumes "mk_players W' a = Some m"
  shows "length (pl_inventory (mc_sd m)) = MAX_INVENTORY \<and> (\<forall>i < MAX_INVENTORY. item_ok (slot (mc_sd m) i)) \<and>
    h_cart_num (mc_h m) = int (occupied (mc_cart m)) \<and> length (mc_cart m) = MAX_CART \<and>
    0 \<le> pl_zeny (mc_sd m) \<and> pl_zeny (mc_sd m) \<le> MAX_ZENY \<and>
    length (mc_vending m) = MAX_VENDING \<and> mc_vend_num m \<le> MAX_VENDING \<and>
    list_all entry_ok (take (mc_vend_num m) (mc_vending m)) \<and>
    (pl_vending (mc_sd m) \<longleftrightarrow> mk_vending_db W' (pl_char_id (mc_sd m)) = Some a)"
proof -
  have "market_ok E W'" using vend_steps [OF assms(2,3,1), of forbidden ms] by (simp add: W'_def no_gain_def)
  note M = market_okD [OF this assms(5)]
  have "list_all entry_ok (take (mc_vend_num m) (mc_vending m))" using M(2) by (simp add: shop_ok_def list_all_iff)
  with M show ?thesis by (simp add: keeper_ok_def carrier_ok_def inventory_ok_def cart_ok_def box_ok_def shop_ok_def)
qed

section \<open>The example market\<close>

lemma sample_market_ok: "market_ok sample_vend_env sample_market"
proof -
  have "shop_ok sample_buyer" "shop_ok sample_seller"
    by (simp_all add: shop_ok_def sample_buyer_def sample_seller_def merchant_of_def entry_ok_def MAX_VENDING_def MAX_CART_def)
  moreover have "pl_char_id (mc_sd sample_buyer) = 1" "pl_char_id (mc_sd sample_seller) = 2" "\<not> pl_vending (mc_sd sample_buyer)"
    "pl_vending (mc_sd sample_seller)"
    by (simp_all add: sample_buyer_def sample_seller_def merchant_of_def sample_player_def)
  ultimately show ?thesis
    using sample_buyer_ok sample_seller_ok by (auto simp: market_ok_def sample_market_def split: if_splits)
qed

lemma sample_wealth: "overall purse sample_market = 10000"
  by (simp add: overall_def sample_market_def purse_def sample_buyer_def sample_seller_def merchant_of_def sample_player_def)

theorem market_never_gains_witness:
  "overall purse (fold (vend_handle sample_vend_env (\<lambda>_. False))
     [(1, Vend_list 2), (1, Vend_buy 2 [(3, 2), (2, 2)]), (2, Vend_close), (2, Vend_open True ''x'' [(2, 1, 5)])] sample_market) \<le> 10000"
  using market_never_gains [OF sample_market_ok sample_vend_fields(6,7)] unfolding sample_wealth by blast

theorem market_well_formed_witness:
  "case mk_players (fold (vend_handle sample_vend_env (\<lambda>_. False)) [(1, Vend_list 2)] sample_market) 2 of
     None \<Rightarrow> False | Some m \<Rightarrow> list_all entry_ok (take (mc_vend_num m) (mc_vending m)) \<and> length (mc_cart m) = MAX_CART"
proof -
  obtain m where m: "mk_players (fold (vend_handle sample_vend_env (\<lambda>_. False)) [(1, Vend_list 2)] sample_market) 2 = Some m"
  proof -
    have "no_gain sample_vend_env sample_market (fold (vend_handle sample_vend_env (\<lambda>_. False)) [(1, Vend_list 2)] sample_market)"
      by (rule vend_steps [OF sample_vend_fields(6,7) sample_market_ok])
    then have "2 \<in> dom (mk_players (fold (vend_handle sample_vend_env (\<lambda>_. False)) [(1, Vend_list 2)] sample_market))"
      by (simp only: no_gain_def) (auto simp: sample_players)
    then show thesis using that by blast
  qed
  from market_well_formed [OF sample_market_ok sample_vend_fields(6,7) m] m show ?thesis by simp
qed

end
