(* ===== verification/StallSearch.thy ===== *)
theory StallSearch
  imports Booths
begin

text \<open>
  What the search for items finds in a shop.
\<close>

section \<open>The first offer\<close>

text \<open>The number of the first entry that sells the item.\<close>

definition first_offer :: "merchant \<Rightarrow> uint32 \<Rightarrow> nat" where
  "first_offer m nameid =
     arr_find (\<lambda>v. it_nameid (mc_cart m ! nat (vd_index v)) = nameid) (take (mc_vend_num m) (mc_vending m))"

lemma first_offer_spec:
  assumes "shop_ok m" "first_offer m nameid \<noteq> mc_vend_num m"
  shows "first_offer m nameid < mc_vend_num m"
    "it_nameid (mc_cart m ! nat (vd_index (mc_vending m ! first_offer m nameid))) = nameid"
proof -
  have len: "length (take (mc_vend_num m) (mc_vending m)) = mc_vend_num m" using assms(1) by (simp add: shop_ok_def)
  with arr_find_le [of "\<lambda>v. it_nameid (mc_cart m ! nat (vd_index v)) = nameid" "take (mc_vend_num m) (mc_vending m)"] assms(2)
  show less: "first_offer m nameid < mc_vend_num m" by (simp add: first_offer_def)
  with len arr_find_nth [of "\<lambda>v. it_nameid (mc_cart m ! nat (vd_index v)) = nameid" "take (mc_vend_num m) (mc_vending m)"]
  show "it_nameid (mc_cart m ! nat (vd_index (mc_vending m ! first_offer m nameid))) = nameid" by (simp add: first_offer_def)
qed

text \<open>What is reported of an item: its first offer, if the price and the cards are wanted.\<close>

definition wanted_offer :: "vend_env \<Rightarrow> merchant \<Rightarrow> store_search \<Rightarrow> uint32 \<Rightarrow> bool" where
  "wanted_offer E m s nameid \<longleftrightarrow> (let i = first_offer m nameid; v = mc_vending m ! i; it = mc_cart m ! nat (vd_index v) in
     i \<noteq> mc_vend_num m \<and> (ss_min_price s = 0 \<or> ss_min_price s \<le> vd_value v) \<and> (ss_max_price s = 0 \<or> vd_value v \<le> ss_max_price s) \<and>
     (ss_cards s = [] \<or> \<not> itemdb_isspecial (it_card it ! 0) \<and> has_card E (ss_cards s) it))"

definition report :: "merchant \<Rightarrow> uint32 \<Rightarrow> store_result" where
  "report m nameid = (let v = mc_vending m ! first_offer m nameid; it = mc_cart m ! nat (vd_index v) in
     \<lparr>sr_store_id = mc_vender_id m, sr_account_id = pl_account_id (mc_sd m), sr_store_name = safestrncpy (mc_message m) MESSAGE_SIZE,
      sr_nameid = it_nameid it, sr_amount = word_of_int (vd_amount v), sr_price = vd_value v, sr_card = it_card it, sr_refine = word_of_int (it_refine it),
      sr_enchantgrade = it_enchantgrade it\<rparr>)"

lemma vending_searchall_Cons:
  assumes "pl_vending (mc_sd m)"
  shows "vending_searchall E mx m s (nameid # wanted) found =
    (if \<not> wanted_offer E m s nameid then vending_searchall E mx m s wanted found
     else if length found \<ge> mx then (False, found) else vending_searchall E mx m s wanted (found @ [report m nameid]))"
  using assms by (auto simp: wanted_offer_def report_def first_offer_def [symmetric] Let_def not_le not_less)

text \<open>Searching an open shop is the same as reporting the first offer of each wanted item whose price and cards fit,
  in the order of the request, until the list of results is full; the search goes on to other shops exactly if nothing had to
  be left out.\<close>

theorem searchall_reports_first_offers:
  fixes wanted :: "uint32 list" and s :: store_search and E :: vend_env
  assumes "pl_vending (mc_sd m)" "length found \<le> mx"
  defines "new \<equiv> map (report m) (filter (wanted_offer E m s) wanted)"
  shows "vending_searchall E mx m s wanted found = (length found + length new \<le> mx, take mx (found @ new))"
  using assms(2) unfolding new_def
proof (induction wanted arbitrary: found)
  case Nil
  then show ?case by simp
next
  case (Cons nameid wanted)
  show ?case
  proof (cases "wanted_offer E m s nameid \<and> mx \<le> length found")
    case True
    with Cons.prems show ?thesis by (simp add: vending_searchall_Cons [OF assms(1)] del: vending_searchall.simps)
  next
    case False
    with Cons.IH [of found] Cons.IH [of "found @ [report m nameid]"] Cons.prems show ?thesis
      by (auto simp: vending_searchall_Cons [OF assms(1)] simp del: vending_searchall.simps)
  qed
qed

text \<open>Only the first entry of an item counts: a cheaper second entry of the same item is not reported when the first is
  too dear.\<close>

theorem later_offers_hidden:
  assumes "shop_ok m" "pl_vending (mc_sd m)" "i = first_offer m nameid" "i < k" "k < mc_vend_num m"
    and "it_nameid (mc_cart m ! nat (vd_index (mc_vending m ! k))) = nameid"
    and "ss_max_price s \<noteq> 0" "vd_value (mc_vending m ! k) \<le> ss_max_price s" "ss_max_price s < vd_value (mc_vending m ! i)"
  shows "vending_searchall E mx m s [nameid] found = (True, found)"
  using assms(2,3,7,9) by (auto simp: first_offer_def [symmetric] Let_def)

section \<open>Two entries for the same item\<close>

definition two_offers :: merchant where
  "two_offers = sample_seller\<lparr>mc_h := (mc_h sample_seller)\<lparr>h_cart := plain_potion # plain_potion # replicate 98 zero_item\<rparr>,
     mc_vend_num := 2,
     mc_vending := \<lparr>vd_index = 0, vd_amount = 5, vd_value = 100\<rparr> # \<lparr>vd_index = 1, vd_amount = 5, vd_value = 10\<rparr> #
       replicate 10 \<lparr>vd_index = 0, vd_amount = 0, vd_value = 0\<rparr>\<rparr>"

definition cheap_search :: store_search where
  "cheap_search = \<lparr>ss_min_price = 0, ss_max_price = 50, ss_items = [501], ss_cards = []\<rparr>"

theorem searchall_reports_first_offers_witness:
  "vending_searchall sample_vend_env 10 sample_seller cheap_search [501, 502] [] =
     (True, [\<lparr>sr_store_id = 7, sr_account_id = 2, sr_store_name = safestrncpy (replicate MESSAGE_SIZE NUL) MESSAGE_SIZE, sr_nameid = 501,
       sr_amount = 5, sr_price = 10, sr_card = it_card plain_potion, sr_refine = 0, sr_enchantgrade = 0\<rparr>])"
proof -
  have offers: "first_offer sample_seller 501 = 0" "first_offer sample_seller 502 = 1" "mc_vend_num sample_seller = 1"
    by (simp_all add: first_offer_def sample_seller_def merchant_of_def plain_potion_def)
  have "wanted_offer sample_vend_env sample_seller cheap_search 501" "\<not> wanted_offer sample_vend_env sample_seller cheap_search 502"
    by (simp_all add: wanted_offer_def offers cheap_search_def) (simp add: sample_seller_def)
  then have "map (report sample_seller) (filter (wanted_offer sample_vend_env sample_seller cheap_search) [501, 502]) =
      [report sample_seller 501]" by simp
  moreover have "pl_vending (mc_sd sample_seller)" by (rule sample_shop(1))
  ultimately have "vending_searchall sample_vend_env 10 sample_seller cheap_search [501, 502] [] = (True, [report sample_seller 501])"
    using searchall_reports_first_offers [of sample_seller "[]" 10 sample_vend_env cheap_search "[501, 502]"] by simp
  moreover have "report sample_seller 501 = \<lparr>sr_store_id = 7, sr_account_id = 2,
       sr_store_name = safestrncpy (replicate MESSAGE_SIZE NUL) MESSAGE_SIZE, sr_nameid = 501,
       sr_amount = 5, sr_price = 10, sr_card = it_card plain_potion, sr_refine = 0, sr_enchantgrade = 0\<rparr>"
    by (simp add: report_def offers) (simp add: sample_seller_def merchant_of_def sample_player_def plain_potion_def zero_item_def)
  ultimately show ?thesis by simp
qed

theorem later_offers_hidden_witness:
  "vending_searchall sample_vend_env 10 two_offers cheap_search [501] [] = (True, [])"
proof -
  have shop: "shop_ok two_offers" "pl_vending (mc_sd two_offers)" "0 = first_offer two_offers 501" "1 < mc_vend_num two_offers"
    "it_nameid (mc_cart two_offers ! nat (vd_index (mc_vending two_offers ! 1))) = 501"
    by (simp_all add: two_offers_def shop_ok_def entry_ok_def MAX_VENDING_def MAX_CART_def first_offer_def plain_potion_def sample_seller_def merchant_of_def)
  show ?thesis
    by (rule later_offers_hidden [OF shop(1-3) _ shop(4,5)]) (simp_all add: cheap_search_def two_offers_def)
qed

end
