(* ===== verification/Purveyor.thy ===== *)
theory Purveyor
  imports Buyingstore Bazaar
begin

text \<open>
  What the two loops of a sale to a buying store do: the checks bound the sales by the seller's slots, the
  entries and the limit, as long as no price of an entry overflows, and the deliveries move exactly the sales
  and their price.
\<close>

section \<open>Players and prices\<close>

lemma to_int32_id: "- 2147483648 \<le> i \<Longrightarrow> i \<le> 2147483647 \<Longrightarrow> to_int32 i = i"
  by (simp add: to_int32_def int_word_sint)

definition trader_goods :: "bs_env \<Rightarrow> player \<Rightarrow> bool" where
  "trader_goods E sd \<longleftrightarrow> inventory_ok sd \<and> fresh_bag E sd \<and> 0 \<le> pl_zeny sd \<and> pl_zeny sd \<le> MAX_ZENY"

text \<open>A buyer: five entries, of which \<open>pt_slots\<close> are used, and a limit within the zeny there can be.\<close>

definition patron_ok :: "bs_env \<Rightarrow> patron \<Rightarrow> bool" where
  "patron_ok E q \<longleftrightarrow> trader_goods E (pt_sd q) \<and> length (pt_items q) = MAX_BUYINGSTORE_SLOTS \<and>
     pt_slots q \<le> MAX_BUYINGSTORE_SLOTS \<and> 0 \<le> pt_zenylimit q \<and> pt_zenylimit q \<le> MAX_ZENY"

text \<open>No entry is worth more than a 32-bit number holds.\<close>

definition store_fits :: "patron \<Rightarrow> bool" where
  "store_fits q \<longleftrightarrow> list_all (\<lambda>e. 0 \<le> bs_price e \<and> uint (bs_amount e) * bs_price e \<le> MAX_ZENY) (take (pt_slots q) (pt_items q))"

fun sale_worth :: "patron \<Rightarrow> sale \<Rightarrow> int" where
  "sale_worth q (index, nameid, amount) = amount * bs_price (pt_items q ! bs_entry q nameid)"

definition worth :: "patron \<Rightarrow> sale list \<Rightarrow> int" where
  "worth q sales = (\<Sum>line \<leftarrow> sales. sale_worth q line)"

definition sold :: "uint32 \<Rightarrow> sale list \<Rightarrow> int" where
  "sold nid sales = (\<Sum>(index, nameid, amount) \<leftarrow> sales. if nameid = nid then amount else 0)"

lemma sale_simps [simp]:
  "worth q [] = 0" "worth q (line # sales) = sale_worth q line + worth q sales"
  "sold nid [] = 0" "sold nid ((i, n, m) # sales) = (if n = nid then m else 0) + sold nid sales"
  by (simp_all add: worth_def sold_def)

fun sound_sale :: "player \<Rightarrow> patron \<Rightarrow> sale \<Rightarrow> bool" where
  "sound_sale sd q (index, nameid, amount) \<longleftrightarrow> 2 \<le> index \<and> index - 2 < int MAX_INVENTORY \<and>
     it_nameid (slot sd (nat (index - 2))) = nameid \<and> 0 \<le> amount \<and> amount \<le> it_amount (slot sd (nat (index - 2))) \<and>
     bs_entry q nameid < pt_slots q \<and> 0 \<le> sale_worth q (index, nameid, amount) \<and> sale_worth q (index, nameid, amount) \<le> MAX_ZENY"

text \<open>No more of the item than its entry asks for.\<close>

fun wanted_sale :: "patron \<Rightarrow> sale \<Rightarrow> bool" where
  "wanted_sale q (index, nameid, amount) \<longleftrightarrow> amount \<le> uint (bs_amount (pt_items q ! bs_entry q nameid))"

lemma bs_entry_le: "pt_slots q \<le> length (pt_items q) \<Longrightarrow> bs_entry q nameid \<le> pt_slots q"
  using arr_find_le [of "\<lambda>b. bs_nameid b = nameid" "take (pt_slots q) (pt_items q)"] by (simp add: bs_entry_def)

lemma bs_entry_name:
  assumes "pt_slots q \<le> length (pt_items q)" "bs_entry q nameid < pt_slots q"
  shows "bs_nameid (pt_items q ! bs_entry q nameid) = nameid"
  using arr_find_nth [of "\<lambda>b. bs_nameid b = nameid" "take (pt_slots q) (pt_items q)"] assms by (simp add: bs_entry_def)

lemma arr_find_map: "arr_find P (map f xs) = arr_find (P \<circ> f) xs"
  by (induction xs) auto

lemma bs_entry_cong:
  assumes "map bs_nameid (pt_items q') = map bs_nameid (pt_items q)" "pt_slots q' = pt_slots q"
  shows "bs_entry q' nameid = bs_entry q nameid"
proof -
  have "bs_entry r nameid = arr_find (\<lambda>n. n = nameid) (take (pt_slots r) (map bs_nameid (pt_items r)))" for r
    by (simp add: bs_entry_def take_map arr_find_map comp_def)
  with assms show ?thesis by simp
qed

lemma entry_fits:
  assumes "store_fits q" "bs_entry q nameid < pt_slots q" "pt_slots q \<le> length (pt_items q)"
    and "0 \<le> amount" "amount \<le> uint (bs_amount (pt_items q ! bs_entry q nameid))"
  shows "0 \<le> sale_worth q (index, nameid, amount)" "sale_worth q (index, nameid, amount) \<le> MAX_ZENY"
proof -
  let ?e = "pt_items q ! bs_entry q nameid"
  have e: "0 \<le> bs_price ?e" "uint (bs_amount ?e) * bs_price ?e \<le> MAX_ZENY"
    using assms(1-3) by (simp_all add: store_fits_def list_all_length)
  then show "0 \<le> sale_worth q (index, nameid, amount)" using assms(4) by simp
  have "amount * bs_price ?e \<le> uint (bs_amount ?e) * bs_price ?e" using e(1) assms(5) by (rule mult_right_mono [rotated])
  with e(2) show "sale_worth q (index, nameid, amount) \<le> MAX_ZENY" by simp
qed

section \<open>The checks\<close>

lemma trade_check_Cons:
  assumes "trade_check_list E sd q seen ((index, nameid, amount) # sales) weight zeny"
  obtains weight' where "index \<notin> set seen" "2 \<le> index" "index - 2 < int MAX_INVENTORY"
    "it_nameid (slot sd (nat (index - 2))) = nameid" "amount \<le> it_amount (slot sd (nat (index - 2)))"
    "bs_entry q nameid \<noteq> pt_slots q" "amount \<le> uint (bs_amount (pt_items q ! bs_entry q nameid))"
    "to_int32 (sale_worth q (index, nameid, amount)) \<le> to_int32 (pt_zenylimit q - zeny)"
    "trade_check_list E sd q (index # seen) sales weight'
       (to_int32 (zeny + to_int32 (sale_worth q (index, nameid, amount))))"
  using assms by (auto simp: Let_def not_less split: if_splits option.splits)

lemma trade_check_spec:
  assumes q: "pt_slots q \<le> length (pt_items q)" "store_fits q" "pt_zenylimit q \<le> MAX_ZENY"
  shows "trade_check_list E sd q seen sales weight zeny \<Longrightarrow> 0 \<le> zeny \<Longrightarrow> zeny \<le> pt_zenylimit q \<Longrightarrow>
    (\<forall>line \<in> set sales. 0 \<le> snd (snd line)) \<Longrightarrow>
    list_all (sound_sale sd q) sales \<and> list_all (wanted_sale q) sales \<and> distinct (map fst sales) \<and>
    set (map fst sales) \<inter> set seen = {} \<and> zeny + worth q sales \<le> pt_zenylimit q"
proof (induction sales arbitrary: seen weight zeny)
  case (Cons line sales)
  obtain index nameid amount where line: "line = (index, nameid, amount)" by (cases line)
  from Cons.prems(1) show ?case
    unfolding line
  proof (rule trade_check_Cons)
    fix weight'
    let ?v = "sale_worth q (index, nameid, amount)"
    assume c: "index \<notin> set seen" "2 \<le> index" "index - 2 < int MAX_INVENTORY"
      "it_nameid (slot sd (nat (index - 2))) = nameid" "amount \<le> it_amount (slot sd (nat (index - 2)))"
      "bs_entry q nameid \<noteq> pt_slots q" "amount \<le> uint (bs_amount (pt_items q ! bs_entry q nameid))"
      and le: "to_int32 ?v \<le> to_int32 (pt_zenylimit q - zeny)"
      and rest: "trade_check_list E sd q (index # seen) sales weight' (to_int32 (zeny + to_int32 ?v))"
    have entry: "bs_entry q nameid < pt_slots q" using c(6) bs_entry_le [OF q(1), of nameid] by simp
    have amount: "0 \<le> amount" using Cons.prems(4) by (simp add: line)
    note v = entry_fits [OF q(2) entry q(1) amount c(7), of index]
    have "?v \<le> pt_zenylimit q - zeny"
      using le v Cons.prems(2,3) q(3) by (simp add: to_int32_id MAX_ZENY_def del: sale_worth.simps)
    moreover from this have "to_int32 (zeny + to_int32 ?v) = zeny + ?v"
      using v Cons.prems(2,3) q(3) by (simp add: to_int32_id MAX_ZENY_def del: sale_worth.simps)
    ultimately have "list_all (sound_sale sd q) sales \<and> list_all (wanted_sale q) sales \<and> distinct (map fst sales) \<and> set (map fst sales) \<inter> set (index # seen) = {} \<and>
        zeny + ?v + worth q sales \<le> pt_zenylimit q"
      using Cons.IH [of "index # seen" weight' "zeny + ?v"] rest v(1) Cons.prems(2,4) by simp
    then show "list_all (sound_sale sd q) ((index, nameid, amount) # sales) \<and>
        list_all (wanted_sale q) ((index, nameid, amount) # sales) \<and> distinct (map fst ((index, nameid, amount) # sales)) \<and>
        set (map fst ((index, nameid, amount) # sales)) \<inter> set seen = {} \<and>
        zeny + worth q ((index, nameid, amount) # sales) \<le> pt_zenylimit q"
      using c entry amount v by auto
  qed
qed simp

lemma worth_nonneg: "list_all (sound_sale sd q) sales \<Longrightarrow> 0 \<le> worth q sales"
  by (induction sales) auto

lemma sold_nonneg: "list_all (sound_sale sd q) sales \<Longrightarrow> 0 \<le> sold nid sales"
  by (induction sales) auto

section \<open>The deliveries\<close>

text \<open>Removing from one slot leaves the names in the others.\<close>

lemma delitem_others:
  assumes E: "equip_neutral E" and len: "length (pl_inventory sd) = MAX_INVENTORY" and j: "j < MAX_INVENTORY" "j \<noteq> i"
  shows "it_nameid (slot (snd (pc_delitem E (int i) amount sd)) j) = it_nameid (slot sd j)"
proof -
  let ?f = "\<lambda>it. it\<lparr>it_amount := to_int16 (it_amount it - amount)\<rparr>"
  define sd2 where "sd2 = (set_slot i ?f sd)\<lparr>pl_weight := pl_weight (set_slot i ?f sd) -
      id_weight (the (pl_inventory_data (set_slot i ?f sd) ! i)) * word_of_int amount\<rparr>"
  define sd3 where "sd3 = (if it_equip (slot sd2 i) \<noteq> 0 then ev_unequip E i sd2 else sd2)"
  have len2: "length (pl_inventory sd2) = MAX_INVENTORY" using len by (simp add: sd2_def set_slot_def)
  have two: "it_nameid (slot sd2 j) = it_nameid (slot sd j)" using j by (simp add: sd2_def set_slot_def)
  have worn: "worn_only sd2 sd3" using E by (simp add: sd3_def equip_neutral_def worn_only_refl)
  have three: "it_nameid (slot sd3 j) = it_nameid (slot sd2 j)" using worn_slot(1) [OF worn, of j] len2 j by simp
  have "snd (pc_delitem E (int i) amount sd) \<in> {sd, sd2, (set_slot i (\<lambda>_. zero_item) sd3)
      \<lparr>pl_inventory_data := (pl_inventory_data (set_slot i (\<lambda>_. zero_item) sd3))[i := None]\<rparr>}"
    unfolding pc_delitem_def Let_def sd2_def sd3_def by simp
  with two three j show ?thesis by (auto simp: set_slot_def)
qed

text \<open>The seller's side of a line.\<close>

lemma sale_taken:
  assumes sd: "trader_goods E sd" and E: "equip_neutral E" and i: "2 \<le> index" "index - 2 < int MAX_INVENTORY"
    and amount: "0 \<le> amount" "amount \<le> it_amount (slot sd (nat (index - 2)))" and it': "\<exists>u. it' = (slot sd (nat (index - 2)))\<lparr>it_unique_id := u\<rparr>"
  defines "sd' \<equiv> snd (pc_delitem E (index - 2) amount (set_slot (nat (index - 2)) (\<lambda>_. it') sd))"
  shows "trader_goods E sd'" "pl_zeny sd' = pl_zeny sd"
    "stock nid sd' = stock nid sd - (if it_nameid (slot sd (nat (index - 2))) = nid then amount else 0)"
    "j < MAX_INVENTORY \<Longrightarrow> j \<noteq> nat (index - 2) \<Longrightarrow> it_amount (slot sd' j) = it_amount (slot sd j) \<and> it_nameid (slot sd' j) = it_nameid (slot sd j)"
    "bag_only sd sd'"
proof -
  define i where "i = nat (index - 2)"
  have ii: "index - 2 = int i" "i < MAX_INVENTORY" using i by (simp_all add: i_def)
  obtain u where u: "it' = (slot sd i)\<lparr>it_unique_id := u\<rparr>" using it' by (auto simp: i_def)
  define sd1 where "sd1 = set_slot i (\<lambda>it. it\<lparr>it_unique_id := u\<rparr>) sd"
  have sd1: "set_slot i (\<lambda>_. it') sd = sd1" by (simp add: sd1_def set_slot_def u)
  have inv: "inventory_ok sd" "fresh_bag E sd" using sd by (simp_all add: trader_goods_def)
  note U = unique_id_goods [OF inv(1) ii(2), where u = u, folded sd1_def]
  have len: "length (pl_inventory sd) = MAX_INVENTORY" "length (pl_inventory sd1) = MAX_INVENTORY" using inv by (simp_all add: inventory_lengths sd1_def set_slot_def)
  have one: "inventory_ok sd1" "fresh_bag E sd1" "bag_only sd sd1" "stock nid sd1 = stock nid sd"
    "j < MAX_INVENTORY \<Longrightarrow> it_amount (slot sd1 j) = it_amount (slot sd j)" for nid j
    using U(1) U(2) [where E = E] inv by (simp_all add: same_goods_def)
  have name: "it_nameid (slot sd1 j) = it_nameid (slot sd j)" if "j < MAX_INVENTORY" for j
    using that len ii by (simp add: sd1_def slot_set_slot)
  define sd2 where "sd2 = snd (pc_delitem E (int i) amount sd1)"
  have sd': "sd' = sd2" by (simp add: sd'_def sd2_def ii(1) sd1)
  have other: "it_nameid (slot sd2 j) = it_nameid (slot sd j)" if "j < MAX_INVENTORY" "j \<noteq> i" for j
    using delitem_others [OF E len(2) that, where amount = amount] name that by (simp add: sd2_def)
  have two: "inventory_ok sd2" "fresh_bag E sd2" "bag_only sd1 sd2"
    "stock nid sd2 = stock nid sd1 - (if it_nameid (slot sd1 i) = nid then amount else 0)"
    "j < MAX_INVENTORY \<Longrightarrow> j \<noteq> i \<Longrightarrow> it_amount (slot sd2 j) = it_amount (slot sd1 j)" for nid j
  proof -
    consider "amount = 0" | "0 < amount" using amount by linarith
    then have "inventory_ok sd2 \<and> fresh_bag E sd2 \<and> bag_only sd1 sd2 \<and> stock nid sd2 = stock nid sd1 - (if it_nameid (slot sd1 i) = nid then amount else 0) \<and>
      (j < MAX_INVENTORY \<longrightarrow> j \<noteq> i \<longrightarrow> it_amount (slot sd2 j) = it_amount (slot sd1 j))"
    proof cases
      case 1
      then show ?thesis using one by (simp add: sd2_def pc_delitem_def bag_only_refl)
    next
      case 2
      have "amount \<le> it_amount (slot sd1 i)" using amount one(5) [OF ii(2)] by (simp add: i_def)
      note D = delitem_spec [OF one(1) E ii(2) 2 this, folded sd2_def]
      show ?thesis using D(2,3,4,5) D(6) [OF one(2)] by auto
    qed
    then show "inventory_ok sd2" "fresh_bag E sd2" "bag_only sd1 sd2"
      "stock nid sd2 = stock nid sd1 - (if it_nameid (slot sd1 i) = nid then amount else 0)"
      "j < MAX_INVENTORY \<Longrightarrow> j \<noteq> i \<Longrightarrow> it_amount (slot sd2 j) = it_amount (slot sd1 j)" by simp_all
  qed
  have bag: "bag_only sd sd2" by (rule bag_only_trans [OF one(3) two(3)])
  then show "bag_only sd sd'" by (simp add: sd')
  show "trader_goods E sd'" "pl_zeny sd' = pl_zeny sd" using sd two(1,2) bag_only_simps(3) [OF bag] by (simp_all add: sd' trader_goods_def)
  show "stock nid sd' = stock nid sd - (if it_nameid (slot sd (nat (index - 2))) = nid then amount else 0)"
    using two(4) [of nid] one(4) [of nid] name [OF ii(2)] by (simp add: sd' i_def)
  show "j < MAX_INVENTORY \<Longrightarrow> j \<noteq> nat (index - 2) \<Longrightarrow> it_amount (slot sd' j) = it_amount (slot sd j) \<and> it_nameid (slot sd' j) = it_nameid (slot sd j)"
    using two(5) [of j] one(5) [of j] other [of j] by (simp add: sd' i_def)
qed

text \<open>What a list of sales does to the seller and the buyer.\<close>

definition served :: "bs_env \<Rightarrow> player \<Rightarrow> patron \<Rightarrow> sale list \<Rightarrow> player \<Rightarrow> patron \<Rightarrow> bool" where
  "served E sd q sales sd' q' \<longleftrightarrow> trader_goods E sd' \<and> patron_ok E q' \<and>
     (\<forall>nid. stock nid sd' = stock nid sd - sold nid sales \<and>
        stock nid (pt_sd q) \<le> stock nid (pt_sd q') \<and> stock nid (pt_sd q') \<le> stock nid (pt_sd q) + sold nid sales) \<and>
     pl_zeny sd' = min MAX_ZENY (pl_zeny sd + worth q sales) \<and> pl_zeny (pt_sd q') = pl_zeny (pt_sd q) - worth q sales \<and>
     pt_zenylimit q' = pt_zenylimit q - worth q sales \<and> pt_slots q' = pt_slots q \<and>
     pl_buyingstore (pt_sd q') = pl_buyingstore (pt_sd q) \<and>
     map bs_nameid (pt_items q') = map bs_nameid (pt_items q) \<and> map bs_price (pt_items q') = map bs_price (pt_items q) \<and>
     (\<forall>nid. bs_entry q nid < pt_slots q \<longrightarrow>
        bs_amount (pt_items q' ! bs_entry q nid) = bs_amount (pt_items q ! bs_entry q nid) - word_of_int (sold nid sales))"

lemma getzeny_capped:
  "0 \<le> z \<Longrightarrow> z \<le> MAX_ZENY \<Longrightarrow> 0 \<le> pl_zeny sd \<Longrightarrow> pl_zeny sd \<le> MAX_ZENY \<Longrightarrow>
   snd (pc_getzeny z sd) = sd\<lparr>pl_zeny := min MAX_ZENY (pl_zeny sd + z)\<rparr>"
  by (auto simp: pc_getzeny_def cap_value_def Let_def)

lemma trader_goods_zeny: "trader_goods E sd \<Longrightarrow> 0 \<le> z \<Longrightarrow> z \<le> MAX_ZENY \<Longrightarrow> trader_goods E (sd\<lparr>pl_zeny := z\<rparr>)"
  by (simp add: trader_goods_def zeny_frame)

lemma map_update_same: "f y = f (xs ! i) \<Longrightarrow> map f (xs[i := y]) = map f xs"
  by (metis list_update_id map_update)

lemma getzeny_range: "trader_goods E sd \<Longrightarrow> trader_goods E (snd (pc_getzeny z sd))"
  by (auto simp: pc_getzeny_def cap_value_def Let_def trader_goods_def zeny_frame)

lemma payzeny_range: "trader_goods E sd \<Longrightarrow> trader_goods E (snd (pc_payzeny z sd))"
  by (auto simp: pc_payzeny_def cap_value_def Let_def trader_goods_def zeny_frame)

lemma purse_frame:
  "stock nid (snd (pc_getzeny z sd)) = stock nid sd" "slot (snd (pc_getzeny z sd)) j = slot sd j"
  "stock nid (snd (pc_payzeny z sd)) = stock nid sd"
  "pl_zeny sd = pl_zeny sd0 \<Longrightarrow> pl_zeny (snd (pc_getzeny z sd)) = pl_zeny (snd (pc_getzeny z sd0))"
  "pl_zeny sd = pl_zeny sd0 \<Longrightarrow> pl_zeny (snd (pc_payzeny z sd)) = pl_zeny (snd (pc_payzeny z sd0))"
  by (simp_all add: pc_getzeny_def pc_payzeny_def Let_def zeny_frame)

text \<open>What identifies a player and their store.\<close>

definition same_who :: "player \<Rightarrow> player \<Rightarrow> bool" where
  "same_who sd sd' \<longleftrightarrow> pl_char_id sd' = pl_char_id sd \<and> pl_buyingstore sd' = pl_buyingstore sd"

lemma same_who_bag: "bag_only sd sd' \<Longrightarrow> same_who sd sd'"
  unfolding bag_only_def same_who_def by (cases sd; cases sd') simp

lemma same_who_purse: "same_who sd (snd (pc_getzeny z sd))" "same_who sd (snd (pc_payzeny z sd))"
  by (simp_all add: same_who_def pc_getzeny_def pc_payzeny_def Let_def)

lemma same_who_trans: "same_who sd1 sd2 \<Longrightarrow> same_who sd2 sd3 \<Longrightarrow> same_who sd1 sd3"
  by (simp add: same_who_def)

text \<open>What handing over one line does, whatever its price: the purses change as two calls that may fail.\<close>

fun line_in_bag :: "player \<Rightarrow> sale \<Rightarrow> bool" where
  "line_in_bag sd (index, nameid, amount) \<longleftrightarrow> 2 \<le> index \<and> index - 2 < int MAX_INVENTORY \<and>
     it_nameid (slot sd (nat (index - 2))) = nameid \<and> 0 \<le> amount \<and> amount \<le> it_amount (slot sd (nat (index - 2)))"

lemma trade_deliver_moves:
  assumes sd: "trader_goods E sd" and q: "trader_goods E (pt_sd q)" and E: "equip_neutral E" and bag: "line_in_bag sd (index, nameid, amount)"
    and step: "trade_deliver E (index, nameid, amount) (sd, q) = (sd', q')"
  defines "v \<equiv> to_int32 (sale_worth q (index, nameid, amount))" and "l \<equiv> bs_entry q nameid"
  shows "trader_goods E sd'" "trader_goods E (pt_sd q')" "stock nid sd' = stock nid sd - (if nameid = nid then amount else 0)"
    "stock nid (pt_sd q) \<le> stock nid (pt_sd q')" "stock nid (pt_sd q') \<le> stock nid (pt_sd q) + (if nameid = nid then amount else 0)"
    "pl_zeny sd' = pl_zeny (snd (pc_getzeny v sd))" "pl_zeny (pt_sd q') = pl_zeny (snd (pc_payzeny v (pt_sd q)))"
    "pt_items q' = (pt_items q)[l := (pt_items q ! l)\<lparr>bs_amount := bs_amount (pt_items q ! l) - word_of_int amount\<rparr>]"
    "pt_zenylimit q' = to_int32 (pt_zenylimit q - v)" "pt_slots q' = pt_slots q" "same_who (pt_sd q) (pt_sd q')"
    "j < MAX_INVENTORY \<Longrightarrow> j \<noteq> nat (index - 2) \<Longrightarrow> it_amount (slot sd' j) = it_amount (slot sd j) \<and> it_nameid (slot sd' j) = it_nameid (slot sd j)"
    "same_who sd sd'"
proof -
  let ?i = "nat (index - 2)"
  have s: "2 \<le> index" "index - 2 < int MAX_INVENTORY" "it_nameid (slot sd ?i) = nameid" "0 \<le> amount" "amount \<le> it_amount (slot sd ?i)"
    using bag by simp_all
  obtain r pl_sd it' where add: "pc_additem E (slot sd ?i) amount False (pt_sd q) = (r, pl_sd, it')"
    by (cases "pc_additem E (slot sd ?i) amount False (pt_sd q)") auto
  define sd1 where "sd1 = snd (pc_delitem E (index - 2) amount (set_slot ?i (\<lambda>_. it') sd))"
  define e where "e = pt_items q ! l"
  have sd': "sd' = snd (pc_getzeny v sd1)" and
    q': "q' = (on_sd (\<lambda>_. snd (pc_payzeny v pl_sd)) (q\<lparr>pt_items := (pt_items q)[l := e\<lparr>bs_amount := bs_amount e - word_of_int amount\<rparr>]\<rparr>))
       \<lparr>pt_zenylimit := to_int32 (pt_zenylimit q - v)\<rparr>"
    using step by (simp_all add: trade_deliver_def Let_def add v_def sd1_def e_def l_def)
  have buyer: "inventory_ok (pt_sd q)" "fresh_bag E (pt_sd q)" using q by (simp_all add: trader_goods_def)
  have fresh: "fresh_item E (slot sd ?i)" using sd s(1,2) by (simp add: trader_goods_def fresh_bag_def)
  note A = additem_spec [OF buyer(1) E fresh add]
  have zeny: "pl_zeny pl_sd = pl_zeny (pt_sd q)" using bag_only_simps(3) [OF A(5)] .
  have goods: "trader_goods E pl_sd" using A(3) [OF buyer(2)] A(4) zeny q by (simp add: trader_goods_def)
  have stocks: "stock nid (pt_sd q) \<le> stock nid pl_sd \<and> stock nid pl_sd \<le> stock nid (pt_sd q) + (if nameid = nid then amount else 0)"
    using A(1,2) s(3,4) by (cases "r = ADDITEM_SUCCESS") (auto simp: gained_def same_goods_def)
  note T = sale_taken [OF sd E s(1,2,4,5) A(6), folded sd1_def]
  show "trader_goods E sd'" "trader_goods E (pt_sd q')"
    using getzeny_range [OF T(1)] payzeny_range [OF goods] by (simp_all add: sd' q' on_sd_def)
  show "stock nid sd' = stock nid sd - (if nameid = nid then amount else 0)" using T(3) [of nid] s(3) by (simp add: sd' purse_frame)
  show "stock nid (pt_sd q) \<le> stock nid (pt_sd q')" "stock nid (pt_sd q') \<le> stock nid (pt_sd q) + (if nameid = nid then amount else 0)"
    using stocks by (simp_all add: q' on_sd_def purse_frame)
  show "pl_zeny sd' = pl_zeny (snd (pc_getzeny v sd))" "pl_zeny (pt_sd q') = pl_zeny (snd (pc_payzeny v (pt_sd q)))"
    using purse_frame(4) [OF T(2)] purse_frame(5) [OF zeny] by (simp_all add: sd' q' on_sd_def)
  show "pt_items q' = (pt_items q)[l := (pt_items q ! l)\<lparr>bs_amount := bs_amount (pt_items q ! l) - word_of_int amount\<rparr>]"
    "pt_zenylimit q' = to_int32 (pt_zenylimit q - v)" "pt_slots q' = pt_slots q" by (simp_all add: q' on_sd_def e_def)
  show "same_who (pt_sd q) (pt_sd q')" using same_who_trans [OF same_who_bag [OF A(5)] same_who_purse(2)] by (simp add: q' on_sd_def)
  show "same_who sd sd'" unfolding sd' by (rule same_who_trans [OF same_who_bag [OF T(5)] same_who_purse(1)])
  show "j < MAX_INVENTORY \<Longrightarrow> j \<noteq> ?i \<Longrightarrow> it_amount (slot sd' j) = it_amount (slot sd j) \<and> it_nameid (slot sd' j) = it_nameid (slot sd j)"
    using T(4) [of j] by (simp add: sd' purse_frame)
qed

lemma servedD:
  assumes "served E sd q sales sd' q'"
  shows "trader_goods E sd'" "patron_ok E q'" "stock nid sd' = stock nid sd - sold nid sales"
    "stock nid (pt_sd q) \<le> stock nid (pt_sd q')" "stock nid (pt_sd q') \<le> stock nid (pt_sd q) + sold nid sales"
    "pl_zeny sd' = min MAX_ZENY (pl_zeny sd + worth q sales)" "pl_zeny (pt_sd q') = pl_zeny (pt_sd q) - worth q sales"
    "pt_zenylimit q' = pt_zenylimit q - worth q sales" "pt_slots q' = pt_slots q"
    "map bs_nameid (pt_items q') = map bs_nameid (pt_items q)" "map bs_price (pt_items q') = map bs_price (pt_items q)"
    "bs_entry q nid < pt_slots q \<Longrightarrow>
       bs_amount (pt_items q' ! bs_entry q nid) = bs_amount (pt_items q ! bs_entry q nid) - word_of_int (sold nid sales)"
    "pl_buyingstore (pt_sd q') = pl_buyingstore (pt_sd q)"
  using assms unfolding served_def by simp_all

lemma servedI:
  assumes "trader_goods E sd'" "patron_ok E q'" "\<And>nid. stock nid sd' = stock nid sd - sold nid sales"
    "\<And>nid. stock nid (pt_sd q) \<le> stock nid (pt_sd q')" "\<And>nid. stock nid (pt_sd q') \<le> stock nid (pt_sd q) + sold nid sales"
    "pl_zeny sd' = min MAX_ZENY (pl_zeny sd + worth q sales)" "pl_zeny (pt_sd q') = pl_zeny (pt_sd q) - worth q sales"
    "pt_zenylimit q' = pt_zenylimit q - worth q sales" "pt_slots q' = pt_slots q"
    "map bs_nameid (pt_items q') = map bs_nameid (pt_items q)" "map bs_price (pt_items q') = map bs_price (pt_items q)"
    "\<And>nid. bs_entry q nid < pt_slots q \<Longrightarrow>
       bs_amount (pt_items q' ! bs_entry q nid) = bs_amount (pt_items q ! bs_entry q nid) - word_of_int (sold nid sales)"
    "pl_buyingstore (pt_sd q') = pl_buyingstore (pt_sd q)"
  shows "served E sd q sales sd' q'"
  unfolding served_def using assms by blast

lemma sale_sums:
  "worth q (line # sales) = worth q [line] + worth q sales" "sold nid (line # sales) = sold nid [line] + sold nid sales"
  by (simp, cases line, simp)

lemma trade_deliver_spec:
  assumes sd: "trader_goods E sd" and q: "patron_ok E q" and E: "equip_neutral E" and sound: "sound_sale sd q (index, nameid, amount)"
    and pays: "sale_worth q (index, nameid, amount) \<le> pl_zeny (pt_sd q)" "sale_worth q (index, nameid, amount) \<le> pt_zenylimit q"
    and step: "trade_deliver E (index, nameid, amount) (sd, q) = (sd', q')"
  shows "served E sd q [(index, nameid, amount)] sd' q'"
    "j < MAX_INVENTORY \<Longrightarrow> j \<noteq> nat (index - 2) \<Longrightarrow> it_amount (slot sd' j) = it_amount (slot sd j) \<and> it_nameid (slot sd' j) = it_nameid (slot sd j)"
proof -
  let ?l = "bs_entry q nameid"
  define v where "v = sale_worth q (index, nameid, amount)"
  note pay = pays [folded v_def]
  have s: "?l < pt_slots q" "0 \<le> v" "v \<le> MAX_ZENY" "line_in_bag sd (index, nameid, amount)" using sound by (simp_all add: v_def)
  have v: "to_int32 v = v" "to_int32 (pt_zenylimit q - v) = pt_zenylimit q - v"
    using s(2,3) q pay(2) to_int32_id [of v] to_int32_id [of "pt_zenylimit q - v"] by (simp_all add: patron_ok_def MAX_ZENY_def)
  have buyer: "trader_goods E (pt_sd q)" "pl_zeny (pt_sd q) \<le> MAX_ZENY" "0 \<le> pl_zeny sd" "pl_zeny sd \<le> MAX_ZENY"
    using q sd by (simp_all add: patron_ok_def trader_goods_def)
  note M = trade_deliver_moves [OF sd buyer(1) E s(4) step, folded v_def, unfolded v]
  have len: "length (pt_items q) = MAX_BUYINGSTORE_SLOTS" "pt_slots q \<le> length (pt_items q)" using q by (simp_all add: patron_ok_def)
  have zeny: "pl_zeny sd' = min MAX_ZENY (pl_zeny sd + v)" "pl_zeny (pt_sd q') = pl_zeny (pt_sd q) - v"
    using M(6,7) getzeny_capped [OF s(2,3) buyer(3,4)] purse_exact(1) [OF s(2) pay(1) buyer(2)] by simp_all
  show "served E sd q [(index, nameid, amount)] sd' q'"
  proof (rule servedI)
    show "trader_goods E sd'" by (rule M(1))
    show "patron_ok E q'" using M(2,8,9,10) q s(2) pay(2) by (simp add: patron_ok_def)
    show "map bs_nameid (pt_items q') = map bs_nameid (pt_items q)" "map bs_price (pt_items q') = map bs_price (pt_items q)"
      by (simp_all add: M(8) map_update_same)
    show "bs_amount (pt_items q' ! bs_entry q nid) = bs_amount (pt_items q ! bs_entry q nid) - word_of_int (sold nid [(index, nameid, amount)])"
      if "bs_entry q nid < pt_slots q" for nid
    proof (cases "nameid = nid")
      case False
      then have "bs_entry q nid \<noteq> ?l" using bs_entry_name [OF len(2) that] bs_entry_name [OF len(2) s(1)] by auto
      with False show ?thesis by (simp add: M(8))
    next
      case True
      with s(1) len show ?thesis by (simp add: M(8))
    qed
  qed (use M(3,4,5,9,10,11) zeny in \<open>simp_all add: v_def same_who_def\<close>)
  show "j < MAX_INVENTORY \<Longrightarrow> j \<noteq> nat (index - 2) \<Longrightarrow> it_amount (slot sd' j) = it_amount (slot sd j) \<and> it_nameid (slot sd' j) = it_nameid (slot sd j)"
    by (rule M(12))
qed

lemma served_refl: "trader_goods E sd \<Longrightarrow> patron_ok E q \<Longrightarrow> served E sd q [] sd q"
  by (simp add: served_def trader_goods_def)

lemma served_worth:
  assumes "served E sd q sales sd' q'" "patron_ok E q" "list_all (sound_sale sd q) lines"
  shows "worth q' lines = worth q lines"
proof -
  have q': "map bs_nameid (pt_items q') = map bs_nameid (pt_items q)" "pt_slots q' = pt_slots q"
    "map bs_price (pt_items q') = map bs_price (pt_items q)" using assms(1) by (simp_all add: served_def)
  note entry = bs_entry_cong [OF q'(1,2)]
  have len: "length (pt_items q') = length (pt_items q)" "pt_slots q \<le> length (pt_items q)"
    using map_eq_imp_length_eq [OF q'(1)] assms(2) by (simp_all add: patron_ok_def)
  have "bs_price (pt_items q' ! l) = bs_price (pt_items q ! l)" if "l < pt_slots q" for l
    using arg_cong [OF q'(3), of "\<lambda>xs. xs ! l"] that len by simp
  with entry have "sale_worth q' line = sale_worth q line" if "sound_sale sd q line" for line
    using that by (cases line) simp
  with assms(3) show ?thesis by (simp add: worth_def list_all_iff cong: map_cong)
qed

lemma served_trans:
  assumes one: "served E sd q [line] sd1 q1" and two: "served E sd1 q1 sales sd2 q2"
    and worth: "worth q1 sales = worth q sales" "0 \<le> worth q sales"
  shows "served E sd q (line # sales) sd2 q2"
proof (rule servedI)
  note A = servedD [OF one] and B = servedD [OF two]
  note sums = sale_sums(1) [of q line sales] sale_sums(2) [of _ line sales]
  show "trader_goods E sd2" "patron_ok E q2" by (rule B(1), rule B(2))
  show "stock nid sd2 = stock nid sd - sold nid (line # sales)" for nid
    using A(3) [of nid] B(3) [of nid] unfolding sums by linarith
  show "stock nid (pt_sd q) \<le> stock nid (pt_sd q2)" for nid by (rule order_trans [OF A(4) B(4)])
  show "stock nid (pt_sd q2) \<le> stock nid (pt_sd q) + sold nid (line # sales)" for nid
    using A(5) [of nid] B(5) [of nid] unfolding sums by linarith
  show "pl_zeny sd2 = min MAX_ZENY (pl_zeny sd + worth q (line # sales))"
    using A(6) B(6) worth unfolding sums by (simp add: min_def)
  show "pl_zeny (pt_sd q2) = pl_zeny (pt_sd q) - worth q (line # sales)" "pt_zenylimit q2 = pt_zenylimit q - worth q (line # sales)"
    using A(7,8) B(7,8) worth unfolding sums by simp_all
  show "pt_slots q2 = pt_slots q" "map bs_nameid (pt_items q2) = map bs_nameid (pt_items q)"
    "map bs_price (pt_items q2) = map bs_price (pt_items q)" using A(9-11) B(9-11) by simp_all
  show "bs_amount (pt_items q2 ! bs_entry q nid) = bs_amount (pt_items q ! bs_entry q nid) - word_of_int (sold nid (line # sales))"
    if "bs_entry q nid < pt_slots q" for nid
  proof -
    have same: "bs_entry q1 nid = bs_entry q nid" by (rule bs_entry_cong [OF A(10,9)])
    have "bs_amount (pt_items q2 ! bs_entry q nid) = bs_amount (pt_items q1 ! bs_entry q nid) - word_of_int (sold nid sales)"
      using B(12) [of nid] that unfolding same A(9) by simp
    then show ?thesis unfolding A(12) [OF that] sums of_int_add by simp
  qed
  show "pl_buyingstore (pt_sd q2) = pl_buyingstore (pt_sd q)" using A(13) B(13) by simp
qed

lemma trade_deliver_all:
  assumes E: "equip_neutral E"
  shows "trader_goods E sd \<Longrightarrow> patron_ok E q \<Longrightarrow> list_all (sound_sale sd q) sales \<Longrightarrow> distinct (map fst sales) \<Longrightarrow>
    worth q sales \<le> pl_zeny (pt_sd q) \<Longrightarrow> worth q sales \<le> pt_zenylimit q \<Longrightarrow>
    fold (trade_deliver E) sales (sd, q) = (sd', q') \<Longrightarrow> served E sd q sales sd' q'"
proof (induction sales arbitrary: sd q)
  case Nil
  then show ?case by (simp add: served_refl)
next
  case (Cons line sales)
  obtain index nameid amount where line: "line = (index, nameid, amount)" by (cases line)
  obtain sd1 q1 where step: "trade_deliver E (index, nameid, amount) (sd, q) = (sd1, q1)" by fastforce
  have sound: "sound_sale sd q (index, nameid, amount)" "list_all (sound_sale sd q) sales" using Cons.prems(3) by (simp_all add: line)
  note nonneg = worth_nonneg [OF sound(2)] sold_nonneg [OF sound(2)]
  have first: "0 \<le> sale_worth q (index, nameid, amount)" using sound(1) by simp
  have pays: "sale_worth q (index, nameid, amount) \<le> pl_zeny (pt_sd q)" "sale_worth q (index, nameid, amount) \<le> pt_zenylimit q"
    using Cons.prems(5,6) nonneg(1) by (simp_all add: line)
  note S = trade_deliver_spec [OF Cons.prems(1,2) E sound(1) pays step]
  note same = served_worth [OF S(1) Cons.prems(2) sound(2)]
  have entry: "bs_entry q1 nid = bs_entry q nid" for nid using S(1) by (intro bs_entry_cong) (simp_all add: served_def)
  have rest: "list_all (sound_sale sd1 q1) sales"
  proof (unfold list_all_iff, rule ballI)
    fix l
    assume l: "l \<in> set sales"
    obtain i n m where lin: "l = (i, n, m)" by (cases l)
    have ok: "sound_sale sd q (i, n, m)" using l sound(2) unfolding list_all_iff lin by (rule bspec [rotated])
    have "i \<noteq> index" using Cons.prems(4) l by (force simp: line lin)
    then have other: "nat (i - 2) < MAX_INVENTORY" "nat (i - 2) \<noteq> nat (index - 2)" using ok sound(1) by (auto simp: nat_less_iff)
    have "worth q1 [l] = worth q [l]" using ok by (intro served_worth [OF S(1) Cons.prems(2)]) (simp add: lin)
    then have worth1: "sale_worth q1 (i, n, m) = sale_worth q (i, n, m)" by (simp add: lin del: sale_worth.simps)
    then show "sound_sale sd1 q1 l"
      using ok S(2) [OF other] servedD(9) [OF S(1)] unfolding lin sound_sale.simps worth1 entry [of n] by metis
  qed
  have ok1: "trader_goods E sd1" "patron_ok E q1" "worth q1 sales \<le> pl_zeny (pt_sd q1)" "worth q1 sales \<le> pt_zenylimit q1"
    using S(1) Cons.prems(5,6) same by (simp_all add: served_def line del: sale_worth.simps)
  have "served E sd1 q1 sales sd' q'"
    using Cons.IH [OF ok1(1,2) rest _ ok1(3,4)] Cons.prems(4,7) step by (simp add: line)
  then show ?case unfolding line by (rule served_trans [OF S(1) _ same nonneg(1)])
qed

end
