(* ===== verification/Plaza.thy ===== *)
theory Plaza
  imports Purveyor
begin

text \<open>
  What players may rely on when they sell to a buying store, and where they may not: the sale is exact while
  the prices fit, and creates zeny when they do not.
\<close>

section \<open>A sale\<close>

lemma put_patron_simps [simp]:
  "pz_players (put_patron a p W) = (pz_players W)(a := Some p)" "pz_db (put_patron a p W) = pz_db W"
  "pz_nextid (put_patron a p W) = pz_nextid W"
  by (simp_all add: put_patron_def)

lemma on_sd_simps [simp]:
  "pt_sd (on_sd f p) = f (pt_sd p)" "pt_items (on_sd f p) = pt_items p" "pt_slots (on_sd f p) = pt_slots p"
  "pt_zenylimit (on_sd f p) = pt_zenylimit p" "pt_buyer_id (on_sd f p) = pt_buyer_id p"
  by (simp_all add: on_sd_def)

lemma clear_remote_simps [simp]:
  "pt_sd (clear_remote p) = pt_sd p" "pt_items (clear_remote p) = pt_items p" "pt_slots (clear_remote p) = pt_slots p"
  "pt_zenylimit (clear_remote p) = pt_zenylimit p" "pt_buyer_id (clear_remote p) = pt_buyer_id p"
  by (simp_all add: clear_remote_def searchstore_clearremote_def)

lemma fix_limit_simps [simp]:
  "pt_sd (fix_limit q) = pt_sd q" "pt_items (fix_limit q) = pt_items q" "pt_slots (fix_limit q) = pt_slots q"
  "pt_buyer_id (fix_limit q) = pt_buyer_id q" "pt_zenylimit (fix_limit q) = min (pl_zeny (pt_sd q)) (pt_zenylimit q)"
  by (simp_all add: fix_limit_def)

text \<open>A store with nothing left to buy, or no limit left, is closed.\<close>

definition settled :: "patron \<Rightarrow> patron" where
  "settled q = (if list_all (\<lambda>e. bs_amount e = 0) (take (pt_slots q) (pt_items q)) \<or> pt_zenylimit q = 0
     then closed_store q else q)"

lemma arr_find_all: "arr_find P xs = length xs \<longleftrightarrow> list_all (\<lambda>x. \<not> P x) xs"
  by (induction xs) auto

lemma close_satisfied_players:
  assumes "pz_players W b = Some q" "pl_buyingstore (pt_sd q)" "pt_slots q \<le> length (pt_items q)"
  shows "pz_players (close_satisfied b W) = (pz_players W)(b := Some (settled q))"
proof -
  have "arr_find (\<lambda>e. bs_amount e \<noteq> 0) (take (pt_slots q) (pt_items q)) = pt_slots q \<longleftrightarrow>
      list_all (\<lambda>e. bs_amount e = 0) (take (pt_slots q) (pt_items q))"
    using arr_find_all [of "\<lambda>e. bs_amount e \<noteq> 0" "take (pt_slots q) (pt_items q)"] assms(3) by simp
  moreover have "(pz_players W)(b := Some q) = pz_players W" using assms(1) by auto
  ultimately show ?thesis using assms(1,2) by (simp add: close_satisfied_def settled_def buyingstore_close_def Let_def)
qed

text \<open>A sale request is refused, passes the first checks and not the list's, or is carried out.\<close>

lemma trade_cases:
  fixes data :: "(uint16 \<times> uint32 \<times> uint16) list" and buyer_id :: uint32
  assumes "pz_players W a = Some p" "pz_players W b = Some q"
  defines "W1 \<equiv> put_patron b (fix_limit q) (put_patron a (clear_remote p) W)" and "sales \<equiv> map read_sale data"
  obtains (refused) "buyingstore_trade E a b buyer_id data W \<in> {W, W1}"
  | (sold) sd q' where "a \<noteq> b" "pl_buyingstore (pt_sd q)" "sales \<noteq> []"
      "trade_check_list E (pt_sd p) (fix_limit q) [] sales (pl_weight (pt_sd q)) 0"
      "fold (trade_deliver E) sales (pt_sd p, fix_limit q) = (sd, q')"
      "buyingstore_trade E a b buyer_id data W =
         close_satisfied b (put_patron b q' (put_patron a (on_sd (\<lambda>_. sd) (clear_remote p)) W1))"
proof (cases "buyingstore_trade E a b buyer_id data W \<in> {W, W1}")
  case False
  obtain sd q' where fold: "fold (trade_deliver E) sales (pt_sd p, fix_limit q) = (sd, q')" by fastforce
  from False assms(1,2) have ok: "data \<noteq> []" "\<not> pc_istrading (pt_sd p)" "pl_buyingstore (pt_sd q)"
    "trade_check_list E (pt_sd p) (fix_limit q) [] sales (pl_weight (pt_sd q)) 0"
    "buyingstore_trade E a b buyer_id data W =
       close_satisfied b (put_patron b q' (put_patron a (on_sd (\<lambda>_. sd) (clear_remote p)) W1))"
    using fold by (auto simp: buyingstore_trade_def W1_def [symmetric] sales_def Let_def split: if_splits)
  then have "a \<noteq> b" using assms(1,2) by (auto simp: pc_istrading_def)
  with sold ok fold show ?thesis by (simp add: sales_def)
qed (use refused in blast)

text \<open>
  A fair deal: every line names another slot of the seller and what is in it, and no more than the entry asks
  for; the price of them all is within the buyer's limit and purse; the seller loses exactly the lines' goods
  and is paid their price, up to what a purse holds; the buyer pays exactly the price and gets of every item
  at most what was sold; the entries are reduced by it, and a store with nothing left to buy is closed.
\<close>

definition fair_deal :: "bs_env \<Rightarrow> patron \<Rightarrow> patron \<Rightarrow> sale list \<Rightarrow> patron \<Rightarrow> patron \<Rightarrow> bool" where
  "fair_deal E p q sales p' q' \<longleftrightarrow>
     list_all (sound_sale (pt_sd p) q) sales \<and> list_all (wanted_sale q) sales \<and> distinct (map fst sales) \<and>
     0 \<le> worth q sales \<and> worth q sales \<le> pt_zenylimit q \<and> worth q sales \<le> pl_zeny (pt_sd q) \<and>
     (\<exists>q1. served E (pt_sd p) (fix_limit q) sales (pt_sd p') q1 \<and> q' = settled q1)"

lemma fix_limit_same:
  "bs_entry (fix_limit q) = bs_entry q" "sale_worth (fix_limit q) = sale_worth q" "worth (fix_limit q) = worth q"
  "sound_sale sd (fix_limit q) = sound_sale sd q" "wanted_sale (fix_limit q) = wanted_sale q" "store_fits (fix_limit q) = store_fits q"
proof -
  show e: "bs_entry (fix_limit q) = bs_entry q" by (simp add: bs_entry_def fun_eq_iff)
  show v: "sale_worth (fix_limit q) = sale_worth q" using e by (auto simp: fun_eq_iff)
  show "worth (fix_limit q) = worth q" unfolding worth_def v ..
  show "sound_sale sd (fix_limit q) = sound_sale sd q" "wanted_sale (fix_limit q) = wanted_sale q"
    using e by (auto simp: fun_eq_iff)
  show "store_fits (fix_limit q) = store_fits q" by (simp add: store_fits_def)
qed

lemma read_sale_nonneg: "line \<in> set (map read_sale data) \<Longrightarrow> 0 \<le> snd (snd line)"
  by (auto simp: read_sale_def)

lemma deal_fair:
  assumes p: "trader_goods E (pt_sd p)" and q: "patron_ok E q" "store_fits q" and E: "equip_neutral E"
    and check: "trade_check_list E (pt_sd p) (fix_limit q) [] sales w 0" and lines: "\<forall>line \<in> set sales. 0 \<le> snd (snd line)"
    and deliver: "fold (trade_deliver E) sales (pt_sd p, fix_limit q) = (sd, q1)"
  shows "list_all (sound_sale (pt_sd p) q) sales \<and> list_all (wanted_sale q) sales \<and> distinct (map fst sales) \<and>
     0 \<le> worth q sales \<and> worth q sales \<le> pt_zenylimit q \<and> worth q sales \<le> pl_zeny (pt_sd q) \<and>
     served E (pt_sd p) (fix_limit q) sales sd q1"
proof -
  let ?q = "fix_limit q"
  have ok: "patron_ok E ?q" using q(1) by (auto simp: patron_ok_def trader_goods_def)
  then have fields: "pt_slots ?q \<le> length (pt_items ?q)" "0 \<le> pt_zenylimit ?q" "pt_zenylimit ?q \<le> MAX_ZENY"
    unfolding patron_ok_def by simp_all
  have C: "list_all (sound_sale (pt_sd p) q) sales" "list_all (wanted_sale q) sales" "distinct (map fst sales)"
    "worth q sales \<le> pt_zenylimit ?q"
    using trade_check_spec [of ?q E "pt_sd p" "[]" sales w 0] fields q(2) check lines by (simp_all add: fix_limit_same)
  have "served E (pt_sd p) ?q sales sd q1"
    using trade_deliver_all [OF E p ok _ C(3) _ _ deliver] C by (simp add: fix_limit_same)
  then show ?thesis using C worth_nonneg [OF C(1)] by simp
qed


section \<open>Zeny from nothing\<close>

text \<open>Handing over a line changes no name and no price, so the lines after it are worth what they were.\<close>

lemma deliver_worth:
  assumes "pt_items q' = (pt_items q)[l := (pt_items q ! l)\<lparr>bs_amount := n\<rparr>]" "pt_slots q' = pt_slots q"
    and "pt_slots q \<le> length (pt_items q)" "bs_entry q nameid < pt_slots q"
  shows "sale_worth q' (index, nameid, amount) = sale_worth q (index, nameid, amount)"
proof -
  have "map bs_nameid (pt_items q') = map bs_nameid (pt_items q)" by (simp add: assms(1) map_update_same)
  note entry = bs_entry_cong [OF this assms(2), of nameid]
  have "bs_price (pt_items q' ! k) = bs_price (pt_items q ! k)" if "k < length (pt_items q)" for k
    using that by (cases "k = l") (simp_all add: assms(1))
  with entry assms(3,4) show ?thesis by simp
qed

text \<open>The price of the first line is negative in 32 bits: nothing is paid for it, and it makes room for the second,
  which the buyer cannot pay and the seller is paid nevertheless.\<close>

lemma overflowing_lines:
  assumes goods: "trader_goods E sd" "trader_goods E (pt_sd q)" and E: "equip_neutral E" and len: "pt_slots q \<le> length (pt_items q)"
    and check: "trade_check_list E sd q [] [(i1, n1, m1), (i2, n2, m2)] w z" and nonneg: "0 \<le> m1" "0 \<le> m2"
    and deliver: "fold (trade_deliver E) [(i1, n1, m1), (i2, n2, m2)] (sd, q) = (sd2, q2)"
    and first: "to_int32 (sale_worth q (i1, n1, m1)) < 0"
    and second: "pl_zeny (pt_sd q) < to_int32 (sale_worth q (i2, n2, m2))" "pl_zeny sd + to_int32 (sale_worth q (i2, n2, m2)) \<le> MAX_ZENY"
  shows "pl_zeny sd2 = pl_zeny sd + to_int32 (sale_worth q (i2, n2, m2))" "pl_zeny (pt_sd q2) = pl_zeny (pt_sd q)"
    "pl_buyingstore (pt_sd q2) = pl_buyingstore (pt_sd q)" "pt_slots q2 = pt_slots q" "length (pt_items q2) = length (pt_items q)"
proof -
  obtain w' z' where one: "line_in_bag sd (i1, n1, m1)" and rest: "trade_check_list E sd q [i1] [(i2, n2, m2)] w' z'"
    using check by (rule trade_check_Cons) (use nonneg(1) that in simp)
  have two: "line_in_bag sd (i2, n2, m2)" "i2 \<noteq> i1" "bs_entry q n2 < pt_slots q"
    using rest by (rule trade_check_Cons; use nonneg(2) bs_entry_le [OF len, of n2] in simp)+
  obtain sd1 q1 where step: "trade_deliver E (i1, n1, m1) (sd, q) = (sd1, q1)" and step2: "trade_deliver E (i2, n2, m2) (sd1, q1) = (sd2, q2)"
    using deliver by (cases "trade_deliver E (i1, n1, m1) (sd, q)") auto
  note M = trade_deliver_moves [OF goods E one step]
  have other: "nat (i2 - 2) < MAX_INVENTORY" "nat (i2 - 2) \<noteq> nat (i1 - 2)" using one two by (auto simp: nat_less_iff)
  have bag: "line_in_bag sd1 (i2, n2, m2)" using two(1) M(12) [OF other] by simp
  have same: "sale_worth q1 (i2, n2, m2) = sale_worth q (i2, n2, m2)" by (rule deliver_worth [OF M(8,10) len two(3)])
  note N = trade_deliver_moves [OF M(1,2) E bag step2, unfolded same]
  let ?v = "to_int32 (sale_worth q (i2, n2, m2))"
  have v: "0 \<le> pl_zeny sd" "0 \<le> pl_zeny (pt_sd q)" "?v \<le> MAX_ZENY" using goods second by (simp_all add: trader_goods_def)
  have unpaid: "pl_zeny sd1 = pl_zeny sd" "pl_zeny (pt_sd q1) = pl_zeny (pt_sd q)"
    using first M(6,7) by (simp_all add: pc_getzeny_def pc_payzeny_def cap_value_def Let_def MAX_ZENY_def del: sale_worth.simps split: if_splits)
  have pos: "0 \<le> ?v" using second(1) v(2) by linarith
  show "pl_zeny sd2 = pl_zeny sd + ?v"
    using N(6) unpaid(1) getzeny_capped [OF pos v(3), of sd1] v(1) second pos by (simp del: sale_worth.simps)
  show "pl_zeny (pt_sd q2) = pl_zeny (pt_sd q)"
    using N(7) unpaid(2) second(1) v(3) pos by (simp add: pc_payzeny_def cap_value_def Let_def MAX_ZENY_def del: sale_worth.simps)
  show "pl_buyingstore (pt_sd q2) = pl_buyingstore (pt_sd q)" "pt_slots q2 = pt_slots q" "length (pt_items q2) = length (pt_items q)"
    using M(8,10,11) N(8,10,11) by (simp_all add: same_who_def)
qed

text \<open>C7: zeny from nothing. The price of a line is multiplied in 32 bits. If it comes out negative, the sum of the
  checks goes below zero and the next line passes whatever it costs: the seller is paid for that line in full, and
  the buyer, who does not have the zeny, pays nothing.\<close>

theorem zeny_from_nothing:
  fixes data :: "(uint16 \<times> uint32 \<times> uint16) list"
  assumes players: "pz_players W a = Some p" "pz_players W b = Some q"
    and goods: "trader_goods E (pt_sd p)" "trader_goods E (pt_sd q)" and E: "equip_neutral E" and len: "pt_slots q \<le> length (pt_items q)"
    and shop: "be_feature E" "\<not> pc_istrading (pt_sd p)" "pc_can_give_items (pt_sd p)" "pl_buyingstore (pt_sd q)"
      "pl_m (pt_sd p) = pl_m (pt_sd q)" "ve_near E a b"
    and sales: "map read_sale data = [(i1, n1, m1), (i2, n2, m2)]"
    and check: "trade_check_list E (pt_sd p) (fix_limit q) [] [(i1, n1, m1), (i2, n2, m2)] (pl_weight (pt_sd q)) 0"
    and first: "to_int32 (sale_worth q (i1, n1, m1)) < 0"
    and second: "pl_zeny (pt_sd q) < to_int32 (sale_worth q (i2, n2, m2))" "pl_zeny (pt_sd p) + to_int32 (sale_worth q (i2, n2, m2)) \<le> MAX_ZENY"
  shows "\<exists>p' q'. pz_players (buyingstore_trade E a b (pt_buyer_id q) data W) = (pz_players W)(a := Some p', b := Some q') \<and>
    pl_zeny (pt_sd p') = pl_zeny (pt_sd p) + to_int32 (sale_worth q (i2, n2, m2)) \<and> pl_zeny (pt_sd q') = pl_zeny (pt_sd q)"
proof -
  let ?sales = "[(i1, n1, m1), (i2, n2, m2)]"
  obtain sd q2 where deliver: "fold (trade_deliver E) ?sales (pt_sd p, fix_limit q) = (sd, q2)" by fastforce
  have nonneg: "0 \<le> m1" "0 \<le> m2"
    using read_sale_nonneg [of "(i1, n1, m1)" data] read_sale_nonneg [of "(i2, n2, m2)" data] unfolding sales by simp_all
  have "data \<noteq> []" "a \<noteq> b" using sales players shop(2,4) by (auto simp: pc_istrading_def)
  define W3 where "W3 = put_patron b q2 (put_patron a (on_sd (\<lambda>_. sd) (clear_remote p)) (put_patron b (fix_limit q) (put_patron a (clear_remote p) W)))"
  have trade: "buyingstore_trade E a b (pt_buyer_id q) data W = close_satisfied b W3"
    using players shop check deliver \<open>data \<noteq> []\<close> unfolding buyingstore_trade_def sales W3_def by (simp add: Let_def del: trade_check_list.simps fold_simps)
  have len1: "pt_slots (fix_limit q) \<le> length (pt_items (fix_limit q))" using len by simp
  have goods1: "trader_goods E (pt_sd (fix_limit q))" using goods by simp
  note O = overflowing_lines [OF goods(1) goods1 E len1 check nonneg deliver]
  have O: "pl_zeny sd = pl_zeny (pt_sd p) + to_int32 (sale_worth q (i2, n2, m2))" "pl_zeny (pt_sd q2) = pl_zeny (pt_sd q)"
    "pl_buyingstore (pt_sd q2)" "pt_slots q2 \<le> length (pt_items q2)"
    using O first second shop(4) len unfolding fix_limit_same fix_limit_simps by (simp_all del: sale_worth.simps)
  have "pz_players (close_satisfied b W3) = (pz_players W)(a := Some (on_sd (\<lambda>_. sd) (clear_remote p)), b := Some (settled q2))"
    using close_satisfied_players [OF _ O(3,4), of W3 b] \<open>a \<noteq> b\<close> by (simp add: W3_def fun_upd_twist)
  then show ?thesis using O unfolding trade by (intro exI [of _ "on_sd (\<lambda>_. sd) (clear_remote p)"] exI [of _ "settled q2"]) (simp add: settled_def closed_store_def)
qed

section \<open>The properties at work\<close>

definition sample_bs_env :: bs_env where
  "sample_bs_env = vend_env.extend sample_vend_env (bs_env.fields True (\<lambda>_. False) (\<lambda>_. False) (\<lambda>_. False) (\<lambda>_. True) 90)"

definition herbs :: item where "herbs = zero_item\<lparr>it_nameid := 501, it_amount := 22\<rparr>"
definition roots :: item where "roots = zero_item\<lparr>it_nameid := 600, it_amount := 19\<rparr>"

definition patron_of :: "player \<Rightarrow> s_buyingstore_item list \<Rightarrow> int \<Rightarrow> nat \<Rightarrow> patron" where
  "patron_of sd items limit slots = \<lparr>pt_mc = merchant_of (sample_holder\<lparr>h_sd := sd\<rparr>), pt_buyer_id = 9, pt_items = items,
     pt_zenylimit = limit, pt_slots = slots\<rparr>"

text \<open>A seller with 22 herbs and 19 roots, and a buyer who wants as many, for a price each, and has 5000 zeny.\<close>

definition sample_herbalist :: patron where
  "sample_herbalist = patron_of ((sample_player 1)\<lparr>pl_inventory := herbs # roots # replicate (MAX_INVENTORY - 2) zero_item,
     pl_inventory_data := Some sample_item # Some sample_item # replicate (MAX_INVENTORY - 2) None\<rparr>)
     (replicate MAX_BUYINGSTORE_SLOTS zero_entry) 0 0"

definition sample_patron :: "int \<Rightarrow> patron" where
  "sample_patron cost = patron_of ((sample_player 2)\<lparr>pl_buyingstore := True\<rparr>)
     (\<lparr>bs_price = cost, bs_amount = 22, bs_nameid = 501\<rparr> # \<lparr>bs_price = cost, bs_amount = 19, bs_nameid = 600\<rparr> # replicate 3 zero_entry) 1000 2"

definition sample_plaza :: "int \<Rightarrow> plaza" where
  "sample_plaza cost = \<lparr>pz_players = [1 \<mapsto> sample_herbalist, 2 \<mapsto> sample_patron cost], pz_nextid = 9, pz_db = [2 \<mapsto> 2], pz_quit = []\<rparr>"

lemma sample_bs_fields:
  "ev_item sample_bs_env = (\<lambda>_. Some sample_item)" "itemdb_search sample_bs_env nameid = sample_item" "ev_time sample_bs_env = 1"
  "ve_near sample_bs_env = (\<lambda>_ _. True)" "be_feature sample_bs_env" "equip_neutral sample_bs_env" "tv_group_level sample_bs_env = tv_group_level sample_env"
  by (simp_all add: sample_bs_env_def sample_vend_env_def sample_box_env_def sample_env_def trade_env.defs box_env.defs vend_env.defs
      bs_env.defs equip_neutral_def worn_only_refl itemdb_search_def)

lemma sample_sellers: "trader_goods sample_bs_env (pt_sd sample_herbalist)" "trader_goods sample_bs_env (pt_sd (sample_patron cost))"
proof -
  have len: "Suc (Suc (MAX_INVENTORY - 2)) = MAX_INVENTORY" by (simp add: MAX_INVENTORY_def)
  have ok: "item_ok herbs" "item_ok roots" "fresh_item sample_bs_env herbs" "fresh_item sample_bs_env roots"
    by (simp_all add: item_ok_def fresh_item_def herbs_def roots_def zero_item_def MAX_AMOUNT_def)
  have "inventory_ok (pt_sd sample_herbalist)" "fresh_bag sample_bs_env (pt_sd sample_herbalist)"
    using ok zero_item_ok(1) zero_item_ok(2) [where E = sample_bs_env] len
    by (simp_all add: inventory_ok_def fresh_bag_def sample_herbalist_def patron_of_def merchant_of_def two_slots)
  then show "trader_goods sample_bs_env (pt_sd sample_herbalist)"
    by (simp add: trader_goods_def sample_herbalist_def patron_of_def merchant_of_def sample_player_def MAX_ZENY_def)
  have "inventory_ok (pt_sd (sample_patron cost))" "fresh_bag sample_bs_env (pt_sd (sample_patron cost))"
    using zero_item_ok(1) zero_item_ok(2) [where E = sample_bs_env]
    by (simp_all add: inventory_ok_def fresh_bag_def sample_patron_def patron_of_def merchant_of_def sample_player_def)
  then show "trader_goods sample_bs_env (pt_sd (sample_patron cost))"
    by (simp add: trader_goods_def sample_patron_def patron_of_def merchant_of_def sample_player_def MAX_ZENY_def)
qed

lemma sample_plaza_players: "pz_players (sample_plaza cost) 1 = Some sample_herbalist" "pz_players (sample_plaza cost) 2 = Some (sample_patron cost)"
  by (simp_all add: sample_plaza_def)

lemma sample_patron_fields:
  "pl_buyingstore (pt_sd (sample_patron cost))" "pt_buyer_id (sample_patron cost) = 9" "pt_slots (sample_patron cost) = 2"
  "pt_zenylimit (sample_patron cost) = 1000" "length (pt_items (sample_patron cost)) = MAX_BUYINGSTORE_SLOTS"
  "pl_zeny (pt_sd (sample_patron cost)) = 5000" "pl_m (pt_sd (sample_patron cost)) = 0" "pl_weight (pt_sd (sample_patron cost)) = 0"
  "pl_max_weight (pt_sd (sample_patron cost)) = 1000"
  "bs_entry (sample_patron cost) 501 = 0" "bs_entry (sample_patron cost) 600 = 1"
  "pt_items (sample_patron cost) ! 0 = \<lparr>bs_price = cost, bs_amount = 22, bs_nameid = 501\<rparr>"
  "pt_items (sample_patron cost) ! Suc 0 = \<lparr>bs_price = cost, bs_amount = 19, bs_nameid = 600\<rparr>"
  by (simp_all add: sample_patron_def patron_of_def merchant_of_def sample_player_def bs_entry_def MAX_BUYINGSTORE_SLOTS_def)

lemma sample_herbalist_fields:
  "\<not> pc_istrading (pt_sd sample_herbalist)" "pc_can_give_items (pt_sd sample_herbalist)" "pl_m (pt_sd sample_herbalist) = 0"
  "pl_zeny (pt_sd sample_herbalist) = 5000" "slot (pt_sd sample_herbalist) 0 = herbs" "slot (pt_sd sample_herbalist) (Suc 0) = roots"
  "pl_inventory_data (pt_sd sample_herbalist) ! 0 = Some sample_item" "pl_inventory_data (pt_sd sample_herbalist) ! Suc 0 = Some sample_item"
  by (simp_all add: sample_herbalist_def patron_of_def merchant_of_def sample_player_def pc_istrading_def pc_can_give_items_def)

lemma sample_may_sell: "may_sell sample_bs_env sd sd' herbs" "may_sell sample_bs_env sd sd' roots"
  by (simp_all add: may_sell_def herbs_def roots_def zero_item_def itemdb_isrestricted_def sample_bs_fields sample_item_def itemdb_cantrade_sub_def)

lemma sample_room: "m \<le> 100 \<Longrightarrow> pc_checkadditem sample_bs_env nameid m (pt_sd (sample_patron cost)) \<noteq> CHKADDITEM_OVERAMOUNT"
  by (simp add: pc_checkadditem_def sample_bs_fields sample_item_def itemdb_isstackable2_def MAX_AMOUNT_def MAX_INVENTORY_def Let_def
      sample_patron_def patron_of_def merchant_of_def sample_player_def)


text \<open>Herbs and roots at 99,990,000 zeny each: 22 herbs cost less than nothing in 32 bits, and 19 roots
  1,899,810,000 zeny the buyer does not have.\<close>

lemma sample_overflow:
  "sale_worth (sample_patron 99990000) (2, 501, 22) = 2199780000" "sale_worth (sample_patron 99990000) (3, 600, 19) = 1899810000"
  "to_int32 2199780000 = - 2095187296" "to_int32 1899810000 = 1899810000"
  by (simp_all add: sample_patron_fields to_int32_def)

lemma sample_overflow_check:
  "trade_check_list sample_bs_env (pt_sd sample_herbalist) (fix_limit (sample_patron 99990000)) []
     [(2, 501, 22), (3, 600, 19)] (pl_weight (pt_sd (sample_patron 99990000))) 0"
proof -
  have names: "it_nameid herbs = 501" "it_amount herbs = 22" "it_nameid roots = 600" "it_amount roots = 19" "id_weight sample_item = 1"
    by (simp_all add: herbs_def roots_def sample_item_def)
  have width: "to_int32 1000 = 1000" "to_int32 (- 2095187296) = - 2095187296" "to_int32 2095188296 = 2095188296"
    by (simp_all add: to_int32_def)
  show ?thesis
    using sample_may_sell sample_overflow(3,4) width sample_room
    by (simp add: trade_check_list.simps sample_herbalist_fields sample_patron_fields names fix_limit_same MAX_INVENTORY_def Let_def)
qed

theorem zeny_from_nothing_witness:
  "\<exists>p' q'. pz_players (buyingstore_trade sample_bs_env 1 2 9 [(2, 501, 22), (3, 600, 19)] (sample_plaza 99990000)) =
     (pz_players (sample_plaza 99990000))(1 := Some p', 2 := Some q') \<and>
   pl_zeny (pt_sd p') = 1899815000 \<and> pl_zeny (pt_sd q') = 5000"
proof -
  let ?q = "sample_patron 99990000"
  have sales: "map read_sale [(2, 501, 22), (3, 600, 19)] = [(2, 501, 22), (3, 600, 19)]" by (simp add: read_sale_def to_int16_def)
  have len: "pt_slots ?q \<le> length (pt_items ?q)" by (simp add: sample_patron_fields MAX_BUYINGSTORE_SLOTS_def)
  have first: "to_int32 (sale_worth ?q (2, 501, 22)) < 0" by (simp only: sample_overflow)
  have second: "pl_zeny (pt_sd ?q) < to_int32 (sale_worth ?q (3, 600, 19))"
    "pl_zeny (pt_sd sample_herbalist) + to_int32 (sale_worth ?q (3, 600, 19)) \<le> MAX_ZENY"
    by (simp_all only: sample_overflow sample_patron_fields sample_herbalist_fields MAX_ZENY_def)
  have near: "pl_m (pt_sd sample_herbalist) = pl_m (pt_sd ?q)" "ve_near sample_bs_env 1 2"
    by (simp_all add: sample_patron_fields sample_herbalist_fields sample_bs_fields)
  from zeny_from_nothing [OF sample_plaza_players sample_sellers sample_bs_fields(6) len sample_bs_fields(5) sample_herbalist_fields(1,2)
      sample_patron_fields(1) near sales sample_overflow_check first second]
  show ?thesis by (simp only: sample_overflow sample_patron_fields sample_herbalist_fields) simp
qed

end
