(* ===== verification/Storefront.thy ===== *)
theory Storefront
  imports Plaza
begin

text \<open>
  Buying stores over time: what a new store lists, and what holds of every store after any messages: its
  entries are different items at lawful prices, and \<open>buyingstore_db\<close> knows exactly the open ones.
\<close>

section \<open>The list of a new store\<close>

definition entry_line :: "s_buyingstore_item \<Rightarrow> uint32 \<times> uint16 \<times> int" where
  "entry_line e = (bs_nameid e, bs_amount e, bs_price e)"

text \<open>Entries are different items, at 1 to 99,990,000 zeny each.\<close>

definition listing_ok :: "s_buyingstore_item list \<Rightarrow> bool" where
  "listing_ok es \<longleftrightarrow> distinct (map bs_nameid es) \<and> list_all (\<lambda>e. 1 \<le> bs_price e \<and> bs_price e \<le> BUYINGSTORE_MAX_PRICE) es"

lemma listing_ok_Nil [simp]: "listing_ok []"
  by (simp add: listing_ok_def)

lemma create_list_spec:
  assumes "create_list E sd lines i w items = (i', w', items')" "i + length lines \<le> length items" "listing_ok (take i items)"
  shows "i \<le> i' \<and> i' \<le> i + length lines \<and> length items' = length items \<and> listing_ok (take i' items') \<and>
    map entry_line (take i' items') = map entry_line (take i items) @ map (\<lambda>(n, m, v). (n, m, uint v)) (take (i' - i) lines)"
  using assms
proof (induction lines arbitrary: i w items)
  case (Cons line lines)
  obtain n m v where line: "line = (n, m, v)" by (cases line)
  have stop: ?case if "(i', items') = (i, items)" using that Cons.prems by (simp add: line)
  have i: "i < length items" using Cons.prems(2) by simp
  show ?case
  proof (cases "\<exists>d idx. ev_item E n = Some d \<and> m \<noteq> 0 \<and> \<not> (v \<le> 0 \<or> uint v > BUYINGSTORE_MAX_PRICE) \<and>
      \<not> (\<not> be_buyable E n \<or> \<not> itemdb_cantrade_sub d (tv_group_level E (pl_id sd)) (tv_group_level E (pl_id sd))) \<and>
      pc_search_inventory n sd = Some idx \<and> \<not> it_amount (slot sd idx) + uint m > BUYINGSTORE_MAX_AMOUNT \<and>
      \<not> (i \<noteq> 0 \<and> arr_find (\<lambda>b. bs_nameid b = n) (take i items) \<noteq> i)")
    case False
    then show ?thesis using Cons.prems(1) by (intro stop) (auto simp: line Let_def split: if_splits option.splits)
  next
    case True
    then obtain d idx where c: "ev_item E n = Some d" "m \<noteq> 0" "\<not> (v \<le> 0 \<or> uint v > BUYINGSTORE_MAX_PRICE)"
      "\<not> (\<not> be_buyable E n \<or> \<not> itemdb_cantrade_sub d (tv_group_level E (pl_id sd)) (tv_group_level E (pl_id sd)))"
      "pc_search_inventory n sd = Some idx" "\<not> it_amount (slot sd idx) + uint m > BUYINGSTORE_MAX_AMOUNT"
      "\<not> (i \<noteq> 0 \<and> arr_find (\<lambda>b. bs_nameid b = n) (take i items) \<noteq> i)" by blast
    define e where "e = \<lparr>bs_price = to_int32 (uint v), bs_amount = m, bs_nameid = n\<rparr>"
    have step: "create_list E sd lines (i + 1) (w + id_weight d * ucast m) (items[i := e]) = (i', w', items')"
      using Cons.prems(1) c by (simp add: line e_def Let_def split: if_splits)
    have "uint v \<noteq> 0" using c(3) uint_0_iff [of v] by auto
    then have "1 \<le> uint v" using uint_nonnegative [of v] by linarith
    then have v: "to_int32 (uint v) = uint v" "1 \<le> uint v" "uint v \<le> BUYINGSTORE_MAX_PRICE"
      using c(3) by (auto simp: BUYINGSTORE_MAX_PRICE_def intro!: to_int32_id)
    have "arr_find (\<lambda>b. bs_nameid b = n) (take i items) = length (take i items)" using c(7) i by (cases "i = 0") simp_all
    then have "list_all (\<lambda>b. bs_nameid b \<noteq> n) (take i items)" by (simp only: arr_find_all)
    then have new: "n \<notin> set (map bs_nameid (take i items))" by (auto simp: list_all_iff)
    have el: "entry_line e = (n, m, uint v)" by (simp add: entry_line_def e_def v)
    have take: "take (i + 1) (items[i := e]) = take i items @ [e]" using i by (simp add: take_Suc_conv_app_nth)
    have "listing_ok (take (i + 1) (items[i := e]))"
      using Cons.prems(3) new v unfolding take by (simp add: listing_ok_def e_def)
    from Cons.IH [OF step _ this] Cons.prems(2)
    have IH: "i + 1 \<le> i'" "i' \<le> i + 1 + length lines" "length items' = length items" "listing_ok (take i' items')"
      "map entry_line (take i' items') = map entry_line (take i items) @ (n, m, uint v) # map (\<lambda>(n, m, v). (n, m, uint v)) (take (i' - (i + 1)) lines)"
      unfolding take by (simp_all add: el)
    moreover have "take (i' - i) ((n, m, v) # lines) = (n, m, v) # take (i' - (i + 1)) lines"
      using IH(1) by (cases "i' - i") (simp_all add: diff_Suc)
    ultimately show ?thesis by (simp add: line)
  qed
qed simp

section \<open>Well-formed stores\<close>

definition store_wf :: "patron \<Rightarrow> bool" where
  "store_wf q \<longleftrightarrow> length (pt_items q) = MAX_BUYINGSTORE_SLOTS \<and> pt_slots q \<le> MAX_BUYINGSTORE_SLOTS \<and>
     (pl_buyingstore (pt_sd q) \<longrightarrow> listing_ok (take (pt_slots q) (pt_items q)))"

definition plaza_ok :: "bs_env \<Rightarrow> plaza \<Rightarrow> bool" where
  "plaza_ok E W \<longleftrightarrow> (\<forall>a q. pz_players W a = Some q \<longrightarrow> trader_goods E (pt_sd q) \<and> store_wf q) \<and>
     (\<forall>a b p q. pz_players W a = Some p \<longrightarrow> pz_players W b = Some q \<longrightarrow> pl_char_id (pt_sd p) = pl_char_id (pt_sd q) \<longrightarrow> a = b) \<and>
     (\<forall>a q. pz_players W a = Some q \<longrightarrow> pl_buyingstore (pt_sd q) = (pz_db W (pl_char_id (pt_sd q)) = Some a)) \<and>
     (\<forall>c a. pz_db W c = Some a \<longrightarrow> (\<exists>q. pz_players W a = Some q \<and> pl_char_id (pt_sd q) = c))"

lemma plaza_okD:
  assumes "plaza_ok E W" "pz_players W a = Some q"
  shows "trader_goods E (pt_sd q)" "store_wf q" "pl_buyingstore (pt_sd q) = (pz_db W (pl_char_id (pt_sd q)) = Some a)"
    "pz_players W b = Some p \<Longrightarrow> pl_char_id (pt_sd p) = pl_char_id (pt_sd q) \<Longrightarrow> b = a"
  using assms unfolding plaza_ok_def by blast+

text \<open>A player changes, and their flag and the database together.\<close>

lemma plaza_ok_toggle:
  assumes W: "plaza_ok E W" and a: "pz_players W a = Some q" and q': "trader_goods E (pt_sd q')" "store_wf q'" "pl_char_id (pt_sd q') = pl_char_id (pt_sd q)"
    and players: "pz_players W' = (pz_players W)(a := Some q')"
    and db: "pz_db W' = (pz_db W)(pl_char_id (pt_sd q) := (if pl_buyingstore (pt_sd q') then Some a else None))"
  shows "plaza_ok E W'"
proof -
  have other: "pl_char_id (pt_sd p) \<noteq> pl_char_id (pt_sd q)" if "pz_players W b = Some p" "b \<noteq> a" for b p
    using plaza_okD(4) [OF W a that(1)] that(2) by blast
  have one: "trader_goods E (pt_sd p) \<and> store_wf p \<and> pl_buyingstore (pt_sd p) = (pz_db W' (pl_char_id (pt_sd p)) = Some b)"
    if "pz_players W' b = Some p" for b p
  proof (cases "b = a")
    case True
    with that have "p = q'" by (simp add: players)
    with True q' show ?thesis by (simp add: db)
  next
    case False
    with that have b: "pz_players W b = Some p" by (simp add: players)
    show ?thesis using plaza_okD(1-3) [OF W b] other [OF b False] by (simp add: db)
  qed
  have two: "b = c" if "pz_players W' b = Some p" "pz_players W' c = Some r" "pl_char_id (pt_sd p) = pl_char_id (pt_sd r)" for b c p r
  proof (cases "b = a \<or> c = a")
    case True
    then show ?thesis using that other [of b p] other [of c r] q'(3) by (cases "b = a"; cases "c = a") (simp_all add: players)
  next
    case False
    with that have "pz_players W b = Some p" "pz_players W c = Some r" by (simp_all add: players)
    from plaza_okD(4) [OF W this(2,1)] that(3) show ?thesis by simp
  qed
  have three: "\<exists>p. pz_players W' b = Some p \<and> pl_char_id (pt_sd p) = c" if c: "pz_db W' c = Some b" for b c
  proof (cases "c = pl_char_id (pt_sd q)")
    case True
    with c have "b = a" by (simp add: db split: if_splits)
    with True q'(3) show ?thesis by (simp add: players)
  next
    case False
    then have "pz_db W c = Some b" using c by (simp add: db)
    then obtain p where p: "pz_players W b = Some p" "pl_char_id (pt_sd p) = c" using W unfolding plaza_ok_def by blast
    moreover from this False a have "b \<noteq> a" by auto
    ultimately show ?thesis by (simp add: players)
  qed
  show ?thesis unfolding plaza_ok_def using one two three by blast
qed

lemma plaza_ok_put:
  assumes W: "plaza_ok E W" and a: "pz_players W a = Some q" and q': "trader_goods E (pt_sd q')" "store_wf q'" "same_who (pt_sd q) (pt_sd q')"
  shows "plaza_ok E (put_patron a q' W)"
proof (rule plaza_ok_toggle [OF W a q'(1,2)])
  have who: "pl_char_id (pt_sd q') = pl_char_id (pt_sd q)" "pl_buyingstore (pt_sd q') = pl_buyingstore (pt_sd q)"
    using q'(3) by (simp_all add: same_who_def)
  show "pl_char_id (pt_sd q') = pl_char_id (pt_sd q)" by (rule who(1))
  have "pz_db W (pl_char_id (pt_sd q)) = (if pl_buyingstore (pt_sd q) then Some a else None)"
  proof (cases "pz_db W (pl_char_id (pt_sd q))")
    case (Some b)
    then obtain p where p: "pz_players W b = Some p" "pl_char_id (pt_sd p) = pl_char_id (pt_sd q)" using W unfolding plaza_ok_def by blast
    then have "b = a" by (rule plaza_okD(4) [OF W a])
    with Some show ?thesis using plaza_okD(3) [OF W a] by simp
  qed (use plaza_okD(3) [OF W a] in simp)
  then show "pz_db (put_patron a q' W) = (pz_db W)(pl_char_id (pt_sd q) := (if pl_buyingstore (pt_sd q') then Some a else None))"
    using who by (simp add: fun_upd_idem)
qed simp

section \<open>Every message\<close>

lemma store_wf_cong:
  "pt_items q' = pt_items q \<Longrightarrow> pt_slots q' = pt_slots q \<Longrightarrow> pl_buyingstore (pt_sd q') = pl_buyingstore (pt_sd q) \<Longrightarrow> store_wf q' = store_wf q"
  by (simp add: store_wf_def)

lemma flag_goods: "trader_goods E (sd\<lparr>pl_buyingstore := b\<rparr>) = trader_goods E sd"
  by (simp add: trader_goods_def inventory_ok_def fresh_bag_def)

lemma plaza_ok_setup: "plaza_ok E W \<Longrightarrow> plaza_ok E (snd (buyingstore_setup E a slots W))"
  by (auto simp: buyingstore_setup_def store_wf_def same_who_def split: option.split dest: plaza_okD(1,2) intro!: plaza_ok_put)

lemma plaza_ok_close:
  assumes W: "plaza_ok E W"
  shows "plaza_ok E (buyingstore_close a W)"
proof (cases "\<exists>q. pz_players W a = Some q \<and> pl_buyingstore (pt_sd q)")
  case True
  then obtain q where q: "pz_players W a = Some q" "pl_buyingstore (pt_sd q)" by blast
  show ?thesis
    using plaza_okD(1) [OF W q(1)] q
    by (intro plaza_ok_toggle [OF W q(1), of "closed_store q"])
      (simp_all add: closed_store_def flag_goods store_wf_def buyingstore_close_def)
next
  case False
  with W show ?thesis by (auto simp: buyingstore_close_def split: option.split)
qed

lemma plaza_ok_satisfied:
  assumes "plaza_ok E W"
  shows "plaza_ok E (close_satisfied b W)"
proof -
  have quit: "plaza_ok E (V\<lparr>pz_quit := x\<rparr>) = plaza_ok E V" for V x by (simp add: plaza_ok_def)
  show ?thesis using assms plaza_ok_close [OF assms, of b] by (simp add: close_satisfied_def Let_def quit split: option.split)
qed

text \<open>What a request to open a store makes of the player.\<close>

lemma create_cases:
  assumes a: "pz_players W a = Some p" and p: "store_wf p"
  obtains (kept) "snd (buyingstore_create E a limit result name lines W) = W"
  | (failed) items where "snd (buyingstore_create E a limit result name lines W) = put_patron a (p\<lparr>pt_items := items, pt_slots := 0\<rparr>) W"
      "length items = MAX_BUYINGSTORE_SLOTS" "fst (buyingstore_create E a limit result name lines W) \<noteq> 0"
  | (opened) w items q' where "create_list E (pt_sd p) lines 0 (pl_weight (pt_sd p)) (pt_items p) = (length lines, w, items)"
      "\<not> pc_istrading (pt_sd p)" "fst (buyingstore_create E a limit result name lines W) = 0"
      "0 < length lines" "length lines \<le> pt_slots p" "0 < limit" "limit \<le> pl_zeny (pt_sd p)" "length items = MAX_BUYINGSTORE_SLOTS"
      "q' = (on_sd (\<lambda>sd. sd\<lparr>pl_buyingstore := True\<rparr>) p)\<lparr>pt_items := items, pt_buyer_id := pz_nextid W + 1,
         pt_zenylimit := limit, pt_slots := length lines, pt_mc := (pt_mc (on_sd (\<lambda>sd. sd\<lparr>pl_buyingstore := True\<rparr>) p))\<lparr>mc_message := safestrncpy name MESSAGE_SIZE\<rparr>\<rparr>"
      "pz_players (snd (buyingstore_create E a limit result name lines W)) = (pz_players W)(a := Some q')"
      "pz_db (snd (buyingstore_create E a limit result name lines W)) = (pz_db W)(pl_char_id (pt_sd p) \<mapsto> a)"
proof -
  obtain i w items where list: "create_list E (pt_sd p) lines 0 (pl_weight (pt_sd p)) (pt_items p) = (i, w, items)"
    by (cases "create_list E (pt_sd p) lines 0 (pl_weight (pt_sd p)) (pt_items p)") auto
  let ?r = "buyingstore_create E a limit result name lines W"
  have same: "p\<lparr>pt_slots := 0\<rparr> = p\<lparr>pt_items := pt_items p, pt_slots := 0\<rparr>" by simp
  have len: "length (pt_items p) = MAX_BUYINGSTORE_SLOTS" "pt_slots p \<le> MAX_BUYINGSTORE_SLOTS" using p by (simp_all add: store_wf_def)
  have items: "length items = MAX_BUYINGSTORE_SLOTS" if "length lines \<le> pt_slots p"
    using create_list_spec [OF list] that len by simp
  show ?thesis
  proof (cases "result = 0 \<or> length lines = 0")
    case True
    then show ?thesis using a by (intro kept) (simp add: buyingstore_create_def)
  next
    case ok1: False
    define bad where "bad \<longleftrightarrow> \<not> be_feature E \<or> pc_istrading (pt_sd p) \<or> pt_slots p = 0 \<or> length lines > pt_slots p \<or> limit \<le> 0 \<or>
      limit > pl_zeny (pt_sd p) \<or> name = [] \<or> hd name = NUL"
    note create = buyingstore_create_def [of E a limit result name lines W, unfolded a option.case if_not_P [OF ok1] bad_def [symmetric]]
    show ?thesis
    proof (cases "bad \<or> \<not> pc_can_give_items (pt_sd p)")
      case True
      then have "?r = (1, put_patron a (p\<lparr>pt_slots := 0\<rparr>) W) \<or> ?r = (6, put_patron a (p\<lparr>pt_slots := 0\<rparr>) W)"
        unfolding create by (cases bad) simp_all
      then show ?thesis using len(1) unfolding same by (intro failed [of "pt_items p"]) auto
    next
      case ok2: False
      show ?thesis
      proof (cases "be_muted E a \<or> be_nomap E (pl_m (pt_sd p)) \<or> be_nocell E a")
        case True
        then have "snd ?r = W" using ok2 by (elim disjE) (simp_all add: create)
        then show ?thesis by (rule kept)
      next
        case ok3: False
        show ?thesis
        proof (cases "i \<noteq> length lines \<or> uint (pc_getpercentweight (pt_sd p) w) \<ge> be_major_overweight E")
          case True
          then have "?r = (5, put_patron a (p\<lparr>pt_items := items, pt_slots := 0\<rparr>) W) \<or> ?r = (7, put_patron a (p\<lparr>pt_items := items, pt_slots := 0\<rparr>) W)"
            using ok2 ok3 by (simp add: create list Let_def)
          then show ?thesis using items ok2 by (intro failed [of items]) (auto simp: bad_def)
        next
          case ok4: False
          then have r: "?r = (0, (put_patron a ((on_sd (\<lambda>sd. sd\<lparr>pl_buyingstore := True\<rparr>) p)\<lparr>pt_items := items, pt_buyer_id := pz_nextid W + 1,
             pt_zenylimit := limit, pt_slots := length lines, pt_mc := (pt_mc (on_sd (\<lambda>sd. sd\<lparr>pl_buyingstore := True\<rparr>) p))\<lparr>mc_message := safestrncpy name MESSAGE_SIZE\<rparr>\<rparr>)
               (W\<lparr>pz_nextid := pz_nextid W + 1\<rparr>))\<lparr>pz_db := (pz_db W)(pl_char_id (pt_sd p) \<mapsto> a)\<rparr>)"
            using ok2 ok3 by (simp add: create list Let_def buyingstore_getuid_def on_sd_def)
          show ?thesis
            by (rule opened [OF _ _ _ _ _ _ _ _ refl]) (use list ok1 ok2 ok4 items r in \<open>simp_all add: not_less bad_def\<close>)
        qed
      qed
    qed
  qed
qed

lemma plaza_ok_create:
  assumes W: "plaza_ok E W"
  shows "plaza_ok E (snd (buyingstore_create E a limit result name lines W))"
proof (cases "pz_players W a")
  case (Some p)
  note P = plaza_okD [OF W Some]
  show ?thesis
    using Some P(2)
  proof (cases rule: create_cases [where E = E and limit = limit and result = result and name = name and lines = lines])
    case kept
    with W show ?thesis by simp
  next
    case (failed items)
    have "plaza_ok E (put_patron a (p\<lparr>pt_items := items, pt_slots := 0\<rparr>) W)"
      using P failed by (intro plaza_ok_put [OF W Some]) (simp_all add: store_wf_def same_who_def)
    with failed show ?thesis by simp
  next
    case (opened w items q')
    have len: "pt_slots p \<le> MAX_BUYINGSTORE_SLOTS" "length (pt_items p) = MAX_BUYINGSTORE_SLOTS" using P(2) by (simp_all add: store_wf_def)
    have "listing_ok (take (length lines) items)" using create_list_spec [OF opened(1)] opened(5) len by simp
    then show ?thesis
      using P(1) opened len by (intro plaza_ok_toggle [OF W Some _ _ _ opened(10)]) (simp_all add: store_wf_def flag_goods on_sd_def set_sd_def)
  qed
qed (use W in \<open>simp add: buyingstore_create_def\<close>)

text \<open>A sale, whether its prices overflow or not.\<close>

lemma trade_check_bag:
  "trade_check_list E sd q seen sales w z \<Longrightarrow> (\<forall>line \<in> set sales. 0 \<le> snd (snd line)) \<Longrightarrow>
   list_all (line_in_bag sd) sales \<and> distinct (map fst sales) \<and> set (map fst sales) \<inter> set seen = {}"
proof (induction sales arbitrary: seen w z)
  case (Cons line sales)
  obtain i n m where line: "line = (i, n, m)" by (cases line)
  from Cons.prems(1) show ?case
    unfolding line
  proof (rule trade_check_Cons)
    fix w'
    let ?z = "to_int32 (z + to_int32 (sale_worth q (i, n, m)))"
    assume c: "i \<notin> set seen" "2 \<le> i" "i - 2 < int MAX_INVENTORY" "it_nameid (slot sd (nat (i - 2))) = n"
      "m \<le> it_amount (slot sd (nat (i - 2)))" and rest: "trade_check_list E sd q (i # seen) sales w' ?z"
    have "list_all (line_in_bag sd) sales \<and> distinct (map fst sales) \<and> set (map fst sales) \<inter> set (i # seen) = {}"
      using Cons.IH [OF rest] Cons.prems(2) by simp
    with c Cons.prems(2) show "list_all (line_in_bag sd) ((i, n, m) # sales) \<and> distinct (map fst ((i, n, m) # sales)) \<and>
        set (map fst ((i, n, m) # sales)) \<inter> set seen = {}" by (auto simp: line)
  qed
qed simp

definition kept_store :: "patron \<Rightarrow> patron \<Rightarrow> bool" where
  "kept_store q q' \<longleftrightarrow> same_who (pt_sd q) (pt_sd q') \<and> pt_slots q' = pt_slots q \<and>
     map bs_nameid (pt_items q') = map bs_nameid (pt_items q) \<and> map bs_price (pt_items q') = map bs_price (pt_items q)"

lemma deliver_keeps:
  assumes E: "equip_neutral E"
  shows "trader_goods E sd \<Longrightarrow> trader_goods E (pt_sd q) \<Longrightarrow> list_all (line_in_bag sd) sales \<Longrightarrow> distinct (map fst sales) \<Longrightarrow>
    fold (trade_deliver E) sales (sd, q) = (sd', q') \<Longrightarrow>
    trader_goods E sd' \<and> trader_goods E (pt_sd q') \<and> same_who sd sd' \<and> kept_store q q'"
proof (induction sales arbitrary: sd q)
  case Nil
  then show ?case by (simp add: same_who_def kept_store_def)
next
  case (Cons line sales)
  obtain i n m where line: "line = (i, n, m)" by (cases line)
  obtain sd1 q1 where step: "trade_deliver E (i, n, m) (sd, q) = (sd1, q1)" by fastforce
  have bag: "line_in_bag sd (i, n, m)" using Cons.prems(3) by (simp add: line)
  note M = trade_deliver_moves [OF Cons.prems(1,2) E bag step]
  have "line_in_bag sd1 l" if "l \<in> set sales" for l
  proof -
    obtain j n' m' where l: "l = (j, n', m')" by (cases l)
    have ok: "line_in_bag sd (j, n', m')" using that Cons.prems(3) by (auto simp: list_all_iff l)
    have "j \<noteq> i" using that Cons.prems(4) by (force simp: line l)
    with ok bag have other: "nat (j - 2) < MAX_INVENTORY" "nat (j - 2) \<noteq> nat (i - 2)" by (auto simp: nat_less_iff)
    show ?thesis using ok M(12) [OF other] by (simp add: l)
  qed
  then have "list_all (line_in_bag sd1) sales" by (simp add: list_all_iff)
  then have rest: "trader_goods E sd' \<and> trader_goods E (pt_sd q') \<and> same_who sd1 sd' \<and> kept_store q1 q'"
    using Cons.IH [OF M(1,2)] Cons.prems(4,5) step by (simp add: line)
  have "kept_store q q1" using M(8,10,11) by (simp add: kept_store_def map_update_same)
  with rest M(13) show ?case by (auto simp: kept_store_def same_who_def)
qed

lemma kept_store_wf:
  assumes "kept_store q q'" "store_wf q"
  shows "store_wf q'"
proof -
  have names: "map bs_nameid (take k (pt_items q')) = map bs_nameid (take k (pt_items q))"
    "map bs_price (take k (pt_items q')) = map bs_price (take k (pt_items q))" for k
    using assms(1) by (simp_all add: kept_store_def take_map [symmetric])
  have listing: "listing_ok es = (distinct (map bs_nameid es) \<and> list_all (\<lambda>v. 1 \<le> v \<and> v \<le> BUYINGSTORE_MAX_PRICE) (map bs_price es))" for es
    by (simp add: listing_ok_def list.pred_map comp_def)
  have "length (pt_items q') = length (pt_items q)" using assms(1) map_eq_imp_length_eq by (auto simp: kept_store_def)
  with assms show ?thesis by (simp add: store_wf_def kept_store_def same_who_def listing names)
qed

lemma plaza_ok_trade:
  fixes data :: "(uint16 \<times> uint32 \<times> uint16) list" and buyer_id :: uint32
  assumes W: "plaza_ok E W" and E: "equip_neutral E"
  shows "plaza_ok E (buyingstore_trade E a b buyer_id data W)"
proof (cases "\<exists>p q. pz_players W a = Some p \<and> pz_players W b = Some q")
  case False
  then have "buyingstore_trade E a b buyer_id data W = W" by (auto simp: buyingstore_trade_def split: option.split)
  with W show ?thesis by simp
next
  case True
  then obtain p q where players: "pz_players W a = Some p" "pz_players W b = Some q" by blast
  define W1 where "W1 = put_patron b (fix_limit q) (put_patron a (clear_remote p) W)"
  have self: "same_who sd sd" for sd by (simp add: same_who_def)
  have wf: "store_wf (clear_remote p)" "store_wf (fix_limit q)"
    using plaza_okD(2) [OF W players(1)] plaza_okD(2) [OF W players(2)] by (simp_all add: store_wf_def)
  have goods: "trader_goods E (pt_sd p)" "trader_goods E (pt_sd q)"
    using plaza_okD(1) [OF W players(1)] plaza_okD(1) [OF W players(2)] by simp_all
  have W0: "plaza_ok E (put_patron a (clear_remote p) W)" by (rule plaza_ok_put [OF W players(1)]) (simp_all add: goods wf self)
  obtain q0 where q0: "pz_players (put_patron a (clear_remote p) W) b = Some q0" "pt_sd q0 = pt_sd q"
    using players by (cases "b = a") auto
  have W1: "plaza_ok E W1" unfolding W1_def by (rule plaza_ok_put [OF W0 q0(1)]) (simp_all add: goods wf self q0(2))
  show ?thesis
    using players
  proof (cases rule: trade_cases [where E = E and buyer_id = buyer_id and data = data])
    case refused
    with W W1 show ?thesis by (auto simp: W1_def)
  next
    case (sold sd q')
    define p' where "p' = on_sd (\<lambda>_. sd) (clear_remote p)"
    note bag = trade_check_bag [OF sold(4)]
    have D: "trader_goods E sd" "trader_goods E (pt_sd q')" "same_who (pt_sd p) sd" "kept_store (fix_limit q) q'"
      using deliver_keeps [OF E goods(1) _ _ _ sold(5)] goods(2) bag read_sale_nonneg [of _ data] by simp_all
    have wf': "store_wf q'" "store_wf p'" using kept_store_wf [OF D(4)] wf D(3) by (simp_all add: store_wf_def p'_def same_who_def)
    define W2 where "W2 = put_patron a p' W1"
    have W2: "plaza_ok E W2"
      unfolding W2_def using sold(1) D wf' by (intro plaza_ok_put [OF W1, of a "clear_remote p"]) (simp_all add: W1_def p'_def)
    have b2: "pz_players W2 b = Some (fix_limit q)" using sold(1) by (simp add: W2_def W1_def)
    have "plaza_ok E (put_patron b q' W2)"
      using D wf' by (intro plaza_ok_put [OF W2 b2]) (simp_all add: kept_store_def)
    then have "plaza_ok E (close_satisfied b (put_patron b q' W2))" by (rule plaza_ok_satisfied)
    then show ?thesis by (simp add: sold(6) W2_def p'_def W1_def)
  qed
qed


lemma plaza_ok_handle:
  assumes "plaza_ok E W" "equip_neutral E"
  shows "plaza_ok E (bs_handle E am W)"
  using assms by (auto simp: bs_handle_def clif_parse_ReqOpenBuyingStore_def plaza_ok_setup plaza_ok_create plaza_ok_close plaza_ok_trade
      split: prod.split bs_message.split option.split)

section \<open>The properties\<close>

text \<open>C34: after any messages of any players, every store has at most five entries, an open one lists different
  items at 1 to 99,990,000 zeny, \<open>buyingstore_db\<close> knows exactly the open stores, and every player's inventory and
  purse are well formed, also when prices overflow.\<close>

theorem stores_well_formed:
  assumes "plaza_ok E W" and "equip_neutral E"
  shows "plaza_ok E (fold (bs_handle E) messages W)"
  using assms by (induction messages arbitrary: W) (auto intro: plaza_ok_handle)

text \<open>A store that opens lists exactly the lines of the request, in their order, under a fresh number and
  within the buyer's purse.\<close>

theorem new_store_lists:
  assumes a: "pz_players W a = Some p" and p: "store_wf p" and success: "fst (buyingstore_create E a limit result name lines W) = 0"
  shows "\<exists>p'. pz_players (snd (buyingstore_create E a limit result name lines W)) = (pz_players W)(a := Some p') \<and>
    pl_buyingstore (pt_sd p') \<and> pt_buyer_id p' = pz_nextid W + 1 \<and> pt_zenylimit p' = limit \<and> 0 < limit \<and> limit \<le> pl_zeny (pt_sd p) \<and>
    listing_ok (take (pt_slots p') (pt_items p')) \<and>
    map entry_line (take (pt_slots p') (pt_items p')) = map (\<lambda>(nameid, amount, cost). (nameid, amount, uint cost)) lines"
  using a p
proof (cases rule: create_cases [where E = E and limit = limit and result = result and name = name and lines = lines])
  case (opened w items q')
  have "length lines \<le> length (pt_items p)" using p opened(5) by (simp add: store_wf_def)
  with create_list_spec [OF opened(1)] opened show ?thesis by (intro exI [of _ q']) simp
next
  case kept
  then have False using success a
    by (auto simp: buyingstore_create_def Let_def buyingstore_getuid_def put_patron_def split: if_splits prod.splits dest: arg_cong [of _ _ pz_nextid])
  then show ?thesis ..
qed (use success in simp)

section \<open>The properties at work\<close>

lemma sample_store_wf: "store_wf sample_herbalist" "store_wf (sample_patron 10)"
  by (simp_all add: store_wf_def sample_herbalist_def sample_patron_def patron_of_def merchant_of_def sample_player_def zero_entry_def
      MAX_BUYINGSTORE_SLOTS_def listing_ok_def BUYINGSTORE_MAX_PRICE_def)

lemma sample_plaza_ok: "plaza_ok sample_bs_env (sample_plaza 10)"
proof -
  have "pl_char_id (pt_sd sample_herbalist) = 1" "pl_char_id (pt_sd (sample_patron 10)) = 2" "\<not> pl_buyingstore (pt_sd sample_herbalist)"
    by (simp_all add: sample_herbalist_def sample_patron_def patron_of_def merchant_of_def sample_player_def)
  then show ?thesis
    using sample_sellers(1) sample_sellers(2) [of 10] sample_store_wf sample_patron_fields(1)
    by (simp add: plaza_ok_def sample_plaza_def)
qed

theorem stores_well_formed_witness:
  "plaza_ok sample_bs_env (fold (bs_handle sample_bs_env) [(1, Bs_trade 2 9 [(2, 501, 3)]), (2, Bs_close), (1, Bs_setup 3)] (sample_plaza 10))"
  by (rule stores_well_formed [OF sample_plaza_ok sample_bs_fields(6)])

text \<open>The herbalist wants ten more herbs.\<close>

definition sample_fair :: plaza where
  "sample_fair = put_patron 1 (sample_herbalist\<lparr>pt_slots := 2\<rparr>) (sample_plaza 10)"

theorem new_store_lists_witness:
  "\<exists>p'. pz_players (snd (buyingstore_create sample_bs_env 1 1000 1 ''Herbs'' [(501, 10, 100)] sample_fair)) = (pz_players sample_fair)(1 := Some p') \<and>
     pl_buyingstore (pt_sd p') \<and> pt_buyer_id p' = 10 \<and> map entry_line (take (pt_slots p') (pt_items p')) = [(501, 10, 100)]"
proof -
  let ?p = "sample_herbalist\<lparr>pt_slots := 2\<rparr>"
  have p: "pz_players sample_fair 1 = Some ?p" "pz_nextid sample_fair = 9" by (simp_all add: sample_fair_def sample_plaza_def)
  have wf: "store_wf ?p" using sample_store_wf(1) by (simp add: store_wf_def sample_herbalist_def patron_of_def merchant_of_def sample_player_def MAX_BUYINGSTORE_SLOTS_def)
  have weight: "pl_weight (pt_sd ?p) = 0" "pl_max_weight (pt_sd ?p) = 1000" "it_amount herbs = 22" "it_nameid herbs = 501" "id_weight sample_item = 1"
    by (simp_all add: sample_herbalist_def patron_of_def merchant_of_def sample_player_def herbs_def sample_item_def)
  have search: "pc_search_inventory 501 (pt_sd ?p) = Some 0"
    by (simp add: pc_search_inventory_def sample_herbalist_def patron_of_def merchant_of_def herbs_def MAX_INVENTORY_def)
  have trade: "itemdb_cantrade_sub sample_item lv lv" for lv by (simp add: itemdb_cantrade_sub_def sample_item_def)
  have env: "be_buyable sample_bs_env = (\<lambda>_. True)" "be_muted sample_bs_env = (\<lambda>_. False)" "be_nomap sample_bs_env = (\<lambda>_. False)"
    "be_nocell sample_bs_env = (\<lambda>_. False)" "be_major_overweight sample_bs_env = 90"
    by (simp_all add: sample_bs_env_def bs_env.defs vend_env.defs)
  have rate: "pc_getpercentweight (pt_sd ?p) 10 = 1" using weight by (simp add: pc_getpercentweight_def)
  have list: "create_list sample_bs_env (pt_sd ?p) [(501, 10, 100)] 0 0 (pt_items ?p) =
      (1, 10, (pt_items ?p)[0 := \<lparr>bs_price = to_int32 100, bs_amount = 10, bs_nameid = 501\<rparr>])"
    using search trade weight sample_herbalist_fields
    by (simp add: sample_bs_fields env BUYINGSTORE_MAX_PRICE_def BUYINGSTORE_MAX_AMOUNT_def Let_def)
  have guards: "\<not> pc_istrading (pt_sd ?p)" "pc_can_give_items (pt_sd ?p)" "pl_zeny (pt_sd ?p) = 5000" using sample_herbalist_fields by simp_all
  have "fst (buyingstore_create sample_bs_env 1 1000 1 ''Herbs'' [(501, 10, 100)] sample_fair) = 0"
    using p weight guards rate list
    by (simp add: buyingstore_create_def sample_bs_fields env Let_def buyingstore_getuid_def del: create_list.simps)
  from new_store_lists [OF p(1) wf this] p(2) show ?thesis by auto
qed

end
