(* ===== verification/SearchHall.thy ===== *)
theory SearchHall
  imports Searchstore StallSearch Storefront
begin

text \<open>
  What a search over all stores finds, how its pages show the results, and that a store is only opened from
  afar by a click on a result.
\<close>

section \<open>Any kind of store\<close>

text \<open>
  The search calls the function for the kind of store through a pointer. What it relies on: the function
  appends the store's offers to the results until they are full, and says whether nothing was left out.
\<close>

locale shop_search =
  fixes searchall :: "'s \<Rightarrow> store_result list \<Rightarrow> bool \<times> store_result list" and offers :: "'s \<Rightarrow> store_result list" and limit :: nat
  assumes searchall: "length found \<le> limit \<Longrightarrow>
    searchall x found = (length found + length (offers x) \<le> limit, take limit (found @ offers x))"
begin

lemma search_shops_offers:
  "length found \<le> limit \<Longrightarrow> search_shops searchall skip xs found =
    (length found + length (concat (map offers (filter (\<lambda>x. \<not> skip x) xs))) \<le> limit,
     take limit (found @ concat (map offers (filter (\<lambda>x. \<not> skip x) xs))))"
proof (induction xs arbitrary: found)
  case (Cons x xs)
  show ?case
  proof (cases "skip x \<or> limit < length found + length (offers x)")
    case True
    with Cons show ?thesis by (auto simp: searchall)
  next
    case False
    then have "take (limit - length found) (offers x) = offers x" if "\<not> skip x" using that by simp
    with False Cons.prems Cons.IH [of found] Cons.IH [of "found @ offers x"] show ?thesis by (auto simp: searchall add.assoc)
  qed
qed simp

end

text \<open>The entry of a buying store that asks for an item and is not filled, if its price is wanted.\<close>

definition open_entry :: "patron \<Rightarrow> uint32 \<Rightarrow> nat" where
  "open_entry p nameid = arr_find (\<lambda>b. bs_nameid b = nameid \<and> bs_amount b \<noteq> 0) (take (pt_slots p) (pt_items p))"

definition wanted_entry :: "patron \<Rightarrow> store_search \<Rightarrow> uint32 \<Rightarrow> bool" where
  "wanted_entry p s nameid \<longleftrightarrow> (let i = open_entry p nameid; cost = (word_of_int (bs_price (pt_items p ! i)) :: uint32) in
     i \<noteq> pt_slots p \<and> (ss_min_price s = 0 \<or> ss_min_price s \<le> cost) \<and> (ss_max_price s = 0 \<or> cost \<le> ss_max_price s))"

definition bs_report :: "patron \<Rightarrow> uint32 \<Rightarrow> store_result" where
  "bs_report p nameid = (let b = pt_items p ! open_entry p nameid in
     \<lparr>sr_store_id = sint (pt_buyer_id p), sr_account_id = pl_account_id (pt_sd p), sr_store_name = safestrncpy (mc_message (pt_mc p)) MESSAGE_SIZE,
      sr_nameid = bs_nameid b, sr_amount = bs_amount b, sr_price = word_of_int (bs_price b), sr_card = replicate 4 0, sr_refine = 0,
      sr_enchantgrade = 0\<rparr>)"

lemma buyingstore_searchall_reports:
  assumes "pl_buyingstore (pt_sd p)"
  shows "length found \<le> mx \<Longrightarrow> buyingstore_searchall mx p s wanted found =
    (length found + length (filter (wanted_entry p s) wanted) \<le> mx, take mx (found @ map (bs_report p) (filter (wanted_entry p s) wanted)))"
proof (induction wanted arbitrary: found)
  case (Cons nameid wanted)
  have step: "buyingstore_searchall mx p s (nameid # wanted) found =
    (if \<not> wanted_entry p s nameid then buyingstore_searchall mx p s wanted found
     else if length found \<ge> mx then (False, found) else buyingstore_searchall mx p s wanted (found @ [bs_report p nameid]))"
    using assms by (auto simp: wanted_entry_def bs_report_def open_entry_def [symmetric] Let_def not_le not_less)
  show ?case
  proof (cases "wanted_entry p s nameid \<and> mx \<le> length found")
    case True
    with Cons.prems show ?thesis unfolding step by simp
  next
    case False
    with Cons.IH [of found] Cons.IH [of "found @ [bs_report p nameid]"] Cons.prems show ?thesis
      by (auto simp: step simp del: buyingstore_searchall.simps)
  qed
qed simp

lemma buyingstore_searchall_closed: "\<not> pl_buyingstore (pt_sd p) \<Longrightarrow> buyingstore_searchall mx p s wanted found = (True, found)"
  by (cases wanted) simp_all

lemma vending_searchall_closed: "\<not> pl_vending (mc_sd m) \<Longrightarrow> vending_searchall E mx m s wanted found = (True, found)"
  by (cases wanted) simp_all

text \<open>What a store of a kind has to offer to a search.\<close>

definition store_offers :: "ss_env \<Rightarrow> e_searchstore_searchtype \<Rightarrow> store_search \<Rightarrow> seeker \<Rightarrow> store_result list" where
  "store_offers E t s k = (if \<not> searchstore_hasstore t k then [] else case t of
     SEARCHTYPE_VENDING \<Rightarrow> map (report (sk_mc k)) (filter (wanted_offer (vend_env.truncate E) (sk_mc k) s) (ss_items s))
   | SEARCHTYPE_BUYING_STORE \<Rightarrow> map (bs_report (sk_pt k)) (filter (wanted_entry (sk_pt k) s) (ss_items s)))"

interpretation shops: shop_search "\<lambda>b. searchstore_getsearchallfunc E t (the (H b)) s" "\<lambda>b. store_offers E t s (the (H b))" "se_maxresults E"
  for E t s and H :: hall
proof
  fix found :: "store_result list" and b
  assume "length found \<le> se_maxresults E"
  then show "searchstore_getsearchallfunc E t (the (H b)) s found =
      (length found + length (store_offers E t s (the (H b))) \<le> se_maxresults E, take (se_maxresults E) (found @ store_offers E t s (the (H b))))"
    by (simp add: searchstore_getsearchallfunc_def store_offers_def searchstore_hasstore_def searchall_reports_first_offers vending_searchall_closed
        buyingstore_searchall_reports buyingstore_searchall_closed split: e_searchstore_searchtype.split)
qed

section \<open>A search\<close>

lemma on_mc_simps [simp]:
  "sk_mc (on_mc f k) = f (sk_mc k)" "sk_results (on_mc f k) = sk_results k" "sk_pages (on_mc f k) = sk_pages k" "sk_uses (on_mc f k) = sk_uses k"
  "sk_effect (on_mc f k) = sk_effect k" "sk_type (on_mc f k) = sk_type k" "sk_mapid (on_mc f k) = sk_mapid k"
  "pt_items (sk_pt (on_mc f k)) = pt_items (sk_pt k)" "pt_slots (sk_pt (on_mc f k)) = pt_slots (sk_pt k)"
  "pt_buyer_id (sk_pt (on_mc f k)) = pt_buyer_id (sk_pt k)"
  by (simp_all add: on_mc_def)

lemma set_results_simps [simp]:
  "sk_results (set_results rs k) = rs" "sk_pages (set_results rs k) = sk_pages k" "sk_uses (set_results rs k) = sk_uses k"
  "sk_effect (set_results rs k) = sk_effect k" "sk_type (set_results rs k) = sk_type k" "sk_mapid (set_results rs k) = sk_mapid k"
  "sk_mc (set_results rs k) = (sk_mc k)\<lparr>mc_search_items := length rs\<rparr>"
  by (simp_all add: set_results_def on_mc_def)

lemma clear_simps [simp]:
  "sk_results (searchstore_clear k) = []" "sk_pages (searchstore_clear k) = 0" "sk_uses (searchstore_clear k) = sk_uses k"
  "sk_effect (searchstore_clear k) = sk_effect k" "sk_type (searchstore_clear k) = sk_type k" "sk_mapid (searchstore_clear k) = sk_mapid k"
  "sk_mc (searchstore_clear k) = (sk_mc k)\<lparr>mc_remote_id := 0, mc_search_items := 0\<rparr>"
  by (simp_all add: searchstore_clear_def searchstore_clearremote_def)

text \<open>What the search runs over: the other players' stores, on the map of the window if it has one.\<close>

definition visible_stores :: "uint32 \<Rightarrow> int \<Rightarrow> hall \<Rightarrow> uint32 list \<Rightarrow> uint32 list" where
  "visible_stores a mapid H = filter (\<lambda>b. b \<noteq> a \<and> H b \<noteq> None \<and> (mapid = 0 \<or> pl_m (sk_sd (the (H b))) = mapid))"

text \<open>All offers of the visible stores that fit, in the order of the stores and, for each, of the wanted items.\<close>

definition all_offers :: "ss_env \<Rightarrow> e_searchstore_searchtype \<Rightarrow> uint32 \<Rightarrow> uint32 \<Rightarrow> uint32 list \<Rightarrow> uint32 list \<Rightarrow> uint32 \<Rightarrow> int \<Rightarrow> hall \<Rightarrow>
    uint32 list \<Rightarrow> store_result list" where
  "all_offers E t lo hi items cards a mapid H shops = concat (map (\<lambda>b. store_offers E t
     \<lparr>ss_min_price = min lo hi, ss_max_price = max lo hi, ss_items = items, ss_cards = cards\<rparr> (the (H b))) (visible_stores a mapid H shops))"

text \<open>C10: a search the window allows costs one use and finds the offers of all other players' stores, up to the
  configured number, whatever kind of store they are; the client is told when there are more, and shown the first page.\<close>

theorem query_finds_all:
  fixes shops :: "e_searchstore_searchtype \<Rightarrow> uint32 list" and lo hi :: uint32 and t :: e_searchstore_searchtype
  assumes a: "H a = Some k" and window: "mc_search_open (sk_mc k)" "sk_nextquerytime k \<le> now" "sk_uses k \<noteq> 0" "se_feature E"
    and known: "\<forall>i \<in> set items \<union> set cards. ev_item E i \<noteq> None"
  defines "all \<equiv> all_offers E t lo hi items cards a (sk_mapid k) H (shops t)"
  defines "found \<equiv> take (se_maxresults E) all"
  shows "\<exists>k'. snd (searchstore_query E shops now a t lo hi items cards H) = H(a := Some k') \<and>
    sk_results k' = found \<and> mc_search_items (sk_mc k') = length found \<and> sk_pages k' = (if found = [] then 0 else 1) \<and>
    sk_uses k' = sk_uses k - 1 \<and> sk_type k' = t \<and> mc_search_open (sk_mc k') \<and> mc_remote_id (sk_mc k') = 0 \<and>
    fst (searchstore_query E shops now a t lo hi items cards H) =
      (if length all \<le> se_maxresults E then [] else [Ss_failed SSI_FAILED_OVER_MAXCOUNT]) @
      (if found = [] then [Ss_failed SSI_FAILED_NOTHING_SEARCH_ITEM] else []) @
      [Ss_page True (10 < length found) (min (sk_uses k - 1) 255) (take 10 found)]"
proof -
  define k1 where "k1 = searchstore_clear (k\<lparr>sk_uses := sk_uses k - 1, sk_type := t, sk_nextquerytime := now + se_querydelay E\<rparr>)"
  define s where "s = \<lparr>ss_min_price = min lo hi, ss_max_price = max lo hi, ss_items = items, ss_cards = cards\<rparr>"
  define skip where "skip = (\<lambda>b. b = a \<or> (H(a := Some k1)) b = None \<or> sk_mapid k1 \<noteq> 0 \<and> pl_m (sk_sd (the ((H(a := Some k1)) b))) \<noteq> sk_mapid k1)"
  have "filter (\<lambda>b. \<not> skip b) (shops t) = visible_stores a (sk_mapid k) H (shops t)"
    by (auto simp: visible_stores_def skip_def k1_def intro!: filter_cong)
  moreover have "store_offers E t s (the ((H(a := Some k1)) b)) = store_offers E t s (the (H b))" if "b \<noteq> a" for b using that by simp
  ultimately have offers: "concat (map (\<lambda>b. store_offers E t s (the ((H(a := Some k1)) b))) (filter (\<lambda>b. \<not> skip b) (shops t))) = all"
    unfolding all_def all_offers_def s_def [symmetric] by (intro arg_cong [where f = concat] map_cong) (auto simp: visible_stores_def)
  have search: "search_shops (\<lambda>b. searchstore_getsearchallfunc E t (the ((H(a := Some k1)) b)) s) skip (shops t) [] = (length all \<le> se_maxresults E, found)"
    using shops.search_shops_offers [of "[]" E t "H(a := Some k1)" s skip "shops t"] unfolding offers by (simp add: found_def)
  have items: "\<not> (list_ex (\<lambda>i. ev_item E i = None) items \<or> list_ex (\<lambda>i. ev_item E i = None) cards)"
    using known by (auto simp: list_ex_iff)
  have k1: "sk_results k1 = []" "sk_pages k1 = 0" "sk_uses k1 = sk_uses k - 1" "sk_type k1 = t"
    "sk_mc k1 = (sk_mc k)\<lparr>mc_remote_id := 0, mc_search_items := 0\<rparr>" by (simp_all add: k1_def)
  have next_page: "(length found - 1) div 10 > 0 \<longleftrightarrow> 10 < length found" by (cases "length found") auto
  have query: "searchstore_query E shops now a t lo hi items cards H =
    (let k2 = set_results found k1; over = (if length all \<le> se_maxresults E then [] else [Ss_failed SSI_FAILED_OVER_MAXCOUNT]) in
     if found \<noteq> [] then (over @ clif_search_store_info_ack E k2, H(a := Some (k2\<lparr>sk_pages := sk_pages k2 + 1\<rparr>)))
     else let k3 = searchstore_clear k2 in
       (over @ Ss_failed SSI_FAILED_NOTHING_SEARCH_ITEM # clif_search_store_info_ack E k3, H(a := Some k3)))"
    using a window items search unfolding searchstore_query_def skip_def s_def k1_def
    by (simp add: Let_def not_less clif_search_store_info_failed_def)
  show ?thesis
  proof (cases "found = []")
    case True
    then show ?thesis
      using window k1 unfolding query
      by (intro exI [of _ "searchstore_clear (set_results found k1)"]) (simp add: Let_def clif_search_store_info_ack_def searchstore_querynext_def)
  next
    case False
    then show ?thesis
      using window k1 next_page unfolding query
      by (intro exI [of _ "(set_results found k1)\<lparr>sk_pages := 1\<rparr>"])
        (simp add: Let_def clif_search_store_info_ack_def searchstore_querynext_def SEARCHSTORE_RESULTS_PER_PAGE_def)
  qed
qed

section \<open>The pages\<close>

fun turn_pages :: "ss_env \<Rightarrow> nat \<Rightarrow> seeker \<Rightarrow> ss_reply list \<times> seeker" where
  "turn_pages E 0 k = ([], k)"
| "turn_pages E (Suc n) k = (case searchstore_next E k of (rs, k1) \<Rightarrow> case turn_pages E n k1 of (rs', k2) \<Rightarrow> (rs @ rs', k2))"

lemma turn_pages_show:
  assumes E: "se_feature E"
  shows "mc_search_open (sk_mc k) \<Longrightarrow> 10 * (sk_pages k + n) < length (sk_results k) + 10 \<Longrightarrow> turn_pages E n k = (rs, k') \<Longrightarrow>
    k' = k\<lparr>sk_pages := sk_pages k + n\<rparr> \<and> concat (map shown rs) = take (10 * n) (drop (10 * sk_pages k) (sk_results k)) \<and>
    map next_page rs = map (\<lambda>i. i < (length (sk_results k) - 1) div 10) [sk_pages k ..< sk_pages k + n]"
proof (induction n arbitrary: k rs)
  case (Suc n)
  define k1 where "k1 = k\<lparr>sk_pages := sk_pages k + 1\<rparr>"
  have more: "sk_pages k * 10 < length (sk_results k)" using Suc.prems(2) by simp
  then have "searchstore_next E k = (clif_search_store_info_ack E k, k1)"
    using Suc.prems(1) by (simp add: searchstore_next_def k1_def SEARCHSTORE_RESULTS_PER_PAGE_def)
  then obtain rs' where rs: "rs = clif_search_store_info_ack E k @ rs'" and rest: "turn_pages E n k1 = (rs', k')"
    using Suc.prems(3) by (auto split: prod.splits)
  have page: "clif_search_store_info_ack E k = [Ss_page (sk_pages k = 0) (sk_pages k < (length (sk_results k) - 1) div 10) (min (sk_uses k) 255)
      (take 10 (drop (10 * sk_pages k) (sk_results k)))]"
    using E more by (auto simp: clif_search_store_info_ack_def searchstore_querynext_def SEARCHSTORE_RESULTS_PER_PAGE_def mult.commute)
  have IH: "k' = k1\<lparr>sk_pages := sk_pages k1 + n\<rparr>" "concat (map shown rs') = take (10 * n) (drop (10 * sk_pages k1) (sk_results k1))"
    "map next_page rs' = map (\<lambda>i. i < (length (sk_results k1) - 1) div 10) [sk_pages k1 ..< sk_pages k1 + n]"
    using Suc.IH [OF _ _ rest] Suc.prems(1,2) by (simp_all add: k1_def)
  have "take 10 (drop (10 * sk_pages k) (sk_results k)) @ take (10 * n) (drop (10 + 10 * sk_pages k) (sk_results k)) =
      take (10 + 10 * n) (drop (10 * sk_pages k) (sk_results k))"
    by (simp add: take_add drop_drop add.commute)
  moreover have "[sk_pages k ..< sk_pages k + Suc n] = sk_pages k # [sk_pages k1 ..< sk_pages k1 + n]"
    by (simp add: k1_def upt_conv_Cons)
  ultimately show ?case using IH by (simp add: rs page k1_def)
qed simp

text \<open>C35: after a search, asking for the next page again and again shows the results that are left, each once and in
  their order, on pages that announce a next one exactly when there is one; then nothing more is shown.\<close>

theorem pages_show_results:
  assumes "se_feature E" and "mc_search_open (sk_mc k)" and "sk_results k \<noteq> []" and "sk_pages k = 1"
  defines "n \<equiv> (length (sk_results k) - 1) div 10"
  shows "take 10 (sk_results k) @ concat (map shown (fst (turn_pages E n k))) = sk_results k \<and>
    map next_page (fst (turn_pages E n k)) = map (\<lambda>i. i < n) [1 ..< Suc n] \<and>
    searchstore_next E (snd (turn_pages E n k)) = ([], snd (turn_pages E n k))"
proof -
  obtain rs k' where turn: "turn_pages E n k = (rs, k')" by fastforce
  have len: "0 < length (sk_results k)" using assms(3) by simp
  then have n: "10 * n < length (sk_results k)" "length (sk_results k) \<le> 10 * n + 10" unfolding n_def by presburger+
  have "10 * (sk_pages k + n) < length (sk_results k) + 10" using n assms(4) by simp
  from turn_pages_show [OF assms(1,2) this turn]
  have T: "k' = k\<lparr>sk_pages := Suc n\<rparr>" "concat (map shown rs) = take (10 * n) (drop 10 (sk_results k))"
    "map next_page rs = map (\<lambda>i. i < n) [1 ..< Suc n]"
    using assms(4) by (simp_all add: n_def)
  have "take 10 (sk_results k) @ take (10 * n) (drop 10 (sk_results k)) = take (10 + 10 * n) (sk_results k)" by (simp add: take_add)
  with T n show ?thesis by (simp add: turn searchstore_next_def SEARCHSTORE_RESULTS_PER_PAGE_def)
qed

section \<open>Remote shops\<close>

text \<open>The number of results is counted, and a shop is open from afar only in a window that may, for a result.\<close>

definition seeker_ok :: "seeker \<Rightarrow> bool" where
  "seeker_ok k \<longleftrightarrow> mc_search_items (sk_mc k) = length (sk_results k) \<and>
     (mc_remote_id (sk_mc k) \<noteq> 0 \<longrightarrow> mc_search_open (sk_mc k) \<and> sk_effect k = SEARCHSTORE_EFFECT_REMOTE \<and>
        (\<exists>r \<in> set (sk_results k). (word_of_int (mc_remote_id (sk_mc k)) :: uint32) = sr_account_id r))"

definition hall_ok :: "hall \<Rightarrow> bool" where
  "hall_ok H \<longleftrightarrow> (\<forall>a k. H a = Some k \<longrightarrow> seeker_ok k)"

lemma hall_ok_upd: "hall_ok H \<Longrightarrow> seeker_ok k \<Longrightarrow> hall_ok (H(a := Some k))"
  by (simp add: hall_ok_def)

lemma no_remote_ok: "mc_search_items (sk_mc k) = length (sk_results k) \<Longrightarrow> mc_remote_id (sk_mc k) = 0 \<Longrightarrow> seeker_ok k"
  by (simp add: seeker_ok_def)

lemma hall_ok_query:
  assumes "hall_ok H"
  shows "hall_ok (snd (searchstore_query E shops now a t lo hi items cards H))"
  using assms
  by (auto simp: searchstore_query_def Let_def split: option.split prod.split intro!: hall_ok_upd no_remote_ok)

lemma remote_word: "(word_of_int (to_int32 (uint (b :: uint32))) :: uint32) = b"
  by (simp add: to_int32_def)

text \<open>Looking at a shop's list changes no search.\<close>

lemma list_keeps_search:
  assumes "mk_players (vending_vendinglistreq a b W) c = Some m'"
  obtains m where "mk_players W c = Some m" "mc_search_items m' = mc_search_items m" "mc_search_open m' = mc_search_open m" "mc_remote_id m' = mc_remote_id m"
  using assms by (auto simp: vending_vendinglistreq_def split: option.splits if_splits)

lemma list_keeps_player: "mk_players W c \<noteq> None \<Longrightarrow> mk_players (vending_vendinglistreq a b W) c \<noteq> None"
  by (auto simp: vending_vendinglistreq_def split: option.split)

lemma hall_ok_list:
  assumes H: "hall_ok H"
  shows "hall_ok (with_market (vending_vendinglistreq a b (market_of H)) H)"
  unfolding hall_ok_def
proof (intro allI impI)
  fix c k'
  assume "with_market (vending_vendinglistreq a b (market_of H)) H c = Some k'"
  then obtain k m' where k: "H c = Some k" and m': "mk_players (vending_vendinglistreq a b (market_of H)) c = Some m'" and k': "k' = on_mc (\<lambda>_. m') k"
    by (auto simp: with_market_def split: option.splits)
  obtain m where "mk_players (market_of H) c = Some m" and same: "mc_search_items m' = mc_search_items m" "mc_search_open m' = mc_search_open m"
    "mc_remote_id m' = mc_remote_id m" by (rule list_keeps_search [OF m'])
  then have "m = sk_mc k" using k by (simp add: market_of_def)
  with same k H show "seeker_ok k'" by (auto simp: hall_ok_def seeker_ok_def k')
qed

lemma hall_ok_click:
  assumes H: "hall_ok H"
  shows "hall_ok (snd (searchstore_click E a b sid nameid H))"
proof (cases "H a")
  case (Some k)
  define k1 where "k1 = on_mc searchstore_clearremote k"
  define k2 where "k2 = on_mc (\<lambda>m. m\<lparr>mc_remote_id := to_int32 (uint b)\<rparr>) k1"
  have k: "mc_search_items (sk_mc k) = length (sk_results k)" using H Some by (simp add: hall_ok_def seeker_ok_def)
  then have "seeker_ok k1" by (simp add: k1_def seeker_ok_def searchstore_clearremote_def)
  then have H1: "hall_ok (H(a := Some k1))" by (rule hall_ok_upd [OF H])
  let ?found = "\<lambda>r. sr_store_id r = sid \<and> sr_account_id r = b \<and> sr_nameid r = nameid"
  have H2: "hall_ok (H(a := Some k2))" if "mc_search_open (sk_mc k)" "sk_effect k = SEARCHSTORE_EFFECT_REMOTE"
    "arr_find ?found (sk_results k) \<noteq> length (sk_results k)"
  proof -
    have "arr_find ?found (sk_results k) < length (sk_results k)" using that(3) arr_find_le [of ?found "sk_results k"] by simp
    note arr_find_nth [OF this] nth_mem [OF this]
    then have "\<exists>r \<in> set (sk_results k). b = sr_account_id r"
      by (intro bexI [of _ "sk_results k ! arr_find ?found (sk_results k)"]) simp_all
    with that(1,2) k have "seeker_ok k2" by (simp add: k2_def k1_def seeker_ok_def searchstore_clearremote_def remote_word)
    then show ?thesis by (rule hall_ok_upd [OF H])
  qed
  have k1: "sk_results k1 = sk_results k" "sk_effect k1 = sk_effect k" by (simp_all add: k1_def)
  define H' where "H' = snd (searchstore_click E a b sid nameid H)"
  have "H' \<in> {H, H(a := Some k1)} \<or> mc_search_open (sk_mc k) \<and> sk_effect k = SEARCHSTORE_EFFECT_REMOTE \<and>
      arr_find ?found (sk_results k) \<noteq> length (sk_results k) \<and>
      H' \<in> {H(a := Some k2), with_market (vending_vendinglistreq a b (market_of (H(a := Some k2)))) (H(a := Some k2))}"
    unfolding H'_def searchstore_click_def Some option.case Let_def k1_def [symmetric] k2_def [symmetric]
    by (simp add: k1 split: option.split e_searchstore_effecttype.split e_searchstore_searchtype.split)
  then have "hall_ok H'"
    using H H1 H2 hall_ok_list [OF H2, of a b] by (elim disjE conjE) auto
  then show ?thesis by (simp add: H'_def)
qed (use H in \<open>simp add: searchstore_click_def\<close>)

lemma hall_ok_handle: "hall_ok H \<Longrightarrow> hall_ok (snd (ss_handle E shops now am H))"
  by (auto simp: ss_handle_def hall_ok_query hall_ok_click buildin_searchstores_def searchstore_open_def searchstore_next_def searchstore_close_def
      split: prod.split ss_message.split option.split intro!: hall_ok_upd) (auto simp: hall_ok_def seeker_ok_def)

text \<open>C36: whatever players do with their search windows, a shop is open to a player from afar only while the window is
  one that may, and only for a player whose shop is among its present results.\<close>

theorem remote_only_from_results:
  fixes E :: ss_env and messages :: "(int \<times> (e_searchstore_searchtype \<Rightarrow> uint32 list) \<times> uint32 \<times> ss_message) list"
  assumes "hall_ok H"
  defines "H' \<equiv> fold (\<lambda>(now, shops, am) H. snd (ss_handle E shops now am H)) messages H"
  assumes "H' a = Some k" and "searchstore_queryremote (sk_mc k) b" and "b \<noteq> 0"
  shows "mc_search_open (sk_mc k) \<and> sk_effect k = SEARCHSTORE_EFFECT_REMOTE \<and> (\<exists>r \<in> set (sk_results k). sr_account_id r = b)"
proof -
  have "hall_ok H'" unfolding H'_def using assms(1) by (induction messages arbitrary: H) (auto intro: hall_ok_handle)
  then have "seeker_ok k" using assms(3) by (simp add: hall_ok_def)
  moreover have "mc_remote_id (sk_mc k) \<noteq> 0" "(word_of_int (mc_remote_id (sk_mc k)) :: uint32) = b"
    using assms(4,5) by (auto simp: searchstore_queryremote_def)
  ultimately show ?thesis by (auto simp: seeker_ok_def)
qed

section \<open>The properties at work\<close>

definition sample_ss_env :: ss_env where
  "sample_ss_env = bs_env.extend sample_bs_env (ss_env.fields True 5 10 (\<lambda>_. (50, 60)))"

definition seeker_of :: "merchant \<Rightarrow> seeker" where
  "seeker_of m = \<lparr>sk_pt = \<lparr>pt_mc = m, pt_buyer_id = 0, pt_items = replicate MAX_BUYINGSTORE_SLOTS zero_entry, pt_zenylimit = 0, pt_slots = 0\<rparr>,
     sk_results = [], sk_pages = 0, sk_uses = 0, sk_nextquerytime = 0, sk_effect = SEARCHSTORE_EFFECT_NORMAL, sk_type = SEARCHTYPE_VENDING,
     sk_mapid = 0\<rparr>"

text \<open>A player with a window for three searches that may open shops from afar, and the shop of the earlier example.\<close>

definition sample_seeker :: seeker where
  "sample_seeker = (seeker_of (sample_buyer\<lparr>mc_search_open := True\<rparr>))\<lparr>sk_uses := 3, sk_effect := SEARCHSTORE_EFFECT_REMOTE\<rparr>"

definition sample_hall :: hall where
  "sample_hall = [1 \<mapsto> sample_seeker, 2 \<mapsto> seeker_of sample_seller]"

definition sample_result :: store_result where "sample_result = report sample_seller 501"

definition sample_viewer :: seeker where "sample_viewer = set_results [sample_result] sample_seeker"

lemma sample_ss_fields:
  "se_feature sample_ss_env" "se_maxresults sample_ss_env = 10" "ev_item sample_ss_env = (\<lambda>_. Some sample_item)"
  by (simp_all add: sample_ss_env_def sample_bs_env_def sample_vend_env_def sample_box_env_def sample_env_def trade_env.defs box_env.defs vend_env.defs
      bs_env.defs ss_env.defs)

lemma sample_seeker_fields:
  "mc_search_open (sk_mc sample_seeker)" "sk_nextquerytime sample_seeker = 0" "sk_uses sample_seeker = 3" "sk_mapid sample_seeker = 0"
  "sk_effect sample_seeker = SEARCHSTORE_EFFECT_REMOTE" "sk_type sample_seeker = SEARCHTYPE_VENDING"
  by (simp_all add: sample_seeker_def seeker_of_def)

lemma sample_offers:
  "all_offers sample_ss_env SEARCHTYPE_VENDING 0 0 [501] [] 1 0 sample_hall [2] = [sample_result]"
proof -
  let ?s = "\<lparr>ss_min_price = 0, ss_max_price = 0, ss_items = [501], ss_cards = []\<rparr> :: store_search"
  have offer: "first_offer sample_seller 501 = 0" "mc_vend_num sample_seller = 1"
    by (simp_all add: first_offer_def sample_seller_def merchant_of_def plain_potion_def)
  then have "wanted_offer F sample_seller ?s 501" for F by (simp add: wanted_offer_def)
  moreover have "sk_mc (seeker_of sample_seller) = sample_seller" by (simp add: seeker_of_def)
  ultimately show ?thesis
    using sample_shop(1) by (simp add: all_offers_def visible_stores_def sample_hall_def store_offers_def searchstore_hasstore_def sample_result_def)
qed

theorem query_finds_all_witness:
  "\<exists>k'. snd (searchstore_query sample_ss_env (\<lambda>_. [2]) 7 1 SEARCHTYPE_VENDING 0 0 [501] [] sample_hall) = sample_hall(1 := Some k') \<and>
     sk_results k' = [sample_result] \<and> sk_uses k' = 2 \<and>
     fst (searchstore_query sample_ss_env (\<lambda>_. [2]) 7 1 SEARCHTYPE_VENDING 0 0 [501] [] sample_hall) = [Ss_page True False 2 [sample_result]]"
proof -
  have a: "sample_hall 1 = Some sample_seeker" by (simp add: sample_hall_def)
  have window: "mc_search_open (sk_mc sample_seeker)" "sk_nextquerytime sample_seeker \<le> 7" "sk_uses sample_seeker \<noteq> 0" "se_feature sample_ss_env"
    by (simp_all add: sample_seeker_fields sample_ss_fields)
  have known: "\<forall>i \<in> set [501] \<union> set []. ev_item sample_ss_env i \<noteq> None" by (simp add: sample_ss_fields)
  have fields: "sk_mapid sample_seeker = 0" "sk_uses sample_seeker = 3" "se_maxresults sample_ss_env = 10"
    by (simp_all add: sample_seeker_fields sample_ss_fields)
  note found = query_finds_all [where H = sample_hall and a = 1 and k = sample_seeker and E = sample_ss_env and now = 7 and items = "[501]" and
      cards = "[]" and t = SEARCHTYPE_VENDING and lo = 0 and hi = 0 and shops = "\<lambda>_. [2]", OF a window known]
  then show ?thesis unfolding fields sample_offers by auto
qed

theorem pages_show_results_witness:
  "let k = (set_results (replicate 25 sample_result) sample_seeker)\<lparr>sk_pages := 1\<rparr> in
   take 10 (sk_results k) @ concat (map shown (fst (turn_pages sample_ss_env 2 k))) = replicate 25 sample_result \<and>
   map next_page (fst (turn_pages sample_ss_env 2 k)) = [True, False]"
proof -
  let ?k = "(set_results (replicate 25 sample_result) sample_seeker)\<lparr>sk_pages := 1\<rparr>"
  have "mc_search_open (sk_mc ?k)" "sk_results ?k \<noteq> []" "sk_pages ?k = 1" by (simp_all add: sample_seeker_fields)
  from pages_show_results [OF sample_ss_fields(1) this] show ?thesis by (simp add: Let_def upt_rec)
qed

theorem remote_only_from_results_witness:
  "\<exists>k. fold (\<lambda>(now, shops, am) H. snd (ss_handle sample_ss_env shops now am H)) [(7, \<lambda>_. [2], 1, Ss_click 2 7 501)]
     (sample_hall(1 := Some sample_viewer)) 1 = Some k \<and>
   mc_search_open (sk_mc k) \<and> sk_effect k = SEARCHSTORE_EFFECT_REMOTE \<and> (\<exists>r \<in> set (sk_results k). sr_account_id r = 2)"
proof -
  let ?messages = "[(7, \<lambda>_. [2], 1, Ss_click 2 7 501)] :: (int \<times> (e_searchstore_searchtype \<Rightarrow> uint32 list) \<times> uint32 \<times> ss_message) list"
  let ?H = "sample_hall(1 := Some sample_viewer)"
  have "hall_ok ?H"
    by (auto simp: hall_ok_def sample_hall_def sample_viewer_def sample_seeker_def seeker_of_def seeker_ok_def sample_buyer_def sample_seller_def
        merchant_of_def set_results_def on_mc_def)
  moreover obtain k where "fold (\<lambda>(now, shops, am) H. snd (ss_handle sample_ss_env shops now am H)) ?messages ?H 1 = Some k"
    "searchstore_queryremote (sk_mc k) 2"
  proof -
    define k1 where "k1 = on_mc searchstore_clearremote sample_viewer"
    define k2 where "k2 = on_mc (\<lambda>m. m\<lparr>mc_remote_id := to_int32 (uint (2 :: uint32))\<rparr>) k1"
    have k1: "sk_results k1 = [sample_result]" "sk_type k1 = SEARCHTYPE_VENDING" "sk_effect k1 = SEARCHSTORE_EFFECT_REMOTE"
      "mc_search_open (sk_mc sample_viewer)" "sk_results sample_viewer = [sample_result]"
      by (simp_all add: k1_def sample_viewer_def sample_seeker_fields)
    have r: "sr_store_id sample_result = 7" "sr_account_id sample_result = 2" "sr_nameid sample_result = 501"
      by (simp_all add: sample_result_def report_def first_offer_def Let_def sample_seller_def merchant_of_def sample_player_def plain_potion_def)
    have shop: "searchstore_hasstore SEARCHTYPE_VENDING (seeker_of sample_seller)" "searchstore_getstoreid SEARCHTYPE_VENDING (seeker_of sample_seller) = 7"
      "searchstore_getsearchfunc SEARCHTYPE_VENDING (seeker_of sample_seller) 501"
      by (simp_all add: searchstore_hasstore_def searchstore_getstoreid_def searchstore_getsearchfunc_def seeker_of_def vending_search_def
          sample_seller_def merchant_of_def plain_potion_def)
    let ?H2 = "sample_hall(1 := Some k2)"
    have "snd (searchstore_click sample_ss_env 1 2 7 501 ?H) = with_market (vending_vendinglistreq 1 2 (market_of ?H2)) ?H2"
      using k1 r shop by (simp add: searchstore_click_def Let_def k1_def [symmetric] k2_def [symmetric]) (simp add: sample_hall_def k2_def Let_def)
    then have step: "fold (\<lambda>(now, shops, am) H. snd (ss_handle sample_ss_env shops now am H)) ?messages ?H =
        with_market (vending_vendinglistreq 1 2 (market_of ?H2)) ?H2"
      by (simp add: ss_handle_def sample_ss_fields)
    obtain m where m: "mk_players (vending_vendinglistreq 1 2 (market_of ?H2)) 1 = Some m"
      using list_keeps_player [of "market_of ?H2" 1 1 2] by (auto simp: market_of_def)
    obtain m2 where "mk_players (market_of ?H2) 1 = Some m2" "mc_search_items m = mc_search_items m2" "mc_search_open m = mc_search_open m2"
      "mc_remote_id m = mc_remote_id m2" by (rule list_keeps_search [OF m])
    then have "searchstore_queryremote m 2"
      using remote_word [of 2]
      by (auto simp: market_of_def k2_def k1_def searchstore_queryremote_def searchstore_clearremote_def sample_viewer_def sample_seeker_fields)
    with m step that [of "on_mc (\<lambda>_. m) k2"] show ?thesis by (simp add: with_market_def)
  qed
  ultimately show ?thesis using remote_only_from_results [of ?H sample_ss_env ?messages 1 k 2] by auto
qed

end
