(* ===== verification/Duels.thy ===== *)
theory Duels
  imports Prelude
begin

text \<open>
  Duels (\<open>src/src/map/duel.cpp\<close>) with the commands that call them (\<open>src/src/map/atcommand.cpp\<close>) and the
  events in which a player leaves one: death, leaving the map, leaving the game. A duel counts its members and
  its invitations; who they are is known only from the players. Messages to other players and the effects of
  skills on the ground are left out.
\<close>

section \<open>The state\<close>

record duel =
  members_count :: int
  invites_count :: int
  max_players_limit :: int

definition zero_duel :: duel where
  "zero_duel = \<lparr>members_count = 0, invites_count = 0, max_players_limit = 0\<rparr>"

text \<open>What duels use of a player: \<open>duel_group\<close>, \<open>duel_invite\<close>, the variable \<open>PC_LAST_DUEL_TIME\<close>, the map,
  and whether the player stands on it (\<open>sd->prev\<close>).\<close>

record duelist =
  dl_group :: nat
  dl_invite :: nat
  dl_last_time :: int
  dl_m :: int
  dl_on_map :: bool

text \<open>\<open>duel_list\<close>, the counter of \<open>duel_create\<close>, and the players that \<open>map_foreachpc\<close> visits.\<close>

record duel_world =
  dw_list :: "(nat, duel) umap"
  dw_lastID :: nat
  dw_pcs :: "(uint32, duelist) umap"

record duel_env =
  de_time_interval :: int
  de_only_on_same_map :: bool
  de_autoleave_when_die :: bool

text \<open>The clock as \<open>localtime\<close> gives it: day of the month, hour, minute.\<close>

type_synonym tm = "int \<times> int \<times> int"

definition minute_of :: "tm \<Rightarrow> int" where
  "minute_of tm = (case tm of (mday, hour, mins) \<Rightarrow> mday * 24 * 60 + hour * 60 + mins)"

section \<open>The functions of the module\<close>

definition duel_exist :: "nat \<Rightarrow> duel_world \<Rightarrow> bool" where
  "duel_exist did W \<longleftrightarrow> um_find (dw_list W) did \<noteq> None"

text \<open>\<open>duel_list.at(did)\<close>, used only for duels that exist.\<close>

definition duel_get_duelid :: "nat \<Rightarrow> duel_world \<Rightarrow> duel" where
  "duel_get_duelid did W = (case um_find (dw_list W) did of None \<Rightarrow> zero_duel | Some D \<Rightarrow> D)"

definition duel_counttotal :: "duel_world \<Rightarrow> nat" where
  "duel_counttotal W = length (dw_list W)"

definition duel_countactives :: "duel_world \<Rightarrow> nat" where
  "duel_countactives W = length (filter (\<lambda>(did, D). members_count D > 1) (dw_list W))"

definition on_duel :: "nat \<Rightarrow> (duel \<Rightarrow> duel) \<Rightarrow> duel_world \<Rightarrow> duel_world" where
  "on_duel did f W = W\<lparr>dw_list := um_at did zero_duel f (dw_list W)\<rparr>"

definition on_pc :: "uint32 \<Rightarrow> (duelist \<Rightarrow> duelist) \<Rightarrow> duel_world \<Rightarrow> duel_world" where
  "on_pc a f W = W\<lparr>dw_pcs := um_modify a f (dw_pcs W)\<rparr>"

definition duel_savetime :: "tm \<Rightarrow> duelist \<Rightarrow> duelist" where
  "duel_savetime now sd = sd\<lparr>dl_last_time := minute_of now\<rparr>"

definition duel_checktime :: "duel_env \<Rightarrow> tm \<Rightarrow> duelist \<Rightarrow> bool" where
  "duel_checktime E now sd = (let diff = minute_of now - dl_last_time sd in \<not> (diff \<ge> 0 \<and> diff < de_time_interval E))"

definition duel_check_player_limit :: "duel \<Rightarrow> bool" where
  "duel_check_player_limit D = (if max_players_limit D > 0 \<and> members_count D \<ge> max_players_limit D then False else True)"

text \<open>What a player is told: a numbered message, or the state of the duel with those who take part.\<close>

datatype duel_reply =
    Msg nat
  | Info nat nat int int int "uint32 set"

text \<open>The players are listed in the order in which they are visited, which is left open.\<close>

definition duel_showinfo :: "nat \<Rightarrow> duel_world \<Rightarrow> duel_reply list" where
  "duel_showinfo did W =
     (if \<not> duel_exist did W then [] else
      let D = duel_get_duelid did W in
      [Info did (duel_counttotal W) (members_count D) (members_count D + invites_count D)
        (if max_players_limit D > 0 then max_players_limit D else 0)
        (set (map fst (filter (\<lambda>(a, sd). dl_group sd = did) (dw_pcs W))))])"

definition duel_set :: "nat \<Rightarrow> uint32 \<Rightarrow> duel_world \<Rightarrow> duel_world" where
  "duel_set did a W = on_pc a (\<lambda>sd. sd\<lparr>dl_group := did\<rparr>) W"

definition duel_create :: "uint32 \<Rightarrow> int \<Rightarrow> duel_world \<Rightarrow> nat \<times> duel_world" where
  "duel_create a maxpl W =
     (let lastID = dw_lastID W + 1;
          W1 = on_duel lastID (\<lambda>D. D\<lparr>members_count := members_count D + 1\<rparr>) (W\<lparr>dw_lastID := lastID\<rparr>);
          W2 = on_duel lastID (\<lambda>D. D\<lparr>invites_count := 0\<rparr>) W1;
          W3 = on_duel lastID (\<lambda>D. D\<lparr>max_players_limit := maxpl\<rparr>) W2
      in (lastID, duel_set lastID a W3))"

definition duel_invite :: "nat \<Rightarrow> uint32 \<Rightarrow> duel_world \<Rightarrow> bool \<times> duel_world" where
  "duel_invite did b W =
     (if \<not> duel_exist did W then (False, W) else
      (True, on_duel did (\<lambda>D. D\<lparr>invites_count := invites_count D + 1\<rparr>) (on_pc b (\<lambda>sd. sd\<lparr>dl_invite := did\<rparr>) W)))"

definition duel_leave_sub :: "nat \<Rightarrow> duelist \<Rightarrow> duelist" where
  "duel_leave_sub did sd = (if dl_invite sd = did then sd\<lparr>dl_invite := 0\<rparr> else sd)"

definition duel_leave :: "nat \<Rightarrow> tm \<Rightarrow> uint32 \<Rightarrow> duel_world \<Rightarrow> bool \<times> duel_world" where
  "duel_leave did now a W =
     (if \<not> duel_exist did W then (False, W) else
      let W1 = on_duel did (\<lambda>D. D\<lparr>members_count := members_count D - 1\<rparr>) W;
          W2 = (if members_count (duel_get_duelid did W1) = 0
                then W1\<lparr>dw_pcs := um_map (duel_leave_sub did) (dw_pcs W1), dw_list := um_erase did (dw_list W1)\<rparr> else W1)
      in (True, on_pc a (duel_savetime now) (duel_set 0 a W2)))"

definition duel_accept :: "nat \<Rightarrow> uint32 \<Rightarrow> duel_world \<Rightarrow> bool \<times> duel_world" where
  "duel_accept did a W =
     (if \<not> duel_exist did W then (False, W) else
      let W1 = on_duel did (\<lambda>D. D\<lparr>members_count := members_count D + 1, invites_count := invites_count D - 1\<rparr>) W;
          invite = (case um_find (dw_pcs W1) a of None \<Rightarrow> 0 | Some sd \<Rightarrow> dl_invite sd)
      in (True, on_pc a (\<lambda>sd. sd\<lparr>dl_invite := 0\<rparr>) (duel_set invite a W1)))"

definition duel_reject :: "nat \<Rightarrow> uint32 \<Rightarrow> duel_world \<Rightarrow> bool \<times> duel_world" where
  "duel_reject did a W =
     (if \<not> duel_exist did W then (False, W) else
      (True, on_pc a (\<lambda>sd. sd\<lparr>dl_invite := 0\<rparr>) (on_duel did (\<lambda>D. D\<lparr>invites_count := invites_count D - 1\<rparr>) W)))"

section \<open>The commands\<close>

text \<open>A player named in a command is what \<open>map_nick2sd\<close> finds.\<close>

datatype duel_argument = No_argument | Limit int | Opponent "uint32 option"

definition acmd_invite :: "duel_env \<Rightarrow> uint32 option \<Rightarrow> uint32 \<Rightarrow> duelist \<Rightarrow> duel_world \<Rightarrow> duel_reply list \<times> duel_world" where
  "acmd_invite E target a sd W =
     (let did = dl_group sd in
      if did = 0 \<or> \<not> duel_exist did W then ([Msg 350], W) else
      if \<not> duel_check_player_limit (duel_get_duelid did W) then ([Msg 351], W) else
      case Option.bind target (\<lambda>b. map_option (Pair b) (um_find (dw_pcs W) b)) of None \<Rightarrow> ([Msg 352], W) | Some (b, tsd) \<Rightarrow>
      if dl_group tsd > 0 \<or> dl_invite tsd > 0 then ([Msg 353], W) else
      if de_only_on_same_map E \<and> dl_m tsd \<noteq> dl_m sd then ([Msg 364], W) else
      ([Msg 354], snd (duel_invite did b W)))"

definition acmd_duel :: "duel_env \<Rightarrow> tm \<Rightarrow> duel_argument \<Rightarrow> uint32 \<Rightarrow> duelist \<Rightarrow> duel_world \<Rightarrow> duel_reply list \<times> duel_world" where
  "acmd_duel E now arg a sd W =
     (if dl_group sd > 0 then (duel_showinfo (dl_group sd) W, W) else
      if dl_invite sd > 0 then ([Msg 355], W) else
      if \<not> duel_checktime E now sd then ([Msg 356], W) else
      case arg of
        No_argument \<Rightarrow> ([], snd (duel_create a 0 W))
      | Limit maxpl \<Rightarrow> if maxpl < 2 \<or> maxpl > 65535 then ([Msg 357], W) else ([], snd (duel_create a maxpl W))
      | Opponent target \<Rightarrow>
          (case Option.bind target (\<lambda>b. map_option (\<lambda>_. b) (um_find (dw_pcs W) b)) of None \<Rightarrow> ([Msg 352], W) | Some b \<Rightarrow>
           case duel_create a 2 W of (newduel, W1) \<Rightarrow>
           (case um_find (dw_pcs W1) b of None \<Rightarrow> ([], W1) | Some tsd \<Rightarrow>
            if dl_group tsd > 0 \<or> dl_invite tsd > 0 then ([Msg 353], W1) else ([Msg 354], snd (duel_invite newduel b W1)))))"

definition acmd_leave :: "tm \<Rightarrow> uint32 \<Rightarrow> duelist \<Rightarrow> duel_world \<Rightarrow> duel_reply list \<times> duel_world" where
  "acmd_leave now a sd W =
     (if dl_group sd \<le> 0 then ([Msg 358], W) else ([Msg 359], snd (duel_leave (dl_group sd) now a W)))"

definition acmd_accept :: "duel_env \<Rightarrow> tm \<Rightarrow> uint32 \<Rightarrow> duelist \<Rightarrow> duel_world \<Rightarrow> duel_reply list \<times> duel_world" where
  "acmd_accept E now a sd W =
     (if \<not> duel_checktime E now sd then ([Msg 356], W) else
      if dl_invite sd \<le> 0 \<or> \<not> duel_exist (dl_invite sd) W then ([Msg 360], W) else
      if \<not> duel_check_player_limit (duel_get_duelid (dl_invite sd) W) then ([Msg 351], W) else
      ([Msg 361], snd (duel_accept (dl_invite sd) a W)))"

definition acmd_reject :: "uint32 \<Rightarrow> duelist \<Rightarrow> duel_world \<Rightarrow> duel_reply list \<times> duel_world" where
  "acmd_reject a sd W =
     (if dl_invite sd \<le> 0 then ([Msg 362], W) else ([Msg 363], snd (duel_reject (dl_invite sd) a W)))"

section \<open>Leaving by other ways\<close>

text \<open>A player leaves the duel or gives up the invitation, if there is one; \<open>sd\<close> is read anew each time.\<close>

definition leave_any :: "tm \<Rightarrow> uint32 \<Rightarrow> duel_world \<Rightarrow> duel_world" where
  "leave_any now a W = (case um_find (dw_pcs W) a of None \<Rightarrow> W | Some sd \<Rightarrow>
     if dl_group sd > 0 then snd (duel_leave (dl_group sd) now a W) else W)"

definition reject_any :: "uint32 \<Rightarrow> duel_world \<Rightarrow> duel_world" where
  "reject_any a W = (case um_find (dw_pcs W) a of None \<Rightarrow> W | Some sd \<Rightarrow>
     if dl_invite sd > 0 then snd (duel_reject (dl_invite sd) a W) else W)"

definition pc_dead_duel :: "duel_env \<Rightarrow> tm \<Rightarrow> uint32 \<Rightarrow> duel_world \<Rightarrow> duel_world" where
  "pc_dead_duel E now a W = (if de_autoleave_when_die E then reject_any a (leave_any now a W) else W)"

text \<open>\<open>unit_remove_map\<close> for a player who stands on a map, and \<open>unit_free\<close>, after which the player is gone.\<close>

definition unit_remove_map_duel :: "tm \<Rightarrow> uint32 \<Rightarrow> duel_world \<Rightarrow> duel_world" where
  "unit_remove_map_duel now a W = (case um_find (dw_pcs W) a of None \<Rightarrow> W | Some sd \<Rightarrow>
     if dl_on_map sd then on_pc a (\<lambda>sd. sd\<lparr>dl_on_map := False\<rparr>) (leave_any now a W) else W)"

definition unit_free_duel :: "tm \<Rightarrow> uint32 \<Rightarrow> duel_world \<Rightarrow> duel_world" where
  "unit_free_duel now a W =
     (let W1 = reject_any a (unit_remove_map_duel now a W) in W1\<lparr>dw_pcs := um_erase a (dw_pcs W1)\<rparr>)"

section \<open>Everything that happens\<close>

datatype duel_command = At_duel duel_argument | At_invite "uint32 option" | At_accept | At_reject | At_leave

datatype duel_event =
    Dl_login int int
  | Dl_enter int
  | Dl_command duel_command
  | Dl_die
  | Dl_remove
  | Dl_quit

text \<open>Packets of a player who stands on no map are not looked at, so commands need one who does.\<close>

definition do_command :: "duel_env \<Rightarrow> tm \<Rightarrow> duel_command \<Rightarrow> uint32 \<Rightarrow> duelist \<Rightarrow> duel_world \<Rightarrow> duel_reply list \<times> duel_world" where
  "do_command E now cmd a sd W = (case cmd of
     At_duel arg \<Rightarrow> acmd_duel E now arg a sd W
   | At_invite target \<Rightarrow> acmd_invite E target a sd W
   | At_accept \<Rightarrow> acmd_accept E now a sd W
   | At_reject \<Rightarrow> acmd_reject a sd W
   | At_leave \<Rightarrow> acmd_leave now a sd W)"

definition duel_step :: "duel_env \<Rightarrow> tm \<times> uint32 \<times> duel_event \<Rightarrow> duel_world \<Rightarrow> duel_reply list \<times> duel_world" where
  "duel_step E ev W = (case ev of (now, a, e) \<Rightarrow>
     (case um_find (dw_pcs W) a of
        None \<Rightarrow> (case e of
          Dl_login when m \<Rightarrow> ([], W\<lparr>dw_pcs := um_put a \<lparr>dl_group = 0, dl_invite = 0, dl_last_time = when, dl_m = m, dl_on_map = False\<rparr> (dw_pcs W)\<rparr>)
        | _ \<Rightarrow> ([], W))
      | Some sd \<Rightarrow> (case e of
          Dl_login when m \<Rightarrow> ([], W)
        | Dl_enter m \<Rightarrow> ([], if dl_on_map sd then W else on_pc a (\<lambda>sd. sd\<lparr>dl_m := m, dl_on_map := True\<rparr>) W)
        | Dl_command cmd \<Rightarrow> if \<not> dl_on_map sd then ([], W) else do_command E now cmd a sd W
        | Dl_die \<Rightarrow> ([], pc_dead_duel E now a W)
        | Dl_remove \<Rightarrow> ([], unit_remove_map_duel now a W)
        | Dl_quit \<Rightarrow> ([], unit_free_duel now a W))))"

end
