(* ===== verification/Tourney.thy ===== *)
theory Tourney
  imports Duels
begin

text \<open>
  What duels are meant to be: every player is free, asked to a duel, or fighting in one, and a duel lasts as long
  as somebody fights in it. The module keeps counters and numbers instead; as long as they agree with the
  players (\<open>duel_ok\<close>), it does what is meant.
\<close>

section \<open>The specification\<close>

datatype standing = Free | Asked nat | Fighting nat

record fighter =
  fi_standing :: standing
  fi_last :: int
  fi_m :: int
  fi_on_map :: bool

record tourney =
  tn_players :: "uint32 \<Rightarrow> fighter option"
  tn_limit :: "nat \<Rightarrow> int"
  tn_last :: nat

definition fighters :: "nat \<Rightarrow> tourney \<Rightarrow> uint32 set" where
  "fighters d S = {a. map_option fi_standing (tn_players S a) = Some (Fighting d)}"

definition asked :: "nat \<Rightarrow> tourney \<Rightarrow> uint32 set" where
  "asked d S = {a. map_option fi_standing (tn_players S a) = Some (Asked d)}"

definition running :: "tourney \<Rightarrow> nat set" where
  "running S = {d. fighters d S \<noteq> {}}"

definition room :: "nat \<Rightarrow> tourney \<Rightarrow> bool" where
  "room d S \<longleftrightarrow> (tn_limit S d > 0 \<longrightarrow> int (card (fighters d S)) < tn_limit S d)"

definition rested :: "duel_env \<Rightarrow> tm \<Rightarrow> fighter \<Rightarrow> bool" where
  "rested E now f \<longleftrightarrow> minute_of now < fi_last f \<or> minute_of now \<ge> fi_last f + de_time_interval E"

definition stand :: "standing \<Rightarrow> fighter \<Rightarrow> fighter" where
  "stand s f = f\<lparr>fi_standing := s\<rparr>"

definition set_fighter :: "uint32 \<Rightarrow> (fighter \<Rightarrow> fighter) \<Rightarrow> tourney \<Rightarrow> tourney" where
  "set_fighter a g S = S\<lparr>tn_players := (tn_players S)(a := map_option g (tn_players S a))\<rparr>"

definition spec_found :: "uint32 \<Rightarrow> int \<Rightarrow> tourney \<Rightarrow> tourney" where
  "spec_found a maxpl S = (let d = tn_last S + 1 in
     set_fighter a (stand (Fighting d)) (S\<lparr>tn_last := d, tn_limit := (tn_limit S)(d := maxpl)\<rparr>))"

text \<open>A duel in which nobody fights any more is over, and who was asked to it is free.\<close>

definition spec_end :: "nat \<Rightarrow> tourney \<Rightarrow> tourney" where
  "spec_end d S = (if fighters d S = {} then
     S\<lparr>tn_players := (\<lambda>a. map_option (\<lambda>f. if fi_standing f = Asked d then stand Free f else f) (tn_players S a)),
       tn_limit := (tn_limit S)(d := 0)\<rparr> else S)"

definition spec_leave :: "tm \<Rightarrow> uint32 \<Rightarrow> tourney \<Rightarrow> tourney" where
  "spec_leave now a S = (case map_option fi_standing (tn_players S a) of
     Some (Fighting d) \<Rightarrow> spec_end d (set_fighter a (\<lambda>f. (stand Free f)\<lparr>fi_last := minute_of now\<rparr>) S)
   | _ \<Rightarrow> S)"

definition spec_reject :: "uint32 \<Rightarrow> tourney \<Rightarrow> tourney" where
  "spec_reject a S = (case map_option fi_standing (tn_players S a) of
     Some (Asked d) \<Rightarrow> set_fighter a (stand Free) S | _ \<Rightarrow> S)"

definition spec_invite :: "duel_env \<Rightarrow> uint32 option \<Rightarrow> fighter \<Rightarrow> tourney \<Rightarrow> duel_reply list \<times> tourney" where
  "spec_invite E target f S = (case fi_standing f of
     Fighting d \<Rightarrow>
       (if \<not> room d S then ([Msg 351], S) else
        case Option.bind target (\<lambda>b. map_option (Pair b) (tn_players S b)) of None \<Rightarrow> ([Msg 352], S) | Some (b, g) \<Rightarrow>
        if fi_standing g \<noteq> Free then ([Msg 353], S) else
        if de_only_on_same_map E \<and> fi_m g \<noteq> fi_m f then ([Msg 364], S) else
        ([Msg 354], set_fighter b (stand (Asked d)) S))
   | _ \<Rightarrow> ([Msg 350], S))"

definition spec_info :: "nat \<Rightarrow> tourney \<Rightarrow> duel_reply" where
  "spec_info d S = Info d (card (running S)) (int (card (fighters d S))) (int (card (fighters d S)) + int (card (asked d S)))
     (tn_limit S d) (fighters d S)"

definition spec_duel :: "duel_env \<Rightarrow> tm \<Rightarrow> duel_argument \<Rightarrow> uint32 \<Rightarrow> fighter \<Rightarrow> tourney \<Rightarrow> duel_reply list \<times> tourney" where
  "spec_duel E now arg a f S = (case fi_standing f of
     Fighting d \<Rightarrow> ([spec_info d S], S)
   | Asked d \<Rightarrow> ([Msg 355], S)
   | Free \<Rightarrow>
      if \<not> rested E now f then ([Msg 356], S) else
      (case arg of
         No_argument \<Rightarrow> ([], spec_found a 0 S)
       | Limit maxpl \<Rightarrow> if 2 \<le> maxpl \<and> maxpl \<le> 65535 then ([], spec_found a maxpl S) else ([Msg 357], S)
       | Opponent target \<Rightarrow>
           (case Option.bind target (\<lambda>b. map_option (Pair b) (tn_players S b)) of None \<Rightarrow> ([Msg 352], S) | Some (b, g) \<Rightarrow>
            let S1 = spec_found a 2 S in
            if b = a \<or> fi_standing g \<noteq> Free then ([Msg 353], S1)
            else ([Msg 354], set_fighter b (stand (Asked (tn_last S1))) S1))))"

definition spec_accept :: "duel_env \<Rightarrow> tm \<Rightarrow> uint32 \<Rightarrow> fighter \<Rightarrow> tourney \<Rightarrow> duel_reply list \<times> tourney" where
  "spec_accept E now a f S =
     (if \<not> rested E now f then ([Msg 356], S) else
      case fi_standing f of
        Asked d \<Rightarrow> if room d S then ([Msg 361], set_fighter a (stand (Fighting d)) S) else ([Msg 351], S)
      | _ \<Rightarrow> ([Msg 360], S))"

definition spec_command :: "duel_env \<Rightarrow> tm \<Rightarrow> duel_command \<Rightarrow> uint32 \<Rightarrow> fighter \<Rightarrow> tourney \<Rightarrow> duel_reply list \<times> tourney" where
  "spec_command E now cmd a f S = (case cmd of
     At_duel arg \<Rightarrow> spec_duel E now arg a f S
   | At_invite target \<Rightarrow> spec_invite E target f S
   | At_accept \<Rightarrow> spec_accept E now a f S
   | At_reject \<Rightarrow> (case fi_standing f of Asked d \<Rightarrow> ([Msg 363], spec_reject a S) | _ \<Rightarrow> ([Msg 362], S))
   | At_leave \<Rightarrow> (case fi_standing f of Fighting d \<Rightarrow> ([Msg 359], spec_leave now a S) | _ \<Rightarrow> ([Msg 358], S)))"

text \<open>Who leaves the map leaves the duel; who leaves the game gives up an invitation too.\<close>

definition spec_remove :: "tm \<Rightarrow> uint32 \<Rightarrow> tourney \<Rightarrow> tourney" where
  "spec_remove now a S = set_fighter a (\<lambda>f. f\<lparr>fi_on_map := False\<rparr>) (spec_leave now a S)"

definition spec_step :: "duel_env \<Rightarrow> tm \<times> uint32 \<times> duel_event \<Rightarrow> tourney \<Rightarrow> duel_reply list \<times> tourney" where
  "spec_step E ev S = (case ev of (now, a, e) \<Rightarrow>
     (case tn_players S a of
        None \<Rightarrow> (case e of
          Dl_login when m \<Rightarrow> ([], S\<lparr>tn_players := (tn_players S)(a \<mapsto> \<lparr>fi_standing = Free, fi_last = when, fi_m = m, fi_on_map = False\<rparr>)\<rparr>)
        | _ \<Rightarrow> ([], S))
      | Some f \<Rightarrow> (case e of
          Dl_login when m \<Rightarrow> ([], S)
        | Dl_enter m \<Rightarrow> ([], if fi_on_map f then S else set_fighter a (\<lambda>f. f\<lparr>fi_m := m, fi_on_map := True\<rparr>) S)
        | Dl_command cmd \<Rightarrow> if fi_on_map f then spec_command E now cmd a f S else ([], S)
        | Dl_die \<Rightarrow> ([], if de_autoleave_when_die E then spec_reject a (spec_leave now a S) else S)
        | Dl_remove \<Rightarrow> ([], if fi_on_map f then spec_remove now a S else S)
        | Dl_quit \<Rightarrow>
            let S1 = spec_reject a (if fi_on_map f then spec_remove now a S else S)
            in ([], S1\<lparr>tn_players := (tn_players S1)(a := None)\<rparr>))))"

section \<open>The module as the specification sees it\<close>

definition standing_of :: "duelist \<Rightarrow> standing" where
  "standing_of sd = (if dl_group sd > 0 then Fighting (dl_group sd) else if dl_invite sd > 0 then Asked (dl_invite sd) else Free)"

definition fighter_of :: "duelist \<Rightarrow> fighter" where
  "fighter_of sd = \<lparr>fi_standing = standing_of sd, fi_last = dl_last_time sd, fi_m = dl_m sd, fi_on_map = dl_on_map sd\<rparr>"

definition tourney_of :: "duel_world \<Rightarrow> tourney" where
  "tourney_of W = \<lparr>tn_players = (\<lambda>a. map_option fighter_of (um_find (dw_pcs W) a)),
     tn_limit = (\<lambda>d. max_players_limit (duel_get_duelid d W)), tn_last = dw_lastID W\<rparr>"

text \<open>The counters of a duel are right, its limit holds, and somebody fights in it; a player fights or is asked only
  to a duel that exists, never both, and fights only while on a map.\<close>

definition count_ok :: "duel_world \<Rightarrow> nat \<Rightarrow> duel \<Rightarrow> bool" where
  "count_ok W d D \<longleftrightarrow> 0 < d \<and> d \<le> dw_lastID W \<and> members_count D = int (card (fighters d (tourney_of W))) \<and>
     fighters d (tourney_of W) \<noteq> {} \<and> invites_count D = int (card (asked d (tourney_of W))) \<and>
     0 \<le> max_players_limit D \<and> (0 < max_players_limit D \<longrightarrow> members_count D \<le> max_players_limit D)"

definition pc_ok :: "duel_world \<Rightarrow> duelist \<Rightarrow> bool" where
  "pc_ok W sd \<longleftrightarrow> (dl_group sd = 0 \<or> dl_invite sd = 0) \<and> (0 < dl_group sd \<longrightarrow> duel_exist (dl_group sd) W \<and> dl_on_map sd) \<and>
     (0 < dl_invite sd \<longrightarrow> duel_exist (dl_invite sd) W)"

definition duel_ok :: "duel_world \<Rightarrow> bool" where
  "duel_ok W \<longleftrightarrow> um_wf (dw_list W) \<and> um_wf (dw_pcs W) \<and>
     (\<forall>d D. um_find (dw_list W) d = Some D \<longrightarrow> count_ok W d D) \<and> (\<forall>a sd. um_find (dw_pcs W) a = Some sd \<longrightarrow> pc_ok W sd)"

definition empty_duels :: duel_world where
  "empty_duels = \<lparr>dw_list = [], dw_lastID = 0, dw_pcs = []\<rparr>"

lemma empty_duels_ok: "duel_ok empty_duels"
  by (simp add: duel_ok_def empty_duels_def umap_simps wf_intros)

lemma finite_players: "finite (fighters d (tourney_of W))" "finite (asked d (tourney_of W))"
proof -
  have "finite (fst ` set (dw_pcs W))" by simp
  then show "finite (fighters d (tourney_of W))" "finite (asked d (tourney_of W))"
    by (rule finite_subset [rotated]; force simp: fighters_def asked_def tourney_of_def um_find_def dest: map_of_SomeD)+
qed

end
