(* ===== verification/DuelRules.thy ===== *)
theory DuelRules
  imports Tourney
begin

text \<open>
  Every operation on duels keeps the counters right and does what the specification does: the simulation behind
  the properties of the duels.
\<close>

section \<open>Players and counters\<close>

lemma tourney_simps [simp]:
  "tn_players (tourney_of W) a = map_option fighter_of (um_find (dw_pcs W) a)"
  "tn_limit (tourney_of W) d = max_players_limit (duel_get_duelid d W)"
  "tn_last (tourney_of W) = dw_lastID W"
  by (simp_all add: tourney_of_def)

lemma fighter_simps [simp]:
  "fi_standing (fighter_of sd) = standing_of sd" "fi_last (fighter_of sd) = dl_last_time sd"
  "fi_m (fighter_of sd) = dl_m sd" "fi_on_map (fighter_of sd) = dl_on_map sd"
  by (simp_all add: fighter_of_def)

lemma stand_simps [simp]: "fi_standing (stand s f) = s" "fi_last (stand s f) = fi_last f"
  by (simp_all add: stand_def)

lemma set_fighter_simps [simp]:
  "tn_players (set_fighter a g S) = (tn_players S)(a := map_option g (tn_players S a))" "tn_limit (set_fighter a g S) = tn_limit S"
  "tn_last (set_fighter a g S) = tn_last S"
  by (simp_all add: set_fighter_def)

lemma standing_cases:
  "standing_of sd = Fighting d \<longleftrightarrow> dl_group sd = d \<and> 0 < d"
  "standing_of sd = Asked d \<longleftrightarrow> dl_group sd = 0 \<and> dl_invite sd = d \<and> 0 < d"
  "standing_of sd = Free \<longleftrightarrow> dl_group sd = 0 \<and> dl_invite sd = 0"
  by (auto simp: standing_of_def)

lemma set_fighter_sets:
  assumes "tn_players S a = Some f"
  shows "fighters d (set_fighter a g S) = (if fi_standing (g f) = Fighting d then insert a (fighters d S) else fighters d S - {a})"
    and "asked d (set_fighter a g S) = (if fi_standing (g f) = Asked d then insert a (asked d S) else asked d S - {a})"
  using assms by (auto simp: fighters_def asked_def)

lemma in_sets: "a \<in> fighters d S \<longleftrightarrow> map_option fi_standing (tn_players S a) = Some (Fighting d)"
  "a \<in> asked d S \<longleftrightarrow> map_option fi_standing (tn_players S a) = Some (Asked d)"
  by (simp_all add: fighters_def asked_def)

lemma sets_cong: "tn_players S = tn_players T \<Longrightarrow> fighters d S = fighters d T" "tn_players S = tn_players T \<Longrightarrow> asked d S = asked d T"
  by (simp_all add: fighters_def asked_def)

lemma on_simps [simp]:
  "um_find (dw_pcs (on_pc a f W)) b = (if b = a then map_option f (um_find (dw_pcs W) b) else um_find (dw_pcs W) b)"
  "dw_list (on_pc a f W) = dw_list W" "dw_lastID (on_pc a f W) = dw_lastID W"
  "dw_pcs (on_duel d h W) = dw_pcs W" "dw_lastID (on_duel d h W) = dw_lastID W"
  "um_find (dw_list (on_duel d h W)) e = (if e = d then Some (h (duel_get_duelid d W)) else um_find (dw_list W) e)"
  by (simp_all add: on_pc_def on_duel_def umap_simps duel_get_duelid_def)

lemma on_wf [wf_intros]:
  "um_wf (dw_pcs W) \<Longrightarrow> um_wf (dw_pcs (on_pc a f W))" "um_wf (dw_list W) \<Longrightarrow> um_wf (dw_list (on_duel d h W))"
  by (simp_all add: on_pc_def on_duel_def wf_intros)

lemma duel_get_simps [simp]:
  "duel_get_duelid e (on_pc a f W) = duel_get_duelid e W"
  "duel_get_duelid e (on_duel d h W) = (if e = d then h (duel_get_duelid d W) else duel_get_duelid e W)"
  "duel_exist e (on_pc a f W) \<longleftrightarrow> duel_exist e W" "duel_exist e (on_duel d h W) \<longleftrightarrow> e = d \<or> duel_exist e W"
  by (simp_all add: duel_get_duelid_def [of e] duel_exist_def)

lemma duel_getI: "um_find (dw_list W) d = Some D \<Longrightarrow> duel_get_duelid d W = D" "duel_exist d W \<Longrightarrow> um_find (dw_list W) d = Some (duel_get_duelid d W)"
  by (auto simp: duel_get_duelid_def duel_exist_def)

text \<open>Changing one player as the specification does; changing a duel but its limit is not seen.\<close>

lemma tourney_on_pc:
  "um_find (dw_pcs W) a = Some sd \<Longrightarrow> fighter_of (f sd) = g (fighter_of sd) \<Longrightarrow> tourney_of (on_pc a f W) = set_fighter a g (tourney_of W)"
  by (simp add: tourney_of_def set_fighter_def fun_eq_iff)

lemma tourney_on_duel:
  "max_players_limit (h (duel_get_duelid d W)) = max_players_limit (duel_get_duelid d W) \<Longrightarrow> tourney_of (on_duel d h W) = tourney_of W"
  by (auto simp: tourney_of_def)

section \<open>What the invariant says\<close>

lemma duel_okD:
  assumes "duel_ok W"
  shows "um_wf (dw_list W)" "um_wf (dw_pcs W)" "um_find (dw_list W) d = Some D \<Longrightarrow> count_ok W d D"
    "um_find (dw_pcs W) a = Some sd \<Longrightarrow> pc_ok W sd"
  using assms by (auto simp: duel_ok_def)

lemma duel_exists_iff:
  assumes "duel_ok W"
  shows "duel_exist d W \<longleftrightarrow> fighters d (tourney_of W) \<noteq> {}"
proof
  assume "duel_exist d W"
  then show "fighters d (tourney_of W) \<noteq> {}" using duel_okD(3) [OF assms duel_getI(2)] by (simp add: count_ok_def)
next
  assume "fighters d (tourney_of W) \<noteq> {}"
  then obtain a where "a \<in> fighters d (tourney_of W)" by blast
  then obtain sd where "um_find (dw_pcs W) a = Some sd" "dl_group sd = d" "0 < d" by (auto simp: in_sets standing_cases)
  then show "duel_exist d W" using duel_okD(4) [OF assms, of a sd] by (simp add: pc_ok_def)
qed

lemma asked_exists: "duel_ok W \<Longrightarrow> a \<in> asked d (tourney_of W) \<Longrightarrow> duel_exist d W"
  by (auto simp: in_sets standing_cases dest!: duel_okD(4) simp: pc_ok_def)

lemma fresh_duel:
  assumes "duel_ok W"
  shows "\<not> duel_exist (Suc (dw_lastID W)) W" "fighters (Suc (dw_lastID W)) (tourney_of W) = {}" "asked (Suc (dw_lastID W)) (tourney_of W) = {}"
proof -
  show none: "\<not> duel_exist (Suc (dw_lastID W)) W"
    using duel_okD(3) [OF assms duel_getI(2), of "Suc (dw_lastID W)"] by (auto simp: count_ok_def)
  show "fighters (Suc (dw_lastID W)) (tourney_of W) = {}" using none duel_exists_iff [OF assms] by blast
  show "asked (Suc (dw_lastID W)) (tourney_of W) = {}" using none asked_exists [OF assms] by blast
qed

lemma running_count:
  assumes "duel_ok W"
  shows "card (running (tourney_of W)) = duel_counttotal W"
proof -
  have "running (tourney_of W) = fst ` set (dw_list W)"
    using duel_exists_iff [OF assms] by (auto simp: running_def duel_exist_def um_find_def map_of_eq_None_iff)
  then show ?thesis using duel_okD(1) [OF assms] by (simp add: um_wf_def duel_counttotal_def distinct_card flip: set_map)
qed

lemma room_iff:
  assumes "duel_ok W" "duel_exist d W"
  shows "duel_check_player_limit (duel_get_duelid d W) \<longleftrightarrow> room d (tourney_of W)"
  using duel_okD(3) [OF assms(1) duel_getI(2) [OF assms(2)]] by (auto simp: duel_check_player_limit_def room_def count_ok_def)

lemma rested_iff: "duel_checktime E now sd \<longleftrightarrow> rested E now (fighter_of sd)"
  by (auto simp: duel_checktime_def rested_def Let_def)

section \<open>The operations\<close>

lemma duel_okI:
  assumes "um_wf (dw_list W)" "um_wf (dw_pcs W)" "\<And>d D. um_find (dw_list W) d = Some D \<Longrightarrow> count_ok W d D"
    and "\<And>a sd. um_find (dw_pcs W) a = Some sd \<Longrightarrow> pc_ok W sd"
  shows "duel_ok W"
  using assms by (auto simp: duel_ok_def)

lemma pc_ok_mono: "pc_ok W sd \<Longrightarrow> (\<And>d. duel_exist d W \<Longrightarrow> duel_exist d W') \<Longrightarrow> pc_ok W' sd"
  by (auto simp: pc_ok_def)

lemma card_insert_players:
  "a \<notin> fighters d (tourney_of W) \<Longrightarrow> card (insert a (fighters d (tourney_of W))) = card (fighters d (tourney_of W)) + 1"
  "a \<notin> asked d (tourney_of W) \<Longrightarrow> card (insert a (asked d (tourney_of W))) = card (asked d (tourney_of W)) + 1"
  "a \<in> fighters d (tourney_of W) \<Longrightarrow> int (card (fighters d (tourney_of W)) - Suc 0) = int (card (fighters d (tourney_of W))) - 1"
  "a \<in> asked d (tourney_of W) \<Longrightarrow> int (card (asked d (tourney_of W)) - Suc 0) = int (card (asked d (tourney_of W))) - 1"
  using card_gt_0_iff [of "fighters d (tourney_of W)"] card_gt_0_iff [of "asked d (tourney_of W)"]
  by (auto simp: finite_players of_nat_diff Suc_leI)

text \<open>A player who changes his standing within the duels that exist.\<close>

lemma restand_ok:
  assumes ok: "duel_ok W" and a: "um_find (dw_pcs W) a = Some sd" and d: "duel_exist d W"
    and T: "tourney_of W' = set_fighter a g (tourney_of W)" and wf: "um_wf (dw_list W')" "um_wf (dw_pcs W')" and id: "dw_lastID W' = dw_lastID W"
    and list: "\<And>e. um_find (dw_list W') e = (if e = d then Some D else um_find (dw_list W) e)" and D: "count_ok W' d D"
    and pcs: "\<And>b. b \<noteq> a \<Longrightarrow> um_find (dw_pcs W') b = um_find (dw_pcs W) b" "\<And>sd'. um_find (dw_pcs W') a = Some sd' \<Longrightarrow> pc_ok W' sd'"
    and old: "\<And>e. e \<noteq> d \<Longrightarrow> standing_of sd \<noteq> Fighting e \<and> standing_of sd \<noteq> Asked e \<and>
      fi_standing (g (fighter_of sd)) \<noteq> Fighting e \<and> fi_standing (g (fighter_of sd)) \<noteq> Asked e"
  shows "duel_ok W'"
proof (rule duel_okI [OF wf])
  note sets = set_fighter_sets [of "tourney_of W" a "fighter_of sd", OF _, unfolded tourney_simps]
  fix e D'
  assume e: "um_find (dw_list W') e = Some D'"
  show "count_ok W' e D'"
  proof (cases "e = d")
    case True
    with e D list show ?thesis by simp
  next
    case False
    then have "count_ok W e D'" using e list duel_okD(3) [OF ok] by simp
    moreover have "a \<notin> fighters e (tourney_of W)" "a \<notin> asked e (tourney_of W)" using old [OF False] a by (simp_all add: in_sets)
    ultimately show ?thesis using old [OF False] a id by (auto simp: count_ok_def T sets)
  qed
next
  fix b sd'
  assume b: "um_find (dw_pcs W') b = Some sd'"
  have more: "duel_exist e W'" if "duel_exist e W" for e using that list d by (auto simp: duel_exist_def)
  show "pc_ok W' sd'"
    using b pcs pc_ok_mono [OF duel_okD(4) [OF ok, of b sd'] more] by (cases "b = a") auto
qed

lemma invite_spec:
  assumes ok: "duel_ok W" and d: "duel_exist d W" and b: "um_find (dw_pcs W) b = Some tsd" and free: "standing_of tsd = Free"
  shows "tourney_of (snd (duel_invite d b W)) = set_fighter b (stand (Asked d)) (tourney_of W)" "duel_ok (snd (duel_invite d b W))"
proof -
  let ?W1 = "on_pc b (\<lambda>sd. sd\<lparr>dl_invite := d\<rparr>) W"
  let ?W = "on_duel d (\<lambda>D. D\<lparr>invites_count := invites_count D + 1\<rparr>) ?W1"
  have W: "snd (duel_invite d b W) = ?W" using d by (simp add: duel_invite_def)
  have count: "count_ok W d (duel_get_duelid d W)" by (rule duel_okD(3) [OF ok duel_getI(2) [OF d]])
  then have pos: "0 < d" by (simp add: count_ok_def)
  have sd: "dl_group tsd = 0" "dl_invite tsd = 0" using free by (simp_all add: standing_cases)
  have "tourney_of ?W = tourney_of ?W1" by (rule tourney_on_duel) simp
  also have T: "tourney_of ?W1 = set_fighter b (stand (Asked d)) (tourney_of W)"
    by (rule tourney_on_pc [OF b]) (use sd pos in \<open>simp add: fighter_of_def stand_def standing_of_def\<close>)
  finally have T: "tourney_of ?W = set_fighter b (stand (Asked d)) (tourney_of W)" .
  have out: "b \<notin> fighters d (tourney_of W)" "b \<notin> asked d (tourney_of W)" using free b by (simp_all add: in_sets)
  show "duel_ok (snd (duel_invite d b W))" unfolding W
  proof (rule restand_ok [OF ok b d T])
    show "count_ok ?W d ((duel_get_duelid d W)\<lparr>invites_count := invites_count (duel_get_duelid d W) + 1\<rparr>)"
      using count b out by (auto simp: count_ok_def T set_fighter_sets [of _ b "fighter_of tsd"] card_insert_players)
    show "pc_ok ?W sd'" if "um_find (dw_pcs ?W) b = Some sd'" for sd'
      using that b free by (auto simp: pc_ok_def standing_cases)
  qed (use free ok in \<open>simp_all add: wf_intros duel_okD(1,2)\<close>)
  show "tourney_of (snd (duel_invite d b W)) = set_fighter b (stand (Asked d)) (tourney_of W)" unfolding W by (rule T)
qed

lemma reject_spec:
  assumes ok: "duel_ok W" and a: "um_find (dw_pcs W) a = Some sd" and asked: "standing_of sd = Asked d"
  shows "tourney_of (snd (duel_reject d a W)) = set_fighter a (stand Free) (tourney_of W)" "duel_ok (snd (duel_reject d a W))"
proof -
  have sd: "dl_group sd = 0" "dl_invite sd = d" "0 < d" using asked by (simp_all add: standing_cases)
  have d: "duel_exist d W" using duel_okD(4) [OF ok a] sd by (simp add: pc_ok_def)
  let ?W1 = "on_duel d (\<lambda>D. D\<lparr>invites_count := invites_count D - 1\<rparr>) W"
  let ?W = "on_pc a (\<lambda>sd. sd\<lparr>dl_invite := 0\<rparr>) ?W1"
  have W: "snd (duel_reject d a W) = ?W" using d by (simp add: duel_reject_def)
  have count: "count_ok W d (duel_get_duelid d W)" by (rule duel_okD(3) [OF ok duel_getI(2) [OF d]])
  have "tourney_of ?W = set_fighter a (stand Free) (tourney_of ?W1)"
    by (rule tourney_on_pc [where sd = sd]) (use a sd in \<open>simp_all add: fighter_of_def stand_def standing_of_def\<close>)
  moreover have "tourney_of ?W1 = tourney_of W" by (rule tourney_on_duel) simp
  ultimately have T: "tourney_of ?W = set_fighter a (stand Free) (tourney_of W)" by simp
  have sets: "a \<notin> fighters d (tourney_of W)" "a \<in> asked d (tourney_of W)" using asked a by (simp_all add: in_sets)
  show "duel_ok (snd (duel_reject d a W))" unfolding W
  proof (rule restand_ok [OF ok a d T])
    show "count_ok ?W d ((duel_get_duelid d W)\<lparr>invites_count := invites_count (duel_get_duelid d W) - 1\<rparr>)"
      using count a sets by (auto simp: count_ok_def T set_fighter_sets [of _ a "fighter_of sd"] card_insert_players)
    show "pc_ok ?W sd'" if "um_find (dw_pcs ?W) a = Some sd'" for sd'
      using that a sd by (auto simp: pc_ok_def)
  qed (use asked ok in \<open>simp_all add: wf_intros duel_okD(1,2)\<close>)
  show "tourney_of (snd (duel_reject d a W)) = set_fighter a (stand Free) (tourney_of W)" unfolding W by (rule T)
qed

lemma accept_spec:
  assumes ok: "duel_ok W" and a: "um_find (dw_pcs W) a = Some sd" and asked: "standing_of sd = Asked d" and on: "dl_on_map sd"
    and room: "room d (tourney_of W)"
  shows "tourney_of (snd (duel_accept d a W)) = set_fighter a (stand (Fighting d)) (tourney_of W)" "duel_ok (snd (duel_accept d a W))"
proof -
  have sd: "dl_group sd = 0" "dl_invite sd = d" "0 < d" using asked by (simp_all add: standing_cases)
  have d: "duel_exist d W" using duel_okD(4) [OF ok a] sd by (simp add: pc_ok_def)
  let ?W1 = "on_duel d (\<lambda>D. D\<lparr>members_count := members_count D + 1, invites_count := invites_count D - 1\<rparr>) W"
  let ?W2 = "on_pc a (\<lambda>sd. sd\<lparr>dl_group := d\<rparr>) ?W1"
  let ?W = "on_pc a (\<lambda>sd. sd\<lparr>dl_invite := 0\<rparr>) ?W2"
  have W: "snd (duel_accept d a W) = ?W" using d a sd by (simp add: duel_accept_def duel_set_def)
  have count: "count_ok W d (duel_get_duelid d W)" by (rule duel_okD(3) [OF ok duel_getI(2) [OF d]])
  have "tourney_of ?W = set_fighter a id (tourney_of ?W2)"
    by (rule tourney_on_pc [where sd = "sd\<lparr>dl_group := d\<rparr>"]) (use a sd in \<open>simp_all add: fighter_of_def standing_of_def\<close>)
  moreover have "tourney_of ?W2 = set_fighter a (stand (Fighting d)) (tourney_of ?W1)"
    by (rule tourney_on_pc [where sd = sd]) (use a sd in \<open>simp_all add: fighter_of_def stand_def standing_of_def\<close>)
  moreover have "tourney_of ?W1 = tourney_of W" by (rule tourney_on_duel) simp
  ultimately have T: "tourney_of ?W = set_fighter a (stand (Fighting d)) (tourney_of W)"
    by (simp add: set_fighter_def option.map_id)
  have sets: "a \<notin> fighters d (tourney_of W)" "a \<in> asked d (tourney_of W)" using asked a by (simp_all add: in_sets)
  show "duel_ok (snd (duel_accept d a W))" unfolding W
  proof (rule restand_ok [OF ok a d T])
    show "count_ok ?W d ((duel_get_duelid d W)\<lparr>members_count := members_count (duel_get_duelid d W) + 1, invites_count := invites_count (duel_get_duelid d W) - 1\<rparr>)"
      using count a sets room by (auto simp: count_ok_def T set_fighter_sets [of _ a "fighter_of sd"] card_insert_players room_def)
    show "pc_ok ?W sd'" if "um_find (dw_pcs ?W) a = Some sd'" for sd'
      using that a sd on by (auto simp: pc_ok_def)
  qed (use asked ok in \<open>simp_all add: wf_intros duel_okD(1,2)\<close>)
  show "tourney_of (snd (duel_accept d a W)) = set_fighter a (stand (Fighting d)) (tourney_of W)" unfolding W by (rule T)
qed

lemma create_spec:
  assumes ok: "duel_ok W" and a: "um_find (dw_pcs W) a = Some sd" and free: "standing_of sd = Free" and on: "dl_on_map sd"
    and limit: "0 \<le> maxpl" "maxpl \<noteq> 1"
  shows "tourney_of (snd (duel_create a maxpl W)) = spec_found a maxpl (tourney_of W)" "duel_ok (snd (duel_create a maxpl W))"
proof -
  define d where "d = Suc (dw_lastID W)"
  let ?D = "\<lparr>members_count = 1, invites_count = 0, max_players_limit = maxpl\<rparr>"
  let ?W = "snd (duel_create a maxpl W)"
  have sd: "dl_group sd = 0" "dl_invite sd = 0" using free by (simp_all add: standing_cases)
  note fresh = fresh_duel [OF ok, folded d_def]
  have none: "duel_get_duelid d W = zero_duel" using fresh(1) by (simp add: duel_exist_def duel_get_duelid_def)
  have get: "duel_get_duelid d (W\<lparr>dw_lastID := d\<rparr>) = zero_duel" "\<And>e. um_find (dw_list (W\<lparr>dw_lastID := d\<rparr>)) e = um_find (dw_list W) e"
    using none by (simp_all add: duel_get_duelid_def)
  have W: "um_find (dw_list ?W) e = (if e = d then Some ?D else um_find (dw_list W) e)" "dw_lastID ?W = d" "um_wf (dw_list ?W)" "um_wf (dw_pcs ?W)"
    "um_find (dw_pcs ?W) b = (if b = a then Some (sd\<lparr>dl_group := d\<rparr>) else um_find (dw_pcs W) b)" for e b
    using a duel_okD(1,2) [OF ok] get by (simp_all add: duel_create_def duel_set_def Let_def d_def [symmetric] zero_duel_def wf_intros)
  have get': "duel_get_duelid e ?W = (if e = d then ?D else duel_get_duelid e W)" for e
    by (simp add: duel_get_duelid_def W(1))
  have "fighter_of (sd\<lparr>dl_group := d\<rparr>) = stand (Fighting d) (fighter_of sd)"
    by (simp add: fighter_of_def stand_def standing_of_def d_def)
  then show T: "tourney_of ?W = spec_found a maxpl (tourney_of W)"
    using a by (simp add: tourney_of_def spec_found_def set_fighter_def Let_def W get' d_def [symmetric] fun_eq_iff)
  let ?S = "(tourney_of W)\<lparr>tn_last := d, tn_limit := (tn_limit (tourney_of W))(d := maxpl)\<rparr>"
  have T': "tourney_of ?W = set_fighter a (stand (Fighting d)) ?S" unfolding T by (simp add: spec_found_def Let_def d_def)
  have same: "fighters e ?S = fighters e (tourney_of W)" "asked e ?S = asked e (tourney_of W)" for e by (rule sets_cong, simp)+
  have out: "a \<notin> fighters e (tourney_of W)" "a \<notin> asked e (tourney_of W)" for e using a free by (simp_all add: in_sets)
  have sets: "fighters e (tourney_of ?W) = (if e = d then {a} else fighters e (tourney_of W))" "asked e (tourney_of ?W) = asked e (tourney_of W)" for e
    using a fresh out unfolding T' by (auto simp: set_fighter_sets [of ?S a "fighter_of sd"] same)
  show "duel_ok ?W"
  proof (rule duel_okI [OF W(3,4)])
    fix e D assume e: "um_find (dw_list ?W) e = Some D"
    show "count_ok ?W e D"
    proof (cases "e = d")
      case True
      then show ?thesis using e limit fresh(3) by (auto simp: count_ok_def W sets d_def)
    next
      case False
      then have "count_ok W e D" using e duel_okD(3) [OF ok] by (simp add: W)
      then show ?thesis using False by (auto simp: count_ok_def W sets d_def)
    qed
  next
    fix b sd' assume b: "um_find (dw_pcs ?W) b = Some sd'"
    have more: "duel_exist e ?W" if "duel_exist e W \<or> e = d" for e using that by (auto simp: duel_exist_def W)
    show "pc_ok ?W sd'"
    proof (cases "b = a")
      case True
      then show ?thesis using b on sd more by (auto simp: W pc_ok_def)
    next
      case False
      then show ?thesis using b duel_okD(4) [OF ok, of b sd'] more by (auto simp: W intro: pc_ok_mono)
    qed
  qed
qed

text \<open>Leaving: either somebody still fights, or the duel is over.\<close>

lemma leave_spec_stays:
  fixes now :: tm
  assumes ok: "duel_ok W" and a: "um_find (dw_pcs W) a = Some sd" and fights: "standing_of sd = Fighting d" and more: "fighters d (tourney_of W) \<noteq> {a}"
  defines "g \<equiv> \<lambda>f. (stand Free f)\<lparr>fi_last := minute_of now\<rparr>"
  shows "tourney_of (snd (duel_leave d now a W)) = set_fighter a g (tourney_of W)" "duel_ok (snd (duel_leave d now a W))"
proof -
  have sd: "dl_group sd = d" "0 < d" "dl_invite sd = 0" using fights duel_okD(4) [OF ok a] by (auto simp: standing_cases pc_ok_def)
  have d: "duel_exist d W" using duel_okD(4) [OF ok a] sd by (simp add: pc_ok_def)
  have count: "count_ok W d (duel_get_duelid d W)" by (rule duel_okD(3) [OF ok duel_getI(2) [OF d]])
  have sets: "a \<in> fighters d (tourney_of W)" "a \<notin> asked d (tourney_of W)" using fights a by (simp_all add: in_sets)
  have others: "fighters d (tourney_of W) - {a} \<noteq> {}" using more sets by blast
  then have "card (fighters d (tourney_of W) - {a}) \<noteq> 0" using finite_players(1) by (simp add: card_eq_0_iff)
  then have two: "int (card (fighters d (tourney_of W))) \<noteq> 1" using sets by (simp add: card_insert_players)
  let ?W1 = "on_duel d (\<lambda>D. D\<lparr>members_count := members_count D - 1\<rparr>) W"
  let ?W2 = "on_pc a (\<lambda>sd. sd\<lparr>dl_group := 0\<rparr>) ?W1"
  let ?W = "on_pc a (duel_savetime now) ?W2"
  have W: "snd (duel_leave d now a W) = ?W" using d count two by (simp add: duel_leave_def duel_set_def Let_def count_ok_def)
  have "tourney_of ?W = set_fighter a (\<lambda>f. f\<lparr>fi_last := minute_of now\<rparr>) (tourney_of ?W2)"
    by (rule tourney_on_pc [where sd = "sd\<lparr>dl_group := 0\<rparr>"]) (use a in \<open>simp_all add: fighter_of_def standing_of_def duel_savetime_def\<close>)
  moreover have "tourney_of ?W2 = set_fighter a (stand Free) (tourney_of ?W1)"
    by (rule tourney_on_pc [where sd = sd]) (use a sd in \<open>simp_all add: fighter_of_def stand_def standing_of_def\<close>)
  moreover have "tourney_of ?W1 = tourney_of W" by (rule tourney_on_duel) simp
  ultimately have T: "tourney_of ?W = set_fighter a g (tourney_of W)"
    by (simp add: set_fighter_def g_def option.map_comp comp_def)
  show "duel_ok (snd (duel_leave d now a W))" unfolding W
  proof (rule restand_ok [OF ok a d T])
    show "count_ok ?W d ((duel_get_duelid d W)\<lparr>members_count := members_count (duel_get_duelid d W) - 1\<rparr>)"
      using count a sets others by (auto simp: count_ok_def T set_fighter_sets [of _ a "fighter_of sd"] card_insert_players g_def)
    show "pc_ok ?W sd'" if "um_find (dw_pcs ?W) a = Some sd'" for sd'
      using that a sd by (auto simp: pc_ok_def duel_savetime_def)
  qed (use fights ok in \<open>simp_all add: wf_intros duel_okD(1,2) g_def\<close>)
  show "tourney_of (snd (duel_leave d now a W)) = set_fighter a g (tourney_of W)" unfolding W by (rule T)
qed

lemma leave_spec_ends:
  assumes ok: "duel_ok W" and a: "um_find (dw_pcs W) a = Some sd" and fights: "standing_of sd = Fighting d" and last: "fighters d (tourney_of W) = {a}"
  shows "tourney_of (snd (duel_leave d now a W)) = spec_leave now a (tourney_of W)" "duel_ok (snd (duel_leave d now a W))"
proof -
  let ?W = "snd (duel_leave d now a W)" and ?g = "\<lambda>f. (stand Free f)\<lparr>fi_last := minute_of now\<rparr>"
  let ?S = "set_fighter a ?g (tourney_of W)"
  have sd: "dl_group sd = d" "0 < d" "dl_invite sd = 0" using fights duel_okD(4) [OF ok a] by (auto simp: standing_cases pc_ok_def)
  have d: "duel_exist d W" using duel_okD(4) [OF ok a] sd by (simp add: pc_ok_def)
  have count: "count_ok W d (duel_get_duelid d W)" by (rule duel_okD(3) [OF ok duel_getI(2) [OF d]])
  let ?W1 = "on_duel d (\<lambda>D. D\<lparr>members_count := members_count D - 1\<rparr>) W"
  have eq: "?W = on_pc a (duel_savetime now) (on_pc a (\<lambda>sd. sd\<lparr>dl_group := 0\<rparr>)
      (?W1\<lparr>dw_pcs := um_map (duel_leave_sub d) (dw_pcs ?W1), dw_list := um_erase d (dw_list ?W1)\<rparr>))"
    using d count last by (simp add: duel_leave_def duel_set_def Let_def count_ok_def)
  have W: "um_find (dw_list ?W) e = (if e = d then None else um_find (dw_list W) e)" "dw_lastID ?W = dw_lastID W" "um_wf (dw_list ?W)" "um_wf (dw_pcs ?W)"
    "um_find (dw_pcs ?W) b = (if b = a then Some (sd\<lparr>dl_group := 0, dl_last_time := minute_of now\<rparr>)
      else map_option (duel_leave_sub d) (um_find (dw_pcs W) b))" for e b
    using a sd duel_okD(1,2) [OF ok] unfolding eq
    by (simp_all add: wf_intros umap_simps um.find_erase duel_savetime_def duel_leave_sub_def)
  have get: "duel_get_duelid e ?W = (if e = d then zero_duel else duel_get_duelid e W)" for e
    by (simp add: duel_get_duelid_def W(1))
  have none: "fighters d ?S = {}" using last a by (simp add: set_fighter_sets [of _ a "fighter_of sd"])
  have freed: "fighter_of (duel_leave_sub d sd') = (if standing_of sd' = Asked d then stand Free (fighter_of sd') else fighter_of sd')"
    if "um_find (dw_pcs W) b = Some sd'" for b sd'
    using duel_okD(4) [OF ok that] sd(2) by (auto simp: pc_ok_def fighter_of_def stand_def duel_leave_sub_def standing_of_def)
  have self: "fighter_of (sd\<lparr>dl_group := 0, dl_last_time := minute_of now\<rparr>) = ?g (fighter_of sd)"
    using sd(3) by (simp add: fighter_of_def stand_def standing_of_def)
  have spec: "spec_leave now a (tourney_of W) = spec_end d ?S" using a fights by (simp add: spec_leave_def)
  have "tn_players (tourney_of ?W) b = tn_players (spec_end d ?S) b" for b
    using a self freed [of b] by (cases "um_find (dw_pcs W) b") (auto simp: spec_end_def none W(5) simp del: fighter_of_def)
  then show T: "tourney_of ?W = spec_leave now a (tourney_of W)"
    unfolding spec by (intro tourney.equality ext) (auto simp: spec_end_def none W(2) get zero_duel_def fun_eq_iff)
  have frees: "standing_of (duel_leave_sub d sd') = (if standing_of sd' = Asked d then Free else standing_of sd')" if "um_find (dw_pcs W) b = Some sd'" for b sd'
    using arg_cong [OF freed [OF that], of fi_standing] by (simp split: if_splits)
  have sets: "fighters e (tourney_of ?W) = fighters e (tourney_of W)" "asked e (tourney_of ?W) = asked e (tourney_of W)" if "e \<noteq> d" for e
    using that a fights frees by (auto simp: fighters_def asked_def W(5) standing_of_def [of "sd\<lparr>dl_group := 0, dl_last_time := _\<rparr>"] sd split: if_splits)
  show "duel_ok ?W"
  proof (rule duel_okI [OF W(3,4)])
    fix e D assume "um_find (dw_list ?W) e = Some D"
    then show "count_ok ?W e D" using duel_okD(3) [OF ok, of e D] by (auto simp: count_ok_def W(1,2) sets split: if_splits)
  next
    fix b sd' assume b: "um_find (dw_pcs ?W) b = Some sd'"
    have still: "duel_exist e ?W" if "duel_exist e W" "e \<noteq> d" for e using that by (simp add: duel_exist_def W(1))
    show "pc_ok ?W sd'"
    proof (cases "b = a")
      case True
      then show ?thesis using b sd by (auto simp: W(5) pc_ok_def)
    next
      case False
      then obtain sd0 where sd0: "um_find (dw_pcs W) b = Some sd0" "sd' = duel_leave_sub d sd0" using b by (auto simp: W(5))
      have "b \<notin> fighters d (tourney_of W)" using last False by simp
      then have "dl_group sd0 \<noteq> d" using sd0(1) sd(2) by (auto simp: in_sets standing_of_def)
      then show ?thesis using duel_okD(4) [OF ok sd0(1)] still by (auto simp: sd0(2) pc_ok_def duel_leave_sub_def)
    qed
  qed
qed

lemma duel_leave_spec:
  assumes ok: "duel_ok W" and a: "um_find (dw_pcs W) a = Some sd" and fights: "standing_of sd = Fighting d"
  shows "tourney_of (snd (duel_leave d now a W)) = spec_leave now a (tourney_of W)" "duel_ok (snd (duel_leave d now a W))"
proof -
  have "tourney_of (snd (duel_leave d now a W)) = spec_leave now a (tourney_of W) \<and> duel_ok (snd (duel_leave d now a W))"
  proof (cases "fighters d (tourney_of W) = {a}")
    case True
    then show ?thesis using leave_spec_ends [OF ok a fights] by simp
  next
    case False
    have "a \<in> fighters d (tourney_of W)" using a fights by (simp add: in_sets)
    then have "fighters d (tourney_of W) - {a} \<noteq> {}" using False by blast
    then have "spec_leave now a (tourney_of W) = set_fighter a (\<lambda>f. (stand Free f)\<lparr>fi_last := minute_of now\<rparr>) (tourney_of W)"
      using a fights by (simp add: spec_leave_def spec_end_def set_fighter_sets [of _ a "fighter_of sd"])
    then show ?thesis using leave_spec_stays [OF ok a fights False] by simp
  qed
  then show "tourney_of (snd (duel_leave d now a W)) = spec_leave now a (tourney_of W)" "duel_ok (snd (duel_leave d now a W))" by simp_all
qed

end
