(* ===== verification/DuelSystem.thy ===== *)
theory DuelSystem
  imports DuelRules
begin

text \<open>
  The duels under every sequence of events: each command and each event does what the specification does, in
  every reachable state.
\<close>

section \<open>Every event\<close>

text \<open>A result of the module agrees with one of the specification.\<close>

definition agrees :: "duel_reply list \<times> duel_world \<Rightarrow> duel_reply list \<times> tourney \<Rightarrow> bool" where
  "agrees r s \<longleftrightarrow> fst r = fst s \<and> tourney_of (snd r) = snd s \<and> duel_ok (snd r)"

lemma agrees_same: "duel_ok W \<Longrightarrow> agrees (msgs, W) (msgs, tourney_of W)"
  by (simp add: agrees_def)

lemma agreesI: "tourney_of W' = S' \<Longrightarrow> duel_ok W' \<Longrightarrow> agrees (msgs, W') (msgs, S')"
  by (simp add: agrees_def)

lemma asked_duel_exists:
  "duel_ok W \<Longrightarrow> um_find (dw_pcs W) a = Some sd \<Longrightarrow> standing_of sd = Asked d \<Longrightarrow> duel_exist d W"
  by (auto dest: duel_okD(4) simp: pc_ok_def standing_cases)

lemma fought_duel_exists:
  "duel_ok W \<Longrightarrow> um_find (dw_pcs W) a = Some sd \<Longrightarrow> standing_of sd = Fighting d \<Longrightarrow> duel_exist d W"
  by (auto dest: duel_okD(4) simp: pc_ok_def standing_cases)

lemma agrees_invite:
  assumes ok: "duel_ok W" and a: "um_find (dw_pcs W) a = Some sd"
  shows "agrees (acmd_invite E target a sd W) (spec_invite E target (fighter_of sd) (tourney_of W))"
proof (cases "standing_of sd")
  case (Fighting d)
  then have d: "dl_group sd = d" "d \<noteq> 0" "duel_exist d W" using fought_duel_exists [OF ok a] by (auto simp: standing_cases)
  show ?thesis
  proof (cases "Option.bind target (\<lambda>b. map_option (Pair b) (um_find (dw_pcs W) b))")
    case None
    then have "Option.bind target (\<lambda>b. map_option (Pair b) (map_option fighter_of (um_find (dw_pcs W) b))) = None"
      by (auto simp: bind_eq_None_conv)
    then show ?thesis using None d Fighting ok room_iff [OF ok d(3)] by (simp add: acmd_invite_def spec_invite_def agrees_def)
  next
    case (Some p)
    then obtain b tsd where p: "p = (b, tsd)" "target = Some b" "um_find (dw_pcs W) b = Some tsd" by (auto simp: bind_eq_Some_conv)
    have busy: "(dl_group tsd > 0 \<or> dl_invite tsd > 0) \<longleftrightarrow> standing_of tsd \<noteq> Free" by (auto simp: standing_cases)
    show ?thesis
      using p d Fighting ok room_iff [OF ok d(3)] invite_spec [OF ok d(3) p(3)]
      by (auto simp: acmd_invite_def spec_invite_def agrees_def busy simp del: neq0_conv)
  qed
next
  case Free
  then have "dl_group sd = 0" by (simp add: standing_cases)
  with Free ok show ?thesis by (simp add: acmd_invite_def spec_invite_def agrees_def)
next
  case (Asked d)
  then have "dl_group sd = 0" by (simp add: standing_cases)
  with Asked ok show ?thesis by (simp add: acmd_invite_def spec_invite_def agrees_def)
qed

lemma agrees_accept:
  assumes ok: "duel_ok W" and a: "um_find (dw_pcs W) a = Some sd" and on: "dl_on_map sd"
  shows "agrees (acmd_accept E now a sd W) (spec_accept E now a (fighter_of sd) (tourney_of W))"
proof (cases "standing_of sd")
  case (Asked d)
  then have d: "dl_invite sd = d" "0 < d" "duel_exist d W" using asked_duel_exists [OF ok a] by (auto simp: standing_cases)
  show ?thesis
    using d Asked ok room_iff [OF ok d(3)] accept_spec [OF ok a Asked on]
    by (simp add: acmd_accept_def spec_accept_def agrees_def rested_iff)
next
  case (Fighting d)
  then have "dl_invite sd = 0" using duel_okD(4) [OF ok a] by (auto simp: pc_ok_def standing_cases)
  with Fighting show ?thesis using ok by (simp add: acmd_accept_def spec_accept_def agrees_def rested_iff)
next
  case Free
  then have "dl_invite sd = 0" by (simp add: standing_cases)
  with Free show ?thesis using ok by (simp add: acmd_accept_def spec_accept_def agrees_def rested_iff)
qed

lemma info_right:
  assumes ok: "duel_ok W" and d: "duel_exist d W"
  shows "duel_showinfo d W = [spec_info d (tourney_of W)]"
proof -
  have count: "count_ok W d (duel_get_duelid d W)" by (rule duel_okD(3) [OF ok duel_getI(2) [OF d]])
  then have "0 < d" by (simp add: count_ok_def)
  have "um_find (dw_pcs W) a = Some sd \<longleftrightarrow> (a, sd) \<in> set (dw_pcs W)" for a sd
    using duel_okD(2) [OF ok] by (auto simp: um_find_def um_wf_def)
  then have "set (map fst (filter (\<lambda>(a, sd). dl_group sd = d) (dw_pcs W))) = fighters d (tourney_of W)"
    using \<open>0 < d\<close> by (force simp: fighters_def standing_cases)
  then show ?thesis using count d by (auto simp: duel_showinfo_def spec_info_def Let_def count_ok_def running_count [OF ok])
qed

lemma agrees_duel:
  assumes ok: "duel_ok W" and a: "um_find (dw_pcs W) a = Some sd" and on: "dl_on_map sd"
  shows "agrees (acmd_duel E now arg a sd W) (spec_duel E now arg a (fighter_of sd) (tourney_of W))"
proof (cases "standing_of sd")
  case (Fighting d)
  then have "dl_group sd = d" "0 < d" by (simp_all add: standing_cases)
  with Fighting show ?thesis
    using info_right [OF ok fought_duel_exists [OF ok a Fighting]] ok by (simp add: acmd_duel_def spec_duel_def agrees_def)
next
  case (Asked d)
  then have "dl_group sd = 0" "0 < dl_invite sd" by (simp_all add: standing_cases)
  with Asked show ?thesis using ok by (simp add: acmd_duel_def spec_duel_def agrees_def)
next
  case Free
  then have sd: "dl_group sd = 0" "dl_invite sd = 0" by (simp_all add: standing_cases)
  note create = create_spec [OF ok a Free on]
  show ?thesis
  proof (cases arg)
    case (Opponent target)
    show ?thesis
    proof (cases "Option.bind target (\<lambda>b. map_option (\<lambda>_. b) (um_find (dw_pcs W) b))")
      case None
      then have "Option.bind target (\<lambda>b. map_option (Pair b) (map_option fighter_of (um_find (dw_pcs W) b))) = None"
        by (auto simp: bind_eq_None_conv)
      then show ?thesis using None Opponent sd Free ok by (simp add: acmd_duel_def spec_duel_def agrees_def rested_iff)
    next
      case (Some b)
      then obtain tsd where b: "target = Some b" "um_find (dw_pcs W) b = Some tsd" by (auto simp: bind_eq_Some_conv)
      obtain W1 where W1: "duel_create a 2 W = (Suc (dw_lastID W), W1)" by (simp add: duel_create_def Let_def)
      have ok1: "duel_ok W1" and T1: "tourney_of W1 = spec_found a 2 (tourney_of W)" using create [of 2] W1 by simp_all
      have last: "tn_last (spec_found a 2 (tourney_of W)) = Suc (dw_lastID W)" by (simp add: spec_found_def Let_def)
      have "tn_players (tourney_of W1) b \<noteq> None" unfolding T1 using b(2) a by (simp add: spec_found_def Let_def)
      then obtain tsd1 where tsd1: "um_find (dw_pcs W1) b = Some tsd1" by auto
      have stand1: "standing_of tsd1 = (if b = a then Fighting (Suc (dw_lastID W)) else standing_of tsd)"
      proof -
        have "map_option fi_standing (tn_players (tourney_of W1) b) = Some (standing_of tsd1)" using tsd1 by simp
        then show ?thesis unfolding T1 using b(2) a by (simp add: spec_found_def Let_def split: if_splits)
      qed
      have busy: "(dl_group tsd1 > 0 \<or> dl_invite tsd1 > 0) \<longleftrightarrow> b = a \<or> standing_of tsd \<noteq> Free"
        using stand1 standing_cases(3) [of tsd1] by (auto split: if_splits)
      have "a \<in> fighters (Suc (dw_lastID W)) (tourney_of W1)" unfolding T1 using a by (simp add: in_sets spec_found_def Let_def)
      then have exist: "duel_exist (Suc (dw_lastID W)) W1" using duel_exists_iff [OF ok1] by blast
      note ask = invite_spec [OF ok1 exist tsd1]
      show ?thesis
      proof (cases "b = a \<or> standing_of tsd \<noteq> Free")
        case True
        then show ?thesis using Opponent sd Free ok ok1 T1 b W1 tsd1 busy
          by (auto simp: acmd_duel_def spec_duel_def agrees_def rested_iff Let_def)
      next
        case False
        then have "standing_of tsd1 = Free" using stand1 by simp
        note ask = ask [OF this]
        show ?thesis using False Opponent sd Free ok ask T1 b W1 tsd1 busy last
          by (simp add: acmd_duel_def spec_duel_def agrees_def rested_iff Let_def)
      qed
    qed
  next
    case No_argument
    then show ?thesis using sd Free ok create [of 0] by (simp add: acmd_duel_def spec_duel_def agrees_def rested_iff)
  next
    case (Limit maxpl)
    then show ?thesis using sd Free ok create [of maxpl] by (auto simp: acmd_duel_def spec_duel_def agrees_def rested_iff)
  qed
qed

lemma leave_any_spec:
  assumes ok: "duel_ok W"
  shows "tourney_of (leave_any now a W) = spec_leave now a (tourney_of W)" "duel_ok (leave_any now a W)"
proof -
  have "tourney_of (leave_any now a W) = spec_leave now a (tourney_of W) \<and> duel_ok (leave_any now a W)"
  proof (cases "um_find (dw_pcs W) a")
    case None
    then show ?thesis using ok by (simp add: leave_any_def spec_leave_def)
  next
    case (Some sd)
    show ?thesis
    proof (cases "standing_of sd")
      case (Fighting d)
      then have "dl_group sd = d" "0 < d" by (simp_all add: standing_cases)
      then show ?thesis using duel_leave_spec [OF ok Some Fighting] Some by (simp add: leave_any_def)
    next
      case Free
      then have "dl_group sd = 0" by (simp add: standing_cases)
      then show ?thesis using Some Free ok by (simp add: leave_any_def spec_leave_def)
    next
      case (Asked d)
      then have "dl_group sd = 0" by (simp add: standing_cases)
      then show ?thesis using Some Asked ok by (simp add: leave_any_def spec_leave_def)
    qed
  qed
  then show "tourney_of (leave_any now a W) = spec_leave now a (tourney_of W)" "duel_ok (leave_any now a W)" by simp_all
qed

lemma reject_any_spec:
  assumes ok: "duel_ok W"
  shows "tourney_of (reject_any a W) = spec_reject a (tourney_of W)" "duel_ok (reject_any a W)"
proof -
  have "tourney_of (reject_any a W) = spec_reject a (tourney_of W) \<and> duel_ok (reject_any a W)"
  proof (cases "um_find (dw_pcs W) a")
    case None
    then show ?thesis using ok by (simp add: reject_any_def spec_reject_def)
  next
    case (Some sd)
    show ?thesis
    proof (cases "standing_of sd")
      case (Asked d)
      then have "dl_invite sd = d" "0 < d" by (simp_all add: standing_cases)
      then show ?thesis using reject_spec [OF ok Some Asked] Some Asked by (simp add: reject_any_def spec_reject_def)
    next
      case Free
      then have "dl_invite sd = 0" by (simp add: standing_cases)
      then show ?thesis using Some Free ok by (simp add: reject_any_def spec_reject_def)
    next
      case (Fighting d)
      then have "dl_invite sd = 0" using duel_okD(4) [OF ok Some] by (auto simp: standing_cases pc_ok_def)
      then show ?thesis using Some Fighting ok by (simp add: reject_any_def spec_reject_def)
    qed
  qed
  then show "tourney_of (reject_any a W) = spec_reject a (tourney_of W)" "duel_ok (reject_any a W)" by simp_all
qed

text \<open>A change of a player that the duels do not look at.\<close>

lemma other_change_ok:
  assumes ok: "duel_ok W" and f: "\<And>sd. um_find (dw_pcs W) a = Some sd \<Longrightarrow> fighter_of (f sd) = g (fighter_of sd) \<and> standing_of (f sd) = standing_of sd \<and>
      dl_group (f sd) = dl_group sd \<and> dl_invite (f sd) = dl_invite sd \<and> (0 < dl_group sd \<longrightarrow> dl_on_map (f sd))"
  shows "tourney_of (on_pc a f W) = set_fighter a g (tourney_of W)" "duel_ok (on_pc a f W)"
proof -
  show T: "tourney_of (on_pc a f W) = set_fighter a g (tourney_of W)"
    using f by (cases "um_find (dw_pcs W) a") (auto simp: tourney_of_def set_fighter_def fun_eq_iff)
  have "fi_standing (g (fighter_of sd)) = standing_of sd" if "um_find (dw_pcs W) a = Some sd" for sd
    using f [OF that] fighter_simps(1) [of "f sd"] by simp
  then have stands: "map_option fi_standing (tn_players (tourney_of (on_pc a f W)) b) = map_option fi_standing (tn_players (tourney_of W) b)" for b
    unfolding T by (cases "um_find (dw_pcs W) b") auto
  have "fighters d (tourney_of (on_pc a f W)) = fighters d (tourney_of W)" "asked d (tourney_of (on_pc a f W)) = asked d (tourney_of W)" for d
    using stands by (simp_all add: fighters_def asked_def del: on_simps tourney_simps)
  then have "count_ok (on_pc a f W) d D = count_ok W d D" for d D by (simp add: count_ok_def)
  moreover have "pc_ok (on_pc a f W) sd'" if b: "um_find (dw_pcs (on_pc a f W)) b = Some sd'" for b sd'
  proof (cases "b = a")
    case True
    then obtain sd where sd: "um_find (dw_pcs W) a = Some sd" "sd' = f sd" using b by auto
    then show ?thesis using f [OF sd(1)] duel_okD(4) [OF ok sd(1)] by (auto simp: pc_ok_def)
  next
    case False
    then have "pc_ok W sd'" using b duel_okD(4) [OF ok, of b] by simp
    then show ?thesis by (simp add: pc_ok_def)
  qed
  ultimately show "duel_ok (on_pc a f W)" using ok by (auto intro!: duel_okI wf_intros simp: duel_okD)
qed

text \<open>Players who come and players who go take no part in a duel.\<close>

lemma arrival_ok:
  assumes ok: "duel_ok W" and a: "um_find (dw_pcs W) a = None" and sd: "dl_group sd = 0" "dl_invite sd = 0"
  defines "W' \<equiv> W\<lparr>dw_pcs := um_put a sd (dw_pcs W)\<rparr>"
  shows "tourney_of W' = (tourney_of W)\<lparr>tn_players := (tn_players (tourney_of W))(a \<mapsto> fighter_of sd)\<rparr>" "duel_ok W'"
proof -
  have W': "dw_list W' = dw_list W" "dw_lastID W' = dw_lastID W" "um_find (dw_pcs W') b = (if b = a then Some sd else um_find (dw_pcs W) b)" for b
    by (simp_all add: W'_def umap_simps)
  show T: "tourney_of W' = (tourney_of W)\<lparr>tn_players := (tn_players (tourney_of W))(a \<mapsto> fighter_of sd)\<rparr>"
    by (auto simp: tourney_of_def W' duel_get_duelid_def fun_eq_iff)
  have "fighters d (tourney_of W') = fighters d (tourney_of W)" "asked d (tourney_of W') = asked d (tourney_of W)" for d
    using a sd by (auto simp: fighters_def asked_def W' standing_cases)
  then have "count_ok W' d D = count_ok W d D" "duel_exist d W' = duel_exist d W" for d D by (simp_all add: count_ok_def duel_exist_def W')
  then show "duel_ok W'"
    using ok sd by (auto simp: duel_ok_def W' pc_ok_def) (simp_all add: W'_def wf_intros)
qed

lemma departure_ok:
  assumes ok: "duel_ok W" and free: "map_option standing_of (um_find (dw_pcs W) a) \<in> {None, Some Free}"
  defines "W' \<equiv> W\<lparr>dw_pcs := um_erase a (dw_pcs W)\<rparr>"
  shows "tourney_of W' = (tourney_of W)\<lparr>tn_players := (tn_players (tourney_of W))(a := None)\<rparr>" "duel_ok W'"
proof -
  have W': "dw_list W' = dw_list W" "dw_lastID W' = dw_lastID W" "um_find (dw_pcs W') b = (if b = a then None else um_find (dw_pcs W) b)" for b
    by (simp_all add: W'_def umap_simps)
  show T: "tourney_of W' = (tourney_of W)\<lparr>tn_players := (tn_players (tourney_of W))(a := None)\<rparr>"
    by (auto simp: tourney_of_def W' duel_get_duelid_def fun_eq_iff)
  have "fighters d (tourney_of W') = fighters d (tourney_of W)" "asked d (tourney_of W') = asked d (tourney_of W)" for d
    using free by (auto simp: fighters_def asked_def W')
  then have "count_ok W' d D = count_ok W d D" "duel_exist d W' = duel_exist d W" for d D by (simp_all add: count_ok_def duel_exist_def W')
  then show "duel_ok W'"
    using ok by (auto simp: duel_ok_def W' pc_ok_def) (simp_all add: W'_def wf_intros)
qed

lemma spec_standing:
  "map_option fi_standing (tn_players (spec_leave now a S) a) = (case map_option fi_standing (tn_players S a) of Some (Fighting d) \<Rightarrow> Some Free | s \<Rightarrow> s)"
  "map_option fi_standing (tn_players (spec_reject a S) a) = (case map_option fi_standing (tn_players S a) of Some (Asked d) \<Rightarrow> Some Free | s \<Rightarrow> s)"
  by (auto simp: spec_leave_def spec_reject_def spec_end_def split: option.split standing.split)

lemma standing_of_tourney: "map_option standing_of (um_find (dw_pcs W) a) = map_option fi_standing (tn_players (tourney_of W) a)"
  by (simp add: option.map_comp comp_def)

lemma remove_spec:
  assumes ok: "duel_ok W" and a: "um_find (dw_pcs W) a = Some sd"
  shows "tourney_of (unit_remove_map_duel now a W) = (if dl_on_map sd then spec_remove now a (tourney_of W) else tourney_of W)"
    "duel_ok (unit_remove_map_duel now a W)"
    "map_option standing_of (um_find (dw_pcs (unit_remove_map_duel now a W)) a) \<noteq> Some (Fighting d)"
proof -
  let ?W = "unit_remove_map_duel now a W" and ?f = "\<lambda>sd. sd\<lparr>dl_on_map := False\<rparr>"
  note L = leave_any_spec [OF ok, of now a]
  have stands: "map_option standing_of (um_find (dw_pcs (leave_any now a W)) a) \<noteq> Some (Fighting d)" for d
    unfolding standing_of_tourney L spec_standing by (auto split: option.split standing.split)
  have idle: "dl_group sd' = 0" if "um_find (dw_pcs (leave_any now a W)) a = Some sd'" for sd'
    using stands [of "dl_group sd'"] that by (auto simp: standing_of_def split: if_splits)
  have f: "fighter_of (?f sd') = (fighter_of sd')\<lparr>fi_on_map := False\<rparr>" "standing_of (?f sd') = standing_of sd'" for sd'
    by (simp_all add: fighter_of_def standing_of_def)
  have "tourney_of (on_pc a ?f (leave_any now a W)) = set_fighter a (\<lambda>f. f\<lparr>fi_on_map := False\<rparr>) (tourney_of (leave_any now a W))"
    "duel_ok (on_pc a ?f (leave_any now a W))"
    by (rule other_change_ok [OF L(2), of a ?f "\<lambda>f. f\<lparr>fi_on_map := False\<rparr>"]; use f idle in simp)+
  then show "tourney_of ?W = (if dl_on_map sd then spec_remove now a (tourney_of W) else tourney_of W)" "duel_ok ?W"
    using a ok L(1) by (simp_all add: unit_remove_map_duel_def spec_remove_def)
  show "map_option standing_of (um_find (dw_pcs ?W) a) \<noteq> Some (Fighting d)"
  proof (cases "dl_on_map sd")
    case True
    have "map_option (standing_of \<circ> ?f) x = map_option standing_of x" for x by (cases x) (simp_all add: f(2))
    then show ?thesis using True a stands [of d] by (simp add: unit_remove_map_duel_def option.map_comp)
  next
    case False
    then have "dl_group sd = 0" using duel_okD(4) [OF ok a] by (simp add: pc_ok_def)
    then show ?thesis using False a by (simp add: unit_remove_map_duel_def standing_of_def)
  qed
qed

theorem step_agrees:
  assumes ok: "duel_ok W"
  shows "agrees (duel_step E ev W) (spec_step E ev (tourney_of W))"
proof -
  obtain now a e where ev: "ev = (now, a, e)" by (cases ev) auto
  show ?thesis
  proof (cases "um_find (dw_pcs W) a")
    case None
    then show ?thesis
      using ok arrival_ok [OF ok None] by (cases e) (auto simp: ev duel_step_def spec_step_def agrees_def fighter_of_def standing_of_def)
  next
    case (Some sd)
    show ?thesis
    proof (cases e)
      case (Dl_command cmd)
      have "agrees (do_command E now cmd a sd W) (spec_command E now cmd a (fighter_of sd) (tourney_of W))" if on: "dl_on_map sd"
      proof (cases cmd)
        case At_reject
        have "acmd_reject a sd W = (case standing_of sd of Asked d \<Rightarrow> ([Msg 363], snd (duel_reject d a W)) | _ \<Rightarrow> ([Msg 362], W))"
          using duel_okD(4) [OF ok Some] by (auto simp: acmd_reject_def standing_of_def pc_ok_def)
        then show ?thesis
          using At_reject reject_spec [OF ok Some] ok Some by (auto simp: do_command_def spec_command_def agrees_def spec_reject_def split: standing.split)
      next
        case At_leave
        have "acmd_leave now a sd W = (case standing_of sd of Fighting d \<Rightarrow> ([Msg 359], snd (duel_leave d now a W)) | _ \<Rightarrow> ([Msg 358], W))"
          by (auto simp: acmd_leave_def standing_of_def)
        then show ?thesis
          using At_leave duel_leave_spec [OF ok Some] ok by (auto simp: do_command_def spec_command_def agrees_def split: standing.split)
      qed (use agrees_duel [OF ok Some on] agrees_invite [OF ok Some] agrees_accept [OF ok Some on] in \<open>simp_all add: do_command_def spec_command_def\<close>)
      then show ?thesis using Dl_command Some ok by (simp add: ev duel_step_def spec_step_def agrees_same)
    next
      case (Dl_enter m)
      have "tourney_of (on_pc a (\<lambda>sd. sd\<lparr>dl_m := m, dl_on_map := True\<rparr>) W) = set_fighter a (\<lambda>f. f\<lparr>fi_m := m, fi_on_map := True\<rparr>) (tourney_of W)"
        "duel_ok (on_pc a (\<lambda>sd. sd\<lparr>dl_m := m, dl_on_map := True\<rparr>) W)"
        by (rule other_change_ok [OF ok, where g = "\<lambda>f. f\<lparr>fi_m := m, fi_on_map := True\<rparr>"]; simp add: fighter_of_def standing_of_def)+
      then show ?thesis using Dl_enter Some ok by (simp add: ev duel_step_def spec_step_def agrees_def)
    next
      case Dl_die
      have "tourney_of (pc_dead_duel E now a W) = (if de_autoleave_when_die E then spec_reject a (spec_leave now a (tourney_of W)) else tourney_of W) \<and>
        duel_ok (pc_dead_duel E now a W)"
        using leave_any_spec [OF ok, of now a] reject_any_spec [of "leave_any now a W" a] ok by (simp add: pc_dead_duel_def)
      then show ?thesis using Dl_die Some by (simp add: ev duel_step_def spec_step_def agrees_def)
    next
      case Dl_quit
      let ?W1 = "unit_remove_map_duel now a W"
      note R = remove_spec [OF ok Some, of now]
      note J = reject_any_spec [OF R(2), of a]
      have no: "\<forall>d. map_option fi_standing (tn_players (tourney_of ?W1) a) \<noteq> Some (Fighting d)"
        using R(3) unfolding standing_of_tourney by blast
      have "map_option standing_of (um_find (dw_pcs (reject_any a ?W1)) a) \<in> {None, Some Free}"
        using no unfolding standing_of_tourney J(1) spec_standing by (auto split: option.split standing.split)
      from departure_ok [OF J(2) this] show ?thesis
        using Dl_quit Some R(1) J(1) by (simp add: ev duel_step_def spec_step_def agrees_def unit_free_duel_def Let_def)
    qed (use Some ok remove_spec [OF ok Some, of now] in \<open>simp_all add: ev duel_step_def spec_step_def agrees_def\<close>)
  qed
qed

section \<open>Every run\<close>

fun duel_run :: "duel_env \<Rightarrow> (tm \<times> uint32 \<times> duel_event) list \<Rightarrow> duel_world \<Rightarrow> duel_reply list list \<times> duel_world" where
  "duel_run E [] W = ([], W)"
| "duel_run E (ev # evs) W = (case duel_step E ev W of (r, W1) \<Rightarrow> case duel_run E evs W1 of (rs, W2) \<Rightarrow> (r # rs, W2))"

fun spec_run :: "duel_env \<Rightarrow> (tm \<times> uint32 \<times> duel_event) list \<Rightarrow> tourney \<Rightarrow> duel_reply list list \<times> tourney" where
  "spec_run E [] S = ([], S)"
| "spec_run E (ev # evs) S = (case spec_step E ev S of (r, S1) \<Rightarrow> case spec_run E evs S1 of (rs, S2) \<Rightarrow> (r # rs, S2))"

lemma run_agrees:
  "duel_ok W \<Longrightarrow> spec_run E evs (tourney_of W) = (fst (duel_run E evs W), tourney_of (snd (duel_run E evs W))) \<and> duel_ok (snd (duel_run E evs W))"
proof (induction evs arbitrary: W)
  case (Cons ev evs)
  obtain r W1 where step: "duel_step E ev W = (r, W1)" by (cases "duel_step E ev W")
  then have "spec_step E ev (tourney_of W) = (r, tourney_of W1)" "duel_ok W1"
    using step_agrees [OF Cons.prems, of E ev] by (simp_all add: agrees_def prod_eq_iff)
  then show ?case using Cons.IH [of W1] step by (cases "duel_run E evs W1") simp
qed simp

text \<open>C8: the duel module, with its counters and numbers kept in two places, answers every sequence of commands, deaths,
  warps and departures as the specification does, in which a duel is the set of players who fight in it and lasts
  as long as there is one, and ends in the state that stands for the specification's.\<close>

theorem duels_refine:
  "spec_run E evs \<lparr>tn_players = Map.empty, tn_limit = (\<lambda>_. 0), tn_last = 0\<rparr> =
   (fst (duel_run E evs empty_duels), tourney_of (snd (duel_run E evs empty_duels)))"
proof -
  have "tourney_of empty_duels = \<lparr>tn_players = Map.empty, tn_limit = (\<lambda>_. 0), tn_last = 0\<rparr>"
    by (simp add: tourney_of_def empty_duels_def umap_simps duel_get_duelid_def zero_duel_def fun_eq_iff)
  then show ?thesis using run_agrees [OF empty_duels_ok, of E evs] by simp
qed

text \<open>C37: after any events a duel exists exactly while somebody fights in it, counts its members and its invitations
  right and keeps its limit; nobody is in a duel and asked to one, or asked to a duel that is over.\<close>

theorem duels_counted:
  fixes E :: duel_env and evs :: "(tm \<times> uint32 \<times> duel_event) list"
  defines "W \<equiv> snd (duel_run E evs empty_duels)"
  defines "party \<equiv> (\<lambda>d. {a. map_option dl_group (um_find (dw_pcs W) a) = Some d})"
    and "invited \<equiv> (\<lambda>d. {a. map_option dl_invite (um_find (dw_pcs W) a) = Some d})"
  shows "(0 < d \<longrightarrow> (duel_exist d W \<longleftrightarrow> party d \<noteq> {})) \<and>
    (um_find (dw_list W) d = Some D \<longrightarrow> members_count D = int (card (party d)) \<and> invites_count D = int (card (invited d)) \<and>
       (0 < max_players_limit D \<longrightarrow> members_count D \<le> max_players_limit D)) \<and>
    (0 < d \<and> a \<in> invited d \<longrightarrow> duel_exist d W \<and> a \<in> party 0)"
proof -
  have ok: "duel_ok W" using run_agrees [OF empty_duels_ok] by (simp add: W_def)
  have pcs: "pc_ok W sd" if "um_find (dw_pcs W) a = Some sd" for a sd using that by (rule duel_okD(4) [OF ok])
  have alone: "dl_group sd = 0" if "um_find (dw_pcs W) a = Some sd" "0 < dl_invite sd" for a sd
    using pcs [OF that(1)] that(2) by (simp add: pc_ok_def)
  have sets: "fighters d (tourney_of W) = party d" "asked d (tourney_of W) = invited d" if "0 < d" for d
    using that alone by (auto simp: fighters_def asked_def party_def invited_def standing_cases)
  have "0 < d \<Longrightarrow> duel_exist d W \<longleftrightarrow> party d \<noteq> {}" using duel_exists_iff [OF ok] sets by simp
  moreover have "members_count D = int (card (party d)) \<and> invites_count D = int (card (invited d)) \<and>
      (0 < max_players_limit D \<longrightarrow> members_count D \<le> max_players_limit D)" if "um_find (dw_list W) d = Some D"
    using duel_okD(3) [OF ok that] sets by (auto simp: count_ok_def)
  moreover have "duel_exist d W \<and> a \<in> party 0" if "0 < d" "a \<in> invited d"
    using that pcs alone by (auto simp: invited_def party_def pc_ok_def [of W])
  ultimately show ?thesis by blast
qed

section \<open>The properties at work\<close>

definition sample_duel_env :: duel_env where
  "sample_duel_env = \<lparr>de_time_interval = 60, de_only_on_same_map = True, de_autoleave_when_die = True\<rparr>"

text \<open>Two players meet; the first asks the second to a duel, who accepts.\<close>

definition sample_meeting :: "(tm \<times> uint32 \<times> duel_event) list" where
  "sample_meeting = map (Pair (5, 12, 0)) [(1, Dl_login 0 3), (2, Dl_login 0 3), (1, Dl_enter 3), (2, Dl_enter 3),
     (1, Dl_command (At_duel (Opponent (Some 2)))), (2, Dl_command At_accept)]"

lemma sample_meeting_run: "snd (duel_run sample_duel_env sample_meeting empty_duels) =
   \<lparr>dw_list = [(1, \<lparr>members_count = 2, invites_count = 0, max_players_limit = 2\<rparr>)], dw_lastID = 1,
    dw_pcs = [(1, \<lparr>dl_group = 1, dl_invite = 0, dl_last_time = 0, dl_m = 3, dl_on_map = True\<rparr>),
              (2, \<lparr>dl_group = 1, dl_invite = 0, dl_last_time = 0, dl_m = 3, dl_on_map = True\<rparr>)]\<rparr>"
  by code_simp

theorem duels_counted_witness:
  "let W = snd (duel_run sample_duel_env sample_meeting empty_duels) in
   duel_exist 1 W \<and> int (card {a. map_option dl_group (um_find (dw_pcs W) a) = Some 1}) = 2"
proof -
  let ?W = "snd (duel_run sample_duel_env sample_meeting empty_duels)"
  have D: "um_find (dw_list ?W) 1 = Some \<lparr>members_count = 2, invites_count = 0, max_players_limit = 2\<rparr>"
    unfolding sample_meeting_run by (simp add: um_find_def)
  show ?thesis
    using duels_counted [of 1 sample_duel_env sample_meeting "\<lparr>members_count = 2, invites_count = 0, max_players_limit = 2\<rparr>"] D
    by (simp add: Let_def duel_exist_def)
qed

text \<open>The time between duels is measured in minutes of the month: a duel in its last minute does not delay the next
  one on the first.\<close>

lemma no_rest_at_month_end:
  "dl_last_time sd = minute_of (31, 23, 59) \<Longrightarrow> duel_checktime E (1, hour, mins) sd" if "hour \<le> 23" "mins \<le> 59"
  using that by (simp add: duel_checktime_def minute_of_def Let_def)

end
