(* ===== verification/Chat.thy ===== *)
theory Chat
  imports Inventory Strlib
begin

text \<open>
  Chat rooms of players and waiting rooms of NPCs (\<open>src/src/map/chat.cpp\<close>), with the packets and script
  commands that call them. Of the array \<open>usersd\<close> the model keeps the entries in use, so \<open>users\<close> is their
  number. What clients are shown, achievements and the database of a room's place on the map are left out;
  the numbers \<open>map_get_new_object_id\<close> hands out are arguments.
\<close>

section \<open>The state\<close>

definition MAX_CHAT_USERS :: nat where "MAX_CHAT_USERS = 20"
definition CHATROOM_TITLE_SIZE :: nat where "CHATROOM_TITLE_SIZE = 36 + 1"
definition CHATROOM_PASS_SIZE :: nat where "CHATROOM_PASS_SIZE = 8 + 1"
definition EVENT_NAME_LENGTH :: nat where "EVENT_NAME_LENGTH = 50 + 2 + NAME_LENGTH + 1"
definition MAX_LEVEL :: int where "MAX_LEVEL = 275"

text \<open>What a buffer says as a C string.\<close>

definition c_str :: "string \<Rightarrow> string" where "c_str s = takeWhile (\<lambda>c. c \<noteq> NUL) s"

datatype room_owner = Owner_pc uint32 | Owner_npc nat

record chat_data =
  cd_title :: string
  cd_pass :: string
  cd_pub :: bool
  cd_usersd :: "uint32 list"
  cd_limit :: uint8
  cd_trigger :: uint8
  cd_zeny :: uint32
  cd_minLvl :: uint32
  cd_maxLvl :: uint32
  cd_owner :: room_owner
  cd_npc_event :: string
  cd_kick_list :: "uint32 list"
  cd_m :: int
  cd_pos :: "int \<times> int"

abbreviation cd_users :: "chat_data \<Rightarrow> nat" where "cd_users cd \<equiv> length (cd_usersd cd)"

text \<open>A player with the number of the room, the name and the place.\<close>

record chatter =
  ct_sd :: player
  ct_chatID :: int
  ct_name :: string
  ct_pos :: "int \<times> int"

text \<open>The players, the rooms among the objects \<open>map_id2bl\<close> finds, \<open>nd->chat_id\<close> of the NPCs, and the events
  that \<open>npc_event_do\<close> was called with.\<close>

record lobby =
  lb_players :: "uint32 \<Rightarrow> chatter option"
  lb_rooms :: "int \<Rightarrow> chat_data option"
  lb_chat_id :: "nat \<Rightarrow> int"
  lb_events :: "string list"

text \<open>The environment: maps and cells without chats, who is muted, lacks the basic skill or stands near an NPC,
  permissions, where NPCs stand, whom a warp takes off the map and whom it may not take to the save point.\<close>

record chat_env =
  ce_nochat_map :: "int \<Rightarrow> bool"
  ce_nochat_cell :: "uint32 \<Rightarrow> bool"
  ce_no_room :: "uint32 \<Rightarrow> bool"
  ce_join_all_chat :: "uint32 \<Rightarrow> bool"
  ce_no_chat_kick :: "uint32 \<Rightarrow> bool"
  ce_npc_place :: "nat \<Rightarrow> int \<times> int \<times> int"
  ce_noteleport :: "uint32 \<Rightarrow> bool"
  ce_warps :: "uint32 \<Rightarrow> int option"

definition put_room :: "int \<Rightarrow> chat_data \<Rightarrow> lobby \<Rightarrow> lobby" where
  "put_room rid cd W = W\<lparr>lb_rooms := (lb_rooms W)(rid := Some cd)\<rparr>"

definition on_chatter :: "uint32 \<Rightarrow> (chatter \<Rightarrow> chatter) \<Rightarrow> lobby \<Rightarrow> lobby" where
  "on_chatter a f W = W\<lparr>lb_players := (lb_players W)(a := map_option f (lb_players W a))\<rparr>"

definition pc_setchatid :: "uint32 \<Rightarrow> int \<Rightarrow> lobby \<Rightarrow> lobby" where
  "pc_setchatid a n W = on_chatter a (\<lambda>p. p\<lparr>ct_chatID := n\<rparr>) W"

definition place_of :: "uint32 \<Rightarrow> lobby \<Rightarrow> int \<times> int" where
  "place_of a W = (case lb_players W a of None \<Rightarrow> (0, 0) | Some p \<Rightarrow> ct_pos p)"

definition name_of :: "uint32 \<Rightarrow> lobby \<Rightarrow> string" where
  "name_of a W = (case lb_players W a of None \<Rightarrow> [] | Some p \<Rightarrow> ct_name p)"

text \<open>\<open>strncmp(s, t, n) == 0\<close>: equal up to a terminator or the first \<open>n\<close> bytes.\<close>

definition strncmp_eq :: "string \<Rightarrow> string \<Rightarrow> nat \<Rightarrow> bool" where
  "strncmp_eq s t n \<longleftrightarrow> c_str (take n s) = c_str (take n t)"

section \<open>Rooms\<close>

definition chat_createchat :: "room_owner \<Rightarrow> int \<Rightarrow> int \<times> int \<Rightarrow> string \<Rightarrow> string \<Rightarrow> int \<Rightarrow> bool \<Rightarrow> int \<Rightarrow> string \<Rightarrow> int \<Rightarrow> int \<Rightarrow> int \<Rightarrow>
    chat_data" where
  "chat_createchat owner m pos title pass limit pub trigger ev zeny minLvl maxLvl =
     \<lparr>cd_title = safestrncpy title CHATROOM_TITLE_SIZE, cd_pass = safestrncpy pass CHATROOM_PASS_SIZE, cd_pub = pub, cd_usersd = [],
      cd_limit = word_of_int (min limit (int MAX_CHAT_USERS)), cd_trigger = word_of_int trigger, cd_zeny = word_of_int zeny,
      cd_minLvl = word_of_int minLvl, cd_maxLvl = word_of_int maxLvl, cd_owner = owner, cd_npc_event = safestrncpy ev EVENT_NAME_LENGTH, cd_kick_list = [],
      cd_m = m, cd_pos = pos\<rparr>"

definition chat_createpcchat :: "chat_env \<Rightarrow> uint32 \<Rightarrow> string \<Rightarrow> string \<Rightarrow> int \<Rightarrow> bool \<Rightarrow> int \<Rightarrow> lobby \<Rightarrow> lobby" where
  "chat_createpcchat E a title pass limit pub rid W =
     (case lb_players W a of None \<Rightarrow> W | Some p \<Rightarrow>
      if ct_chatID p \<noteq> 0 then W else
      if pl_vending (ct_sd p) \<or> pl_buyingstore (ct_sd p) then W else
      if ce_nochat_map E (pl_m (ct_sd p)) then W else
      if ce_nochat_cell E a then W else
      let cd = chat_createchat (Owner_pc a) (pl_m (ct_sd p)) (ct_pos p) title pass limit pub 0 [] 0 1 MAX_LEVEL
      in pc_setchatid a rid (put_room rid (cd\<lparr>cd_usersd := [a]\<rparr>) W))"

definition is_npc :: "chat_data \<Rightarrow> bool" where
  "is_npc cd = (case cd_owner cd of Owner_npc n \<Rightarrow> True | Owner_pc a \<Rightarrow> False)"

definition chat_triggerevent :: "chat_data \<Rightarrow> lobby \<Rightarrow> lobby" where
  "chat_triggerevent cd W =
     (if cd_users cd \<ge> unat (cd_trigger cd) \<and> hd (cd_npc_event cd) \<noteq> NUL then W\<lparr>lb_events := lb_events W @ [c_str (cd_npc_event cd)]\<rparr> else W)"

datatype e_refuse_enter_room =
    ENTERROOM_FULL | ENTERROOM_WRONG_PASSWORD | ENTERROOM_KICKED | ENTERROOM_SUCCESS | ENTERROOM_NO_ZENY |
    ENTERROOM_TOO_LOW_LEVEL | ENTERROOM_TOO_HIGH_LEVEL | ENTERROOM_UNSUITABLE_JOB

text \<open>Whether the room counts as full for somebody who wants to enter; in a waiting room the NPC takes a place.\<close>

definition no_place :: "chat_data \<Rightarrow> bool" where
  "no_place cd \<longleftrightarrow> (if is_npc cd then cd_users cd + 1 else cd_users cd) \<ge> unat (cd_limit cd)"

definition chat_joinchat :: "chat_env \<Rightarrow> uint32 \<Rightarrow> int \<Rightarrow> string \<Rightarrow> lobby \<Rightarrow> e_refuse_enter_room option \<times> lobby" where
  "chat_joinchat E a chatid pass W =
     (case lb_players W a of None \<Rightarrow> (None, W) | Some p \<Rightarrow>
      (case lb_rooms W chatid of None \<Rightarrow> (Some ENTERROOM_FULL, W) | Some cd \<Rightarrow>
       if cd_m cd \<noteq> pl_m (ct_sd p) \<or> pl_vending (ct_sd p) \<or> pl_buyingstore (ct_sd p) \<or> ct_chatID p \<noteq> 0 \<or> no_place cd
       then (Some ENTERROOM_FULL, W) else
       if \<not> cd_pub cd \<and> \<not> strncmp_eq pass (cd_pass cd) CHATROOM_PASS_SIZE \<and> \<not> ce_join_all_chat E a
       then (Some ENTERROOM_WRONG_PASSWORD, W) else
       if pl_base_level (ct_sd p) < cd_minLvl cd then (Some ENTERROOM_TOO_LOW_LEVEL, W) else
       if pl_base_level (ct_sd p) > cd_maxLvl cd then (Some ENTERROOM_TOO_HIGH_LEVEL, W) else
       if word_of_int (pl_zeny (ct_sd p)) < cd_zeny cd then (Some ENTERROOM_NO_ZENY, W) else
       if \<not> is_npc cd \<and> pl_char_id (ct_sd p) \<in> set (cd_kick_list cd) then (Some ENTERROOM_KICKED, W) else
       let cd' = cd\<lparr>cd_usersd := cd_usersd cd @ [a]\<rparr>
       in (None, chat_triggerevent cd' (pc_setchatid a chatid (put_room chatid cd' W)))))"

text \<open>The loop that closes the gap is the list without the entry.\<close>

definition chat_leavechat :: "uint32 \<Rightarrow> lobby \<Rightarrow> int \<times> lobby" where
  "chat_leavechat a W =
     (case lb_players W a of None \<Rightarrow> (1, W) | Some p \<Rightarrow>
      let rid = ct_chatID p; W1 = pc_setchatid a 0 W in
      case lb_rooms W rid of None \<Rightarrow> (1, W1) | Some cd \<Rightarrow>
      let leavechar = arr_find (\<lambda>u. u = a) (cd_usersd cd) in
      if leavechar = cd_users cd then (- 1, W1) else
      let users = take leavechar (cd_usersd cd) @ drop (Suc leavechar) (cd_usersd cd); cd1 = cd\<lparr>cd_usersd := users\<rparr> in
      if users = [] \<and> \<not> is_npc cd then (1, W1\<lparr>lb_rooms := (lb_rooms W1)(rid := None)\<rparr>) else
      if leavechar = 0 \<and> \<not> is_npc cd
      then (0, put_room rid (cd1\<lparr>cd_owner := Owner_pc (hd users), cd_pos := place_of (hd users) W1\<rparr>) W1)
      else (0, put_room rid cd1 W1))"

text \<open>What the room's owner does: the room the player is in, if the player owns it.\<close>

definition own_room :: "uint32 \<Rightarrow> lobby \<Rightarrow> (int \<times> chat_data) option" where
  "own_room a W = (case lb_players W a of None \<Rightarrow> None | Some p \<Rightarrow>
     (case lb_rooms W (ct_chatID p) of None \<Rightarrow> None | Some cd \<Rightarrow>
      if cd_owner cd \<noteq> Owner_pc a then None else Some (ct_chatID p, cd)))"

definition chat_changechatowner :: "uint32 \<Rightarrow> string \<Rightarrow> lobby \<Rightarrow> int \<times> lobby" where
  "chat_changechatowner a nextownername W =
     (case own_room a W of None \<Rightarrow> (1, W) | Some (rid, cd) \<Rightarrow>
      let i = 1 + arr_find (\<lambda>u. strncmp_eq (name_of u W) nextownername NAME_LENGTH) (drop 1 (cd_usersd cd)) in
      if i = cd_users cd then (- 1, W) else
      let next = cd_usersd cd ! i in
      (0, put_room rid (cd\<lparr>cd_owner := Owner_pc next, cd_usersd := (cd_usersd cd)[i := cd_usersd cd ! 0, 0 := next],
        cd_pos := place_of next W\<rparr>) W))"

definition chat_changechatstatus :: "uint32 \<Rightarrow> string \<Rightarrow> string \<Rightarrow> int \<Rightarrow> bool \<Rightarrow> lobby \<Rightarrow> int \<times> lobby" where
  "chat_changechatstatus a title pass limit pub W =
     (case own_room a W of None \<Rightarrow> (1, W) | Some (rid, cd) \<Rightarrow>
      (0, put_room rid (cd\<lparr>cd_title := safestrncpy title CHATROOM_TITLE_SIZE, cd_pass := safestrncpy pass CHATROOM_PASS_SIZE,
        cd_limit := word_of_int (min limit (int MAX_CHAT_USERS)), cd_pub := pub\<rparr>) W))"

definition user_named :: "string \<Rightarrow> chat_data \<Rightarrow> lobby \<Rightarrow> nat" where
  "user_named name cd W = arr_find (\<lambda>u. strncmp_eq (name_of u W) name NAME_LENGTH) (cd_usersd cd)"

definition chat_npckickchat :: "chat_data \<Rightarrow> string \<Rightarrow> lobby \<Rightarrow> int \<times> lobby" where
  "chat_npckickchat cd kickusername W =
     (let i = user_named kickusername cd W in
      if i = cd_users cd then (- 1, W) else (0, snd (chat_leavechat (cd_usersd cd ! i) W)))"

definition chat_kickchat :: "chat_env \<Rightarrow> uint32 \<Rightarrow> string \<Rightarrow> lobby \<Rightarrow> int \<times> lobby" where
  "chat_kickchat E a kickusername W =
     (case own_room a W of None \<Rightarrow> (- 1, W) | Some (rid, cd) \<Rightarrow>
      let i = user_named kickusername cd W in
      if i = cd_users cd then (- 1, W) else
      let u = cd_usersd cd ! i in
      if ce_no_chat_kick E u then (0, W) else
      let char_id = (case lb_players W u of None \<Rightarrow> 0 | Some p \<Rightarrow> pl_char_id (ct_sd p));
          W1 = put_room rid (cd\<lparr>cd_kick_list := char_id # cd_kick_list cd\<rparr>) W
      in (0, snd (chat_leavechat u W1)))"

section \<open>Waiting rooms\<close>

definition chat_createnpcchat :: "chat_env \<Rightarrow> nat \<Rightarrow> string \<Rightarrow> int \<Rightarrow> bool \<Rightarrow> int \<Rightarrow> string \<Rightarrow> int \<Rightarrow> int \<Rightarrow> int \<Rightarrow> int \<Rightarrow> lobby \<Rightarrow> lobby" where
  "chat_createnpcchat E nd title limit pub trigger ev zeny minLvl maxLvl rid W =
     (if lb_chat_id W nd \<noteq> 0 then W else
      if zeny > MAX_ZENY \<or> maxLvl > MAX_LEVEL then W else
      case ce_npc_place E nd of (m, pos) \<Rightarrow>
      (put_room rid (chat_createchat (Owner_npc nd) m pos title [] limit pub trigger ev zeny minLvl maxLvl) W)
        \<lparr>lb_chat_id := (lb_chat_id W)(nd := rid)\<rparr>)"

text \<open>The loop throws out the last user again and again; it ends if each time somebody leaves.\<close>

partial_function (option) chat_npckickall :: "int \<Rightarrow> lobby \<Rightarrow> lobby option" where
  "chat_npckickall rid W =
     (case lb_rooms W rid of None \<Rightarrow> Some W | Some cd \<Rightarrow>
      if cd_usersd cd = [] then Some W else chat_npckickall rid (snd (chat_leavechat (last (cd_usersd cd)) W)))"

definition chat_deletenpcchat :: "nat \<Rightarrow> lobby \<Rightarrow> lobby option" where
  "chat_deletenpcchat nd W =
     (case lb_rooms W (lb_chat_id W nd) of None \<Rightarrow> Some W | Some cd \<Rightarrow>
      map_option (\<lambda>W1. W1\<lparr>lb_rooms := (lb_rooms W1)(lb_chat_id W nd := None), lb_chat_id := (lb_chat_id W1)(nd := 0)\<rparr>)
        (chat_npckickall (lb_chat_id W nd) W))"

definition chat_enableevent :: "int \<Rightarrow> chat_data \<Rightarrow> lobby \<Rightarrow> lobby" where
  "chat_enableevent rid cd W =
     (let cd' = cd\<lparr>cd_trigger := and (cd_trigger cd) 0x7F\<rparr> in chat_triggerevent cd' (put_room rid cd' W))"

definition chat_disableevent :: "int \<Rightarrow> chat_data \<Rightarrow> lobby \<Rightarrow> lobby" where
  "chat_disableevent rid cd W = put_room rid (cd\<lparr>cd_trigger := or (cd_trigger cd) 0x80\<rparr>) W"

section \<open>Script commands\<close>

text \<open>The options of \<open>waitingroom\<close>: event, trigger, zeny, least and greatest level.\<close>

definition buildin_waitingroom :: "chat_env \<Rightarrow> nat \<Rightarrow> string \<Rightarrow> int \<Rightarrow> string option \<Rightarrow> int option \<Rightarrow> int option \<Rightarrow> int option \<Rightarrow>
    int option \<Rightarrow> int \<Rightarrow> lobby \<Rightarrow> lobby" where
  "buildin_waitingroom E nd title limit ev trigger zeny minLvl maxLvl rid W =
     chat_createnpcchat E nd title limit True (case trigger of None \<Rightarrow> limit | Some n \<Rightarrow> n) (case ev of None \<Rightarrow> [] | Some s \<Rightarrow> s)
       (case zeny of None \<Rightarrow> 0 | Some n \<Rightarrow> n) (case minLvl of None \<Rightarrow> 1 | Some n \<Rightarrow> n) (case maxLvl of None \<Rightarrow> MAX_LEVEL | Some n \<Rightarrow> n) rid W"

text \<open>A command about the waiting room of an NPC does nothing if there is none.\<close>

definition on_waiting_room :: "nat \<Rightarrow> (int \<Rightarrow> chat_data \<Rightarrow> lobby) \<Rightarrow> lobby \<Rightarrow> lobby" where
  "on_waiting_room nd f W = (case lb_rooms W (lb_chat_id W nd) of None \<Rightarrow> W | Some cd \<Rightarrow> f (lb_chat_id W nd) cd)"

definition buildin_waitingroomkick :: "nat \<Rightarrow> string \<Rightarrow> lobby \<Rightarrow> lobby" where
  "buildin_waitingroomkick nd kickusername W = on_waiting_room nd (\<lambda>rid cd. snd (chat_npckickchat cd kickusername W)) W"

definition buildin_getwaitingroomusers :: "nat \<Rightarrow> lobby \<Rightarrow> (uint32 list \<times> nat) option" where
  "buildin_getwaitingroomusers nd W = map_option (\<lambda>cd. (cd_usersd cd, cd_users cd)) (lb_rooms W (lb_chat_id W nd))"

definition buildin_waitingroomkickall :: "nat \<Rightarrow> lobby \<Rightarrow> lobby option" where
  "buildin_waitingroomkickall nd W =
     (case lb_rooms W (lb_chat_id W nd) of None \<Rightarrow> Some W | Some cd \<Rightarrow> chat_npckickall (lb_chat_id W nd) W)"

definition buildin_enablewaitingroomevent :: "nat \<Rightarrow> lobby \<Rightarrow> lobby" where
  "buildin_enablewaitingroomevent nd W = on_waiting_room nd (\<lambda>rid cd. chat_enableevent rid cd W) W"

definition buildin_disablewaitingroomevent :: "nat \<Rightarrow> lobby \<Rightarrow> lobby" where
  "buildin_disablewaitingroomevent nd W = on_waiting_room nd (\<lambda>rid cd. chat_disableevent rid cd W) W"

datatype pushed = Push_int int | Push_str string

definition buildin_getwaitingroomstate :: "int \<Rightarrow> nat \<Rightarrow> lobby \<Rightarrow> pushed" where
  "buildin_getwaitingroomstate type nd W =
     (case lb_rooms W (lb_chat_id W nd) of None \<Rightarrow> Push_int (- 1) | Some cd \<Rightarrow>
      if type = 0 then Push_int (int (cd_users cd))
      else if type = 1 then Push_int (uint (cd_limit cd))
      else if type = 2 then Push_int (uint (and (cd_trigger cd) 0x7F))
      else if type = 3 then Push_int (of_bool (and (cd_trigger cd) 0x80 \<noteq> 0))
      else if type = 4 then Push_str (c_str (cd_title cd))
      else if type = 5 then Push_str (c_str (cd_pass cd))
      else if type = 16 then Push_str (c_str (cd_npc_event cd))
      else if type = 32 then Push_int (of_bool (cd_users cd \<ge> unat (cd_limit cd)))
      else if type = 33 then Push_int (of_bool (cd_users cd \<ge> unat (cd_trigger cd)))
      else Push_int (- 1))"

text \<open>A player leaves the map, by a warp or otherwise, and then stands on another, or is gone.\<close>

definition leave_map :: "uint32 \<Rightarrow> lobby \<Rightarrow> lobby" where
  "leave_map a W = (case lb_players W a of None \<Rightarrow> W | Some p \<Rightarrow> if ct_chatID p \<noteq> 0 then snd (chat_leavechat a W) else W)"

definition warp_to :: "uint32 \<Rightarrow> int \<Rightarrow> lobby \<Rightarrow> lobby" where
  "warp_to a m W = on_chatter a (\<lambda>p. p\<lparr>ct_sd := (ct_sd p)\<lparr>pl_m := m\<rparr>\<rparr>) (leave_map a W)"

text \<open>The loop of \<open>warpwaitingpc\<close>: those warped, as the script can read them afterwards. The result of
  \<open>pc_setpos\<close> is not looked at.\<close>

fun warp_loop :: "chat_env \<Rightarrow> bool \<Rightarrow> int \<Rightarrow> nat \<Rightarrow> lobby \<Rightarrow> uint32 list \<times> lobby" where
  "warp_loop E savepoint rid 0 W = ([], W)"
| "warp_loop E savepoint rid (Suc n) W =
     (case lb_rooms W rid of None \<Rightarrow> ([], W) | Some cd \<Rightarrow>
      (case cd_usersd cd of [] \<Rightarrow> ([], W) | a # _ \<Rightarrow>
       (case lb_players W a of None \<Rightarrow> ([], W) | Some p \<Rightarrow>
        if savepoint \<and> ce_noteleport E a then ([], W) else
        if cd_zeny cd \<noteq> 0 \<and> word_of_int (pl_zeny (ct_sd p)) < cd_zeny cd then ([], W) else
        let W1 = (if cd_zeny cd \<noteq> 0 then on_chatter a (\<lambda>p. p\<lparr>ct_sd := snd (pc_payzeny (sint (cd_zeny cd)) (ct_sd p))\<rparr>) W else W);
            W2 = (case ce_warps E a of None \<Rightarrow> W1 | Some m \<Rightarrow> warp_to a m W1)
        in case warp_loop E savepoint rid n W2 of (warped, W3) \<Rightarrow> (a # warped, W3))))"

definition buildin_warpwaitingpc :: "chat_env \<Rightarrow> bool \<Rightarrow> int option \<Rightarrow> nat \<Rightarrow> lobby \<Rightarrow> uint32 list \<times> lobby" where
  "buildin_warpwaitingpc E savepoint number nd W =
     (case lb_rooms W (lb_chat_id W nd) of None \<Rightarrow> ([], W) | Some cd \<Rightarrow>
      warp_loop E savepoint (lb_chat_id W nd) (nat (case number of None \<Rightarrow> uint (and (cd_trigger cd) 0x7F) | Some n \<Rightarrow> n)) W)"

section \<open>Packets\<close>

text \<open>Title and password of a request are copied first; \<open>limit\<close> has 16 bits.\<close>

definition clif_parse_CreateChatRoom :: "chat_env \<Rightarrow> uint32 \<Rightarrow> uint16 \<Rightarrow> uint8 \<Rightarrow> string \<Rightarrow> string \<Rightarrow> int \<Rightarrow> lobby \<Rightarrow> lobby" where
  "clif_parse_CreateChatRoom E a limit type password title rid W =
     (if ce_no_room E a then W else
      chat_createpcchat E a (safestrncpy title (min CHATROOM_TITLE_SIZE (length title + 1))) (safestrncpy password CHATROOM_PASS_SIZE)
        (uint limit) (type \<noteq> 0) rid W)"

text \<open>The password is not copied: what is compared is the buffer from the eight bytes of the password on.\<close>

definition clif_parse_ChatAddMember :: "chat_env \<Rightarrow> uint32 \<Rightarrow> uint32 \<Rightarrow> string \<Rightarrow> lobby \<Rightarrow> e_refuse_enter_room option \<times> lobby" where
  "clif_parse_ChatAddMember E a chat_id buffer W = chat_joinchat E a (sint chat_id) buffer W"

definition clif_parse_ChatRoomStatusChange :: "uint32 \<Rightarrow> uint16 \<Rightarrow> uint8 \<Rightarrow> string \<Rightarrow> string \<Rightarrow> lobby \<Rightarrow> lobby" where
  "clif_parse_ChatRoomStatusChange a limit type password title W =
     (if length title = 0 then W else
      snd (chat_changechatstatus a (safestrncpy title (min (length title + 1) CHATROOM_TITLE_SIZE)) (safestrncpy password CHATROOM_PASS_SIZE)
        (uint limit) (type \<noteq> 0) W))"

section \<open>Everything that happens\<close>

datatype chat_event =
    Ch_login uint32 chatter
  | Ch_play uint32 player
  | Ch_warp uint32 int
  | Ch_quit uint32
  | Ch_create uint32 uint16 uint8 string string int
  | Ch_join uint32 uint32 string
  | Ch_status uint32 uint16 uint8 string string
  | Ch_owner uint32 string
  | Ch_kick uint32 string
  | Ch_leave uint32
  | Np_waitingroom nat string int "string option" "int option" "int option" "int option" "int option" int
  | Np_delwaitingroom nat
  | Np_kick nat string
  | Np_kickall nat
  | Np_enable nat
  | Np_disable nat
  | Np_warp nat bool "int option"

definition chat_step :: "chat_env \<Rightarrow> chat_event \<Rightarrow> lobby \<Rightarrow> lobby option" where
  "chat_step E ev W = (case ev of
     Ch_login a p \<Rightarrow> Some (case lb_players W a of
       None \<Rightarrow> W\<lparr>lb_players := (lb_players W)(a \<mapsto> p\<lparr>ct_chatID := 0\<rparr>)\<rparr> | Some _ \<Rightarrow> W)
   | Ch_play a sd \<Rightarrow> Some (on_chatter a (\<lambda>p. p\<lparr>ct_sd := sd\<lparr>pl_m := pl_m (ct_sd p)\<rparr>\<rparr>) W)
   | Ch_warp a m \<Rightarrow> Some (warp_to a m W)
   | Ch_quit a \<Rightarrow> Some (let W1 = leave_map a W in W1\<lparr>lb_players := (lb_players W1)(a := None)\<rparr>)
   | Ch_create a limit type password title rid \<Rightarrow> Some (clif_parse_CreateChatRoom E a limit type password title rid W)
   | Ch_join a chat_id buffer \<Rightarrow> Some (snd (clif_parse_ChatAddMember E a chat_id buffer W))
   | Ch_status a limit type password title \<Rightarrow> Some (clif_parse_ChatRoomStatusChange a limit type password title W)
   | Ch_owner a name \<Rightarrow> Some (snd (chat_changechatowner a name W))
   | Ch_kick a name \<Rightarrow> Some (snd (chat_kickchat E a name W))
   | Ch_leave a \<Rightarrow> Some (snd (chat_leavechat a W))
   | Np_waitingroom nd title limit ev trigger zeny minLvl maxLvl rid \<Rightarrow>
       Some (buildin_waitingroom E nd title limit ev trigger zeny minLvl maxLvl rid W)
   | Np_delwaitingroom nd \<Rightarrow> chat_deletenpcchat nd W
   | Np_kick nd name \<Rightarrow> Some (buildin_waitingroomkick nd name W)
   | Np_kickall nd \<Rightarrow> buildin_waitingroomkickall nd W
   | Np_enable nd \<Rightarrow> Some (buildin_enablewaitingroomevent nd W)
   | Np_disable nd \<Rightarrow> Some (buildin_disablewaitingroomevent nd W)
   | Np_warp nd savepoint number \<Rightarrow> Some (snd (buildin_warpwaitingpc E savepoint number nd W)))"

end
