(* ===== verification/ChatRules.thy ===== *)
theory ChatRules
  imports Chat
begin

text \<open>
  What holds of chat rooms in every state: who a room lists is in it, who is in a room is listed there, rooms of
  players belong to the first on the list, and waiting rooms have room for the NPC.
\<close>

section \<open>Rooms and the players in them\<close>

definition owner_ok :: "(nat \<Rightarrow> int) \<Rightarrow> int \<Rightarrow> chat_data \<Rightarrow> bool" where
  "owner_ok ids rid cd \<longleftrightarrow> (case cd_owner cd of Owner_pc a \<Rightarrow> cd_usersd cd \<noteq> [] \<and> a = hd (cd_usersd cd)
     | Owner_npc nd \<Rightarrow> ids nd = rid \<and> (cd_usersd cd \<noteq> [] \<longrightarrow> cd_users cd < unat (cd_limit cd)))"

definition room_ok :: "lobby \<Rightarrow> int \<Rightarrow> chat_data \<Rightarrow> bool" where
  "room_ok W rid cd \<longleftrightarrow> rid \<noteq> 0 \<and> distinct (cd_usersd cd) \<and> cd_users cd \<le> MAX_CHAT_USERS \<and> unat (cd_limit cd) \<le> MAX_CHAT_USERS \<and>
     (\<forall>u \<in> set (cd_usersd cd). \<exists>p. lb_players W u = Some p \<and> ct_chatID p = rid \<and> pl_m (ct_sd p) = cd_m cd) \<and>
     owner_ok (lb_chat_id W) rid cd"

definition chatter_ok :: "lobby \<Rightarrow> uint32 \<Rightarrow> chatter \<Rightarrow> bool" where
  "chatter_ok W a p \<longleftrightarrow> (ct_chatID p \<noteq> 0 \<longrightarrow> (\<exists>cd. lb_rooms W (ct_chatID p) = Some cd \<and> a \<in> set (cd_usersd cd)))"

definition npc_ok :: "lobby \<Rightarrow> nat \<Rightarrow> bool" where
  "npc_ok W nd \<longleftrightarrow> (lb_chat_id W nd \<noteq> 0 \<longrightarrow> (\<exists>cd. lb_rooms W (lb_chat_id W nd) = Some cd \<and> cd_owner cd = Owner_npc nd))"

definition lobby_ok :: "lobby \<Rightarrow> bool" where
  "lobby_ok W \<longleftrightarrow> (\<forall>rid cd. lb_rooms W rid = Some cd \<longrightarrow> room_ok W rid cd) \<and>
     (\<forall>a p. lb_players W a = Some p \<longrightarrow> chatter_ok W a p) \<and> (\<forall>nd. npc_ok W nd)"

lemma lobby_okD:
  assumes "lobby_ok W"
  shows "lb_rooms W rid = Some cd \<Longrightarrow> room_ok W rid cd" "lb_players W a = Some p \<Longrightarrow> chatter_ok W a p" "npc_ok W nd" "lb_rooms W 0 = None"
  using assms by (auto simp: lobby_ok_def room_ok_def intro: option.exhaust [of "lb_rooms W 0"])

lemma put_room_simps [simp]:
  "lb_rooms (put_room rid cd W) = (lb_rooms W)(rid := Some cd)" "lb_players (put_room rid cd W) = lb_players W"
  "lb_chat_id (put_room rid cd W) = lb_chat_id W" "lb_events (put_room rid cd W) = lb_events W"
  by (simp_all add: put_room_def)

lemma on_chatter_simps [simp]:
  "lb_players (on_chatter a f W) = (lb_players W)(a := map_option f (lb_players W a))" "lb_rooms (on_chatter a f W) = lb_rooms W"
  "lb_chat_id (on_chatter a f W) = lb_chat_id W" "lb_events (on_chatter a f W) = lb_events W"
  by (simp_all add: on_chatter_def)

lemma setchatid_simps [simp]:
  "lb_players (pc_setchatid a n W) = (lb_players W)(a := map_option (\<lambda>p. p\<lparr>ct_chatID := n\<rparr>) (lb_players W a))"
  "lb_rooms (pc_setchatid a n W) = lb_rooms W" "lb_chat_id (pc_setchatid a n W) = lb_chat_id W" "lb_events (pc_setchatid a n W) = lb_events W"
  by (simp_all add: pc_setchatid_def)

lemma trigger_simps [simp]:
  "lb_players (chat_triggerevent cd W) = lb_players W" "lb_rooms (chat_triggerevent cd W) = lb_rooms W"
  "lb_chat_id (chat_triggerevent cd W) = lb_chat_id W"
  by (simp_all add: chat_triggerevent_def)

lemma lobby_ok_cong:
  "lb_players W' = lb_players W \<Longrightarrow> lb_rooms W' = lb_rooms W \<Longrightarrow> lb_chat_id W' = lb_chat_id W \<Longrightarrow> lobby_ok W' = lobby_ok W"
  by (simp add: lobby_ok_def room_ok_def chatter_ok_def npc_ok_def)

lemma room_member: "room_ok W e cd \<Longrightarrow> u \<in> set (cd_usersd cd) \<Longrightarrow> \<exists>p. lb_players W u = Some p \<and> ct_chatID p = e \<and> pl_m (ct_sd p) = cd_m cd"
  unfolding room_ok_def by (elim conjE) (rule bspec)

lemma set_remove_at: "distinct xs \<Longrightarrow> a \<in> set xs \<Longrightarrow>
  take (arr_find (\<lambda>u. u = a) xs) xs @ drop (Suc (arr_find (\<lambda>u. u = a) xs)) xs = remove1 a xs"
  by (induction xs) auto

text \<open>Only one room and one player change.\<close>

lemma lobby_ok_one:
  assumes ok: "lobby_ok W" and players: "\<And>b. b \<noteq> a \<Longrightarrow> lb_players W' b = lb_players W b"
    and rooms: "\<And>e. e \<noteq> rid \<Longrightarrow> lb_rooms W' e = lb_rooms W e" and ids: "lb_chat_id W' = lb_chat_id W"
    and a: "\<And>p. lb_players W' a = Some p \<Longrightarrow> chatter_ok W' a p"
    and room: "\<And>cd. lb_rooms W' rid = Some cd \<Longrightarrow> room_ok W' rid cd"
    and elsewhere: "\<And>e cd. e \<noteq> rid \<Longrightarrow> lb_rooms W e = Some cd \<Longrightarrow> a \<notin> set (cd_usersd cd)"
    and others: "\<And>b p. b \<noteq> a \<Longrightarrow> lb_players W b = Some p \<Longrightarrow> ct_chatID p = rid \<Longrightarrow> rid \<noteq> 0 \<Longrightarrow> chatter_ok W' b p"
    and npc: "\<And>nd. lb_chat_id W nd = rid \<Longrightarrow> npc_ok W' nd"
  shows "lobby_ok W'"
proof -
  have "room_ok W' e cd" if e: "lb_rooms W' e = Some cd" for e cd
  proof (cases "e = rid")
    case False
    then have "lb_rooms W e = Some cd" using e rooms by simp
    with lobby_okD(1) [OF ok] elsewhere [OF False] have "room_ok W e cd" "a \<notin> set (cd_usersd cd)" by blast+
    moreover have "\<exists>p. lb_players W' u = Some p \<and> ct_chatID p = e \<and> pl_m (ct_sd p) = cd_m cd"
      if "u \<in> set (cd_usersd cd)" "\<exists>p. lb_players W u = Some p \<and> ct_chatID p = e \<and> pl_m (ct_sd p) = cd_m cd" "a \<notin> set (cd_usersd cd)" for u
      using that players [of u] by (cases "u = a") auto
    ultimately show ?thesis using ids by (auto simp: room_ok_def)
  qed (use room e in simp)
  moreover have "chatter_ok W' b p" if b: "lb_players W' b = Some p" for b p
  proof (cases "b = a")
    case False
    then have p: "lb_players W b = Some p" using b players by simp
    then have "chatter_ok W b p" by (rule lobby_okD(2) [OF ok])
    then show ?thesis using others [OF False p] rooms by (cases "ct_chatID p = rid") (auto simp: chatter_ok_def)
  qed (use a b in simp)
  moreover have "npc_ok W' nd" for nd
    using npc [of nd] lobby_okD(3) [OF ok, of nd] rooms ids by (cases "lb_chat_id W nd = rid") (auto simp: npc_ok_def)
  ultimately show ?thesis by (simp add: lobby_ok_def)
qed

lemma listed_once:
  assumes "lobby_ok W" "lb_rooms W e = Some cd" "a \<in> set (cd_usersd cd)"
  shows "\<exists>p. lb_players W a = Some p \<and> ct_chatID p = e \<and> e \<noteq> 0"
  using lobby_okD(1) [OF assms(1,2)] assms(3) by (auto simp: room_ok_def)

section \<open>Leaving\<close>

text \<open>The room without a user; the next in line owns a player's room.\<close>

definition room_without :: "uint32 \<Rightarrow> lobby \<Rightarrow> chat_data \<Rightarrow> chat_data option" where
  "room_without a W cd =
     (let users = remove1 a (cd_usersd cd) in
      if users = [] \<and> \<not> is_npc cd then None
      else if hd (cd_usersd cd) = a \<and> \<not> is_npc cd
      then Some (cd\<lparr>cd_usersd := users, cd_owner := Owner_pc (hd users), cd_pos := place_of (hd users) W\<rparr>)
      else Some (cd\<lparr>cd_usersd := users\<rparr>))"

lemma leave_effect:
  assumes ok: "lobby_ok W" and a: "lb_players W a = Some p" and room: "ct_chatID p \<noteq> 0" "lb_rooms W (ct_chatID p) = Some cd"
  shows "snd (chat_leavechat a W) = W\<lparr>lb_players := (lb_players W)(a \<mapsto> p\<lparr>ct_chatID := 0\<rparr>),
    lb_rooms := (lb_rooms W)(ct_chatID p := room_without a W cd)\<rparr>"
proof -
  have listed: "a \<in> set (cd_usersd cd)" using lobby_okD(2) [OF ok a] room by (auto simp: chatter_ok_def)
  have distinct: "distinct (cd_usersd cd)" using lobby_okD(1) [OF ok room(2)] by (simp add: room_ok_def)
  have found: "arr_find (\<lambda>u. u = a) (cd_usersd cd) < cd_users cd" using arr_find_found [OF listed, of "\<lambda>u. u = a"] by simp
  have first: "arr_find (\<lambda>u. u = a) (cd_usersd cd) = 0 \<longleftrightarrow> hd (cd_usersd cd) = a" using listed by (cases "cd_usersd cd") auto
  have place: "place_of u (pc_setchatid a 0 W) = place_of u W" for u
    using a by (simp add: place_of_def)
  have setid: "pc_setchatid a 0 W = W\<lparr>lb_players := (lb_players W)(a \<mapsto> p\<lparr>ct_chatID := 0\<rparr>)\<rparr>"
    by (simp add: pc_setchatid_def on_chatter_def a)
  show ?thesis
    using room found
    by (simp add: chat_leavechat_def room_without_def Let_def a set_remove_at [OF distinct listed] first place [unfolded setid] setid put_room_def)
qed

lemma without_users: "room_without a W cd = Some cd' \<Longrightarrow> cd_usersd cd' = remove1 a (cd_usersd cd) \<and> cd_limit cd' = cd_limit cd \<and>
  cd_m cd' = cd_m cd \<and> cd_trigger cd' = cd_trigger cd \<and> cd_zeny cd' = cd_zeny cd \<and> is_npc cd' = is_npc cd \<and> cd_npc_event cd' = cd_npc_event cd"
  by (auto simp: room_without_def Let_def is_npc_def split: if_splits room_owner.splits)

lemma without_npc: "is_npc cd \<Longrightarrow> room_without a W cd = Some (cd\<lparr>cd_usersd := remove1 a (cd_usersd cd)\<rparr>)"
  by (simp add: room_without_def)

lemma leave_ok:
  assumes ok: "lobby_ok W"
  shows "lobby_ok (snd (chat_leavechat a W))"
proof (cases "lb_players W a")
  case None
  then show ?thesis using ok by (simp add: chat_leavechat_def)
next
  case (Some p)
  show ?thesis
  proof (cases "ct_chatID p = 0")
    case True
    have "pc_setchatid a 0 W = W" using Some True by (auto simp: pc_setchatid_def on_chatter_def fun_eq_iff)
    then show ?thesis using Some True ok lobby_okD(4) [OF ok] by (simp add: chat_leavechat_def Let_def)
  next
    case False
    then obtain cd where cd: "lb_rooms W (ct_chatID p) = Some cd" "a \<in> set (cd_usersd cd)"
      using lobby_okD(2) [OF ok Some] by (auto simp: chatter_ok_def)
    let ?W = "snd (chat_leavechat a W)"
    note E = leave_effect [OF ok Some False cd(1)]
    have R: "room_ok W (ct_chatID p) cd" by (rule lobby_okD(1) [OF ok cd(1)])
    show ?thesis
    proof (rule lobby_ok_one [OF ok, of a _ "ct_chatID p"])
      fix cd' assume "lb_rooms ?W (ct_chatID p) = Some cd'"
      then have cd': "room_without a W cd = Some cd'" by (simp add: E)
      have users: "set (remove1 a (cd_usersd cd)) = set (cd_usersd cd) - {a}" "length (remove1 a (cd_usersd cd)) = cd_users cd - 1"
        using R cd(2) by (auto simp: room_ok_def length_remove1)
      have owner: "owner_ok (lb_chat_id W) (ct_chatID p) cd'"
        using cd' R cd(2) by (cases "cd_usersd cd") (auto simp: room_without_def owner_ok_def room_ok_def is_npc_def Let_def length_remove1 split: if_splits room_owner.splits)
      show "room_ok ?W (ct_chatID p) cd'"
        using R users owner without_users [OF cd'] by (auto simp: room_ok_def E)
    next
      show "chatter_ok ?W b q" if "b \<noteq> a" "lb_players W b = Some q" "ct_chatID q = ct_chatID p" for b q
      proof -
        have b: "b \<in> set (cd_usersd cd)" using lobby_okD(2) [OF ok that(2)] that(3) False cd(1) by (auto simp: chatter_ok_def)
        then have "b \<in> set (remove1 a (cd_usersd cd))" using that(1) by simp
        then have "\<exists>cd'. room_without a W cd = Some cd' \<and> b \<in> set (cd_usersd cd')" by (auto simp: room_without_def Let_def)
        then show ?thesis using that by (auto simp: chatter_ok_def E)
      qed
      show "npc_ok ?W nd" if "lb_chat_id W nd = ct_chatID p" for nd
        using lobby_okD(3) [OF ok, of nd] that cd(1) False without_npc [of cd a W] by (auto simp: npc_ok_def E is_npc_def)
      show "a \<notin> set (cd_usersd cd')" if "e \<noteq> ct_chatID p" "lb_rooms W e = Some cd'" for e cd'
        using listed_once [OF ok that(2), of a] Some that(1) by auto
    qed (auto simp: E chatter_ok_def)
  qed
qed

section \<open>Changing a room\<close>

lemma put_room_ok:
  assumes ok: "lobby_ok W" and cd: "lb_rooms W rid = Some cd" and users: "set (cd_usersd cd') = set (cd_usersd cd)" "distinct (cd_usersd cd')"
    and m: "cd_m cd' = cd_m cd" and limit: "unat (cd_limit cd') \<le> MAX_CHAT_USERS" and owner: "owner_ok (lb_chat_id W) rid cd'"
    and npc: "\<And>nd. cd_owner cd = Owner_npc nd \<Longrightarrow> cd_owner cd' = Owner_npc nd"
  shows "lobby_ok (put_room rid cd' W)"
proof -
  have R: "room_ok W rid cd" by (rule lobby_okD(1) [OF ok cd])
  have len: "cd_users cd' = cd_users cd" using users R by (simp add: room_ok_def flip: distinct_card)
  show ?thesis
  proof (unfold lobby_ok_def, intro conjI allI impI)
    fix e x assume "lb_rooms (put_room rid cd' W) e = Some x"
    then show "room_ok (put_room rid cd' W) e x"
      using R len users m limit owner lobby_okD(1) [OF ok, of e x] by (cases "e = rid") (simp_all add: room_ok_def)
  next
    fix a p assume "lb_players (put_room rid cd' W) a = Some p"
    then have "chatter_ok W a p" by (intro lobby_okD(2) [OF ok]) simp
    then show "chatter_ok (put_room rid cd' W) a p" using users(1) cd by (cases "ct_chatID p = rid") (auto simp: chatter_ok_def)
  next
    fix nd show "npc_ok (put_room rid cd' W) nd" using lobby_okD(3) [OF ok, of nd] npc cd by (auto simp: npc_ok_def)
  qed
qed

lemma own_roomD:
  assumes "own_room a W = Some (rid, cd)" "lobby_ok W"
  shows "lb_rooms W rid = Some cd" "cd_owner cd = Owner_pc a" "cd_usersd cd \<noteq> []" "hd (cd_usersd cd) = a" "room_ok W rid cd"
proof -
  show 1: "lb_rooms W rid = Some cd" "cd_owner cd = Owner_pc a" using assms(1) by (auto simp: own_room_def split: option.splits if_splits)
  show 2: "room_ok W rid cd" by (rule lobby_okD(1) [OF assms(2) 1(1)])
  show "cd_usersd cd \<noteq> []" "hd (cd_usersd cd) = a" using 1(2) 2 by (simp_all add: room_ok_def owner_ok_def)
qed

lemma limit_bound: "0 \<le> limit \<Longrightarrow> unat (word_of_int (min limit (int MAX_CHAT_USERS)) :: uint8) \<le> MAX_CHAT_USERS"
proof -
  assume "0 \<le> limit"
  then have n: "min limit (int MAX_CHAT_USERS) = int (min (nat limit) MAX_CHAT_USERS)" by (auto simp: min_def)
  have "min (nat limit) MAX_CHAT_USERS \<le> MAX_CHAT_USERS" by simp
  moreover from this have "min (nat limit) MAX_CHAT_USERS < 256" by (simp add: MAX_CHAT_USERS_def)
  ultimately show ?thesis by (simp add: n unat_of_nat take_bit_eq_mod)
qed

lemma status_ok:
  assumes "lobby_ok W" "0 \<le> limit"
  shows "lobby_ok (snd (chat_changechatstatus a title pass limit pub W))"
proof (cases "own_room a W")
  case (Some q)
  then obtain rid cd where q: "own_room a W = Some (rid, cd)" by (cases q) auto
  note D = own_roomD [OF q assms(1)]
  show ?thesis unfolding chat_changechatstatus_def q
    using D(2,3,4,5) limit_bound [OF assms(2)] by (auto intro!: put_room_ok [OF assms(1) D(1)] simp: owner_ok_def room_ok_def)
qed (use assms in \<open>simp add: chat_changechatstatus_def\<close>)

lemma owner_change_ok:
  assumes "lobby_ok W"
  shows "lobby_ok (snd (chat_changechatowner a name W))"
proof (cases "own_room a W")
  case (Some q)
  then obtain rid cd where q: "own_room a W = Some (rid, cd)" by (cases q) auto
  note D = own_roomD [OF q assms]
  let ?us = "cd_usersd cd"
  define i where "i = 1 + arr_find (\<lambda>u. strncmp_eq (name_of u W) name NAME_LENGTH) (drop 1 ?us)"
  have eq: "snd (chat_changechatowner a name W) = (if i = length ?us then W else
      put_room rid (cd\<lparr>cd_owner := Owner_pc (?us ! i), cd_usersd := ?us[i := ?us ! 0, 0 := ?us ! i], cd_pos := place_of (?us ! i) W\<rparr>) W)"
    by (simp add: chat_changechatowner_def q Let_def i_def)
  show ?thesis
  proof (cases "i = length ?us")
    case True
    then show ?thesis using assms by (simp add: eq)
  next
    case False
    have "i \<le> length ?us" using arr_find_le [of _ "drop 1 ?us"] D(3) unfolding i_def by (cases ?us) auto
    then have i: "0 < i" "i < length ?us" using False by (simp_all add: i_def)
    let ?vs = "?us[i := ?us ! 0, 0 := ?us ! i]"
    have perm: "mset ?vs = mset ?us" using i D(3) by (intro mset_swap) auto
    have vs: "set ?vs = set ?us" "distinct ?vs" using D(5) mset_eq_setD [OF perm] mset_eq_imp_distinct_iff [OF perm] by (simp_all add: room_ok_def)
    have "hd ?vs = ?us ! i" using D(3) by (simp add: hd_conv_nth)
    then show ?thesis
      using False D(2,3,5) vs unfolding eq by (auto simp: owner_ok_def room_ok_def intro!: put_room_ok [OF assms D(1)])
  qed
qed (use assms in \<open>simp add: chat_changechatowner_def\<close>)

lemma kick_ok:
  assumes "lobby_ok W"
  shows "lobby_ok (snd (chat_kickchat E a name W))"
proof (cases "own_room a W")
  case (Some q)
  then obtain rid cd where q: "own_room a W = Some (rid, cd)" by (cases q) auto
  note D = own_roomD [OF q assms]
  have "lobby_ok (put_room rid (cd\<lparr>cd_kick_list := xs\<rparr>) W)" for xs
    using D(2,3,4,5) by (auto intro!: put_room_ok [OF assms D(1)] simp: owner_ok_def room_ok_def)
  from leave_ok [OF this] show ?thesis using assms by (simp add: chat_kickchat_def q Let_def)
qed (use assms in \<open>simp add: chat_kickchat_def\<close>)

lemma npckick_ok: "lobby_ok W \<Longrightarrow> lobby_ok (snd (chat_npckickchat cd name W))"
  by (simp add: chat_npckickchat_def Let_def leave_ok)

lemma trigger_ok: "lobby_ok (chat_triggerevent cd W) = lobby_ok W"
  by (rule lobby_ok_cong) simp_all

lemma event_ok:
  assumes "lobby_ok W" "lb_rooms W rid = Some cd"
  shows "lobby_ok (chat_enableevent rid cd W)" "lobby_ok (chat_disableevent rid cd W)"
proof -
  have "lobby_ok (put_room rid (cd\<lparr>cd_trigger := t\<rparr>) W)" for t
    using lobby_okD(1) [OF assms] by (intro put_room_ok [OF assms]) (auto simp: room_ok_def owner_ok_def split: room_owner.splits)
  then show "lobby_ok (chat_enableevent rid cd W)" "lobby_ok (chat_disableevent rid cd W)"
    by (simp_all add: chat_enableevent_def chat_disableevent_def trigger_ok Let_def)
qed

section \<open>Coming in\<close>

lemma join_cases:
  assumes a: "lb_players W a = Some p" and joined: "fst (chat_joinchat E a rid pass W) = None"
  obtains cd where "lb_rooms W rid = Some cd" "cd_m cd = pl_m (ct_sd p)" "ct_chatID p = 0" "\<not> no_place cd"
    "snd (chat_joinchat E a rid pass W) = chat_triggerevent (cd\<lparr>cd_usersd := cd_usersd cd @ [a]\<rparr>)
       (pc_setchatid a rid (put_room rid (cd\<lparr>cd_usersd := cd_usersd cd @ [a]\<rparr>) W))"
proof (cases "lb_rooms W rid")
  case None
  then show ?thesis using a joined by (simp add: chat_joinchat_def)
next
  case (Some cd)
  then show ?thesis using a joined that [OF Some] by (auto simp: chat_joinchat_def Let_def split: if_splits)
qed

lemma refused_same:
  "fst (chat_joinchat E a rid pass W) \<noteq> None \<or> lb_players W a = None \<Longrightarrow> snd (chat_joinchat E a rid pass W) = W"
  by (auto simp: chat_joinchat_def Let_def split: option.splits if_splits)

lemma free_of_rooms:
  assumes "lobby_ok W" "lb_players W a = Some p" "ct_chatID p = 0" "lb_rooms W e = Some cd"
  shows "a \<notin> set (cd_usersd cd)"
  using listed_once [OF assms(1,4), of a] assms(2,3) by auto

lemma join_ok:
  assumes ok: "lobby_ok W"
  shows "lobby_ok (snd (chat_joinchat E a rid pass W))"
proof (cases "lb_players W a = None \<or> fst (chat_joinchat E a rid pass W) \<noteq> None")
  case True
  then have "snd (chat_joinchat E a rid pass W) = W" using refused_same [of E a rid pass W] by blast
  then show ?thesis using ok by simp
next
  case False
  then obtain p where a: "lb_players W a = Some p" and joined: "fst (chat_joinchat E a rid pass W) = None" by auto
  from a joined obtain cd where J: "lb_rooms W rid = Some cd" "cd_m cd = pl_m (ct_sd p)" "ct_chatID p = 0" "\<not> no_place cd"
    "snd (chat_joinchat E a rid pass W) = chat_triggerevent (cd\<lparr>cd_usersd := cd_usersd cd @ [a]\<rparr>)
       (pc_setchatid a rid (put_room rid (cd\<lparr>cd_usersd := cd_usersd cd @ [a]\<rparr>) W))" by (rule join_cases)
  let ?cd = "cd\<lparr>cd_usersd := cd_usersd cd @ [a]\<rparr>" and ?W = "pc_setchatid a rid (put_room rid (cd\<lparr>cd_usersd := cd_usersd cd @ [a]\<rparr>) W)"
  have R: "room_ok W rid cd" by (rule lobby_okD(1) [OF ok J(1)])
  have out: "a \<notin> set (cd_usersd cd')" if "lb_rooms W e = Some cd'" for e cd' by (rule free_of_rooms [OF ok a J(3) that])
  have "owner_ok (lb_chat_id W) rid ?cd" "cd_users cd < MAX_CHAT_USERS"
    using R J(4) by (auto simp: owner_ok_def room_ok_def no_place_def is_npc_def split: room_owner.splits if_splits)
  then have "room_ok ?W rid ?cd" using R out [OF J(1)] J(2) a by (auto simp: room_ok_def)
  moreover have "npc_ok ?W nd" for nd using lobby_okD(3) [OF ok, of nd] J(1) by (auto simp: npc_ok_def)
  moreover have "chatter_ok ?W b q" if "b \<noteq> a" "lb_players W b = Some q" "ct_chatID q = rid" for b q
    using lobby_okD(2) [OF ok that(2)] that(3) J(1) by (auto simp: chatter_ok_def)
  ultimately have "lobby_ok ?W"
    using a out by (intro lobby_ok_one [OF ok, of a _ rid]) (auto simp: chatter_ok_def)
  then show ?thesis unfolding J(5) trigger_ok .
qed

end
