(* ===== verification/ChatSystem.thy ===== *)
theory ChatSystem
  imports ChatRules TradeSystem
begin

text \<open>
  Chat rooms under every sequence of packets, script commands, warps and departures: the reachable states, what
  holds in them, and where the rooms do not do what their documentation says.
\<close>

section \<open>Players come, change and go\<close>

lemma on_chatter_ok:
  assumes ok: "lobby_ok W"
    and f: "\<And>p. lb_players W a = Some p \<Longrightarrow> ct_chatID (f p) = ct_chatID p \<and> (ct_chatID p \<noteq> 0 \<longrightarrow> pl_m (ct_sd (f p)) = pl_m (ct_sd p))"
  shows "lobby_ok (on_chatter a f W)"
proof (unfold lobby_ok_def, intro conjI allI impI)
  fix e cd assume "lb_rooms (on_chatter a f W) e = Some cd"
  then have R: "room_ok W e cd" using lobby_okD(1) [OF ok] by simp
  have "\<exists>p. lb_players (on_chatter a f W) u = Some p \<and> ct_chatID p = e \<and> pl_m (ct_sd p) = cd_m cd" if u: "u \<in> set (cd_usersd cd)" for u
  proof -
    obtain p where "lb_players W u = Some p" "ct_chatID p = e" "pl_m (ct_sd p) = cd_m cd" "e \<noteq> 0"
      using room_member [OF R u] R by (auto simp: room_ok_def)
    then show ?thesis using f [of p] by (cases "u = a") auto
  qed
  then show "room_ok (on_chatter a f W) e cd" using R by (auto simp: room_ok_def)
next
  fix b p assume b: "lb_players (on_chatter a f W) b = Some p"
  then obtain q where q: "lb_players W b = Some q" "ct_chatID p = ct_chatID q" using f by (cases "b = a") auto
  show "chatter_ok (on_chatter a f W) b p" using lobby_okD(2) [OF ok q(1)] q(2) by (simp add: chatter_ok_def)
next
  fix nd show "npc_ok (on_chatter a f W) nd" using lobby_okD(3) [OF ok, of nd] by (simp add: npc_ok_def)
qed

lemma leave_map_ok: "lobby_ok W \<Longrightarrow> lobby_ok (leave_map a W)"
  by (auto simp: leave_map_def leave_ok split: option.split)

lemma leave_map_out:
  assumes ok: "lobby_ok W" and p: "lb_players (leave_map a W) a = Some p"
  shows "ct_chatID p = 0"
proof (cases "lb_players W a")
  case None
  then show ?thesis using p by (simp add: leave_map_def)
next
  case (Some q)
  show ?thesis
  proof (cases "ct_chatID q = 0")
    case True
    then show ?thesis using p Some by (simp add: leave_map_def)
  next
    case False
    then obtain cd where "lb_rooms W (ct_chatID q) = Some cd" using lobby_okD(2) [OF ok Some] by (auto simp: chatter_ok_def)
    from leave_effect [OF ok Some False this] show ?thesis using p Some False by (auto simp: leave_map_def)
  qed
qed

lemma warp_to_ok: "lobby_ok W \<Longrightarrow> lobby_ok (warp_to a m W)"
  unfolding warp_to_def by (rule on_chatter_ok [OF leave_map_ok]) (auto dest: leave_map_out)

lemma quit_ok:
  assumes ok: "lobby_ok W" and out: "\<And>p. lb_players W a = Some p \<Longrightarrow> ct_chatID p = 0"
  shows "lobby_ok (W\<lparr>lb_players := (lb_players W)(a := None)\<rparr>)"
proof (unfold lobby_ok_def, intro conjI allI impI)
  fix e cd assume cd: "lb_rooms (W\<lparr>lb_players := (lb_players W)(a := None)\<rparr>) e = Some cd"
  then have R: "room_ok W e cd" using lobby_okD(1) [OF ok] by simp
  moreover have "a \<notin> set (cd_usersd cd)" using R out by (auto simp: room_ok_def)
  ultimately show "room_ok (W\<lparr>lb_players := (lb_players W)(a := None)\<rparr>) e cd" by (auto simp: room_ok_def)
next
  fix b p assume "lb_players (W\<lparr>lb_players := (lb_players W)(a := None)\<rparr>) b = Some p"
  then have "chatter_ok W b p" using lobby_okD(2) [OF ok, of b p] by (simp split: if_splits)
  then show "chatter_ok (W\<lparr>lb_players := (lb_players W)(a := None)\<rparr>) b p" by (simp add: chatter_ok_def)
next
  fix nd show "npc_ok (W\<lparr>lb_players := (lb_players W)(a := None)\<rparr>) nd" using lobby_okD(3) [OF ok, of nd] by (simp add: npc_ok_def)
qed

lemma login_ok:
  assumes ok: "lobby_ok W" and new: "lb_players W a = None" and p: "ct_chatID p = 0"
  shows "lobby_ok (W\<lparr>lb_players := (lb_players W)(a \<mapsto> p)\<rparr>)"
proof (unfold lobby_ok_def, intro conjI allI impI)
  fix e cd assume cd: "lb_rooms (W\<lparr>lb_players := (lb_players W)(a \<mapsto> p)\<rparr>) e = Some cd"
  then have R: "room_ok W e cd" using lobby_okD(1) [OF ok] by simp
  moreover have "a \<notin> set (cd_usersd cd)" using R new by (auto simp: room_ok_def)
  ultimately show "room_ok (W\<lparr>lb_players := (lb_players W)(a \<mapsto> p)\<rparr>) e cd" by (auto simp: room_ok_def)
next
  fix b q assume "lb_players (W\<lparr>lb_players := (lb_players W)(a \<mapsto> p)\<rparr>) b = Some q"
  then have "chatter_ok W b q" using lobby_okD(2) [OF ok, of b q] p by (cases "b = a") (auto simp: chatter_ok_def)
  then show "chatter_ok (W\<lparr>lb_players := (lb_players W)(a \<mapsto> p)\<rparr>) b q" by (simp add: chatter_ok_def)
next
  fix nd show "npc_ok (W\<lparr>lb_players := (lb_players W)(a \<mapsto> p)\<rparr>) nd" using lobby_okD(3) [OF ok, of nd] by (simp add: npc_ok_def)
qed

section \<open>Rooms come and go\<close>

lemma create_ok:
  assumes ok: "lobby_ok W" and fresh: "rid \<noteq> 0" "lb_rooms W rid = None" and limit: "0 \<le> limit"
  shows "lobby_ok (chat_createpcchat E a title pass limit pub rid W)"
proof (cases "chat_createpcchat E a title pass limit pub rid W = W")
  case False
  then obtain p where a: "lb_players W a = Some p" "ct_chatID p = 0"
    by (auto simp: chat_createpcchat_def Let_def split: option.splits if_splits)
  define cd where "cd = (chat_createchat (Owner_pc a) (pl_m (ct_sd p)) (ct_pos p) title pass limit pub 0 [] 0 1 MAX_LEVEL)\<lparr>cd_usersd := [a]\<rparr>"
  have W': "chat_createpcchat E a title pass limit pub rid W = pc_setchatid a rid (put_room rid cd W)" (is "_ = ?W")
    using False a by (auto simp: chat_createpcchat_def cd_def Let_def split: if_splits)
  have cd: "cd_usersd cd = [a]" "cd_m cd = pl_m (ct_sd p)" "cd_owner cd = Owner_pc a" "unat (cd_limit cd) \<le> MAX_CHAT_USERS"
    using limit_bound [OF limit] by (simp_all add: cd_def chat_createchat_def)
  have "room_ok ?W rid cd" using cd a fresh by (simp add: room_ok_def owner_ok_def MAX_CHAT_USERS_def)
  moreover have False if "lb_players W b = Some q" "ct_chatID q = rid" for b q
    using lobby_okD(2) [OF ok that(1)] that(2) fresh by (simp add: chatter_ok_def)
  moreover have "npc_ok ?W nd" for nd using lobby_okD(3) [OF ok, of nd] fresh by (auto simp: npc_ok_def)
  ultimately have "lobby_ok ?W"
    using a cd free_of_rooms [OF ok a] by (intro lobby_ok_one [OF ok, of a _ rid]) (auto simp: chatter_ok_def)
  then show ?thesis by (simp add: W')
qed (use ok in simp)

lemma createnpc_ok:
  assumes ok: "lobby_ok W" and fresh: "rid \<noteq> 0" "lb_rooms W rid = None" and limit: "0 \<le> limit"
  shows "lobby_ok (chat_createnpcchat E nd title limit pub trigger ev zeny minLvl maxLvl rid W)"
proof (cases "lb_chat_id W nd \<noteq> 0 \<or> zeny > MAX_ZENY \<or> maxLvl > MAX_LEVEL")
  case True
  then show ?thesis using ok by (auto simp: chat_createnpcchat_def)
next
  case False
  obtain m pos where place: "ce_npc_place E nd = (m, pos)" by (cases "ce_npc_place E nd")
  let ?cd = "chat_createchat (Owner_npc nd) m pos title [] limit pub trigger ev zeny minLvl maxLvl"
  define W' where "W' = (put_room rid ?cd W)\<lparr>lb_chat_id := (lb_chat_id W)(nd := rid)\<rparr>"
  have W': "chat_createnpcchat E nd title limit pub trigger ev zeny minLvl maxLvl rid W = W'"
    using False place by (simp add: chat_createnpcchat_def W'_def)
  have none: "lb_chat_id W nd = 0" using False by simp
  have sim: "lb_rooms W' = (lb_rooms W)(rid := Some ?cd)" "lb_players W' = lb_players W" "lb_chat_id W' = (lb_chat_id W)(nd := rid)"
    by (simp_all add: W'_def)
  have new: "room_ok W' rid ?cd"
    using fresh limit_bound [OF limit] by (simp add: room_ok_def owner_ok_def chat_createchat_def sim MAX_CHAT_USERS_def)
  have old: "room_ok W' e cd" if "lb_rooms W e = Some cd" for e cd
  proof -
    have R: "room_ok W e cd" by (rule lobby_okD(1) [OF ok that])
    then have "owner_ok (lb_chat_id W') e cd" using none by (auto simp: room_ok_def owner_ok_def sim split: room_owner.splits)
    then show ?thesis using R by (simp add: room_ok_def sim)
  qed
  have "lobby_ok W'"
  proof (unfold lobby_ok_def, intro conjI allI impI)
    show "room_ok W' e cd" if "lb_rooms W' e = Some cd" for e cd using that new old by (cases "e = rid") (auto simp: sim)
    show "chatter_ok W' b q" if "lb_players W' b = Some q" for b q
      using that lobby_okD(2) [OF ok, of b q] fresh by (auto simp: sim chatter_ok_def)
    show "npc_ok W' nd'" for nd'
      using lobby_okD(3) [OF ok, of nd'] fresh by (cases "nd' = nd") (auto simp: npc_ok_def sim chat_createchat_def)
  qed
  then show ?thesis unfolding W' .
qed

text \<open>Throwing everybody out of a waiting room: the players are in no room afterwards, and nothing else changes.\<close>

definition freed :: "uint32 list \<Rightarrow> lobby \<Rightarrow> lobby" where
  "freed us W = W\<lparr>lb_players := (\<lambda>u. if u \<in> set us then map_option (\<lambda>p. p\<lparr>ct_chatID := 0\<rparr>) (lb_players W u) else lb_players W u)\<rparr>"

lemma kickall_spec:
  "lobby_ok W \<Longrightarrow> lb_rooms W rid = Some cd \<Longrightarrow> is_npc cd \<Longrightarrow>
   chat_npckickall rid W = Some (put_room rid (cd\<lparr>cd_usersd := []\<rparr>) (freed (cd_usersd cd) W)) \<and>
   lobby_ok (put_room rid (cd\<lparr>cd_usersd := []\<rparr>) (freed (cd_usersd cd) W))"
proof (induction "cd_usersd cd" arbitrary: W cd rule: rev_induct)
  case Nil
  have "put_room rid (cd\<lparr>cd_usersd := []\<rparr>) (freed [] W) = W"
    using Nil by (cases W; cases cd) (auto simp: put_room_def freed_def)
  then show ?case using Nil by (subst chat_npckickall.simps) simp
next
  case (snoc x xs)
  have users: "cd_usersd cd = xs @ [x]" using snoc.hyps(2) by simp
  have R: "room_ok W rid cd" by (rule lobby_okD(1) [OF snoc.prems(1,2)])
  then have x: "x \<notin> set xs" using users by (simp add: room_ok_def)
  obtain p where p: "lb_players W x = Some p" "ct_chatID p = rid" "rid \<noteq> 0" using R users by (auto simp: room_ok_def)
  let ?W1 = "snd (chat_leavechat x W)" and ?cd1 = "cd\<lparr>cd_usersd := xs\<rparr>"
  have "ct_chatID p \<noteq> 0" "lb_rooms W (ct_chatID p) = Some cd" using p snoc.prems(2) by simp_all
  note leave = leave_effect [OF snoc.prems(1) p(1) this]
  have W1: "?W1 = W\<lparr>lb_players := (lb_players W)(x \<mapsto> p\<lparr>ct_chatID := 0\<rparr>), lb_rooms := (lb_rooms W)(rid := Some ?cd1)\<rparr>"
    unfolding leave p(2) without_npc [OF snoc.prems(3)] using users x by (simp add: remove1_append)
  have ok1: "lobby_ok ?W1" by (rule leave_ok [OF snoc.prems(1)])
  have IH: "chat_npckickall rid ?W1 = Some (put_room rid (?cd1\<lparr>cd_usersd := []\<rparr>) (freed xs ?W1)) \<and>
      lobby_ok (put_room rid (?cd1\<lparr>cd_usersd := []\<rparr>) (freed xs ?W1))"
    using snoc.hyps(1) [of ?cd1 ?W1] ok1 snoc.prems(3) by (simp add: W1 is_npc_def)
  have same: "put_room rid (?cd1\<lparr>cd_usersd := []\<rparr>) (freed xs ?W1) = put_room rid (cd\<lparr>cd_usersd := []\<rparr>) (freed (cd_usersd cd) W)"
    unfolding W1 users using p x by (auto simp: put_room_def freed_def fun_eq_iff)
  show ?case
    using IH unfolding same by (subst chat_npckickall.simps) (simp add: snoc.prems(2) users)
qed

lemma delete_spec:
  assumes ok: "lobby_ok W"
  shows "\<exists>W'. chat_deletenpcchat nd W = Some W' \<and> lobby_ok W'"
proof (cases "lb_rooms W (lb_chat_id W nd)")
  case None
  then show ?thesis using ok by (simp add: chat_deletenpcchat_def)
next
  case (Some cd)
  let ?rid = "lb_chat_id W nd"
  have "?rid \<noteq> 0" using Some lobby_okD(4) [OF ok] by auto
  then have owner: "cd_owner cd = Owner_npc nd" using lobby_okD(3) [OF ok, of nd] Some by (simp add: npc_ok_def)
  let ?W1 = "put_room ?rid (cd\<lparr>cd_usersd := []\<rparr>) (freed (cd_usersd cd) W)"
  have K: "chat_npckickall ?rid W = Some ?W1" "lobby_ok ?W1"
    using kickall_spec [OF ok Some] owner by (simp_all add: is_npc_def)
  define W' where "W' = ?W1\<lparr>lb_rooms := (lb_rooms ?W1)(?rid := None), lb_chat_id := (lb_chat_id ?W1)(nd := 0)\<rparr>"
  have sim: "lb_rooms W' = (lb_rooms ?W1)(?rid := None)" "lb_players W' = lb_players ?W1" "lb_chat_id W' = (lb_chat_id ?W1)(nd := 0)"
    "lb_rooms ?W1 ?rid = Some (cd\<lparr>cd_usersd := []\<rparr>)" "lb_chat_id ?W1 nd = ?rid"
    by (simp_all add: W'_def freed_def)
  have "lobby_ok W'"
  proof (unfold lobby_ok_def, intro conjI allI impI)
    fix e x assume e: "lb_rooms W' e = Some x"
    then have R: "room_ok ?W1 e x" "e \<noteq> ?rid" using lobby_okD(1) [OF K(2)] unfolding sim by (auto split: if_splits)
    then have "owner_ok (lb_chat_id W') e x"
      using sim(5) by (auto simp: room_ok_def owner_ok_def sim(3) split: room_owner.splits)
    then show "room_ok W' e x" using R(1) by (simp add: room_ok_def sim(2))
  next
    fix b q assume "lb_players W' b = Some q"
    then have "chatter_ok ?W1 b q" using lobby_okD(2) [OF K(2)] unfolding sim by blast
    then show "chatter_ok W' b q" using sim(4) by (auto simp: chatter_ok_def sim(1))
  next
    fix nd'
    show "npc_ok W' nd'"
      using lobby_okD(3) [OF K(2), of nd'] sim(4,5) owner by (cases "nd' = nd") (auto simp: npc_ok_def sim(1,3))
  qed
  moreover have "chat_deletenpcchat nd W = Some W'" using Some K(1) by (simp add: chat_deletenpcchat_def W'_def)
  ultimately show ?thesis by blast
qed

text \<open>One turn of the loop of \<open>warpwaitingpc\<close>: the fee, and the warp if it works.\<close>

definition warp_one :: "chat_env \<Rightarrow> uint32 \<Rightarrow> uint32 \<Rightarrow> lobby \<Rightarrow> lobby" where
  "warp_one E a fee W =
     (let W1 = (if fee \<noteq> 0 then on_chatter a (\<lambda>p. p\<lparr>ct_sd := snd (pc_payzeny (sint fee) (ct_sd p))\<rparr>) W else W)
      in case ce_warps E a of None \<Rightarrow> W1 | Some m \<Rightarrow> warp_to a m W1)"

lemma warp_loop_turn:
  assumes "lb_rooms W rid = Some cd" "cd_usersd cd = a # us" "lb_players W a = Some p"
    and "\<not> (savepoint \<and> ce_noteleport E a)" "\<not> (cd_zeny cd \<noteq> 0 \<and> word_of_int (pl_zeny (ct_sd p)) < cd_zeny cd)"
  shows "warp_loop E savepoint rid (Suc n) W =
    (a # fst (warp_loop E savepoint rid n (warp_one E a (cd_zeny cd) W)), snd (warp_loop E savepoint rid n (warp_one E a (cd_zeny cd) W)))"
  using assms by (simp only: warp_loop.simps option.case list.case if_False warp_one_def Let_def prod.case_eq_if)

lemma warp_loop_stops:
  assumes "\<not> (\<exists>cd a us p. lb_rooms W rid = Some cd \<and> cd_usersd cd = a # us \<and> lb_players W a = Some p \<and>
    \<not> (savepoint \<and> ce_noteleport E a) \<and> \<not> (cd_zeny cd \<noteq> 0 \<and> word_of_int (pl_zeny (ct_sd p)) < cd_zeny cd))"
  shows "warp_loop E savepoint rid (Suc n) W = ([], W)"
  using assms by (auto split: option.split list.split)

lemma warp_loop_ok: "lobby_ok W \<Longrightarrow> lobby_ok (snd (warp_loop E savepoint rid n W))"
proof (induction n arbitrary: W)
  case (Suc n)
  have "lobby_ok (on_chatter a (\<lambda>p. p\<lparr>ct_sd := snd (pc_payzeny z (ct_sd p))\<rparr>) W)" for a z
    by (rule on_chatter_ok [OF Suc.prems]) (simp add: pc_payzeny_def Let_def)
  then have one: "lobby_ok (warp_one E a fee W)" for a fee
    using warp_to_ok Suc.prems by (simp add: warp_one_def Let_def split: option.split)
  show ?case
  proof (cases "\<exists>cd a us p. lb_rooms W rid = Some cd \<and> cd_usersd cd = a # us \<and> lb_players W a = Some p \<and>
      \<not> (savepoint \<and> ce_noteleport E a) \<and> \<not> (cd_zeny cd \<noteq> 0 \<and> word_of_int (pl_zeny (ct_sd p)) < cd_zeny cd)")
    case True
    then obtain cd a us p where "lb_rooms W rid = Some cd" "cd_usersd cd = a # us" "lb_players W a = Some p"
      "\<not> (savepoint \<and> ce_noteleport E a)" "\<not> (cd_zeny cd \<noteq> 0 \<and> word_of_int (pl_zeny (ct_sd p)) < cd_zeny cd)" by blast
    note turn = warp_loop_turn [where E = E, OF this]
    show ?thesis unfolding turn snd_conv by (rule Suc.IH [OF one])
  next
    case False
    then show ?thesis using warp_loop_stops Suc.prems by simp
  qed
qed simp

section \<open>Reachable states\<close>

text \<open>A new room gets a number that no object has, and scripts ask for no negative number of places.\<close>

definition event_legal :: "lobby \<Rightarrow> chat_event \<Rightarrow> bool" where
  "event_legal W ev \<longleftrightarrow> (case ev of
     Ch_create a limit type password title rid \<Rightarrow> rid \<noteq> 0 \<and> lb_rooms W rid = None
   | Np_waitingroom nd title limit ev trigger zeny minLvl maxLvl rid \<Rightarrow> rid \<noteq> 0 \<and> lb_rooms W rid = None \<and> 0 \<le> limit
   | _ \<Rightarrow> True)"

definition empty_lobby :: lobby where
  "empty_lobby = \<lparr>lb_players = Map.empty, lb_rooms = Map.empty, lb_chat_id = (\<lambda>_. 0), lb_events = []\<rparr>"

inductive chat_reach :: "chat_env \<Rightarrow> lobby \<Rightarrow> bool" for E where
  chat_start: "chat_reach E empty_lobby"
| chat_event: "chat_reach E W \<Longrightarrow> event_legal W ev \<Longrightarrow> chat_step E ev W = Some W' \<Longrightarrow> chat_reach E W'"

inductive_cases chat_reachE: "chat_reach E W"

lemma waiting_room_npc:
  assumes "lobby_ok W" "lb_rooms W (lb_chat_id W nd) = Some cd"
  shows "cd_owner cd = Owner_npc nd" "is_npc cd" "lb_chat_id W nd \<noteq> 0"
proof -
  show "lb_chat_id W nd \<noteq> 0" using assms lobby_okD(4) [OF assms(1)] by auto
  then show "cd_owner cd = Owner_npc nd" using lobby_okD(3) [OF assms(1), of nd] assms(2) by (simp add: npc_ok_def)
  then show "is_npc cd" by (simp add: is_npc_def)
qed

lemma step_returns_ok:
  assumes ok: "lobby_ok W" and legal: "event_legal W ev"
  shows "\<exists>W'. chat_step E ev W = Some W' \<and> lobby_ok W'"
proof (cases ev)
  case (Ch_login a p)
  then show ?thesis using ok login_ok [OF ok, of a "p\<lparr>ct_chatID := 0\<rparr>"] by (simp add: chat_step_def split: option.split)
next
  case (Ch_play a sd)
  then show ?thesis using on_chatter_ok [OF ok] by (simp add: chat_step_def)
next
  case (Ch_warp a m)
  then show ?thesis using warp_to_ok [OF ok] by (simp add: chat_step_def)
next
  case (Ch_quit a)
  then show ?thesis using quit_ok [OF leave_map_ok [OF ok]] leave_map_out [OF ok] by (simp add: chat_step_def Let_def)
next
  case (Ch_create a limit type password title rid)
  then show ?thesis using create_ok [OF ok] legal ok by (simp add: chat_step_def clif_parse_CreateChatRoom_def event_legal_def)
next
  case (Ch_status a limit type password title)
  then show ?thesis using status_ok [OF ok] ok by (simp add: chat_step_def clif_parse_ChatRoomStatusChange_def)
next
  case (Np_waitingroom nd title limit ev' trigger zeny minLvl maxLvl rid)
  then show ?thesis using createnpc_ok [OF ok] legal by (simp add: chat_step_def buildin_waitingroom_def event_legal_def)
next
  case (Np_delwaitingroom nd)
  then show ?thesis using delete_spec [OF ok] by (simp add: chat_step_def)
next
  case (Np_kickall nd)
  show ?thesis
  proof (cases "lb_rooms W (lb_chat_id W nd)")
    case (Some cd)
    from kickall_spec [OF ok Some waiting_room_npc(2) [OF ok Some]] show ?thesis using Np_kickall Some by (simp add: chat_step_def buildin_waitingroomkickall_def)
  qed (use Np_kickall ok in \<open>simp add: chat_step_def buildin_waitingroomkickall_def\<close>)
next
  case (Np_warp nd savepoint number)
  then show ?thesis using warp_loop_ok [OF ok] ok by (simp add: chat_step_def buildin_warpwaitingpc_def split: option.split)
qed (use ok in \<open>auto simp: chat_step_def clif_parse_ChatAddMember_def join_ok owner_change_ok kick_ok leave_ok npckick_ok event_ok
    on_waiting_room_def buildin_waitingroomkick_def buildin_enablewaitingroomevent_def buildin_disablewaitingroomevent_def split: option.split\<close>)

lemma chat_reach_ok: "chat_reach E W \<Longrightarrow> lobby_ok W"
proof (induction rule: chat_reach.induct)
  case chat_start
  show ?case by (simp add: lobby_ok_def empty_lobby_def npc_ok_def)
next
  case (chat_event W ev W')
  then show ?case using step_returns_ok [of W ev E] by auto
qed

lemma event_returns: "chat_reach E W \<Longrightarrow> event_legal W ev \<Longrightarrow> \<exists>W'. chat_step E ev W = Some W' \<and> chat_reach E W'"
  using step_returns_ok [OF chat_reach_ok] chat_event by blast

section \<open>A small lobby\<close>

text \<open>Two players on map 1 and the NPC 7 with a waiting room of three places and a fee of 100 zeny.\<close>

definition sample_chat_env :: chat_env where
  "sample_chat_env = \<lparr>ce_nochat_map = (\<lambda>_. False), ce_nochat_cell = (\<lambda>_. False), ce_no_room = (\<lambda>_. False),
     ce_join_all_chat = (\<lambda>_. False), ce_no_chat_kick = (\<lambda>_. False), ce_npc_place = (\<lambda>_. (1, (10, 10))),
     ce_noteleport = (\<lambda>_. False), ce_warps = (\<lambda>_. None)\<rparr>"

definition sample_chatter :: chatter where
  "sample_chatter = \<lparr>ct_sd = (sample_player 1)\<lparr>pl_m := 1\<rparr>,
     ct_chatID = 0, ct_name = ''ann'', ct_pos = (3, 4)\<rparr>"

lemma sample_player_fields: "pl_zeny (sample_player 1) = 5000" "pl_base_level (sample_player 1) = 1" "pl_vending (sample_player 1) = False"
  "pl_buyingstore (sample_player 1) = False"
  by (simp_all add: sample_player_def)

fun chat_steps :: "chat_env \<Rightarrow> chat_event list \<Rightarrow> lobby \<Rightarrow> lobby option" where
  "chat_steps E [] W = Some W"
| "chat_steps E (ev # evs) W = (if event_legal W ev then Option.bind (chat_step E ev W) (chat_steps E evs) else None)"

lemma chat_steps_reach: "chat_reach E W \<Longrightarrow> chat_steps E evs W = Some W' \<Longrightarrow> chat_reach E W'"
  by (induction evs arbitrary: W) (auto simp: bind_eq_Some_conv split: if_splits intro: chat_event)

definition sample_room :: chat_data where
  "sample_room = (chat_createchat (Owner_npc 7) 1 (10, 10) ''wait'' [] 3 True 3 ''go'' 100 1 MAX_LEVEL)\<lparr>cd_usersd := [1]\<rparr>"

definition sample_lobby :: lobby where
  "sample_lobby = \<lparr>lb_players = [2 \<mapsto> sample_chatter, 1 \<mapsto> sample_chatter\<lparr>ct_chatID := 500\<rparr>], lb_rooms = [500 \<mapsto> sample_room],
     lb_chat_id = (\<lambda>_. 0)(7 := 500), lb_events = []\<rparr>"

lemma sample_lobby_reached: "chat_reach sample_chat_env sample_lobby"
proof (rule chat_steps_reach [OF chat_start])
  show "chat_steps sample_chat_env [Ch_login 2 sample_chatter, Ch_login 1 sample_chatter,
      Np_waitingroom 7 ''wait'' 3 (Some ''go'') None (Some 100) None None 500, Ch_join 1 500 []] empty_lobby = Some sample_lobby"
    by (simp add: sample_player_fields event_legal_def chat_step_def empty_lobby_def sample_chatter_def sample_chat_env_def buildin_waitingroom_def
      chat_createnpcchat_def MAX_ZENY_def MAX_LEVEL_def put_room_def clif_parse_ChatAddMember_def chat_joinchat_def chat_createchat_def
      no_place_def is_npc_def MAX_CHAT_USERS_def pc_setchatid_def on_chatter_def chat_triggerevent_def Let_def sample_lobby_def sample_room_def)
qed

lemma sample_room_there: "lb_rooms sample_lobby (lb_chat_id sample_lobby 7) = Some sample_room" "cd_usersd sample_room = [1]"
  "cd_limit sample_room = 3" "cd_trigger sample_room = 3" "cd_zeny sample_room = 100" "is_npc sample_room"
  by (simp_all add: sample_lobby_def sample_room_def chat_createchat_def is_npc_def MAX_CHAT_USERS_def)

section \<open>What holds in every reachable state\<close>

text \<open>C9: whatever players, scripts and warps do, a room lists nobody twice and at most 20 players, all of whom are in it and
  on its map; who is in a room is listed there; a player's room belongs to the first on the list; and a waiting room
  with users keeps a place for its NPC.\<close>

theorem rooms_consistent:
  assumes "chat_reach E W"
  shows "(\<forall>rid cd. lb_rooms W rid = Some cd \<longrightarrow> distinct (cd_usersd cd) \<and> cd_users cd \<le> MAX_CHAT_USERS \<and>
       (\<forall>u \<in> set (cd_usersd cd). \<exists>p. lb_players W u = Some p \<and> ct_chatID p = rid \<and> pl_m (ct_sd p) = cd_m cd) \<and>
       (case cd_owner cd of Owner_pc a \<Rightarrow> cd_usersd cd \<noteq> [] \<and> hd (cd_usersd cd) = a
         | Owner_npc nd \<Rightarrow> lb_chat_id W nd = rid \<and> (cd_usersd cd \<noteq> [] \<longrightarrow> cd_users cd < unat (cd_limit cd)))) \<and>
     (\<forall>a p. lb_players W a = Some p \<and> ct_chatID p \<noteq> 0 \<longrightarrow> (\<exists>cd. lb_rooms W (ct_chatID p) = Some cd \<and> a \<in> set (cd_usersd cd)))"
proof -
  note D = lobby_okD [OF chat_reach_ok [OF assms]]
  have "distinct (cd_usersd cd) \<and> cd_users cd \<le> MAX_CHAT_USERS \<and>
       (\<forall>u \<in> set (cd_usersd cd). \<exists>p. lb_players W u = Some p \<and> ct_chatID p = rid \<and> pl_m (ct_sd p) = cd_m cd) \<and>
       (case cd_owner cd of Owner_pc a \<Rightarrow> cd_usersd cd \<noteq> [] \<and> hd (cd_usersd cd) = a
         | Owner_npc nd \<Rightarrow> lb_chat_id W nd = rid \<and> (cd_usersd cd \<noteq> [] \<longrightarrow> cd_users cd < unat (cd_limit cd)))"
    if "lb_rooms W rid = Some cd" for rid cd
    using D(1) [OF that] by (auto simp: room_ok_def owner_ok_def split: room_owner.splits)
  then show ?thesis using D(2) by (simp add: chatter_ok_def)
qed

lemma rooms_consistent_witness:
  "distinct (cd_usersd sample_room) \<and> (\<exists>p. lb_players sample_lobby 1 = Some p \<and> ct_chatID p = 500 \<and> pl_m (ct_sd p) = cd_m sample_room)"
proof -
  have "lb_rooms sample_lobby 500 = Some sample_room" "1 \<in> set (cd_usersd sample_room)"
    by (simp_all add: sample_lobby_def sample_room_there)
  with rooms_consistent [OF sample_lobby_reached] show ?thesis by blast
qed

text \<open>C38: throwing everybody out of a waiting room always ends, with the room empty, its users in no room and nothing
  else changed.\<close>

theorem waiting_room_emptied:
  assumes "chat_reach E W" "lb_rooms W (lb_chat_id W nd) = Some cd"
  shows "buildin_waitingroomkickall nd W = Some (W\<lparr>lb_rooms := (lb_rooms W)(lb_chat_id W nd \<mapsto> cd\<lparr>cd_usersd := []\<rparr>),
    lb_players := (\<lambda>u. if u \<in> set (cd_usersd cd) then map_option (\<lambda>p. p\<lparr>ct_chatID := 0\<rparr>) (lb_players W u) else lb_players W u)\<rparr>)"
proof -
  note ok = chat_reach_ok [OF assms(1)]
  show ?thesis
    using kickall_spec [OF ok assms(2) waiting_room_npc(2) [OF ok assms(2)]]
    by (simp add: buildin_waitingroomkickall_def assms(2) put_room_def freed_def)
qed

lemma waiting_room_emptied_witness:
  "map_option (\<lambda>W. map_option cd_usersd (lb_rooms W 500)) (buildin_waitingroomkickall 7 sample_lobby) = Some (Some [])"
  unfolding waiting_room_emptied [OF sample_lobby_reached sample_room_there(1)] by (simp add: sample_lobby_def)

section \<open>Waiting rooms are never full\<close>

text \<open>C39: in a waiting room for at least one user the NPC takes a place, so that \<open>getwaitingroomstate(32)\<close>, which does not
  count it, never says the room is full, although a player who comes when one place is left is told so; and
  with the default trigger, the limit, nobody who enters ever triggers the event.\<close>

theorem waiting_room_never_full:
  assumes "chat_reach E W" "lb_rooms W (lb_chat_id W nd) = Some cd" "0 < cd_limit cd"
  shows "buildin_getwaitingroomstate 32 nd W = Push_int 0 \<and>
    (cd_users cd + 1 = unat (cd_limit cd) \<and> lb_players W a \<noteq> None \<longrightarrow> fst (chat_joinchat E a (lb_chat_id W nd) pass W) = Some ENTERROOM_FULL) \<and>
    (unat (cd_limit cd) \<le> unat (cd_trigger cd) \<longrightarrow> lb_events (snd (chat_joinchat E a (lb_chat_id W nd) pass W)) = lb_events W)"
proof (intro conjI impI)
  note ok = chat_reach_ok [OF assms(1)]
  note npc = waiting_room_npc [OF ok assms(2)]
  have "cd_users cd < unat (cd_limit cd)"
    using lobby_okD(1) [OF ok assms(2)] npc(1) assms(3) unat_gt_0 [of "cd_limit cd"]
    by (cases "cd_usersd cd") (auto simp: room_ok_def owner_ok_def)
  then show "buildin_getwaitingroomstate 32 nd W = Push_int 0" by (simp add: buildin_getwaitingroomstate_def assms(2))
next
  note npc = waiting_room_npc [OF chat_reach_ok [OF assms(1)] assms(2)]
  assume "cd_users cd + 1 = unat (cd_limit cd) \<and> lb_players W a \<noteq> None"
  then show "fst (chat_joinchat E a (lb_chat_id W nd) pass W) = Some ENTERROOM_FULL"
    using npc(2) by (auto simp: chat_joinchat_def assms(2) no_place_def)
next
  note npc = waiting_room_npc [OF chat_reach_ok [OF assms(1)] assms(2)]
  assume t: "unat (cd_limit cd) \<le> unat (cd_trigger cd)"
  show "lb_events (snd (chat_joinchat E a (lb_chat_id W nd) pass W)) = lb_events W"
  proof (cases "fst (chat_joinchat E a (lb_chat_id W nd) pass W) \<noteq> None \<or> lb_players W a = None")
    case False
    then obtain p where "lb_players W a = Some p" "fst (chat_joinchat E a (lb_chat_id W nd) pass W) = None" by auto
    from join_cases [OF this] show ?thesis
      using npc(2) t assms(2) by (force simp: no_place_def chat_triggerevent_def)
  qed (simp only: refused_same)
qed

lemma waiting_room_never_full_witness: "buildin_getwaitingroomstate 32 7 sample_lobby = Push_int 0"
  using waiting_room_never_full [OF sample_lobby_reached sample_room_there(1)] by (simp add: sample_room_there)

section \<open>Paying again and again\<close>

lemma refused_turns:
  "lb_rooms W rid = Some cd \<Longrightarrow> cd_usersd cd = a # us \<Longrightarrow> lb_players W a = Some p \<Longrightarrow> ce_warps E a = None \<Longrightarrow>
   0 < cd_zeny cd \<Longrightarrow> uint (cd_zeny cd) \<le> MAX_ZENY \<Longrightarrow> int n * uint (cd_zeny cd) \<le> pl_zeny (ct_sd p) \<Longrightarrow> pl_zeny (ct_sd p) \<le> MAX_ZENY \<Longrightarrow>
   warp_loop E False rid n W = (replicate n a,
     on_chatter a (\<lambda>p. p\<lparr>ct_sd := (ct_sd p)\<lparr>pl_zeny := pl_zeny (ct_sd p) - int n * uint (cd_zeny cd)\<rparr>\<rparr>) W)"
proof (induction n arbitrary: W p)
  case 0
  then show ?case by (cases W) (auto simp: on_chatter_def fun_eq_iff)
next
  case (Suc n)
  let ?z = "uint (cd_zeny cd)"
  let ?p = "p\<lparr>ct_sd := (ct_sd p)\<lparr>pl_zeny := pl_zeny (ct_sd p) - ?z\<rparr>\<rparr>"
  have z: "0 < ?z" "sint (cd_zeny cd) = ?z" "int (Suc n) * ?z = ?z + int n * ?z"
    using Suc.prems(5,6) by (auto simp: word_less_def MAX_ZENY_def sint_uint signed_take_bit_int_eq_self algebra_simps)
  have "0 \<le> int n * ?z" by simp
  then have money: "?z \<le> pl_zeny (ct_sd p)" using Suc.prems(7) z(3) by linarith
  then have "uint (word_of_int (pl_zeny (ct_sd p)) :: uint32) = pl_zeny (ct_sd p)"
    using Suc.prems(8) z(1) by (simp add: uint_word_of_int_eq take_bit_int_eq_self MAX_ZENY_def)
  then have pays: "\<not> (word_of_int (pl_zeny (ct_sd p)) < cd_zeny cd)" using money by (simp add: word_less_def)
  have pay: "pc_payzeny (sint (cd_zeny cd)) (ct_sd p) = (0, (ct_sd p)\<lparr>pl_zeny := pl_zeny (ct_sd p) - ?z\<rparr>)"
    using money Suc.prems(6,8) z by (simp add: pc_payzeny_def cap_value_def MAX_ZENY_def Let_def)
  define W1 where "W1 = warp_one E a (cd_zeny cd) W"
  have W1: "W1 = W\<lparr>lb_players := (lb_players W)(a \<mapsto> ?p)\<rparr>"
    using Suc.prems(3,4,5) pay by (auto simp: W1_def warp_one_def Let_def on_chatter_def)
  have "warp_loop E False rid n W1 = (replicate n a,
      on_chatter a (\<lambda>p. p\<lparr>ct_sd := (ct_sd p)\<lparr>pl_zeny := pl_zeny (ct_sd p) - int n * ?z\<rparr>\<rparr>) W1)"
    using Suc.prems z by (intro Suc.IH [of _ ?p]) (auto simp: W1)
  moreover have "warp_loop E False rid (Suc n) W = (a # fst (warp_loop E False rid n W1), snd (warp_loop E False rid n W1))"
    unfolding W1_def by (rule warp_loop_turn [OF Suc.prems(1,2,3)]) (use pays in auto)
  ultimately show ?case using Suc.prems(3) z by (auto simp: W1 on_chatter_def fun_eq_iff)
qed

text \<open>C40: when the first user of a waiting room cannot be warped, \<open>warpwaitingpc\<close> takes the room's fee from that user once for
  every player it was to warp, and reports the same user as warped each time.\<close>

theorem refused_warp_pays_again:
  assumes "lb_rooms W (lb_chat_id W nd) = Some cd" "cd_usersd cd = a # us" "lb_players W a = Some p" "ce_warps E a = None"
    and "0 < cd_zeny cd" "uint (cd_zeny cd) \<le> MAX_ZENY" "int n * uint (cd_zeny cd) \<le> pl_zeny (ct_sd p)" "pl_zeny (ct_sd p) \<le> MAX_ZENY"
  shows "buildin_warpwaitingpc E False (Some (int n)) nd W = (replicate n a,
    on_chatter a (\<lambda>p. p\<lparr>ct_sd := (ct_sd p)\<lparr>pl_zeny := pl_zeny (ct_sd p) - int n * uint (cd_zeny cd)\<rparr>\<rparr>) W)"
  using refused_turns [OF assms] by (simp add: buildin_warpwaitingpc_def assms(1))

lemma refused_warp_pays_again_witness:
  "fst (buildin_warpwaitingpc sample_chat_env False (Some 4) 7 sample_lobby) = [1, 1, 1, 1]"
proof -
  have first: "lb_players sample_lobby 1 = Some (sample_chatter\<lparr>ct_chatID := 500\<rparr>)" by (simp add: sample_lobby_def)
  have "fst (buildin_warpwaitingpc sample_chat_env False (Some (int 4)) 7 sample_lobby) = replicate 4 1"
    by (subst refused_warp_pays_again [OF sample_room_there(1,2) first])
      (simp_all add: sample_room_there sample_chat_env_def sample_chatter_def sample_player_fields MAX_ZENY_def)
  then show ?thesis by (simp add: eval_nat_numeral)
qed

section \<open>Passwords of eight characters\<close>

lemma c_str_append: "NUL \<notin> set s \<Longrightarrow> c_str (s @ t) = s @ c_str t"
  unfolding c_str_def by (rule takeWhile_append2) auto

lemma copy_pad_whole: "NUL \<notin> set s \<Longrightarrow> copy_pad (length s) s = s"
  by (induction s) auto

text \<open>The packet has eight bytes for the password, and nine are compared: a player who sends the right password of
  eight characters gets in only if the byte after the packet is zero.\<close>

lemma password_overread:
  assumes "lb_players W a = Some p" "lb_rooms W (sint chat_id) = Some cd" "\<not> cd_pub cd" "\<not> ce_join_all_chat E a"
    and "length pw = 8" "NUL \<notin> set pw" "cd_pass cd = safestrncpy pw CHATROOM_PASS_SIZE"
    and "fst (clif_parse_ChatAddMember E a chat_id (pw @ NUL # rest) W) = None" "c \<noteq> NUL"
  shows "fst (clif_parse_ChatAddMember E a chat_id (pw @ c # rest) W) = Some ENTERROOM_WRONG_PASSWORD"
proof -
  have stored: "c_str (take CHATROOM_PASS_SIZE (cd_pass cd)) = pw"
    using copy_pad_whole [OF assms(6)] assms(5) c_str_append [OF assms(6), of "[NUL]"]
    by (simp add: assms(7) safestrncpy_def CHATROOM_PASS_SIZE_def c_str_def)
  have "c_str (take CHATROOM_PASS_SIZE (pw @ d # rest)) = (if d = NUL then pw else pw @ [d])" for d
    using assms(5) c_str_append [OF assms(6), of "[d]"] by (simp add: CHATROOM_PASS_SIZE_def c_str_def)
  then have "strncmp_eq (pw @ d # rest) (cd_pass cd) CHATROOM_PASS_SIZE \<longleftrightarrow> d = NUL" for d
    by (simp add: strncmp_eq_def stored)
  then show ?thesis
    using assms(1-4,8,9) by (auto simp: clif_parse_ChatAddMember_def chat_joinchat_def Let_def split: if_splits)
qed

end
