(* ===== verification/Bag.thy ===== *)
theory Bag
  imports TradeFairness
begin

text \<open>
  What callers of \<open>pc_additem\<close> and \<open>pc_delitem\<close> may rely on, with the example player as witness.
\<close>

definition amounts :: "player \<Rightarrow> int list" where
  "amounts sd = map it_amount (pl_inventory sd)"

lemma sample_bag_ok: "inventory_ok (sample_player k)"
  by (simp add: sample_player_def inventory_ok_def item_ok_def zero_item_def MAX_AMOUNT_def)

definition sample_stack :: item where
  "sample_stack = zero_item\<lparr>it_nameid := 501, it_amount := 7\<rparr>"

lemma sample_stack_fresh: "fresh_item sample_env sample_stack"
  by (simp add: fresh_item_def sample_stack_def zero_item_def)

lemma sample_blank: "arr_find P (replicate MAX_INVENTORY zero_item) = (if P zero_item then 0 else MAX_INVENTORY)"
  using arr_find_none [of "replicate MAX_INVENTORY zero_item" P] by (auto simp: MAX_INVENTORY_def numeral_eq_Suc)

lemma inventory_pos: "0 < MAX_INVENTORY"
  by (simp add: MAX_INVENTORY_def)

text \<open>For a well-formed inventory \<open>pc_additem\<close> either succeeds, and then the player has exactly the
  amount more of that item, of every other item as much as before, and no slot holds less; or it fails, and
  then no amount anywhere changes. Either way the inventory stays well formed, purse, vault and trade are not
  touched, and the item the caller passed gets at most a new unique id.\<close>

theorem additem_exact:
  assumes "inventory_ok sd" "equip_neutral E" "fresh_item E item"
  shows "case pc_additem E item amount favorite sd of (r, sd', item') \<Rightarrow>
    inventory_ok sd' \<and> kept sd sd' \<and> item'\<lparr>it_unique_id := it_unique_id item\<rparr> = item \<and>
    (if r = ADDITEM_SUCCESS
     then (\<forall>nid. stock nid sd' = stock nid sd + (if nid = it_nameid item then amount else 0)) \<and>
          list_all2 (\<le>) (amounts sd) (amounts sd')
     else (\<forall>nid. stock nid sd' = stock nid sd) \<and> amounts sd' = amounts sd)"
proof -
  obtain r sd' item' where add: "pc_additem E item amount favorite sd = (r, sd', item')" by (metis prod_cases3)
  note A = additem_spec [OF assms add]
  have len: "length (pl_inventory sd) = MAX_INVENTORY" "length (pl_inventory sd') = MAX_INVENTORY"
    using assms(1) A(4) by (simp_all add: inventory_lengths)
  have item: "item'\<lparr>it_unique_id := it_unique_id item\<rparr> = item" using A(6) by auto
  show ?thesis
  proof (cases "r = ADDITEM_SUCCESS")
    case True
    with A(1) have "gained (it_nameid item) amount sd sd'" by blast
    with add True item A(4) kept_bag [OF A(5)] len show ?thesis
      by (auto simp: gained_def amounts_def list_all2_conv_all_nth)
  next
    case False
    with A(2) have "same_goods sd sd'" by blast
    with add False item A(4) kept_bag [OF A(5)] len show ?thesis
      by (auto simp: same_goods_def amounts_def list_eq_iff_nth_eq)
  qed
qed

theorem additem_exact_witness:
  "stock 501 (fst (snd (pc_additem sample_env sample_stack 7 False (sample_player 1)))) = stock 501 (sample_player 1) + 7"
proof -
  have "fst (pc_additem sample_env sample_stack 7 False (sample_player 1)) = ADDITEM_SUCCESS"
    by (simp add: pc_additem_def sample_env_def sample_player_def sample_stack_def sample_item_def itemdb_search_def zero_item_def
        MAX_AMOUNT_def pc_generate_unique_id_def additem_place_def same_stack_def itemdb_isstackable2_def pc_search_inventory_def
        Let_def sample_blank [unfolded zero_item_def] inventory_pos split: prod.split)
  with additem_exact [OF sample_bag_ok [of 1] sample_neutral sample_stack_fresh, where amount = 7 and favorite = False] show ?thesis
    by (simp add: case_prod_beta sample_stack_def)
qed


text \<open>For a well-formed inventory \<open>pc_delitem\<close> with an index into it succeeds exactly when the
  amount is positive and in the slot; then that slot, and no other, holds that much less, and the player has
  that much less of the item. In every other case the player is left as before.\<close>

theorem delitem_exact:
  assumes "inventory_ok sd" "equip_neutral E" "0 \<le> n" "n < int MAX_INVENTORY"
  shows "case pc_delitem E n amount sd of (r, sd') \<Rightarrow>
    if 0 < amount \<and> amount \<le> it_amount (slot sd (nat n))
    then r = 0 \<and> inventory_ok sd' \<and> kept sd sd' \<and>
      amounts sd' = (amounts sd)[nat n := it_amount (slot sd (nat n)) - amount] \<and>
      (\<forall>nid. stock nid sd' = stock nid sd - (if nid = it_nameid (slot sd (nat n)) then amount else 0))
    else r = 1 \<and> sd' = sd"
proof (cases "0 < amount \<and> amount \<le> it_amount (slot sd (nat n))")
  case False
  then have "pc_delitem E n amount sd = (1, sd)" by (auto simp: pc_delitem_def)
  with False show ?thesis by auto
next
  case True
  have i: "nat n < MAX_INVENTORY" "int (nat n) = n" using assms by simp_all
  note D = delitem_spec [OF assms(1,2) i(1) conjunct1 [OF True] conjunct2 [OF True], unfolded i(2)]
  have len: "length (pl_inventory sd) = MAX_INVENTORY" "length (pl_inventory (snd (pc_delitem E n amount sd))) = MAX_INVENTORY"
    using assms(1) D(2) by (simp_all add: inventory_lengths)
  have "amounts (snd (pc_delitem E n amount sd)) = (amounts sd)[nat n := it_amount (slot sd (nat n)) - amount]"
    using D(5) len by (auto simp: amounts_def list_eq_iff_nth_eq nth_list_update)
  with D(1,2,4) kept_bag [OF D(3)] True show ?thesis by (auto simp: case_prod_beta)
qed

theorem delitem_exact_witness:
  "pc_delitem sample_env 3 1 (sample_player 1) = (1, sample_player 1)"
  using delitem_exact [OF sample_bag_ok [of 1] sample_neutral, where n = 3 and amount = 1]
  by (auto simp: MAX_INVENTORY_def sample_player_def zero_item_def split: prod.splits)

end
