(* ===== verification/Bank.thy ===== *)
theory Bank
  imports Inventory
begin

text \<open>
  The bank (\<open>pc_bank_deposit\<close>, \<open>pc_bank_withdraw\<close>): when moving zeny succeeds, and that none is
  created or lost.
\<close>

section \<open>Amounts\<close>

definition account_ok :: "player \<Rightarrow> bool" where
  "account_ok sd \<longleftrightarrow> 0 \<le> pl_zeny sd \<and> pl_zeny sd \<le> MAX_ZENY \<and> 0 \<le> pl_bank_vault sd \<and> pl_bank_vault sd \<le> MAX_BANK_ZENY"

definition is_int32 :: "int \<Rightarrow> bool" where
  "is_int32 z \<longleftrightarrow> - (2 ^ 31) \<le> z \<and> z < 2 ^ 31"

text \<open>The unsigned limit check is exact for a positive amount.\<close>

lemma limit_check_exact:
  assumes "0 < z" "is_int32 z" "0 \<le> x" "x \<le> MAX_ZENY"
  shows "uint (word_of_int (z + x) :: uint32) = z + x"
proof -
  have "0 \<le> z + x" "z + x < 2 ^ LENGTH(32)" using assms by (simp_all add: is_int32_def MAX_ZENY_def)
  then show ?thesis by (simp only: uint_word_of_int) simp
qed

lemma max_bank: "MAX_BANK_ZENY = MAX_ZENY"
  by (simp add: MAX_BANK_ZENY_def MAX_ZENY_def)

lemma deposit_cases:
  assumes ok: "account_ok sd" and z: "is_int32 z"
  shows "pc_bank_deposit enforce z sd =
    (if enforce \<and> \<not> pl_banking sd then (BDA_ERROR, sd) else
     if z \<le> 0 \<or> z + pl_bank_vault sd > MAX_BANK_ZENY then (BDA_OVERFLOW, sd) else
     if z > pl_zeny sd then (BDA_NO_MONEY, sd)
     else (BDA_SUCCESS, sd\<lparr>pl_zeny := pl_zeny sd - z, pl_bank_vault := pl_bank_vault sd + z\<rparr>))"
proof (cases "0 < z")
  case True
  have "0 \<le> pl_bank_vault sd" "pl_bank_vault sd \<le> MAX_ZENY" "pl_zeny sd \<le> MAX_ZENY"
    using ok by (simp_all add: account_ok_def max_bank)
  with limit_check_exact [OF True z this(1,2)] True show ?thesis
    by (simp add: pc_bank_deposit_def pc_payzeny_def cap_value_def Let_def max_bank)
qed (simp add: pc_bank_deposit_def)

lemma withdraw_cases:
  assumes ok: "account_ok sd" and z: "is_int32 z"
  shows "pc_bank_withdraw enforce z sd =
    (if enforce \<and> \<not> pl_banking sd then (BWA_UNKNOWN_ERROR, sd) else
     if z \<le> 0 then (BWA_UNKNOWN_ERROR, sd) else
     if z > pl_bank_vault sd then (BWA_NO_MONEY, sd) else
     if z + pl_zeny sd > MAX_ZENY then (BWA_UNKNOWN_ERROR, sd)
     else (BWA_SUCCESS, sd\<lparr>pl_zeny := pl_zeny sd + z, pl_bank_vault := pl_bank_vault sd - z\<rparr>))"
proof (cases "0 < z")
  case True
  have "0 \<le> pl_zeny sd" "pl_zeny sd \<le> MAX_ZENY" "pl_bank_vault sd \<le> MAX_ZENY"
    using ok by (simp_all add: account_ok_def max_bank)
  with limit_check_exact [OF True z this(1,2)] True show ?thesis
    by (simp add: pc_bank_withdraw_def pc_getzeny_def cap_value_def Let_def)
qed (simp add: pc_bank_withdraw_def)

section \<open>Properties\<close>

definition wealth :: "player \<Rightarrow> int" where
  "wealth sd = pl_zeny sd + pl_bank_vault sd"

definition sample_account :: player where
  "sample_account = \<lparr>pl_id = 1, pl_account_id = 1, pl_char_id = 1, pl_base_level = 1, pl_guild_id = 0,
     pl_zeny = 700, pl_bank_vault = 100, pl_inventory = [], pl_inventory_data = [], pl_weight = 0, pl_max_weight = 1000,
     pl_inventory_slots = 100, pl_uniqueitem_counter = 0, pl_permissions = [], pl_m = 0,
     pl_npc_id = 0, pl_vending = False, pl_buyingstore = False, pl_storage_flag = 0, pl_guild_invite = 0,
     pl_party_invite = 0, pl_adopt_invite = 0, pl_banking = True, pl_trading = False, pl_deal_locked = 0,
     pl_isBoundTrading = 0, pl_partner_id = 0, pl_partner_lv = 0, pl_deal_item = [],
     pl_deal_zeny = 0, pl_deal_weight = 0, pl_deal_space = 0, pl_zeny_hacker = False, pl_eof = False\<rparr>"

lemma sample_account_ok: "account_ok sample_account"
  by (simp add: account_ok_def sample_account_def MAX_ZENY_def MAX_BANK_ZENY_def)

text \<open>For every amount a client can send, negative ones and those whose sum overflows 32 bits
  included, a deposit or a withdrawal keeps purse and vault together at the same sum and each of them
  between zero and its maximum; an operation that does not succeed changes nothing; and a deposit succeeds
  exactly when the amount is positive, in the purse, and fits into the vault, a withdrawal exactly when it is
  positive, in the vault, and fits into the purse, and the bank is open where the server insists on that.\<close>

theorem bank_conserves:
  assumes "account_ok sd" "is_int32 z"
  shows "case pc_bank_deposit enforce z sd of (r, sd') \<Rightarrow> case pc_bank_withdraw enforce z sd of (r2, sd2) \<Rightarrow>
    wealth sd' = wealth sd \<and> wealth sd2 = wealth sd \<and> account_ok sd' \<and> account_ok sd2 \<and>
    (r = BDA_SUCCESS \<or> sd' = sd) \<and> (r2 = BWA_SUCCESS \<or> sd2 = sd) \<and>
    (r = BDA_SUCCESS \<longleftrightarrow> (enforce \<longrightarrow> pl_banking sd) \<and> 0 < z \<and> z \<le> pl_zeny sd \<and> z + pl_bank_vault sd \<le> MAX_BANK_ZENY) \<and>
    (r2 = BWA_SUCCESS \<longleftrightarrow> (enforce \<longrightarrow> pl_banking sd) \<and> 0 < z \<and> z \<le> pl_bank_vault sd \<and> z + pl_zeny sd \<le> MAX_ZENY)"
  using assms unfolding deposit_cases [OF assms] withdraw_cases [OF assms]
  by (auto simp: account_ok_def wealth_def max_bank)

theorem bank_conserves_witness:
  "fst (pc_bank_deposit True 600 sample_account) = BDA_SUCCESS \<and>
   wealth (snd (pc_bank_withdraw True 2147483647 sample_account)) = 800"
  using bank_conserves [OF sample_account_ok, of 600 True] bank_conserves [OF sample_account_ok, of 2147483647 True]
  by (simp add: is_int32_def case_prod_beta) (simp add: sample_account_def wealth_def MAX_BANK_ZENY_def)

text \<open>What was deposited can be withdrawn again, and then the player is as before, whatever the bank
  held; the same the other way round.\<close>

theorem bank_roundtrip:
  assumes "account_ok sd" "is_int32 z"
  shows "(fst (pc_bank_deposit enforce z sd) = BDA_SUCCESS \<longrightarrow>
      pc_bank_withdraw enforce z (snd (pc_bank_deposit enforce z sd)) = (BWA_SUCCESS, sd)) \<and>
    (fst (pc_bank_withdraw enforce z sd) = BWA_SUCCESS \<longrightarrow>
      pc_bank_deposit enforce z (snd (pc_bank_withdraw enforce z sd)) = (BDA_SUCCESS, sd))"
proof (intro conjI impI)
  assume "fst (pc_bank_deposit enforce z sd) = BDA_SUCCESS"
  then have z: "0 < z" "z \<le> pl_zeny sd" "z + pl_bank_vault sd \<le> MAX_BANK_ZENY" "enforce \<longrightarrow> pl_banking sd"
    and d: "snd (pc_bank_deposit enforce z sd) = sd\<lparr>pl_zeny := pl_zeny sd - z, pl_bank_vault := pl_bank_vault sd + z\<rparr>"
    unfolding deposit_cases [OF assms] by (auto split: if_splits)
  have "account_ok (sd\<lparr>pl_zeny := pl_zeny sd - z, pl_bank_vault := pl_bank_vault sd + z\<rparr>)"
    using assms(1) z by (simp add: account_ok_def)
  from withdraw_cases [OF this assms(2)] z assms(1)
  show "pc_bank_withdraw enforce z (snd (pc_bank_deposit enforce z sd)) = (BWA_SUCCESS, sd)"
    unfolding d by (simp add: account_ok_def)
next
  assume "fst (pc_bank_withdraw enforce z sd) = BWA_SUCCESS"
  then have z: "0 < z" "z \<le> pl_bank_vault sd" "z + pl_zeny sd \<le> MAX_ZENY" "enforce \<longrightarrow> pl_banking sd"
    and d: "snd (pc_bank_withdraw enforce z sd) = sd\<lparr>pl_zeny := pl_zeny sd + z, pl_bank_vault := pl_bank_vault sd - z\<rparr>"
    unfolding withdraw_cases [OF assms] by (auto split: if_splits)
  have "account_ok (sd\<lparr>pl_zeny := pl_zeny sd + z, pl_bank_vault := pl_bank_vault sd - z\<rparr>)"
    using assms(1) z by (simp add: account_ok_def)
  from deposit_cases [OF this assms(2)] z assms(1)
  show "pc_bank_deposit enforce z (snd (pc_bank_withdraw enforce z sd)) = (BDA_SUCCESS, sd)"
    unfolding d by (simp add: account_ok_def)
qed

theorem bank_roundtrip_witness:
  "pc_bank_withdraw True 600 (snd (pc_bank_deposit True 600 sample_account)) = (BWA_SUCCESS, sample_account)"
  using bank_roundtrip [OF sample_account_ok, of 600 True] deposit_cases [OF sample_account_ok, of 600 True]
  by (simp add: is_int32_def) (simp add: sample_account_def MAX_BANK_ZENY_def)

end
