(* ===== verification/HeapOrder.thy ===== *)
theory HeapOrder
  imports Timer
begin

text \<open>
  The heap as the timer manager uses it: whatever timers are pushed, they come out in the order of
  their ticks, each exactly once.
\<close>

section \<open>Emptying a heap\<close>

lemma length_pop: "h \<noteq> [] \<Longrightarrow> length (bheap_pop cmp h) = length h - 1"
  using arg_cong [OF mset_bheap_popindex [of 0 h cmp], of size] by (simp add: bheap_pop_def)

text \<open>Popping until nothing is left, noting what was on top.\<close>

function drain :: "('a \<Rightarrow> 'a \<Rightarrow> int) \<Rightarrow> 'a list \<Rightarrow> 'a list" where
  "drain cmp h = (if h = [] then [] else bheap_peek h # drain cmp (bheap_pop cmp h))"
  by auto
termination by (relation "measure (length \<circ> snd)") (simp_all add: length_pop)

declare drain.simps [simp del]

lemma mset_drain: "mset (drain cmp h) = mset h"
proof (induction cmp h rule: drain.induct)
  case (1 cmp h)
  show ?case
  proof (cases "h = []")
    case False
    have "mset h = add_mset (bheap_peek h) (mset (bheap_pop cmp h))"
      using mset_bheap_popindex [of 0 h cmp] False by (simp add: bheap_pop_def bheap_peek_def)
    with 1 False show ?thesis by (simp add: drain.simps [of cmp h])
  qed (simp add: drain.simps)
qed

lemma mset_pushes: "mset (fold (bheap_push cmp) xs h) = mset xs + mset h"
  by (induction xs arbitrary: h) (simp_all add: mset_bheap_push)

context topcmp
begin

lemma pushes_ok: "heap_ok cmp h \<Longrightarrow> heap_ok cmp (fold (bheap_push cmp) xs h)"
  by (induction xs arbitrary: h) (simp_all add: heap_push)

lemma drain_sorted: "heap_ok cmp h \<Longrightarrow> sorted_wrt (\<lambda>a b. cmp a b \<le> 0) (drain cmp h)"
proof (induction "length h" arbitrary: h)
  case 0
  then show ?case by (simp add: drain.simps)
next
  case (Suc n)
  then have ne: "h \<noteq> []" by auto
  have "heap_ok cmp (bheap_pop cmp h)" using heap_popindex [OF Suc.prems, of 0] ne by (simp add: bheap_pop_def)
  with Suc.hyps ne have "sorted_wrt (\<lambda>a b. cmp a b \<le> 0) (drain cmp (bheap_pop cmp h))" by (simp add: length_pop)
  moreover have "cmp (bheap_peek h) x \<le> 0" if "x \<in> set (drain cmp (bheap_pop cmp h))" for x
  proof -
    have "set (drain cmp (bheap_pop cmp h)) = set (bheap_pop cmp h)"
      using mset_drain by (rule mset_eq_setD)
    moreover have "set h = insert (h ! 0) (set (bheap_pop cmp h))"
      using mset_eq_setD [of "h ! 0 # bheap_pop cmp h" h] mset_bheap_popindex [of 0 h cmp] ne by (simp add: bheap_pop_def)
    ultimately have "x \<in> set h" using that by simp
    then show ?thesis by (rule heap_peek_least [OF Suc.prems])
  qed
  ultimately show ?case using ne by (simp add: drain.simps [of cmp h])
qed

end

text \<open>Timers pushed to the heap in any order come out of it, popped one by one, as the same timers in
  the order of their ticks.\<close>

theorem timers_drain_in_order:
  "mset (drain (difftick_mintopcmp D) (fold (bheap_push (difftick_mintopcmp D)) tids [])) = mset tids \<and>
   sorted (map (\<lambda>tid. td_tick (D ! tid)) (drain (difftick_mintopcmp D) (fold (bheap_push (difftick_mintopcmp D)) tids [])))"
proof -
  let ?cmp = "difftick_mintopcmp D"
  have "heap_ok ?cmp (fold (bheap_push ?cmp) tids [])" by (rule tick_order.pushes_ok) (simp add: heap_ok_def)
  from tick_order.drain_sorted [OF this] show ?thesis
    by (simp add: mset_drain mset_pushes sorted_wrt_map difftick_mintopcmp_def DIFF_TICK_def)
qed

end
