(* ===== verification/Bheap2.thy ===== *)
theory Bheap2
  imports Bheap
begin

text \<open>
  The second set of binary heap macros of \<open>src/src/common/db.hpp\<close> (\<open>BHEAP_SIFTDOWN\<close>,
  \<open>BHEAP_SIFTUP\<close>, \<open>BHEAP_PUSH2\<close>, \<open>BHEAP_POP2\<close>, \<open>BHEAP_UPDATE\<close>), which the
  path search uses: what they do with the elements, for any comparator.
\<close>

section \<open>The macros\<close>

function bheap_siftdown :: "('a \<Rightarrow> 'a \<Rightarrow> int) \<Rightarrow> nat \<Rightarrow> 'a list \<Rightarrow> nat \<Rightarrow> 'a list" where
  "bheap_siftdown cmp startidx h i =
     (if i > startidx then
        (if cmp (h ! parent i) (h ! i) \<le> 0 then h
         else bheap_siftdown cmp startidx (swap_at h (parent i) i) (parent i))
      else h)"
  by pat_completeness auto
termination
  by (relation "measure (\<lambda>(cmp, s, h, i). i)") (auto simp: parent_def)

text \<open>The loop of \<open>BHEAP_SIFTUP\<close>, with the position it ends at.\<close>

function siftup_loop :: "('a \<Rightarrow> 'a \<Rightarrow> int) \<Rightarrow> 'a list \<Rightarrow> nat \<Rightarrow> 'a list \<times> nat" where
  "siftup_loop cmp h i =
     (let l = i * 2 + 1; r = i * 2 + 2 in
      if l < length h then
        (if r \<ge> length h \<or> cmp (h ! l) (h ! r) < 0 then siftup_loop cmp (swap_at h i l) l
         else siftup_loop cmp (swap_at h i r) r)
      else (h, i))"
  by pat_completeness auto
termination
  by (relation "measure (\<lambda>(cmp, h, i). length h - i)") (auto simp: swap_at_def)

declare bheap_siftdown.simps [simp del] siftup_loop.simps [simp del]

definition bheap_siftup :: "('a \<Rightarrow> 'a \<Rightarrow> int) \<Rightarrow> 'a list \<Rightarrow> nat \<Rightarrow> 'a list" where
  "bheap_siftup cmp h idx = (case siftup_loop cmp h idx of (h', i) \<Rightarrow> bheap_siftdown cmp idx h' i)"

definition bheap_push2 :: "('a \<Rightarrow> 'a \<Rightarrow> int) \<Rightarrow> 'a \<Rightarrow> 'a list \<Rightarrow> 'a list" where
  "bheap_push2 cmp v h = bheap_siftdown cmp 0 (h @ [v]) (length h)"

definition bheap_pop2 :: "('a \<Rightarrow> 'a \<Rightarrow> int) \<Rightarrow> 'a list \<Rightarrow> 'a list" where
  "bheap_pop2 cmp h =
     (let h' = (butlast h)[0 := last h] in if h' = [] then h' else bheap_siftup cmp h' 0)"

definition bheap_update :: "('a \<Rightarrow> 'a \<Rightarrow> int) \<Rightarrow> 'a list \<Rightarrow> nat \<Rightarrow> 'a list" where
  "bheap_update cmp h idx = bheap_siftup cmp (bheap_siftdown cmp 0 h idx) idx"

section \<open>The elements\<close>

lemma mset_siftdown: "i < length h \<Longrightarrow> mset (bheap_siftdown cmp s h i) = mset h"
proof (induction cmp s h i rule: bheap_siftdown.induct)
  case (1 cmp s h i)
  have p: "parent i < length h" using "1.prems" parent_le [of i] by simp
  show ?case
  proof (cases "i > s \<and> \<not> cmp (h ! parent i) (h ! i) \<le> 0")
    case True
    with "1.IH" "1.prems" p show ?thesis by (simp add: bheap_siftdown.simps [of cmp s h i])
  next
    case False
    then show ?thesis by (auto simp: bheap_siftdown.simps [of cmp s h i])
  qed
qed

lemma siftup_loop_spec:
  "i < length h \<Longrightarrow> mset (fst (siftup_loop cmp h i)) = mset h \<and> snd (siftup_loop cmp h i) < length h"
proof (induction cmp h i rule: siftup_loop.induct)
  case (1 cmp h i)
  consider (stop) "i * 2 + 1 \<ge> length h"
    | (left) "i * 2 + 1 < length h" "i * 2 + 2 \<ge> length h \<or> cmp (h ! (i * 2 + 1)) (h ! (i * 2 + 2)) < 0"
    | (right) "i * 2 + 2 < length h" "\<not> cmp (h ! (i * 2 + 1)) (h ! (i * 2 + 2)) < 0" by linarith
  then show ?case
  proof cases
    case stop
    with "1.prems" show ?thesis by (simp add: siftup_loop.simps [of cmp h i])
  next
    case left
    have eq: "siftup_loop cmp h i = siftup_loop cmp (swap_at h i (i * 2 + 1)) (i * 2 + 1)"
      by (subst siftup_loop.simps) (simp only: Let_def left if_True)
    from "1.IH"(1) [OF refl refl left] "1.prems" left(1) show ?thesis unfolding eq by simp
  next
    case right
    then have more: "i * 2 + 1 < length h" "\<not> (i * 2 + 2 \<ge> length h \<or> cmp (h ! (i * 2 + 1)) (h ! (i * 2 + 2)) < 0)" by simp_all
    have eq: "siftup_loop cmp h i = siftup_loop cmp (swap_at h i (i * 2 + 2)) (i * 2 + 2)"
      by (subst siftup_loop.simps) (simp only: Let_def more if_True if_False)
    from "1.IH"(2) [OF refl refl more] "1.prems" right(1) show ?thesis unfolding eq by simp
  qed
qed

lemma mset_siftup:
  assumes "i < length h"
  shows "mset (bheap_siftup cmp h i) = mset h"
proof -
  obtain h' j where l: "siftup_loop cmp h i = (h', j)" by fastforce
  with siftup_loop_spec [OF assms, of cmp] have m: "mset h' = mset h" "j < length h" by simp_all
  then have "j < length h'" using mset_eq_length [OF m(1)] by simp
  then have "mset (bheap_siftdown cmp i h' j) = mset h'" by (rule mset_siftdown)
  with m(1) show ?thesis by (simp add: bheap_siftup_def l)
qed

lemma mset_push2: "mset (bheap_push2 cmp v h) = add_mset v (mset h)"
  by (simp add: bheap_push2_def mset_siftdown)

lemma mset_pop2:
  assumes "h = x # xs"
  shows "mset (bheap_pop2 cmp h) = mset xs"
proof (cases xs rule: rev_cases)
  case Nil
  then show ?thesis by (simp add: bheap_pop2_def assms)
next
  case (snoc ys y)
  then have eq: "bheap_pop2 cmp h = bheap_siftup cmp (y # ys) 0" by (simp add: bheap_pop2_def assms butlast_append)
  have "mset (bheap_siftup cmp (y # ys) 0) = mset (y # ys)" by (rule mset_siftup) simp
  then show ?thesis by (simp only: eq snoc mset_append mset.simps) simp
qed

lemma mset_update_heap: "i < length h \<Longrightarrow> mset (bheap_update cmp h i) = mset h"
  using mset_siftdown [of i h cmp 0] mset_siftup [of i "bheap_siftdown cmp 0 h i" cmp]
    mset_eq_length [of "bheap_siftdown cmp 0 h i" h]
  by (simp add: bheap_update_def)

text \<open>The same for sets and distinctness, as the path search needs it.\<close>

lemma push2_set: "set (bheap_push2 cmp v h) = insert v (set h)" "v \<notin> set h \<Longrightarrow> distinct h \<Longrightarrow> distinct (bheap_push2 cmp v h)"
proof -
  have m: "mset (bheap_push2 cmp v h) = mset (v # h)" by (simp add: mset_push2)
  show "set (bheap_push2 cmp v h) = insert v (set h)" using mset_eq_setD [OF m] by simp
  show "v \<notin> set h \<Longrightarrow> distinct h \<Longrightarrow> distinct (bheap_push2 cmp v h)" using mset_eq_imp_distinct_iff [OF m] by simp
qed

lemma pop2_set:
  assumes "h \<noteq> []" "distinct h"
  shows "set (bheap_pop2 cmp h) = set h - {bheap_peek h}" "distinct (bheap_pop2 cmp h)" "bheap_peek h \<in> set h"
proof -
  obtain x xs where h: "h = x # xs" using assms(1) by (cases h) auto
  have m: "mset (bheap_pop2 cmp h) = mset xs" using mset_pop2 [OF h] .
  show "set (bheap_pop2 cmp h) = set h - {bheap_peek h}" using mset_eq_setD [OF m] assms(2) by (auto simp: h bheap_peek_def)
  show "distinct (bheap_pop2 cmp h)" using mset_eq_imp_distinct_iff [OF m] assms(2) by (simp add: h)
  show "bheap_peek h \<in> set h" by (simp add: h bheap_peek_def)
qed

lemma update_set: "i < length h \<Longrightarrow> set (bheap_update cmp h i) = set h" "i < length h \<Longrightarrow> distinct h \<Longrightarrow> distinct (bheap_update cmp h i)"
  using mset_eq_setD [OF mset_update_heap, of i h cmp] mset_eq_imp_distinct_iff [OF mset_update_heap, of i h cmp] by simp_all

end
