(* ===== verification/Path.thy ===== *)
theory Path
  imports Bheap2
begin

unbundle bit_operations_syntax

text \<open>
  The path finding of \<open>src/src/map/path.cpp\<close> with what it reads of a map
  (\<open>map_getcellp\<close> of \<open>src/src/map/map.cpp\<close>): the shot line
  \<open>path_search_long\<close>, the knock-back \<open>path_blownpos\<close>, the easy path and the A* search of
  \<open>path_search\<close>, and the square distance functions. \<open>CELL_NOSTACK\<close> and
  \<open>CIRCULAR_AREA\<close> are off, as they are in \<open>src/src/config/core.hpp\<close>. A loop
  of the code that need not end is a \<open>partial_function\<close> whose value is then \<open>None\<close>.
\<close>

section \<open>Maps\<close>

datatype cell_chk =
    CELL_GETTYPE | CELL_CHKWALL | CELL_CHKWATER | CELL_CHKCLIFF
  | CELL_CHKPASS | CELL_CHKREACH | CELL_CHKNOPASS | CELL_CHKNOREACH | CELL_CHKSTACK
  | CELL_CHKNPC | CELL_CHKBASILICA | CELL_CHKLANDPROTECTOR | CELL_CHKNOVENDING | CELL_CHKNOCHAT
  | CELL_CHKMAELSTROM | CELL_CHKICEWALL | CELL_CHKNOBUYINGSTORE

record mapcell =
  walkable :: bool
  shootable :: bool
  water :: bool
  mc_npc :: bool
  basilica :: bool
  landprotector :: bool
  novending :: bool
  nochat :: bool
  maelstrom :: bool
  icewall :: bool
  nobuyingstore :: bool

text \<open>The fields of \<open>struct map_data\<close> that the path functions read; no cells is the null pointer.\<close>

record map_data =
  md_cell :: "mapcell list option"
  md_xs :: int
  md_ys :: int

definition map_cell2gat :: "mapcell \<Rightarrow> int" where
  "map_cell2gat c =
     (if walkable c \<and> shootable c \<and> \<not> water c then 0
      else if \<not> walkable c \<and> \<not> shootable c \<and> \<not> water c then 1
      else if walkable c \<and> shootable c \<and> water c then 3
      else if \<not> walkable c \<and> shootable c \<and> \<not> water c then 5
      else 1)"

definition map_getcellp :: "map_data \<Rightarrow> int \<Rightarrow> int \<Rightarrow> cell_chk \<Rightarrow> int" where
  "map_getcellp m px py cellchk =
     (let x = to_int16 px; y = to_int16 py in
      if x < 0 \<or> x \<ge> md_xs m - 1 \<or> y < 0 \<or> y \<ge> md_ys m - 1
      then of_bool (cellchk = CELL_CHKNOPASS)
      else let c = the (md_cell m) ! nat (x + y * md_xs m) in
        case cellchk of
          CELL_GETTYPE \<Rightarrow> map_cell2gat c
        | CELL_CHKWALL \<Rightarrow> of_bool (\<not> walkable c \<and> \<not> shootable c)
        | CELL_CHKWATER \<Rightarrow> of_bool (water c)
        | CELL_CHKCLIFF \<Rightarrow> of_bool (\<not> walkable c \<and> shootable c)
        | CELL_CHKNPC \<Rightarrow> of_bool (mc_npc c)
        | CELL_CHKBASILICA \<Rightarrow> of_bool (basilica c)
        | CELL_CHKLANDPROTECTOR \<Rightarrow> of_bool (landprotector c)
        | CELL_CHKNOVENDING \<Rightarrow> of_bool (novending c)
        | CELL_CHKNOBUYINGSTORE \<Rightarrow> of_bool (nobuyingstore c)
        | CELL_CHKNOCHAT \<Rightarrow> of_bool (nochat c)
        | CELL_CHKMAELSTROM \<Rightarrow> of_bool (maelstrom c)
        | CELL_CHKICEWALL \<Rightarrow> of_bool (icewall c)
        | CELL_CHKPASS \<Rightarrow> of_bool (walkable c)
        | CELL_CHKREACH \<Rightarrow> of_bool (walkable c)
        | CELL_CHKNOPASS \<Rightarrow> of_bool (\<not> walkable c)
        | CELL_CHKNOREACH \<Rightarrow> of_bool (\<not> walkable c)
        | CELL_CHKSTACK \<Rightarrow> 0)"

section \<open>Directions and distances\<close>

datatype directions =
    DIR_CENTER | DIR_NORTH | DIR_NORTHWEST | DIR_WEST | DIR_SOUTHWEST | DIR_SOUTH | DIR_SOUTHEAST
  | DIR_EAST | DIR_NORTHEAST | DIR_MAX

fun direction_value :: "directions \<Rightarrow> int" where
  "direction_value DIR_CENTER = - 1"
| "direction_value DIR_NORTH = 0"
| "direction_value DIR_NORTHWEST = 1"
| "direction_value DIR_WEST = 2"
| "direction_value DIR_SOUTHWEST = 3"
| "direction_value DIR_SOUTH = 4"
| "direction_value DIR_SOUTHEAST = 5"
| "direction_value DIR_EAST = 6"
| "direction_value DIR_NORTHEAST = 7"
| "direction_value DIR_MAX = 8"

text \<open>\<open>dirx\<close> and \<open>diry\<close> of \<open>unit.cpp\<close>, which a walking unit adds to its position.\<close>

definition dirx :: "int list" where
  "dirx = [0, - 1, - 1, - 1, 0, 1, 1, 1]"

definition diry :: "int list" where
  "diry = [1, 1, 0, - 1, - 1, - 1, 0, 1]"

definition walk_choices :: "directions list list" where
  "walk_choices =
     [[DIR_NORTHWEST, DIR_NORTH, DIR_NORTHEAST],
      [DIR_WEST, DIR_CENTER, DIR_EAST],
      [DIR_SOUTHWEST, DIR_SOUTH, DIR_SOUTHEAST]]"

definition direction_diagonal :: "directions \<Rightarrow> bool" where
  "direction_diagonal d \<longleftrightarrow>
     d = DIR_NORTHWEST \<or> d = DIR_SOUTHWEST \<or> d = DIR_SOUTHEAST \<or> d = DIR_NORTHEAST"

text \<open>The function is declared \<open>bool\<close>: what it returns is converted to a truth value.\<close>

definition direction_opposite :: "directions \<Rightarrow> bool" where
  "direction_opposite d =
     (if d = DIR_CENTER \<or> d = DIR_MAX then direction_value d \<noteq> 0
      else (direction_value d + direction_value DIR_MAX div 2) mod direction_value DIR_MAX \<noteq> 0)"

definition check_distance :: "int \<Rightarrow> int \<Rightarrow> int \<Rightarrow> bool" where
  "check_distance dx dy dist =
     (let dx' = (if dx < 0 then - dx else dx); dy' = (if dy < 0 then - dy else dy) in
      (if dx' < dy' then dy' else dx') \<le> dist)"

definition distance :: "int \<Rightarrow> int \<Rightarrow> int" where
  "distance dx dy =
     (let dx' = (if dx < 0 then - dx else dx); dy' = (if dy < 0 then - dy else dy) in
      if dx' < dy' then dy' else dx')"

section \<open>Knock-back\<close>

text \<open>
  The loop of \<open>path_blownpos\<close>; \<open>rnd n\<close> is the answer of \<open>rnd_chance(50, 100)\<close> in the
  turn with \<open>n\<close> steps left.
\<close>

fun blown_loop :: "(nat \<Rightarrow> bool) \<Rightarrow> bool \<Rightarrow> map_data \<Rightarrow> nat \<Rightarrow> int \<Rightarrow> int \<Rightarrow> int \<Rightarrow> int \<Rightarrow> int \<times> int" where
  "blown_loop rnd halt m 0 x0 y0 dx dy = (x0, y0)"
| "blown_loop rnd halt m (Suc n) x0 y0 dx dy =
     (if dx = 0 \<and> dy = 0 then (x0, y0)
      else if map_getcellp m (x0 + dx) (y0 + dy) CELL_CHKPASS \<noteq> 0
      then blown_loop rnd halt m n (to_int16 (x0 + dx)) (to_int16 (y0 + dy)) dx dy
      else if halt then (x0, y0)
      else
        let fx = dx \<noteq> 0 \<and> map_getcellp m (x0 + dx) y0 CELL_CHKPASS \<noteq> 0;
            fy = dy \<noteq> 0 \<and> map_getcellp m x0 (y0 + dy) CELL_CHKPASS \<noteq> 0;
            dx1 = (if fx \<and> fy \<and> rnd (Suc n) then 0 else dx);
            dy1 = (if fx \<and> fy \<and> \<not> rnd (Suc n) then 0 else dy);
            dx2 = (if \<not> fx then 0 else dx1);
            dy2 = (if \<not> fy then 0 else dy1)
        in blown_loop rnd halt m n (to_int16 (x0 + dx2)) (to_int16 (y0 + dy2)) dx2 dy2)"

text \<open>The 32-bit value that packs the two coordinates.\<close>

definition pack_pos :: "int \<times> int \<Rightarrow> 32 word" where
  "pack_pos p = push_bit 16 (word_of_int (fst p)) OR word_of_int (snd p)"

definition path_blownpos ::
  "(nat \<Rightarrow> bool) \<Rightarrow> bool \<Rightarrow> map_data \<Rightarrow> int \<Rightarrow> int \<Rightarrow> int \<Rightarrow> int \<Rightarrow> int \<Rightarrow> 32 word" where
  "path_blownpos rnd halt m x0 y0 dx dy steps =
     (if md_cell m = None then - 1
      else
        let steps' = (if steps > 25 then 25 else steps);
            ill = dx > 1 \<or> dx < - 1 \<or> dy > 1 \<or> dy < - 1;
            dx' = (if ill then (if dx > 0 then 1 else if dx < 0 then - 1 else 0) else dx);
            dy' = (if ill then (if dy > 0 then 1 else if dy < 0 then - 1 else 0) else dy)
        in pack_pos (blown_loop rnd halt m (nat steps') x0 y0 dx' dy'))"

section \<open>The shot line\<close>

text \<open>\<open>MAX_WALKPATH\<close>, the length of the path arrays.\<close>

definition max_walkpath :: nat where
  "max_walkpath = 32"

record shootpath_data =
  sp_rx :: int
  sp_ry :: int
  sp_len :: nat
  sp_x :: "int list"
  sp_y :: "int list"

definition shoot_record :: "int \<Rightarrow> int \<Rightarrow> shootpath_data \<Rightarrow> shootpath_data" where
  "shoot_record x y spd =
     (if sp_len spd < max_walkpath
      then spd\<lparr>sp_x := (sp_x spd)[sp_len spd := x], sp_y := (sp_y spd)[sp_len spd := y],
               sp_len := sp_len spd + 1\<rparr>
      else spd)"

text \<open>One turn of the loop moves the line: the two remainders and the cell they are at.\<close>

definition shoot_move :: "int \<Rightarrow> int \<Rightarrow> int \<Rightarrow> int \<times> int \<times> int \<times> int \<Rightarrow> int \<times> int \<times> int \<times> int" where
  "shoot_move dx dy weight = (\<lambda>(wx, wy, x0, y0).
     let wx1 = wx + dx; wy1 = wy + dy;
         (wx2, x') = (if wx1 \<ge> weight then (wx1 - weight, to_int16 (x0 + 1)) else (wx1, x0));
         (wy2, y') = (if wy1 \<ge> weight then (wy1 - weight, to_int16 (y0 + 1))
                      else if wy1 < 0 then (wy1 + weight, to_int16 (y0 - 1)) else (wy1, y0))
     in (wx2, wy2, x', y'))"

partial_function (option) shoot_loop ::
  "map_data \<Rightarrow> cell_chk \<Rightarrow> int \<Rightarrow> int \<Rightarrow> int \<Rightarrow> int \<Rightarrow> int \<Rightarrow> int \<times> int \<times> int \<times> int \<Rightarrow> shootpath_data
    \<Rightarrow> (shootpath_data \<times> bool) option" where
  "shoot_loop m cell dx dy weight x1 y1 pos spd =
     (case pos of (wx, wy, x0, y0) \<Rightarrow>
        if x0 \<noteq> x1 \<or> y0 \<noteq> y1 then
          (case shoot_move dx dy weight (wx, wy, x0, y0) of (wx', wy', x', y') \<Rightarrow>
             let spd' = shoot_record x' y' spd in
             if (x' \<noteq> x1 \<or> y' \<noteq> y1) \<and> map_getcellp m x' y' cell \<noteq> 0 then Some (spd', False)
             else shoot_loop m cell dx dy weight x1 y1 (wx', wy', x', y') spd')
        else Some (spd, True))"

text \<open>
  The structure written and the result. A caller that passes no structure gets the local
  one, whose content it never sees.
\<close>

definition path_search_long ::
  "shootpath_data \<Rightarrow> map_data \<Rightarrow> int \<Rightarrow> int \<Rightarrow> int \<Rightarrow> int \<Rightarrow> cell_chk \<Rightarrow> (shootpath_data \<times> bool) option" where
  "path_search_long spd m px0 py0 px1 py1 cell =
     (if md_cell m = None then Some (spd, False)
      else
        let (x0, y0, x1, y1) = (if px1 - px0 < 0 then (px1, py1, px0, py0) else (px0, py0, px1, py1));
            dx = \<bar>px1 - px0\<bar>; dy = y1 - y0;
            spd1 = spd\<lparr>sp_rx := 0, sp_ry := 0, sp_len := 1, sp_x := (sp_x spd)[0 := x0],
                       sp_y := (sp_y spd)[0 := y0]\<rparr>;
            (weight, spd2) = (if dx > \<bar>dy\<bar> then (dx, spd1\<lparr>sp_ry := 1\<rparr>)
                              else (\<bar>y1 - y0\<bar>, spd1\<lparr>sp_rx := 1\<rparr>))
        in shoot_loop m cell dx dy weight x1 y1 (0, 0, x0, y0) spd2)"

section \<open>A* search\<close>

text \<open>A node; the pointer to its parent is an index into the array \<open>tp\<close>.\<close>

record path_node =
  pn_parent :: "nat option"
  pn_x :: int
  pn_y :: int
  pn_g :: int
  pn_f :: int
  pn_closed :: bool

type_synonym path_nodes = "path_node list"
type_synonym open_set = "nat list"

definition move_cost :: int where
  "move_cost = 10"

definition move_diagonal_cost :: int where
  "move_diagonal_cost = 14"

definition node_mintopcmp :: "path_nodes \<Rightarrow> nat \<Rightarrow> nat \<Rightarrow> int" where
  "node_mintopcmp tp i j = pn_f (tp ! i) - pn_f (tp ! j)"

definition calc_index :: "int \<Rightarrow> int \<Rightarrow> nat" where
  "calc_index x y = nat ((x + y * int max_walkpath) AND (int max_walkpath * int max_walkpath - 1))"

definition heuristic :: "int \<Rightarrow> int \<Rightarrow> int \<Rightarrow> int \<Rightarrow> int" where
  "heuristic x0 y0 x1 y1 = move_cost * (\<bar>x1 - x0\<bar> + \<bar>y1 - y0\<bar>)"

definition heap_push_node :: "path_nodes \<Rightarrow> open_set \<Rightarrow> nat \<Rightarrow> open_set" where
  "heap_push_node tp heap node = bheap_push2 (node_mintopcmp tp) node heap"

definition heap_update_node :: "path_nodes \<Rightarrow> open_set \<Rightarrow> nat \<Rightarrow> open_set \<times> nat" where
  "heap_update_node tp heap node =
     (let i = arr_find (\<lambda>v. v = node) heap in
      if i = length heap then (heap, 1)
      else (bheap_update (node_mintopcmp tp) heap i, 0))"

text \<open>The new open set and nodes, and the error flag it returns.\<close>

definition add_path ::
  "open_set \<times> path_nodes \<Rightarrow> int \<Rightarrow> int \<Rightarrow> int \<Rightarrow> nat \<Rightarrow> int \<Rightarrow> (open_set \<times> path_nodes) \<times> nat" where
  "add_path = (\<lambda>(heap, tp) px py g_cost par h_cost.
     let x = to_int16 px; y = to_int16 py; i = calc_index x y in
     if pn_x (tp ! i) = x \<and> pn_y (tp ! i) = y then
       if g_cost < pn_g (tp ! i) then
         let tp1 = tp[i := (tp ! i)\<lparr>pn_g := to_int16 g_cost, pn_parent := Some par,
                                    pn_f := to_int16 (g_cost + h_cost)\<rparr>];
             (heap', err) = (if pn_closed (tp1 ! i) then (heap_push_node tp1 heap i, 0)
                             else heap_update_node tp1 heap i)
         in if err \<noteq> 0 then ((heap', tp1), 1)
            else ((heap', tp1[i := (tp1 ! i)\<lparr>pn_closed := False\<rparr>]), 0)
       else ((heap, tp), 0)
     else if pn_x (tp ! i) \<noteq> 0 \<or> pn_y (tp ! i) \<noteq> 0 then ((heap, tp), 1)
     else
       let tp1 = tp[i := \<lparr>pn_parent = Some par, pn_x = x, pn_y = y, pn_g = to_int16 g_cost,
                          pn_f = to_int16 (g_cost + h_cost), pn_closed = False\<rparr>]
       in ((heap_push_node tp1 heap i, tp1), 0))"

text \<open>
  The moves from a cell in the order the code tries them, with their costs; a diagonal one needs both
  directions around it (\<open>allowed_dirs\<close>).
\<close>

definition allowed_moves :: "map_data \<Rightarrow> cell_chk \<Rightarrow> int \<Rightarrow> int \<Rightarrow> (int \<times> int \<times> int) list" where
  "allowed_moves m cell x y =
     (let xs = md_xs m - 1; ys = md_ys m - 1;
          north = y < ys \<and> map_getcellp m x (y + 1) cell = 0;
          south = y > 0 \<and> map_getcellp m x (y - 1) cell = 0;
          east = x < xs \<and> map_getcellp m (x + 1) y cell = 0;
          west = x > 0 \<and> map_getcellp m (x - 1) y cell = 0
      in (if south \<and> east \<and> map_getcellp m (x + 1) (y - 1) cell = 0 then [(1, - 1, move_diagonal_cost)] else [])
       @ (if east then [(1, 0, move_cost)] else [])
       @ (if north \<and> east \<and> map_getcellp m (x + 1) (y + 1) cell = 0 then [(1, 1, move_diagonal_cost)] else [])
       @ (if north then [(0, 1, move_cost)] else [])
       @ (if north \<and> west \<and> map_getcellp m (x - 1) (y + 1) cell = 0 then [(- 1, 1, move_diagonal_cost)] else [])
       @ (if west then [(- 1, 0, move_cost)] else [])
       @ (if south \<and> west \<and> map_getcellp m (x - 1) (y - 1) cell = 0 then [(- 1, - 1, move_diagonal_cost)] else [])
       @ (if south then [(0, - 1, move_cost)] else []))"

text \<open>The calls of \<open>add_path\<close> for these moves, adding up the error flags in \<open>e\<close>.\<close>

fun add_moves ::
  "(int \<times> int \<times> int) list \<Rightarrow> int \<Rightarrow> int \<Rightarrow> int \<Rightarrow> int \<Rightarrow> int \<Rightarrow> nat \<Rightarrow> open_set \<times> path_nodes \<Rightarrow> nat
    \<Rightarrow> (open_set \<times> path_nodes) \<times> nat" where
  "add_moves [] x y g x1 y1 cur st e = (st, e)"
| "add_moves ((dx, dy, cost) # ms) x y g x1 y1 cur st e =
     (case add_path st (x + dx) (y + dy) (g + cost) cur (heuristic (x + dx) (y + dy) x1 y1) of
        (st', err) \<Rightarrow> add_moves ms x y g x1 y1 cur st' (e + err))"

text \<open>
  The loop \<open>for(;;)\<close>: the node found with the nodes as they are then, or \<open>None\<close> where the code
  returns false; a search that never ends is the outer \<open>None\<close>.
\<close>

partial_function (option) astar_loop ::
  "map_data \<Rightarrow> cell_chk \<Rightarrow> int \<Rightarrow> int \<Rightarrow> open_set \<times> path_nodes \<Rightarrow> (nat \<times> path_nodes) option option" where
  "astar_loop m cell x1 y1 st =
     (case st of (heap, tp) \<Rightarrow>
        if heap = [] then Some None
        else
          let current = bheap_peek heap;
              heap1 = bheap_pop2 (node_mintopcmp tp) heap;
              x = pn_x (tp ! current); y = pn_y (tp ! current); g_cost = pn_g (tp ! current);
              tp1 = tp[current := (tp ! current)\<lparr>pn_closed := True\<rparr>]
          in if x = x1 \<and> y = y1 then Some (Some (current, tp1))
             else case add_moves (allowed_moves m cell x y) x y g_cost x1 y1 current (heap1, tp1) 0 of
                    (st', e) \<Rightarrow> if e \<noteq> 0 then Some None else astar_loop m cell x1 y1 st')"

definition astar_start :: "int \<Rightarrow> int \<Rightarrow> int \<Rightarrow> int \<Rightarrow> open_set \<times> path_nodes" where
  "astar_start x0 y0 x1 y1 =
     (let blank = \<lparr>pn_parent = None, pn_x = 0, pn_y = 0, pn_g = 0, pn_f = 0, pn_closed = False\<rparr>;
          i = calc_index x0 y0;
          tp = (replicate (max_walkpath * max_walkpath) blank)
                 [i := \<lparr>pn_parent = None, pn_x = x0, pn_y = y0, pn_g = 0,
                        pn_f = to_int16 (heuristic x0 y0 x1 y1), pn_closed = False\<rparr>]
      in (heap_push_node tp [] i, tp))"

text \<open>The loop that counts the steps back to the start.\<close>

partial_function (option) path_length :: "path_nodes \<Rightarrow> nat \<Rightarrow> nat \<Rightarrow> nat option" where
  "path_length tp it len =
     (case pn_parent (tp ! it) of None \<Rightarrow> Some len | Some p \<Rightarrow> path_length tp p (len + 1))"

record walkpath_data =
  wp_len :: nat
  wp_pos :: nat
  wp_path :: "directions list"

definition choose_direction :: "int \<Rightarrow> int \<Rightarrow> directions" where
  "choose_direction dx dy = walk_choices ! nat (- dy + 1) ! nat (dx + 1)"

text \<open>The loop that writes the path, from its last step (\<open>j\<close> steps are left).\<close>

fun recreate_path :: "path_nodes \<Rightarrow> nat \<Rightarrow> nat \<Rightarrow> directions list \<Rightarrow> directions list" where
  "recreate_path tp it 0 path = path"
| "recreate_path tp it (Suc j) path =
     (let p = the (pn_parent (tp ! it));
          dx = pn_x (tp ! it) - pn_x (tp ! p);
          dy = pn_y (tp ! it) - pn_y (tp ! p)
      in recreate_path tp p j (path[j := choose_direction dx dy]))"

section \<open>The easy path\<close>

text \<open>The loop over the path array: the position, the steps written and the path.\<close>

function easy_loop ::
  "map_data \<Rightarrow> cell_chk \<Rightarrow> int \<Rightarrow> int \<Rightarrow> int \<Rightarrow> int \<Rightarrow> int \<Rightarrow> int \<Rightarrow> nat \<Rightarrow> directions list
    \<Rightarrow> int \<times> int \<times> nat \<times> directions list" where
  "easy_loop m cell x1 y1 dx dy x y i path =
     (if i < max_walkpath then
        let path' = path[i := choose_direction dx dy]; i' = i + 1; x' = x + dx; y' = y + dy;
            dx' = (if x' = x1 then 0 else dx); dy' = (if y' = y1 then 0 else dy)
        in if dx' = 0 \<and> dy' = 0 then (x', y', i', path')
           else if map_getcellp m x' y' cell \<noteq> 0 then (x', y', i', path')
           else easy_loop m cell x1 y1 dx' dy' x' y' i' path'
      else (x, y, i, path))"
  by pat_completeness auto
termination
  by (relation "measure (\<lambda>(m, cell, x1, y1, dx, dy, x, y, i, path). max_walkpath - i)") auto

declare easy_loop.simps [simp del]

section \<open>\<open>path_search\<close>\<close>

definition path_search ::
  "walkpath_data \<Rightarrow> map_data \<Rightarrow> int \<Rightarrow> int \<Rightarrow> int \<Rightarrow> int \<Rightarrow> int \<Rightarrow> cell_chk \<Rightarrow> (walkpath_data \<times> bool) option" where
  "path_search wpd m x0 y0 x1 y1 flag cell =
     (if flag AND 2 \<noteq> 0 then
        map_option (\<lambda>r. (wpd, snd r))
          (path_search_long \<lparr>sp_rx = 0, sp_ry = 0, sp_len = 0, sp_x = replicate max_walkpath 0,
                             sp_y = replicate max_walkpath 0\<rparr> m x0 y0 x1 y1 cell)
      else if md_cell m = None then Some (wpd, False)
      else if x0 < 0 \<or> x0 \<ge> md_xs m \<or> y0 < 0 \<or> y0 \<ge> md_ys m then Some (wpd, False)
      else if x1 < 0 \<or> x1 \<ge> md_xs m \<or> y1 < 0 \<or> y1 \<ge> md_ys m \<or> map_getcellp m x1 y1 cell \<noteq> 0
      then Some (wpd, False)
      else if flag AND 1 \<noteq> 0 then
        (case easy_loop m cell x1 y1 (sgn (x1 - x0)) (sgn (y1 - y0)) x0 y0 0 (wp_path wpd) of
           (x, y, i, path) \<Rightarrow>
             if x = x1 \<and> y = y1 then Some (\<lparr>wp_len = i, wp_pos = 0, wp_path = path\<rparr>, True)
             else Some (wpd\<lparr>wp_path := path\<rparr>, False))
      else
        Option.bind (astar_loop m cell x1 y1 (astar_start x0 y0 x1 y1)) (\<lambda>found.
          case found of
            None \<Rightarrow> Some (wpd, False)
          | Some (current, tp) \<Rightarrow>
              Option.bind (path_length tp current 0) (\<lambda>len.
                if len > max_walkpath then Some (wpd, False)
                else Some (\<lparr>wp_len = len, wp_pos = 0, wp_path = recreate_path tp current len (wp_path wpd)\<rparr>, True))))"

declare shoot_loop.simps [code] path_length.simps [code] astar_loop.simps [code]

end
