(* ===== verification/ShotLine.thy ===== *)
theory ShotLine
  imports Path
begin

text \<open>
  The shot line of \<open>path_search_long\<close> against a reference: the cell it is at after \<open>k\<close>
  turns is the straight line's, rounded down, and the shot is possible when no cell strictly
  between the ends is blocked. Since the code starts from the end with the smaller \<open>x\<close>, a shot
  is possible exactly when the shot back is.
\<close>

section \<open>The reference\<close>

text \<open>The ends in the order the code takes them, the number of turns and the cell after \<open>k\<close> turns.\<close>

definition line_ends :: "int \<Rightarrow> int \<Rightarrow> int \<Rightarrow> int \<Rightarrow> int \<times> int \<times> int \<times> int" where
  "line_ends x0 y0 x1 y1 = (if x1 < x0 then (x1, y1, x0, y0) else (x0, y0, x1, y1))"

definition line_steps :: "int \<Rightarrow> int \<Rightarrow> int \<Rightarrow> int \<Rightarrow> nat" where
  "line_steps x0 y0 x1 y1 = nat (max \<bar>x1 - x0\<bar> \<bar>y1 - y0\<bar>)"

definition line_cell :: "int \<Rightarrow> int \<Rightarrow> int \<Rightarrow> int \<Rightarrow> nat \<Rightarrow> int \<times> int" where
  "line_cell x0 y0 x1 y1 k =
     (let w = int (line_steps x0 y0 x1 y1) in
      (x0 + (int k * (x1 - x0)) div w, y0 + (int k * (y1 - y0)) div w))"

definition shot_line :: "int \<Rightarrow> int \<Rightarrow> int \<Rightarrow> int \<Rightarrow> (int \<times> int) list" where
  "shot_line x0 y0 x1 y1 =
     (case line_ends x0 y0 x1 y1 of (a, b, c, d) \<Rightarrow> map (line_cell a b c d) [0..<Suc (line_steps a b c d)])"

text \<open>No cell between the two ends is blocked.\<close>

definition clear_line :: "map_data \<Rightarrow> cell_chk \<Rightarrow> (int \<times> int) list \<Rightarrow> bool" where
  "clear_line m cell cells \<longleftrightarrow> (\<forall>(x, y) \<in> set (butlast (tl cells)). map_getcellp m x y cell = 0)"

definition int16_pos :: "int \<Rightarrow> int \<Rightarrow> bool" where
  "int16_pos x y \<longleftrightarrow> - 32768 \<le> x \<and> x < 32768 \<and> - 32768 \<le> y \<and> y < 32768"

section \<open>One turn\<close>

lemma div_mod_eq:
  fixes a q r w :: int
  assumes "a = w * q + r" "0 \<le> r" "r < w"
  shows "a div w = q" "a mod w = r"
  using int_div_pos_eq [OF assms] int_mod_pos_eq [OF assms] by simp_all

lemma div_mod_up:
  fixes a d w :: int
  assumes "0 \<le> d" "d \<le> w" "0 < w"
  shows "(a + d) mod w = (if a mod w + d \<ge> w then a mod w + d - w else a mod w + d)"
    "(a + d) div w = (if a mod w + d \<ge> w then a div w + 1 else a div w)"
proof -
  have r: "0 \<le> a mod w" "a mod w < w" using assms(3) by simp_all
  have a: "a = w * (a div w) + a mod w" by simp
  have up: "a + d = w * (a div w + 1) + (a mod w + d - w)" using a unfolding distrib_left by linarith
  have stay: "a + d = w * (a div w) + (a mod w + d)" using a by linarith
  show "(a + d) mod w = (if a mod w + d \<ge> w then a mod w + d - w else a mod w + d)"
    using div_mod_eq(2) [OF up] div_mod_eq(2) [OF stay] r assms by simp
  show "(a + d) div w = (if a mod w + d \<ge> w then a div w + 1 else a div w)"
    using div_mod_eq(1) [OF up] div_mod_eq(1) [OF stay] r assms by simp
qed

lemma div_mod_down:
  fixes a d w :: int
  assumes "- w \<le> d" "d < 0" "0 < w"
  shows "(a + d) mod w = (if a mod w + d < 0 then a mod w + d + w else a mod w + d)"
    "(a + d) div w = (if a mod w + d < 0 then a div w - 1 else a div w)"
proof -
  have r: "0 \<le> a mod w" "a mod w < w" using assms(3) by simp_all
  have a: "a = w * (a div w) + a mod w" by simp
  have down: "a + d = w * (a div w - 1) + (a mod w + d + w)" using a unfolding right_diff_distrib by linarith
  have stay: "a + d = w * (a div w) + (a mod w + d)" using a by linarith
  show "(a + d) mod w = (if a mod w + d < 0 then a mod w + d + w else a mod w + d)"
    using div_mod_eq(2) [OF down] div_mod_eq(2) [OF stay] r assms by simp
  show "(a + d) div w = (if a mod w + d < 0 then a div w - 1 else a div w)"
    using div_mod_eq(1) [OF down] div_mod_eq(1) [OF stay] r assms by simp
qed

text \<open>The loop's variables after \<open>k\<close> turns from \<open>(x0, y0)\<close>, with their remainders.\<close>

definition line_state :: "int \<Rightarrow> int \<Rightarrow> int \<Rightarrow> int \<Rightarrow> nat \<Rightarrow> int \<times> int \<times> int \<times> int" where
  "line_state x0 y0 x1 y1 k =
     (let w = int (line_steps x0 y0 x1 y1) in
      ((int k * (x1 - x0)) mod w, (int k * (y1 - y0)) mod w, line_cell x0 y0 x1 y1 k))"

lemma div_between:
  fixes d w :: int
  assumes "\<bar>d\<bar> \<le> w" "0 < w" "int k \<le> w"
  shows "min 0 d \<le> (int k * d) div w" "(int k * d) div w \<le> max 0 d"
proof -
  have "int k * d \<le> max 0 d * w" "min 0 d * w \<le> int k * d"
    using assms mult_mono [of "int k" w d d] mult_mono [of "int k" w "- d" "- d"]
    by (auto simp: min_def max_def mult.commute mult_nonneg_nonpos mult_nonpos_nonneg)
  then show "min 0 d \<le> (int k * d) div w" "(int k * d) div w \<le> max 0 d"
    using assms(2) zdiv_mono1 [of "min 0 d * w" "int k * d" w] zdiv_mono1 [of "int k * d" "max 0 d * w" w] by simp_all
qed

text \<open>The ends as the loop gets them: not decreasing in \<open>x\<close>, and different.\<close>

definition line_from :: "int \<Rightarrow> int \<Rightarrow> int \<Rightarrow> int \<Rightarrow> bool" where
  "line_from x0 y0 x1 y1 \<longleftrightarrow> x0 \<le> x1 \<and> (x0, y0) \<noteq> (x1, y1) \<and> int16_pos x0 y0 \<and> int16_pos x1 y1"

lemma line_weight:
  assumes "line_from x0 y0 x1 y1"
  shows "0 < int (line_steps x0 y0 x1 y1)" "\<bar>x1 - x0\<bar> \<le> int (line_steps x0 y0 x1 y1)"
    "\<bar>y1 - y0\<bar> \<le> int (line_steps x0 y0 x1 y1)"
    "\<bar>x1 - x0\<bar> = int (line_steps x0 y0 x1 y1) \<or> \<bar>y1 - y0\<bar> = int (line_steps x0 y0 x1 y1)"
  using assms by (auto simp: line_from_def line_steps_def)

lemma line_cell_int16:
  assumes "line_from x0 y0 x1 y1" "k \<le> line_steps x0 y0 x1 y1" "line_cell x0 y0 x1 y1 k = (x, y)"
  shows "int16_pos x y"
proof -
  let ?w = "int (line_steps x0 y0 x1 y1)"
  note w = line_weight [OF assms(1)]
  have k: "int k \<le> ?w" using assms(2) by simp
  have "x = x0 + (int k * (x1 - x0)) div ?w" "y = y0 + (int k * (y1 - y0)) div ?w"
    using assms(3) by (simp_all add: line_cell_def Let_def)
  with div_between [OF w(2) w(1) k] div_between [OF w(3) w(1) k] show ?thesis
    using assms(1) by (auto simp: line_from_def int16_pos_def min_def max_def split: if_splits)
qed

lemma line_step:
  assumes l: "line_from x0 y0 x1 y1" and k: "Suc k \<le> line_steps x0 y0 x1 y1"
  shows "shoot_move (x1 - x0) (y1 - y0) (int (line_steps x0 y0 x1 y1)) (line_state x0 y0 x1 y1 k) =
    line_state x0 y0 x1 y1 (Suc k)"
proof -
  define w where "w = int (line_steps x0 y0 x1 y1)"
  define a where "a = int k * (x1 - x0)"
  define b where "b = int k * (y1 - y0)"
  note weight = line_weight [OF l, folded w_def]
  have dx: "0 \<le> x1 - x0" using l by (simp add: line_from_def)
  have now: "line_cell x0 y0 x1 y1 k = (x0 + a div w, y0 + b div w)"
    by (simp add: line_cell_def w_def a_def b_def Let_def)
  have nxt: "line_cell x0 y0 x1 y1 (Suc k) = (x0 + (a + (x1 - x0)) div w, y0 + (b + (y1 - y0)) div w)"
    by (simp add: line_cell_def w_def a_def b_def Let_def algebra_simps)
  have state: "line_state x0 y0 x1 y1 k = (a mod w, b mod w, x0 + a div w, y0 + b div w)"
    "line_state x0 y0 x1 y1 (Suc k) = ((a + (x1 - x0)) mod w, (b + (y1 - y0)) mod w,
       x0 + (a + (x1 - x0)) div w, y0 + (b + (y1 - y0)) div w)"
    by (simp_all add: line_state_def now nxt Let_def) (simp_all add: w_def a_def b_def algebra_simps)
  have range: "int16_pos (x0 + (a + (x1 - x0)) div w) (y0 + (b + (y1 - y0)) div w)"
    by (rule line_cell_int16 [OF l k nxt])
  note x = div_mod_up [OF dx _ weight(1), of a]
  have wrap: "to_int16 (x0 + (a + (x1 - x0)) div w) = x0 + (a + (x1 - x0)) div w"
    "to_int16 (y0 + (b + (y1 - y0)) div w) = y0 + (b + (y1 - y0)) div w"
    using range by (simp_all add: int16_pos_def to_int16_id)
  have mx: "(if a mod w + (x1 - x0) \<ge> w then (a mod w + (x1 - x0) - w, to_int16 (x0 + a div w + 1))
             else (a mod w + (x1 - x0), x0 + a div w)) =
        ((a + (x1 - x0)) mod w, x0 + (a + (x1 - x0)) div w)"
    using x weight(2) wrap(1) by (auto simp: add.assoc)
  have my: "(if b mod w + (y1 - y0) \<ge> w then (b mod w + (y1 - y0) - w, to_int16 (y0 + b div w + 1))
             else if b mod w + (y1 - y0) < 0 then (b mod w + (y1 - y0) + w, to_int16 (y0 + b div w - 1))
             else (b mod w + (y1 - y0), y0 + b div w)) =
        ((b + (y1 - y0)) mod w, y0 + (b + (y1 - y0)) div w)"
  proof (cases "0 \<le> y1 - y0")
    case True
    moreover have "0 \<le> b mod w" using weight(1) by simp
    ultimately show ?thesis using div_mod_up [OF True _ weight(1), of b] weight(3) wrap(2) by (auto simp: add.assoc)
  next
    case False
    moreover have "\<not> w \<le> b mod w + (y1 - y0)" using False pos_mod_bound [OF weight(1), of b] by linarith
    ultimately show ?thesis using div_mod_down [of w "y1 - y0" b] weight(1,3) wrap(2)
      by (auto simp: add_diff_eq [symmetric] simp del: add_diff_eq)
  qed
  show ?thesis
    by (simp only: state shoot_move_def prod.case Let_def mx my w_def [symmetric])
qed

lemma div_full:
  fixes a d w :: int
  assumes "\<bar>d\<bar> = w" "0 < w"
  shows "(a * d) div w = a * sgn d"
proof -
  have "d = sgn d * w" using assms(1) by (metis abs_sgn mult.commute sgn_mult_abs)
  then have eq: "a * d = a * sgn d * w" by (metis mult.assoc)
  have "(a * sgn d * w) div w = a * sgn d" using assms(2) by simp
  then show ?thesis by (simp only: eq)
qed

lemma line_ends_reached:
  assumes l: "line_from x0 y0 x1 y1" and k: "k \<le> line_steps x0 y0 x1 y1"
  shows "line_cell x0 y0 x1 y1 k = (x1, y1) \<longleftrightarrow> k = line_steps x0 y0 x1 y1"
proof -
  let ?w = "int (line_steps x0 y0 x1 y1)"
  note w = line_weight [OF l]
  note full = div_full [OF _ w(1)]
  show ?thesis
  proof
    assume "k = line_steps x0 y0 x1 y1"
    then show "line_cell x0 y0 x1 y1 k = (x1, y1)" using w(1) by (simp add: line_cell_def Let_def)
  next
    assume c: "line_cell x0 y0 x1 y1 k = (x1, y1)"
    then have "(int k * (x1 - x0)) div ?w = x1 - x0" "(int k * (y1 - y0)) div ?w = y1 - y0"
      by (auto simp: line_cell_def Let_def)
    with w(4) full [of "x1 - x0"] full [of "y1 - y0"]
    have "int k * sgn (x1 - x0) = x1 - x0 \<and> \<bar>x1 - x0\<bar> = ?w \<or> int k * sgn (y1 - y0) = y1 - y0 \<and> \<bar>y1 - y0\<bar> = ?w"
      by auto
    then have "int k = ?w" using w(1) by (auto simp: sgn_if split: if_splits)
    then show "k = line_steps x0 y0 x1 y1" by simp
  qed
qed

section \<open>The loop\<close>

text \<open>After \<open>k\<close> turns the structure holds the cells so far, as many as its arrays take.\<close>

definition line_recorded :: "(nat \<Rightarrow> int \<times> int) \<Rightarrow> nat \<Rightarrow> shootpath_data \<Rightarrow> bool" where
  "line_recorded c k spd \<longleftrightarrow>
     sp_len spd = min max_walkpath (Suc k) \<and> length (sp_x spd) = max_walkpath \<and> length (sp_y spd) = max_walkpath \<and>
     (\<forall>j < sp_len spd. (sp_x spd ! j, sp_y spd ! j) = c j)"

lemma line_recorded_step:
  assumes "line_recorded c k spd" "c (Suc k) = (x, y)"
  shows "line_recorded c (Suc k) (shoot_record x y spd)"
  using assms by (auto simp: line_recorded_def shoot_record_def nth_list_update min_def less_Suc_eq split: if_splits)

lemma shoot_loop_line:
  assumes l: "line_from x0 y0 x1 y1"
  shows "k \<le> line_steps x0 y0 x1 y1 \<Longrightarrow> line_recorded (line_cell x0 y0 x1 y1) k spd \<Longrightarrow>
    \<exists>spd' n. shoot_loop m cell (x1 - x0) (y1 - y0) (int (line_steps x0 y0 x1 y1)) x1 y1 (line_state x0 y0 x1 y1 k) spd
        = Some (spd', n = line_steps x0 y0 x1 y1) \<and>
      line_recorded (line_cell x0 y0 x1 y1) n spd' \<and> k \<le> n \<and> n \<le> line_steps x0 y0 x1 y1 \<and>
      (\<forall>j. k < j \<and> j < n \<longrightarrow> case_prod (map_getcellp m) (line_cell x0 y0 x1 y1 j) cell = 0) \<and>
      (n < line_steps x0 y0 x1 y1 \<longrightarrow> k < n \<and> case_prod (map_getcellp m) (line_cell x0 y0 x1 y1 n) cell \<noteq> 0)"
proof (induction "line_steps x0 y0 x1 y1 - k" arbitrary: k spd)
  case 0
  then have k: "k = line_steps x0 y0 x1 y1" by simp
  then have "line_cell x0 y0 x1 y1 k = (x1, y1)" using line_ends_reached [OF l, of k] by simp
  with 0 k show ?case
    by (intro exI [of _ spd] exI [of _ k]) (simp add: shoot_loop.simps line_state_def Let_def)
next
  case (Suc r)
  let ?w = "line_steps x0 y0 x1 y1" and ?c = "line_cell x0 y0 x1 y1"
  let ?loop = "shoot_loop m cell (x1 - x0) (y1 - y0) (int ?w) x1 y1"
  have k: "Suc k \<le> ?w" "k \<noteq> ?w" using Suc.hyps(2) by linarith+
  obtain a b x y where now: "line_state x0 y0 x1 y1 k = (a, b, x, y)" "?c k = (x, y)"
    by (cases "?c k") (simp add: line_state_def Let_def)
  obtain a' b' x' y' where nxt: "line_state x0 y0 x1 y1 (Suc k) = (a', b', x', y')" "?c (Suc k) = (x', y')"
    by (cases "?c (Suc k)") (simp add: line_state_def Let_def)
  have go: "x \<noteq> x1 \<or> y \<noteq> y1" using line_ends_reached [OF l, of k] k now(2) by auto
  have rec: "line_recorded ?c (Suc k) (shoot_record x' y' spd)"
    by (rule line_recorded_step [OF Suc.prems(2) nxt(2)])
  have unfold: "?loop (line_state x0 y0 x1 y1 k) spd =
      (if (x' \<noteq> x1 \<or> y' \<noteq> y1) \<and> map_getcellp m x' y' cell \<noteq> 0 then Some (shoot_record x' y' spd, False)
       else ?loop (line_state x0 y0 x1 y1 (Suc k)) (shoot_record x' y' spd))"
    using line_step [OF l k(1)] go by (simp add: shoot_loop.simps [of m cell _ _ _ _ _ "(a, b, x, y)"] now nxt)
  show ?case
  proof (cases "(x' \<noteq> x1 \<or> y' \<noteq> y1) \<and> map_getcellp m x' y' cell \<noteq> 0")
    case True
    then have "Suc k \<noteq> ?w" using line_ends_reached [OF l k(1)] nxt(2) by auto
    with True k rec nxt(2) show ?thesis unfolding unfold
      by (intro exI [of _ "shoot_record x' y' spd"] exI [of _ "Suc k"]) auto
  next
    case False
    have "r = ?w - Suc k" using Suc.hyps(2) by linarith
    from Suc.hyps(1) [OF this k(1) rec] obtain spd' n where ih:
      "?loop (line_state x0 y0 x1 y1 (Suc k)) (shoot_record x' y' spd) = Some (spd', n = ?w)"
      "line_recorded ?c n spd'" "Suc k \<le> n" "n \<le> ?w"
      "\<forall>j. Suc k < j \<and> j < n \<longrightarrow> case_prod (map_getcellp m) (?c j) cell = 0"
      "n < ?w \<longrightarrow> Suc k < n \<and> case_prod (map_getcellp m) (?c n) cell \<noteq> 0" by blast
    have free: "case_prod (map_getcellp m) (?c (Suc k)) cell = 0" if "Suc k < n"
    proof -
      have "Suc k \<noteq> ?w" using that ih(4) by simp
      with False line_ends_reached [OF l k(1)] nxt(2) show ?thesis by auto
    qed
    have "case_prod (map_getcellp m) (?c j) cell = 0" if "k < j" "j < n" for j
      using that free ih(5) by (cases "j = Suc k") auto
    with ih False show ?thesis unfolding unfold by (intro exI [of _ spd'] exI [of _ n]) auto
  qed
qed

section \<open>The search\<close>

lemma clear_line_map:
  "clear_line m cell (map c [0..<Suc w]) \<longleftrightarrow> (\<forall>j. 0 < j \<and> j < w \<longrightarrow> case_prod (map_getcellp m) (c j) cell = 0)"
proof -
  have "tl [0..<Suc w] = [Suc 0..<Suc w]" by (simp only: upt_rec [of 0 "Suc w"]) simp
  then have "tl (map c [0..<Suc w]) = map c [Suc 0..<Suc w]" by (simp only: map_tl [symmetric])
  then have "butlast (tl (map c [0..<Suc w])) = map c [Suc 0..<w]"
    by (cases w) (simp_all add: map_butlast [symmetric])
  then show ?thesis by (auto simp: clear_line_def Suc_le_eq case_prod_beta)
qed

lemma search_long_spot:
  assumes "md_cell m \<noteq> None"
  shows "path_search_long spd m x y x y cell =
    Some (spd\<lparr>sp_rx := 1, sp_ry := 0, sp_len := 1, sp_x := (sp_x spd)[0 := x], sp_y := (sp_y spd)[0 := y]\<rparr>, True)"
  using assms by (simp add: path_search_long_def shoot_loop.simps)

lemma line_ends_from:
  assumes "int16_pos x0 y0" "int16_pos x1 y1" "(x0, y0) \<noteq> (x1, y1)" "line_ends x0 y0 x1 y1 = (a, b, c, d)"
  shows "line_from a b c d" "line_steps a b c d = line_steps x0 y0 x1 y1"
  using assms by (auto simp: line_ends_def line_from_def line_steps_def split: if_splits)

lemma search_long_loop:
  assumes m: "md_cell m \<noteq> None"
    and pos: "int16_pos x0 y0" "int16_pos x1 y1" "(x0, y0) \<noteq> (x1, y1)"
    and len: "length (sp_x spd) = max_walkpath" "length (sp_y spd) = max_walkpath"
    and e: "line_ends x0 y0 x1 y1 = (a, b, c, d)"
  shows "\<exists>spd'. path_search_long spd m x0 y0 x1 y1 cell =
      shoot_loop m cell (c - a) (d - b) (int (line_steps a b c d)) c d (line_state a b c d 0) spd' \<and>
    line_recorded (line_cell a b c d) 0 spd'"
proof -
  have from_ab: "line_from a b c d" by (rule line_ends_from(1) [OF pos e])
  have dx: "\<bar>x1 - x0\<bar> = c - a" and swap: "(if x1 - x0 < 0 then (x1, y1, x0, y0) else (x0, y0, x1, y1)) = (a, b, c, d)"
    using e by (auto simp: line_ends_def split: if_splits)
  have start: "line_state a b c d 0 = (0, 0, a, b)" by (simp add: line_state_def line_cell_def Let_def)
  let ?s = "spd\<lparr>sp_rx := 0, sp_ry := 0, sp_len := 1, sp_x := (sp_x spd)[0 := a], sp_y := (sp_y spd)[0 := b]\<rparr>"
  let ?t = "if c - a > \<bar>d - b\<bar> then ?s\<lparr>sp_ry := 1\<rparr> else ?s\<lparr>sp_rx := 1\<rparr>"
  have w: "(if c - a > \<bar>d - b\<bar> then c - a else \<bar>d - b\<bar>) = int (line_steps a b c d)"
    using from_ab by (auto simp: line_steps_def line_from_def)
  have "path_search_long spd m x0 y0 x1 y1 cell =
      shoot_loop m cell (c - a) (d - b) (if c - a > \<bar>d - b\<bar> then c - a else \<bar>d - b\<bar>) c d (0, 0, a, b) ?t"
    using m unfolding path_search_long_def swap dx by (simp add: Let_def del: not_None_eq)
  moreover have "line_recorded (line_cell a b c d) 0 ?t"
    using len by (auto simp: line_recorded_def line_cell_def max_walkpath_def Let_def)
  ultimately show ?thesis unfolding w start by blast
qed

text \<open>C20: the shot line is the straight line. For any two cells, \<open>path_search_long\<close> returns, and it
  returns true exactly when no cell of the reference line strictly between the two ends is blocked
  (the ends themselves are never looked at); the cells it writes are the first cells of that line, all of them up to
  the 32 of its arrays when the shot is possible.
\<close>

theorem shot_line_exact:
  assumes "md_cell m \<noteq> None" "int16_pos x0 y0" "int16_pos x1 y1"
    and "length (sp_x spd) = max_walkpath" "length (sp_y spd) = max_walkpath"
  shows "\<exists>spd'. path_search_long spd m x0 y0 x1 y1 cell = Some (spd', clear_line m cell (shot_line x0 y0 x1 y1)) \<and>
    take (sp_len spd') (zip (sp_x spd') (sp_y spd')) = take (sp_len spd') (shot_line x0 y0 x1 y1) \<and>
    sp_len spd' \<le> length (shot_line x0 y0 x1 y1) \<and>
    (clear_line m cell (shot_line x0 y0 x1 y1) \<longrightarrow>
       sp_len spd' = min max_walkpath (length (shot_line x0 y0 x1 y1)))"
proof (cases "(x0, y0) = (x1, y1)")
  case True
  then have "shot_line x0 y0 x1 y1 = [(x0, y0)]"
    by (simp add: shot_line_def line_ends_def line_steps_def line_cell_def)
  moreover have "take 1 (zip ((sp_x spd)[0 := x0]) ((sp_y spd)[0 := y0])) = [(x0, y0)]"
    using assms(4,5) by (cases "sp_x spd"; cases "sp_y spd") (simp_all add: max_walkpath_def)
  ultimately show ?thesis using True assms(1)
    by (intro exI [of _ "spd\<lparr>sp_rx := 1, sp_ry := 0, sp_len := 1, sp_x := (sp_x spd)[0 := x0], sp_y := (sp_y spd)[0 := y0]\<rparr>"])
      (simp add: search_long_spot clear_line_def max_walkpath_def)
next
  case False
  obtain a b c d where e: "line_ends x0 y0 x1 y1 = (a, b, c, d)" by (cases "line_ends x0 y0 x1 y1")
  note l = line_ends_from [OF assms(2,3) False e]
  let ?w = "line_steps a b c d" and ?c = "line_cell a b c d"
  obtain spd0 where s: "path_search_long spd m x0 y0 x1 y1 cell =
      shoot_loop m cell (c - a) (d - b) (int ?w) c d (line_state a b c d 0) spd0" "line_recorded ?c 0 spd0"
    using search_long_loop [OF assms(1-3) False assms(4,5) e] by blast
  obtain spd' n where r: "path_search_long spd m x0 y0 x1 y1 cell = Some (spd', n = ?w)"
    "line_recorded ?c n spd'" "n \<le> ?w" "\<forall>j. 0 < j \<and> j < n \<longrightarrow> case_prod (map_getcellp m) (?c j) cell = 0"
    "n < ?w \<longrightarrow> 0 < n \<and> case_prod (map_getcellp m) (?c n) cell \<noteq> 0"
    using shoot_loop_line [OF l(1) _ s(2), of m cell] s(1) by auto
  have line: "shot_line x0 y0 x1 y1 = map ?c [0..<Suc ?w]" by (simp add: shot_line_def e)
  have ok: "(n = ?w) = clear_line m cell (shot_line x0 y0 x1 y1)"
    unfolding line clear_line_map using r(3-5) by (cases "n = ?w") auto
  have len: "sp_len spd' = min max_walkpath (Suc n)" "length (sp_x spd') = max_walkpath" "length (sp_y spd') = max_walkpath"
    "\<forall>j < sp_len spd'. (sp_x spd' ! j, sp_y spd' ! j) = ?c j"
    using r(2) by (simp_all add: line_recorded_def)
  have "take (sp_len spd') (zip (sp_x spd') (sp_y spd')) = take (sp_len spd') (shot_line x0 y0 x1 y1)"
    using len r(3) by (intro nth_equalityI) (auto simp: line simp del: upt_Suc)
  with r(1,3) len(1) ok show ?thesis by (intro exI [of _ spd']) (auto simp: line simp del: upt_Suc)
qed

section \<open>Both ways\<close>

lemma clear_lineI:
  assumes "line_ends x0 y0 x1 y1 = (a, b, c, d)"
  shows "clear_line m cell (shot_line x0 y0 x1 y1) \<longleftrightarrow>
    (\<forall>j. 0 < j \<and> j < line_steps a b c d \<longrightarrow> case_prod (map_getcellp m) (line_cell a b c d j) cell = 0)"
  unfolding clear_line_map [symmetric] by (simp add: shot_line_def assms)

lemma upright_cell:
  assumes "k \<le> line_steps x y0 x y1"
  shows "line_cell x y0 x y1 k = line_cell x y1 x y0 (line_steps x y0 x y1 - k)"
proof -
  have w: "line_steps x y1 x y0 = line_steps x y0 x y1" by (simp add: line_steps_def abs_minus_commute)
  show ?thesis
  proof (cases "y0 = y1")
    case True
    then show ?thesis using assms by (simp add: line_steps_def)
  next
    case False
    then have pos: "0 < int (line_steps x y0 x y1)" by (simp add: line_steps_def)
    have size: "\<bar>y1 - y0\<bar> = int (line_steps x y0 x y1)" "\<bar>y0 - y1\<bar> = int (line_steps x y0 x y1)"
      by (simp_all add: line_steps_def)
    have "y0 + int k * sgn (y1 - y0) = y1 + int (line_steps x y0 x y1 - k) * sgn (y0 - y1)"
      using assms size by (auto simp: of_nat_diff sgn_if algebra_simps)
    then show ?thesis
      unfolding line_cell_def w Let_def div_full [OF size(1) pos] div_full [OF size(2) pos] by simp
  qed
qed

lemma clear_line_back: "clear_line m cell (shot_line x0 y0 x1 y1) \<longleftrightarrow> clear_line m cell (shot_line x1 y1 x0 y0)"
proof -
  have swapped: "clear_line m cell (shot_line x s x t)" if "clear_line m cell (shot_line x t x s)" for x s t
  proof -
    have w: "line_steps x s x t = line_steps x t x s" by (simp add: line_steps_def abs_minus_commute)
    note cl = clear_lineI [of x _ x _ x _ x _ m cell]
    have "case_prod (map_getcellp m) (line_cell x s x t j) cell = 0" if "0 < j" "j < line_steps x s x t" for j
    proof -
      have "line_cell x s x t j = line_cell x t x s (line_steps x s x t - j)" by (rule upright_cell) (use that in simp)
      moreover have "0 < line_steps x s x t - j" "line_steps x s x t - j < line_steps x t x s" using that w by simp_all
      ultimately show ?thesis
        using \<open>clear_line m cell (shot_line x t x s)\<close> cl [of t s t s] by (simp add: line_ends_def)
    qed
    then show ?thesis using cl [of s t s t] by (simp add: line_ends_def)
  qed
  consider "x0 < x1" | "x1 < x0" | "x0 = x1" by linarith
  then show ?thesis
  proof cases
    case 3
    with swapped show ?thesis by blast
  qed (simp_all add: shot_line_def line_ends_def)
qed

text \<open>A shot is possible one way when it is possible the other way. For any two cells the result of
  \<open>path_search_long\<close> is the same with its ends exchanged, whatever the map is and whatever is
  checked of its cells: since the code always walks the line from the end with the smaller \<open>x\<close>, two units
  see each other or neither sees the other.
\<close>

theorem shot_both_ways:
  assumes "md_cell m \<noteq> None" "int16_pos x0 y0" "int16_pos x1 y1"
    and "length (sp_x spd) = max_walkpath" "length (sp_y spd) = max_walkpath"
  shows "map_option snd (path_search_long spd m x0 y0 x1 y1 cell) =
      map_option snd (path_search_long spd m x1 y1 x0 y0 cell) \<and>
    path_search_long spd m x0 y0 x1 y1 cell \<noteq> None"
  using shot_line_exact [OF assms] shot_line_exact [OF assms(1,3,2,4,5), of cell]
    clear_line_back [of m cell x0 y0 x1 y1] by fastforce

section \<open>Examples\<close>

definition sample_ground :: mapcell where
  "sample_ground = \<lparr>walkable = True, shootable = True, water = False, mc_npc = False, basilica = False,
     landprotector = False, novending = False, nochat = False, maelstrom = False, icewall = False,
     nobuyingstore = False\<rparr>"

text \<open>Four by four cells with a wall at (1, 1).\<close>

definition sample_map :: map_data where
  "sample_map =
     \<lparr>md_cell = Some ((replicate 16 sample_ground)[5 := sample_ground\<lparr>walkable := False, shootable := False\<rparr>]),
      md_xs = 4, md_ys = 4\<rparr>"

definition sample_shot :: shootpath_data where
  "sample_shot = \<lparr>sp_rx = 0, sp_ry = 0, sp_len = 0, sp_x = replicate max_walkpath 0, sp_y = replicate max_walkpath 0\<rparr>"

lemma sample_shot_ok: "md_cell sample_map \<noteq> None" "length (sp_x sample_shot) = max_walkpath"
  "length (sp_y sample_shot) = max_walkpath"
  by (simp_all add: sample_map_def sample_shot_def)

lemma sample_blocked: "\<not> clear_line sample_map CELL_CHKWALL (shot_line 0 0 2 2)"
  by code_simp

lemma shot_line_exact_witness:
  "\<exists>spd'. path_search_long sample_shot sample_map 0 0 2 2 CELL_CHKWALL = Some (spd', False) \<and>
     take (sp_len spd') (zip (sp_x spd') (sp_y spd')) = take (sp_len spd') (shot_line 0 0 2 2)"
  using shot_line_exact [OF sample_shot_ok(1) _ _ sample_shot_ok(2,3), of 0 0 2 2 CELL_CHKWALL] sample_blocked
  by (auto simp: int16_pos_def)

lemma shot_both_ways_witness:
  "map_option snd (path_search_long sample_shot sample_map 0 1 2 2 CELL_CHKWALL) =
     map_option snd (path_search_long sample_shot sample_map 2 2 0 1 CELL_CHKWALL)"
  using shot_both_ways [OF sample_shot_ok(1) _ _ sample_shot_ok(2,3), of 0 1 2 2 CELL_CHKWALL]
  by (simp add: int16_pos_def)

end
