(* ===== verification/Route.thy ===== *)
theory Route
  imports ShotLine
begin

text \<open>
  The A* search of \<open>path_search\<close> against a specification of walking: a walk takes legal
  steps, which enter a cell that is not blocked and, when they are diagonal, do not cut the corner of a
  blocked one. The invariant of the search is about the array \<open>tp\<close>, in which the cells share
  1024 places, and the open set; a measure over the array shows that the search ends.
\<close>

section \<open>Walking\<close>

definition in_map :: "map_data \<Rightarrow> int \<times> int \<Rightarrow> bool" where
  "in_map m = (\<lambda>(x, y). 0 \<le> x \<and> x < md_xs m \<and> 0 \<le> y \<and> y < md_ys m)"

definition free_cell :: "map_data \<Rightarrow> cell_chk \<Rightarrow> int \<times> int \<Rightarrow> bool" where
  "free_cell m cell = (\<lambda>(x, y). in_map m (x, y) \<and> map_getcellp m x y cell = 0)"

definition legal_step :: "map_data \<Rightarrow> cell_chk \<Rightarrow> int \<times> int \<Rightarrow> int \<times> int \<Rightarrow> bool" where
  "legal_step m cell = (\<lambda>(x, y) (x', y').
     (x', y') \<noteq> (x, y) \<and> \<bar>x' - x\<bar> \<le> 1 \<and> \<bar>y' - y\<bar> \<le> 1 \<and> free_cell m cell (x', y') \<and>
     (x' \<noteq> x \<and> y' \<noteq> y \<longrightarrow> free_cell m cell (x', y) \<and> free_cell m cell (x, y')))"

text \<open>A unit that follows the directions with \<open>dirx\<close> and \<open>diry\<close>.\<close>

fun walks :: "map_data \<Rightarrow> cell_chk \<Rightarrow> int \<times> int \<Rightarrow> directions list \<Rightarrow> int \<times> int \<Rightarrow> bool" where
  "walks m cell p [] q \<longleftrightarrow> p = q"
| "walks m cell p (d # ds) q \<longleftrightarrow>
     0 \<le> direction_value d \<and> direction_value d < 8 \<and>
     (let p' = (fst p + dirx ! nat (direction_value d), snd p + diry ! nat (direction_value d)) in
      legal_step m cell p p' \<and> walks m cell p' ds q)"

lemma walks_append: "walks m cell p (ds @ es) q \<longleftrightarrow> (\<exists>r. walks m cell p ds r \<and> walks m cell r es q)"
  by (induction ds arbitrary: p) (auto simp: Let_def)

lemma choose_direction_step:
  assumes "\<bar>dx\<bar> \<le> 1" "\<bar>dy\<bar> \<le> 1" "(dx, dy) \<noteq> (0, 0)"
  shows "0 \<le> direction_value (choose_direction dx dy)" "direction_value (choose_direction dx dy) < 8"
    "dirx ! nat (direction_value (choose_direction dx dy)) = dx"
    "diry ! nat (direction_value (choose_direction dx dy)) = dy"
proof -
  have dx: "dx = - 1 \<or> dx = 0 \<or> dx = 1" and dy: "dy = - 1 \<or> dy = 0 \<or> dy = 1" using assms(1,2) by linarith+
  have "0 \<le> direction_value (choose_direction dx dy) \<and> direction_value (choose_direction dx dy) < 8 \<and>
      dirx ! nat (direction_value (choose_direction dx dy)) = dx \<and>
      diry ! nat (direction_value (choose_direction dx dy)) = dy"
    using dx dy assms(3) by (elim disjE) (simp_all add: choose_direction_def walk_choices_def dirx_def diry_def)
  then show "0 \<le> direction_value (choose_direction dx dy)" "direction_value (choose_direction dx dy) < 8"
    "dirx ! nat (direction_value (choose_direction dx dy)) = dx"
    "diry ! nat (direction_value (choose_direction dx dy)) = dy" by blast+
qed

lemma walks_step:
  assumes "legal_step m cell (x, y) (x', y')"
  shows "walks m cell (x, y) [choose_direction (x' - x) (y' - y)] (x', y')"
proof -
  have "\<bar>x' - x\<bar> \<le> 1" "\<bar>y' - y\<bar> \<le> 1" "(x' - x, y' - y) \<noteq> (0, 0)" using assms by (auto simp: legal_step_def)
  from choose_direction_step [OF this] assms show ?thesis by simp
qed

text \<open>The moves the code tries are the legal steps, with their costs.\<close>

definition step_cost :: "int \<Rightarrow> int \<Rightarrow> int" where
  "step_cost dx dy = (if dx \<noteq> 0 \<and> dy \<noteq> 0 then move_diagonal_cost else move_cost)"

lemma allowed_moves_legal:
  assumes "in_map m (x, y)"
  shows "(dx, dy, c) \<in> set (allowed_moves m cell x y) \<longleftrightarrow>
    legal_step m cell (x, y) (x + dx, y + dy) \<and> c = step_cost dx dy"
proof -
  have "\<bar>dx\<bar> \<le> 1 \<and> \<bar>dy\<bar> \<le> 1 \<and> (dx, dy) \<noteq> (0, 0)" if "legal_step m cell (x, y) (x + dx, y + dy)"
    using that by (auto simp: legal_step_def)
  then have dirs: "(dx = - 1 \<or> dx = 0 \<or> dx = 1) \<and> (dy = - 1 \<or> dy = 0 \<or> dy = 1) \<and> (dx, dy) \<noteq> (0, 0)"
    if "legal_step m cell (x, y) (x + dx, y + dy)" using that by fastforce
  show ?thesis
  proof
    assume "(dx, dy, c) \<in> set (allowed_moves m cell x y)"
    with assms show "legal_step m cell (x, y) (x + dx, y + dy) \<and> c = step_cost dx dy"
      by (auto simp: allowed_moves_def legal_step_def free_cell_def in_map_def step_cost_def Let_def split: if_splits)
  next
    assume l: "legal_step m cell (x, y) (x + dx, y + dy) \<and> c = step_cost dx dy"
    with dirs have "(dx = - 1 \<or> dx = 0 \<or> dx = 1)" "(dy = - 1 \<or> dy = 0 \<or> dy = 1)" "(dx, dy) \<noteq> (0, 0)" by auto
    with l assms show "(dx, dy, c) \<in> set (allowed_moves m cell x y)"
      by (elim disjE) (simp_all add: allowed_moves_def legal_step_def free_cell_def in_map_def step_cost_def Let_def)
  qed
qed

section \<open>Places in the array\<close>

lemma calc_index_mod: "calc_index x y = nat ((x + y * 32) mod 1024)"
proof -
  have "(x + y * 32) AND 1023 = take_bit 10 (x + y * 32)" by (simp add: take_bit_eq_mask mask_eq_exp_minus_1)
  then show ?thesis by (simp add: calc_index_def max_walkpath_def take_bit_eq_mod)
qed

lemma calc_index_less: "calc_index x y < 1024"
  by (simp add: calc_index_mod nat_less_iff)

text \<open>Within 32 by 32 cells every cell has its own place.\<close>

lemma calc_index_inj:
  assumes "0 \<le> x" "x < 32" "0 \<le> y" "y < 32" "0 \<le> x'" "x' < 32" "0 \<le> y'" "y' < 32"
    and "calc_index x y = calc_index x' y'"
  shows "x = x' \<and> y = y'"
proof -
  have "(x + y * 32) mod 1024 = x + y * 32" "(x' + y' * 32) mod 1024 = x' + y' * 32" using assms(1-8) by simp_all
  with assms(1,3,5,7,9) have eq: "x + y * 32 = x' + y' * 32" by (simp add: calc_index_mod)
  then have "y = y'" using assms(1,2,5,6) by presburger
  with eq show ?thesis by simp
qed

definition place_used :: "path_nodes \<Rightarrow> nat \<Rightarrow> bool" where
  "place_used tp i \<longleftrightarrow> i < 1024 \<and> (pn_x (tp ! i), pn_y (tp ! i)) \<noteq> (0, 0)"

definition node_pos :: "path_nodes \<Rightarrow> nat \<Rightarrow> int \<times> int" where
  "node_pos tp i = (pn_x (tp ! i), pn_y (tp ! i))"

section \<open>The invariant\<close>

text \<open>
  A used place holds the cell it is for, with what the search knows of it: the start has no parent and
  no cost; any other node was reached by a legal step from its parent, at a higher cost.
  No cost is above the dearest step for every other used place.
\<close>

definition node_ok :: "map_data \<Rightarrow> cell_chk \<Rightarrow> int \<times> int \<Rightarrow> path_nodes \<Rightarrow> nat \<Rightarrow> bool" where
  "node_ok m cell start tp i \<longleftrightarrow>
     in_map m (node_pos tp i) \<and> calc_index (pn_x (tp ! i)) (pn_y (tp ! i)) = i \<and> 0 \<le> pn_g (tp ! i) \<and>
     (case pn_parent (tp ! i) of
        None \<Rightarrow> node_pos tp i = start
      | Some p \<Rightarrow> place_used tp p \<and> legal_step m cell (node_pos tp p) (node_pos tp i) \<and>
                  pn_g (tp ! p) + move_cost \<le> pn_g (tp ! i))"

definition used_places :: "path_nodes \<Rightarrow> nat set" where
  "used_places tp = {i. place_used tp i}"

definition nodes_ok :: "map_data \<Rightarrow> cell_chk \<Rightarrow> int \<times> int \<Rightarrow> path_nodes \<Rightarrow> bool" where
  "nodes_ok m cell start tp \<longleftrightarrow>
     length tp = 1024 \<and>
     (\<forall>i. place_used tp i \<longrightarrow> node_ok m cell start tp i \<and> pn_g (tp ! i) + 14 \<le> 14 * int (card (used_places tp))) \<and>
     (\<forall>i < 1024. \<not> place_used tp i \<longrightarrow> pn_g (tp ! i) = 0) \<and>
     (\<exists>s. place_used tp s \<and> node_pos tp s = start \<and> pn_g (tp ! s) = 0)"

definition open_ok :: "open_set \<Rightarrow> path_nodes \<Rightarrow> bool" where
  "open_ok heap tp \<longleftrightarrow> distinct heap \<and> set heap = {i. place_used tp i \<and> \<not> pn_closed (tp ! i)}"

text \<open>What the search still has to do: open nodes, costs that can get lower, unused places.\<close>

definition place_work :: "path_node \<Rightarrow> nat" where
  "place_work n =
     (if (pn_x n, pn_y n) = (0, 0) then 30000 else 2 * nat (pn_g n) + (if pn_closed n then 0 else 1))"

definition search_work :: "path_nodes \<Rightarrow> nat" where
  "search_work tp = (\<Sum>i < 1024. place_work (tp ! i))"

lemma used_places_finite: "finite (used_places tp)" "card (used_places tp) \<le> 1024"
proof -
  have sub: "used_places tp \<subseteq> {..<1024}" by (auto simp: used_places_def place_used_def)
  then show "finite (used_places tp)" by (rule finite_subset) simp
  show "card (used_places tp) \<le> 1024" using card_mono [OF _ sub] by simp
qed

lemma search_work_update:
  assumes "length tp = 1024" "i < 1024"
  shows "search_work (tp[i := n]) + place_work (tp ! i) = search_work tp + place_work n"
proof -
  have "(\<Sum>j\<in>{..<1024} - {i}. place_work (tp[i := n] ! j)) = (\<Sum>j\<in>{..<1024} - {i}. place_work (tp ! j))"
    by (rule sum.cong) auto
  then show ?thesis using assms
    by (simp add: search_work_def sum.remove [of "{..<1024}" i])
qed

lemma place_used_update:
  assumes "length tp = 1024" "i < 1024"
  shows "place_used (tp[i := n]) j \<longleftrightarrow> (if j = i then (pn_x n, pn_y n) \<noteq> (0, 0) else place_used tp j)"
  using assms by (auto simp: place_used_def nth_list_update)

lemma node_pos_update:
  assumes "length tp = 1024" "i < 1024"
  shows "node_pos (tp[i := n]) j = (if j = i then (pn_x n, pn_y n) else node_pos tp j)"
  using assms by (auto simp: node_pos_def nth_list_update)

text \<open>A change of one place that keeps the others right.\<close>

lemma nodes_ok_update:
  assumes ok: "nodes_ok m cell start tp" and i: "i < 1024"
    and n: "in_map m (pn_x n, pn_y n)" "calc_index (pn_x n) (pn_y n) = i" "0 \<le> pn_g n" "(pn_x n, pn_y n) \<noteq> (0, 0)"
    and old: "place_used tp i \<Longrightarrow> node_pos tp i = (pn_x n, pn_y n) \<and> pn_g n \<le> pn_g (tp ! i)"
    and new: "\<not> place_used tp i \<Longrightarrow> pn_g n \<le> 14 * int (card (used_places tp))"
    and par: "pn_parent n = Some p" "p \<noteq> i" "place_used tp p" "legal_step m cell (node_pos tp p) (pn_x n, pn_y n)"
      "pn_g (tp ! p) + move_cost \<le> pn_g n"
  shows "nodes_ok m cell start (tp[i := n])"
proof -
  let ?tp = "tp[i := n]"
  have len: "length tp = 1024" using ok by (simp add: nodes_ok_def)
  note upd = place_used_update [OF len i] node_pos_update [OF len i]
  have used: "place_used ?tp j \<longleftrightarrow> j = i \<or> place_used tp j" for j using n(4) by (simp add: upd)
  have more: "used_places ?tp = insert i (used_places tp)" using used by (auto simp: used_places_def)
  have card: "card (used_places ?tp) = (if place_used tp i then card (used_places tp) else Suc (card (used_places tp)))"
    unfolding more using used_places_finite(1) [of tp] by (simp add: card_insert_if used_places_def)
  have kept: "node_pos ?tp j = node_pos tp j" if "place_used tp j" for j using that old by (auto simp: upd)
  have cheaper: "pn_g (?tp ! j) \<le> pn_g (tp ! j)" if "place_used tp j" for j
    using that old len i by (cases "j = i") auto
  have new_ok: "node_ok m cell start ?tp i"
    using n par len i by (simp add: node_ok_def upd kept used)
  have others: "node_ok m cell start ?tp j" if j: "place_used tp j" "j \<noteq> i" for j
  proof -
    have "node_ok m cell start tp j" using ok j(1) by (simp add: nodes_ok_def)
    then show ?thesis using j kept cheaper used
      by (auto simp: node_ok_def split: option.splits intro: order_trans [OF add_right_mono])
  qed
  have nodes: "node_ok m cell start ?tp j" if "place_used ?tp j" for j
    using that used [of j] new_ok others [of j] by blast
  have bound: "pn_g (?tp ! j) + 14 \<le> 14 * int (card (used_places ?tp))" if "place_used ?tp j" for j
  proof (cases "place_used tp j")
    case True
    then have "pn_g (tp ! j) + 14 \<le> 14 * int (card (used_places tp))" using ok by (simp add: nodes_ok_def)
    with cheaper [OF True] card show ?thesis by (simp split: if_splits)
  next
    case False
    then have "j = i" "\<not> place_used tp i" using that used by auto
    with new card len i show ?thesis by simp
  qed
  obtain s where s: "place_used tp s" "node_pos tp s = start" "pn_g (tp ! s) = 0"
    using ok by (auto simp: nodes_ok_def)
  have "s \<noteq> i"
  proof
    assume "s = i"
    with s old have "pn_g n \<le> 0" by simp
    moreover have "0 \<le> pn_g (tp ! p)" using ok par(3) by (auto simp: nodes_ok_def node_ok_def)
    ultimately show False using par(5) by (simp add: move_cost_def)
  qed
  then have "place_used ?tp s \<and> node_pos ?tp s = start \<and> pn_g (?tp ! s) = 0" using s used kept by simp
  moreover have "\<forall>j < 1024. \<not> place_used ?tp j \<longrightarrow> pn_g (?tp ! j) = 0"
    using ok used by (auto simp: nodes_ok_def)
  ultimately show ?thesis using nodes bound len by (auto simp: nodes_ok_def)
qed

section \<open>One call of \<open>add_path\<close>\<close>

text \<open>The map's sizes are 16-bit numbers.\<close>

definition map_fits :: "map_data \<Rightarrow> bool" where
  "map_fits m \<longleftrightarrow> md_xs m \<le> 32767 \<and> md_ys m \<le> 32767"

text \<open>What a step of the search does not undo, and the node it expands stays as it is.\<close>

definition grown :: "nat \<Rightarrow> path_nodes \<Rightarrow> path_nodes \<Rightarrow> bool" where
  "grown cur tp tp' \<longleftrightarrow>
     (\<forall>i. place_used tp i \<longrightarrow> place_used tp' i \<and> node_pos tp' i = node_pos tp i) \<and>
     (\<forall>i. place_used tp' i \<and> pn_closed (tp' ! i) \<longrightarrow> place_used tp i \<and> pn_closed (tp ! i)) \<and>
     tp' ! cur = tp ! cur \<and> search_work tp' \<le> search_work tp"

lemma grown_refl: "grown cur tp tp"
  by (simp add: grown_def)

lemma grown_trans:
  assumes ab: "grown cur a b" and bc: "grown cur b c"
  shows "grown cur a c"
  unfolding grown_def
proof (intro conjI allI impI)
  fix i assume "place_used a i"
  with ab have "place_used b i" "node_pos b i = node_pos a i" by (simp_all add: grown_def)
  with bc show "place_used c i" "node_pos c i = node_pos a i" by (simp_all add: grown_def)
next
  fix i assume "place_used c i \<and> pn_closed (c ! i)"
  with bc have "place_used b i \<and> pn_closed (b ! i)" by (simp add: grown_def)
  with ab show "place_used a i" "pn_closed (a ! i)" by (simp_all add: grown_def)
qed (use ab bc in \<open>simp_all add: grown_def\<close>)

lemma grown_update:
  assumes "length tp = 1024" "i < 1024" "i \<noteq> cur" "\<not> pn_closed n" "(pn_x n, pn_y n) \<noteq> (0, 0)"
    and "place_used tp i \<Longrightarrow> node_pos tp i = (pn_x n, pn_y n)" "place_work n \<le> place_work (tp ! i)"
  shows "grown cur tp (tp[i := n])"
proof -
  have "search_work (tp[i := n]) \<le> search_work tp"
    using search_work_update [OF assms(1,2), of n] assms(7) by linarith
  moreover have "place_used (tp[i := n]) j \<and> node_pos (tp[i := n]) j = node_pos tp j" if "place_used tp j" for j
    using that assms(5,6) by (cases "j = i") (simp_all add: place_used_update [OF assms(1,2)] node_pos_update [OF assms(1,2)])
  moreover have "place_used tp j \<and> pn_closed (tp ! j)" if "place_used (tp[i := n]) j" "pn_closed (tp[i := n] ! j)" for j
    using that assms(1,2,4) by (cases "j = i") (simp_all add: place_used_update [OF assms(1,2)])
  ultimately show ?thesis using assms(3) by (simp add: grown_def)
qed

text \<open>The open set after the place \<open>i\<close> was opened.\<close>

lemma open_ok_update:
  assumes "length tp = 1024" "i < 1024" "\<not> pn_closed n" "(pn_x n, pn_y n) \<noteq> (0, 0)"
    and "distinct heap'" "set heap' = insert i {j. place_used tp j \<and> \<not> pn_closed (tp ! j)}"
  shows "open_ok heap' (tp[i := n])"
  using assms by (auto simp: open_ok_def place_used_update nth_list_update split: if_splits)

lemma heap_update_found:
  assumes "distinct heap" "i \<in> set heap"
  shows "\<exists>heap'. heap_update_node tp heap i = (heap', 0) \<and> distinct heap' \<and> set heap' = set heap"
proof -
  have "arr_find (\<lambda>v. v = i) heap < length heap" using arr_find_found [OF assms(2), of "\<lambda>v. v = i"] by simp
  then show ?thesis using assms by (simp add: heap_update_node_def update_set Let_def)
qed

text \<open>What a call may assume, and what it gives.\<close>

definition call_ok :: "map_data \<Rightarrow> cell_chk \<Rightarrow> int \<times> int \<Rightarrow> open_set \<Rightarrow> path_nodes \<Rightarrow> bool" where
  "call_ok m cell start heap tp \<longleftrightarrow> nodes_ok m cell start tp \<and> open_ok heap tp"

definition reached :: "path_nodes \<Rightarrow> int \<times> int \<Rightarrow> bool" where
  "reached tp = (\<lambda>(x, y). (x, y) = (0, 0) \<or>
     place_used tp (calc_index x y) \<and> node_pos tp (calc_index x y) = (x, y))"

definition collides :: "path_nodes \<Rightarrow> int \<times> int \<Rightarrow> bool" where
  "collides tp = (\<lambda>(x, y). place_used tp (calc_index x y) \<and> node_pos tp (calc_index x y) \<noteq> (x, y))"

text \<open>A new or cheaper node \<open>n\<close> at its place, opened: the case both kinds of change share.\<close>

lemma opened_ok:
  assumes ok: "call_ok m cell start heap tp" and cur: "place_used tp cur"
    and step: "legal_step m cell (node_pos tp cur) (x, y)" and pos: "(x, y) \<noteq> (0, 0)"
    and i: "i = calc_index x y" "i \<noteq> cur"
    and n: "pn_x n = x" "pn_y n = y" "pn_g n = g" "pn_parent n = Some cur" "\<not> pn_closed n"
    and g: "pn_g (tp ! cur) + move_cost \<le> g" "g \<le> pn_g (tp ! cur) + 14"
    and old: "place_used tp i \<Longrightarrow> node_pos tp i = (x, y) \<and> g < pn_g (tp ! i)"
    and heap: "distinct heap'" "set heap' = insert i (set heap)"
  shows "call_ok m cell start heap' (tp[i := n]) \<and> grown cur tp (tp[i := n]) \<and> reached (tp[i := n]) (x, y)"
proof -
  have nodes: "nodes_ok m cell start tp" and opn: "open_ok heap tp" using ok by (simp_all add: call_ok_def)
  have len: "length tp = 1024" using nodes by (simp add: nodes_ok_def)
  have i1024: "i < 1024" using i(1) calc_index_less by simp
  have cur_ok: "node_ok m cell start tp cur" "pn_g (tp ! cur) + 14 \<le> 14 * int (card (used_places tp))"
    using nodes cur by (simp_all add: nodes_ok_def)
  have g0: "0 \<le> g" using cur_ok(1) g(1) by (simp add: node_ok_def move_cost_def)
  have map: "in_map m (x, y)" using step by (auto simp: legal_step_def free_cell_def split: prod.splits)
  have "nodes_ok m cell start (tp[i := n])"
    by (rule nodes_ok_update [OF nodes i1024, where p = cur])
      (use map i cur step g g0 n old pos cur_ok(2) in auto)
  moreover have "open_ok heap' (tp[i := n])"
    by (rule open_ok_update [OF len i1024]) (use n pos heap opn in \<open>auto simp: open_ok_def\<close>)
  moreover have "place_work n \<le> place_work (tp ! i)"
  proof (cases "place_used tp i")
    case True
    with old pos g0 n show ?thesis by (auto simp: place_work_def node_pos_def)
  next
    case False
    then have "place_work (tp ! i) = 30000" using i1024 by (simp add: place_used_def place_work_def)
    moreover have "g \<le> 14 * 1024" using g(2) cur_ok(2) used_places_finite(2) [of tp] by linarith
    ultimately show ?thesis using n pos g0 by (simp add: place_work_def)
  qed
  then have "grown cur tp (tp[i := n])"
    by (intro grown_update) (use len i1024 i(2) n pos old in auto)
  moreover have "reached (tp[i := n]) (x, y)"
    using n pos len i1024 by (simp add: reached_def i(1) [symmetric] place_used_update node_pos_update)
  ultimately show ?thesis by (simp add: call_ok_def)
qed

end
