(* ===== verification/Astar.thy ===== *)
theory Astar
  imports Route
begin

text \<open>
  The A* search of \<open>path_search\<close>: \<open>add_path\<close>, the moves from one node and the
  loop keep the invariant of \<open>Route\<close>; the search ends, a path it returns is a legal walk, and on a map
  whose cells do not share places it finds the target exactly when it can be reached.
\<close>

section \<open>\<open>add_path\<close>\<close>

lemma place_used_pos: "place_used tp i \<longleftrightarrow> i < 1024 \<and> node_pos tp i \<noteq> (0, 0)"
  by (simp add: place_used_def node_pos_def)

lemma reachedI: "node_pos tp (calc_index x y) = (x, y) \<Longrightarrow> reached tp (x, y)"
  using calc_index_less [of x y] unfolding reached_def place_used_pos by simp

lemma collidesI:
  "node_pos tp (calc_index x y) \<noteq> (x, y) \<Longrightarrow> node_pos tp (calc_index x y) \<noteq> (0, 0) \<Longrightarrow> collides tp (x, y)"
  using calc_index_less [of x y] unfolding collides_def place_used_pos by simp

lemma add_path_ok:
  assumes ok: "call_ok m cell start heap tp" and fits: "map_fits m" and cur: "place_used tp cur"
    and step: "legal_step m cell (node_pos tp cur) (x, y)"
    and g: "pn_g (tp ! cur) + move_cost \<le> g" "g \<le> pn_g (tp ! cur) + 14"
    and add: "add_path (heap, tp) x y g cur h = ((heap', tp'), e)"
  shows "call_ok m cell start heap' tp' \<and> grown cur tp tp' \<and> (e = 0 \<longrightarrow> reached tp' (x, y)) \<and>
    (e \<noteq> 0 \<longrightarrow> collides tp (x, y))"
proof -
  define i where "i = calc_index x y"
  have nodes: "nodes_ok m cell start tp" and opn: "open_ok heap tp" using ok by (simp_all add: call_ok_def)
  have len: "length tp = 1024" using nodes by (simp add: nodes_ok_def)
  have i1024: "i < 1024" unfolding i_def by (rule calc_index_less)
  have map: "in_map m (x, y)" using step by (auto simp: legal_step_def free_cell_def split: prod.splits)
  have xy: "to_int16 x = x" "to_int16 y = y" using map fits by (simp_all add: in_map_def map_fits_def to_int16_id)
  have "pn_g (tp ! cur) + 14 \<le> 14 * int (card (used_places tp))" "0 \<le> pn_g (tp ! cur)"
    using nodes cur by (simp_all add: nodes_ok_def node_ok_def)
  with g used_places_finite(2) [of tp] have g16: "0 \<le> g" "g < 32768" by (simp_all add: move_cost_def)
  have gg: "to_int16 g = g" using g16 by (simp add: to_int16_id)
  have gpos: "0 < g" using g(1) \<open>0 \<le> pn_g (tp ! cur)\<close> by (simp add: move_cost_def)
  have other: "node_pos tp cur \<noteq> (x, y)" using step by (auto simp: legal_step_def split: prod.splits)
  note def = add_path_def [THEN fun_cong, THEN fun_cong, THEN fun_cong, THEN fun_cong, THEN fun_cong, THEN fun_cong, of "(heap, tp)" x y g cur h]
  note split_def = def [unfolded prod.case Let_def xy i_def [symmetric] gg]
  consider (same) "node_pos tp i = (x, y)" | (taken) "node_pos tp i \<noteq> (x, y)" "node_pos tp i \<noteq> (0, 0)"
    | (new) "node_pos tp i = (0, 0)" "(x, y) \<noteq> (0, 0)" by metis
  then show ?thesis
  proof cases
    case same
    show ?thesis
    proof (cases "g < pn_g (tp ! i)")
      case False
      with same add have "heap' = heap" "tp' = tp" "e = 0" by (simp_all add: split_def node_pos_def)
      moreover have "reached tp (x, y)" by (rule reachedI) (use same i_def in simp)
      ultimately show ?thesis using ok grown_refl by simp
    next
      case True
      have used: "place_used tp i"
      proof (rule ccontr)
        assume "\<not> place_used tp i"
        then have "pn_g (tp ! i) = 0" using nodes i1024 by (simp add: nodes_ok_def)
        with True gpos show False by simp
      qed
      then have pos: "(x, y) \<noteq> (0, 0)" using same by (auto simp: place_used_def node_pos_def)
      have icur: "i \<noteq> cur" using same other by auto
      let ?n1 = "(tp ! i)\<lparr>pn_g := g, pn_parent := Some cur, pn_f := to_int16 (g + h)\<rparr>"
      let ?n = "?n1\<lparr>pn_closed := False\<rparr>"
      have xy': "pn_x (tp ! i) = x" "pn_y (tp ! i) = y" using same by (simp_all add: node_pos_def)
      have res: "\<exists>heap2. add_path (heap, tp) x y g cur h = ((heap2, tp[i := ?n]), 0) \<and> distinct heap2 \<and> set heap2 = insert i (set heap)"
      proof (cases "pn_closed (tp ! i)")
        case True
        then have "i \<notin> set heap" "distinct heap" using opn by (simp_all add: open_ok_def)
        with True \<open>g < pn_g (tp ! i)\<close> xy' len i1024 show ?thesis
          by (simp add: split_def heap_push_node_def push2_set)
      next
        case False
        then have mem: "i \<in> set heap" "distinct heap" using opn used by (simp_all add: open_ok_def)
        obtain heap2 where h2: "heap_update_node (tp[i := ?n1]) heap i = (heap2, 0)" "distinct heap2" "set heap2 = set heap"
          using heap_update_found [OF mem(2,1)] by blast
        with False mem(1) \<open>g < pn_g (tp ! i)\<close> xy' len i1024 show ?thesis
          by (simp add: split_def insert_absorb)
      qed
      then have r: "tp' = tp[i := ?n]" "e = 0" "distinct heap'" "set heap' = insert i (set heap)" using add by auto
      have "call_ok m cell start heap' (tp[i := ?n]) \<and> grown cur tp (tp[i := ?n]) \<and> reached (tp[i := ?n]) (x, y)"
        by (rule opened_ok [OF ok cur step pos i_def icur _ _ _ _ _ g _ r(3,4)]) (use xy' same True in auto)
      with r(1,2) show ?thesis by simp
    qed
  next
    case taken
    then have "heap' = heap" "tp' = tp" "e = 1" using add by (auto simp: split_def node_pos_def)
    moreover have "collides tp (x, y)" by (rule collidesI) (use taken i_def in auto)
    ultimately show ?thesis using ok grown_refl by simp
  next
    case new
    let ?n = "\<lparr>pn_parent = Some cur, pn_x = x, pn_y = y, pn_g = g, pn_f = to_int16 (g + h), pn_closed = False\<rparr>"
    have unused: "\<not> place_used tp i" using new(1) by (simp add: place_used_def node_pos_def)
    then have icur: "i \<noteq> cur" using cur by auto
    have "i \<notin> set heap" "distinct heap" using opn unused by (simp_all add: open_ok_def)
    then have "distinct (heap_push_node (tp[i := ?n]) heap i)" "set (heap_push_node (tp[i := ?n]) heap i) = insert i (set heap)"
      by (simp_all add: heap_push_node_def push2_set)
    moreover have "tp' = tp[i := ?n]" "e = 0" "heap' = heap_push_node (tp[i := ?n]) heap i"
      using new add by (auto simp: split_def node_pos_def)
    moreover from calculation have "call_ok m cell start heap' (tp[i := ?n]) \<and> grown cur tp (tp[i := ?n]) \<and> reached (tp[i := ?n]) (x, y)"
      by (intro opened_ok [OF ok cur step new(2) i_def icur _ _ _ _ _ g]) (use unused in auto)
    ultimately show ?thesis by simp
  qed
qed

section \<open>The moves from one node\<close>

definition small_map :: "map_data \<Rightarrow> bool" where
  "small_map m \<longleftrightarrow> md_xs m \<le> 32 \<and> md_ys m \<le> 32"

lemma small_no_collision:
  assumes "nodes_ok m cell start tp" "small_map m" "in_map m (x, y)"
  shows "\<not> collides tp (x, y)"
proof
  assume "collides tp (x, y)"
  then have c: "place_used tp (calc_index x y)" "node_pos tp (calc_index x y) \<noteq> (x, y)" by (simp_all add: collides_def)
  obtain a b where ab: "node_pos tp (calc_index x y) = (a, b)" by (cases "node_pos tp (calc_index x y)")
  have "node_ok m cell start tp (calc_index x y)" using assms(1) c(1) by (simp add: nodes_ok_def)
  with ab have "in_map m (a, b)" "calc_index a b = calc_index x y" by (auto simp: node_ok_def node_pos_def)
  with assms(2,3) have "a = x \<and> b = y" by (intro calc_index_inj) (auto simp: in_map_def small_map_def)
  with c ab show False by simp
qed

lemma grownD:
  "grown cur tp tp' \<Longrightarrow> place_used tp i \<Longrightarrow> place_used tp' i"
  "grown cur tp tp' \<Longrightarrow> place_used tp i \<Longrightarrow> node_pos tp' i = node_pos tp i"
  "grown cur tp tp' \<Longrightarrow> tp' ! cur = tp ! cur"
  "grown cur tp tp' \<Longrightarrow> search_work tp' \<le> search_work tp"
  "grown cur tp tp' \<Longrightarrow> place_used tp' i \<Longrightarrow> pn_closed (tp' ! i) \<Longrightarrow> place_used tp i \<and> pn_closed (tp ! i)"
  unfolding grown_def by blast+

lemma reached_grown:
  assumes "reached tp q" "grown cur tp tp'"
  shows "reached tp' q"
proof (cases q)
  case (Pair x y)
  have "place_used tp (calc_index x y) \<longrightarrow>
      place_used tp' (calc_index x y) \<and> node_pos tp' (calc_index x y) = node_pos tp (calc_index x y)"
    using assms(2) by (simp add: grown_def)
  with assms(1) show ?thesis unfolding reached_def Pair by auto
qed

lemma add_moves_ok:
  assumes fits: "map_fits m"
  shows "add_moves ms x y g x1 y1 cur (heap, tp) e = ((heap', tp'), e') \<Longrightarrow> call_ok m cell start heap tp \<Longrightarrow>
    place_used tp cur \<Longrightarrow> node_pos tp cur = (x, y) \<Longrightarrow> pn_g (tp ! cur) = g \<Longrightarrow>
    \<forall>(dx, dy, c) \<in> set ms. legal_step m cell (x, y) (x + dx, y + dy) \<and> c = step_cost dx dy \<Longrightarrow>
    call_ok m cell start heap' tp' \<and> grown cur tp tp' \<and> e \<le> e' \<and>
    (e' = e \<longrightarrow> (\<forall>(dx, dy, c) \<in> set ms. reached tp' (x + dx, y + dy))) \<and> (small_map m \<longrightarrow> e' = e)"
proof (induction ms arbitrary: heap tp e)
  case Nil
  then show ?case using grown_refl by simp
next
  case (Cons mv ms)
  obtain dx dy c where mv: "mv = (dx, dy, c)" by (cases mv)
  obtain heap1 tp1 err where add: "add_path (heap, tp) (x + dx) (y + dy) (g + c) cur (heuristic (x + dx) (y + dy) x1 y1) = ((heap1, tp1), err)"
    by (metis surj_pair)
  have legal: "legal_step m cell (x, y) (x + dx, y + dy)" "c = step_cost dx dy" using Cons.prems(6) mv by auto
  have c: "move_cost \<le> c" "c \<le> 14" using legal(2) by (simp_all add: step_cost_def move_cost_def move_diagonal_cost_def)
  have step: "legal_step m cell (node_pos tp cur) (x + dx, y + dy)" using legal(1) Cons.prems(4) by simp
  have one: "call_ok m cell start heap1 tp1" "grown cur tp tp1" "err = 0 \<longrightarrow> reached tp1 (x + dx, y + dy)"
    "err \<noteq> 0 \<longrightarrow> collides tp (x + dx, y + dy)"
    using add_path_ok [OF Cons.prems(2) fits Cons.prems(3) step _ _ add] c Cons.prems(5) by simp_all
  have small: "small_map m \<Longrightarrow> err = 0"
    using small_no_collision [of m cell start tp "x + dx" "y + dy"] one(4) Cons.prems(2) legal(1)
    by (auto simp: call_ok_def legal_step_def free_cell_def split: prod.splits)
  have rest: "add_moves ms x y g x1 y1 cur (heap1, tp1) (e + err) = ((heap', tp'), e')"
    using Cons.prems(1) by (simp add: mv add)
  have cur1: "place_used tp1 cur" "node_pos tp1 cur = (x, y)" "pn_g (tp1 ! cur) = g"
    using grownD(1,2) [OF one(2) Cons.prems(3)] grownD(3) [OF one(2)] Cons.prems(4,5) by simp_all
  have ih: "call_ok m cell start heap' tp'" "grown cur tp1 tp'" "e + err \<le> e'"
    "e' = e + err \<longrightarrow> (\<forall>(dx, dy, c) \<in> set ms. reached tp' (x + dx, y + dy))" "small_map m \<longrightarrow> e' = e + err"
    using Cons.IH [OF rest one(1) cur1] Cons.prems(6) by simp_all
  have "reached tp' (x + dx, y + dy)" if "e' = e"
    using reached_grown [OF _ ih(2)] one(3) that ih(3) by simp
  moreover have "\<forall>(dx, dy, c) \<in> set ms. reached tp' (x + dx, y + dy)" if "e' = e"
    using ih(3,4) that by simp
  ultimately have "e' = e \<longrightarrow> (\<forall>(dx, dy, c) \<in> set (mv # ms). reached tp' (x + dx, y + dy))" by (simp add: mv)
  moreover have "small_map m \<longrightarrow> e' = e" "e \<le> e'" using ih(3,5) small by simp_all
  ultimately show ?case using ih(1) grown_trans [OF one(2) ih(2)] by blast
qed

section \<open>Taking the best node\<close>

lemma closed_same:
  fixes tp :: path_nodes and i :: nat
  defines "tp' \<equiv> tp[i := (tp ! i)\<lparr>pn_closed := True\<rparr>]"
  shows "place_used tp' = place_used tp" "node_pos tp' = node_pos tp" "\<And>j. pn_g (tp' ! j) = pn_g (tp ! j)"
    "nodes_ok m cell start tp \<Longrightarrow> nodes_ok m cell start tp'"
proof -
  have f: "pn_x (tp' ! j) = pn_x (tp ! j)" "pn_y (tp' ! j) = pn_y (tp ! j)" "pn_g (tp' ! j) = pn_g (tp ! j)"
    "pn_parent (tp' ! j) = pn_parent (tp ! j)" for j
    by (cases "j = i \<and> i < length tp"; force simp: tp'_def nth_list_update list_update_beyond)+
  show g: "place_used tp' = place_used tp" "node_pos tp' = node_pos tp" "\<And>j. pn_g (tp' ! j) = pn_g (tp ! j)"
    by (simp_all add: fun_eq_iff place_used_def node_pos_def f)
  have used: "used_places tp' = used_places tp" by (simp add: used_places_def g(1))
  have "node_ok m cell start tp' j = node_ok m cell start tp j" for j
    unfolding node_ok_def f g(1,2) ..
  moreover have "length tp' = length tp" by (simp add: tp'_def)
  ultimately show "nodes_ok m cell start tp \<Longrightarrow> nodes_ok m cell start tp'"
    unfolding nodes_ok_def g(1,2) f used by simp
qed

lemma pop_ok:
  assumes ok: "call_ok m cell start heap tp" and ne: "heap \<noteq> []"
  defines "cur \<equiv> bheap_peek heap"
  defines "tp1 \<equiv> tp[cur := (tp ! cur)\<lparr>pn_closed := True\<rparr>]"
  shows "call_ok m cell start (bheap_pop2 cmp heap) tp1" "place_used tp cur" "search_work tp1 < search_work tp"
    "\<And>j. pn_closed (tp1 ! j) \<longleftrightarrow> j = cur \<or> pn_closed (tp ! j)"
proof -
  have nodes: "nodes_ok m cell start tp" and opn: "distinct heap" "set heap = {i. place_used tp i \<and> \<not> pn_closed (tp ! i)}"
    using ok by (simp_all add: call_ok_def open_ok_def)
  have len: "length tp = 1024" using nodes by (simp add: nodes_ok_def)
  note pop = pop2_set [OF ne opn(1), folded cur_def]
  show used: "place_used tp cur" using pop(3) opn(2) by auto
  have i: "cur < 1024" using used by (simp add: place_used_def)
  show closed: "pn_closed (tp1 ! j) \<longleftrightarrow> j = cur \<or> pn_closed (tp ! j)" for j
    using len i by (cases "j = cur") (simp_all add: tp1_def)
  have "open_ok (bheap_pop2 cmp heap) tp1"
    using pop(1,2) opn(2) closed closed_same(1) [of tp cur, folded tp1_def] by (auto simp: open_ok_def)
  then show "call_ok m cell start (bheap_pop2 cmp heap) tp1"
    using closed_same(4) [OF nodes, of cur, folded tp1_def] by (simp add: call_ok_def)
  have "\<not> pn_closed (tp ! cur)" "\<not> (pn_x (tp ! cur) = 0 \<and> pn_y (tp ! cur) = 0)"
    using pop(3) opn(2) used by (auto simp: place_used_def)
  then have "place_work ((tp ! cur)\<lparr>pn_closed := True\<rparr>) < place_work (tp ! cur)" by (auto simp: place_work_def)
  then show "search_work tp1 < search_work tp"
    using search_work_update [OF len i, of "(tp ! cur)\<lparr>pn_closed := True\<rparr>"] by (simp add: tp1_def)
qed

section \<open>The loop\<close>

text \<open>
  The nodes the search is done with: none is the target, and wherever a legal step leads from one of them,
  the search has been.
\<close>

definition explored :: "map_data \<Rightarrow> cell_chk \<Rightarrow> int \<times> int \<Rightarrow> path_nodes \<Rightarrow> bool" where
  "explored m cell target tp \<longleftrightarrow>
     (\<forall>i. place_used tp i \<and> pn_closed (tp ! i) \<longrightarrow>
        node_pos tp i \<noteq> target \<and> (\<forall>q. legal_step m cell (node_pos tp i) q \<longrightarrow> reached tp q))"

text \<open>A cell that can be walked to, on a way that never enters the cell (0, 0).\<close>

definition can_reach :: "map_data \<Rightarrow> cell_chk \<Rightarrow> int \<times> int \<Rightarrow> int \<times> int \<Rightarrow> bool" where
  "can_reach m cell = (\<lambda>p q. legal_step m cell p q \<and> q \<noteq> (0, 0))\<^sup>*\<^sup>*"

lemma astar_turn:
  fixes tp :: path_nodes
  assumes ok: "call_ok m cell start heap tp" and ne: "heap \<noteq> []" and fits: "map_fits m"
  defines "cur \<equiv> bheap_peek heap"
  defines "tp1 \<equiv> tp[cur := (tp ! cur)\<lparr>pn_closed := True\<rparr>]"
  assumes go: "(pn_x (tp ! cur), pn_y (tp ! cur)) \<noteq> target"
    and mv: "add_moves (allowed_moves m cell (pn_x (tp ! cur)) (pn_y (tp ! cur))) (pn_x (tp ! cur)) (pn_y (tp ! cur))
      (pn_g (tp ! cur)) x1 y1 cur (bheap_pop2 (node_mintopcmp tp) heap, tp1) 0 = ((heap', tp'), e)"
  shows "call_ok m cell start heap' tp'" "search_work tp' < search_work tp" "small_map m \<Longrightarrow> e = 0"
    "e = 0 \<Longrightarrow> explored m cell target tp \<Longrightarrow> explored m cell target tp'"
proof -
  note pop = pop_ok [OF ok ne, folded cur_def, folded tp1_def]
  note same = closed_same(1-3) [of tp cur, folded tp1_def]
  obtain x y where xy: "node_pos tp cur = (x, y)" by (cases "node_pos tp cur")
  then have xy': "pn_x (tp ! cur) = x" "pn_y (tp ! cur) = y" by (simp_all add: node_pos_def)
  have map: "in_map m (x, y)" using ok pop(2) xy by (auto simp: call_ok_def nodes_ok_def node_ok_def)
  have cur1: "place_used tp1 cur" "node_pos tp1 cur = (x, y)" "pn_g (tp1 ! cur) = pn_g (tp ! cur)"
    using pop(2) xy same by simp_all
  have legal: "\<forall>(dx, dy, c) \<in> set (allowed_moves m cell x y). legal_step m cell (x, y) (x + dx, y + dy) \<and> c = step_cost dx dy"
    using allowed_moves_legal [OF map] by blast
  have r: "call_ok m cell start heap' tp'" "grown cur tp1 tp'"
    "e = 0 \<longrightarrow> (\<forall>(dx, dy, c) \<in> set (allowed_moves m cell x y). reached tp' (x + dx, y + dy))" "small_map m \<longrightarrow> e = 0"
    using add_moves_ok [OF fits mv [unfolded xy'] pop(1) cur1 legal] by simp_all
  show "call_ok m cell start heap' tp'" "small_map m \<Longrightarrow> e = 0" using r(1,4) by simp_all
  show "search_work tp' < search_work tp" using grownD(4) [OF r(2)] pop(3) by simp
  show "explored m cell target tp'" if e: "e = 0" and ex: "explored m cell target tp"
    unfolding explored_def
  proof (intro allI impI)
    fix i assume "place_used tp' i \<and> pn_closed (tp' ! i)"
    then have i: "place_used tp i" "i = cur \<or> pn_closed (tp ! i)" "node_pos tp' i = node_pos tp i"
      using grownD(5) [OF r(2), of i] grownD(2) [OF r(2), of i] pop(4) [of i] same(1,2) by auto
    show "node_pos tp' i \<noteq> target \<and> (\<forall>q. legal_step m cell (node_pos tp' i) q \<longrightarrow> reached tp' q)"
    proof (cases "i = cur")
      case True
      have "reached tp' (a, b)" if "legal_step m cell (x, y) (a, b)" for a b
      proof -
        have "(a - x, b - y, step_cost (a - x) (b - y)) \<in> set (allowed_moves m cell x y)"
          using that by (subst allowed_moves_legal [OF map]) simp
        with r(3) e show ?thesis by force
      qed
      with True go xy xy' i(3) show ?thesis by simp
    next
      case False
      then have "node_pos tp i \<noteq> target \<and> (\<forall>q. legal_step m cell (node_pos tp i) q \<longrightarrow> reached tp q)"
        using ex i by (simp add: explored_def)
      moreover have "reached tp' q" if "reached tp q" for q
        using reached_grown [OF _ r(2)] that by (simp add: reached_def same(1,2))
      ultimately show ?thesis using i(3) by simp
    qed
  qed
qed

text \<open>When everything was explored, everything that can be reached is a node, and none is the target.\<close>

lemma explored_all:
  assumes ok: "nodes_ok m cell start tp" "open_ok [] tp" and ex: "explored m cell target tp"
    and reach: "can_reach m cell start q"
  shows "q \<noteq> target"
proof -
  have all_closed: "pn_closed (tp ! i)" if "place_used tp i" for i using ok(2) that by (simp add: open_ok_def)
  obtain s where s: "place_used tp s" "node_pos tp s = start" using ok(1) by (auto simp: nodes_ok_def)
  have "\<exists>i. place_used tp i \<and> node_pos tp i = q"
    using reach unfolding can_reach_def
  proof (induction rule: rtranclp_induct)
    case base
    with s show ?case by blast
  next
    case (step p q)
    then obtain i where "place_used tp i" "node_pos tp i = p" by blast
    with ex all_closed step(2) have "reached tp q" unfolding explored_def by blast
    with step(2) show ?case by (cases q) (auto simp: reached_def)
  qed
  with ex all_closed show ?thesis by (auto simp: explored_def)
qed

lemma astar_loop_ends:
  assumes fits: "map_fits m"
  shows "call_ok m cell start heap tp \<Longrightarrow>
    \<exists>r. astar_loop m cell x1 y1 (heap, tp) = Some r \<and>
      (\<forall>cur tp'. r = Some (cur, tp') \<longrightarrow>
         nodes_ok m cell start tp' \<and> place_used tp' cur \<and> node_pos tp' cur = (x1, y1)) \<and>
      (r = None \<and> small_map m \<and> explored m cell (x1, y1) tp \<longrightarrow> \<not> can_reach m cell start (x1, y1))"
proof (induction "search_work tp" arbitrary: heap tp rule: less_induct)
  case (less tp heap)
  let ?cur = "bheap_peek heap"
  let ?x = "pn_x (tp ! ?cur)" and ?y = "pn_y (tp ! ?cur)"
  let ?tp1 = "tp[?cur := (tp ! ?cur)\<lparr>pn_closed := True\<rparr>]"
  note loop = astar_loop.simps [of m cell x1 y1 "(heap, tp)", unfolded prod.case Let_def]
  have parts: "nodes_ok m cell start tp" "open_ok heap tp" using less.prems by (simp_all add: call_ok_def)
  show ?case
  proof (cases "heap = []")
    case True
    then show ?thesis using explored_all [OF parts(1)] parts(2) loop by auto
  next
    case ne: False
    note pop = pop_ok [OF less.prems ne]
    show ?thesis
    proof (cases "?x = x1 \<and> ?y = y1")
      case True
      with ne have "astar_loop m cell x1 y1 (heap, tp) = Some (Some (?cur, ?tp1))" by (simp only: loop) simp
      moreover have "nodes_ok m cell start ?tp1" "place_used ?tp1 ?cur" "node_pos ?tp1 ?cur = (x1, y1)"
        using closed_same(4) [OF parts(1), of ?cur] closed_same(1,2) [of tp ?cur] pop(2) True by (simp_all add: node_pos_def)
      ultimately show ?thesis by simp
    next
      case go: False
      obtain heap' tp' e where mv: "add_moves (allowed_moves m cell ?x ?y) ?x ?y (pn_g (tp ! ?cur)) x1 y1 ?cur
          (bheap_pop2 (node_mintopcmp tp) heap, ?tp1) 0 = ((heap', tp'), e)" by (metis surj_pair)
      have ne_target: "(?x, ?y) \<noteq> (x1, y1)" using go by simp
      note turn = astar_turn [OF less.prems ne fits ne_target mv]
      have eq: "astar_loop m cell x1 y1 (heap, tp) = (if e \<noteq> 0 then Some None else astar_loop m cell x1 y1 (heap', tp'))"
        using ne go by (simp only: loop mv prod.case if_False)
      show ?thesis
      proof (cases "e = 0")
        case True
        with less.hyps [OF turn(2,1)] turn(4) show ?thesis unfolding eq by auto
      next
        case False
        with turn(3) eq show ?thesis by auto
      qed
    qed
  qed
qed

lemma astar_start_ok:
  assumes map: "in_map m (x0, y0)" and start: "(x0, y0) \<noteq> (0, 0)"
  shows "case astar_start x0 y0 x1 y1 of (heap, tp) \<Rightarrow>
    call_ok m cell (x0, y0) heap tp \<and> explored m cell target tp"
proof -
  let ?i = "calc_index x0 y0"
  let ?blank = "\<lparr>pn_parent = None, pn_x = 0, pn_y = 0, pn_g = 0, pn_f = 0, pn_closed = False\<rparr>"
  let ?n = "\<lparr>pn_parent = None, pn_x = x0, pn_y = y0, pn_g = 0, pn_f = to_int16 (heuristic x0 y0 x1 y1), pn_closed = False\<rparr>"
  let ?tp = "(replicate 1024 ?blank)[?i := ?n]"
  have i: "?i < 1024" by (rule calc_index_less)
  have at: "?tp ! j = (if j = ?i then ?n else ?blank)" if "j < 1024" for j using that by simp
  have used: "place_used ?tp j \<longleftrightarrow> j = ?i" for j
    using i start by (cases "j < 1024") (auto simp: place_used_def at simp del: nth_list_update)
  have places: "used_places ?tp = {?i}" by (auto simp: used_places_def used)
  have "nodes_ok m cell (x0, y0) ?tp"
    unfolding nodes_ok_def using i map
    by (auto simp: used at places node_ok_def node_pos_def intro!: exI [of _ ?i] simp del: nth_list_update)
  moreover have "bheap_push2 cmp ?i [] = [?i]" for cmp
    by (simp add: bheap_push2_def bheap_siftdown.simps)
  moreover have "open_ok [?i] ?tp" using i by (auto simp: open_ok_def used at simp del: nth_list_update)
  moreover have "explored m cell target ?tp" using i by (simp add: explored_def used)
  ultimately show ?thesis by (simp add: astar_start_def heap_push_node_def max_walkpath_def call_ok_def Let_def)
qed

section \<open>Back along the parents\<close>

lemma back_to_start:
  assumes ok: "nodes_ok m cell start tp"
  shows "place_used tp it \<Longrightarrow>
    \<exists>n ds. (\<forall>len. path_length tp it len = Some (len + n)) \<and> length ds = n \<and>
      walks m cell start ds (node_pos tp it) \<and> can_reach m cell start (node_pos tp it) \<and>
      (\<forall>path. n \<le> length path \<longrightarrow> recreate_path tp it n path = ds @ drop n path)"
proof (induction "nat (pn_g (tp ! it))" arbitrary: it rule: less_induct)
  case less
  have node: "node_ok m cell start tp it" using ok less.prems by (simp add: nodes_ok_def)
  show ?case
  proof (cases "pn_parent (tp ! it)")
    case None
    with node have "node_pos tp it = start" by (simp add: node_ok_def)
    with None show ?thesis
      by (intro exI [of _ 0] exI [of _ "[]"]) (simp add: path_length.simps can_reach_def)
  next
    case (Some p)
    with node have p: "place_used tp p" "legal_step m cell (node_pos tp p) (node_pos tp it)"
      "pn_g (tp ! p) + move_cost \<le> pn_g (tp ! it)" by (simp_all add: node_ok_def)
    have "0 \<le> pn_g (tp ! p)" using ok p(1) by (simp add: nodes_ok_def node_ok_def)
    with p(3) have "nat (pn_g (tp ! p)) < nat (pn_g (tp ! it))" by (simp add: move_cost_def)
    from less.hyps [OF this p(1)] obtain n ds where ih:
      "\<And>len. path_length tp p len = Some (len + n)" "length ds = n" "walks m cell start ds (node_pos tp p)"
      "can_reach m cell start (node_pos tp p)" "\<And>path. n \<le> length path \<Longrightarrow> recreate_path tp p n path = ds @ drop n path"
      by blast
    let ?d = "choose_direction (pn_x (tp ! it) - pn_x (tp ! p)) (pn_y (tp ! it) - pn_y (tp ! p))"
    have "walks m cell (node_pos tp p) [?d] (node_pos tp it)"
      using walks_step [OF p(2) [unfolded node_pos_def]] by (simp only: node_pos_def)
    with ih(3) have "walks m cell start (ds @ [?d]) (node_pos tp it)" unfolding walks_append by blast
    moreover have "can_reach m cell start (node_pos tp it)"
      using ih(4) p(2) less.prems unfolding can_reach_def place_used_pos by (simp add: rtranclp.rtrancl_into_rtrancl)
    moreover have "path_length tp it len = Some (len + Suc n)" for len
      using Some ih(1) by (simp add: path_length.simps [of tp it])
    moreover have "recreate_path tp it (Suc n) path = (ds @ [?d]) @ drop (Suc n) path" if "Suc n \<le> length path" for path
    proof -
      have "drop n (path[n := ?d]) = ?d # drop (Suc n) path"
        using that by (simp add: drop_update_swap Cons_nth_drop_Suc [symmetric])
      with Some ih(5) [of "path[n := ?d]"] that show ?thesis by (simp add: Let_def)
    qed
    ultimately show ?thesis using ih(2) by (intro exI [of _ "Suc n"] exI [of _ "ds @ [?d]"]) simp
  qed
qed

section \<open>The search as a whole\<close>

lemma path_search_astar:
  assumes "md_cell m \<noteq> None" "in_map m (x0, y0)" "free_cell m cell (x1, y1)"
  shows "path_search wpd m x0 y0 x1 y1 0 cell =
    Option.bind (astar_loop m cell x1 y1 (astar_start x0 y0 x1 y1)) (\<lambda>found.
      case found of
        None \<Rightarrow> Some (wpd, False)
      | Some (current, tp) \<Rightarrow>
          Option.bind (path_length tp current 0) (\<lambda>len.
            if len > max_walkpath then Some (wpd, False)
            else Some (\<lparr>wp_len = len, wp_pos = 0, wp_path = recreate_path tp current len (wp_path wpd)\<rparr>, True)))"
  using assms unfolding path_search_def
  by (simp add: in_map_def free_cell_def not_le not_less del: not_None_eq)

lemma path_search_refused:
  "md_cell m = None \<or> \<not> in_map m (x0, y0) \<or> \<not> free_cell m cell (x1, y1) \<Longrightarrow>
    path_search wpd m x0 y0 x1 y1 0 cell = Some (wpd, False)"
  unfolding path_search_def by (auto simp: in_map_def free_cell_def)

text \<open>C12: a path that the search returns can be walked. From any cell but (0, 0), on any map,
  \<open>path_search\<close> ends. When it returns true, the path it wrote has at most 32 steps, and a unit
  that follows its directions with \<open>dirx\<close> and \<open>diry\<close> from the start comes to the target by legal
  steps: it never enters a blocked cell and never cuts the corner of one. When it returns false, the
  caller's structure is unchanged.
\<close>

theorem path_search_walks:
  assumes fits: "map_fits m" and start: "(x0, y0) \<noteq> (0, 0)" and len: "length (wp_path wpd) = max_walkpath"
  shows "\<exists>wpd' ok. path_search wpd m x0 y0 x1 y1 0 cell = Some (wpd', ok) \<and>
    (ok \<longrightarrow> wp_len wpd' \<le> max_walkpath \<and> wp_pos wpd' = 0 \<and> length (wp_path wpd') = max_walkpath \<and>
       walks m cell (x0, y0) (take (wp_len wpd') (wp_path wpd')) (x1, y1)) \<and>
    (\<not> ok \<longrightarrow> wpd' = wpd)"
proof (cases "md_cell m \<noteq> None \<and> in_map m (x0, y0) \<and> free_cell m cell (x1, y1)")
  case False
  then have "path_search wpd m x0 y0 x1 y1 0 cell = Some (wpd, False)" by (intro path_search_refused) blast
  then show ?thesis by (intro exI [of _ wpd] exI [of _ False]) simp
next
  case True
  note search = path_search_astar [of m x0 y0 cell x1 y1 wpd]
  obtain heap tp where st: "astar_start x0 y0 x1 y1 = (heap, tp)" by (cases "astar_start x0 y0 x1 y1")
  have "call_ok m cell (x0, y0) heap tp" using astar_start_ok [OF _ start, of m cell "(x1, y1)" x1 y1] True st by simp
  from astar_loop_ends [OF fits this, of x1 y1] st obtain r where r:
    "astar_loop m cell x1 y1 (astar_start x0 y0 x1 y1) = Some r"
    "\<forall>cur tp'. r = Some (cur, tp') \<longrightarrow>
       nodes_ok m cell (x0, y0) tp' \<and> place_used tp' cur \<and> node_pos tp' cur = (x1, y1)" by auto
  show ?thesis
  proof (cases r)
    case None
    with True r(1) show ?thesis by (intro exI [of _ wpd] exI [of _ False]) (simp add: search)
  next
    case (Some found)
    obtain cur tp' where f: "r = Some (cur, tp')" using Some by (cases found) simp
    with r(2) have node: "nodes_ok m cell (x0, y0) tp'" "place_used tp' cur" "node_pos tp' cur = (x1, y1)" by auto
    obtain n ds where way: "path_length tp' cur 0 = Some n" "length ds = n" "walks m cell (x0, y0) ds (x1, y1)"
      "n \<le> length (wp_path wpd) \<Longrightarrow> recreate_path tp' cur n (wp_path wpd) = ds @ drop n (wp_path wpd)"
      using back_to_start [OF node(1,2)] node(3) by (metis add_0)
    show ?thesis using True r(1) f way len by (auto simp: search)
  qed
qed

text \<open>C19: on a small map the search is complete. On a map of at most 32 by 32 cells no two cells share
  a place of the array, and then the search, from any cell but (0, 0) to any cell that is
  not blocked, finds the target exactly when legal steps lead there on some way that does not enter the cell
  (0, 0); \<open>path_search\<close> can then only return false because the way found is longer
  than 32 steps.
\<close>

theorem path_search_complete:
  assumes small: "small_map m" and start: "(x0, y0) \<noteq> (0, 0)" and len: "length (wp_path wpd) = max_walkpath"
    and m: "md_cell m \<noteq> None" "in_map m (x0, y0)" "free_cell m cell (x1, y1)"
  shows "((\<exists>cur tp. astar_loop m cell x1 y1 (astar_start x0 y0 x1 y1) = Some (Some (cur, tp))) \<longleftrightarrow>
      can_reach m cell (x0, y0) (x1, y1)) \<and>
    (path_search wpd m x0 y0 x1 y1 0 cell = Some (wpd, False) \<and> can_reach m cell (x0, y0) (x1, y1) \<longrightarrow>
      (\<exists>cur tp n. astar_loop m cell x1 y1 (astar_start x0 y0 x1 y1) = Some (Some (cur, tp)) \<and>
        path_length tp cur 0 = Some n \<and> max_walkpath < n))"
proof -
  have fits: "map_fits m" using small by (simp add: map_fits_def small_map_def)
  obtain heap tp where st: "astar_start x0 y0 x1 y1 = (heap, tp)" by (cases "astar_start x0 y0 x1 y1")
  have ok: "call_ok m cell (x0, y0) heap tp" "explored m cell (x1, y1) tp"
    using astar_start_ok [OF m(2) start, of cell "(x1, y1)" x1 y1] st by simp_all
  from astar_loop_ends [OF fits ok(1), of x1 y1] st ok(2) small obtain r where r:
    "astar_loop m cell x1 y1 (astar_start x0 y0 x1 y1) = Some r"
    "\<forall>cur tp'. r = Some (cur, tp') \<longrightarrow>
       nodes_ok m cell (x0, y0) tp' \<and> place_used tp' cur \<and> node_pos tp' cur = (x1, y1)"
    "r = None \<longrightarrow> \<not> can_reach m cell (x0, y0) (x1, y1)" by auto
  show ?thesis
  proof (cases r)
    case None
    with r show ?thesis by simp
  next
    case (Some found)
    obtain cur tp' where f: "r = Some (cur, tp')" using Some by (cases found) simp
    with r(2) have node: "nodes_ok m cell (x0, y0) tp'" "place_used tp' cur" "node_pos tp' cur = (x1, y1)" by auto
    obtain n where way: "path_length tp' cur 0 = Some n" "can_reach m cell (x0, y0) (x1, y1)"
      using back_to_start [OF node(1,2)] node(3) by (metis add_0)
    show ?thesis using m r(1) f way by (auto simp: path_search_astar split: if_splits)
  qed
qed

section \<open>Examples\<close>

definition sample_walk :: walkpath_data where
  "sample_walk = \<lparr>wp_len = 0, wp_pos = 0, wp_path = replicate max_walkpath DIR_CENTER\<rparr>"

lemma sample_map_fits: "small_map sample_map" "map_fits sample_map" "md_cell sample_map \<noteq> None"
  "in_map sample_map (0, 1)" "free_cell sample_map CELL_CHKNOPASS (0, 2)"
  by (simp_all add: sample_map_def small_map_def map_fits_def in_map_def) code_simp

lemma path_search_walks_witness:
  "\<exists>wpd'. path_search sample_walk sample_map 0 1 0 2 0 CELL_CHKNOPASS = Some (wpd', True) \<and>
     walks sample_map CELL_CHKNOPASS (0, 1) (take (wp_len wpd') (wp_path wpd')) (0, 2)"
proof -
  have "map_option snd (path_search sample_walk sample_map 0 1 0 2 0 CELL_CHKNOPASS) = Some True" by code_simp
  with path_search_walks [OF sample_map_fits(2), of 0 1 sample_walk 0 2 CELL_CHKNOPASS] show ?thesis
    by (auto simp: sample_walk_def)
qed

lemma path_search_complete_witness:
  "\<exists>cur tp. astar_loop sample_map CELL_CHKNOPASS 0 2 (astar_start 0 1 0 2) = Some (Some (cur, tp))"
proof -
  have "legal_step sample_map CELL_CHKNOPASS (0, 1) (0, 2)"
    using sample_map_fits(5) by (simp add: legal_step_def)
  then have "can_reach sample_map CELL_CHKNOPASS (0, 1) (0, 2)" by (auto simp: can_reach_def)
  with path_search_complete [OF sample_map_fits(1), of 0 1 sample_walk CELL_CHKNOPASS 0 2] sample_map_fits
  show ?thesis by (simp add: sample_walk_def)
qed

end
