(* ===== verification/Corner.thy ===== *)
theory Corner
  imports Astar
begin

text \<open>
  The search of \<open>path_search\<close> from the cell (0, 0), which looks like an unused place of the array:
  another cell with the same place is then written over the start, which becomes its own ancestor, and
  the loop that counts the steps back never ends.
\<close>

section \<open>A corridor\<close>

text \<open>One column of cells from (0, 0) up; the second column is the border.\<close>

definition corridor :: map_data where
  "corridor = \<lparr>md_cell = Some (replicate 68 sample_ground), md_xs = 2, md_ys = 34\<rparr>"

text \<open>The place \<open>i\<close> when the search has come to the cell (0, \<open>k\<close>).\<close>

definition corridor_node :: "nat \<Rightarrow> nat \<Rightarrow> path_node" where
  "corridor_node k i =
     (if i mod 32 = 0 \<and> i div 32 \<le> k
      then \<lparr>pn_parent = (if i = 0 then None else Some (i - 32)), pn_x = 0, pn_y = int (i div 32),
            pn_g = 10 * int (i div 32), pn_f = 320, pn_closed = i div 32 < k\<rparr>
      else \<lparr>pn_parent = None, pn_x = 0, pn_y = 0, pn_g = 0, pn_f = 0, pn_closed = False\<rparr>)"

definition corridor_nodes :: "nat \<Rightarrow> path_nodes" where
  "corridor_nodes k = map (corridor_node k) [0..<1024]"

lemma corridor_at: "i < 1024 \<Longrightarrow> corridor_nodes k ! i = corridor_node k i"
  by (simp add: corridor_nodes_def)

lemma corridor_row:
  "j \<le> k \<Longrightarrow> corridor_node k (32 * j) =
     \<lparr>pn_parent = (if j = 0 then None else Some (32 * j - 32)), pn_x = 0, pn_y = int j, pn_g = 10 * int j,
      pn_f = 320, pn_closed = j < k\<rparr>"
  by (simp add: corridor_node_def)

lemma corridor_cell:
  "0 \<le> y \<Longrightarrow> y < 33 \<Longrightarrow> map_getcellp corridor 0 y CELL_CHKNOPASS = 0"
  "map_getcellp corridor 1 y CELL_CHKNOPASS = 1"
  by (simp_all add: map_getcellp_def corridor_def to_int16_id sample_ground_def Let_def)

lemma corridor_moves:
  assumes "0 \<le> y" "y < 32"
  shows "allowed_moves corridor CELL_CHKNOPASS 0 y =
    (0, 1, move_cost) # (if 0 < y then [(0, - 1, move_cost)] else [])"
  using assms corridor_cell(1) [of "y + 1"] corridor_cell(1) [of "y - 1"] corridor_cell(2) [of y]
  by (simp add: allowed_moves_def Let_def corridor_def)

lemma corridor_start: "astar_start 0 0 0 32 = ([0], corridor_nodes 0)"
proof -
  have i: "calc_index 0 0 = 0" by (simp add: calc_index_mod)
  have "(replicate 1024 b)[0 := n] ! i = corridor_node 0 i"
    if "i < 1024" "n = corridor_node 0 0" "b = corridor_node 0 1" for i n b
  proof (cases "i = 0")
    case False
    have "corridor_node 0 i = corridor_node 0 1" using False by (auto simp: corridor_node_def dvd_def)
    with False that show ?thesis by simp
  qed (use that in simp)
  then have "(replicate 1024 (corridor_node 0 1))[0 := corridor_node 0 0] = corridor_nodes 0"
    by (intro nth_equalityI) (simp_all add: corridor_nodes_def)
  then show ?thesis
    by (simp add: astar_start_def i heap_push_node_def bheap_push2_def bheap_siftdown.simps max_walkpath_def
        corridor_node_def heuristic_def move_cost_def to_int16_id Let_def)
qed

lemma corridor_index: "k < 32 \<Longrightarrow> calc_index 0 (int k) = 32 * k"
  by (simp add: calc_index_mod nat_mult_distrib)

lemma single_heap: "bheap_pop2 cmp [i] = []" "bheap_push2 cmp i [] = [i]" "bheap_peek [i] = i"
  by (simp_all add: bheap_pop2_def bheap_push2_def bheap_siftdown.simps bheap_peek_def)

text \<open>The node of row \<open>k\<close> taken out, then the row above it put in place \<open>i\<close>.\<close>

definition corridor_closed :: "nat \<Rightarrow> path_nodes" where
  "corridor_closed k = (corridor_nodes k)[32 * k := (corridor_node k (32 * k))\<lparr>pn_closed := True\<rparr>]"

definition corridor_next :: "nat \<Rightarrow> nat \<Rightarrow> path_nodes" where
  "corridor_next k i = (corridor_closed k)[i :=
     \<lparr>pn_parent = Some (32 * k), pn_x = 0, pn_y = int k + 1, pn_g = 10 * int k + 10, pn_f = 320, pn_closed = False\<rparr>]"

lemma corridor_up:
  assumes "k < 32" "calc_index 0 (int k + 1) = i" "i < 1024"
    and "pn_x (corridor_closed k ! i) = 0" "pn_y (corridor_closed k ! i) = 0"
  shows "add_path ([], corridor_closed k) 0 (int k + 1) (10 * int k + move_cost) (32 * k) (heuristic 0 (int k + 1) 0 32)
    = (([i], corridor_next k i), 0)"
proof -
  have wrap: "to_int16 0 = 0" "to_int16 (int k + 1) = int k + 1" "to_int16 (10 * int k + 10) = 10 * int k + 10"
    "to_int16 (10 * int k + 10 + heuristic 0 (int k + 1) 0 32) = 320"
    using assms(1) by (simp_all add: to_int16_id heuristic_def move_cost_def)
  show ?thesis
    unfolding add_path_def prod.case Let_def
    using assms(2-5) wrap by (simp add: move_cost_def corridor_next_def heap_push_node_def single_heap)
qed

lemma corridor_down:
  assumes "0 < k" "k < 32" "pn_x (tp ! (32 * (k - 1))) = 0" "pn_y (tp ! (32 * (k - 1))) = int k - 1"
    "pn_g (tp ! (32 * (k - 1))) = 10 * (int k - 1)"
  shows "add_path (heap, tp) 0 (int k - 1) (10 * int k + move_cost) (32 * k) h = ((heap, tp), 0)"
proof -
  have "calc_index 0 (int k - 1) = 32 * (k - 1)" using corridor_index [of "k - 1"] assms(1,2) by (simp add: of_nat_diff)
  moreover have "to_int16 0 = 0" "to_int16 (int k - 1) = int k - 1" using assms(1,2) by (simp_all add: to_int16_id)
  ultimately show ?thesis
    unfolding add_path_def prod.case Let_def using assms by (simp add: move_cost_def)
qed

lemma corridor_turn:
  assumes k: "k < 32" and i: "calc_index 0 (int k + 1) = i" "i < 1024"
    and free: "pn_x (corridor_closed k ! i) = 0" "pn_y (corridor_closed k ! i) = 0" and other: "i \<noteq> 32 * (k - 1) \<or> k = 0"
  shows "astar_loop corridor CELL_CHKNOPASS 0 32 ([32 * k], corridor_nodes k) =
    astar_loop corridor CELL_CHKNOPASS 0 32 ([i], corridor_next k i)"
proof -
  have at: "corridor_nodes k ! (32 * k) = corridor_node k (32 * k)" using k by (simp add: corridor_at)
  note row = corridor_row [of k k]
  have moves: "allowed_moves corridor CELL_CHKNOPASS 0 (int k) = (0, 1, move_cost) # (if 0 < k then [(0, - 1, move_cost)] else [])"
    using corridor_moves [of "int k"] k by simp
  have down: "add_path ([i], corridor_next k i) 0 (int k - 1) (10 * int k + move_cost) (32 * k) h = (([i], corridor_next k i), 0)"
    if "0 < k" for h
  proof (rule corridor_down [OF that k])
    have "corridor_next k i ! (32 * (k - 1)) = corridor_node k (32 * (k - 1))"
      using that k other by (simp add: corridor_next_def corridor_closed_def corridor_at)
    then show "pn_x (corridor_next k i ! (32 * (k - 1))) = 0" "pn_y (corridor_next k i ! (32 * (k - 1))) = int k - 1"
      "pn_g (corridor_next k i ! (32 * (k - 1))) = 10 * (int k - 1)"
      using that by (simp_all add: corridor_row of_nat_diff)
  qed
  have mv: "add_moves (allowed_moves corridor CELL_CHKNOPASS 0 (int k)) 0 (int k) (10 * int k) 0 32 (32 * k) ([], corridor_closed k) 0 =
      (([i], corridor_next k i), 0)"
    unfolding moves using corridor_up [OF k i free] down by simp
  have fields: "pn_x (corridor_nodes k ! (32 * k)) = 0" "pn_y (corridor_nodes k ! (32 * k)) = int k"
    "pn_g (corridor_nodes k ! (32 * k)) = 10 * int k" by (simp_all add: at row)
  have closed: "(corridor_nodes k)[32 * k := (corridor_nodes k ! (32 * k))\<lparr>pn_closed := True\<rparr>] = corridor_closed k"
    by (simp only: corridor_closed_def at)
  have go: "\<not> ((0 :: int) = 0 \<and> int k = 32)" using k by simp
  show ?thesis
    by (subst astar_loop.simps) (simp only: prod.case Let_def single_heap fields closed mv go, simp)
qed

lemma corridor_climb:
  assumes "k < 31"
  shows "astar_loop corridor CELL_CHKNOPASS 0 32 ([32 * k], corridor_nodes k) =
    astar_loop corridor CELL_CHKNOPASS 0 32 ([32 * (k + 1)], corridor_nodes (k + 1))"
proof -
  have i: "calc_index 0 (int k + 1) = 32 * (k + 1)" using corridor_index [of "k + 1"] assms by (simp add: add.commute)
  have at: "corridor_closed k ! (32 * (k + 1)) = corridor_node k (32 * (k + 1))"
    using assms by (simp add: corridor_closed_def corridor_at)
  have next_ok: "corridor_next k (32 * (k + 1)) ! j = corridor_node (k + 1) j" if "j < 1024" for j
  proof -
    have "j = 32 * (j div 32) + j mod 32" by simp
    then have "j = 32 * (k + 1) \<or> j = 32 * k \<or> j mod 32 \<noteq> 0 \<or> j div 32 \<noteq> k + 1 \<and> j div 32 \<noteq> k"
      by (metis add.right_neutral)
    then consider "j = 32 * (k + 1)" | "j = 32 * k" | "j mod 32 \<noteq> 0 \<or> j div 32 \<noteq> k + 1 \<and> j div 32 \<noteq> k" by blast
    then show ?thesis
    proof cases
      case 1
      then show ?thesis using that corridor_row [of "k + 1" "k + 1"]
        by (simp add: corridor_next_def corridor_closed_def corridor_nodes_def)
    next
      case 2
      then show ?thesis using that corridor_row [of k k] corridor_row [of k "k + 1"]
        by (simp add: corridor_next_def corridor_closed_def corridor_nodes_def)
    next
      case 3
      then have "j \<noteq> 32 * (k + 1)" "j \<noteq> 32 * k" by auto
      then have "corridor_next k (32 * (k + 1)) ! j = corridor_node k j"
        using that by (simp add: corridor_next_def corridor_closed_def corridor_at)
      also have "\<dots> = corridor_node (k + 1) j"
      proof (cases "j mod 32 = 0")
        case True
        with 3 have "j div 32 \<le> k \<longleftrightarrow> j div 32 \<le> k + 1" "j div 32 < k \<longleftrightarrow> j div 32 < k + 1" by linarith+
        then show ?thesis by (simp only: corridor_node_def)
      qed (simp add: corridor_node_def)
      finally show ?thesis .
    qed
  qed
  have "length (corridor_next k (32 * (k + 1))) = 1024"
    by (simp add: corridor_next_def corridor_closed_def corridor_nodes_def)
  with next_ok have "corridor_next k (32 * (k + 1)) = corridor_nodes (k + 1)"
    by (intro nth_equalityI) (simp_all add: corridor_nodes_def)
  moreover have "pn_x (corridor_closed k ! (32 * (k + 1))) = 0" "pn_y (corridor_closed k ! (32 * (k + 1))) = 0"
    unfolding at by (simp_all add: corridor_node_def)
  moreover have "32 * (k + 1) < 1024" "k < 32" "32 * (k + 1) \<noteq> 32 * (k - 1) \<or> k = 0" using assms by auto
  ultimately show ?thesis using corridor_turn [OF _ i] by metis
qed

text \<open>A ring of parents: following them never ends.\<close>

lemma ring_never_ends:
  assumes ring: "\<And>i. i \<in> ring \<Longrightarrow> \<exists>p \<in> ring. pn_parent (tp ! i) = Some p" and it: "it \<in> ring"
  shows "path_length tp it len = None"
proof -
  have "\<not> (it' \<in> ring \<and> tp' = tp)" if "path_length tp' it' len' = Some r" for tp' it' len' r
  proof (rule path_length.raw_induct [where P = "\<lambda>tp' it' len' r. \<not> (it' \<in> ring \<and> tp' = tp)", OF _ that])
    fix f tp' it' len' r
    assume IH: "\<And>tp' it' len' r. f tp' it' len' = Some r \<Longrightarrow> \<not> (it' \<in> ring \<and> tp' = tp)"
      and eq: "(case pn_parent (tp' ! it') of None \<Rightarrow> Some len' | Some p \<Rightarrow> f tp' p (len' + 1)) = Some r"
    show "\<not> (it' \<in> ring \<and> tp' = tp)"
    proof
      assume a: "it' \<in> ring \<and> tp' = tp"
      then obtain p where "p \<in> ring" "pn_parent (tp ! it') = Some p" using ring by blast
      with a eq IH [of tp' p "len' + 1" r] show False by simp
    qed
  qed
  with it show ?thesis by (cases "path_length tp it len") auto
qed

section \<open>The end of the corridor\<close>

definition corridor_end :: path_nodes where
  "corridor_end = (corridor_next 31 0)[0 := (corridor_next 31 0 ! 0)\<lparr>pn_closed := True\<rparr>]"

lemma corridor_top: "corridor_next 31 0 ! 0 =
    \<lparr>pn_parent = Some 992, pn_x = 0, pn_y = 32, pn_g = 320, pn_f = 320, pn_closed = False\<rparr>"
  by (simp add: corridor_next_def corridor_closed_def corridor_nodes_def)

lemma corridor_found:
  "astar_loop corridor CELL_CHKNOPASS 0 32 (astar_start 0 0 0 32) = Some (Some (0, corridor_end))"
proof -
  have climb: "k \<le> 31 \<Longrightarrow> astar_loop corridor CELL_CHKNOPASS 0 32 (astar_start 0 0 0 32) =
      astar_loop corridor CELL_CHKNOPASS 0 32 ([32 * k], corridor_nodes k)" for k
  proof (induction k)
    case 0
    then show ?case by (simp add: corridor_start)
  next
    case (Suc k)
    with corridor_climb [of k] show ?case by simp
  qed
  have at0: "corridor_closed 31 ! 0 = corridor_node 31 0" by (simp add: corridor_closed_def corridor_at)
  have "astar_loop corridor CELL_CHKNOPASS 0 32 ([32 * 31], corridor_nodes 31) =
      astar_loop corridor CELL_CHKNOPASS 0 32 ([0], corridor_next 31 0)"
    by (rule corridor_turn) (simp_all add: calc_index_mod at0 corridor_node_def)
  then show ?thesis
    using climb [of 31] corridor_top
    by (simp add: astar_loop.simps [of _ _ _ _ "([0], corridor_next 31 0)"] single_heap Let_def corridor_end_def)
qed

text \<open>Every node of the corridor has a parent, the start too.\<close>

lemma corridor_parents:
  assumes "j \<le> 31"
  shows "pn_parent (corridor_end ! (32 * j)) = Some (if j = 0 then 992 else 32 * (j - 1))"
proof (cases "j = 0")
  case True
  then show ?thesis
    by (simp add: corridor_end_def corridor_top) (simp add: corridor_next_def corridor_closed_def corridor_nodes_def)
next
  case False
  then show ?thesis using assms
    by (cases "j = 31")
      (simp_all add: corridor_end_def corridor_next_def corridor_closed_def corridor_nodes_def corridor_node_def diff_mult_distrib2)
qed

text \<open>C33: from the cell (0, 0) the search may never return. On a map with a corridor of walkable
  cells from (0, 0) to (0, 32), \<open>path_search\<close> from the one to the other does not end: (0, 32) has the
  place of the start, which looks unused since its coordinates are zero, so the node found is written
  over the start and gets a parent, and the loop that counts the steps back to the node without a parent goes around
  for ever.
\<close>

theorem search_from_corner_hangs:
  "path_search sample_walk corridor 0 0 0 32 0 CELL_CHKNOPASS = None"
proof -
  have "path_length corridor_end 0 0 = None"
  proof (rule ring_never_ends [where ring = "(\<lambda>j. 32 * j) ` {..31}"])
    fix i assume "i \<in> (\<lambda>j. 32 * j) ` {..31::nat}"
    then obtain j where j: "i = 32 * j" "j \<le> 31" by auto
    with corridor_parents [of j] show "\<exists>p \<in> (\<lambda>j. 32 * j) ` {..31}. pn_parent (corridor_end ! i) = Some p"
      by (cases "j = 0") (auto simp: image_iff intro: bexI [of _ 31] bexI [of _ "j - 1"])
  qed (auto simp: image_iff)
  moreover have "md_cell corridor \<noteq> None" "in_map corridor (0, 0)" "free_cell corridor CELL_CHKNOPASS (0, 32)"
    using corridor_cell(1) [of 32] by (simp_all add: corridor_def in_map_def free_cell_def)
  ultimately show ?thesis using corridor_found by (simp add: path_search_astar)
qed

end
