(* ===== verification/EasyPath.thy ===== *)
theory EasyPath
  imports Route
begin

text \<open>
  The easy path of \<open>path_search\<close> (flag 1) against its description, diagonally first and then
  straight, and the knock-back of \<open>path_blownpos\<close>: where the unit lands, and that the two
  coordinates can be read back from the packed result.
\<close>

section \<open>The easy path\<close>

text \<open>A coordinate after \<open>k\<close> steps from \<open>a\<close> to \<open>b\<close>.\<close>

definition easy_coord :: "int \<Rightarrow> int \<Rightarrow> nat \<Rightarrow> int" where
  "easy_coord a b k = a + sgn (b - a) * min (int k) \<bar>b - a\<bar>"

definition easy_cell :: "int \<Rightarrow> int \<Rightarrow> int \<Rightarrow> int \<Rightarrow> nat \<Rightarrow> int \<times> int" where
  "easy_cell x0 y0 x1 y1 k = (easy_coord x0 x1 k, easy_coord y0 y1 k)"

text \<open>The cells a unit comes to when it follows directions with \<open>dirx\<close> and \<open>diry\<close>.\<close>

fun follow :: "int \<times> int \<Rightarrow> directions list \<Rightarrow> (int \<times> int) list" where
  "follow p [] = []"
| "follow p (d # ds) =
     (let p' = (fst p + dirx ! nat (direction_value d), snd p + diry ! nat (direction_value d)) in p' # follow p' ds)"

lemma easy_coord_Suc: "easy_coord a b (Suc k) = easy_coord a b k + sgn (b - easy_coord a b k)"
  by (auto simp: easy_coord_def sgn_if min_def)

lemma easy_coord_stop: "easy_coord a b k = b \<longleftrightarrow> \<bar>b - a\<bar> \<le> int k"
  by (auto simp: easy_coord_def sgn_if min_def)

lemma easy_coord_sgn: "sgn (b - easy_coord a b (Suc k)) = (if easy_coord a b (Suc k) = b then 0 else sgn (b - easy_coord a b k))"
  by (auto simp: easy_coord_def sgn_if min_def)

definition easy_dir :: "int \<Rightarrow> int \<Rightarrow> int \<Rightarrow> int \<Rightarrow> nat \<Rightarrow> directions" where
  "easy_dir x0 y0 x1 y1 k = choose_direction (sgn (x1 - easy_coord x0 x1 k)) (sgn (y1 - easy_coord y0 y1 k))"

text \<open>What the loop comes to from the cell after \<open>k\<close> steps.\<close>

lemma easy_loop_spec:
  fixes x0 y0 x1 y1 :: int
  defines "n \<equiv> line_steps x0 y0 x1 y1" and "c \<equiv> easy_cell x0 y0 x1 y1"
  shows "k < n \<Longrightarrow> \<exists>x y i path'.
    easy_loop m cell x1 y1 (sgn (x1 - easy_coord x0 x1 k)) (sgn (y1 - easy_coord y0 y1 k))
      (easy_coord x0 x1 k) (easy_coord y0 y1 k) k path = (x, y, i, path') \<and>
    ((x, y) = (x1, y1) \<longleftrightarrow> n \<le> max_walkpath \<and> (\<forall>j. k < j \<and> j < n \<longrightarrow> case_prod (map_getcellp m) (c j) cell = 0)) \<and>
    ((x, y) = (x1, y1) \<longrightarrow> i = n) \<and> length path' = length path \<and>
    (length path = max_walkpath \<and> (x, y) = (x1, y1) \<longrightarrow>
       (\<forall>j < n. path' ! j = (if j < k then path ! j else easy_dir x0 y0 x1 y1 j)))"
proof (induction "n - k" arbitrary: k path)
  case 0
  then show ?case by simp
next
  case (Suc r)
  let ?x = "easy_coord x0 x1" and ?y = "easy_coord y0 y1"
  let ?path = "path[k := easy_dir x0 y0 x1 y1 k]"
  have fin: "(?x j, ?y j) = (x1, y1) \<longleftrightarrow> n \<le> j" for j
    unfolding prod.inject easy_coord_stop by (auto simp: n_def line_steps_def)
  have nxt: "?x k + sgn (x1 - ?x k) = ?x (Suc k)" "?y k + sgn (y1 - ?y k) = ?y (Suc k)"
    by (simp_all only: easy_coord_Suc)
  have dir: "(if ?x (Suc k) = x1 then 0 else sgn (x1 - ?x k)) = sgn (x1 - ?x (Suc k))"
    "(if ?y (Suc k) = y1 then 0 else sgn (y1 - ?y k)) = sgn (y1 - ?y (Suc k))"
    by (simp_all only: easy_coord_sgn)
  have stop: "sgn (x1 - ?x (Suc k)) = 0 \<and> sgn (y1 - ?y (Suc k)) = 0 \<longleftrightarrow> n \<le> Suc k"
    unfolding fin [symmetric] by (auto simp: sgn_0_0)
  have loop: "easy_loop m cell x1 y1 (sgn (x1 - ?x k)) (sgn (y1 - ?y k)) (?x k) (?y k) k path =
      (if k < max_walkpath then
         if n \<le> Suc k then (?x (Suc k), ?y (Suc k), Suc k, ?path)
         else if map_getcellp m (?x (Suc k)) (?y (Suc k)) cell \<noteq> 0 then (?x (Suc k), ?y (Suc k), Suc k, ?path)
         else easy_loop m cell x1 y1 (sgn (x1 - ?x (Suc k))) (sgn (y1 - ?y (Suc k))) (?x (Suc k)) (?y (Suc k)) (Suc k) ?path
       else (?x k, ?y k, k, path))"
    by (subst easy_loop.simps) (simp only: Let_def nxt dir stop easy_dir_def [symmetric] Suc_eq_plus1 [symmetric])
  consider (full) "\<not> k < max_walkpath" | (last) "k < max_walkpath" "n \<le> Suc k"
    | (blocked) "k < max_walkpath" "\<not> n \<le> Suc k" "map_getcellp m (?x (Suc k)) (?y (Suc k)) cell \<noteq> 0"
    | (go) "k < max_walkpath" "\<not> n \<le> Suc k" "map_getcellp m (?x (Suc k)) (?y (Suc k)) cell = 0" by blast
  then show ?case
  proof cases
    case full
    with Suc.prems fin [of k] show ?thesis unfolding loop by auto
  next
    case last
    with Suc.prems have "n = Suc k" by simp
    with last fin [of "Suc k"] show ?thesis unfolding loop by (auto simp: nth_list_update less_Suc_eq)
  next
    case blocked
    then have "\<exists>j. k < j \<and> j < n \<and> case_prod (map_getcellp m) (c j) cell \<noteq> 0"
      by (intro exI [of _ "Suc k"]) (simp add: c_def easy_cell_def)
    with blocked fin [of "Suc k"] show ?thesis unfolding loop by auto
  next
    case go
    have r: "r = n - Suc k" using Suc.hyps(2) by linarith
    have lt: "Suc k < n" using go(2) by simp
    have free: "(\<forall>j. k < j \<and> j < n \<longrightarrow> case_prod (map_getcellp m) (c j) cell = 0) \<longleftrightarrow>
        (\<forall>j. Suc k < j \<and> j < n \<longrightarrow> case_prod (map_getcellp m) (c j) cell = 0)"
      using go(3) by (auto simp: c_def easy_cell_def Suc_lessI less_Suc_eq) (metis Suc_lessI)
    obtain x y i path' where ih: "easy_loop m cell x1 y1 (sgn (x1 - ?x (Suc k))) (sgn (y1 - ?y (Suc k))) (?x (Suc k)) (?y (Suc k)) (Suc k) ?path = (x, y, i, path')"
      "(x, y) = (x1, y1) \<longleftrightarrow> n \<le> max_walkpath \<and> (\<forall>j. Suc k < j \<and> j < n \<longrightarrow> case_prod (map_getcellp m) (c j) cell = 0)"
      "(x, y) = (x1, y1) \<longrightarrow> i = n" "length path' = length ?path"
      "length ?path = max_walkpath \<and> (x, y) = (x1, y1) \<longrightarrow> (\<forall>j < n. path' ! j = (if j < Suc k then ?path ! j else easy_dir x0 y0 x1 y1 j))"
      using Suc.hyps(1) [OF r lt, of ?path] by blast
    have "easy_loop m cell x1 y1 (sgn (x1 - ?x k)) (sgn (y1 - ?y k)) (?x k) (?y k) k path = (x, y, i, path')"
      unfolding loop using go ih(1) by simp
    moreover have "\<forall>j < n. path' ! j = (if j < k then path ! j else easy_dir x0 y0 x1 y1 j)"
      if "length path = max_walkpath" "(x, y) = (x1, y1)"
      using ih(5) that go(1) by (auto simp: less_Suc_eq nth_list_update)
    ultimately show ?thesis using ih(2-4) free
      by (intro exI [of _ x] exI [of _ y] exI [of _ i] exI [of _ path']) simp
  qed
qed

lemma easy_follow:
  "k \<le> line_steps x0 y0 x1 y1 \<Longrightarrow>
    follow (easy_cell x0 y0 x1 y1 k) (map (easy_dir x0 y0 x1 y1) [k..<line_steps x0 y0 x1 y1]) =
    map (easy_cell x0 y0 x1 y1) [Suc k..<Suc (line_steps x0 y0 x1 y1)]"
proof (induction "line_steps x0 y0 x1 y1 - k" arbitrary: k)
  case 0
  then show ?case by simp
next
  case (Suc r)
  let ?n = "line_steps x0 y0 x1 y1" and ?x = "easy_coord x0 x1 k" and ?y = "easy_coord y0 y1 k"
  have k: "k < ?n" "r = ?n - Suc k" "Suc k \<le> ?n" using Suc.hyps(2) by linarith+
  have "?x \<noteq> x1 \<or> ?y \<noteq> y1" using k(1) by (auto simp: easy_coord_stop line_steps_def)
  then have d: "\<bar>sgn (x1 - ?x)\<bar> \<le> 1" "\<bar>sgn (y1 - ?y)\<bar> \<le> 1" "(sgn (x1 - ?x), sgn (y1 - ?y)) \<noteq> (0, 0)"
    by (auto simp: sgn_if)
  have step: "fst (easy_cell x0 y0 x1 y1 k) + dirx ! nat (direction_value (easy_dir x0 y0 x1 y1 k)) = easy_coord x0 x1 (Suc k)"
    "snd (easy_cell x0 y0 x1 y1 k) + diry ! nat (direction_value (easy_dir x0 y0 x1 y1 k)) = easy_coord y0 y1 (Suc k)"
    by (simp_all add: easy_cell_def easy_dir_def choose_direction_step(3,4) [OF d] easy_coord_Suc)
  have "follow (easy_cell x0 y0 x1 y1 k) (map (easy_dir x0 y0 x1 y1) [k..<?n]) =
      easy_cell x0 y0 x1 y1 (Suc k) # follow (easy_cell x0 y0 x1 y1 (Suc k)) (map (easy_dir x0 y0 x1 y1) [Suc k..<?n])"
    by (simp only: upt_conv_Cons [OF k(1)] list.map follow.simps Let_def step easy_cell_def [symmetric])
  also have "\<dots> = map (easy_cell x0 y0 x1 y1) [Suc k..<Suc ?n]"
    using Suc.hyps(1) [OF k(2,3)] k(1) by (simp add: upt_conv_Cons [of "Suc k" "Suc ?n"] del: upt_Suc)
  finally show ?case .
qed

lemma easy_loop_start:
  fixes x0 y0 x1 y1 :: int
  defines "n \<equiv> line_steps x0 y0 x1 y1"
  assumes pos: "0 < n" and len: "length path = max_walkpath"
  shows "\<exists>x y i path'. easy_loop m cell x1 y1 (sgn (x1 - x0)) (sgn (y1 - y0)) x0 y0 0 path = (x, y, i, path') \<and>
    ((x, y) = (x1, y1) \<longleftrightarrow> n \<le> max_walkpath \<and>
       (\<forall>k. 0 < k \<and> k < n \<longrightarrow> case_prod (map_getcellp m) (easy_cell x0 y0 x1 y1 k) cell = 0)) \<and>
    ((x, y) = (x1, y1) \<longrightarrow> i = n) \<and>
    ((x, y) = (x1, y1) \<longrightarrow> follow (x0, y0) (take n path') = map (easy_cell x0 y0 x1 y1) [1..<Suc n])"
proof -
  have zero: "easy_coord x0 x1 0 = x0" "easy_coord y0 y1 0 = y0" by (simp_all add: easy_coord_def)
  from easy_loop_spec [of 0 x0 y0 x1 y1 m cell path, folded n_def, unfolded zero, OF pos]
  show ?thesis
  proof (elim exE conjE)
    fix x y i path'
    assume r: "easy_loop m cell x1 y1 (sgn (x1 - x0)) (sgn (y1 - y0)) x0 y0 0 path = (x, y, i, path')"
      "(x, y) = (x1, y1) \<longleftrightarrow> n \<le> max_walkpath \<and> (\<forall>j. 0 < j \<and> j < n \<longrightarrow> case_prod (map_getcellp m) (easy_cell x0 y0 x1 y1 j) cell = 0)"
      "(x, y) = (x1, y1) \<longrightarrow> i = n" "length path' = length path"
      "length path = max_walkpath \<and> (x, y) = (x1, y1) \<longrightarrow>
        (\<forall>j < n. path' ! j = (if j < 0 then path ! j else easy_dir x0 y0 x1 y1 j))"
    have way: "follow (x0, y0) (take n path') = map (easy_cell x0 y0 x1 y1) [1..<Suc n]" if "(x, y) = (x1, y1)"
    proof -
      have "take n path' = map (easy_dir x0 y0 x1 y1) [0..<n]" using that r(2,4,5) len by (intro nth_equalityI) auto
      then show ?thesis using easy_follow [of 0 x0 y0 x1 y1, folded n_def] by (simp add: easy_cell_def zero)
    qed
    show ?thesis
      by (intro exI [of _ x] exI [of _ y] exI [of _ i] exI [of _ path'] conjI)
        (rule r(1), rule r(2), rule r(3), rule impI, rule way)
  qed
qed

lemma path_search_easy:
  assumes "md_cell m \<noteq> None" "in_map m (x0, y0)" "free_cell m cell (x1, y1)"
  shows "path_search wpd m x0 y0 x1 y1 1 cell =
    (case easy_loop m cell x1 y1 (sgn (x1 - x0)) (sgn (y1 - y0)) x0 y0 0 (wp_path wpd) of
       (x, y, i, path) \<Rightarrow>
         if x = x1 \<and> y = y1 then Some (\<lparr>wp_len = i, wp_pos = 0, wp_path = path\<rparr>, True)
         else Some (wpd\<lparr>wp_path := path\<rparr>, False))"
  using assms unfolding path_search_def
  by (simp add: in_map_def free_cell_def not_le not_less del: not_None_eq)

text \<open>C31: the easy path is the one described. Between two different cells of a map, the second not blocked, the
  easy search returns true exactly when they are at most 32 steps apart and no
  cell between them is blocked on the way that goes diagonally first and then straight; the path it
  then writes has as many steps as the larger coordinate difference, and a unit that follows it comes through
  the cells of that way to the target. From a cell to itself the search writes one step to
  nowhere, \<open>DIR_CENTER\<close>.
\<close>

theorem easy_path_exact:
  assumes m: "md_cell m \<noteq> None" "in_map m (x0, y0)" "free_cell m cell (x1, y1)"
    and len: "length (wp_path wpd) = max_walkpath"
  defines "n \<equiv> line_steps x0 y0 x1 y1"
  shows "\<exists>wpd' ok. path_search wpd m x0 y0 x1 y1 1 cell = Some (wpd', ok) \<and>
    (if n = 0 then ok \<and> wp_len wpd' = 1 \<and> wp_path wpd' ! 0 = DIR_CENTER
     else (ok \<longleftrightarrow> n \<le> max_walkpath \<and>
             (\<forall>k. 0 < k \<and> k < n \<longrightarrow> case_prod (map_getcellp m) (easy_cell x0 y0 x1 y1 k) cell = 0)) \<and>
          (ok \<longrightarrow> wp_len wpd' = n \<and> wp_pos wpd' = 0 \<and>
             follow (x0, y0) (take n (wp_path wpd')) = map (easy_cell x0 y0 x1 y1) [1..<Suc n] \<and>
             easy_cell x0 y0 x1 y1 n = (x1, y1)))"
proof (cases "n = 0")
  case True
  then have "x1 = x0" "y1 = y0" by (simp_all add: n_def line_steps_def)
  then show ?thesis using True len path_search_easy [OF m, of wpd]
    by (simp add: easy_loop.simps max_walkpath_def choose_direction_def walk_choices_def Let_def) blast
next
  case False
  note fin = easy_loop_start [OF _ len, of x0 y0 x1 y1 m cell, folded n_def]
  then obtain x y i path' where l: "easy_loop m cell x1 y1 (sgn (x1 - x0)) (sgn (y1 - y0)) x0 y0 0 (wp_path wpd) = (x, y, i, path')"
    "(x, y) = (x1, y1) \<longleftrightarrow> n \<le> max_walkpath \<and> (\<forall>k. 0 < k \<and> k < n \<longrightarrow> case_prod (map_getcellp m) (easy_cell x0 y0 x1 y1 k) cell = 0)"
    "(x, y) = (x1, y1) \<longrightarrow> i = n"
    "(x, y) = (x1, y1) \<longrightarrow> follow (x0, y0) (take n path') = map (easy_cell x0 y0 x1 y1) [1..<Suc n]"
    using False by blast
  have "easy_cell x0 y0 x1 y1 n = (x1, y1)"
    by (auto simp: easy_cell_def easy_coord_stop n_def line_steps_def)
  moreover note search = path_search_easy [OF m, of wpd, unfolded l(1) prod.case]
  ultimately show ?thesis
  proof (cases "(x, y) = (x1, y1)")
    case True
    moreover from True l(3) have "i = n" by simp
    ultimately show ?thesis using False search l(2,4) \<open>easy_cell x0 y0 x1 y1 n = (x1, y1)\<close>
      by (intro exI [of _ "\<lparr>wp_len = n, wp_pos = 0, wp_path = path'\<rparr>"] exI [of _ True]) (simp del: upt_Suc)
  next
    case False
    with \<open>n \<noteq> 0\<close> search l(2) show ?thesis
      by (intro exI [of _ "wpd\<lparr>wp_path := path'\<rparr>"] exI [of _ False]) (simp del: upt_Suc)
  qed
qed

lemma easy_path_exact_witness:
  "\<exists>wpd' ok. path_search \<lparr>wp_len = 0, wp_pos = 0, wp_path = replicate max_walkpath DIR_CENTER\<rparr>
       sample_map 0 1 2 0 1 CELL_CHKNOPASS = Some (wpd', ok) \<and>
     (ok \<longleftrightarrow> map_getcellp sample_map 1 0 CELL_CHKNOPASS = 0)"
proof -
  have m: "md_cell sample_map \<noteq> None" "in_map sample_map (0, 1)" "free_cell sample_map CELL_CHKNOPASS (2, 0)"
    by (simp_all add: sample_map_def in_map_def) code_simp
  have two: "(\<forall>k. 0 < k \<and> k < (2::nat) \<longrightarrow> P k) \<longleftrightarrow> P 1" for P
    by (auto simp: less_Suc_eq numeral_2_eq_2)
  have "line_steps 0 1 2 0 = 2" "easy_cell 0 1 2 0 1 = (1, 0)" by code_simp+
  then show ?thesis
    using easy_path_exact [OF m, of "\<lparr>wp_len = 0, wp_pos = 0, wp_path = replicate max_walkpath DIR_CENTER\<rparr>"]
    by (auto simp: two max_walkpath_def)
qed

section \<open>Knock-back\<close>

lemma passable_in_map:
  assumes "map_getcellp m x y CELL_CHKPASS \<noteq> 0" "to_int16 x = x" "to_int16 y = y"
  shows "in_map m (x, y)"
  using assms by (auto simp: map_getcellp_def in_map_def Let_def split: if_splits)

lemma blown_loop_lands:
  assumes fits: "map_fits m"
  shows "in_map m (x0, y0) \<Longrightarrow> \<bar>dx\<bar> \<le> 1 \<Longrightarrow> \<bar>dy\<bar> \<le> 1 \<Longrightarrow>
    (case blown_loop rnd halt m n x0 y0 dx dy of (x, y) \<Rightarrow>
       in_map m (x, y) \<and> \<bar>x - x0\<bar> \<le> int n \<and> \<bar>y - y0\<bar> \<le> int n \<and>
       ((x, y) = (x0, y0) \<or> map_getcellp m x y CELL_CHKPASS \<noteq> 0))"
proof (induction n arbitrary: x0 y0 dx dy)
  case 0
  then show ?case by simp
next
  case (Suc n)
  let ?pass = "\<lambda>x y. map_getcellp m x y CELL_CHKPASS \<noteq> 0"
  have near: "to_int16 (x0 + d) = x0 + d" "to_int16 (y0 + d) = y0 + d" if "\<bar>d\<bar> \<le> 1" for d
    using Suc.prems(1) fits that by (auto simp: in_map_def map_fits_def intro!: to_int16_id)
  have on: "case blown_loop rnd halt m n (to_int16 (x0 + ex)) (to_int16 (y0 + ey)) ex ey of (x, y) \<Rightarrow>
       in_map m (x, y) \<and> \<bar>x - x0\<bar> \<le> int (Suc n) \<and> \<bar>y - y0\<bar> \<le> int (Suc n) \<and> ((x, y) = (x0, y0) \<or> ?pass x y)"
    if e: "\<bar>ex\<bar> \<le> 1" "\<bar>ey\<bar> \<le> 1" and ok: "?pass (x0 + ex) (y0 + ey) \<or> ex = 0 \<and> ey = 0" for ex ey
  proof -
    have "in_map m (x0 + ex, y0 + ey)" using ok Suc.prems(1) passable_in_map near e by auto
    from Suc.IH [OF this e] ok e show ?thesis unfolding near(1) [OF e(1)] near(2) [OF e(2)] by auto
  qed
  show ?case
  proof (cases "dx = 0 \<and> dy = 0")
    case True
    with Suc.prems show ?thesis by simp
  next
    case moving: False
    show ?thesis
    proof (cases "?pass (x0 + dx) (y0 + dy)")
      case True
      with on [OF Suc.prems(2,3)] moving show ?thesis by auto
    next
      case wall: False
      show ?thesis
      proof (cases halt)
        case True
        with wall moving Suc.prems(1) show ?thesis by simp
      next
        case False
        define fx where "fx \<longleftrightarrow> dx \<noteq> 0 \<and> ?pass (x0 + dx) y0"
        define fy where "fy \<longleftrightarrow> dy \<noteq> 0 \<and> ?pass x0 (y0 + dy)"
        define ex where "ex = (if \<not> fx then 0 else if fx \<and> fy \<and> rnd (Suc n) then 0 else dx)"
        define ey where "ey = (if \<not> fy then 0 else if fx \<and> fy \<and> \<not> rnd (Suc n) then 0 else dy)"
        have "blown_loop rnd halt m (Suc n) x0 y0 dx dy =
            blown_loop rnd halt m n (to_int16 (x0 + ex)) (to_int16 (y0 + ey)) ex ey"
          using moving wall False by (auto simp: Let_def fx_def fy_def ex_def ey_def)
        moreover have "\<bar>ex\<bar> \<le> 1" "\<bar>ey\<bar> \<le> 1" using Suc.prems(2,3) by (simp_all add: ex_def ey_def)
        moreover have "?pass (x0 + ex) (y0 + ey) \<or> ex = 0 \<and> ey = 0"
          by (auto simp: ex_def ey_def) (auto simp: fx_def fy_def)
        ultimately show ?thesis using on by simp
      qed
    qed
  qed
qed

text \<open>How the callers read the two coordinates back.\<close>

lemma pack_pos_read:
  assumes "0 \<le> x" "x < 32768" "0 \<le> y" "y < 32768"
  shows "sint (pack_pos (x, y)) div 65536 = x" "uint (pack_pos (x, y) AND 0xFFFF) = y"
proof -
  have "push_bit 16 x OR y = concat_bit 16 y x"
    using assms(3,4) by (simp add: concat_bit_def take_bit_int_eq_self or.commute)
  also have "\<dots> = y + x * 65536"
    using assms(3,4) by (simp add: concat_bit_eq take_bit_int_eq_self push_bit_eq_mult)
  finally have "pack_pos (x, y) = word_of_int (y + x * 65536)"
    by (simp add: pack_pos_def of_int_push_bit [symmetric] of_int_or_eq [symmetric] del: of_int_add of_int_mult)
  moreover have "sint (word_of_int (y + x * 65536) :: 32 word) = y + x * 65536"
    using assms by (simp add: int_word_sint del: of_int_add of_int_mult)
  moreover have "uint (word_of_int (y + x * 65536) AND (0xFFFF :: 32 word)) = y"
  proof -
    have low: "uint (word_of_int k AND (0xFFFF :: 32 word)) = k mod 65536" if "0 \<le> k" "k < 2147483648" for k
    proof -
      have "uint (word_of_int k AND (0xFFFF :: 32 word)) = k AND 0xFFFF"
        using that by (simp add: uint_and uint_word_of_int)
      also have "\<dots> = take_bit 16 k" by (simp add: take_bit_eq_mask mask_eq_exp_minus_1)
      finally show ?thesis by (simp add: take_bit_eq_mod)
    qed
    have "(y + x * 65536) mod 65536 = y" using assms by simp
    with low [of "y + x * 65536"] assms show ?thesis by simp
  qed
  ultimately show "sint (pack_pos (x, y)) div 65536 = x" "uint (pack_pos (x, y) AND 0xFFFF) = y"
    using assms by (simp_all del: of_int_add of_int_mult)
qed

text \<open>C32: a knock-back ends on a cell that can be stood on. From a cell of a map, for any direction, any number of steps, any
  setting of \<open>path_blown_halt\<close> and any random answers, \<open>path_blownpos\<close> returns a
  cell of the map that is either the one the unit stood on or passable, at most 25 cells away (and at most
  the number of steps asked for), and reading its two halves the way the caller does gives back its coordinates.
\<close>

theorem blown_lands_on_passable:
  assumes fits: "map_fits m" and start: "in_map m (x0, y0)" and cells: "md_cell m \<noteq> None"
  shows "\<exists>x y. sint (path_blownpos rnd halt m x0 y0 dx dy steps) div 65536 = x \<and>
    uint (path_blownpos rnd halt m x0 y0 dx dy steps AND 0xFFFF) = y \<and>
    in_map m (x, y) \<and> ((x, y) = (x0, y0) \<or> map_getcellp m x y CELL_CHKPASS \<noteq> 0) \<and>
    \<bar>x - x0\<bar> \<le> min 25 (max 0 steps) \<and> \<bar>y - y0\<bar> \<le> min 25 (max 0 steps)"
proof -
  define n where "n = nat (if steps > 25 then 25 else steps)"
  define ill where "ill \<longleftrightarrow> dx > 1 \<or> dx < - 1 \<or> dy > 1 \<or> dy < - 1"
  define ex where "ex = (if ill then (if dx > 0 then 1 else if dx < 0 then - 1 else 0) else dx)"
  define ey where "ey = (if ill then (if dy > 0 then 1 else if dy < 0 then - 1 else 0) else dy)"
  obtain x y where l: "blown_loop rnd halt m n x0 y0 ex ey = (x, y)" by (cases "blown_loop rnd halt m n x0 y0 ex ey")
  have "\<bar>ex\<bar> \<le> 1" "\<bar>ey\<bar> \<le> 1" by (auto simp: ex_def ey_def ill_def)
  from blown_loop_lands [OF fits start this, where rnd = rnd and halt = halt and n = n] l
  have r: "in_map m (x, y)" "\<bar>x - x0\<bar> \<le> int n" "\<bar>y - y0\<bar> \<le> int n"
    "(x, y) = (x0, y0) \<or> map_getcellp m x y CELL_CHKPASS \<noteq> 0" by simp_all
  have "path_blownpos rnd halt m x0 y0 dx dy steps = pack_pos (x, y)"
    using cells l by (simp add: path_blownpos_def Let_def n_def ex_def ey_def ill_def del: not_None_eq)
  moreover have "0 \<le> x" "x < 32768" "0 \<le> y" "y < 32768" using r(1) fits by (simp_all add: in_map_def map_fits_def)
  note pack_pos_read [OF this]
  moreover have "int n = min 25 (max 0 steps)" by (simp add: n_def)
  ultimately show ?thesis using r by (intro exI [of _ x] exI [of _ y]) simp
qed

lemma blown_lands_on_passable_witness:
  "\<exists>x y. sint (path_blownpos (\<lambda>_. True) False sample_map 2 2 (- 1) (- 1) 3) div 65536 = x \<and>
     uint (path_blownpos (\<lambda>_. True) False sample_map 2 2 (- 1) (- 1) 3 AND 0xFFFF) = y \<and> in_map sample_map (x, y)"
proof -
  have "map_fits sample_map" "in_map sample_map (2, 2)" "md_cell sample_map \<noteq> None"
    by (simp_all add: sample_map_def map_fits_def in_map_def)
  from blown_lands_on_passable [OF this, of "\<lambda>_. True" False "- 1" "- 1" 3] show ?thesis by blast
qed

section \<open>Opposite directions\<close>

text \<open>
  \<open>direction_opposite\<close> is declared \<open>bool\<close>: it is true for every direction except
  the south, for which the opposite is number 0. A caller that takes the result for a direction gets
  the northwest, or the north.
\<close>

lemma direction_opposite_truth: "direction_opposite d \<longleftrightarrow> d \<noteq> DIR_SOUTH"
  by (cases d) (simp_all add: direction_opposite_def)

end
