(* ===== verification/Spec2Isabelle.thy ===== *)
theory Spec2Isabelle
  imports ArenaAwards ArenaItems SearchHall DuelSystem ChatSystem Bag Bank HeapOrder Corner EasyPath
begin

text \<open>
  \<^bold>\<open>What this is about.\<close> The repository is a game server; what it adds to the server it derives from is
  a 7x7 arena (\<open>src/src/map/arena7x7.cpp\<close>), in which two teams fight until one has no living
  players, with ranking, detailed logs and saving to a database. This development models the arena
  completely, and the parts of the map server on which players' goods depend: inventory, purse and bank, carts
  and storages, the trade between two players, player shops, buying stores and the search for both; further the
  path finding, by which every unit of the game moves, and two ways in which players meet, duels and chat rooms. Of the common library it has the timer manager, with the heap under it, and
  the string and array helpers the modelled code calls.

  \<^bold>\<open>How the parts interact.\<close> The server is single-threaded: everything below is a sequence of calls.
  Scripts and other modules call the arena (\<open>ArenaCalls\<close>): a script creates a match and lets players join,
  the battle code reports damage, a death reaches \<open>arena7x7_on_death\<close>, which finds who is credited with
  it, records the kill and makes the victim a tombstone, and a timer of the match finishes it. Finishing
  ranks the players, saves the match and restores the tombstones, and those functions call the player
  engine, which calls the arena back (a warp removes the player from the match). Trade messages reach
  \<open>trade.cpp\<close> through the packet handlers of \<open>clif.cpp\<close>, and the exchange calls the inventory of
  \<open>pc.cpp\<close>; so do shops and buying stores. A player with a search window asks the stores of all others
  for offers, and may look into a store found so from afar, which shops and buying stores ask for before they
  refuse a customer out of sight. Leaving a map or the game also ends what a player does in a duel or a chat room.
\<close>

text \<open>
  \<^bold>\<open>Shared theories.\<close>
  \<^item> \<open>Prelude\<close>: machine widths, unordered maps (\<open>std::unordered_map\<close>) with the locale
    \<open>unordered_map\<close> of what their clients rely on and its interpretation on association lists;
    \<open>ARR_FIND\<close>, \<open>cap_value\<close>, 16-bit stores.
  \<^item> \<open>Strlib\<close>: \<open>safestrncpy\<close> and \<open>strnlen\<close> of \<open>common/strlib.cpp\<close> on buffers of bytes.
  \<^item> \<open>Bheap\<close>: the \<open>BHEAP_*\<close> macros of \<open>common/db.hpp\<close> as list operations. The locale
    \<open>topcmp\<close> states what a comparator promises; heap order under push and pop is proved in it.
  \<^item> \<open>Timer\<close>: \<open>common/timer.cpp\<close>. A timer is a slot of an array, the heap holds slot numbers, freed
    slots go to a stack. \<open>do_timer\<close> is a \<open>partial_function\<close>, because a callback may add timers
    for ever; it is proved to return when callbacks leave the manager well formed and add no due timers.
    \<open>HeapOrder\<close> shows that the heap with the timers' comparator sorts.

  \<^bold>\<open>The arena.\<close> Each theory has the functions of one section of \<open>arena7x7.cpp\<close>.
  \<^item> \<open>ArenaTypes\<close>: the structures of \<open>arena7x7.hpp\<close>; \<open>ArenaEnv\<close>: the globals
    (\<open>active_matches\<close>, \<open>player_match\<close>), the sessions as far as the arena reads them, the
    tables behind the database handle with transactions, and the environment: clock, configuration, which
    statement fails, iteration orders, calls into the engine as a log.
  \<^item> \<open>ArenaRanking\<close>, \<open>ArenaSave\<close>, \<open>ArenaDetail\<close>: start-up and ranking, saving a match,
    the detailed logs and their summaries.
  \<^item> \<open>ArenaMatch\<close>: creating, joining, leaving, starting, finishing, cancelling.
    \<open>ArenaStats\<close>: the record functions. \<open>ArenaTomb\<close>: tombstones. \<open>ArenaHooks\<close>: damage,
    death, healing and items. \<open>ArenaCalls\<close>: script commands and the code in other modules that call them.
  \<^item> \<open>Ledger\<close>: a sum kept up to date entry by entry equals the sum over the log, as a locale, which the
    aggregates of a match interpret.
  \<^item> \<open>ArenaSystem\<close>: the calls as one type with a step function; \<open>ArenaReach\<close> the reachable
    worlds; \<open>ArenaInvariants\<close> the invariants and their preservation by every call.
\<close>

text \<open>
  \<^bold>\<open>What the arena's lemmas show.\<close> \<open>ArenaHistory\<close>: the registrations and the matches agree; logs
  only grow, a waiting match is never re-entered, a decided match keeps its record; the incremental
  aggregates are the sums of the logs; log entries name players of the match. \<open>ArenaLifecycle\<close>: exact
  effects of creating, joining, leaving, cancelling and restarting. \<open>ArenaCombat\<close> and \<open>ArenaDeath\<close>:
  who is credited with a kill, as an equivalence with a search over the whole log, what a kill, a death, a
  warp and the restoration of tombstones change. \<open>ArenaItems\<close>: what a consumed item records, unit by
  unit. \<open>ArenaAwards\<close>: finishing ranks every player who is not a deserter once. Several of these
  statements describe behaviour that is not what the code's comments say.

  \<^bold>\<open>Inventory, purse, bank, trade.\<close>
  \<^item> \<open>Inventory\<close>: \<open>pc_additem\<close>, \<open>pc_delitem\<close>, \<open>pc_checkadditem\<close>,
    \<open>pc_payzeny\<close>, \<open>pc_getzeny\<close>, the bank functions of \<open>pc.cpp\<close> on a record of the player.
    \<open>Stock\<close>: well-formed inventories, how much of each item there is, and what each operation does to it;
    \<open>Bag\<close> and \<open>Bank\<close> state it for callers.
  \<^item> \<open>Trade\<close>: all of \<open>trade.cpp\<close> and its packet handlers, over the map from ids to players that
    \<open>map_id2sd\<close> reads. \<open>TradeExchange\<close>: the ten positions and the zeny of the exchange, one by
    one: after the check against cheating the offers ask for no more than the inventory holds, and every step
    keeps that and the sum of both stocks. \<open>TradeSystem\<close>: the players under every sequence of logins,
    logouts, warps, other play and messages. \<open>TradeFairness\<close>: partners are mutual, goods move only in a
    confirmed exchange and exactly, trades that pass the checks complete, and the one hole: a player who
    asks for a second trade from a chat room, or by \<open>@trade\<close>, while trading. The invariant is proved
    for runs without such requests, and \<open>stolen_offer\<close> is a run with one.
  \<^item> \<open>Containers\<close>: the cart of \<open>pc.cpp\<close>, the account's, premium and guild storages of
    \<open>storage.cpp\<close>, and the packet handlers that move items between them. \<open>Hoard\<close>: well-formed
    carts and storages, what each operation adds and takes, and that every message conserves the sum;
    \<open>Custody\<close> states it, with two places where the code does less than it means to: stacks of
    rented items in a cart, and the lock on a guild storage.
  \<^item> \<open>Vending\<close>: the shops of \<open>vending.cpp\<close>, over the map from ids to players, and their packet
    handlers. \<open>Stalls\<close>: the checks of a purchase bound the orders together by what the cart holds, and the
    deliveries take exactly them. \<open>Bazaar\<close>: a purchase is all or nothing and exact on the seller's side; what the
    buyer gets is up to \<open>pc_additem\<close>, whose refusal nobody looks at. \<open>Booths\<close>: under every sequence of
    messages players keep their shape, open shops are the registered ones, and neither goods nor zeny are created.
    \<open>StallSearch\<close>: what searching a shop reports.
  \<^item> \<open>Buyingstore\<close>: the stores of \<open>buyingstore.cpp\<close>, where a player lists what he buys, and
    their packet handlers. \<open>Purveyor\<close>: what the checks of a sale promise and what handing over a line moves.
    \<open>Plaza\<close>: a sale to a store whose sums stay within 32 bits is all or nothing and fair; where they do not,
    zeny comes from nothing. \<open>Storefront\<close>: every sequence of messages keeps stores well formed and registered.
  \<^item> \<open>Searchstore\<close>: \<open>searchstore.cpp\<close> with its packets and its script command, over both kinds of
    stores. \<open>SearchHall\<close>: the locale \<open>shop_search\<close> states what the loop over the stores relies on, and
    both kinds of stores interpret it; a search finds every offer once, the pages show every result once, and a
    store is open from afar only after a click on a present result.

  \<^bold>\<open>Duels and chat rooms.\<close>
  \<^item> \<open>Duels\<close>: \<open>duel.cpp\<close> with the commands of \<open>atcommand.cpp\<close> and the places in \<open>pc.cpp\<close> and
    \<open>unit.cpp\<close> that end duels. \<open>duel_list\<close> and the players are unordered maps, what the code tells a player are
    values. \<open>Tourney\<close> is the specification: a player is free, asked to a duel or fighting in one, and a duel is the
    set of those who fight in it; \<open>tourney_of\<close> is what a state of the code stands for. \<open>DuelRules\<close>: every function
    keeps the counters right and does what the specification does. \<open>DuelSystem\<close>: so does every sequence of events.
  \<^item> \<open>Chat\<close>: \<open>chat.cpp\<close> with its packets and the script commands about waiting rooms. The entries of
    \<open>usersd\<close> in use are a list, whose length is \<open>users\<close>; \<open>chat_npckickall\<close> is a \<open>partial_function\<close>. \<open>ChatRules\<close>:
    rooms and players agree, after every operation. \<open>ChatSystem\<close>: the reachable states, that every event returns, and
    what waiting rooms do not do as documented.

  \<^bold>\<open>Path finding.\<close>
  \<^item> \<open>Path\<close>: \<open>path.cpp\<close> and the map cells it reads (\<open>map_getcellp\<close>), with the second set of
    heap macros in \<open>Bheap2\<close>. The array \<open>tp\<close> of nodes is a list, pointers into it are indices.
  \<^item> \<open>ShotLine\<close>: \<open>path_search_long\<close> computes the straight line, and its answer does not depend on the
    order of the two ends. \<open>EasyPath\<close>: the easy path and the knock-back.
  \<^item> \<open>Route\<close>: legal steps and walks, the invariant of the A* search (places of the array, costs, parents, open set) and
    a measure that every turn of its loop lowers; \<open>Astar\<close>: the search ends, what it returns is a legal
    walk, and where no two cells share a place of the array it finds the target exactly when legal steps lead there.
    \<open>Corner\<close>: from the cell (0, 0) none of this holds, and a search that never returns.
\<close>

text \<open>
  \<^bold>\<open>Bounds, fuel and assumptions.\<close> Integers are words of their width where the code can wrap (tick
  differences, counters, weights, 32-bit limits) and mathematical integers with explicit bounds elsewhere;
  16-bit amounts go through \<open>to_int16\<close>. The sums of a sale to a buying store are 32-bit in the code; signed
  overflow, undefined in C++, is taken to wrap as the machine does (\<open>to_int32\<close>), and \<open>store_fits\<close> is the
  condition that it does not happen. \<open>MAX_INVENTORY\<close> is 200, which the headers give for the packet
  version they choose. The match counter is assumed not to wrap (\<open>op_ready\<close> in \<open>ArenaSystem\<close>):
  that would take over four billion matches since the last restart. The equipment code, which
  \<open>pc_additem\<close> and \<open>pc_delitem\<close> call, is an argument that the trade's lemmas assume to change only
  what is worn and how much a player can carry (\<open>equip_neutral\<close>). The lemmas of the exchange assume that
  rented items that ran out are gone before a message is handled (\<open>all_fresh\<close>), which is the work of a timer.
  In chat rooms a new room gets a number that is not in use, and scripts ask for no negative number of places
  (\<open>event_legal\<close>): with one the code stores a limit beyond the array. The scripts that the event of a waiting room runs
  are recorded, not run. The counters of duels are integers, since what they count fits 32 bits.
  No definition uses fuel. The loops that need not end, of the timers, of the path searches and of
  throwing everybody out of a waiting room, are partial functions, and that they return is proved, for the A* search
  from every cell but (0, 0).

  \<^bold>\<open>Not modelled.\<close> The game rules (skills, status, battle, monsters), the script interpreter, client packets
  and log lines, sockets, memory and configuration files, and the login, char and web servers; of the player
  engine only the calls the arena and the trade make and receive. Dropping, using and equipping items are
  outside the inventory modelled here, as are opening and saving storages, restoring shops and buying stores at
  start-up and the tables that mirror them, rental timers,
  achievements and quest displays that \<open>pc_additem\<close> updates. The tax on shops is computed in floating point and
  is an argument, taken to lie between nothing and the whole amount (\<open>tax_ok\<close>). The client's circular distance in \<open>path.cpp\<close>
  needs square roots in floating point and is left out. Of chat rooms the achievements, the place on the map among
  other objects and the teams a battleground takes from a waiting room are left out. Database statements are model operations on tables
  that succeed or fail as a whole: SQL text, escaping and the client library are not modelled.
\<close>

end
